(* ===== verification/Prelude.thy ===== *)
theory Prelude
  imports Main "HOL-Library.AList"
begin

text \<open>
  Shared vocabulary of the development: byte strings, fallible results, Go maps as association
  lists with distinct keys, saturating time arithmetic, and the generic interfaces (locales) that
  the component theories interpret: a finite map with a size, a machine with an invariant, and an
  encoder with its decoder.
\<close>

section \<open>Basic types\<close>

text \<open>A Go \<open>string\<close> or \<open>[]byte\<close> is a list of bytes; Isabelle's characters are bytes.\<close>

type_synonym bytes = string

text \<open>A pair \<open>(value, error)\<close> of Go: \<open>Inl\<close> carries the text of the error.\<close>

type_synonym 'a result = "bytes + 'a"

abbreviation Err :: "bytes \<Rightarrow> 'a result" where
  "Err \<equiv> Inl"

abbreviation Ok :: "'a \<Rightarrow> 'a result" where
  "Ok \<equiv> Inr"

named_theorems gomap_simps
  \<open>rewriting of the operations on Go maps\<close>

section \<open>Go maps\<close>

text \<open>
  A Go map is an association list with distinct keys. The order of the list is one possible
  iteration order of the map; no theorem of the development depends on it.
\<close>

type_synonym ('k, 'v) gomap = "('k \<times> 'v) list"

definition mget :: "('k, 'v) gomap \<Rightarrow> 'k \<Rightarrow> 'v option" where
  "mget m k = map_of m k"

definition mput :: "('k, 'v) gomap \<Rightarrow> 'k \<Rightarrow> 'v \<Rightarrow> ('k, 'v) gomap" where
  "mput m k v = AList.update k v m"

definition mdel :: "('k, 'v) gomap \<Rightarrow> 'k \<Rightarrow> ('k, 'v) gomap" where
  "mdel m k = AList.delete k m"

definition mlen :: "('k, 'v) gomap \<Rightarrow> nat" where
  "mlen m = length m"

definition minv :: "('k, 'v) gomap \<Rightarrow> bool" where
  "minv m \<longleftrightarrow> distinct (map fst m)"

text \<open>\<open>_, ok := m[k]\<close>, a loop that deletes entries, and a loop that rewrites values.\<close>

definition mhas :: "('k, 'v) gomap \<Rightarrow> 'k \<Rightarrow> bool" where
  "mhas m k \<longleftrightarrow> mget m k \<noteq> None"

definition mkeep :: "('k \<Rightarrow> 'v \<Rightarrow> bool) \<Rightarrow> ('k, 'v) gomap \<Rightarrow> ('k, 'v) gomap" where
  "mkeep P m = filter (\<lambda>(k, v). P k v) m"

definition mmapv :: "('v \<Rightarrow> 'v) \<Rightarrow> ('k, 'v) gomap \<Rightarrow> ('k, 'v) gomap" where
  "mmapv f m = map (\<lambda>(k, v). (k, f v)) m"

text \<open>The contract of a map with a size, and what its clients derive from it.\<close>

locale sized_map =
  fixes empty :: 'm
    and get :: "'m \<Rightarrow> 'k \<Rightarrow> 'v option"
    and put :: "'m \<Rightarrow> 'k \<Rightarrow> 'v \<Rightarrow> 'm"
    and del :: "'m \<Rightarrow> 'k \<Rightarrow> 'm"
    and len :: "'m \<Rightarrow> nat"
    and wf :: "'m \<Rightarrow> bool"
  assumes get_empty: "get empty k = None"
    and get_put: "get (put m k v) k' = (if k' = k then Some v else get m k')"
    and get_del: "get (del m k) k' = (if k' = k then None else get m k')"
    and len_empty: "len empty = 0"
    and len_put: "len (put m k v) = (if get m k = None then Suc (len m) else len m)"
    and len_del: "wf m \<Longrightarrow> len (del m k) = (if get m k = None then len m else len m - 1)"
    and len_pos: "get m k = Some v \<Longrightarrow> 0 < len m"
    and wf_empty: "wf empty"
    and wf_put: "wf m \<Longrightarrow> wf (put m k v)"
    and wf_del: "wf m \<Longrightarrow> wf (del m k)"
begin

lemma len_put_le: "len (put m k v) \<le> Suc (len m)"
  by (simp add: len_put)

lemma len_del_le: "wf m \<Longrightarrow> len (del m k) \<le> len m"
  by (simp add: len_del)

lemma len_move:
  assumes "wf m" and "get m k = Some v" and "get m' k' = None"
  shows "len (del m k) + len (put m' k' w) = len m + len m'"
  using assms len_pos [OF assms(2)] by (simp add: len_del len_put)

lemma put_del_same: "get (put (del m k) k v) k' = get (put m k v) k'"
  by (simp add: get_put get_del)

end

lemma delete_length:
  "distinct (map fst m) \<Longrightarrow>
     length (AList.delete k m) = (if map_of m k = None then length m else length m - 1)"
proof (induction m)
  case Nil
  then show ?case by simp
next
  case (Cons p m)
  have "map_of m k = None" if "k = fst p"
    using Cons.prems that by (auto simp: map_of_eq_None_iff)
  moreover have "0 < length m" if "map_of m k = Some v" for v
    using that by (cases m) auto
  ultimately show ?case
    using Cons by (cases p) auto
qed

lemma update_length:
  "length (AList.update k v m) = (if map_of m k = None then Suc (length m) else length m)"
  by (induction m) auto

interpretation gm: sized_map "[]" mget mput mdel mlen minv
proof unfold_locales
  fix m :: "('k, 'v) gomap" and k k' :: 'k and v :: 'v
  show "mget [] k = (None :: 'v option)"
    by (simp add: mget_def)
  show "mget (mput m k v) k' = (if k' = k then Some v else mget m k')"
    by (simp add: mget_def mput_def update_conv')
  show "mget (mdel m k) k' = (if k' = k then None else mget m k')"
    by (simp add: mget_def mdel_def delete_conv')
  show "mlen (mput m k v) = (if mget m k = None then Suc (mlen m) else mlen m)"
    by (simp add: mlen_def mput_def mget_def update_length)
  show "minv m \<Longrightarrow> mlen (mdel m k) = (if mget m k = None then mlen m else mlen m - 1)"
    unfolding mlen_def mdel_def mget_def minv_def by (rule delete_length)
  show "mget m k = Some v \<Longrightarrow> 0 < mlen m"
    by (cases m) (auto simp: mget_def mlen_def)
  show "minv m \<Longrightarrow> minv (mput m k v)"
    by (simp add: minv_def mput_def distinct_update)
  show "minv m \<Longrightarrow> minv (mdel m k)"
    by (simp add: minv_def mdel_def distinct_delete)
qed (simp_all add: mlen_def minv_def)

lemmas [gomap_simps, simp] = gm.get_empty gm.get_put gm.get_del gm.len_empty gm.wf_empty

lemma minv_mput [simp, intro]: "minv m \<Longrightarrow> minv (mput m k v)"
  by (rule gm.wf_put)

lemma minv_mdel [simp, intro]: "minv m \<Longrightarrow> minv (mdel m k)"
  by (rule gm.wf_del)

lemma minv_mkeep [simp, intro]: "minv m \<Longrightarrow> minv (mkeep P m)"
  by (induction m) (auto simp: minv_def mkeep_def)

lemma minv_mmapv [simp]: "minv (mmapv f m) \<longleftrightarrow> minv m"
  by (simp add: minv_def mmapv_def comp_def case_prod_beta)

lemma mlen_mmapv [simp]: "mlen (mmapv f m) = mlen m"
  by (simp add: mlen_def mmapv_def)

lemma mlen_mkeep_le: "mlen (mkeep P m) \<le> mlen m"
  by (simp add: mlen_def mkeep_def)

lemma mget_mmapv [simp, gomap_simps]: "mget (mmapv f m) k = map_option f (mget m k)"
  by (induction m) (auto simp: mget_def mmapv_def)

lemma mget_mkeep [gomap_simps]:
  "minv m \<Longrightarrow> mget (mkeep P m) k =
     (case mget m k of None \<Rightarrow> None | Some v \<Rightarrow> if P k v then Some v else None)"
proof (induction m)
  case Nil
  then show ?case by (simp add: mget_def mkeep_def)
next
  case (Cons p m)
  have "mget m k = None" if "k = fst p"
    using Cons.prems that by (auto simp: minv_def mget_def map_of_eq_None_iff)
  with Cons show ?case
    by (cases p) (auto simp: minv_def mget_def mkeep_def split: option.splits)
qed

lemma mget_Some_iff: "minv m \<Longrightarrow> mget m k = Some v \<longleftrightarrow> (k, v) \<in> set m"
  by (simp add: minv_def mget_def)

lemma mhas_mput [simp, gomap_simps]: "mhas (mput m k v) k' \<longleftrightarrow> k' = k \<or> mhas m k'"
  by (simp add: mhas_def)

lemma mhas_mdel [simp, gomap_simps]: "mhas (mdel m k) k' \<longleftrightarrow> k' \<noteq> k \<and> mhas m k'"
  by (simp add: mhas_def)

lemma mhas_Nil [simp, gomap_simps]: "\<not> mhas [] k"
  by (simp add: mhas_def)

lemma mget_Some_mhas: "mget m k = Some v \<Longrightarrow> mhas m k"
  by (simp add: mhas_def)

lemma mhas_mkeep: "minv m \<Longrightarrow> mhas (mkeep P m) k \<longleftrightarrow> (\<exists>v. mget m k = Some v \<and> P k v)"
  by (auto simp: mhas_def mget_mkeep split: option.splits)

lemma mlen_mput: "mlen (mput m k v) = (if mhas m k then mlen m else Suc (mlen m))"
  by (simp add: gm.len_put mhas_def)

lemma mlen_mdel: "minv m \<Longrightarrow> mlen (mdel m k) = (if mhas m k then mlen m - 1 else mlen m)"
  by (simp add: gm.len_del mhas_def)

lemma mlen_pos: "mhas m k \<Longrightarrow> 0 < mlen m"
  by (auto simp: mhas_def dest: gm.len_pos)

lemma mkeep_all [simp]: "mkeep (\<lambda>_ _. True) m = m"
  by (simp add: mkeep_def)

lemma mkeep_mdel: "mkeep (\<lambda>k _. k \<notin> S) (mdel m x) = mkeep (\<lambda>k _. k \<noteq> x \<and> k \<notin> S) m"
  by (auto simp: mkeep_def mdel_def AList.delete_eq case_prod_beta intro!: filter_cong)

text \<open>A loop that deletes a list of keys, and one that inserts a list of entries.\<close>

lemma foldl_mdel: "foldl (\<lambda>m x. mdel m (f x)) m xs = mkeep (\<lambda>k _. k \<notin> f ` set xs) m"
proof (induction xs arbitrary: m)
  case (Cons x xs)
  then show ?case
    by (auto simp: mdel_def mkeep_def AList.delete_eq case_prod_beta intro!: filter_cong)
qed (simp add: mkeep_def)

lemma minv_foldl_mput [simp]: "minv m \<Longrightarrow> minv (foldl (\<lambda>m x. mput m (f x) (g x)) m xs)"
  by (induction xs arbitrary: m) auto

lemma mget_foldl_mput:
  "distinct (map f xs) \<Longrightarrow>
     mget (foldl (\<lambda>m x. mput m (f x) (g x)) m xs) k =
       (case find (\<lambda>x. f x = k) xs of Some x \<Rightarrow> Some (g x) | None \<Rightarrow> mget m k)"
proof (induction xs arbitrary: m)
  case (Cons x xs)
  have "find (\<lambda>y. f y = k) xs = None" if "f x = k"
    using Cons.prems that by (auto simp: find_None_iff) (metis imageI)
  with Cons show ?case
    by (cases "f x = k") (auto split: option.split)
qed simp

lemma mhas_foldl_mput: "mhas (foldl (\<lambda>m x. mput m (f x) (g x)) m xs) k \<longleftrightarrow> mhas m k \<or> k \<in> f ` set xs"
  by (induction xs arbitrary: m) auto

lemma mlen_foldl_mput_le: "mlen (foldl (\<lambda>m x. mput m (f x) (g x)) m xs) \<le> mlen m + length xs"
proof (induction xs arbitrary: m)
  case (Cons x xs)
  show ?case
    using Cons.IH [of "mput m (f x) (g x)"] by (auto simp: mlen_mput split: if_splits)
qed simp

lemma mlen_partition: "mlen (mkeep P m) + length (filter (\<lambda>(k, v). \<not> P k v) m) = mlen m"
  by (induction m) (auto simp: mlen_def mkeep_def)

lemma mlen_0_iff [simp]: "mlen m = 0 \<longleftrightarrow> m = []"
  by (simp add: mlen_def)

section \<open>Times and durations\<close>

text \<open>
  A \<open>time.Time\<close> is a number of nanoseconds since the zero time (\<open>IsZero\<close> is \<open>= 0\<close>); a
  \<open>time.Duration\<close> is an \<open>int64\<close> number of nanoseconds, and \<open>Sub\<close> saturates.
\<close>

type_synonym time = int
type_synonym duration = int

definition time_sub :: "time \<Rightarrow> time \<Rightarrow> duration" where
  "time_sub a b = max (- (2 ^ 63)) (min (2 ^ 63 - 1) (a - b))"

definition seconds :: "int \<Rightarrow> duration" where
  "seconds n = n * 1000000000"

lemma time_sub_less: "d < 2 ^ 63 - 1 \<Longrightarrow> - (2 ^ 63) \<le> d \<Longrightarrow> (d < time_sub a b) = (d < a - b)"
  by (auto simp: time_sub_def)

lemma time_sub_self [simp]: "time_sub a a = 0"
  by (simp add: time_sub_def)

section \<open>Machines with an invariant\<close>

text \<open>
  The contract every stateful component meets: its step keeps its invariant, hence so does any
  sequence of steps.
\<close>

locale invariant_machine =
  fixes step :: "'s \<Rightarrow> 'e \<Rightarrow> 's"
    and inv :: "'s \<Rightarrow> bool"
  assumes step_inv: "inv s \<Longrightarrow> inv (step s e)"
begin

lemma run_inv: "inv s \<Longrightarrow> inv (foldl step s es)"
  by (induction es arbitrary: s) (auto intro: step_inv)

lemma prefix_inv: "inv s \<Longrightarrow> es = xs @ ys \<Longrightarrow> inv (foldl step s xs)"
  by (rule run_inv)

end

section \<open>Encoders and decoders\<close>

text \<open>
  An encoder with a decoder that restores every value of the encoder's domain; encoding is then
  injective on that domain.
\<close>

locale codec =
  fixes enc :: "'a \<Rightarrow> 'b"
    and dec :: "'b \<Rightarrow> 'a option"
    and dom_ok :: "'a \<Rightarrow> bool"
  assumes roundtrip: "dom_ok a \<Longrightarrow> dec (enc a) = Some a"
begin

lemma enc_inj: "dom_ok a \<Longrightarrow> dom_ok b \<Longrightarrow> enc a = enc b \<Longrightarrow> a = b"
  by (metis roundtrip option.inject)

lemma enc_inj_on: "inj_on enc {a. dom_ok a}"
  by (rule inj_onI) (blast dest: enc_inj)

end

end
