(* ===== verification/Go_Text.thy ===== *)
theory Go_Text
  imports Prelude
begin

text \<open>
  The parts of Go's \<open>strings\<close>, \<open>bytes\<close>, \<open>strconv\<close>, \<open>math/big\<close> and \<open>unicode/utf8\<close> packages that the
  modelled sources call, on byte strings.
\<close>

section \<open>Bytes and substrings\<close>

definition byte_val :: "char \<Rightarrow> nat" where
  "byte_val c = of_char c"

definition byte_of :: "nat \<Rightarrow> char" where
  "byte_of n = char_of n"

definition hasPrefix :: "bytes \<Rightarrow> bytes \<Rightarrow> bool" where
  "hasPrefix s p \<longleftrightarrow> take (length p) s = p"

definition hasSuffix :: "bytes \<Rightarrow> bytes \<Rightarrow> bool" where
  "hasSuffix s p \<longleftrightarrow> length p \<le> length s \<and> drop (length s - length p) s = p"

fun contains :: "bytes \<Rightarrow> bytes \<Rightarrow> bool" where
  "contains [] p = (p = [])"
| "contains (c # s) p = (hasPrefix (c # s) p \<or> contains s p)"

text \<open>\<open>strings.Index(s, string(c))\<close> as a split: what precedes the first \<open>c\<close> and what follows it.\<close>

fun cutByte :: "char \<Rightarrow> bytes \<Rightarrow> (bytes \<times> bytes) option" where
  "cutByte c [] = None"
| "cutByte c (x # s) =
     (if x = c then Some ([], s) else map_option (\<lambda>(a, b). (x # a, b)) (cutByte c s))"

text \<open>The same at the last occurrence (\<open>strings.LastIndexByte\<close>).\<close>

definition cutLastByte :: "char \<Rightarrow> bytes \<Rightarrow> (bytes \<times> bytes) option" where
  "cutLastByte c s = map_option (\<lambda>(a, b). (rev b, rev a)) (cutByte c (rev s))"

definition lower :: "char \<Rightarrow> char" where
  "lower c = (if 65 \<le> byte_val c \<and> byte_val c \<le> 90 then byte_of (byte_val c + 32) else c)"

lemma cutByte_append: "c \<notin> set a \<Longrightarrow> cutByte c (a @ c # b) = Some (a, b)"
  by (induction a) auto

lemma cutByte_None_iff: "cutByte c s = None \<longleftrightarrow> c \<notin> set s"
  by (induction s) auto

lemma cutByte_Some: "cutByte c s = Some (a, b) \<Longrightarrow> s = a @ c # b \<and> c \<notin> set a"
  by (induction s arbitrary: a) (auto split: if_splits)

lemma cutLastByte_append: "c \<notin> set b \<Longrightarrow> cutLastByte c (a @ c # b) = Some (a, b)"
  by (simp add: cutLastByte_def cutByte_append)

lemma hasPrefix_append [simp]: "hasPrefix (p @ s) p"
  by (simp add: hasPrefix_def)

lemma hasPrefix_iff: "hasPrefix s p \<longleftrightarrow> (\<exists>r. s = p @ r)"
  unfolding hasPrefix_def by (metis append_eq_conv_conj)

section \<open>White space\<close>

text \<open>
  \<open>bytes.TrimSpace\<close>: the ASCII spaces and the UTF-8 encodings of the other Unicode spaces.
\<close>

definition asciiSpace :: "char \<Rightarrow> bool" where
  "asciiSpace c \<longleftrightarrow> byte_val c \<in> {9, 10, 11, 12, 13, 32}"

definition uniSpace2 :: "char \<Rightarrow> char \<Rightarrow> bool" where
  "uniSpace2 a b \<longleftrightarrow> byte_val a = 194 \<and> byte_val b \<in> {133, 160}"

definition uniSpace3 :: "char \<Rightarrow> char \<Rightarrow> char \<Rightarrow> bool" where
  "uniSpace3 a b c \<longleftrightarrow>
     (byte_val a, byte_val b, byte_val c) \<in> {(225, 154, 128), (226, 129, 159), (227, 128, 128)} \<or>
     (byte_val a = 226 \<and> byte_val b = 128 \<and>
        (128 \<le> byte_val c \<and> byte_val c \<le> 138 \<or> byte_val c \<in> {168, 169, 175}))"

fun trimBy :: "(char \<Rightarrow> char \<Rightarrow> bool) \<Rightarrow> (char \<Rightarrow> char \<Rightarrow> char \<Rightarrow> bool) \<Rightarrow> bytes \<Rightarrow> bytes" where
  "trimBy u2 u3 [] = []"
| "trimBy u2 u3 [a] = (if asciiSpace a then [] else [a])"
| "trimBy u2 u3 [a, b] =
     (if asciiSpace a then trimBy u2 u3 [b] else if u2 a b then [] else [a, b])"
| "trimBy u2 u3 (a # b # c # s) =
     (if asciiSpace a then trimBy u2 u3 (b # c # s)
      else if u2 a b then trimBy u2 u3 (c # s)
      else if u3 a b c then trimBy u2 u3 s
      else a # b # c # s)"

definition trimSpace :: "bytes \<Rightarrow> bytes" where
  "trimSpace s =
     rev (trimBy (\<lambda>a b. uniSpace2 b a) (\<lambda>a b c. uniSpace3 c b a) (rev (trimBy uniSpace2 uniSpace3 s)))"

text \<open>A text whose first and last bytes are ASCII and no spaces is not trimmed.\<close>

definition solid :: "char \<Rightarrow> bool" where
  "solid c \<longleftrightarrow> byte_val c < 128 \<and> \<not> asciiSpace c"

lemma trimBy_solid:
  assumes "solid c"
  shows "trimBy uniSpace2 uniSpace3 (c # s) = c # s"
    and "trimBy (\<lambda>a b. uniSpace2 b a) (\<lambda>a b c. uniSpace3 c b a) (c # s) = c # s"
proof -
  have n: "\<not> asciiSpace c" "byte_val c < 128"
    using assms by (auto simp: solid_def)
  have cs: "s = [] \<or> (\<exists>b. s = [b]) \<or> (\<exists>b d r. s = b # d # r)"
    by (metis list.exhaust)
  show "trimBy uniSpace2 uniSpace3 (c # s) = c # s"
    using cs n by (auto simp: uniSpace2_def uniSpace3_def)
  show "trimBy (\<lambda>a b. uniSpace2 b a) (\<lambda>a b c. uniSpace3 c b a) (c # s) = c # s"
    using cs n by (auto simp: uniSpace2_def uniSpace3_def)
qed

lemma trimSpace_solid:
  assumes "s \<noteq> []" and "solid (hd s)" and "solid (last s)"
  shows "trimSpace s = s"
proof -
  obtain c r where s: "s = c # r"
    using assms(1) by (cases s) auto
  obtain d q where q: "rev s = d # q"
    using assms(1) by (cases "rev s") auto
  then have "solid d"
    using assms(3) by (metis last_rev list.sel(1) rev_rev_ident hd_rev)
  then show ?thesis
    using trimBy_solid(1) [of c r] trimBy_solid(2) [of d q] assms(2) s q
    by (metis trimSpace_def list.sel(1) rev_rev_ident)
qed

section \<open>Decimal numerals\<close>

definition isDigit :: "char \<Rightarrow> bool" where
  "isDigit c \<longleftrightarrow> 48 \<le> byte_val c \<and> byte_val c \<le> 57"

definition digitVal :: "char \<Rightarrow> nat" where
  "digitVal c = byte_val c - 48"

definition digitChar :: "nat \<Rightarrow> char" where
  "digitChar n = byte_of (48 + n)"

fun digval_acc :: "nat \<Rightarrow> bytes \<Rightarrow> nat" where
  "digval_acc acc [] = acc"
| "digval_acc acc (c # s) = digval_acc (10 * acc + digitVal c) s"

definition digval :: "bytes \<Rightarrow> nat" where
  "digval s = digval_acc 0 s"

fun natDec :: "nat \<Rightarrow> bytes" where
  "natDec n = (if n < 10 then [digitChar n] else natDec (n div 10) @ [digitChar (n mod 10)])"

declare natDec.simps [simp del]

definition intDec :: "int \<Rightarrow> bytes" where
  "intDec i = (if i < 0 then CHR ''-'' # natDec (nat (- i)) else natDec (nat i))"

text \<open>
  \<open>big.Int.SetString(s, 10)\<close> and the syntax of \<open>strconv.Atoi\<close>: an optional sign and at least one
  digit. \<open>Atoi\<close> also refuses a value outside \<open>int64\<close>.
\<close>

definition parseInt10 :: "bytes \<Rightarrow> int option" where
  "parseInt10 s =
     (let (neg, ds) =
        (case s of
           [] \<Rightarrow> (False, [])
         | c # r \<Rightarrow> if c = CHR ''-'' then (True, r) else if c = CHR ''+'' then (False, r) else (False, s))
      in if ds = [] \<or> \<not> list_all isDigit ds then None
         else Some (if neg then - int (digval ds) else int (digval ds)))"

definition atoi :: "bytes \<Rightarrow> int option" where
  "atoi s =
     (case parseInt10 s of
        None \<Rightarrow> None
      | Some i \<Rightarrow> if - (2 ^ 63) \<le> i \<and> i < 2 ^ 63 then Some i else None)"

lemma byte_val_of: "n < 256 \<Longrightarrow> byte_val (byte_of n) = n"
  by (simp add: byte_val_def byte_of_def)

lemma byte_val_less [simp]: "byte_val c < 256"
  using of_char_of [of "of_char c :: nat"] by (metis byte_val_def of_char_mod_256 mod_less_divisor zero_less_numeral)

lemma byte_val_inj: "byte_val a = byte_val b \<Longrightarrow> a = b"
  by (simp add: byte_val_def)

lemma digitVal_Char [simp]: "n < 10 \<Longrightarrow> digitVal (digitChar n) = n"
  by (simp add: digitVal_def digitChar_def byte_val_of)

lemma isDigit_Char [simp]: "n < 10 \<Longrightarrow> isDigit (digitChar n)"
  by (simp add: isDigit_def digitChar_def byte_val_of)

lemma digitVal_less: "isDigit c \<Longrightarrow> digitVal c < 10"
  by (auto simp: isDigit_def digitVal_def)

lemma digitVal_inj: "isDigit a \<Longrightarrow> isDigit b \<Longrightarrow> digitVal a = digitVal b \<Longrightarrow> a = b"
  by (rule byte_val_inj) (auto simp: isDigit_def digitVal_def)

lemma digval_acc: "digval_acc acc s = acc * 10 ^ length s + digval s"
proof -
  have "digval_acc acc s = acc * 10 ^ length s + digval_acc 0 s" for acc
  proof (induction s arbitrary: acc)
    case Nil
    then show ?case by simp
  next
    case (Cons c s)
    show ?case
      unfolding digval_acc.simps Cons [of "10 * acc + digitVal c"] Cons [of "10 * 0 + digitVal c"]
      by (simp add: algebra_simps)
  qed
  then show ?thesis unfolding digval_def .
qed

lemma digval_Nil [simp]: "digval [] = 0"
  by (simp add: digval_def)

lemma digval_Cons: "digval (c # s) = digitVal c * 10 ^ length s + digval s"
  using digval_acc [of "digitVal c" s] by (simp add: digval_def)

lemma digval_append: "digval (a @ b) = digval a * 10 ^ length b + digval b"
  by (induction a) (simp_all add: digval_Cons algebra_simps power_add)

lemma digval_less: "list_all isDigit s \<Longrightarrow> digval s < 10 ^ length s"
proof (induction s)
  case Nil
  then show ?case by simp
next
  case (Cons c s)
  then have "digitVal c * 10 ^ length s + digval s < (digitVal c + 1) * 10 ^ length s"
    by simp
  also have "\<dots> \<le> 10 * 10 ^ length s"
    using Cons.prems digitVal_less by (intro mult_right_mono) (auto simp: Suc_le_eq)
  finally show ?case by (simp add: digval_Cons)
qed

lemma natDec_digits: "natDec n \<noteq> [] \<and> list_all isDigit (natDec n)"
proof (induction n rule: natDec.induct)
  case (1 n)
  then show ?case
    by (subst (1 2) natDec.simps) simp
qed

lemma digval_natDec [simp]: "digval (natDec n) = n"
proof (induction n rule: natDec.induct)
  case (1 n)
  then show ?case
    by (subst natDec.simps) (simp add: digval_append digval_Cons)
qed

lemma natDec_hd: "isDigit (hd (natDec n))" and natDec_last: "isDigit (last (natDec n))"
  using natDec_digits [of n] by (auto simp: list_all_iff)

lemma isDigit_not_sign: "isDigit c \<Longrightarrow> c \<noteq> CHR ''-'' \<and> c \<noteq> CHR ''+''"
  by (auto simp: isDigit_def byte_val_def)

lemma parseInt10_natDec: "parseInt10 (natDec n) = Some (int n)"
proof (cases "natDec n")
  case Nil
  then show ?thesis using natDec_digits [of n] by simp
next
  case (Cons c r)
  then have "isDigit c" using natDec_hd [of n] by simp
  then show ?thesis
    using natDec_digits [of n] digval_natDec [of n] isDigit_not_sign [of c]
    unfolding Cons by (simp add: parseInt10_def)
qed

lemma parseInt10_intDec [simp]: "parseInt10 (intDec i) = Some i"
proof (cases "i < 0")
  case True
  then show ?thesis
    using natDec_digits [of "nat (- i)"] by (simp add: intDec_def parseInt10_def)
next
  case False
  then show ?thesis by (simp add: intDec_def parseInt10_natDec)
qed

interpretation intDec: codec intDec parseInt10 "\<lambda>_. True"
  by unfold_locales simp

lemma atoi_intDec: "- (2 ^ 63) \<le> i \<Longrightarrow> i < 2 ^ 63 \<Longrightarrow> atoi (intDec i) = Some i"
  by (simp add: atoi_def)

lemma intDec_chars: "c \<in> set (intDec i) \<Longrightarrow> isDigit c \<or> c = CHR ''-''"
  using natDec_digits [of "nat (- i)"] natDec_digits [of "nat i"]
  by (auto simp: intDec_def list_all_iff split: if_splits)

section \<open>UTF-8\<close>

text \<open>
  \<open>utf8.DecodeRune\<close>: the code point and the number of bytes it takes; an invalid sequence is the
  replacement character U+FFFD with width one. \<open>None\<close> marks that case.
\<close>

definition cont :: "char \<Rightarrow> bool" where
  "cont c \<longleftrightarrow> 128 \<le> byte_val c \<and> byte_val c \<le> 191"

definition contVal :: "char \<Rightarrow> nat" where
  "contVal c = byte_val c - 128"

fun decodeRune :: "bytes \<Rightarrow> (nat \<times> nat) option" where
  "decodeRune [] = None"
| "decodeRune (a # s) =
     (let v = byte_val a in
      if v < 128 then Some (v, 1)
      else if 194 \<le> v \<and> v \<le> 223 then
        (case s of b # _ \<Rightarrow> if cont b then Some ((v - 192) * 64 + contVal b, 2) else None | [] \<Rightarrow> None)
      else if 224 \<le> v \<and> v \<le> 239 then
        (case s of b # c # _ \<Rightarrow>
           (if cont b \<and> cont c \<and> (v = 224 \<longrightarrow> 160 \<le> byte_val b) \<and> (v = 237 \<longrightarrow> byte_val b \<le> 159)
            then Some ((v - 224) * 4096 + contVal b * 64 + contVal c, 3) else None)
         | _ \<Rightarrow> None)
      else if 240 \<le> v \<and> v \<le> 244 then
        (case s of b # c # d # _ \<Rightarrow>
           (if cont b \<and> cont c \<and> cont d \<and> (v = 240 \<longrightarrow> 144 \<le> byte_val b) \<and> (v = 244 \<longrightarrow> byte_val b \<le> 143)
            then Some ((v - 240) * 262144 + contVal b * 4096 + contVal c * 64 + contVal d, 4) else None)
         | _ \<Rightarrow> None)
      else None)"

definition encodeRune :: "nat \<Rightarrow> bytes" where
  "encodeRune r =
     (if r < 128 then [byte_of r]
      else if r < 2048 then [byte_of (192 + r div 64), byte_of (128 + r mod 64)]
      else if r < 65536 then
        [byte_of (224 + r div 4096), byte_of (128 + r div 64 mod 64), byte_of (128 + r mod 64)]
      else [byte_of (240 + r div 262144), byte_of (128 + r div 4096 mod 64),
            byte_of (128 + r div 64 mod 64), byte_of (128 + r mod 64)])"

fun validUTF8_fuel :: "nat \<Rightarrow> bytes \<Rightarrow> bool" where
  "validUTF8_fuel 0 s = (s = [])"
| "validUTF8_fuel (Suc n) s =
     (s = [] \<or> (case decodeRune s of None \<Rightarrow> False | Some (_, w) \<Rightarrow> validUTF8_fuel n (drop w s)))"

text \<open>\<open>utf8.Valid\<close>: every step consumes at least one byte, so the length is enough fuel.\<close>

definition validUTF8 :: "bytes \<Rightarrow> bool" where
  "validUTF8 s = validUTF8_fuel (length s) s"

lemma validUTF8_ascii: "list_all (\<lambda>c. byte_val c < 128) s \<Longrightarrow> validUTF8 s"
  unfolding validUTF8_def by (induction s) auto

end
