(* ===== verification/Json.thy ===== *)
theory Json
  imports Go_Text "HOL-Library.List_Lexorder" "HOL-Library.Char_ord" "HOL-Library.Monad_Syntax"
begin

text \<open>
  The part of Go's \<open>encoding/json\<close> that the modelled sources use, on bytes: recognising one value
  (so that a \<open>json.RawMessage\<close> is the exact slice of the input), decoding string literals,
  \<open>Valid\<close>, \<open>Unmarshal\<close> into strings, booleans and \<open>map[string]json.RawMessage\<close>, and \<open>Marshal\<close> of
  such maps with the compaction and the HTML escaping it applies.
\<close>

section \<open>Recognising values\<close>

definition isJSONWhitespace :: "char \<Rightarrow> bool" where
  "isJSONWhitespace c \<longleftrightarrow> c = CHR '' '' \<or> c = CHR 0x09 \<or> c = CHR 0x0D \<or> c = CHR 0x0A"

definition skipWS :: "bytes \<Rightarrow> bytes" where
  "skipWS s = dropWhile isJSONWhitespace s"

definition trimJSONWhitespace :: "bytes \<Rightarrow> bytes" where
  "trimJSONWhitespace s = rev (dropWhile isJSONWhitespace (rev (dropWhile isJSONWhitespace s)))"

text \<open>The next significant byte must be \<open>c\<close>; the rest follows it.\<close>

definition expect :: "char \<Rightarrow> bytes \<Rightarrow> bytes option" where
  "expect c s = (case skipWS s of [] \<Rightarrow> None | x # r \<Rightarrow> if x = c then Some r else None)"

definition isHex :: "char \<Rightarrow> bool" where
  "isHex c \<longleftrightarrow> isDigit c \<or> (97 \<le> byte_val c \<and> byte_val c \<le> 102) \<or> (65 \<le> byte_val c \<and> byte_val c \<le> 70)"

definition hexVal :: "char \<Rightarrow> nat" where
  "hexVal c =
     (if isDigit c then byte_val c - 48
      else if 97 \<le> byte_val c then byte_val c - 87 else byte_val c - 55)"

text \<open>After an opening quote: the content of the literal as written, and what follows it.\<close>

fun scanStr :: "bytes \<Rightarrow> (bytes \<times> bytes) option" where
  "scanStr [] = None"
| "scanStr (c # s) =
     (if c = CHR 0x22 then Some ([], s)
      else if c = CHR 0x5C then
        (case s of
           [] \<Rightarrow> None
         | e # s' \<Rightarrow>
             (if e \<in> set ''bfnrt/'' \<or> e = CHR 0x5C \<or> e = CHR 0x22
              then map_option (\<lambda>(a, b). (c # e # a, b)) (scanStr s')
              else if e = CHR ''u'' then
                (case s' of
                   h1 # h2 # h3 # h4 # s'' \<Rightarrow>
                     (if isHex h1 \<and> isHex h2 \<and> isHex h3 \<and> isHex h4
                      then map_option (\<lambda>(a, b). (c # e # h1 # h2 # h3 # h4 # a, b)) (scanStr s'')
                      else None)
                 | _ \<Rightarrow> None)
              else None))
      else if byte_val c < 32 then None
      else map_option (\<lambda>(a, b). (c # a, b)) (scanStr s))"

text \<open>A number: the longest prefix of the input that the number grammar accepts.\<close>

definition scanDigits :: "bytes \<Rightarrow> bytes \<times> bytes" where
  "scanDigits s = (takeWhile isDigit s, dropWhile isDigit s)"

definition skipInt :: "bytes \<Rightarrow> bytes option" where
  "skipInt s =
     (case s of
        [] \<Rightarrow> None
      | c # r \<Rightarrow> if c = CHR ''0'' then Some r else if isDigit c then Some (dropWhile isDigit r) else None)"

definition skipFrac :: "bytes \<Rightarrow> bytes option" where
  "skipFrac s =
     (case s of
        [] \<Rightarrow> Some []
      | c # r \<Rightarrow>
          (if c = CHR ''.'' then
             (if takeWhile isDigit r = [] then None else Some (dropWhile isDigit r))
           else Some s))"

definition skipExp :: "bytes \<Rightarrow> bytes option" where
  "skipExp s =
     (case s of
        [] \<Rightarrow> Some []
      | c # r \<Rightarrow>
          (if c = CHR ''e'' \<or> c = CHR ''E'' then
             (let r' = (case r of
                  [] \<Rightarrow> []
                | x # q \<Rightarrow> if x = CHR ''+'' \<or> x = CHR ''-'' then q else r)
              in if takeWhile isDigit r' = [] then None else Some (dropWhile isDigit r'))
           else Some s))"

definition skipNum :: "bytes \<Rightarrow> bytes option" where
  "skipNum s =
     (let s1 = (case s of [] \<Rightarrow> [] | c # r \<Rightarrow> if c = CHR ''-'' then r else s)
      in Option.bind (skipInt s1) (\<lambda>s2. Option.bind (skipFrac s2) skipExp))"

definition skipLit :: "bytes \<Rightarrow> bytes \<Rightarrow> bytes option" where
  "skipLit lit s = (if hasPrefix s lit then Some (drop (length lit) s) else None)"

definition maxNestingDepth :: nat where
  "maxNestingDepth = 10000"

text \<open>
  One value. The first argument is fuel: every call consumes at least one byte of input, so a
  fuel above the length of the input is enough; \<open>d\<close> is the nesting depth, which Go bounds.
\<close>

fun skipValue :: "nat \<Rightarrow> nat \<Rightarrow> bytes \<Rightarrow> bytes option"
and skipMembers :: "nat \<Rightarrow> nat \<Rightarrow> bytes \<Rightarrow> bytes option"
and skipElems :: "nat \<Rightarrow> nat \<Rightarrow> bytes \<Rightarrow> bytes option" where
  "skipValue 0 d s = None"
| "skipValue (Suc f) d s =
     (case skipWS s of
        [] \<Rightarrow> None
      | c # r \<Rightarrow>
          (if c = CHR ''{'' then
             (if d \<ge> maxNestingDepth then None
              else case expect (CHR ''}'') r of Some r' \<Rightarrow> Some r' | None \<Rightarrow> skipMembers f (Suc d) r)
           else if c = CHR ''['' then
             (if d \<ge> maxNestingDepth then None
              else case expect (CHR '']'') r of Some r' \<Rightarrow> Some r' | None \<Rightarrow> skipElems f (Suc d) r)
           else if c = CHR 0x22 then map_option snd (scanStr r)
           else if c = CHR ''t'' then skipLit ''rue'' r
           else if c = CHR ''f'' then skipLit ''alse'' r
           else if c = CHR ''n'' then skipLit ''ull'' r
           else if c = CHR ''-'' \<or> isDigit c then skipNum (c # r)
           else None))"
| "skipMembers 0 d s = None"
| "skipMembers (Suc f) d s =
     Option.bind (expect (CHR 0x22) s) (\<lambda>r.
     Option.bind (scanStr r) (\<lambda>(_, r1).
     Option.bind (expect (CHR '':'') r1) (\<lambda>r2.
     Option.bind (skipValue f d r2) (\<lambda>r3.
       case expect (CHR '','') r3 of
         Some r4 \<Rightarrow> skipMembers f d r4
       | None \<Rightarrow> expect (CHR ''}'') r3))))"
| "skipElems 0 d s = None"
| "skipElems (Suc f) d s =
     Option.bind (skipValue f d s) (\<lambda>r.
       case expect (CHR '','') r of
         Some r' \<Rightarrow> skipElems f d r'
       | None \<Rightarrow> expect (CHR '']'') r)"

definition jsonSkip :: "bytes \<Rightarrow> bytes option" where
  "jsonSkip s = skipValue (Suc (length s)) 0 s"

text \<open>\<open>Decoder.Decode(&rawMessage)\<close>: the exact bytes of the next value and the rest.\<close>

definition jsonRaw :: "bytes \<Rightarrow> (bytes \<times> bytes) option" where
  "jsonRaw s =
     (case jsonSkip s of
        None \<Rightarrow> None
      | Some r \<Rightarrow> (let s' = skipWS s in Some (take (length s' - length r) s', r)))"

definition jsonValid :: "bytes \<Rightarrow> bool" where
  "jsonValid s = (case jsonSkip s of None \<Rightarrow> False | Some r \<Rightarrow> skipWS r = [])"

section \<open>String literals\<close>

definition hex4 :: "bytes \<Rightarrow> nat option" where
  "hex4 s =
     (case s of
        h1 # h2 # h3 # h4 # _ \<Rightarrow>
          (if isHex h1 \<and> isHex h2 \<and> isHex h3 \<and> isHex h4
           then Some (((hexVal h1 * 16 + hexVal h2) * 16 + hexVal h3) * 16 + hexVal h4) else None)
      | _ \<Rightarrow> None)"

definition isSurrogate :: "nat \<Rightarrow> bool" where
  "isSurrogate r \<longleftrightarrow> 55296 \<le> r \<and> r < 57344"

definition replacementRune :: nat where
  "replacementRune = 65533"

text \<open>
  \<open>unquote\<close>: escapes are resolved, a surrogate pair becomes one code point, a lone surrogate and
  an invalid UTF-8 byte become U+FFFD. The literal's length is enough fuel.
\<close>

fun unquote_fuel :: "nat \<Rightarrow> bytes \<Rightarrow> bytes" where
  "unquote_fuel 0 s = []"
| "unquote_fuel (Suc n) s =
     (case s of
        [] \<Rightarrow> []
      | c # r \<Rightarrow>
          (if c = CHR 0x5C then
             (case r of
                [] \<Rightarrow> []
              | e # q \<Rightarrow>
                  (if e = CHR ''b'' then CHR 0x08 # unquote_fuel n q
                   else if e = CHR ''f'' then CHR 0x0C # unquote_fuel n q
                   else if e = CHR ''n'' then CHR 0x0A # unquote_fuel n q
                   else if e = CHR ''r'' then CHR 0x0D # unquote_fuel n q
                   else if e = CHR ''t'' then CHR 0x09 # unquote_fuel n q
                   else if e = CHR ''u'' then
                     (case hex4 q of
                        None \<Rightarrow> []
                      | Some rr \<Rightarrow>
                          (if isSurrogate rr then
                             (case drop 4 q of
                                b # u # q' \<Rightarrow>
                                  (case (if b = CHR 0x5C \<and> u = CHR ''u'' then hex4 q' else None) of
                                     Some rr1 \<Rightarrow>
                                       (if rr < 56320 \<and> 56320 \<le> rr1 \<and> rr1 < 57344
                                        then encodeRune (65536 + (rr - 55296) * 1024 + (rr1 - 56320))
                                               @ unquote_fuel n (drop 4 q')
                                        else encodeRune replacementRune @ unquote_fuel n (drop 4 q))
                                   | None \<Rightarrow> encodeRune replacementRune @ unquote_fuel n (drop 4 q))
                              | _ \<Rightarrow> encodeRune replacementRune @ unquote_fuel n (drop 4 q))
                           else encodeRune rr @ unquote_fuel n (drop 4 q)))
                   else e # unquote_fuel n q))
           else if byte_val c < 128 then c # unquote_fuel n r
           else
             (case decodeRune s of
                None \<Rightarrow> encodeRune replacementRune @ unquote_fuel n r
              | Some (_, w) \<Rightarrow> take w s @ unquote_fuel n (drop w s))))"

definition unquote :: "bytes \<Rightarrow> bytes" where
  "unquote s = unquote_fuel (length s) s"

text \<open>
  The encoder's string literal (\<open>appendString\<close> with HTML escaping): quotes, backslashes, control
  bytes, the HTML-sensitive bytes, U+2028, U+2029 and invalid UTF-8 are escaped.
\<close>

definition hexDigit :: "nat \<Rightarrow> char" where
  "hexDigit n = (if n < 10 then byte_of (48 + n) else byte_of (87 + n))"

definition u00 :: "char \<Rightarrow> bytes" where
  "u00 c = [CHR 0x5C, CHR ''u'', CHR ''0'', CHR ''0'', hexDigit (byte_val c div 16), hexDigit (byte_val c mod 16)]"

definition escapeASCII :: "char \<Rightarrow> bytes" where
  "escapeASCII c =
     (if c = CHR 0x5C \<or> c = CHR 0x22 then [CHR 0x5C, c]
      else if c = CHR 0x08 then [CHR 0x5C, CHR ''b'']
      else if c = CHR 0x0C then [CHR 0x5C, CHR ''f'']
      else if c = CHR 0x0A then [CHR 0x5C, CHR ''n'']
      else if c = CHR 0x0D then [CHR 0x5C, CHR ''r'']
      else if c = CHR 0x09 then [CHR 0x5C, CHR ''t'']
      else if byte_val c < 32 \<or> c = CHR ''<'' \<or> c = CHR ''>'' \<or> c = CHR ''&'' then u00 c
      else [c])"

fun quoteBody_fuel :: "nat \<Rightarrow> bytes \<Rightarrow> bytes" where
  "quoteBody_fuel 0 s = []"
| "quoteBody_fuel (Suc n) s =
     (case s of
        [] \<Rightarrow> []
      | c # r \<Rightarrow>
          (if byte_val c < 128 then escapeASCII c @ quoteBody_fuel n r
           else
             (case decodeRune s of
                None \<Rightarrow> CHR 0x5C # ''ufffd'' @ quoteBody_fuel n r
              | Some (rr, w) \<Rightarrow>
                  (if rr = 8232 then CHR 0x5C # ''u2028'' @ quoteBody_fuel n (drop w s)
                   else if rr = 8233 then CHR 0x5C # ''u2029'' @ quoteBody_fuel n (drop w s)
                   else take w s @ quoteBody_fuel n (drop w s)))))"

definition quote :: "bytes \<Rightarrow> bytes" where
  "quote s = CHR 0x22 # quoteBody_fuel (length s) s @ [CHR 0x22]"

section \<open>Unmarshal\<close>

text \<open>\<open>json.Unmarshal(raw, &s)\<close> for a string variable: \<open>null\<close> leaves it empty.\<close>

definition unmarshalString :: "bytes \<Rightarrow> bytes option" where
  "unmarshalString raw =
     (if \<not> jsonValid raw then None
      else case skipWS raw of
          [] \<Rightarrow> None
        | c # r \<Rightarrow>
            (if c = CHR 0x22 then map_option (\<lambda>(a, _). unquote a) (scanStr r)
             else if c = CHR ''n'' then Some []
             else None))"

definition unmarshalBool :: "bytes \<Rightarrow> bool option" where
  "unmarshalBool raw =
     (if \<not> jsonValid raw then None
      else case skipWS raw of
          [] \<Rightarrow> None
        | c # r \<Rightarrow>
            (if c = CHR ''t'' then Some True else if c = CHR ''f'' then Some False
             else if c = CHR ''n'' then Some False else None))"

text \<open>The members of an object in input order: decoded key and exact bytes of the value.\<close>

fun objMembers :: "nat \<Rightarrow> bytes \<Rightarrow> ((bytes \<times> bytes) list \<times> bytes) option" where
  "objMembers 0 s = None"
| "objMembers (Suc f) s =
     Option.bind (expect (CHR 0x22) s) (\<lambda>r.
     Option.bind (scanStr r) (\<lambda>(key, r1).
     Option.bind (expect (CHR '':'') r1) (\<lambda>r2.
     Option.bind (jsonRaw r2) (\<lambda>(val, r3).
       case expect (CHR '','') r3 of
         Some r4 \<Rightarrow> map_option (\<lambda>(ms, q). ((unquote key, val) # ms, q)) (objMembers f r4)
       | None \<Rightarrow> map_option (\<lambda>q. ([(unquote key, val)], q)) (expect (CHR ''}'') r3)))))"

definition jsonMembers :: "bytes \<Rightarrow> (bytes \<times> bytes) list option" where
  "jsonMembers raw =
     Option.bind (expect (CHR ''{'') raw) (\<lambda>r.
       case expect (CHR ''}'') r of
         Some q \<Rightarrow> (if skipWS q = [] then Some [] else None)
       | None \<Rightarrow>
           Option.bind (objMembers (length r) r) (\<lambda>(ms, q). if skipWS q = [] then Some ms else None))"

definition foldPut :: "(bytes \<times> bytes) list \<Rightarrow> (bytes, bytes) gomap" where
  "foldPut ms = foldl (\<lambda>m (k, v). mput m k v) [] ms"

text \<open>
  \<open>json.Unmarshal(raw, &m)\<close> for a nil \<open>map[string]json.RawMessage\<close>: \<open>Some None\<close> is the nil map that
  \<open>null\<close> leaves, the last of several equal keys wins, anything but an object is an error.
\<close>

definition unmarshalMap :: "bytes \<Rightarrow> (bytes, bytes) gomap option option" where
  "unmarshalMap raw =
     (if \<not> jsonValid raw then None
      else if skipWS raw \<noteq> [] \<and> hd (skipWS raw) = CHR ''n'' then Some None
      else map_option (\<lambda>ms. Some (foldPut ms)) (jsonMembers raw))"

section \<open>Marshal\<close>

text \<open>
  \<open>compact\<close> with HTML escaping, as \<open>Marshal\<close> applies it to a \<open>RawMessage\<close>: white space outside
  string literals is dropped, the HTML-sensitive bytes, U+2028 and U+2029 are escaped.
\<close>

definition lineSep :: "char \<Rightarrow> bytes \<Rightarrow> bool" where
  "lineSep c s \<longleftrightarrow>
     byte_val c = 226 \<and>
     (case s of b # d # _ \<Rightarrow> byte_val b = 128 \<and> (byte_val d = 168 \<or> byte_val d = 169) | _ \<Rightarrow> False)"

fun compactGo :: "bool \<Rightarrow> bool \<Rightarrow> bytes \<Rightarrow> bytes" where
  "compactGo inStr esc [] = []"
| "compactGo inStr esc (c # s) =
     (if c = CHR ''<'' \<or> c = CHR ''>'' \<or> c = CHR ''&'' then u00 c @ compactGo inStr False s
      else if lineSep c s then
        CHR 0x5C # ''u202'' @ [hexDigit (byte_val (s ! 1) - 160)] @ compactGo inStr False (drop 2 s)
      else if inStr then
        c # compactGo (\<not> (c = CHR 0x22 \<and> \<not> esc)) (c = CHR 0x5C \<and> \<not> esc) s
      else if isJSONWhitespace c then compactGo False False s
      else c # compactGo (c = CHR 0x22) False s)"

definition compact :: "bytes \<Rightarrow> bytes option" where
  "compact raw = (if jsonValid raw then Some (compactGo False False raw) else None)"

definition joinWith :: "bytes \<Rightarrow> bytes list \<Rightarrow> bytes" where
  "joinWith sep xs = concat (case xs of [] \<Rightarrow> [] | x # ys \<Rightarrow> x # map (\<lambda>y. sep @ y) ys)"

text \<open>\<open>json.Marshal(m)\<close> for a \<open>map[string]json.RawMessage\<close>: keys in byte order.\<close>

definition marshalMap :: "(bytes, bytes) gomap \<Rightarrow> bytes option" where
  "marshalMap m =
     (let ms = sort_key fst m;
          parts = map (\<lambda>(k, v). map_option (\<lambda>c. quote k @ CHR '':'' # c) (compact v)) ms
      in if None \<in> set parts then None
         else Some (CHR ''{'' # joinWith '','' (map the parts) @ ''}''))"

end
