(* ===== verification/Numbers.thy ===== *)
theory Numbers
  imports Complex_Main Go_Text
begin

text \<open>
  Exact JSON numbers of the supervisor (\<open>muxcore/supervisor/id.go\<close>, and the comparison in
  \<open>correlation.go\<close>): a number text is normalised to \<open>sign digits e exponent\<close> without going through
  floating point, so that request ids and progress values that denote the same number compare
  equal. The reference semantics is the rational number a text denotes.
\<close>

section \<open>Scanning a number text\<close>

record numParts =
  np_negative :: bool
  np_int :: bytes
  np_frac :: bytes
  np_exp :: int

definition scanInt :: "bytes \<Rightarrow> (bytes \<times> bytes) option" where
  "scanInt v =
     (case v of
        [] \<Rightarrow> None
      | c # r \<Rightarrow>
          (if c = CHR ''0'' then
             (case r of d # _ \<Rightarrow> if isDigit d then None else Some ([c], r) | [] \<Rightarrow> Some ([c], r))
           else if isDigit c then Some (takeWhile isDigit v, dropWhile isDigit v)
           else None))"

definition scanFrac :: "bytes \<Rightarrow> (bytes \<times> bytes) option" where
  "scanFrac v =
     (case v of
        [] \<Rightarrow> Some ([], v)
      | c # r \<Rightarrow>
          (if c = CHR ''.'' then
             (if takeWhile isDigit r = [] then None else Some (takeWhile isDigit r, dropWhile isDigit r))
           else Some ([], v)))"

definition scanExp :: "bytes \<Rightarrow> (int \<times> bytes) option" where
  "scanExp v =
     (case v of
        [] \<Rightarrow> Some (0, v)
      | c # r \<Rightarrow>
          (if c = CHR ''e'' \<or> c = CHR ''E'' then
             (let (neg, q) =
                (case r of
                   [] \<Rightarrow> (False, r)
                 | x # q \<Rightarrow>
                     if x = CHR ''-'' then (True, q) else if x = CHR ''+'' then (False, q) else (False, r))
              in if takeWhile isDigit q = [] then None
                 else
                   let e = int (digval (takeWhile isDigit q))
                   in Some (if neg then - e else e, dropWhile isDigit q))
           else Some (0, v)))"

definition scanNumber :: "bytes \<Rightarrow> numParts option" where
  "scanNumber value =
     (case value of
        [] \<Rightarrow> None
      | c # r \<Rightarrow>
          (let negative = (c = CHR ''-'');
               v0 = (if negative then r else value)
           in case scanInt v0 of
                None \<Rightarrow> None
              | Some (ip, v1) \<Rightarrow>
                  (case scanFrac v1 of
                     None \<Rightarrow> None
                   | Some (fp, v2) \<Rightarrow>
                       (case scanExp v2 of
                          None \<Rightarrow> None
                        | Some (ex, v3) \<Rightarrow>
                            if v3 \<noteq> [] then None
                            else Some \<lparr>np_negative = negative, np_int = ip, np_frac = fp, np_exp = ex\<rparr>))))"

section \<open>The canonical key\<close>

definition trimLeft0 :: "bytes \<Rightarrow> bytes" where
  "trimLeft0 s = dropWhile (\<lambda>c. c = CHR ''0'') s"

definition trimRight0 :: "bytes \<Rightarrow> bytes" where
  "trimRight0 s = rev (dropWhile (\<lambda>c. c = CHR ''0'') (rev s))"

definition canonicalParts :: "numParts \<Rightarrow> bytes" where
  "canonicalParts p =
     (let digits = trimLeft0 (np_int p @ np_frac p)
      in if digits = [] then ''0''
         else
           let scale = np_exp p - int (length (np_frac p));
               trailing = length digits - length (trimRight0 digits);
               digits' = take (length digits - trailing) digits;
               scale' = scale + int trailing
           in (if np_negative p then ''-'' else []) @ digits' @ CHR ''e'' # intDec scale')"

definition canonicalJSONNumber :: "bytes \<Rightarrow> bytes option" where
  "canonicalJSONNumber value = map_option canonicalParts (scanNumber value)"

definition splitCanonicalNumber :: "bytes \<Rightarrow> int \<times> bytes \<times> int" where
  "splitCanonicalNumber value =
     (if value = ''0'' then (0, [], 0)
      else
        let (sign, v) = (case value of c # r \<Rightarrow> if c = CHR ''-'' then (-1, r) else (1, value) | [] \<Rightarrow> (1, []))
        in case cutLastByte (CHR ''e'') v of
             None \<Rightarrow> (sign, v, 0)
           | Some (ds, ex) \<Rightarrow> (sign, ds, (case parseInt10 ex of None \<Rightarrow> 0 | Some i \<Rightarrow> i)))"

fun compareAlignedDigits :: "bytes \<Rightarrow> bytes \<Rightarrow> int" where
  "compareAlignedDigits [] [] = 0"
| "compareAlignedDigits (a # l) [] =
     (if byte_val a < 48 then -1 else if byte_val a > 48 then 1 else compareAlignedDigits l [])"
| "compareAlignedDigits [] (b # r) =
     (if 48 < byte_val b then -1 else if 48 > byte_val b then 1 else compareAlignedDigits [] r)"
| "compareAlignedDigits (a # l) (b # r) =
     (if byte_val a < byte_val b then -1 else if byte_val a > byte_val b then 1
      else compareAlignedDigits l r)"

definition cmpInt :: "int \<Rightarrow> int \<Rightarrow> int" where
  "cmpInt a b = (if a < b then -1 else if a > b then 1 else 0)"

definition compareCanonicalNumbers :: "bytes \<Rightarrow> bytes \<Rightarrow> int" where
  "compareCanonicalNumbers left right =
     (let (leftSign, leftDigits, leftExponent) = splitCanonicalNumber left;
          (rightSign, rightDigits, rightExponent) = splitCanonicalNumber right
      in if leftSign \<noteq> rightSign then (if leftSign < rightSign then -1 else 1)
         else if leftSign = 0 then 0
         else
           let c = cmpInt (int (length leftDigits) + leftExponent) (int (length rightDigits) + rightExponent);
               c' = (if c = 0 then compareAlignedDigits leftDigits rightDigits else c)
           in if leftSign < 0 then - c' else c')"

definition canonicalNumberIsInteger :: "bytes \<Rightarrow> bool" where
  "canonicalNumberIsInteger value =
     (if value = ''0'' then True
      else case cutLastByte (CHR ''e'') value of
          None \<Rightarrow> False
        | Some (_, ex) \<Rightarrow> (case parseInt10 ex of None \<Rightarrow> False | Some i \<Rightarrow> i \<ge> 0))"

section \<open>Reference semantics\<close>

text \<open>The rational number that the parts of a number text denote, and the text itself.\<close>

definition partsValue :: "numParts \<Rightarrow> rat" where
  "partsValue p =
     (if np_negative p then -1 else 1) * of_nat (digval (np_int p @ np_frac p))
       * 10 powi (np_exp p - int (length (np_frac p)))"

definition numberValue :: "bytes \<Rightarrow> rat option" where
  "numberValue s = map_option partsValue (scanNumber s)"

text \<open>A key in normal form: sign, digits without leading or trailing zero, exponent.\<close>

definition normalDigits :: "bytes \<Rightarrow> bool" where
  "normalDigits ds \<longleftrightarrow>
     ds \<noteq> [] \<and> list_all isDigit ds \<and> hd ds \<noteq> CHR ''0'' \<and> last ds \<noteq> CHR ''0''"

definition renderKey :: "bool \<Rightarrow> bytes \<Rightarrow> int \<Rightarrow> bytes" where
  "renderKey neg ds e = (if neg then ''-'' else []) @ ds @ CHR ''e'' # intDec e"

definition keyValue :: "bytes \<Rightarrow> rat" where
  "keyValue k =
     (let (s, ds, e) = splitCanonicalNumber k in of_int s * of_nat (digval ds) * 10 powi e)"

lemma e_not_digit: "isDigit c \<Longrightarrow> c \<noteq> CHR ''e''"
  by (auto simp: isDigit_def byte_val_def)

lemma e_not_in_intDec: "CHR ''e'' \<notin> set (intDec i)"
  using intDec_chars [of "CHR ''e''" i] by (auto simp: isDigit_def byte_val_def)

lemma split_renderKey:
  assumes "normalDigits ds"
  shows "splitCanonicalNumber (renderKey neg ds e) = ((if neg then -1 else 1), ds, e)"
proof -
  have cut: "cutLastByte (CHR ''e'') (ds @ CHR ''e'' # intDec e) = Some (ds, intDec e)"
    by (simp add: cutLastByte_append e_not_in_intDec)
  obtain c r where ds: "ds = c # r" and "isDigit c"
    using assms by (cases ds) (auto simp: normalDigits_def)
  then have "c \<noteq> CHR ''-''"
    using isDigit_not_sign by blast
  then show ?thesis
    using cut unfolding ds by (simp add: splitCanonicalNumber_def renderKey_def)
qed

lemma keyValue_render:
  "normalDigits ds \<Longrightarrow> keyValue (renderKey neg ds e) =
     (if neg then -1 else 1) * of_nat (digval ds) * 10 powi e"
  by (simp add: keyValue_def split_renderKey)

lemma keyValue_0: "keyValue ''0'' = 0"
  by (simp add: keyValue_def splitCanonicalNumber_def)

lemma digval_trimLeft0: "digval (trimLeft0 s) = digval s"
  by (induction s) (simp_all add: trimLeft0_def digval_Cons digitVal_def byte_val_def)

lemma digval_zeros: "set s \<subseteq> {CHR ''0''} \<Longrightarrow> digval s = 0"
  by (induction s) (simp_all add: digval_Cons digitVal_def byte_val_def)

lemma trimRight0_split:
  obtains z where "s = trimRight0 s @ z" and "set z \<subseteq> {CHR ''0''}"
proof
  let ?t = "takeWhile (\<lambda>c. c = CHR ''0'') (rev s)"
  show "s = trimRight0 s @ rev ?t"
    by (metis trimRight0_def rev_append rev_rev_ident takeWhile_dropWhile_id)
  show "set (rev ?t) \<subseteq> {CHR ''0''}"
    by (auto dest: set_takeWhileD)
qed

lemma dropWhile_hd: "dropWhile P s \<noteq> [] \<Longrightarrow> \<not> P (hd (dropWhile P s))"
  by (rule hd_dropWhile)

text \<open>Normalising keeps the value and yields a normal form.\<close>

lemma canonicalParts_form:
  assumes "list_all isDigit (np_int p @ np_frac p)"
  shows "(canonicalParts p = ''0'' \<and> partsValue p = 0) \<or>
    (\<exists>ds e. canonicalParts p = renderKey (np_negative p) ds e \<and> normalDigits ds \<and>
       partsValue p = (if np_negative p then -1 else 1) * of_nat (digval ds) * 10 powi e)"
proof (cases "trimLeft0 (np_int p @ np_frac p) = []")
  case True
  then have "digval (np_int p @ np_frac p) = 0"
    by (metis digval_trimLeft0 digval_Nil)
  then show ?thesis
    using True by (simp add: canonicalParts_def partsValue_def)
next
  case False
  define digits where "digits = trimLeft0 (np_int p @ np_frac p)"
  define ds where "ds = trimRight0 digits"
  obtain z where z: "digits = ds @ z" "set z \<subseteq> {CHR ''0''}"
    using trimRight0_split unfolding ds_def by blast
  define e where "e = np_exp p - int (length (np_frac p)) + int (length z)"
  have dig: "list_all isDigit digits"
    using assms by (auto simp: digits_def trimLeft0_def list_all_iff dest: set_dropWhileD)
  have hd0: "hd digits \<noteq> CHR ''0''"
    using False dropWhile_hd unfolding digits_def trimLeft0_def by blast
  have nz: "ds \<noteq> []"
  proof
    assume "ds = []"
    then have "hd digits = CHR ''0''"
      using z False by (cases z) (auto simp: digits_def)
    with hd0 show False ..
  qed
  then have "last ds \<noteq> CHR ''0''"
    using dropWhile_hd [of "\<lambda>c. c = CHR ''0''" "rev digits"]
    unfolding ds_def trimRight0_def by (simp add: last_rev)
  then have normal: "normalDigits ds"
    using nz hd0 dig z(1) by (cases ds) (auto simp: normalDigits_def)
  have "take (length digits - (length digits - length ds)) digits = ds"
    "length digits - length ds = length z"
    using z(1) by simp_all
  then have "canonicalParts p = renderKey (np_negative p) ds e"
    using False
    unfolding canonicalParts_def Let_def digits_def [symmetric] ds_def [symmetric] renderKey_def e_def
    by simp
  moreover have "digval (np_int p @ np_frac p) = digval ds * 10 ^ length z"
    using digval_trimLeft0 [of "np_int p @ np_frac p"] z
    unfolding digits_def [symmetric] by (simp add: digval_append digval_zeros)
  then have "partsValue p = (if np_negative p then -1 else 1) * of_nat (digval ds) * 10 powi e"
    by (simp add: partsValue_def e_def power_int_add)
  ultimately show ?thesis using normal by blast
qed

section \<open>Keys are equal exactly when the numbers are\<close>

lemma digitVal_pos: "isDigit c \<Longrightarrow> c \<noteq> CHR ''0'' \<Longrightarrow> 0 < digitVal c"
  using digitVal_inj [of c "CHR ''0''"] by (auto simp: digitVal_def isDigit_def byte_val_def le_less)

lemma normal_bounds:
  assumes "normalDigits ds"
  shows "10 ^ (length ds - 1) \<le> digval ds" and "digval ds < 10 ^ length ds"
    and "\<not> 10 dvd digval ds" and "0 < length ds" and "0 < digval ds"
proof -
  obtain c r where ds: "ds = c # r"
    using assms by (cases ds) (auto simp: normalDigits_def)
  have "1 \<le> digitVal c"
    using assms digitVal_pos [of c] unfolding ds by (simp add: normalDigits_def)
  then have "1 * 10 ^ length r \<le> digitVal c * 10 ^ length r"
    by (rule mult_right_mono) simp
  then have "10 ^ length r \<le> digitVal c * 10 ^ length r + digval r"
    by linarith
  then show le: "10 ^ (length ds - 1) \<le> digval ds"
    unfolding ds digval_Cons by simp
  show "digval ds < 10 ^ length ds"
    using assms by (simp add: normalDigits_def digval_less)
  show "0 < length ds" by (simp add: ds)
  show "0 < digval ds"
    using le by (metis less_le_trans zero_less_numeral zero_less_power)
  obtain q d where q: "ds = q @ [d]"
    using ds by (metis append_butlast_last_id list.distinct(1))
  have "isDigit d" "d \<noteq> CHR ''0''"
    using assms unfolding q by (simp_all add: normalDigits_def)
  then have "0 < digitVal d" "digitVal d < 10"
    by (simp_all add: digitVal_pos digitVal_less)
  then have "(digval q * 10 + digitVal d) mod 10 \<noteq> 0"
    by simp
  then show "\<not> 10 dvd digval ds"
    unfolding q digval_append by (simp add: digval_Cons dvd_eq_mod_eq_0)
qed

lemma digval_inj:
  "length a = length b \<Longrightarrow> list_all isDigit a \<Longrightarrow> list_all isDigit b \<Longrightarrow> digval a = digval b \<Longrightarrow> a = b"
proof (induction a b rule: list_induct2)
  case Nil
  then show ?case by simp
next
  case (Cons x xs y ys)
  let ?P = "10 ^ length xs :: nat"
  have bnd: "digval xs < ?P" "digval ys < ?P"
    using Cons.hyps Cons.prems digval_less [of xs] digval_less [of ys] by simp_all
  have eq: "digitVal x * ?P + digval xs = digitVal y * ?P + digval ys"
    using Cons by (simp add: digval_Cons)
  have "digitVal x = (digitVal x * ?P + digval xs) div ?P"
    using bnd by simp
  also have "\<dots> = digitVal y"
    using bnd unfolding eq by simp
  finally have "digitVal x = digitVal y" .
  then show ?case
    using Cons eq digitVal_inj [of x y] by auto
qed

lemma normal_unique:
  assumes n: "normalDigits ds" "normalDigits ds'"
    and eq: "of_nat (digval ds) * 10 powi e = (of_nat (digval ds') * 10 powi e' :: rat)"
  shows "ds = ds' \<and> e = e'"
proof -
  have le: "e \<le> e'"
    if "normalDigits ds'" and eq: "of_nat (digval ds) * 10 powi e = (of_nat (digval ds') * 10 powi e' :: rat)"
    for ds ds' e e'
  proof (rule ccontr)
    assume "\<not> e \<le> e'"
    then obtain k where k: "e = e' + int (Suc k)"
      by (metis zless_iff_Suc_zadd not_le)
    have "(of_nat (digval ds * 10 ^ Suc k) :: rat) * 10 powi e' = of_nat (digval ds') * 10 powi e'"
      using eq unfolding k by (simp add: power_int_add mult_ac)
    then have "(of_nat (digval ds * 10 ^ Suc k) :: rat) = of_nat (digval ds')"
      by simp
    then have "digval ds' = digval ds * 10 ^ Suc k"
      using of_nat_eq_iff by metis
    then have "10 dvd digval ds'"
      by simp
    then show False
      using normal_bounds(3) [OF that(1)] by simp
  qed
  have e: "e = e'"
    using le [OF n(2) eq] le [OF n(1) eq [symmetric]] by simp
  then have v: "digval ds = digval ds'"
    using eq by simp
  have "\<not> length ds < length ds'"
    if "normalDigits ds" "normalDigits ds'" "digval ds = digval ds'" for ds ds'
  proof
    assume "length ds < length ds'"
    then have "(10::nat) ^ length ds \<le> 10 ^ (length ds' - 1)"
      by (simp add: power_increasing)
    then show False
      using normal_bounds(1) [OF that(2)] normal_bounds(2) [OF that(1)] that(3) by linarith
  qed
  then have "length ds = length ds'"
    using n v by (metis nat_neq_iff)
  then show ?thesis
    using e v n digval_inj by (simp add: normalDigits_def)
qed

lemma scanInt_digits: "scanInt v = Some (a, r) \<Longrightarrow> list_all isDigit a"
  by (auto simp: scanInt_def list_all_iff split: list.splits if_splits dest: set_takeWhileD)
     (simp_all add: isDigit_def byte_val_def)

lemma scanFrac_digits: "scanFrac v = Some (a, r) \<Longrightarrow> list_all isDigit a"
  by (auto simp: scanFrac_def list_all_iff split: list.splits if_splits dest: set_takeWhileD)

lemma scanNumber_digits: "scanNumber v = Some p \<Longrightarrow> list_all isDigit (np_int p @ np_frac p)"
  by (auto simp: scanNumber_def Let_def dest!: scanInt_digits scanFrac_digits
      split: list.splits option.splits if_splits)

lemma canonical_form:
  assumes "canonicalJSONNumber a = Some ka" and "numberValue a = Some va"
  shows "(ka = ''0'' \<and> va = 0) \<or>
    (\<exists>neg ds e. ka = renderKey neg ds e \<and> normalDigits ds \<and>
       va = (if neg then -1 else 1) * of_nat (digval ds) * 10 powi e)"
  using assms canonicalParts_form scanNumber_digits
  by (fastforce simp: canonicalJSONNumber_def numberValue_def)

lemma keyValue_canonical:
  "canonicalJSONNumber a = Some ka \<Longrightarrow> numberValue a = Some va \<Longrightarrow> keyValue ka = va"
  using canonical_form [of a ka va] keyValue_0 keyValue_render by auto

lemma normal_value_pos: "normalDigits ds \<Longrightarrow> 0 < (of_nat (digval ds) * 10 powi e :: rat)"
  using normal_bounds(5) by simp

text \<open>C26: two JSON number texts get the same correlation key exactly when they denote the same
  rational number, so \<open>1\<close>, \<open>1.0\<close> and \<open>10e-1\<close> are one request id and nothing else is.\<close>

theorem canonical_number_exact:
  assumes "canonicalJSONNumber a = Some ka" and "canonicalJSONNumber b = Some kb"
    and "numberValue a = Some va" and "numberValue b = Some vb"
  shows "ka = kb \<longleftrightarrow> va = vb"
proof
  assume "ka = kb"
  then show "va = vb"
    using assms keyValue_canonical by metis
next
  assume eq: "va = vb"
  show "ka = kb"
    using canonical_form [OF assms(1,3)] canonical_form [OF assms(2,4)]
  proof (elim disjE exE conjE)
    fix neg ds e neg' ds' e'
    assume k: "ka = renderKey neg ds e" "kb = renderKey neg' ds' e'"
      and n: "normalDigits ds" "normalDigits ds'"
      and v: "va = (if neg then -1 else 1) * of_nat (digval ds) * 10 powi e"
        "vb = (if neg' then -1 else 1) * of_nat (digval ds') * 10 powi e'"
    have "neg = neg'"
      using v eq normal_value_pos [OF n(1), of e] normal_value_pos [OF n(2), of e']
      by (auto split: if_splits)
    then have "ds = ds' \<and> e = e'"
      using normal_unique [OF n, of e e'] v eq by (auto split: if_splits)
    then show "ka = kb"
      using k \<open>neg = neg'\<close> by simp
  qed (use eq in \<open>auto dest: normal_bounds(5) split: if_splits\<close>)
qed

theorem canonical_number_exact_witness:
  "canonicalJSONNumber ''1.0'' = canonicalJSONNumber ''10e-1''"
proof -
  have k: "canonicalJSONNumber ''1.0'' = Some ''1e0''" "canonicalJSONNumber ''10e-1'' = Some ''1e0''"
    by code_simp+
  have v: "numberValue ''1.0'' = Some 1" "numberValue ''10e-1'' = Some 1"
    by (simp_all add: numberValue_def scanNumber_def scanInt_def scanFrac_def scanExp_def isDigit_def
        byte_val_def partsValue_def digval_def digitVal_def power_int_minus)
  show ?thesis
    using canonical_number_exact [OF k v] k by simp
qed

section \<open>The comparison is the order of the numbers\<close>

definition cmpRat :: "rat \<Rightarrow> rat \<Rightarrow> int" where
  "cmpRat a b = (if a < b then -1 else if a > b then 1 else 0)"

lemma compareAlignedDigits_correct:
  "list_all isDigit l \<Longrightarrow> list_all isDigit r \<Longrightarrow>
     compareAlignedDigits l r = cmpInt (int (digval l * 10 ^ length r)) (int (digval r * 10 ^ length l))"
proof (induction l r rule: compareAlignedDigits.induct)
  case 1
  then show ?case by (simp add: cmpInt_def)
next
  case (2 a l)
  then have "\<not> byte_val a < 48" "byte_val a > 48 \<longleftrightarrow> 0 < digitVal a"
    by (auto simp: isDigit_def digitVal_def)
  with 2 show ?case
    by (cases "digitVal a = 0") (simp_all add: cmpInt_def digval_Cons add_pos_nonneg not_less)
next
  case (3 b r)
  then have "\<not> byte_val b < 48" "byte_val b > 48 \<longleftrightarrow> 0 < digitVal b"
    by (auto simp: isDigit_def digitVal_def)
  with 3 show ?case
    by (cases "digitVal b = 0") (simp_all add: cmpInt_def digval_Cons add_pos_nonneg not_less)
next
  case (4 a l b r)
  let ?P = "10 ^ (length l + length r + 1) :: nat"
  have l: "digval l * 10 ^ (length r + 1) < ?P" and r: "digval r * 10 ^ (length l + 1) < ?P"
    using "4.prems" digval_less [of l] digval_less [of r]
    by (simp_all add: power_add)
  have L: "digval (a # l) * 10 ^ length (b # r) = digitVal a * ?P + digval l * 10 ^ (length r + 1)"
    and R: "digval (b # r) * 10 ^ length (a # l) = digitVal b * ?P + digval r * 10 ^ (length l + 1)"
    by (simp_all add: digval_Cons power_add algebra_simps)
  have step: "x * ?P + u < y * ?P + v" if "x < y" "u < ?P" for x y u v :: nat
  proof -
    have "x * ?P + u < (x + 1) * ?P"
      using that by simp
    also have "\<dots> \<le> y * ?P"
      using that by (intro mult_right_mono) simp_all
    finally show ?thesis by simp
  qed
  consider "byte_val a < byte_val b" | "byte_val b < byte_val a" | "a = b"
    using byte_val_inj nat_neq_iff by blast
  then show ?case
  proof cases
    case 1
    then have "digitVal a < digitVal b"
      using "4.prems" by (auto simp: isDigit_def digitVal_def)
    then show ?thesis
      using 1 step [OF _ l] unfolding cmpInt_def L R by (simp del: of_nat_add of_nat_mult)
  next
    case 2
    then have "digitVal b < digitVal a"
      using "4.prems" by (auto simp: isDigit_def digitVal_def)
    then have "digitVal b * ?P + digval r * 10 ^ (length l + 1) < digitVal a * ?P + digval l * 10 ^ (length r + 1)"
      by (rule step [OF _ r])
    then show ?thesis
      using 2 unfolding cmpInt_def L R by (simp del: of_nat_add of_nat_mult)
  next
    case 3
    then have "compareAlignedDigits (a # l) (b # r) =
        cmpInt (int (digval l * 10 ^ length r)) (int (digval r * 10 ^ length l))"
      using "4.IH" "4.prems" by simp
    also have "\<dots> = cmpInt (int (digval (a # l) * 10 ^ length (b # r))) (int (digval (b # r) * 10 ^ length (a # l)))"
      unfolding L R using 3 by (simp add: cmpInt_def)
    finally show ?thesis .
  qed
qed

lemma normal_magnitude:
  assumes "normalDigits ds"
  shows "10 powi (int (length ds) + e - 1) \<le> (of_nat (digval ds) * 10 powi e :: rat)"
    and "(of_nat (digval ds) * 10 powi e :: rat) < 10 powi (int (length ds) + e)"
proof -
  have eq: "int (length ds) + e - 1 = int (length ds - 1) + e"
    using normal_bounds(4) [OF assms] by (simp add: of_nat_diff Suc_le_eq)
  have "10 powi (int (length ds) + e - 1) = (of_nat (10 ^ (length ds - 1)) * 10 powi e :: rat)"
    unfolding eq by (simp add: power_int_add)
  also have "\<dots> \<le> of_nat (digval ds) * 10 powi e"
    using normal_bounds(1) [OF assms] by (intro mult_right_mono) (simp_all only: of_nat_le_iff zero_le_power_int zero_le_numeral)
  finally show "10 powi (int (length ds) + e - 1) \<le> (of_nat (digval ds) * 10 powi e :: rat)" .
  have "(of_nat (digval ds) * 10 powi e :: rat) < of_nat (10 ^ length ds) * 10 powi e"
    using normal_bounds(2) [OF assms] by (intro mult_strict_right_mono) (simp_all only: of_nat_less_iff zero_less_power_int zero_less_numeral)
  also have "\<dots> = 10 powi (int (length ds) + e)"
    by (simp add: power_int_add)
  finally show "(of_nat (digval ds) * 10 powi e :: rat) < 10 powi (int (length ds) + e)" .
qed

lemma normal_compare:
  assumes n: "normalDigits ds" "normalDigits ds'"
  shows "(let c = cmpInt (int (length ds) + e) (int (length ds') + e')
          in if c = 0 then compareAlignedDigits ds ds' else c) =
    cmpRat (of_nat (digval ds) * 10 powi e) (of_nat (digval ds') * 10 powi e')"
proof -
  let ?v = "of_nat (digval ds) * 10 powi e :: rat" and ?w = "of_nat (digval ds') * 10 powi e' :: rat"
  have less: "of_nat (digval ds) * 10 powi e < (of_nat (digval ds') * 10 powi e' :: rat)"
    if "int (length ds) + e < int (length ds') + e'" "normalDigits ds" "normalDigits ds'" for ds ds' e e'
  proof -
    have "(of_nat (digval ds) * 10 powi e :: rat) < 10 powi (int (length ds) + e)"
      using that normal_magnitude(2) by blast
    also have "\<dots> \<le> 10 powi (int (length ds') + e' - 1)"
      using that(1) by (intro power_int_increasing) simp_all
    also have "\<dots> \<le> of_nat (digval ds') * 10 powi e'"
      using that normal_magnitude(1) by blast
    finally show ?thesis .
  qed
  consider "int (length ds) + e < int (length ds') + e'" | "int (length ds') + e' < int (length ds) + e"
    | "int (length ds) + e = int (length ds') + e'" by linarith
  then show ?thesis
  proof cases
    case 1
    then show ?thesis using less [OF 1 n] by (simp add: cmpInt_def cmpRat_def)
  next
    case 2
    then show ?thesis using less [OF 2 n(2,1)] by (simp add: cmpInt_def cmpRat_def)
  next
    case 3
    let ?f = "10 powi (int (length ds') - e) :: rat"
    have f: "0 < ?f" by simp
    have v: "?v * ?f = of_nat (digval ds * 10 ^ length ds')"
      by (simp add: power_int_diff)
    have "10 powi e' * ?f = (10 powi (e' + (int (length ds') - e)) :: rat)"
      by (simp add: power_int_add power_int_diff)
    also have "e' + (int (length ds') - e) = int (length ds)"
      using 3 by simp
    finally have w: "?w * ?f = of_nat (digval ds' * 10 ^ length ds)"
      by (simp add: mult.assoc)
    have "cmpRat ?v ?w = cmpRat (?v * ?f) (?w * ?f)"
      using f by (simp add: cmpRat_def)
    also have "\<dots> = cmpInt (int (digval ds * 10 ^ length ds')) (int (digval ds' * 10 ^ length ds))"
      unfolding v w cmpRat_def cmpInt_def by (simp only: of_nat_less_iff)
    also have "\<dots> = compareAlignedDigits ds ds'"
      using n by (simp add: compareAlignedDigits_correct normalDigits_def)
    finally show ?thesis
      using 3 by (simp add: cmpInt_def)
  qed
qed

lemma compare_canonical_value:
  assumes "canonicalJSONNumber a = Some ka" and "canonicalJSONNumber b = Some kb"
    and "numberValue a = Some va" and "numberValue b = Some vb"
  shows "compareCanonicalNumbers ka kb = (if va < vb then -1 else if va > vb then 1 else 0)"
  using canonical_form [OF assms(1,3)] canonical_form [OF assms(2,4)]
proof (elim disjE exE conjE)
  fix neg ds e neg' ds' e'
  assume k: "ka = renderKey neg ds e" "kb = renderKey neg' ds' e'"
    and n: "normalDigits ds" "normalDigits ds'"
    and v: "va = (if neg then -1 else 1) * of_nat (digval ds) * 10 powi e"
      "vb = (if neg' then -1 else 1) * of_nat (digval ds') * 10 powi e'"
  note pos = normal_value_pos [OF n(1), of e] normal_value_pos [OF n(2), of e']
  show ?thesis
  proof (cases "neg = neg'")
    case True
    have "compareCanonicalNumbers ka kb =
      (if neg then - 1 else 1) * cmpRat (of_nat (digval ds) * 10 powi e) (of_nat (digval ds') * 10 powi e')"
      unfolding normal_compare [OF n, of e e', symmetric] k compareCanonicalNumbers_def
        split_renderKey [OF n(1)] split_renderKey [OF n(2)]
      using True by (simp add: Let_def)
    then show ?thesis
      using True v by (simp add: cmpRat_def)
  next
    case False
    then show ?thesis
      using v pos unfolding k compareCanonicalNumbers_def split_renderKey [OF n(1)] split_renderKey [OF n(2)]
      by (cases neg) auto
  qed
next
  fix neg ds e
  assume "ka = ''0''" "va = 0" and k: "kb = renderKey neg ds e" and n: "normalDigits ds"
    and v: "vb = (if neg then -1 else 1) * of_nat (digval ds) * 10 powi e"
  then show ?thesis
    using normal_value_pos [OF n, of e]
    unfolding k compareCanonicalNumbers_def split_renderKey [OF n]
    by (cases neg) (simp_all add: splitCanonicalNumber_def)
next
  fix neg ds e
  assume "kb = ''0''" "vb = 0" and k: "ka = renderKey neg ds e" and n: "normalDigits ds"
    and v: "va = (if neg then -1 else 1) * of_nat (digval ds) * 10 powi e"
  then show ?thesis
    using normal_value_pos [OF n, of e]
    unfolding k compareCanonicalNumbers_def split_renderKey [OF n]
    by (cases neg) (simp_all add: splitCanonicalNumber_def)
qed (simp add: compareCanonicalNumbers_def splitCanonicalNumber_def)

text \<open>comparing two canonical progress values is comparing the rational numbers they denote,
  however their digits and exponents are written.\<close>

theorem compare_canonical_correct:
  assumes "canonicalJSONNumber a = Some ka" and "canonicalJSONNumber b = Some kb"
    and "numberValue a = Some va" and "numberValue b = Some vb"
  shows "compareCanonicalNumbers ka kb = (if va < vb then -1 else if va > vb then 1 else 0)"
  by (rule compare_canonical_value [OF assms])

theorem compare_canonical_correct_witness:
  "compareCanonicalNumbers ''1e0'' ''2e0'' = -1"
proof -
  have k: "canonicalJSONNumber ''1.0'' = Some ''1e0''" "canonicalJSONNumber ''2'' = Some ''2e0''"
    by code_simp+
  have v: "numberValue ''1.0'' = Some 1" "numberValue ''2'' = Some 2"
    by (simp_all add: numberValue_def scanNumber_def scanInt_def scanFrac_def scanExp_def isDigit_def
        byte_val_def partsValue_def digval_def digitVal_def power_int_minus)
  show ?thesis
    using compare_canonical_correct [OF k v] by simp
qed


text \<open>The same for keys, whose values can be read back from them.\<close>

definition isNumberKey :: "bytes \<Rightarrow> bool" where
  "isNumberKey k \<longleftrightarrow> (\<exists>s. canonicalJSONNumber s = Some k)"

lemma compare_keys:
  assumes "isNumberKey ka" and "isNumberKey kb"
  shows "compareCanonicalNumbers ka kb \<le> 0 \<longleftrightarrow> keyValue ka \<le> keyValue kb"
proof -
  obtain a b where c: "canonicalJSONNumber a = Some ka" "canonicalJSONNumber b = Some kb"
    using assms by (auto simp: isNumberKey_def)
  then obtain va vb where v: "numberValue a = Some va" "numberValue b = Some vb"
    by (auto simp: canonicalJSONNumber_def numberValue_def)
  have "keyValue ka = va" "keyValue kb = vb"
    using keyValue_canonical c v by blast+
  then show ?thesis
    using compare_canonical_value [OF c v] by auto
qed

end
