(* ===== verification/Frame.thy ===== *)
theory Frame
  imports Json Numbers
begin

text \<open>
  Frames of the launcher supervisor (\<open>muxcore/supervisor/frame.go\<close>, \<open>id.go\<close>, \<open>protocol.go\<close>): reading
  one bounded line, parsing it into a \<open>parsedFrame\<close> with the correlation metadata the router needs,
  and the private launcher control messages.

  Errors are the texts of the Go errors. A \<open>nil\<close> \<open>json.RawMessage\<close> is the empty byte string: the
  code only asks for its length, and a member that is present is never empty.
\<close>

section \<open>Scalars\<close>

datatype scalarKind = scalarString | scalarNumber

datatype scalarKey = SKey (skind: scalarKind) (svalue: bytes)

text \<open>The order in which lost requests are reported: the kind first, then the bytes of the value.\<close>

instantiation scalarKind :: linorder
begin

definition less_eq_scalarKind :: "scalarKind \<Rightarrow> scalarKind \<Rightarrow> bool" where
  "less_eq_scalarKind a b \<longleftrightarrow> a = scalarString \<or> b = scalarNumber"

definition less_scalarKind :: "scalarKind \<Rightarrow> scalarKind \<Rightarrow> bool" where
  "less_scalarKind a b \<longleftrightarrow> a = scalarString \<and> b = scalarNumber"

instance
  by standard (auto simp: less_eq_scalarKind_def less_scalarKind_def, (metis scalarKind.exhaust)+)

end

instantiation scalarKey :: linorder
begin

definition less_eq_scalarKey :: "scalarKey \<Rightarrow> scalarKey \<Rightarrow> bool" where
  "less_eq_scalarKey a b \<longleftrightarrow> skind a < skind b \<or> skind a = skind b \<and> svalue a \<le> svalue b"

definition less_scalarKey :: "scalarKey \<Rightarrow> scalarKey \<Rightarrow> bool" where
  "less_scalarKey a b \<longleftrightarrow> skind a < skind b \<or> skind a = skind b \<and> svalue a < svalue b"

instance
  by standard
    (auto simp: less_eq_scalarKey_def less_scalarKey_def scalarKey.expand dest: order.strict_trans)

end

record scalarValue =
  sv_key :: scalarKey
  sv_raw :: bytes

definition maxCorrelationValueBytes :: nat where
  "maxCorrelationValueBytes = 16 * 1024"

text \<open>
  \<open>strconv.Quote\<close> (and the verb \<open>%q\<close>): quotes, backslashes and control bytes are escaped, a byte
  that is not part of valid UTF-8 becomes a hexadecimal escape. A valid code point above the ASCII
  range is kept as it is: the table of printable characters is not modelled.
\<close>

definition quoteASCII :: "char \<Rightarrow> bytes" where
  "quoteASCII c =
     (if c = CHR 0x5C \<or> c = CHR 0x22 then [CHR 0x5C, c]
      else if 32 \<le> byte_val c \<and> byte_val c < 127 then [c]
      else if c = CHR 0x07 then [CHR 0x5C, CHR ''a'']
      else if c = CHR 0x08 then [CHR 0x5C, CHR ''b'']
      else if c = CHR 0x0C then [CHR 0x5C, CHR ''f'']
      else if c = CHR 0x0A then [CHR 0x5C, CHR ''n'']
      else if c = CHR 0x0D then [CHR 0x5C, CHR ''r'']
      else if c = CHR 0x09 then [CHR 0x5C, CHR ''t'']
      else if c = CHR 0x0B then [CHR 0x5C, CHR ''v'']
      else [CHR 0x5C, CHR ''x'', hexDigit (byte_val c div 16), hexDigit (byte_val c mod 16)])"

fun goQuoteBody :: "nat \<Rightarrow> bytes \<Rightarrow> bytes" where
  "goQuoteBody 0 s = []"
| "goQuoteBody (Suc n) s =
     (case s of
        [] \<Rightarrow> []
      | c # r \<Rightarrow>
          (if byte_val c < 128 then quoteASCII c @ goQuoteBody n r
           else
             (case decodeRune s of
                None \<Rightarrow> quoteASCII c @ goQuoteBody n r
              | Some (_, w) \<Rightarrow> take w s @ goQuoteBody n (drop w s))))"

definition goQuote :: "bytes \<Rightarrow> bytes" where
  "goQuote s = CHR 0x22 # goQuoteBody (length s) s @ [CHR 0x22]"

definition parseScalar :: "bytes \<Rightarrow> scalarValue result" where
  "parseScalar raw =
     (let trimmed = trimSpace raw
      in if trimmed = [] then Err ''empty scalar''
         else if length trimmed > maxCorrelationValueBytes then Err ''scalar exceeds correlation limit''
         else if hd trimmed = CHR 0x22 then
           (case unmarshalString trimmed of
              None \<Rightarrow> Err ''string scalar''
            | Some value \<Rightarrow> Ok \<lparr>sv_key = SKey scalarString value, sv_raw = trimmed\<rparr>)
         else
           (case canonicalJSONNumber trimmed of
              None \<Rightarrow> Err (''invalid JSON number '' @ goQuote trimmed)
            | Some canonical \<Rightarrow> Ok \<lparr>sv_key = SKey scalarNumber canonical, sv_raw = trimmed\<rparr>))"

definition parseString :: "bytes \<Rightarrow> bytes \<Rightarrow> bytes result" where
  "parseString raw field =
     (case unmarshalString (trimSpace raw) of
        None \<Rightarrow> Err (field @ '' must be a string'')
      | Some value \<Rightarrow> Ok value)"

section \<open>Objects\<close>

definition isJSONObject :: "bytes \<Rightarrow> bool" where
  "isJSONObject raw = (let trimmed = trimJSONWhitespace raw in trimmed \<noteq> [] \<and> hd trimmed = CHR ''{'')"

text \<open>
  The members of an object, read token by token: a repeated key is rejected before its value is
  read. Every member takes at least one byte, so the length of the input is enough fuel.
\<close>

fun decodeMembers :: "nat \<Rightarrow> (bytes, bytes) gomap \<Rightarrow> bytes \<Rightarrow> ((bytes, bytes) gomap \<times> bytes) result" where
  "decodeMembers 0 flds s = Err ''unexpected EOF''"
| "decodeMembers (Suc f) flds s =
     (case Option.bind (expect (CHR 0x22) s) scanStr of
        None \<Rightarrow> Err ''invalid character''
      | Some (literal, r1) \<Rightarrow>
          (let key = unquote literal
           in if mhas flds key then Err (''duplicate key '' @ goQuote key)
              else case Option.bind (expect (CHR '':'') r1) jsonRaw of
                  None \<Rightarrow> Err ''invalid character''
                | Some (value, r3) \<Rightarrow>
                    (case expect (CHR '','') r3 of
                       Some r4 \<Rightarrow> decodeMembers f (mput flds key value) r4
                     | None \<Rightarrow>
                         (case expect (CHR ''}'') r3 of
                            None \<Rightarrow> Err ''invalid character''
                          | Some q \<Rightarrow> Ok (mput flds key value, q)))))"

definition decodeObject :: "bytes \<Rightarrow> (bytes, bytes) gomap result" where
  "decodeObject raw =
     (case skipWS raw of
        [] \<Rightarrow> Err ''EOF''
      | c # r \<Rightarrow>
          (if c = CHR ''{'' then
             (case (case expect (CHR ''}'') r of
                      Some q \<Rightarrow> Ok ([], q)
                    | None \<Rightarrow> decodeMembers (length r) [] r) of
                Inl e \<Rightarrow> Err e
              | Inr (flds, q) \<Rightarrow> if skipWS q = [] then Ok flds else Err ''trailing JSON token'')
           else if c = CHR ''['' then Err ''expected object''
           else if jsonSkip raw = None then Err ''invalid character''
           else Err ''expected object''))"

section \<open>Parsed frames\<close>

datatype frameKind = frameRequest | frameNotification | frameResult | frameError

record progressMeta =
  pm_token :: scalarValue
  pm_progress :: bytes

record taskMeta =
  tm_id :: bytes
  tm_status :: bytes

record parsedFrame =
  fr_raw :: bytes
  fr_wire :: bytes
  fr_kind :: frameKind
  fr_id :: "scalarValue option"
  fr_method :: bytes
  fr_params :: bytes
  fr_result :: bytes
  fr_errorData :: bytes
  fr_reserved :: bool
  fr_progressToken :: "scalarValue option"
  fr_taskAugmented :: bool
  fr_cancellation :: "scalarValue option"
  fr_progress :: "progressMeta option"
  fr_taskResult :: "taskMeta option"
  fr_taskStatus :: "taskMeta option"
  fr_taskOperation :: bytes
  fr_taskID :: bytes
  fr_utilityErr :: "bytes option"

text \<open>\<open>ErrFrameTooLarge\<close>, errors that wrap \<open>ErrMalformedJSON\<close>, and every other parse error.\<close>

datatype frame_error = ErrFrameTooLarge | ErrMalformedJSON bytes | ErrInvalidFrame bytes

definition setUtilityErr :: "bytes \<Rightarrow> parsedFrame \<Rightarrow> parsedFrame" where
  "setUtilityErr err frame =
     (if fr_utilityErr frame = None then frame\<lparr>fr_utilityErr := Some err\<rparr> else frame)"

definition decodeRequiredParams :: "bytes \<Rightarrow> (bytes, bytes) gomap result" where
  "decodeRequiredParams raw =
     (if raw = [] then Err ''params are missing''
      else case decodeObject raw of Inl e \<Rightarrow> Err (''params: '' @ e) | Inr params \<Rightarrow> Ok params)"

definition validTaskStatus :: "bytes \<Rightarrow> bool" where
  "validTaskStatus status \<longleftrightarrow>
     status \<in> {''working'', ''input_required'', ''completed'', ''failed'', ''cancelled''}"

definition parseTaskMeta :: "bytes \<Rightarrow> taskMeta result" where
  "parseTaskMeta raw =
     (case decodeObject raw of
        Inl e \<Rightarrow> Err (''task: '' @ e)
      | Inr flds \<Rightarrow>
          (case (mget flds ''taskId'', mget flds ''status'') of
             (Some idRaw, Some statusRaw) \<Rightarrow>
               (case parseString idRaw ''taskId'' of
                  Inl _ \<Rightarrow> Err ''taskId must be a non-empty bounded string''
                | Inr i \<Rightarrow>
                    (if i = [] \<or> length i > maxCorrelationValueBytes
                     then Err ''taskId must be a non-empty bounded string''
                     else case parseString statusRaw ''task status'' of
                         Inl _ \<Rightarrow> Err ''invalid task status''
                       | Inr status \<Rightarrow>
                           (if validTaskStatus status then Ok \<lparr>tm_id = i, tm_status = status\<rparr>
                            else Err ''invalid task status'')))
           | _ \<Rightarrow> Err ''taskId or task status is missing''))"

definition validateErrorObject :: "bytes \<Rightarrow> unit result" where
  "validateErrorObject raw =
     (case decodeObject raw of
        Inl e \<Rightarrow> Err (''supervisor: error response: '' @ e)
      | Inr flds \<Rightarrow>
          (case (mget flds ''code'', mget flds ''message'') of
             (Some codeRaw, Some messageRaw) \<Rightarrow>
               (case parseScalar codeRaw of
                  Inl _ \<Rightarrow> Err ''supervisor: error code must be an integer''
                | Inr code \<Rightarrow>
                    (if skind (sv_key code) \<noteq> scalarNumber \<or> \<not> canonicalNumberIsInteger (svalue (sv_key code))
                     then Err ''supervisor: error code must be an integer''
                     else case parseString messageRaw ''error message'' of
                         Inl e \<Rightarrow> Err (''supervisor: '' @ e)
                       | Inr _ \<Rightarrow> Ok ()))
           | _ \<Rightarrow> Err ''supervisor: error response requires code and message''))"

text \<open>
  \<open>extractUtilities\<close> in its three parts: the metadata of a request, the metadata of the method
  (with the flag that an error returned early), and the task of a result.
\<close>

definition extractProgressToken :: "(bytes, bytes) gomap \<Rightarrow> parsedFrame \<Rightarrow> parsedFrame" where
  "extractProgressToken params frame =
     (case mget params ''_meta'' of
        None \<Rightarrow> frame
      | Some metaRaw \<Rightarrow>
          (case decodeObject metaRaw of
             Inl e \<Rightarrow> setUtilityErr (''_meta: '' @ e) frame
           | Inr meta \<Rightarrow>
               (case mget meta ''progressToken'' of
                  None \<Rightarrow> frame
                | Some tokenRaw \<Rightarrow>
                    (case parseScalar tokenRaw of
                       Inl e \<Rightarrow> setUtilityErr (''progressToken: '' @ e) frame
                     | Inr token \<Rightarrow> frame\<lparr>fr_progressToken := Some token\<rparr>))))"

definition extractTaskFlag :: "(bytes, bytes) gomap \<Rightarrow> parsedFrame \<Rightarrow> parsedFrame" where
  "extractTaskFlag params frame =
     (case mget params ''task'' of
        None \<Rightarrow> frame
      | Some taskRaw \<Rightarrow>
          (case decodeObject taskRaw of
             Inl e \<Rightarrow> setUtilityErr (''task: '' @ e) frame
           | Inr _ \<Rightarrow> frame\<lparr>fr_taskAugmented := True\<rparr>))"

definition extractRequestMeta :: "parsedFrame \<Rightarrow> parsedFrame" where
  "extractRequestMeta frame =
     (if fr_kind frame = frameRequest \<and> fr_params frame \<noteq> [] then
        (case decodeObject (fr_params frame) of
           Inl _ \<Rightarrow> frame
         | Inr params \<Rightarrow> extractTaskFlag params (extractProgressToken params frame))
      else frame)"

definition extractCancelled :: "parsedFrame \<Rightarrow> parsedFrame \<times> bool" where
  "extractCancelled frame =
     (if fr_kind frame \<noteq> frameNotification
      then (setUtilityErr ''cancellation must be a notification'' frame, True)
      else case decodeRequiredParams (fr_params frame) of
          Inl e \<Rightarrow> (setUtilityErr e frame, True)
        | Inr params \<Rightarrow>
            (case mget params ''requestId'' of
               None \<Rightarrow> (setUtilityErr ''cancellation requestId is missing'' frame, True)
             | Some raw \<Rightarrow>
                 (case parseScalar raw of
                    Inl e \<Rightarrow> (setUtilityErr (''cancellation requestId: '' @ e) frame, True)
                  | Inr i \<Rightarrow> (frame\<lparr>fr_cancellation := Some i\<rparr>, False))))"

definition extractProgress :: "parsedFrame \<Rightarrow> parsedFrame \<times> bool" where
  "extractProgress frame =
     (if fr_kind frame \<noteq> frameNotification
      then (setUtilityErr ''progress must be a notification'' frame, True)
      else case decodeRequiredParams (fr_params frame) of
          Inl e \<Rightarrow> (setUtilityErr e frame, True)
        | Inr params \<Rightarrow>
            (case (mget params ''progressToken'', mget params ''progress'') of
               (Some tokenRaw, Some progressRaw) \<Rightarrow>
                 (case parseScalar tokenRaw of
                    Inl e \<Rightarrow> (setUtilityErr (''progressToken: '' @ e) frame, True)
                  | Inr token \<Rightarrow>
                      (if length (trimSpace progressRaw) > maxCorrelationValueBytes
                       then (setUtilityErr ''progress value exceeds correlation limit'' frame, True)
                       else case canonicalJSONNumber (trimSpace progressRaw) of
                           None \<Rightarrow>
                             (setUtilityErr (''progress value: invalid JSON number '' @ goQuote (trimSpace progressRaw)) frame, True)
                         | Some progress \<Rightarrow>
                             (frame\<lparr>fr_progress := Some \<lparr>pm_token = token, pm_progress = progress\<rparr>\<rparr>, False)))
             | _ \<Rightarrow> (setUtilityErr ''progress token or value is missing'' frame, True)))"

definition extractTaskStatus :: "parsedFrame \<Rightarrow> parsedFrame \<times> bool" where
  "extractTaskStatus frame =
     (if fr_kind frame \<noteq> frameNotification
      then (setUtilityErr ''task status must be a notification'' frame, True)
      else case parseTaskMeta (fr_params frame) of
          Inl e \<Rightarrow> (setUtilityErr e frame, True)
        | Inr meta \<Rightarrow> (frame\<lparr>fr_taskStatus := Some meta\<rparr>, False))"

definition extractTaskOperation :: "parsedFrame \<Rightarrow> parsedFrame \<times> bool" where
  "extractTaskOperation frame =
     (if fr_kind frame \<noteq> frameRequest
      then (setUtilityErr ''task operation must be a request'' frame, True)
      else case decodeRequiredParams (fr_params frame) of
          Inl e \<Rightarrow> (setUtilityErr e frame, True)
        | Inr params \<Rightarrow>
            (case mget params ''taskId'' of
               None \<Rightarrow> (setUtilityErr ''taskId is missing'' frame, True)
             | Some taskRaw \<Rightarrow>
                 (case parseString taskRaw ''taskId'' of
                    Inl _ \<Rightarrow> (setUtilityErr ''taskId must be a non-empty bounded string'' frame, True)
                  | Inr taskID \<Rightarrow>
                      (if taskID = [] \<or> length taskID > maxCorrelationValueBytes
                       then (setUtilityErr ''taskId must be a non-empty bounded string'' frame, True)
                       else (frame\<lparr>fr_taskOperation := fr_method frame, fr_taskID := taskID\<rparr>, False)))))"

definition extractMethodMeta :: "parsedFrame \<Rightarrow> parsedFrame \<times> bool" where
  "extractMethodMeta frame =
     (if fr_method frame = ''notifications/cancelled'' then extractCancelled frame
      else if fr_method frame = ''notifications/progress'' then extractProgress frame
      else if fr_method frame = ''notifications/tasks/status'' then extractTaskStatus frame
      else if fr_method frame \<in> {''tasks/get'', ''tasks/result'', ''tasks/cancel''}
      then extractTaskOperation frame
      else (frame, False))"

definition extractTaskResult :: "parsedFrame \<Rightarrow> parsedFrame" where
  "extractTaskResult frame =
     (if fr_kind frame = frameResult \<and> fr_result frame \<noteq> [] then
        (case decodeObject (fr_result frame) of
           Inl _ \<Rightarrow> frame
         | Inr result \<Rightarrow>
             (case mget result ''task'' of
                None \<Rightarrow> frame
              | Some taskRaw \<Rightarrow>
                  (case parseTaskMeta taskRaw of
                     Inl e \<Rightarrow> setUtilityErr e frame
                   | Inr meta \<Rightarrow> frame\<lparr>fr_taskResult := Some meta\<rparr>)))
      else frame)"

definition extractUtilities :: "parsedFrame \<Rightarrow> parsedFrame" where
  "extractUtilities frame =
     (case extractMethodMeta (extractRequestMeta frame) of
        (f, returned) \<Rightarrow> if returned then f else extractTaskResult f)"

definition reservedMethodPrefix :: bytes where
  "reservedMethodPrefix = ''$/mcp-mux/launcher/''"

definition emptyFrame :: "bytes \<Rightarrow> parsedFrame" where
  "emptyFrame wire =
     \<lparr>fr_raw = trimJSONWhitespace wire, fr_wire = wire, fr_kind = frameRequest, fr_id = None,
      fr_method = [], fr_params = [], fr_result = [], fr_errorData = [], fr_reserved = False,
      fr_progressToken = None, fr_taskAugmented = False, fr_cancellation = None, fr_progress = None,
      fr_taskResult = None, fr_taskStatus = None, fr_taskOperation = [], fr_taskID = [],
      fr_utilityErr = None\<rparr>"

text \<open>The classification of a frame whose members are decoded, after the checks on their shapes.\<close>

definition classifyFrame :: "(bytes, bytes) gomap \<Rightarrow> parsedFrame \<Rightarrow> frame_error + parsedFrame" where
  "classifyFrame flds frame =
     (case mget flds ''method'' of
        Some methodRaw \<Rightarrow>
          (if mhas flds ''result'' \<or> mhas flds ''error''
           then Inl (ErrInvalidFrame ''supervisor: method frame contains result or error'')
           else case parseString methodRaw ''method'' of
               Inl e \<Rightarrow> Inl (ErrInvalidFrame (''supervisor: '' @ e))
             | Inr method \<Rightarrow>
                 Inr (frame\<lparr>fr_method := method, fr_reserved := hasPrefix method reservedMethodPrefix,
                   fr_kind := (if mhas flds ''id'' then frameRequest else frameNotification),
                   fr_params := (case mget flds ''params'' of None \<Rightarrow> [] | Some p \<Rightarrow> p)\<rparr>))
      | None \<Rightarrow>
          (if mhas flds ''result'' \<or> mhas flds ''error'' then
             (if \<not> mhas flds ''id'' then Inl (ErrInvalidFrame ''supervisor: response is missing id'')
              else if mhas flds ''params'' then Inl (ErrInvalidFrame ''supervisor: response contains params'')
              else case mget flds ''result'' of
                  Some resultRaw \<Rightarrow> Inr (frame\<lparr>fr_kind := frameResult, fr_result := resultRaw\<rparr>)
                | None \<Rightarrow>
                    (let errorRaw = (case mget flds ''error'' of None \<Rightarrow> [] | Some e \<Rightarrow> e)
                     in case validateErrorObject errorRaw of
                          Inl e \<Rightarrow> Inl (ErrInvalidFrame e)
                        | Inr _ \<Rightarrow> Inr (frame\<lparr>fr_kind := frameError, fr_errorData := errorRaw\<rparr>)))
           else Inl (ErrInvalidFrame ''supervisor: frame has neither method nor result/error'')))"

definition hasShape :: "(bytes, bytes) gomap \<Rightarrow> bytes \<Rightarrow> bool" where
  "hasShape flds k = (case mget flds k of None \<Rightarrow> True | Some raw \<Rightarrow> isJSONObject raw)"

definition parseFields :: "bytes \<Rightarrow> (bytes, bytes) gomap \<Rightarrow> frame_error + parsedFrame" where
  "parseFields raw flds =
     (case mget flds ''jsonrpc'' of
        None \<Rightarrow> Inl (ErrInvalidFrame ''supervisor: missing jsonrpc'')
      | Some version \<Rightarrow>
          (if parseString version ''jsonrpc'' \<noteq> Ok ''2.0''
           then Inl (ErrInvalidFrame (''supervisor: jsonrpc must be '' @ goQuote ''2.0''))
           else if \<not> hasShape flds ''params''
           then Inl (ErrInvalidFrame ''supervisor: params must be an object'')
           else if \<not> hasShape flds ''result''
           then Inl (ErrInvalidFrame ''supervisor: result must be an object'')
           else if mhas flds ''result'' \<and> mhas flds ''error''
           then Inl (ErrInvalidFrame ''supervisor: response contains both result and error'')
           else
             (case (case mget flds ''id'' of
                      None \<Rightarrow> Ok None
                    | Some idRaw \<Rightarrow> (case parseScalar idRaw of Inl e \<Rightarrow> Err e | Inr i \<Rightarrow> Ok (Some i))) of
                Inl e \<Rightarrow> Inl (ErrInvalidFrame (''supervisor: invalid id: '' @ e))
              | Inr i \<Rightarrow>
                  (case classifyFrame flds ((emptyFrame raw)\<lparr>fr_id := i\<rparr>) of
                     Inl e \<Rightarrow> Inl e
                   | Inr frame \<Rightarrow> Inr (extractUtilities frame)))))"

definition parseFrame :: "bytes \<Rightarrow> int \<Rightarrow> frame_error + parsedFrame" where
  "parseFrame raw maxBytes =
     (if maxBytes > 0 \<and> int (length raw) > maxBytes then Inl ErrFrameTooLarge
      else
        let trimmed = trimJSONWhitespace raw
        in if trimmed = [] then Inl (ErrMalformedJSON ''empty frame'')
           else if \<not> validUTF8 trimmed then Inl (ErrMalformedJSON ''invalid UTF-8'')
           else if CHR 0x0D \<in> set trimmed \<or> CHR 0x0A \<in> set trimmed
           then Inl (ErrInvalidFrame ''supervisor: frame contains a line break'')
           else if \<not> jsonValid trimmed then Inl (ErrMalformedJSON ''invalid JSON text'')
           else case decodeObject trimmed of
               Inl e \<Rightarrow> Inl (ErrInvalidFrame (''supervisor: JSON-RPC object: '' @ e))
             | Inr flds \<Rightarrow> parseFields raw flds)"


definition isResponse :: "parsedFrame \<Rightarrow> bool" where
  "isResponse frame \<longleftrightarrow> fr_kind frame = frameResult \<or> fr_kind frame = frameError"

definition isInitializationPing :: "parsedFrame \<Rightarrow> bool" where
  "isInitializationPing frame \<longleftrightarrow> fr_kind frame = frameRequest \<and> fr_method frame = ''ping''"

definition isInitializationLogging :: "parsedFrame \<Rightarrow> bool" where
  "isInitializationLogging frame \<longleftrightarrow>
     fr_kind frame = frameNotification \<and> fr_method frame = ''notifications/message''"

section \<open>Private launcher controls\<close>

datatype Control = ControlNone | ControlDormantReady | ControlCommitDormant | ControlDormantAck | ControlDormantNack

record Protocol =
  pr_version :: nat

definition ProtocolV2 :: Protocol where
  "ProtocolV2 = \<lparr>pr_version = 2\<rparr>"

definition Enabled :: "Protocol \<Rightarrow> bool" where
  "Enabled protocol \<longleftrightarrow> pr_version protocol = 2"

definition Reserved :: "bytes \<Rightarrow> bool" where
  "Reserved method = hasPrefix method reservedMethodPrefix"

definition dormantReadyMethod :: bytes where
  "dormantReadyMethod = reservedMethodPrefix @ ''dormant-ready''"

definition commitDormantMethod :: bytes where
  "commitDormantMethod = reservedMethodPrefix @ ''commit-dormant''"

definition dormantAckMethod :: bytes where
  "dormantAckMethod = reservedMethodPrefix @ ''dormant-ack''"

definition dormantNackMethod :: bytes where
  "dormantNackMethod = reservedMethodPrefix @ ''dormant-nack''"

definition controlOfParsedFrame :: "parsedFrame \<Rightarrow> Control result" where
  "controlOfParsedFrame frame =
     (if \<not> fr_reserved frame \<or> fr_kind frame \<noteq> frameNotification \<or> fr_params frame \<noteq> []
      then Err ''supervisor: private control must be a parameterless notification''
      else if fr_method frame = dormantReadyMethod then Ok ControlDormantReady
      else if fr_method frame = commitDormantMethod then Ok ControlCommitDormant
      else if fr_method frame = dormantAckMethod then Ok ControlDormantAck
      else if fr_method frame = dormantNackMethod then Ok ControlDormantNack
      else Err (''supervisor: unknown private control method '' @ goQuote (fr_method frame)))"

definition controlMethod :: "Control \<Rightarrow> bytes option" where
  "controlMethod control =
     (case control of
        ControlNone \<Rightarrow> None
      | ControlDormantReady \<Rightarrow> Some dormantReadyMethod
      | ControlCommitDormant \<Rightarrow> Some commitDormantMethod
      | ControlDormantAck \<Rightarrow> Some dormantAckMethod
      | ControlDormantNack \<Rightarrow> Some dormantNackMethod)"

text \<open>A quote character around each word, since the source writes these frames as raw literals.\<close>

definition dq :: "bytes \<Rightarrow> bytes" where
  "dq s = CHR 0x22 # s @ [CHR 0x22]"

definition notificationFrame :: "bytes \<Rightarrow> bytes" where
  "notificationFrame method =
     ''{'' @ dq ''jsonrpc'' @ '':'' @ dq ''2.0'' @ '','' @ dq ''method'' @ '':'' @ dq method @ ''}''"

definition ProtocolFrame :: "Protocol \<Rightarrow> Control \<Rightarrow> bytes option" where
  "ProtocolFrame protocol control =
     (if \<not> Enabled protocol then None else map_option notificationFrame (controlMethod control))"

text \<open>
  \<open>ControlOf\<close> for a message with the given method and raw bytes: \<open>None\<close> when the method is not
  reserved, otherwise the control or the error.
\<close>

definition ControlOf :: "Protocol \<Rightarrow> bytes \<Rightarrow> bytes \<Rightarrow> Control result option" where
  "ControlOf protocol method raw =
     (if \<not> Reserved method then None
      else if \<not> Enabled protocol then Some (Err ''supervisor: lifecycle protocol disabled'')
      else case parseFrame raw 0 of
          Inl _ \<Rightarrow> Some (Err ''supervisor: malformed private control'')
        | Inr frame \<Rightarrow>
            (if fr_method frame \<noteq> method then Some (Err ''supervisor: private control method mismatch'')
             else Some (controlOfParsedFrame frame)))"

definition DormantExitCode :: "Protocol \<Rightarrow> int" where
  "DormantExitCode protocol = (if Enabled protocol then 75 else -1)"

section \<open>Reading a bounded line\<close>

text \<open>
  A \<open>bufio.Reader\<close> is its buffer size, the bytes that are still to come and how the stream ends.
  \<open>ReadSlice\<close> returns up to and including the newline, a full buffer without one, or the tail with
  the error of the stream.
\<close>

datatype stream_end = EOF | ErrRead bytes

datatype read_error = ErrBufferFull | StreamEnd stream_end

datatype line_error = LineTooLarge | LineEOF | LineErr bytes | LimitNotPositive

fun untilNewline :: "bytes \<Rightarrow> (bytes \<times> bytes) option" where
  "untilNewline [] = None"
| "untilNewline (c # s) =
     (if c = CHR 0x0A then Some ([c], s) else map_option (\<lambda>(a, b). (c # a, b)) (untilNewline s))"

definition ReadSlice :: "nat \<Rightarrow> stream_end \<Rightarrow> bytes \<Rightarrow> bytes \<times> read_error option \<times> bytes" where
  "ReadSlice bufSize ending input =
     (case untilNewline (take bufSize input) of
        Some (frag, _) \<Rightarrow> (frag, None, drop (length frag) input)
      | None \<Rightarrow>
          (if bufSize \<le> length input then (take bufSize input, Some ErrBufferFull, drop bufSize input)
           else (input, Some (StreamEnd ending), [])))"

definition stripEOL :: "bytes \<Rightarrow> bytes" where
  "stripEOL line =
     (let l = butlast line in if l \<noteq> [] \<and> last l = CHR 0x0D then butlast l else l)"

lemma untilNewline_Some:
  "untilNewline s = Some (a, b) \<Longrightarrow> s = a @ b \<and> a \<noteq> [] \<and> last a = CHR 0x0A \<and> CHR 0x0A \<notin> set (butlast a)"
  by (induction s arbitrary: a) (auto split: if_splits)

lemma untilNewline_None: "untilNewline s = None \<longleftrightarrow> CHR 0x0A \<notin> set s"
  by (induction s) auto

text \<open>
  The loop of \<open>readBoundedLine\<close>. The buffer of a \<open>bufio.Reader\<close> has at least sixteen bytes, so every
  round that goes on has consumed input.
\<close>

function readLoop :: "nat \<Rightarrow> stream_end \<Rightarrow> nat \<Rightarrow> bytes \<Rightarrow> bytes \<Rightarrow> line_error + bytes \<times> bytes" where
  "readLoop bufSize ending maxBytes line input =
     (case ReadSlice (max 16 bufSize) ending input of
        (frag, err, rest) \<Rightarrow>
          (if length line + length frag > maxBytes + 2 then Inl LineTooLarge
           else
             let line' = line @ frag
             in case err of
                  None \<Rightarrow>
                    (let l = stripEOL line'
                     in if l = [] then readLoop bufSize ending maxBytes [] rest
                        else if length l > maxBytes then Inl LineTooLarge
                        else Inr (l, rest))
                | Some ErrBufferFull \<Rightarrow> readLoop bufSize ending maxBytes line' rest
                | Some (StreamEnd EOF) \<Rightarrow>
                    (if line' = [] then Inl LineEOF
                     else if length line' > maxBytes then Inl LineTooLarge
                     else Inr (line', rest))
                | Some (StreamEnd (ErrRead e)) \<Rightarrow> Inl (LineErr e)))"
  by pat_completeness auto

lemma ReadSlice_progress:
  assumes "ReadSlice (max 16 bufSize) ending input = (frag, err, rest)"
    and "err = None \<or> err = Some ErrBufferFull"
  shows "length rest < length input"
proof (cases "untilNewline (take (max 16 bufSize) input)")
  case None
  then show ?thesis
    using assms by (auto simp: ReadSlice_def split: if_splits)
next
  case (Some p)
  obtain a b where p: "p = (a, b)" by (cases p)
  have "a \<noteq> []" and "take (max 16 bufSize) input = a @ b"
    using untilNewline_Some Some p by blast+
  then have "input \<noteq> []" by auto
  then show ?thesis
    using assms Some p \<open>a \<noteq> []\<close> by (auto simp: ReadSlice_def)
qed

termination readLoop
  by (relation "measure (\<lambda>(_, _, _, _, input). length input)") (auto dest!: sym [THEN ReadSlice_progress])

definition readBoundedLine :: "nat \<Rightarrow> stream_end \<Rightarrow> int \<Rightarrow> bytes \<Rightarrow> line_error + bytes \<times> bytes" where
  "readBoundedLine bufSize ending maxBytes input =
     (if maxBytes < 1 then Inl LimitNotPositive
      else readLoop bufSize ending (nat maxBytes) [] input)"


text \<open>
  The reference: the next line of the input that is not blank, without its line end, whatever the
  size of the buffer.
\<close>

function nextLine :: "stream_end \<Rightarrow> nat \<Rightarrow> bytes \<Rightarrow> line_error + bytes \<times> bytes" where
  "nextLine ending maxBytes input =
     (case untilNewline input of
        Some (a, rest) \<Rightarrow>
          (if length a > maxBytes + 2 then Inl LineTooLarge
           else if stripEOL a = [] then nextLine ending maxBytes rest
           else if length (stripEOL a) > maxBytes then Inl LineTooLarge
           else Inr (stripEOL a, rest))
      | None \<Rightarrow>
          (if length input > maxBytes + 2 then Inl LineTooLarge
           else case ending of
               EOF \<Rightarrow>
                 (if input = [] then Inl LineEOF
                  else if length input > maxBytes then Inl LineTooLarge
                  else Inr (input, []))
             | ErrRead e \<Rightarrow> Inl (LineErr e)))"
  by pat_completeness auto

termination nextLine
proof (relation "measure (\<lambda>(_, _, input). length input)")
  fix ending maxBytes input p a rest
  assume "untilNewline input = Some p" "(a, rest) = p"
  then have "input = a @ rest \<and> a \<noteq> []"
    using untilNewline_Some by blast
  then show "((ending, maxBytes, rest), ending, maxBytes, input) \<in> measure (\<lambda>(_, _, input). length input)"
    by auto
qed simp

declare nextLine.simps [simp del] readLoop.simps [simp del]

lemma untilNewline_append:
  "CHR 0x0A \<notin> set x \<Longrightarrow> untilNewline (x @ y) = map_option (\<lambda>(a, b). (x @ a, b)) (untilNewline y)"
  by (cases "untilNewline y"; induction x) auto

lemma untilNewline_extend:
  "untilNewline s = Some (a, b) \<Longrightarrow> untilNewline (s @ t) = Some (a, b @ t)"
  by (induction s arbitrary: a) (auto split: if_splits)

lemma nextLine_long:
  assumes "CHR 0x0A \<notin> set x" and "maxBytes + 2 < length x"
  shows "nextLine ending maxBytes (x @ y) = Inl LineTooLarge"
  using assms by (subst nextLine.simps)
    (auto simp: untilNewline_append split: option.split)

lemma readLoop_nextLine:
  "CHR 0x0A \<notin> set line \<Longrightarrow> length line \<le> maxBytes + 2 \<Longrightarrow>
     readLoop bufSize ending maxBytes line input = nextLine ending maxBytes (line @ input)"
proof (induction bufSize ending maxBytes line input rule: readLoop.induct)
  case (1 bufSize ending maxBytes line input)
  let ?n = "max 16 bufSize"
  show ?case
  proof (cases "untilNewline (take ?n input)")
    case (Some p)
    obtain a b where p: "p = (a, b)" by (cases p)
    have a: "take ?n input = a @ b" "a \<noteq> []" "last a = CHR 0x0A" "CHR 0x0A \<notin> set (butlast a)"
      using untilNewline_Some Some p by blast+
    have inp: "input = a @ b @ drop ?n input"
      using append_take_drop_id [of ?n input] a(1) by simp
    have "untilNewline input = Some (a, b @ drop ?n input)"
      using untilNewline_extend [of "take ?n input" a b "drop ?n input"] Some p by simp
    moreover have "drop (length a) input = b @ drop ?n input"
      using arg_cong [OF inp, of "drop (length a)"] by simp
    ultimately have u: "untilNewline input = Some (a, drop (length a) input)"
      by simp
    have rs: "ReadSlice ?n ending input = (a, None, drop (length a) input)"
      using Some p by (simp add: ReadSlice_def)
    show ?thesis
      using 1(1) [OF rs [symmetric] refl _ refl refl refl]
      by (subst readLoop.simps, subst nextLine.simps) (auto simp: rs Let_def untilNewline_append "1.prems" u)
  next
    case None
    then have nl: "CHR 0x0A \<notin> set (take ?n input)"
      by (simp add: untilNewline_None)
    show ?thesis
    proof (cases "?n \<le> length input")
      case True
      have rs: "ReadSlice ?n ending input = (take ?n input, Some ErrBufferFull, drop ?n input)"
        using None True by (simp add: ReadSlice_def)
      show ?thesis
        using 1(2) [OF rs [symmetric] refl _ refl refl refl] nl "1.prems" True
          nextLine_long [of "line @ take ?n input" maxBytes ending "drop ?n input"]
        by (subst readLoop.simps) (auto simp: rs Let_def min_def)
    next
      case False
      have rs: "ReadSlice ?n ending input = (input, Some (StreamEnd ending), [])"
        unfolding ReadSlice_def None using False by simp
      have "untilNewline input = None"
        using nl False by (simp add: untilNewline_None)
      then show ?thesis
        using "1.prems" by (subst readLoop.simps, subst nextLine.simps)
          (auto simp: rs Let_def untilNewline_append split: stream_end.split)
    qed
  qed
qed


lemma nextLine_Inr:
  "nextLine ending maxBytes input = Inr (l, rest) \<Longrightarrow>
     l \<noteq> [] \<and> length l \<le> maxBytes \<and> CHR 0x0A \<notin> set l"
proof (induction ending maxBytes input rule: nextLine.induct)
  case (1 ending maxBytes input)
  show ?case
  proof (cases "untilNewline input")
    case None
    then have "CHR 0x0A \<notin> set input"
      by (simp add: untilNewline_None)
    then show ?thesis
      using "1.prems" None by (subst (asm) nextLine.simps) (auto split: if_splits stream_end.splits)
  next
    case (Some p)
    obtain a b where p: "p = (a, b)" by (cases p)
    have "CHR 0x0A \<notin> set (butlast a)"
      using untilNewline_Some Some p by blast
    then have "CHR 0x0A \<notin> set (stripEOL a)"
      by (auto simp: stripEOL_def Let_def dest: in_set_butlastD)
    then show ?thesis
      using "1.prems" 1(1) [OF Some p [symmetric]] Some p
      by (subst (asm) nextLine.simps) (auto split: if_splits)
  qed
qed

text \<open>C27: reading a line never depends on the size of the read buffer: it returns the next line that
  is not blank, without its line end, and a line it returns is not empty, is within the limit and
  holds no newline.\<close>

theorem read_bounded_line_correct:
  assumes "0 < maxBytes"
  shows "readBoundedLine bufSize ending maxBytes input = nextLine ending (nat maxBytes) input \<and>
    (\<forall>l rest. readBoundedLine bufSize ending maxBytes input = Inr (l, rest) \<longrightarrow>
       l \<noteq> [] \<and> int (length l) \<le> maxBytes \<and> CHR 0x0A \<notin> set l)"
proof -
  have eq: "readBoundedLine bufSize ending maxBytes input = nextLine ending (nat maxBytes) input"
    using assms readLoop_nextLine [of "[]" "nat maxBytes" bufSize ending input]
    by (simp add: readBoundedLine_def)
  have "length l \<le> nat maxBytes \<Longrightarrow> int (length l) \<le> maxBytes" for l :: bytes
    using assms by simp
  then show ?thesis
    unfolding eq using nextLine_Inr [of ending "nat maxBytes" input] by blast
qed

definition demo_input :: bytes where
  "demo_input = [CHR 0x0D, CHR 0x0A] @ ''ab'' @ [CHR 0x0D, CHR 0x0A] @ ''c''"

theorem read_bounded_line_correct_witness:
  "readBoundedLine 4096 EOF 10 demo_input = Inr (''ab'', ''c'')"
proof -
  have "nextLine EOF 10 demo_input = Inr (''ab'', ''c'')"
    by code_simp
  then show ?thesis
    using read_bounded_line_correct [of 10 4096 EOF demo_input] by simp
qed


section \<open>What the router may rely on\<close>

text \<open>
  The shape of a frame that \<open>parseFrame\<close> accepts: requests and responses carry an id and
  notifications do not, each kind of metadata comes only with its method and kind, and the bytes
  that are forwarded form one line.
\<close>

definition task_meta_ok :: "taskMeta \<Rightarrow> bool" where
  "task_meta_ok m \<longleftrightarrow>
     tm_id m \<noteq> [] \<and> length (tm_id m) \<le> maxCorrelationValueBytes \<and> validTaskStatus (tm_status m)"

definition task_methods :: "bytes set" where
  "task_methods = {''tasks/get'', ''tasks/result'', ''tasks/cancel''}"

definition base_wf :: "parsedFrame \<Rightarrow> bool" where
  "base_wf f \<longleftrightarrow>
     (fr_id f = None \<longleftrightarrow> fr_kind f = frameNotification) \<and>
     (isResponse f \<longrightarrow> fr_method f = [] \<and> fr_params f = []) \<and>
     fr_reserved f = hasPrefix (fr_method f) reservedMethodPrefix \<and>
     fr_raw f = trimJSONWhitespace (fr_wire f)"

definition meta_wf :: "parsedFrame \<Rightarrow> bool" where
  "meta_wf f \<longleftrightarrow>
     (fr_progressToken f \<noteq> None \<or> fr_taskAugmented f \<longrightarrow> fr_kind f = frameRequest) \<and>
     (fr_cancellation f \<noteq> None \<longrightarrow> fr_kind f = frameNotification \<and> fr_method f = ''notifications/cancelled'') \<and>
     (fr_progress f \<noteq> None \<longrightarrow> fr_kind f = frameNotification \<and> fr_method f = ''notifications/progress'') \<and>
     (\<forall>m. fr_taskStatus f = Some m \<longrightarrow>
        fr_kind f = frameNotification \<and> fr_method f = ''notifications/tasks/status'' \<and> task_meta_ok m) \<and>
     (\<forall>m. fr_taskResult f = Some m \<longrightarrow> fr_kind f = frameResult \<and> task_meta_ok m) \<and>
     (fr_taskOperation f = [] \<longleftrightarrow> fr_taskID f = []) \<and>
     (fr_taskOperation f \<noteq> [] \<longrightarrow>
        fr_kind f = frameRequest \<and> fr_taskOperation f = fr_method f \<and> fr_method f \<in> task_methods \<and>
        length (fr_taskID f) \<le> maxCorrelationValueBytes)"

definition frame_wf :: "parsedFrame \<Rightarrow> bool" where
  "frame_wf f \<longleftrightarrow> base_wf f \<and> meta_wf f"

definition blank_meta :: "parsedFrame \<Rightarrow> bool" where
  "blank_meta f \<longleftrightarrow>
     fr_progressToken f = None \<and> \<not> fr_taskAugmented f \<and> fr_cancellation f = None \<and> fr_progress f = None \<and>
     fr_taskStatus f = None \<and> fr_taskResult f = None \<and> fr_taskOperation f = [] \<and> fr_taskID f = []"

lemma setUtilityErr_form: "\<exists>e'. setUtilityErr e f = f\<lparr>fr_utilityErr := e'\<rparr>"
  by (cases "fr_utilityErr f") (auto simp: setUtilityErr_def intro: exI [of _ "fr_utilityErr f"])

lemma utilityErr_wf [simp]: "frame_wf (f\<lparr>fr_utilityErr := e\<rparr>) = frame_wf f"
  by (simp add: frame_wf_def base_wf_def meta_wf_def isResponse_def)

lemma setUtilityErr_wf [simp]: "frame_wf (setUtilityErr e f) = frame_wf f"
  using setUtilityErr_form [of e f] by auto

lemma setUtilityErr_simps [simp]:
  "fr_kind (setUtilityErr e f) = fr_kind f" "fr_wire (setUtilityErr e f) = fr_wire f"
  by (simp_all add: setUtilityErr_def)

text \<open>The parts of the shape that each part of \<open>extractUtilities\<close> relies on and establishes.\<close>

lemma parseTaskMeta_ok: "parseTaskMeta raw = Ok m \<Longrightarrow> task_meta_ok m"
  by (auto simp: parseTaskMeta_def task_meta_ok_def split: sum.splits option.splits if_splits)

lemma extractProgressToken_form:
  "\<exists>t e. extractProgressToken ps f = f\<lparr>fr_progressToken := t, fr_utilityErr := e\<rparr>"
proof -
  have same: "\<exists>t e. f = f\<lparr>fr_progressToken := t, fr_utilityErr := e\<rparr>"
    by (rule exI [of _ "fr_progressToken f"], rule exI [of _ "fr_utilityErr f"]) simp
  have err: "\<exists>t e. setUtilityErr x f = f\<lparr>fr_progressToken := t, fr_utilityErr := e\<rparr>" for x
    using setUtilityErr_form [of x f] by (metis parsedFrame.surjective parsedFrame.update_convs(10))
  have tok: "\<exists>t' e. f\<lparr>fr_progressToken := t\<rparr> = f\<lparr>fr_progressToken := t', fr_utilityErr := e\<rparr>" for t
    by (rule exI [of _ t], rule exI [of _ "fr_utilityErr f"]) simp
  show ?thesis
    unfolding extractProgressToken_def using same err tok by (auto split: option.split sum.split)
qed

lemma extractTaskFlag_form:
  "\<exists>a e. extractTaskFlag ps f = f\<lparr>fr_taskAugmented := a, fr_utilityErr := e\<rparr>"
proof -
  have same: "\<exists>a e. f = f\<lparr>fr_taskAugmented := a, fr_utilityErr := e\<rparr>"
    by (rule exI [of _ "fr_taskAugmented f"], rule exI [of _ "fr_utilityErr f"]) simp
  have err: "\<exists>a e. setUtilityErr x f = f\<lparr>fr_taskAugmented := a, fr_utilityErr := e\<rparr>" for x
    using setUtilityErr_form [of x f] by (metis parsedFrame.surjective parsedFrame.update_convs(11))
  have flag: "\<exists>a' e. f\<lparr>fr_taskAugmented := a\<rparr> = f\<lparr>fr_taskAugmented := a', fr_utilityErr := e\<rparr>" for a
    by (rule exI [of _ a], rule exI [of _ "fr_utilityErr f"]) simp
  show ?thesis
    unfolding extractTaskFlag_def using same err flag by (auto split: option.split sum.split)
qed

lemma extractRequestMeta_form:
  "extractRequestMeta f = f \<or>
   fr_kind f = frameRequest \<and>
     (\<exists>t a e. extractRequestMeta f = f\<lparr>fr_progressToken := t, fr_taskAugmented := a, fr_utilityErr := e\<rparr>)"
proof -
  have "\<exists>t a e. extractTaskFlag ps (extractProgressToken ps f) =
    f\<lparr>fr_progressToken := t, fr_taskAugmented := a, fr_utilityErr := e\<rparr>" for ps
    using extractProgressToken_form [of ps f] extractTaskFlag_form [of ps "extractProgressToken ps f"]
    by (elim exE) (rule exI, rule exI, rule exI, simp)
  then show ?thesis
    unfolding extractRequestMeta_def by (auto split: sum.split)
qed

text \<open>Each method's metadata is set on a frame of that method and kind only.\<close>

lemma extractCancelled_form:
  "extractCancelled f = (g, r) \<Longrightarrow>
     (\<exists>e. g = setUtilityErr e f) \<or> (\<exists>i. g = f\<lparr>fr_cancellation := Some i\<rparr> \<and> fr_kind f = frameNotification)"
  by (auto simp: extractCancelled_def split: sum.splits option.splits if_splits)

lemma extractProgress_form:
  "extractProgress f = (g, r) \<Longrightarrow>
     (\<exists>e. g = setUtilityErr e f) \<or> (\<exists>p. g = f\<lparr>fr_progress := Some p\<rparr> \<and> fr_kind f = frameNotification)"
  by (auto simp: extractProgress_def split: sum.splits option.splits if_splits)

lemma extractTaskStatus_form:
  "extractTaskStatus f = (g, r) \<Longrightarrow>
     (\<exists>e. g = setUtilityErr e f) \<or>
     (\<exists>m. g = f\<lparr>fr_taskStatus := Some m\<rparr> \<and> fr_kind f = frameNotification \<and> task_meta_ok m)"
  by (auto simp: extractTaskStatus_def dest: parseTaskMeta_ok split: sum.splits if_splits)

lemma extractTaskOperation_form:
  "extractTaskOperation f = (g, r) \<Longrightarrow>
     (\<exists>e. g = setUtilityErr e f) \<or>
     (\<exists>t. g = f\<lparr>fr_taskOperation := fr_method f, fr_taskID := t\<rparr> \<and> fr_kind f = frameRequest \<and>
        t \<noteq> [] \<and> length t \<le> maxCorrelationValueBytes)"
  by (auto simp: extractTaskOperation_def split: sum.splits option.splits if_splits)

lemma extractTaskResult_form:
  "extractTaskResult f = f \<or> (\<exists>e. extractTaskResult f = setUtilityErr e f) \<or>
   (\<exists>m. extractTaskResult f = f\<lparr>fr_taskResult := Some m\<rparr> \<and> fr_kind f = frameResult \<and> task_meta_ok m)"
  by (auto simp: extractTaskResult_def dest: parseTaskMeta_ok split: sum.splits option.splits)

lemmas shape_defs = frame_wf_def base_wf_def meta_wf_def isResponse_def task_methods_def

lemma set_Cancelled_wf:
  "frame_wf f \<Longrightarrow> fr_kind f = frameNotification \<Longrightarrow> fr_method f = ''notifications/cancelled'' \<Longrightarrow>
     frame_wf (f\<lparr>fr_cancellation := Some i\<rparr>)"
  by (auto simp: shape_defs)

lemma set_Progress_wf:
  "frame_wf f \<Longrightarrow> fr_kind f = frameNotification \<Longrightarrow> fr_method f = ''notifications/progress'' \<Longrightarrow>
     frame_wf (f\<lparr>fr_progress := Some i\<rparr>)"
  by (auto simp: shape_defs)

lemma set_TaskStatus_wf:
  "frame_wf f \<Longrightarrow> fr_kind f = frameNotification \<Longrightarrow> fr_method f = ''notifications/tasks/status'' \<Longrightarrow>
     task_meta_ok m \<Longrightarrow> frame_wf (f\<lparr>fr_taskStatus := Some m\<rparr>)"
  by (auto simp: shape_defs)

lemma set_TaskOperation_wf:
  "frame_wf f \<Longrightarrow> fr_kind f = frameRequest \<Longrightarrow> fr_method f \<in> task_methods \<Longrightarrow>
     t \<noteq> [] \<Longrightarrow> length t \<le> maxCorrelationValueBytes \<Longrightarrow>
     frame_wf (f\<lparr>fr_taskOperation := fr_method f, fr_taskID := t\<rparr>)"
  by (auto simp: shape_defs)

lemma set_TaskResult_wf:
  "frame_wf f \<Longrightarrow> fr_kind f = frameResult \<Longrightarrow> task_meta_ok m \<Longrightarrow>
     frame_wf (f\<lparr>fr_taskResult := Some m\<rparr>)"
  by (auto simp: shape_defs)

lemma extractMethodMeta_wf:
  assumes wf: "frame_wf f" and "extractMethodMeta f = (g, r)"
  shows "frame_wf g \<and> fr_wire g = fr_wire f"
proof -
  consider (none) "g = f"
    | (cancelled) "extractCancelled f = (g, r)" "fr_method f = ''notifications/cancelled''"
    | (progress) "extractProgress f = (g, r)" "fr_method f = ''notifications/progress''"
    | (status) "extractTaskStatus f = (g, r)" "fr_method f = ''notifications/tasks/status''"
    | (operation) "extractTaskOperation f = (g, r)" "fr_method f \<in> task_methods"
    using assms(2) by (auto simp: extractMethodMeta_def task_methods_def split: if_splits)
  then show ?thesis
  proof cases
    case cancelled
    show ?thesis
      using extractCancelled_form [OF cancelled(1)] wf cancelled(2) by (elim disjE exE conjE) (simp_all add: set_Cancelled_wf)
  next
    case progress
    show ?thesis
      using extractProgress_form [OF progress(1)] wf progress(2) by (elim disjE exE conjE) (simp_all add: set_Progress_wf)
  next
    case status
    show ?thesis
      using extractTaskStatus_form [OF status(1)] wf status(2) by (elim disjE exE conjE) (simp_all add: set_TaskStatus_wf)
  next
    case operation
    show ?thesis
      using extractTaskOperation_form [OF operation(1)] wf operation(2) by (elim disjE exE conjE) (simp_all add: set_TaskOperation_wf)
  qed (use wf in simp)
qed


lemma extractUtilities_wf:
  assumes wf: "base_wf f" and "blank_meta f"
  shows "frame_wf (extractUtilities f) \<and> fr_wire (extractUtilities f) = fr_wire f"
proof -
  have f: "frame_wf f"
    using assms by (simp add: shape_defs blank_meta_def)
  have req: "frame_wf (extractRequestMeta f) \<and> fr_wire (extractRequestMeta f) = fr_wire f"
    using extractRequestMeta_form [of f]
  proof (elim disjE conjE exE)
    fix t a e
    assume "fr_kind f = frameRequest" and
      "extractRequestMeta f = f\<lparr>fr_progressToken := t, fr_taskAugmented := a, fr_utilityErr := e\<rparr>"
    then show ?thesis
      using f by (auto simp: shape_defs)
  qed (use f in simp)
  obtain g r where g: "extractMethodMeta (extractRequestMeta f) = (g, r)"
    by fastforce
  then have wf_g: "frame_wf g \<and> fr_wire g = fr_wire f"
    using extractMethodMeta_wf [of "extractRequestMeta f" g r] req by simp
  then have "frame_wf (extractTaskResult g) \<and> fr_wire (extractTaskResult g) = fr_wire f"
    using extractTaskResult_form [of g] set_TaskResult_wf [of g] by auto
  with wf_g show ?thesis
    by (simp add: extractUtilities_def g)
qed

lemma classifyFrame_wf:
  assumes "classifyFrame flds ((emptyFrame raw)\<lparr>fr_id := i\<rparr>) = Inr f" and "i = None \<longleftrightarrow> \<not> mhas flds ''id''"
  shows "base_wf f \<and> blank_meta f \<and> fr_wire f = raw"
  using assms
  by (auto simp: classifyFrame_def base_wf_def blank_meta_def emptyFrame_def isResponse_def hasPrefix_def
      reservedMethodPrefix_def Let_def split: option.splits sum.splits if_splits)

lemma parseFields_wf:
  assumes "parseFields raw flds = Inr f"
  shows "frame_wf f \<and> fr_wire f = raw"
proof -
  obtain i g where i: "i = None \<longleftrightarrow> \<not> mhas flds ''id''"
    and g: "classifyFrame flds ((emptyFrame raw)\<lparr>fr_id := i\<rparr>) = Inr g" and f: "f = extractUtilities g"
    using assms unfolding parseFields_def
    by (auto simp: mhas_def split: option.split_asm sum.split_asm if_split_asm)
  show ?thesis
    using classifyFrame_wf [OF g i] extractUtilities_wf [of g] f by simp
qed

text \<open>C28: whatever bytes arrive, a frame the parser accepts has the shape the router relies on: an id
  exactly on requests and responses (so the router never follows a nil id), metadata only on
  frames of the matching method and kind, bounded task ids, valid task statuses, and a payload that
  is one non-empty line of valid JSON.\<close>

theorem parse_frame_wf:
  assumes "parseFrame raw maxBytes = Inr f"
  shows "frame_wf f \<and> fr_wire f = raw \<and> fr_raw f \<noteq> [] \<and> jsonValid (fr_raw f) \<and>
    CHR 0x0A \<notin> set (fr_raw f) \<and> CHR 0x0D \<notin> set (fr_raw f)"
proof -
  let ?t = "trimJSONWhitespace raw"
  obtain flds where ok: "?t \<noteq> []" "jsonValid ?t" "CHR 0x0A \<notin> set ?t" "CHR 0x0D \<notin> set ?t"
    and "parseFields raw flds = Inr f"
    using assms by (auto simp: parseFrame_def Let_def split: if_splits sum.splits)
  then have f: "frame_wf f" "fr_wire f = raw"
    using parseFields_wf by blast+
  moreover have "fr_raw f = ?t"
    using f by (simp add: frame_wf_def base_wf_def)
  ultimately show ?thesis
    using ok by simp
qed


definition demo_ping :: bytes where
  "demo_ping =
     ''{'' @ dq ''jsonrpc'' @ '':'' @ dq ''2.0'' @ '','' @ dq ''id'' @ '':7,'' @ dq ''method'' @ '':'' @ dq ''ping'' @ ''}''"

theorem parse_frame_wf_witness:
  "\<exists>f. parseFrame demo_ping 100 = Inr f \<and> frame_wf f \<and> fr_wire f = demo_ping \<and> jsonValid (fr_raw f)"
proof -
  have "(case parseFrame demo_ping 100 of Inl _ \<Rightarrow> False | Inr _ \<Rightarrow> True)"
    by code_simp
  then obtain f where "parseFrame demo_ping 100 = Inr f"
    by (auto split: sum.splits)
  then show ?thesis
    using parse_frame_wf by blast
qed

text \<open>every launcher control survives the wire: the frame that the enabled protocol emits for it
  is classified as that control again, and a disabled protocol neither emits nor accepts one.\<close>

theorem control_roundtrip:
  "(\<forall>c raw. ProtocolFrame ProtocolV2 c = Some raw \<longrightarrow>
      (\<exists>m. controlMethod c = Some m \<and> ControlOf ProtocolV2 m raw = Some (Ok c))) \<and>
   (\<forall>p c m raw. \<not> Enabled p \<longrightarrow> ProtocolFrame p c = None \<and> ControlOf p m raw \<noteq> Some (Ok c))"
proof -
  have *: "ControlOf ProtocolV2 dormantReadyMethod (notificationFrame dormantReadyMethod) = Some (Ok ControlDormantReady)"
    "ControlOf ProtocolV2 commitDormantMethod (notificationFrame commitDormantMethod) = Some (Ok ControlCommitDormant)"
    "ControlOf ProtocolV2 dormantAckMethod (notificationFrame dormantAckMethod) = Some (Ok ControlDormantAck)"
    "ControlOf ProtocolV2 dormantNackMethod (notificationFrame dormantNackMethod) = Some (Ok ControlDormantNack)"
    by code_simp+
  have "\<exists>m. controlMethod c = Some m \<and> ControlOf ProtocolV2 m raw = Some (Ok c)"
    if "ProtocolFrame ProtocolV2 c = Some raw" for c raw
    using that * by (cases c) (auto simp: ProtocolFrame_def controlMethod_def split: if_splits)
  then show ?thesis
    by (auto simp: ProtocolFrame_def ControlOf_def)
qed

theorem control_roundtrip_witness:
  "\<exists>m raw. ProtocolFrame ProtocolV2 ControlDormantAck = Some raw \<and> ControlOf ProtocolV2 m raw = Some (Ok ControlDormantAck)"
proof -
  have "ProtocolFrame ProtocolV2 ControlDormantAck = Some (notificationFrame dormantAckMethod)"
    by (simp add: ProtocolFrame_def Enabled_def ProtocolV2_def controlMethod_def)
  then show ?thesis
    using control_roundtrip by blast
qed

end
