(* ===== verification/Fences.thy ===== *)
theory Fences
  imports Frame
begin

text \<open>
  The two kinds of memory for finished correlation keys (\<open>muxcore/supervisor/correlation.go\<close>): the
  tombstone set, a ring that forgets its oldest entry, and the persistent fence, which refuses to
  grow beyond its limit instead of forgetting.
\<close>

section \<open>Definitions\<close>

definition tombstoneLimit :: nat where
  "tombstoneLimit = 1024"

definition persistentFenceLimit :: nat where
  "persistentFenceLimit = 1024"

datatype tombstoneRole = tombstoneRequest | tombstoneToken | tombstoneTask

datatype tombstoneKey = TKey (trole: tombstoneRole) (tkey: scalarKey)

definition taskTombstoneKey :: "bytes \<Rightarrow> scalarKey" where
  "taskTombstoneKey i = SKey scalarString i"

record tombstoneSet =
  ts_values :: "(tombstoneKey, unit) gomap"
  ts_order :: "tombstoneKey list"
  ts_next :: nat

definition emptyTombstones :: tombstoneSet where
  "emptyTombstones = \<lparr>ts_values = [], ts_order = [], ts_next = 0\<rparr>"

definition tombstone_contains :: "tombstoneSet \<Rightarrow> tombstoneRole \<Rightarrow> scalarKey \<Rightarrow> bool" where
  "tombstone_contains ts role key = mhas (ts_values ts) (TKey role key)"

definition tombstone_add :: "tombstoneSet \<Rightarrow> tombstoneRole \<Rightarrow> scalarKey \<Rightarrow> tombstoneSet" where
  "tombstone_add ts role key =
     (let entry = TKey role key
      in if mhas (ts_values ts) entry then ts
         else
           let values' = mput (ts_values ts) entry ()
           in if length (ts_order ts) < tombstoneLimit
              then ts\<lparr>ts_values := values', ts_order := ts_order ts @ [entry]\<rparr>
              else ts\<lparr>ts_values := mdel values' (ts_order ts ! ts_next ts),
                     ts_order := (ts_order ts)[ts_next ts := entry],
                     ts_next := (ts_next ts + 1) mod tombstoneLimit\<rparr>)"

definition tombstone_clear :: "tombstoneSet \<Rightarrow> tombstoneSet" where
  "tombstone_clear ts = \<lparr>ts_values = [], ts_order = [], ts_next = 0\<rparr>"

text \<open>One map of keys for each role; the roles are the valid indices of the source's array.\<close>

type_synonym persistentFence = "tombstoneRole \<Rightarrow> (scalarKey, unit) gomap"

definition emptyFence :: persistentFence where
  "emptyFence = (\<lambda>_. [])"

definition roleNumber :: "tombstoneRole \<Rightarrow> nat" where
  "roleNumber role = (case role of tombstoneRequest \<Rightarrow> 1 | tombstoneToken \<Rightarrow> 2 | tombstoneTask \<Rightarrow> 3)"

definition fence_contains :: "persistentFence \<Rightarrow> tombstoneRole \<Rightarrow> scalarKey \<Rightarrow> bool" where
  "fence_contains fence role key = mhas (fence role) key"

definition fenceLimitError :: "tombstoneRole \<Rightarrow> bytes" where
  "fenceLimitError role = ''persistent fence limit reached for role '' @ natDec (roleNumber role)"

definition fence_add :: "persistentFence \<Rightarrow> tombstoneRole \<Rightarrow> scalarKey \<Rightarrow> persistentFence \<times> unit result" where
  "fence_add fence role key =
     (if mhas (fence role) key then (fence, Ok ())
      else if mlen (fence role) \<ge> persistentFenceLimit then (fence, Err (fenceLimitError role))
      else (fence(role := mput (fence role) key ()), Ok ()))"

text \<open>\<open>addMany\<close>: the new entries, each once, with their number per role; then the limits; then the adds.\<close>

fun collectNew ::
  "persistentFence \<Rightarrow> tombstoneKey list \<Rightarrow> (tombstoneKey, unit) gomap \<Rightarrow> (tombstoneRole \<Rightarrow> nat)
     \<Rightarrow> (tombstoneKey, unit) gomap \<times> (tombstoneRole \<Rightarrow> nat)" where
  "collectNew fence [] pend additions = (pend, additions)"
| "collectNew fence (entry # entries) pend additions =
     (if fence_contains fence (trole entry) (tkey entry) \<or> mhas pend entry
      then collectNew fence entries pend additions
      else collectNew fence entries (mput pend entry ()) (additions(trole entry := additions (trole entry) + 1)))"

fun addAll :: "persistentFence \<Rightarrow> tombstoneKey list \<Rightarrow> persistentFence \<times> unit result" where
  "addAll fence [] = (fence, Ok ())"
| "addAll fence (entry # entries) =
     (case fence_add fence (trole entry) (tkey entry) of
        (f, Inl e) \<Rightarrow> (f, Err e)
      | (f, Inr _) \<Rightarrow> addAll f entries)"

definition overLimit :: "persistentFence \<Rightarrow> (tombstoneRole \<Rightarrow> nat) \<Rightarrow> tombstoneRole \<Rightarrow> bool" where
  "overLimit fence additions role \<longleftrightarrow> mlen (fence role) + additions role > persistentFenceLimit"

definition fence_addMany :: "persistentFence \<Rightarrow> tombstoneKey list \<Rightarrow> persistentFence \<times> unit result" where
  "fence_addMany fence entries =
     (let (pend, additions) = collectNew fence entries [] (\<lambda>_. 0)
      in case find (overLimit fence additions) [tombstoneRequest, tombstoneToken, tombstoneTask] of
           Some role \<Rightarrow> (fence, Err (fenceLimitError role))
         | None \<Rightarrow> addAll fence (map fst pend))"

definition fence_clear :: "persistentFence \<Rightarrow> persistentFence" where
  "fence_clear fence = (\<lambda>_. [])"

section \<open>The tombstone ring\<close>

text \<open>
  The specification: the remembered keys from the newest to the oldest. Adding a known key changes
  nothing, adding a new one puts it in front and drops the oldest beyond the limit.
\<close>

definition recent_add :: "tombstoneKey list \<Rightarrow> tombstoneKey \<Rightarrow> tombstoneKey list" where
  "recent_add l k = (if k \<in> set l then l else take tombstoneLimit (k # l))"

text \<open>The ring read from the slot that is overwritten next, oldest first.\<close>

definition ring_recent :: "tombstoneSet \<Rightarrow> tombstoneKey list" where
  "ring_recent ts = rev (drop (ts_next ts) (ts_order ts) @ take (ts_next ts) (ts_order ts))"

definition ring_inv :: "tombstoneSet \<Rightarrow> bool" where
  "ring_inv ts \<longleftrightarrow>
     minv (ts_values ts) \<and> distinct (ts_order ts) \<and>
     (\<forall>k. mhas (ts_values ts) k \<longleftrightarrow> k \<in> set (ts_order ts)) \<and>
     length (ts_order ts) \<le> tombstoneLimit \<and>
     (if length (ts_order ts) < tombstoneLimit then ts_next ts = 0 else ts_next ts < tombstoneLimit)"

lemma tombstoneLimit_pos: "0 < tombstoneLimit"
  by (simp add: tombstoneLimit_def)

lemma set_ring_recent: "set (ring_recent ts) = set (ts_order ts)"
proof -
  have "set (drop (ts_next ts) (ts_order ts)) \<union> set (take (ts_next ts) (ts_order ts)) = set (ts_order ts)"
    by (metis append_take_drop_id set_append sup_commute)
  then show ?thesis
    by (simp add: ring_recent_def Un_commute)
qed

lemma ring_contains: "ring_inv ts \<Longrightarrow> tombstone_contains ts role key \<longleftrightarrow> TKey role key \<in> set (ring_recent ts)"
  by (simp add: ring_inv_def tombstone_contains_def set_ring_recent)

lemma ring_empty: "ring_inv emptyTombstones \<and> ring_recent emptyTombstones = []"
  by (simp add: ring_inv_def emptyTombstones_def ring_recent_def tombstoneLimit_def)

text \<open>Overwriting the oldest slot of a full ring drops exactly the oldest entry.\<close>

lemma rotate_update:
  assumes "n < length xs"
  shows "drop (Suc n mod length xs) (xs[n := x]) @ take (Suc n mod length xs) (xs[n := x]) =
    tl (drop n xs @ take n xs) @ [x]"
proof (cases "Suc n = length xs")
  case True
  have "xs \<noteq> []"
    using assms by auto
  then have xs: "xs = butlast xs @ [last xs]"
    by simp
  have n: "n = length (butlast xs)"
    using True by simp
  have "xs[n := x] = butlast xs @ [x]"
    using xs n by (metis list_update_length)
  moreover have "drop n xs = [last xs]" "take n xs = butlast xs"
    using xs n by (metis append_eq_conv_conj)+
  ultimately show ?thesis
    using True by simp
next
  case False
  then have "Suc n mod length xs = Suc n"
    using assms by simp
  moreover have "take (Suc n) (xs[n := x]) = take n xs @ [x]"
    using assms by (simp add: take_Suc_conv_app_nth)
  moreover have "drop (Suc n) (xs[n := x]) = tl (drop n xs)"
    using assms by (simp add: drop_Suc tl_drop [symmetric]) (simp add: drop_update_cancel tl_drop drop_Suc [symmetric])
  moreover have "drop n xs \<noteq> []"
    using assms by simp
  ultimately show ?thesis
    by simp
qed


lemma cons_butlast_take: "length y = m \<Longrightarrow> 0 < m \<Longrightarrow> k # butlast (rev y) = take m (k # rev y)"
  by (cases m) (simp_all add: butlast_conv_take)

lemma recent_add_has: "k \<in> set (recent_add l k)"
  by (simp add: recent_add_def tombstoneLimit_def)

lemma ring_add:
  assumes inv: "ring_inv ts"
  shows "ring_inv (tombstone_add ts role key) \<and>
    ring_recent (tombstone_add ts role key) = recent_add (ring_recent ts) (TKey role key)"
proof (cases "mhas (ts_values ts) (TKey role key)")
  case True
  then show ?thesis
    using inv by (simp add: tombstone_add_def recent_add_def set_ring_recent ring_inv_def)
next
  case False
  let ?k = "TKey role key" and ?o = "ts_order ts" and ?n = "ts_next ts"
  have fresh: "?k \<notin> set ?o"
    using inv False by (simp add: ring_inv_def)
  show ?thesis
  proof (cases "length ?o < tombstoneLimit")
    case True
    let ?ts = "ts\<lparr>ts_values := mput (ts_values ts) ?k (), ts_order := ?o @ [?k]\<rparr>"
    have add: "tombstone_add ts role key = ?ts"
      using False True by (simp add: tombstone_add_def Let_def)
    have zero: "?n = 0"
      using inv True by (simp add: ring_inv_def)
    then have "ring_inv ?ts"
      using inv fresh True by (auto simp: ring_inv_def tombstoneLimit_pos)
    moreover have "ring_recent ?ts = recent_add (ring_recent ts) ?k"
      using fresh True zero by (simp add: recent_add_def ring_recent_def)
    ultimately show ?thesis
      by (simp add: add)
  next
    case full: False
    then have len: "length ?o = tombstoneLimit" and n: "?n < length ?o"
      using inv by (auto simp: ring_inv_def)
    let ?old = "?o ! ?n"
    let ?ts = "\<lparr>ts_values = mdel (mput (ts_values ts) ?k ()) ?old, ts_order = ?o[?n := ?k],
      ts_next = (?n + 1) mod tombstoneLimit\<rparr>"
    have add: "tombstone_add ts role key = ?ts"
      using False full by (simp add: tombstone_add_def Let_def)
    have old: "?old \<in> set ?o" "?old \<noteq> ?k"
      using fresh nth_mem [OF n] by auto
    have d: "distinct ?o"
      using inv by (simp add: ring_inv_def)
    have set_upd: "set (?o[?n := ?k]) = insert ?k (set ?o - {?old})"
      using n d by (simp add: set_update_distinct)
    have "ring_inv ?ts"
      using inv n d fresh len old set_upd
      by (auto simp: ring_inv_def distinct_list_update tombstoneLimit_pos)
    moreover have "ring_recent ?ts = recent_add (ring_recent ts) ?k"
    proof -
      let ?y = "drop ?n ?o @ take ?n ?o"
      have y: "length ?y = tombstoneLimit" "?y \<noteq> []"
        using len n by auto
      have "ring_recent ?ts = rev (tl ?y @ [?k])"
        using rotate_update [OF n, of ?k] len by (simp add: ring_recent_def)
      also have "\<dots> = ?k # butlast (rev ?y)"
        using y(2) by (cases ?y) (simp_all del: append_is_Nil_conv)
      also have "\<dots> = take tombstoneLimit (?k # rev ?y)"
        using y(1) tombstoneLimit_pos by (rule cons_butlast_take)
      also have "\<dots> = recent_add (ring_recent ts) ?k"
        using fresh unfolding recent_add_def set_ring_recent by (simp add: ring_recent_def)
      finally show ?thesis .
    qed
    ultimately show ?thesis
      by (simp add: add)
  qed
qed


section \<open>The persistent fence\<close>

definition fence_inv :: "persistentFence \<Rightarrow> bool" where
  "fence_inv fence \<longleftrightarrow> (\<forall>role. minv (fence role) \<and> mlen (fence role) \<le> persistentFenceLimit)"

lemma fence_inv_empty [simp]: "fence_inv emptyFence"
  by (simp add: fence_inv_def emptyFence_def)

lemma fence_inv_clear [simp]: "fence_inv (fence_clear f)"
  by (simp add: fence_inv_def fence_clear_def)

lemma fence_add_inv: "fence_inv f \<Longrightarrow> fence_inv (fst (fence_add f role key))"
  by (auto simp: fence_inv_def fence_add_def gm.len_put mhas_def)

lemma fence_add_Ok:
  "fence_add f role key = (f', Ok ()) \<Longrightarrow>
     fence_contains f' r k \<longleftrightarrow> fence_contains f r k \<or> (r = role \<and> k = key)"
  by (auto simp: fence_add_def fence_contains_def mhas_def split: if_splits)

lemma fence_add_Err: "fence_add f role key = (f', Err e) \<Longrightarrow> f' = f"
  by (auto simp: fence_add_def split: if_splits)

text \<open>
  The contract the registry relies on: a successful add makes the key known, a failed one changes
  nothing. A durable memory moreover forgets nothing, so everything added so far stays known.
\<close>

locale key_memory =
  fixes has :: "'m \<Rightarrow> tombstoneRole \<Rightarrow> scalarKey \<Rightarrow> bool"
    and add :: "'m \<Rightarrow> tombstoneRole \<Rightarrow> scalarKey \<Rightarrow> 'm \<times> unit result"
    and wf :: "'m \<Rightarrow> bool"
  assumes add_has: "wf m \<Longrightarrow> add m r k = (m', Ok ()) \<Longrightarrow> has m' r k"
    and add_err: "add m r k = (m', Err e) \<Longrightarrow> m' = m"
    and add_wf: "wf m \<Longrightarrow> wf (fst (add m r k))"
begin

lemma add_again: "wf m \<Longrightarrow> add m r k = (m', Ok ()) \<Longrightarrow> wf m' \<and> has m' r k"
  using add_wf [of m r k] add_has [of m r k m'] by simp

end

locale durable_memory = key_memory +
  assumes add_keeps: "has m r k \<Longrightarrow> has (fst (add m r' k')) r k"
begin

fun adds :: "'a \<Rightarrow> tombstoneKey list \<Rightarrow> 'a \<times> unit result" where
  "adds m [] = (m, Ok ())"
| "adds m (e # es) =
     (case add m (trole e) (tkey e) of
        (m', Inl err) \<Rightarrow> (m', Err err)
      | (m', Inr _) \<Rightarrow> adds m' es)"

lemma adds_keeps: "has m r k \<Longrightarrow> has (fst (adds m es)) r k"
proof (induction es arbitrary: m)
  case (Cons e es)
  obtain m1 res where a: "add m (trole e) (tkey e) = (m1, res)"
    by (meson surj_pair)
  then have "has m1 r k"
    using add_keeps [OF Cons.prems, of "trole e" "tkey e"] by simp
  then show ?case
    using Cons.IH a by (cases res) simp_all
qed simp

lemma adds_has:
  "wf m \<Longrightarrow> adds m es = (m', Ok ()) \<Longrightarrow> e \<in> set es \<Longrightarrow> has m' (trole e) (tkey e)"
proof (induction es arbitrary: m)
  case (Cons x es)
  obtain m1 res where a: "add m (trole x) (tkey x) = (m1, res)"
    by (meson surj_pair)
  then have m1: "add m (trole x) (tkey x) = (m1, Ok ())" "adds m1 es = (m', Ok ())"
    using Cons.prems(2) by (cases res; simp)+
  then have wf: "wf m1" and here: "has m1 (trole x) (tkey x)"
    using add_again [OF Cons.prems(1) m1(1)] by simp_all
  show ?case
  proof (cases "e = x")
    case True
    then show ?thesis
      using adds_keeps [OF here, of es] m1(2) by simp
  next
    case False
    then show ?thesis
      using Cons.IH [OF wf m1(2)] Cons.prems(3) by simp
  qed
qed simp

end

interpretation tomb: key_memory tombstone_contains "\<lambda>ts r k. (tombstone_add ts r k, Ok ())" ring_inv
proof unfold_locales
  fix m r k m'
  assume "ring_inv m" "(tombstone_add m r k, Ok ()) = (m', Ok () :: unit result)"
  then show "tombstone_contains m' r k"
    using ring_add [of m r k] by (auto simp: ring_contains recent_add_has)
qed (use ring_add in auto)

interpretation fence: durable_memory fence_contains fence_add fence_inv
proof unfold_locales
  fix f r k f' e r' k'
  show "fence_inv f \<Longrightarrow> fence_add f r k = (f', Ok ()) \<Longrightarrow> fence_contains f' r k"
    by (simp add: fence_add_Ok)
  show "fence_add f r k = (f', Err e) \<Longrightarrow> f' = f"
    by (rule fence_add_Err)
  show "fence_inv f \<Longrightarrow> fence_inv (fst (fence_add f r k))"
    by (rule fence_add_inv)
  show "fence_contains f r k \<Longrightarrow> fence_contains (fst (fence_add f r' k')) r k"
    by (auto simp: fence_add_def fence_contains_def)
qed

lemma addAll_adds: "addAll f es = fence.adds f es"
  by (induction es arbitrary: f) (auto split: prod.split sum.split)


section \<open>Adding several keys is all or nothing\<close>

definition roleCount :: "tombstoneRole \<Rightarrow> tombstoneKey list \<Rightarrow> nat" where
  "roleCount role es = length (filter (\<lambda>e. trole e = role) es)"

definition newKeys :: "persistentFence \<Rightarrow> tombstoneKey list \<Rightarrow> tombstoneRole \<Rightarrow> scalarKey set" where
  "newKeys f es role = {k. TKey role k \<in> set es \<and> \<not> fence_contains f role k}"

lemma map_fst_mput: "\<not> mhas m k \<Longrightarrow> map fst (mput m k v) = map fst m @ [k]"
  unfolding mhas_def mget_def mput_def by (induction m) auto

lemma mhas_iff: "mhas m k \<longleftrightarrow> k \<in> fst ` set m"
  by (simp add: mhas_def mget_def map_of_eq_None_iff)

lemma collectNew_spec:
  assumes "minv pend" and "\<forall>role. additions role = roleCount role (map fst pend)"
    and "collectNew f es pend additions = (pend', additions')"
  shows "minv pend' \<and> (\<forall>role. additions' role = roleCount role (map fst pend')) \<and>
    (\<forall>e. mhas pend' e \<longleftrightarrow> mhas pend e \<or> e \<in> set es \<and> \<not> fence_contains f (trole e) (tkey e))"
  using assms
proof (induction f es pend additions rule: collectNew.induct)
  case (2 f entry es pend additions)
  show ?case
  proof (cases "fence_contains f (trole entry) (tkey entry) \<or> mhas pend entry")
    case True
    then show ?thesis
      using 2 by auto
  next
    case False
    then have "map fst (mput pend entry ()) = map fst pend @ [entry]"
      by (simp add: map_fst_mput)
    then have "\<forall>role. (additions(trole entry := additions (trole entry) + 1)) role =
        roleCount role (map fst (mput pend entry ()))"
      using "2.prems"(2) by (simp add: roleCount_def)
    moreover have "collectNew f es (mput pend entry ()) (additions(trole entry := additions (trole entry) + 1))
        = (pend', additions')"
      using "2.prems"(3) False by simp
    ultimately have "minv pend' \<and> (\<forall>role. additions' role = roleCount role (map fst pend')) \<and>
      (\<forall>e. mhas pend' e \<longleftrightarrow> mhas (mput pend entry ()) e \<or> e \<in> set es \<and> \<not> fence_contains f (trole e) (tkey e))"
      using "2.IH"(2) [OF False] "2.prems"(1) by blast
    then show ?thesis
      using False by auto
  qed
qed simp

lemma addAll_Ok:
  assumes "fence_inv f" and "distinct es" and "\<forall>e \<in> set es. \<not> fence_contains f (trole e) (tkey e)"
    and "\<forall>role. mlen (f role) + roleCount role es \<le> persistentFenceLimit"
  shows "\<exists>f'. addAll f es = (f', Ok ()) \<and> fence_inv f' \<and>
    (\<forall>r k. fence_contains f' r k \<longleftrightarrow> fence_contains f r k \<or> TKey r k \<in> set es)"
  using assms
proof (induction es arbitrary: f)
  case (Cons e es)
  let ?r = "trole e" and ?k = "tkey e"
  let ?f = "f(?r := mput (f ?r) ?k ())"
  have absent: "\<not> mhas (f ?r) ?k" and room: "mlen (f ?r) < persistentFenceLimit"
    using Cons.prems(3) Cons.prems(4) [rule_format, of ?r] by (auto simp: fence_contains_def roleCount_def)
  have add: "fence_add f ?r ?k = (?f, Ok ())"
    using absent room by (simp add: fence_add_def)
  have "fence_inv ?f"
    using fence_add_inv [OF Cons.prems(1), of ?r ?k] add by simp
  moreover have "\<forall>x \<in> set es. \<not> fence_contains ?f (trole x) (tkey x)"
    using Cons.prems(2,3) by (auto simp: fence_contains_def) (metis tombstoneKey.expand)
  moreover have "\<forall>role. mlen (?f role) + roleCount role es \<le> persistentFenceLimit"
  proof
    fix role
    show "mlen (?f role) + roleCount role es \<le> persistentFenceLimit"
      using Cons.prems(4) [rule_format, of role] absent
      by (cases "role = ?r") (auto simp: roleCount_def gm.len_put mhas_def)
  qed
  moreover have "distinct es"
    using Cons.prems(2) by simp
  ultimately obtain f' where "addAll ?f es = (f', Ok ())" "fence_inv f'"
    "\<forall>r k. fence_contains f' r k \<longleftrightarrow> fence_contains ?f r k \<or> TKey r k \<in> set es"
    using Cons.IH [of ?f] by blast
  moreover have "fence_contains ?f r k \<longleftrightarrow> fence_contains f r k \<or> TKey r k = e" for r k
    using fence_add_Ok [OF add] by (cases e) auto
  ultimately show ?case
    using add by auto
qed simp

lemma roleCount_card:
  assumes "minv pend" and "\<forall>e. mhas pend e \<longleftrightarrow> e \<in> set es \<and> \<not> fence_contains f (trole e) (tkey e)"
  shows "roleCount role (map fst pend) = card (newKeys f es role)"
proof -
  let ?L = "filter (\<lambda>e. trole e = role) (map fst pend)"
  have "roleCount role (map fst pend) = card (set ?L)"
    using assms(1) by (simp add: roleCount_def distinct_card minv_def del: set_filter)
  also have "set ?L = TKey role ` newKeys f es role"
  proof -
    have "e \<in> set ?L \<longleftrightarrow> e \<in> TKey role ` newKeys f es role" for e
      using assms(2) [rule_format, of e] by (cases e) (auto simp: newKeys_def mhas_iff)
    then show ?thesis by blast
  qed
  also have "card \<dots> = card (newKeys f es role)"
    by (rule card_image) (simp add: inj_on_def)
  finally show ?thesis .
qed

lemma find_roles:
  "find P [tombstoneRequest, tombstoneToken, tombstoneTask] = None \<longleftrightarrow> (\<forall>role. \<not> P role)"
  unfolding find_None_iff by simp (metis tombstoneRole.exhaust)

lemma fence_addMany_spec:
  assumes "fence_inv f"
  shows "fence_inv (fst (fence_addMany f es))"
    and "(snd (fence_addMany f es) = Ok ()) \<longleftrightarrow>
      (\<forall>role. mlen (f role) + card (newKeys f es role) \<le> persistentFenceLimit)"
    and "snd (fence_addMany f es) = Ok () \<Longrightarrow>
      fence_contains (fst (fence_addMany f es)) r k \<longleftrightarrow> fence_contains f r k \<or> TKey r k \<in> set es"
    and "snd (fence_addMany f es) \<noteq> Ok () \<Longrightarrow> fst (fence_addMany f es) = f"
proof -
  obtain pend additions where c: "collectNew f es [] (\<lambda>_. 0) = (pend, additions)"
    by fastforce
  have spec: "minv pend" "\<forall>role. additions role = roleCount role (map fst pend)"
    "\<forall>e. mhas pend e \<longleftrightarrow> e \<in> set es \<and> \<not> fence_contains f (trole e) (tkey e)"
    using collectNew_spec [OF _ _ c] by (simp_all add: roleCount_def)
  have adds: "additions role = card (newKeys f es role)" for role
    using roleCount_card [OF spec(1,3), of role] spec(2) by simp
  let ?over = "find (overLimit f additions) [tombstoneRequest, tombstoneToken, tombstoneTask]"
  have over: "?over = None \<longleftrightarrow> (\<forall>role. mlen (f role) + card (newKeys f es role) \<le> persistentFenceLimit)"
    unfolding find_roles by (simp add: overLimit_def adds not_less)
  have "\<exists>f'. addAll f (map fst pend) = (f', Ok ()) \<and> fence_inv f' \<and>
    (\<forall>r k. fence_contains f' r k \<longleftrightarrow> fence_contains f r k \<or> TKey r k \<in> set es)" if "?over = None"
  proof -
    have "\<forall>e \<in> set (map fst pend). \<not> fence_contains f (trole e) (tkey e)"
      using spec(3) by (auto simp: mhas_iff)
    moreover have "distinct (map fst pend)"
      using spec(1) by (simp add: minv_def)
    moreover have "\<forall>role. mlen (f role) + roleCount role (map fst pend) \<le> persistentFenceLimit"
      using that over adds spec(2) by auto
    ultimately obtain f' where "addAll f (map fst pend) = (f', Ok ())" "fence_inv f'"
      "\<forall>r k. fence_contains f' r k \<longleftrightarrow> fence_contains f r k \<or> TKey r k \<in> set (map fst pend)"
      using addAll_Ok [OF assms] by blast
    moreover have "fence_contains f r k \<or> TKey r k \<in> set (map fst pend) \<longleftrightarrow>
      fence_contains f r k \<or> TKey r k \<in> set es" for r k
      using spec(3) [rule_format, of "TKey r k"] by (auto simp: mhas_iff)
    ultimately show ?thesis
      by auto
  qed
  note ok = this
  have many: "fence_addMany f es =
    (case ?over of Some role \<Rightarrow> (f, Err (fenceLimitError role)) | None \<Rightarrow> addAll f (map fst pend))"
    by (simp add: fence_addMany_def c)
  show "fence_inv (fst (fence_addMany f es))"
    using ok assms by (cases ?over) (auto simp: many)
  show "(snd (fence_addMany f es) = Ok ()) \<longleftrightarrow>
      (\<forall>role. mlen (f role) + card (newKeys f es role) \<le> persistentFenceLimit)"
    unfolding over [symmetric] using ok by (cases ?over) (auto simp: many)
  show "snd (fence_addMany f es) = Ok () \<Longrightarrow>
      fence_contains (fst (fence_addMany f es)) r k \<longleftrightarrow> fence_contains f r k \<or> TKey r k \<in> set es"
    using ok by (cases ?over) (auto simp: many)
  show "snd (fence_addMany f es) \<noteq> Ok () \<Longrightarrow> fst (fence_addMany f es) = f"
    using ok by (cases ?over) (auto simp: many)
qed


section \<open>Properties\<close>

lemma ring_run:
  "ring_inv ts \<Longrightarrow>
     ring_inv (foldl (\<lambda>ts e. tombstone_add ts (trole e) (tkey e)) ts es) \<and>
     ring_recent (foldl (\<lambda>ts e. tombstone_add ts (trole e) (tkey e)) ts es) = foldl recent_add (ring_recent ts) es"
proof (induction es arbitrary: ts)
  case (Cons e es)
  show ?case
    using Cons.IH [of "tombstone_add ts (trole e) (tkey e)"] ring_add [OF Cons.prems, of "trole e" "tkey e"]
    by simp
qed simp

text \<open>C30: the tombstone ring implements a bounded memory of recent keys: after any sequence of adds
  it knows exactly the last 1024 distinct keys in the order of their first appearance, and drops the
  oldest one when a new key arrives.\<close>

theorem tombstone_ring_refines:
  "tombstone_contains (foldl (\<lambda>ts e. tombstone_add ts (trole e) (tkey e)) emptyTombstones es) role key \<longleftrightarrow>
     TKey role key \<in> set (foldl recent_add [] es)"
  using ring_run [of emptyTombstones es] ring_empty ring_contains by auto

text \<open>C31: fencing several keys at once is atomic: it succeeds exactly when every role stays within
  its limit after the new distinct keys, and then precisely those keys are added; otherwise the
  fence is unchanged. The limit is never exceeded.\<close>

theorem fence_add_many_atomic:
  assumes "fence_inv f"
  shows "case fence_addMany f es of (f', res) \<Rightarrow>
    fence_inv f' \<and>
    (res = Ok () \<longleftrightarrow> (\<forall>role. mlen (f role) + card (newKeys f es role) \<le> persistentFenceLimit)) \<and>
    (if res = Ok ()
     then \<forall>r k. fence_contains f' r k \<longleftrightarrow> fence_contains f r k \<or> TKey r k \<in> set es
     else f' = f)"
proof -
  obtain f' res where e: "fence_addMany f es = (f', res)"
    by (meson surj_pair)
  show ?thesis
    using fence_addMany_spec [OF assms, of es] by (simp add: e)
qed

theorem fence_add_many_atomic_witness:
  "fence_contains (fst (fence_addMany emptyFence [TKey tombstoneTask (SKey scalarString ''t1'')]))
     tombstoneTask (SKey scalarString ''t1'')"
proof -
  let ?es = "[TKey tombstoneTask (SKey scalarString ''t1'')]"
  have "snd (fence_addMany emptyFence ?es) = Ok ()"
    by (simp add: fence_addMany_def fence_contains_def emptyFence_def overLimit_def persistentFenceLimit_def
        mput_def mlen_def fence_add_def)
  then show ?thesis
    using fence_add_many_atomic [OF fence_inv_empty, of ?es] by (auto split: prod.splits)
qed

end
