(* ===== verification/Correlation.thy ===== *)
theory Correlation
  imports Fences
begin

text \<open>
  The correlation registry of one direction (\<open>muxcore/supervisor/correlation.go\<close>): active requests,
  progress tokens and tasks, the retired ones of earlier engine generations, and the memories of
  finished keys. An operation that can fail returns the registry as it is at that point together
  with the text of the error.

  The generation counter is a natural number: the source's 64-bit counter grows by one per engine
  start. The order of an association list is one iteration order of the source's map.
\<close>

section \<open>Records\<close>

definition codeInvalidRequest :: int where "codeInvalidRequest = -32600"
definition codeMethodNotFound :: int where "codeMethodNotFound = -32601"
definition codeInvalidParams :: int where "codeInvalidParams = -32602"
definition codeInternal :: int where "codeInternal = -32603"
definition codePendingFull :: int where "codePendingFull = -32000"

definition lostRequestMessage :: bytes where
  "lostRequestMessage = ''mcp-mux engine restarted, request lost during launcher reconnect''"

definition activeCorrelationLimit :: nat where "activeCorrelationLimit = 256"
definition retainedCorrelationLimit :: nat where
  "retainedCorrelationLimit = tombstoneLimit + activeCorrelationLimit"
definition terminalTaskLimit :: nat where
  "terminalTaskLimit = retainedCorrelationLimit - activeCorrelationLimit"

record requestRecord =
  rr_id :: scalarValue
  rr_method :: bytes
  rr_initialize :: bool
  rr_generation :: nat
  rr_progressToken :: "scalarValue option"
  rr_taskAugmented :: bool
  rr_taskID :: bytes

definition rr_key :: "requestRecord \<Rightarrow> scalarKey" where
  "rr_key record = sv_key (rr_id record)"

definition rr_token :: "requestRecord \<Rightarrow> scalarKey option" where
  "rr_token record = map_option sv_key (rr_progressToken record)"

definition taskRelated :: "requestRecord \<Rightarrow> bool" where
  "taskRelated record \<longleftrightarrow> rr_taskAugmented record \<or> rr_taskID record \<noteq> []"

record tokenRecord =
  to_requestID :: scalarKey
  to_generation :: nat
  to_last :: bytes
  to_hasLast :: bool

record taskRecord =
  ta_id :: bytes
  ta_requestID :: scalarKey
  ta_generation :: nat
  ta_progressToken :: "scalarKey option"
  ta_status :: bytes

datatype currentTaskState = currentTaskActive | currentTaskTerminal | currentTaskFinalized

record directionRegistry =
  dr_requests :: "(scalarKey, requestRecord) gomap"
  dr_tokens :: "(scalarKey, tokenRecord) gomap"
  dr_tasks :: "(bytes, taskRecord) gomap"
  dr_terminalTasks :: "(bytes, taskRecord) gomap"
  dr_tombstones :: tombstoneSet
  dr_persistentFences :: persistentFence
  dr_retiredRequests :: "(scalarKey, requestRecord) gomap"
  dr_retiredTokens :: "(scalarKey, unit) gomap"
  dr_retiredTasks :: "(bytes, taskRecord) gomap"
  dr_finalizedTaskStatuses :: "(bytes, bytes) gomap"

definition newDirectionRegistry :: directionRegistry where
  "newDirectionRegistry =
     \<lparr>dr_requests = [], dr_tokens = [], dr_tasks = [], dr_terminalTasks = [],
      dr_tombstones = emptyTombstones, dr_persistentFences = emptyFence, dr_retiredRequests = [],
      dr_retiredTokens = [], dr_retiredTasks = [], dr_finalizedTaskStatuses = []\<rparr>"

section \<open>Registering requests\<close>

definition hasTaskLifecycle :: "directionRegistry \<Rightarrow> bool" where
  "hasTaskLifecycle reg \<longleftrightarrow>
     mlen (dr_tasks reg) > 0 \<or> mlen (dr_terminalTasks reg) > 0 \<or>
     list_ex (\<lambda>(_, record). rr_taskAugmented record) (dr_requests reg)"

definition fencedKey :: "directionRegistry \<Rightarrow> tombstoneRole \<Rightarrow> scalarKey \<Rightarrow> bool" where
  "fencedKey reg role key \<longleftrightarrow>
     tombstone_contains (dr_tombstones reg) role key \<or> fence_contains (dr_persistentFences reg) role key"

definition canRegisterToken :: "directionRegistry \<Rightarrow> scalarKey \<Rightarrow> unit result" where
  "canRegisterToken reg key =
     (if mhas (dr_retiredTokens reg) key then Err ''progress token belongs to a retired generation''
      else if fencedKey reg tombstoneToken key then Err ''progress token is tombstoned''
      else if mhas (dr_tokens reg) key then Err ''duplicate active progress token''
      else if mlen (dr_tokens reg) + mlen (dr_retiredTokens reg) \<ge> retainedCorrelationLimit
      then Err ''progress token correlation retention limit reached''
      else Ok ())"

definition canRegister :: "directionRegistry \<Rightarrow> parsedFrame \<Rightarrow> unit result" where
  "canRegister reg frame =
     (case fr_id frame of
        None \<Rightarrow> Err ''request id is missing''
      | Some i \<Rightarrow>
          (let key = sv_key i;
               activeLimit =
                 (if fr_taskOperation frame = [] \<and> (fr_taskAugmented frame \<or> hasTaskLifecycle reg)
                  then activeCorrelationLimit - 1 else activeCorrelationLimit)
           in if mhas (dr_retiredRequests reg) key then Err ''request id belongs to a retired generation''
              else if fencedKey reg tombstoneRequest key then Err ''request id is tombstoned''
              else if mhas (dr_requests reg) key then Err ''duplicate active request id''
              else if mlen (dr_requests reg) + mlen (dr_tasks reg) \<ge> activeLimit
              then Err ''active correlation limit reached''
              else if mlen (dr_requests reg) + mlen (dr_retiredRequests reg) \<ge> retainedCorrelationLimit
              then Err ''request correlation retention limit reached''
              else if fr_taskAugmented frame \<and>
                mlen (dr_tasks reg) + mlen (dr_terminalTasks reg) + mlen (dr_retiredTasks reg) \<ge> retainedCorrelationLimit
              then Err ''task correlation retention limit reached''
              else case fr_progressToken frame of
                  None \<Rightarrow> Ok ()
                | Some token \<Rightarrow> canRegisterToken reg (sv_key token)))"

definition recordOf :: "parsedFrame \<Rightarrow> scalarValue \<Rightarrow> nat \<Rightarrow> requestRecord" where
  "recordOf frame i generation =
     \<lparr>rr_id = i, rr_method = fr_method frame, rr_initialize = (fr_method frame = ''initialize''),
      rr_generation = generation, rr_progressToken = fr_progressToken frame,
      rr_taskAugmented = fr_taskAugmented frame, rr_taskID = fr_taskID frame\<rparr>"

definition putRecord :: "directionRegistry \<Rightarrow> requestRecord \<Rightarrow> directionRegistry" where
  "putRecord reg record =
     reg\<lparr>dr_requests := mput (dr_requests reg) (rr_key record) record,
         dr_tokens :=
           (case rr_token record of
              None \<Rightarrow> dr_tokens reg
            | Some token \<Rightarrow>
                mput (dr_tokens reg) token
                  \<lparr>to_requestID = rr_key record, to_generation = rr_generation record, to_last = [],
                   to_hasLast = False\<rparr>)\<rparr>"

text \<open>The id of a request frame is present; \<open>None\<close> is the nil dereference of a frame without one.\<close>

definition register :: "directionRegistry \<Rightarrow> parsedFrame \<Rightarrow> nat \<Rightarrow> (directionRegistry \<times> requestRecord) option" where
  "register reg frame generation =
     map_option (\<lambda>i. (putRecord reg (recordOf frame i generation), recordOf frame i generation)) (fr_id frame)"

definition canBindTask :: "directionRegistry \<Rightarrow> bytes \<Rightarrow> unit result" where
  "canBindTask reg taskID =
     (if mhas (dr_tasks reg) taskID then Err ''taskId belongs to an active task''
      else if mhas (dr_terminalTasks reg) taskID then Err ''taskId belongs to a terminal task''
      else if mhas (dr_retiredTasks reg) taskID then Err ''taskId belongs to a retired generation''
      else if fencedKey reg tombstoneTask (taskTombstoneKey taskID) then Err ''taskId is tombstoned''
      else if mlen (dr_tasks reg) + mlen (dr_terminalTasks reg) + mlen (dr_retiredTasks reg) \<ge> retainedCorrelationLimit
      then Err ''task correlation retention limit reached''
      else Ok ())"

section \<open>Task operations and completion\<close>

definition currentTaskForOperation ::
  "directionRegistry \<Rightarrow> requestRecord \<Rightarrow> (taskRecord option \<times> currentTaskState) result" where
  "currentTaskForOperation reg record =
     (let taskKey = taskTombstoneKey (rr_taskID record);
          terminal = mget (dr_terminalTasks reg) (rr_taskID record);
          retired = mhas (dr_retiredTasks reg) (rr_taskID record);
          fenced = fence_contains (dr_persistentFences reg) tombstoneTask taskKey;
          transitioned = tombstone_contains (dr_tombstones reg) tombstoneTask taskKey
      in case mget (dr_tasks reg) (rr_taskID record) of
           Some active \<Rightarrow>
             (if ta_generation active \<noteq> rr_generation record \<or> terminal \<noteq> None \<or> retired \<or> fenced \<or> transitioned
              then Err ''task operation has ambiguous active taskId state''
              else Ok (Some active, currentTaskActive))
         | None \<Rightarrow>
             (case terminal of
                Some t \<Rightarrow>
                  (if ta_generation t \<noteq> rr_generation record \<or> retired \<or> fenced \<or> transitioned
                   then Err ''task operation has ambiguous terminal taskId state''
                   else Ok (Some t, currentTaskTerminal))
              | None \<Rightarrow>
                  (if retired \<or> transitioned then Err ''task operation collides with retired taskId state''
                   else if fenced then Ok (None, currentTaskFinalized)
                   else Err ''unknown taskId'')))"

definition statusChanged :: "bytes \<Rightarrow> bytes \<Rightarrow> bytes" where
  "statusChanged old new = ''terminal task status changed from '' @ old @ '' to '' @ new"

definition isNonterminal :: "bytes \<Rightarrow> bool" where
  "isNonterminal status \<longleftrightarrow> status = ''working'' \<or> status = ''input_required''"

definition validateFinalizedTaskStatus :: "directionRegistry \<Rightarrow> bytes \<Rightarrow> bytes \<Rightarrow> unit result" where
  "validateFinalizedTaskStatus reg taskID status =
     (if isNonterminal status then Err ''nonterminal task status follows finalized task''
      else case mget (dr_finalizedTaskStatuses reg) taskID of
          Some known \<Rightarrow> if known \<noteq> status then Err (statusChanged known status) else Ok ()
        | None \<Rightarrow> Ok ())"

text \<open>
  The task metadata in the response to a task operation: not an operation, an operation whose
  response carries no status, or the status; or the error of an operation.
\<close>

definition taskOperationResponse :: "requestRecord \<Rightarrow> parsedFrame \<Rightarrow> taskMeta option \<times> bool \<times> bytes option" where
  "taskOperationResponse record response =
     (if rr_taskID record = [] then (None, False, None)
      else if rr_method record = ''tasks/get'' \<or> rr_method record = ''tasks/cancel'' then
        (if fr_kind response = frameError then (None, True, None)
         else if fr_kind response \<noteq> frameResult then (None, True, Some ''task operation requires a response'')
         else case parseTaskMeta (fr_result response) of
             Inl e \<Rightarrow> (None, True, Some (''task operation result: '' @ e))
           | Inr meta \<Rightarrow>
               (if tm_id meta \<noteq> rr_taskID record
                then (None, True, Some ''task operation result taskId mismatch'')
                else if rr_method record = ''tasks/cancel'' \<and> tm_status meta \<noteq> ''cancelled''
                then (None, True, Some ''tasks/cancel result must be cancelled'')
                else (Some meta, True, None)))
      else if rr_method record = ''tasks/result'' then
        (if fr_kind response = frameError then (None, True, None)
         else if fr_kind response \<noteq> frameResult then (None, True, Some ''task result requires a response'')
         else (Some \<lparr>tm_id = rr_taskID record, tm_status = ''completed''\<rparr>, True, None))
      else (None, False, None))"

definition canCompleteOperation :: "directionRegistry \<Rightarrow> requestRecord \<Rightarrow> taskMeta option \<Rightarrow> unit result" where
  "canCompleteOperation reg record meta =
     (case currentTaskForOperation reg record of
        Inl e \<Rightarrow> Err e
      | Inr (task, state) \<Rightarrow>
          (case meta of
             None \<Rightarrow> Ok ()
           | Some m \<Rightarrow>
               (if isNonterminal (tm_status m) \<and> state \<noteq> currentTaskActive
                then Err ''nonterminal task operation response follows terminal task status''
                else if rr_method record = ''tasks/result'' \<or> isNonterminal (tm_status m) then Ok ()
                else case state of
                    currentTaskActive \<Rightarrow>
                      (if mlen (dr_terminalTasks reg) \<ge> terminalTaskLimit
                       then Err ''terminal task retention limit reached'' else Ok ())
                  | currentTaskTerminal \<Rightarrow>
                      (case task of
                         Some t \<Rightarrow>
                           (if ta_status t \<noteq> tm_status m
                            then Err (statusChanged (ta_status t) (tm_status m)) else Ok ())
                       | None \<Rightarrow> Ok ())
                  | currentTaskFinalized \<Rightarrow>
                      validateFinalizedTaskStatus reg (rr_taskID record) (tm_status m))))"

definition canComplete :: "directionRegistry \<Rightarrow> requestRecord \<Rightarrow> parsedFrame \<Rightarrow> unit result" where
  "canComplete reg record response =
     (case taskOperationResponse record response of
        (meta, True, err) \<Rightarrow>
          (case err of Some e \<Rightarrow> Err e | None \<Rightarrow> canCompleteOperation reg record meta)
      | (_, False, _) \<Rightarrow>
          (if \<not> rr_taskAugmented record \<or> fr_kind response = frameError then Ok ()
           else case fr_utilityErr response of
               Some e \<Rightarrow> Err (''invalid task result: '' @ e)
             | None \<Rightarrow>
                 (if fr_kind response \<noteq> frameResult then Err ''task-augmented request requires CreateTaskResult''
                  else case fr_taskResult response of
                      None \<Rightarrow> Err ''task-augmented request requires CreateTaskResult''
                    | Some meta \<Rightarrow>
                        (if tm_status meta \<noteq> ''working'' then Err ''CreateTaskResult status must be working''
                         else canBindTask reg (tm_id meta)))))"

definition tokenEntries :: "scalarKey option \<Rightarrow> tombstoneKey list" where
  "tokenEntries token = (case token of None \<Rightarrow> [] | Some k \<Rightarrow> [TKey tombstoneToken k])"

definition addFences :: "directionRegistry \<Rightarrow> tombstoneKey list \<Rightarrow> directionRegistry \<times> unit result" where
  "addFences reg entries =
     (case fence_addMany (dr_persistentFences reg) entries of
        (f, res) \<Rightarrow> (reg\<lparr>dr_persistentFences := f\<rparr>, res))"

definition addTombstone :: "directionRegistry \<Rightarrow> tombstoneRole \<Rightarrow> scalarKey \<Rightarrow> directionRegistry" where
  "addTombstone reg role key = reg\<lparr>dr_tombstones := tombstone_add (dr_tombstones reg) role key\<rparr>"

definition fenceRequest :: "directionRegistry \<Rightarrow> requestRecord \<Rightarrow> bool \<Rightarrow> directionRegistry \<times> unit result" where
  "fenceRequest reg record includeToken =
     (if taskRelated record
      then addFences reg (TKey tombstoneRequest (rr_key record) # (if includeToken then tokenEntries (rr_token record) else []))
      else
        let r1 = addTombstone reg tombstoneRequest (rr_key record)
        in (case rr_token record of
              Some token \<Rightarrow> if includeToken then addTombstone r1 tombstoneToken token else r1
            | None \<Rightarrow> r1, Ok ()))"

definition removeTokenKey :: "directionRegistry \<Rightarrow> scalarKey option \<Rightarrow> directionRegistry" where
  "removeTokenKey reg token =
     (case token of None \<Rightarrow> reg | Some k \<Rightarrow> reg\<lparr>dr_tokens := mdel (dr_tokens reg) k\<rparr>)"

definition removeToken :: "directionRegistry \<Rightarrow> requestRecord \<Rightarrow> directionRegistry" where
  "removeToken reg record = removeTokenKey reg (rr_token record)"

definition updateTaskActive :: "directionRegistry \<Rightarrow> taskRecord \<Rightarrow> taskMeta \<Rightarrow> directionRegistry \<times> bool result" where
  "updateTaskActive reg active meta =
     (if isNonterminal (tm_status meta)
      then (reg\<lparr>dr_tasks := mput (dr_tasks reg) (tm_id meta) (active\<lparr>ta_status := tm_status meta\<rparr>)\<rparr>, Ok True)
      else if mlen (dr_terminalTasks reg) \<ge> terminalTaskLimit
      then (reg, Err ''terminal task retention limit reached'')
      else
        (case (case ta_progressToken active of
                 None \<Rightarrow> (dr_persistentFences reg, Ok ())
               | Some token \<Rightarrow> fence_add (dr_persistentFences reg) tombstoneToken token) of
           (f, Inl e) \<Rightarrow> (reg\<lparr>dr_persistentFences := f\<rparr>, Err e)
         | (f, Inr _) \<Rightarrow>
             (let r1 = removeTokenKey
                    (reg\<lparr>dr_persistentFences := f, dr_tasks := mdel (dr_tasks reg) (tm_id meta)\<rparr>)
                    (ta_progressToken active)
              in (r1\<lparr>dr_terminalTasks :=
                    mput (dr_terminalTasks r1) (tm_id meta) (active\<lparr>ta_status := tm_status meta\<rparr>)\<rparr>, Ok True))))"

definition updateTask :: "directionRegistry \<Rightarrow> taskMeta \<Rightarrow> nat \<Rightarrow> directionRegistry \<times> bool result" where
  "updateTask reg meta generation =
     (case (mget (dr_tasks reg) (tm_id meta), mget (dr_terminalTasks reg) (tm_id meta)) of
        (Some _, Some _) \<Rightarrow> (reg, Err ''taskId belongs to active and terminal tasks'')
      | (Some active, None) \<Rightarrow>
          (if ta_generation active \<noteq> generation then (reg, Ok False) else updateTaskActive reg active meta)
      | (None, Some terminal) \<Rightarrow>
          (if ta_generation terminal \<noteq> generation then (reg, Ok False)
           else if isNonterminal (tm_status meta)
           then (reg, Err ''nonterminal task status follows terminal task status'')
           else if ta_status terminal \<noteq> tm_status meta
           then (reg, Err (statusChanged (ta_status terminal) (tm_status meta)))
           else (reg, Ok True))
      | (None, None) \<Rightarrow>
          (if fence_contains (dr_persistentFences reg) tombstoneTask (taskTombstoneKey (tm_id meta)) then
             (case validateFinalizedTaskStatus reg (tm_id meta) (tm_status meta) of
                Inl e \<Rightarrow> (reg, Err e)
              | Inr _ \<Rightarrow>
                  (reg\<lparr>dr_finalizedTaskStatuses :=
                     mput (dr_finalizedTaskStatuses reg) (tm_id meta) (tm_status meta)\<rparr>, Ok True))
           else (reg, Ok False)))"

definition finalizeTaskRecord ::
  "directionRegistry \<Rightarrow> bytes \<Rightarrow> taskRecord \<Rightarrow> taskRecord option \<Rightarrow> directionRegistry \<times> bool result" where
  "finalizeTaskRecord reg taskID task terminal =
     (case addFences reg (TKey tombstoneTask (taskTombstoneKey taskID) # tokenEntries (ta_progressToken task)) of
        (r1, Inl e) \<Rightarrow> (r1, Err e)
      | (r1, Inr _) \<Rightarrow>
          (let r2 = (case terminal of
                 None \<Rightarrow> r1
               | Some t \<Rightarrow> r1\<lparr>dr_finalizedTaskStatuses := mput (dr_finalizedTaskStatuses r1) taskID (ta_status t)\<rparr>)
           in (removeTokenKey
                 (r2\<lparr>dr_tasks := mdel (dr_tasks r2) taskID, dr_terminalTasks := mdel (dr_terminalTasks r2) taskID\<rparr>)
                 (ta_progressToken task), Ok True)))"

definition finalizeTask :: "directionRegistry \<Rightarrow> bytes \<Rightarrow> nat \<Rightarrow> directionRegistry \<times> bool result" where
  "finalizeTask reg taskID generation =
     (let active = mget (dr_tasks reg) taskID;
          terminal = mget (dr_terminalTasks reg) taskID
      in if active \<noteq> None \<and> terminal \<noteq> None
         then (reg, Err ''taskId belongs to active and terminal tasks'')
         else if mhas (dr_retiredTasks reg) taskID
         then (reg, Err ''taskId belongs to current and retired task state'')
         else case (case active of Some t \<Rightarrow> Some t | None \<Rightarrow> terminal) of
             None \<Rightarrow>
               (reg, Ok (fence_contains (dr_persistentFences reg) tombstoneTask (taskTombstoneKey taskID)))
           | Some task \<Rightarrow>
               (if ta_generation task \<noteq> generation then (reg, Ok False)
                else finalizeTaskRecord reg taskID task terminal))"

definition bindsTask :: "requestRecord \<Rightarrow> parsedFrame \<Rightarrow> bool \<Rightarrow> taskMeta option" where
  "bindsTask record response operation =
     (if \<not> operation \<and> rr_taskAugmented record \<and> fr_kind response = frameResult
      then (case fr_taskResult response of
              None \<Rightarrow> None
            | Some meta \<Rightarrow> if tm_status meta = ''working'' then Some meta else None)
      else None)"

definition boundTask :: "requestRecord \<Rightarrow> taskMeta \<Rightarrow> taskRecord" where
  "boundTask record meta =
     \<lparr>ta_id = tm_id meta, ta_requestID = rr_key record, ta_generation = rr_generation record,
      ta_progressToken = rr_token record, ta_status = tm_status meta\<rparr>"

definition completeOperation ::
  "directionRegistry \<Rightarrow> requestRecord \<Rightarrow> taskMeta option \<Rightarrow> directionRegistry \<times> unit result" where
  "completeOperation reg record operationMeta =
     (case operationMeta of
        None \<Rightarrow> (reg, Ok ())
      | Some meta \<Rightarrow>
          (case (if rr_method record = ''tasks/result''
                 then finalizeTask reg (rr_taskID record) (rr_generation record)
                 else updateTask reg meta (rr_generation record)) of
             (r1, Inl e) \<Rightarrow> (r1, Err e)
           | (r1, Inr handled) \<Rightarrow> if handled then (r1, Ok ()) else (r1, Err ''unknown taskId'')))"

definition complete :: "directionRegistry \<Rightarrow> requestRecord \<Rightarrow> parsedFrame \<Rightarrow> directionRegistry \<times> unit result" where
  "complete reg record response =
     (case taskOperationResponse record response of
        (_, _, Some e) \<Rightarrow> (reg, Err e)
      | (operationMeta, operation, None) \<Rightarrow>
          (let bind = bindsTask record response operation
           in case fenceRequest reg record (bind = None) of
                (r1, Inl e) \<Rightarrow> (r1, Err e)
              | (r1, Inr _) \<Rightarrow>
                  (case (if operation then completeOperation r1 record operationMeta else (r1, Ok ())) of
                     (r2, Inl e) \<Rightarrow> (r2, Err e)
                   | (r2, Inr _) \<Rightarrow>
                       (let r3 = r2\<lparr>dr_requests := mdel (dr_requests r2) (rr_key record)\<rparr>
                        in if operation then (removeToken r3 record, Ok ())
                           else case bind of
                               Some meta \<Rightarrow>
                                 (r3\<lparr>dr_tasks := mput (dr_tasks r3) (tm_id meta) (boundTask record meta)\<rparr>, Ok ())
                             | None \<Rightarrow> (removeToken r3 record, Ok ())))))"

definition cancel :: "directionRegistry \<Rightarrow> requestRecord \<Rightarrow> directionRegistry \<times> unit result" where
  "cancel reg record =
     (case fenceRequest reg record True of
        (r1, Inl e) \<Rightarrow> (r1, Err e)
      | (r1, Inr _) \<Rightarrow>
          (removeToken (r1\<lparr>dr_requests := mdel (dr_requests r1) (rr_key record)\<rparr>) record, Ok ()))"

definition acceptProgress :: "directionRegistry \<Rightarrow> progressMeta \<Rightarrow> nat \<Rightarrow> directionRegistry \<times> bool" where
  "acceptProgress reg meta generation =
     (case mget (dr_tokens reg) (sv_key (pm_token meta)) of
        None \<Rightarrow> (reg, False)
      | Some token \<Rightarrow>
          (if to_generation token \<noteq> generation then (reg, False)
           else if to_hasLast token \<and> compareCanonicalNumbers (pm_progress meta) (to_last token) \<le> 0
           then (reg, False)
           else (reg\<lparr>dr_tokens := mput (dr_tokens reg) (sv_key (pm_token meta))
                   (token\<lparr>to_last := pm_progress meta, to_hasLast := True\<rparr>)\<rparr>, True)))"

section \<open>Retiring a generation\<close>

definition retireRequest :: "directionRegistry \<Rightarrow> requestRecord \<Rightarrow> directionRegistry" where
  "retireRequest reg record =
     (let r1 = reg\<lparr>dr_requests := mdel (dr_requests reg) (rr_key record),
            dr_retiredRequests := mput (dr_retiredRequests reg) (rr_key record) record\<rparr>
      in case rr_token record of
           None \<Rightarrow> r1
         | Some token \<Rightarrow>
             r1\<lparr>dr_tokens := mdel (dr_tokens r1) token, dr_retiredTokens := mput (dr_retiredTokens r1) token ()\<rparr>)"

definition retireTask :: "directionRegistry \<Rightarrow> bytes \<times> taskRecord \<Rightarrow> directionRegistry" where
  "retireTask reg = (\<lambda>(i, task).
     (let r1 = reg\<lparr>dr_tasks := mdel (dr_tasks reg) i, dr_retiredTasks := mput (dr_retiredTasks reg) i task\<rparr>
      in case ta_progressToken task of
           None \<Rightarrow> r1
         | Some token \<Rightarrow>
             r1\<lparr>dr_tokens := mdel (dr_tokens r1) token, dr_retiredTokens := mput (dr_retiredTokens r1) token ()\<rparr>))"

definition finalizeTerminal :: "directionRegistry \<Rightarrow> bytes \<times> taskRecord \<Rightarrow> directionRegistry" where
  "finalizeTerminal reg = (\<lambda>(i, task).
     reg\<lparr>dr_finalizedTaskStatuses := mput (dr_finalizedTaskStatuses reg) i (ta_status task),
         dr_terminalTasks := mdel (dr_terminalTasks reg) i\<rparr>)"

definition retireLimits :: "directionRegistry \<Rightarrow> unit result" where
  "retireLimits reg =
     (if mlen (dr_requests reg) + mlen (dr_retiredRequests reg) > retainedCorrelationLimit
      then Err ''request correlation retention limit exceeded''
      else if mlen (dr_tokens reg) + mlen (dr_retiredTokens reg) > retainedCorrelationLimit
      then Err ''progress token correlation retention limit exceeded''
      else if mlen (dr_tasks reg) + mlen (dr_terminalTasks reg) + mlen (dr_retiredTasks reg) > retainedCorrelationLimit
      then Err ''task correlation retention limit exceeded''
      else if mlen (dr_terminalTasks reg) > terminalTaskLimit
      then Err ''terminal task retention limit exceeded''
      else Ok ())"

definition generationRequests :: "directionRegistry \<Rightarrow> nat \<Rightarrow> requestRecord list" where
  "generationRequests reg generation = filter (\<lambda>r. rr_generation r = generation) (map snd (dr_requests reg))"

definition generationTasks :: "(bytes, taskRecord) gomap \<Rightarrow> nat \<Rightarrow> (bytes \<times> taskRecord) list" where
  "generationTasks m generation = filter (\<lambda>(_, t). ta_generation t = generation) m"

text \<open>The checks of the three loops that collect the fence entries, each in iteration order.\<close>

definition requestCollision :: "directionRegistry \<Rightarrow> nat \<Rightarrow> bool" where
  "requestCollision reg generation =
     list_ex (\<lambda>r. mhas (dr_retiredRequests reg) (rr_key r)) (generationRequests reg generation)"

definition taskProblem :: "directionRegistry \<Rightarrow> bytes \<Rightarrow> bytes option" where
  "taskProblem reg i =
     (if mhas (dr_retiredTasks reg) i then Some ''taskId belongs to active and retired generations''
      else if mhas (dr_terminalTasks reg) i then Some ''taskId belongs to active and terminal tasks''
      else None)"

definition terminalProblem :: "directionRegistry \<Rightarrow> bytes \<Rightarrow> bytes option" where
  "terminalProblem reg i =
     (if mhas (dr_tasks reg) i then Some ''taskId belongs to active and terminal tasks''
      else if mhas (dr_retiredTasks reg) i then Some ''taskId belongs to terminal and retired tasks''
      else if fencedKey reg tombstoneTask (taskTombstoneKey i) then Some ''terminal taskId is already fenced''
      else None)"

fun firstProblem :: "(bytes \<Rightarrow> bytes option) \<Rightarrow> (bytes \<times> taskRecord) list \<Rightarrow> bytes option" where
  "firstProblem f [] = None"
| "firstProblem f ((i, _) # ts) = (case f i of Some e \<Rightarrow> Some e | None \<Rightarrow> firstProblem f ts)"

definition retireEntries :: "directionRegistry \<Rightarrow> nat \<Rightarrow> tombstoneKey list" where
  "retireEntries reg generation =
     map (\<lambda>(_, t). TKey tombstoneRequest (ta_requestID t)) (generationTasks (dr_tasks reg) generation) @
     concat (map (\<lambda>(i, t). TKey tombstoneTask (taskTombstoneKey i) # tokenEntries (ta_progressToken t))
       (generationTasks (dr_terminalTasks reg) generation))"

definition retireChecks :: "directionRegistry \<Rightarrow> nat \<Rightarrow> unit result" where
  "retireChecks reg generation =
     (case retireLimits reg of
        Inl e \<Rightarrow> Err e
      | Inr _ \<Rightarrow>
          (if requestCollision reg generation
           then Err ''request id belongs to active and retired generations''
           else case firstProblem (taskProblem reg) (generationTasks (dr_tasks reg) generation) of
               Some e \<Rightarrow> Err e
             | None \<Rightarrow>
                 (case firstProblem (terminalProblem reg) (generationTasks (dr_terminalTasks reg) generation) of
                    Some e \<Rightarrow> Err e
                  | None \<Rightarrow> Ok ())))"

definition retireAll :: "directionRegistry \<Rightarrow> nat \<Rightarrow> directionRegistry" where
  "retireAll reg generation =
     foldl finalizeTerminal
       (foldl retireTask
          (foldl retireRequest reg (generationRequests reg generation))
          (generationTasks (dr_tasks reg) generation))
       (generationTasks (dr_terminalTasks reg) generation)"

definition lostRequests :: "directionRegistry \<Rightarrow> nat \<Rightarrow> requestRecord list" where
  "lostRequests reg generation =
     sort_key rr_key (filter (\<lambda>r. \<not> rr_initialize r) (generationRequests reg generation))"

definition retireGenerationChecked ::
  "directionRegistry \<Rightarrow> nat \<Rightarrow> directionRegistry \<times> requestRecord list result" where
  "retireGenerationChecked reg generation =
     (case retireChecks reg generation of
        Inl e \<Rightarrow> (reg, Err e)
      | Inr _ \<Rightarrow>
          (case addFences reg (retireEntries reg generation) of
             (r1, Inl e) \<Rightarrow> (r1, Err e)
           | (r1, Inr _) \<Rightarrow> (retireAll r1 generation, Ok (lostRequests reg generation))))"

definition retireGeneration :: "directionRegistry \<Rightarrow> nat \<Rightarrow> directionRegistry \<times> requestRecord list" where
  "retireGeneration reg generation =
     (case retireGenerationChecked reg generation of
        (r, Inl _) \<Rightarrow> (r, [])
      | (r, Inr lost) \<Rightarrow> (r, lost))"

section \<open>Late answers to retired generations\<close>

definition dropRetired :: "directionRegistry \<Rightarrow> scalarKey \<Rightarrow> scalarKey option \<Rightarrow> directionRegistry" where
  "dropRetired reg key token =
     (let r1 = reg\<lparr>dr_retiredRequests := mdel (dr_retiredRequests reg) key\<rparr>
      in case token of
           None \<Rightarrow> r1
         | Some t \<Rightarrow> r1\<lparr>dr_retiredTokens := mdel (dr_retiredTokens r1) t\<rparr>)"

definition releaseRetiredRequest :: "directionRegistry \<Rightarrow> requestRecord \<Rightarrow> directionRegistry \<times> unit result" where
  "releaseRetiredRequest reg record =
     (case fenceRequest reg record True of
        (r1, Inl e) \<Rightarrow> (r1, Err e)
      | (r1, Inr _) \<Rightarrow> (dropRetired r1 (rr_key record) (rr_token record), Ok ()))"

definition retiredTaskForOperation :: "directionRegistry \<Rightarrow> requestRecord \<Rightarrow> (taskRecord option) result" where
  "retiredTaskForOperation reg record =
     (let taskKey = taskTombstoneKey (rr_taskID record);
          active = mhas (dr_tasks reg) (rr_taskID record);
          terminal = mhas (dr_terminalTasks reg) (rr_taskID record);
          fenced = fence_contains (dr_persistentFences reg) tombstoneTask taskKey;
          transitioned = tombstone_contains (dr_tombstones reg) tombstoneTask taskKey
      in case mget (dr_retiredTasks reg) (rr_taskID record) of
           None \<Rightarrow>
             (if active \<or> terminal \<or> transitioned
              then Err ''retired task operation collides with current taskId state''
              else if fenced then Ok None
              else Err ''retired task operation references unknown taskId'')
         | Some task \<Rightarrow>
             (if active \<or> terminal \<or> fenced \<or> transitioned
              then Err ''retired task operation has ambiguous taskId state''
              else Ok (Some task)))"

definition dropRetiredTask :: "directionRegistry \<Rightarrow> bytes \<Rightarrow> scalarKey option \<Rightarrow> directionRegistry" where
  "dropRetiredTask reg i token =
     (let r1 = reg\<lparr>dr_retiredTasks := mdel (dr_retiredTasks reg) i\<rparr>
      in case token of
           None \<Rightarrow> r1
         | Some t \<Rightarrow> r1\<lparr>dr_retiredTokens := mdel (dr_retiredTokens r1) t\<rparr>)"

definition releaseRetiredTaskOperation ::
  "directionRegistry \<Rightarrow> requestRecord \<Rightarrow> taskRecord \<Rightarrow> bytes \<Rightarrow> directionRegistry \<times> unit result" where
  "releaseRetiredTaskOperation reg record task finalizedStatus =
     (case addFences reg
             ([TKey tombstoneRequest (rr_key record), TKey tombstoneTask (taskTombstoneKey (ta_id task))] @
              tokenEntries (rr_token record) @ tokenEntries (ta_progressToken task)) of
        (r1, Inl e) \<Rightarrow> (r1, Err e)
      | (r1, Inr _) \<Rightarrow>
          (let r2 = (if finalizedStatus = [] then r1
                     else r1\<lparr>dr_finalizedTaskStatuses :=
                            mput (dr_finalizedTaskStatuses r1) (ta_id task) finalizedStatus\<rparr>)
           in (dropRetiredTask (dropRetired r2 (rr_key record) (rr_token record)) (ta_id task)
                 (ta_progressToken task), Ok ())))"

text \<open>What an operation reports: the error of a step, or that the frame was handled.\<close>

definition handledBy :: "directionRegistry \<times> unit result \<Rightarrow> directionRegistry \<times> bool result" where
  "handledBy p = (case p of (r, Inl e) \<Rightarrow> (r, Err e) | (r, Inr _) \<Rightarrow> (r, Ok True))"

definition consumeRetiredOperation ::
  "directionRegistry \<Rightarrow> requestRecord \<Rightarrow> taskMeta option \<Rightarrow> directionRegistry \<times> bool result" where
  "consumeRetiredOperation reg record operationMeta =
     (case retiredTaskForOperation reg record of
        Inl e \<Rightarrow> (reg, Err e)
      | Inr retired \<Rightarrow>
          (case operationMeta of
             None \<Rightarrow> handledBy (releaseRetiredRequest reg record)
           | Some meta \<Rightarrow>
               (case retired of
                  None \<Rightarrow>
                    (if isNonterminal (tm_status meta)
                     then (reg, Err ''nonterminal task operation response follows terminal task status'')
                     else if rr_method record = ''tasks/result''
                     then handledBy (releaseRetiredRequest reg record)
                     else case validateFinalizedTaskStatus reg (rr_taskID record) (tm_status meta) of
                         Inl e \<Rightarrow> (reg, Err e)
                       | Inr _ \<Rightarrow>
                           handledBy (releaseRetiredRequest
                             (reg\<lparr>dr_finalizedTaskStatuses :=
                                mput (dr_finalizedTaskStatuses reg) (rr_taskID record) (tm_status meta)\<rparr>) record))
                | Some task \<Rightarrow>
                    (if isNonterminal (tm_status meta) then
                       (case releaseRetiredRequest reg record of
                          (r1, Inl e) \<Rightarrow> (r1, Err e)
                        | (r1, Inr _) \<Rightarrow>
                            (r1\<lparr>dr_retiredTasks :=
                               mput (dr_retiredTasks r1) (rr_taskID record) (task\<lparr>ta_status := tm_status meta\<rparr>)\<rparr>,
                             Ok True))
                     else
                       handledBy (releaseRetiredTaskOperation reg record task
                         (if rr_method record = ''tasks/result'' then [] else tm_status meta))))))"

definition consumeRetiredCreate ::
  "directionRegistry \<Rightarrow> requestRecord \<Rightarrow> parsedFrame \<Rightarrow> directionRegistry \<times> bool result" where
  "consumeRetiredCreate reg record response =
     (case fr_utilityErr response of
        Some e \<Rightarrow> (reg, Err (''retired CreateTaskResult: '' @ e))
      | None \<Rightarrow>
          (case (if fr_kind response = frameResult then fr_taskResult response else None) of
             None \<Rightarrow> (reg, Err ''retired task-augmented request requires CreateTaskResult'')
           | Some meta \<Rightarrow>
               (if tm_status meta \<noteq> ''working''
                then (reg, Err ''retired CreateTaskResult status must be working'')
                else case canBindTask reg (tm_id meta) of
                    Inl e \<Rightarrow> (reg, Err (''retired CreateTaskResult: '' @ e))
                  | Inr _ \<Rightarrow>
                      (case fence_add (dr_persistentFences reg) tombstoneRequest (rr_key record) of
                         (f, Inl e) \<Rightarrow> (reg\<lparr>dr_persistentFences := f\<rparr>, Err e)
                       | (f, Inr _) \<Rightarrow>
                           (reg\<lparr>dr_persistentFences := f,
                                dr_retiredRequests := mdel (dr_retiredRequests reg) (rr_key record),
                                dr_retiredTasks := mput (dr_retiredTasks reg) (tm_id meta) (boundTask record meta)\<rparr>,
                            Ok True)))))"

definition consumeRetiredResponse :: "directionRegistry \<Rightarrow> parsedFrame \<Rightarrow> directionRegistry \<times> bool result" where
  "consumeRetiredResponse reg response =
     (case Option.bind (fr_id response) (\<lambda>i. mget (dr_retiredRequests reg) (sv_key i)) of
        None \<Rightarrow> (reg, Ok False)
      | Some record \<Rightarrow>
          (case taskOperationResponse record response of
             (meta, True, err) \<Rightarrow>
               (case err of Some e \<Rightarrow> (reg, Err e) | None \<Rightarrow> consumeRetiredOperation reg record meta)
           | (_, False, _) \<Rightarrow>
               (if \<not> rr_taskAugmented record \<or> fr_kind response = frameError
                then handledBy (releaseRetiredRequest reg record)
                else consumeRetiredCreate reg record response)))"

definition consumeRetiredTaskStatus :: "directionRegistry \<Rightarrow> taskMeta \<Rightarrow> directionRegistry \<times> bool result" where
  "consumeRetiredTaskStatus reg meta =
     (let i = tm_id meta; taskKey = taskTombstoneKey i
      in case mget (dr_retiredTasks reg) i of
           None \<Rightarrow>
             (if \<not> fence_contains (dr_persistentFences reg) tombstoneTask taskKey then (reg, Ok False)
              else if mhas (dr_tasks reg) i
              then (reg, Err ''taskId belongs to an active task and a persistent fence'')
              else if mhas (dr_terminalTasks reg) i
              then (reg, Err ''taskId belongs to a terminal task and a persistent fence'')
              else case validateFinalizedTaskStatus reg i (tm_status meta) of
                  Inl e \<Rightarrow> (reg, Err e)
                | Inr _ \<Rightarrow>
                    (reg\<lparr>dr_finalizedTaskStatuses := mput (dr_finalizedTaskStatuses reg) i (tm_status meta)\<rparr>, Ok True))
         | Some task \<Rightarrow>
             (if mhas (dr_tasks reg) i then (reg, Err ''taskId belongs to active and retired generations'')
              else if mhas (dr_terminalTasks reg) i
              then (reg, Err ''taskId belongs to terminal and retired generations'')
              else if fencedKey reg tombstoneTask taskKey then (reg, Err ''retired taskId is also fenced'')
              else if isNonterminal (tm_status meta)
              then (reg\<lparr>dr_retiredTasks := mput (dr_retiredTasks reg) i (task\<lparr>ta_status := tm_status meta\<rparr>)\<rparr>, Ok True)
              else
                (case addFences reg (TKey tombstoneTask taskKey # tokenEntries (ta_progressToken task)) of
                   (r1, Inl e) \<Rightarrow> (r1, Err e)
                 | (r1, Inr _) \<Rightarrow>
                     (dropRetiredTask
                        (r1\<lparr>dr_finalizedTaskStatuses := mput (dr_finalizedTaskStatuses r1) i (tm_status meta)\<rparr>)
                        i (ta_progressToken task), Ok True))))"

definition clearTransitionTombstones :: "directionRegistry \<Rightarrow> directionRegistry" where
  "clearTransitionTombstones reg = reg\<lparr>dr_tombstones := tombstone_clear (dr_tombstones reg)\<rparr>"

definition clearRetiredCorrelations :: "directionRegistry \<Rightarrow> directionRegistry" where
  "clearRetiredCorrelations reg =
     reg\<lparr>dr_retiredRequests := [], dr_retiredTokens := [], dr_retiredTasks := [],
         dr_finalizedTaskStatuses := [], dr_persistentFences := fence_clear (dr_persistentFences reg)\<rparr>"

definition localErrorFrame :: "bytes \<Rightarrow> int \<Rightarrow> bytes \<Rightarrow> bytes" where
  "localErrorFrame i code message =
     ''{'' @ dq ''jsonrpc'' @ '':'' @ dq ''2.0'' @ '','' @ dq ''id'' @ '':'' @
     (if i = [] then ''null'' else i) @
     '','' @ dq ''error'' @ '':{'' @ dq ''code'' @ '':'' @ intDec code @ '','' @ dq ''message'' @ '':'' @
     goQuote message @ ''}}''"


section \<open>Capabilities in the initialize exchange\<close>

text \<open>Following a path of object members; \<open>None\<close> when a step is missing or not an object.\<close>

definition objectField :: "bytes \<Rightarrow> bytes \<Rightarrow> bytes option" where
  "objectField raw name = (case decodeObject raw of Inl _ \<Rightarrow> None | Inr flds \<Rightarrow> mget flds name)"

definition taskRequestSupported :: "bytes \<Rightarrow> bool \<Rightarrow> bytes \<Rightarrow> bool" where
  "taskRequestSupported initialize response method =
     (case parseFrame initialize 0 of
        Inl _ \<Rightarrow> False
      | Inr frame \<Rightarrow>
          (if (if response then fr_kind frame \<noteq> frameResult
               else fr_kind frame \<noteq> frameRequest \<or> fr_method frame \<noteq> ''initialize'')
           then False
           else
             (let root = (if response then fr_result frame else fr_params frame)
              in case Option.bind (objectField root ''capabilities'') (\<lambda>c.
                        Option.bind (objectField c ''tasks'') (\<lambda>t. objectField t ''requests'')) of
                   None \<Rightarrow> False
                 | Some requestsRaw \<Rightarrow>
                     (case (decodeObject requestsRaw, cutByte (CHR ''/'') method) of
                        (Inr requests, Some (categoryName, requestName)) \<Rightarrow>
                          (if categoryName = [] \<or> requestName = [] \<or> CHR ''/'' \<in> set requestName then False
                           else case Option.bind (mget requests categoryName) (\<lambda>c. objectField c requestName) of
                               None \<Rightarrow> False
                             | Some capability \<Rightarrow>
                                 (case decodeObject capability of Inl _ \<Rightarrow> False | Inr _ \<Rightarrow> True))
                      | _ \<Rightarrow> False))))"

datatype ListChangedKind = ListChangedTools | ListChangedPrompts | ListChangedResources

definition capabilityName :: "ListChangedKind \<Rightarrow> bytes" where
  "capabilityName kind =
     (case kind of
        ListChangedTools \<Rightarrow> ''tools'' | ListChangedPrompts \<Rightarrow> ''prompts'' | ListChangedResources \<Rightarrow> ''resources'')"

definition supportsListChanged :: "bytes \<Rightarrow> ListChangedKind \<Rightarrow> bool" where
  "supportsListChanged initializeResponse kind =
     (case parseFrame initializeResponse 0 of
        Inl _ \<Rightarrow> False
      | Inr frame \<Rightarrow>
          (if fr_kind frame \<noteq> frameResult then False
           else case Option.bind (objectField (fr_result frame) ''capabilities'') (\<lambda>c.
                       Option.bind (objectField c (capabilityName kind)) (\<lambda>k. objectField k ''listChanged'')) of
               None \<Rightarrow> False
             | Some listChangedRaw \<Rightarrow> trimSpace listChangedRaw = ''true''))"

definition listChangedFrame :: "ListChangedKind \<Rightarrow> bytes" where
  "listChangedFrame kind = notificationFrame (''notifications/'' @ capabilityName kind @ ''/list_changed'')"

end
