(* ===== verification/Registry.thy ===== *)
theory Registry
  imports Correlation
begin

text \<open>
  What the correlation registry guarantees: an invariant with the bounds and the separation of
  active, terminal, retired and fenced correlations, kept by every operation in the way the router
  uses them; ids that are finished stay refused; progress only grows; and the exact effect of
  retiring a generation.
\<close>

section \<open>The invariant\<close>

definition maps_inv :: "directionRegistry \<Rightarrow> bool" where
  "maps_inv reg \<longleftrightarrow>
     minv (dr_requests reg) \<and> minv (dr_tokens reg) \<and> minv (dr_tasks reg) \<and> minv (dr_terminalTasks reg) \<and>
     minv (dr_retiredRequests reg) \<and> minv (dr_retiredTokens reg) \<and> minv (dr_retiredTasks reg) \<and>
     ring_inv (dr_tombstones reg) \<and> fence_inv (dr_persistentFences reg)"

text \<open>Requests are filed under their own id, and an id is not both active and retired.\<close>

definition requests_inv :: "directionRegistry \<Rightarrow> bool" where
  "requests_inv reg \<longleftrightarrow>
     (\<forall>k r. mget (dr_requests reg) k = Some r \<longrightarrow> rr_key r = k) \<and>
     (\<forall>k r. mget (dr_retiredRequests reg) k = Some r \<longrightarrow> rr_key r = k) \<and>
     (\<forall>k. mhas (dr_requests reg) k \<longrightarrow> \<not> mhas (dr_retiredRequests reg) k)"

text \<open>
  Tasks are filed under their own id, and a task id is at most one of active, terminal, retired
  and finished; the transition tombstones never hold a task.
\<close>

definition taskFenced :: "directionRegistry \<Rightarrow> bytes \<Rightarrow> bool" where
  "taskFenced reg i = fence_contains (dr_persistentFences reg) tombstoneTask (taskTombstoneKey i)"

definition tasks_inv :: "directionRegistry \<Rightarrow> bool" where
  "tasks_inv reg \<longleftrightarrow>
     (\<forall>i t. mget (dr_tasks reg) i = Some t \<longrightarrow> ta_id t = i) \<and>
     (\<forall>i t. mget (dr_terminalTasks reg) i = Some t \<longrightarrow> ta_id t = i) \<and>
     (\<forall>i t. mget (dr_retiredTasks reg) i = Some t \<longrightarrow> ta_id t = i) \<and>
     (\<forall>i. mhas (dr_tasks reg) i \<longrightarrow>
        \<not> mhas (dr_terminalTasks reg) i \<and> \<not> mhas (dr_retiredTasks reg) i \<and> \<not> taskFenced reg i) \<and>
     (\<forall>i. mhas (dr_terminalTasks reg) i \<longrightarrow> \<not> mhas (dr_retiredTasks reg) i \<and> \<not> taskFenced reg i) \<and>
     (\<forall>i. mhas (dr_retiredTasks reg) i \<longrightarrow> \<not> taskFenced reg i) \<and>
     (\<forall>k. \<not> tombstone_contains (dr_tombstones reg) tombstoneTask k)"

definition limits_inv :: "directionRegistry \<Rightarrow> bool" where
  "limits_inv reg \<longleftrightarrow>
     mlen (dr_requests reg) + mlen (dr_tasks reg) \<le> activeCorrelationLimit \<and>
     mlen (dr_requests reg) + mlen (dr_retiredRequests reg) \<le> retainedCorrelationLimit \<and>
     mlen (dr_tasks reg) + mlen (dr_terminalTasks reg) + mlen (dr_retiredTasks reg) \<le> retainedCorrelationLimit \<and>
     mlen (dr_terminalTasks reg) \<le> terminalTaskLimit"

definition reg_inv :: "directionRegistry \<Rightarrow> bool" where
  "reg_inv reg \<longleftrightarrow> maps_inv reg \<and> requests_inv reg \<and> tasks_inv reg \<and> limits_inv reg"

lemmas reg_inv_defs = reg_inv_def maps_inv_def requests_inv_def tasks_inv_def limits_inv_def taskFenced_def

lemma reg_inv_new: "reg_inv newDirectionRegistry"
  by (auto simp: reg_inv_defs newDirectionRegistry_def ring_empty fence_contains_def emptyFence_def
      tombstone_contains_def emptyTombstones_def fence_inv_def)
    (simp_all add: ring_inv_def tombstoneLimit_def)

section \<open>Elementary updates\<close>

text \<open>The invariant does not mention the contents of the token maps and the finalized statuses.\<close>

lemma inv_tokens [intro]: "reg_inv reg \<Longrightarrow> minv m \<Longrightarrow> reg_inv (reg\<lparr>dr_tokens := m\<rparr>)"
  by (simp add: reg_inv_defs)

lemma inv_retiredTokens [intro]: "reg_inv reg \<Longrightarrow> minv m \<Longrightarrow> reg_inv (reg\<lparr>dr_retiredTokens := m\<rparr>)"
  by (simp add: reg_inv_defs)

lemma inv_finalized [simp]: "reg_inv (reg\<lparr>dr_finalizedTaskStatuses := m\<rparr>) = reg_inv reg"
  by (simp add: reg_inv_defs)

lemma inv_fences:
  "reg_inv reg \<Longrightarrow> fence_inv f \<Longrightarrow>
     (\<And>k. fence_contains f tombstoneTask k \<Longrightarrow> fence_contains (dr_persistentFences reg) tombstoneTask k) \<Longrightarrow>
     reg_inv (reg\<lparr>dr_persistentFences := f\<rparr>)"
  unfolding reg_inv_defs by simp blast

lemma inv_tombstones:
  "reg_inv reg \<Longrightarrow> ring_inv ts \<Longrightarrow> (\<And>k. \<not> tombstone_contains ts tombstoneTask k) \<Longrightarrow>
     reg_inv (reg\<lparr>dr_tombstones := ts\<rparr>)"
  by (simp add: reg_inv_defs)

lemma inv_minv:
  assumes "reg_inv reg"
  shows "minv (dr_requests reg)" "minv (dr_tokens reg)" "minv (dr_tasks reg)" "minv (dr_terminalTasks reg)"
    "minv (dr_retiredRequests reg)" "minv (dr_retiredTokens reg)" "minv (dr_retiredTasks reg)"
    "ring_inv (dr_tombstones reg)" "fence_inv (dr_persistentFences reg)"
  using assms by (simp_all add: reg_inv_def maps_inv_def)

lemma inv_del_request: "reg_inv reg \<Longrightarrow> reg_inv (reg\<lparr>dr_requests := mdel (dr_requests reg) k\<rparr>)"
  using inv_minv(1) [of reg] by (auto simp: reg_inv_defs mlen_mdel split: if_splits)

lemma inv_del_retiredRequest:
  "reg_inv reg \<Longrightarrow> reg_inv (reg\<lparr>dr_retiredRequests := mdel (dr_retiredRequests reg) k\<rparr>)"
  using inv_minv(5) [of reg] by (auto simp: reg_inv_defs mlen_mdel split: if_splits)

lemma inv_del_retiredTask:
  "reg_inv reg \<Longrightarrow> reg_inv (reg\<lparr>dr_retiredTasks := mdel (dr_retiredTasks reg) i\<rparr>)"
  using inv_minv(7) [of reg] by (auto simp: reg_inv_defs mlen_mdel split: if_splits)

lemma inv_removeTokenKey [intro]: "reg_inv reg \<Longrightarrow> reg_inv (removeTokenKey reg token)"
  using inv_minv(2) [of reg] by (auto simp: removeTokenKey_def split: option.split)

lemma inv_removeToken [intro]: "reg_inv reg \<Longrightarrow> reg_inv (removeToken reg record)"
  by (simp add: removeToken_def inv_removeTokenKey)

section \<open>The memories\<close>

text \<open>Keys that finish a request: a request id or a progress token, never a task.\<close>

lemma addTombstone_inv:
  assumes "reg_inv reg" and "role \<noteq> tombstoneTask"
  shows "reg_inv (addTombstone reg role key)"
proof -
  have ring: "ring_inv (dr_tombstones reg)"
    using assms(1) by (rule inv_minv)
  have none: "\<not> tombstone_contains (dr_tombstones reg) tombstoneTask k" for k
    using assms(1) by (simp add: reg_inv_def tasks_inv_def)
  have "\<not> tombstone_contains (tombstone_add (dr_tombstones reg) role key) tombstoneTask k" for k
    using ring_add [OF ring, of role key] none [of k] assms(2)
    by (auto simp: ring_contains ring recent_add_def dest: in_set_takeD split: if_splits)
  then show ?thesis
    unfolding addTombstone_def using assms(1) ring_add [OF ring, of role key] by (intro inv_tombstones) auto
qed

lemma addFences_form:
  assumes "reg_inv reg" and "addFences reg es = (r, res)"
  shows "\<exists>f. r = reg\<lparr>dr_persistentFences := f\<rparr> \<and> fence_inv f \<and>
    (if res = Ok ()
     then \<forall>role k. fence_contains f role k \<longleftrightarrow> fence_contains (dr_persistentFences reg) role k \<or> TKey role k \<in> set es
     else f = dr_persistentFences reg)"
  using assms fence_addMany_spec [OF inv_minv(9) [OF assms(1)], of es]
  by (auto simp: addFences_def split: prod.splits)

lemma addFences_Err: "reg_inv reg \<Longrightarrow> addFences reg es = (r, Err e) \<Longrightarrow> r = reg"
  using addFences_form [of reg es r "Err e"] by auto

lemma addFences_inv:
  assumes inv: "reg_inv reg" and add: "addFences reg es = (r, res)"
    and es: "\<And>e. e \<in> set es \<Longrightarrow> trole e \<noteq> tombstoneTask"
  shows "reg_inv r"
proof -
  obtain f where f: "r = reg\<lparr>dr_persistentFences := f\<rparr>" "fence_inv f"
    and c: "if res = Ok ()
     then \<forall>role k. fence_contains f role k \<longleftrightarrow> fence_contains (dr_persistentFences reg) role k \<or> TKey role k \<in> set es
     else f = dr_persistentFences reg"
    using addFences_form [OF inv add] by blast
  have "fence_contains (dr_persistentFences reg) tombstoneTask k" if "fence_contains f tombstoneTask k" for k
    using that c es [of "TKey tombstoneTask k"] by (auto split: if_splits)
  then show ?thesis
    unfolding f(1) by (intro inv_fences inv f(2))
qed

lemma tokenEntries_role: "e \<in> set (tokenEntries t) \<Longrightarrow> trole e = tombstoneToken"
  by (auto simp: tokenEntries_def split: option.splits)

text \<open>Fencing a request leaves all maps alone; when it succeeds the id is known.\<close>

lemma fenceRequest_inv:
  assumes "reg_inv reg" and "fenceRequest reg record b = (r, res)"
  shows "reg_inv r"
proof (cases "taskRelated record")
  case True
  then have "addFences reg (TKey tombstoneRequest (rr_key record) # (if b then tokenEntries (rr_token record) else [])) = (r, res)"
    using assms(2) by (simp add: fenceRequest_def)
  then show ?thesis
    by (rule addFences_inv [OF assms(1)]) (auto dest: tokenEntries_role split: if_splits)
next
  case False
  then show ?thesis
    using assms by (auto simp: fenceRequest_def Let_def intro!: addTombstone_inv split: option.splits if_splits)
qed

lemma fenceRequest_simps:
  assumes "fenceRequest reg record b = (r, res)"
  shows "dr_requests r = dr_requests reg" "dr_tokens r = dr_tokens reg" "dr_tasks r = dr_tasks reg"
    "dr_terminalTasks r = dr_terminalTasks reg" "dr_retiredRequests r = dr_retiredRequests reg"
    "dr_retiredTokens r = dr_retiredTokens reg" "dr_retiredTasks r = dr_retiredTasks reg"
    "dr_finalizedTaskStatuses r = dr_finalizedTaskStatuses reg"
  using assms
  by (auto simp: fenceRequest_def addFences_def addTombstone_def Let_def split: if_splits prod.splits option.splits)

lemma fenceRequest_tasks:
  assumes "reg_inv reg" and "fenceRequest reg record b = (r, res)"
    and "fence_contains (dr_persistentFences r) tombstoneTask k"
  shows "fence_contains (dr_persistentFences reg) tombstoneTask k"
proof (cases "taskRelated record")
  case True
  let ?es = "TKey tombstoneRequest (rr_key record) # (if b then tokenEntries (rr_token record) else [])"
  have "addFences reg ?es = (r, res)"
    using True assms(2) by (simp add: fenceRequest_def)
  moreover have "TKey tombstoneTask k \<notin> set ?es"
    using tokenEntries_role by fastforce
  ultimately show ?thesis
    using addFences_form [OF assms(1), of ?es r res] assms(3) by (auto split: if_splits)
next
  case False
  then show ?thesis
    using assms(2,3) by (auto simp: fenceRequest_def addTombstone_def Let_def split: option.splits if_splits)
qed

lemma recent_add_two: "a \<notin> set l \<Longrightarrow> a \<in> set (recent_add (recent_add l a) b)"
  by (simp add: recent_add_def tombstoneLimit_def)

lemma fenceRequest_fences:
  assumes "reg_inv reg" and "fenceRequest reg record b = (r, Ok ())"
    and fresh: "\<not> tombstone_contains (dr_tombstones reg) tombstoneRequest (rr_key record)"
  shows "fencedKey r tombstoneRequest (rr_key record)"
proof (cases "taskRelated record")
  case True
  then show ?thesis
    using assms addFences_form [OF assms(1)] by (fastforce simp: fenceRequest_def fencedKey_def)
next
  case False
  let ?k = "TKey tombstoneRequest (rr_key record)"
  let ?ts = "tombstone_add (dr_tombstones reg) tombstoneRequest (rr_key record)"
  have ring: "ring_inv (dr_tombstones reg)"
    using assms(1) by (rule inv_minv)
  have ring': "ring_inv ?ts" and l: "ring_recent ?ts = recent_add (ring_recent (dr_tombstones reg)) ?k"
    using ring_add [OF ring] by auto
  have "?k \<notin> set (ring_recent (dr_tombstones reg))"
    using fresh by (simp add: ring_contains ring)
  then have two: "?k \<in> set (ring_recent (tombstone_add ?ts tombstoneToken t))" for t
    using ring_add [OF ring', of tombstoneToken t] l recent_add_two by auto
  have "tombstone_contains (dr_tombstones r) tombstoneRequest (rr_key record)"
    using assms(2) False l two ring' ring_add [OF ring'] recent_add_has
    by (auto simp: fenceRequest_def Let_def addTombstone_def ring_contains split: option.splits if_splits)
  then show ?thesis
    by (simp add: fencedKey_def)
qed

text \<open>The only request id that fencing adds to the tombstones is the id of the request.\<close>

lemma tombstone_add_contains:
  "ring_inv ts \<Longrightarrow> tombstone_contains (tombstone_add ts role key) r k \<Longrightarrow>
     tombstone_contains ts r k \<or> (r = role \<and> k = key)"
  using ring_add [of ts role key]
  by (auto simp: ring_contains recent_add_def dest: in_set_takeD split: if_splits)

lemma fenceRequest_tombstones:
  assumes "reg_inv reg" and "fenceRequest reg record b = (r, res)"
    and "tombstone_contains (dr_tombstones r) tombstoneRequest k"
  shows "tombstone_contains (dr_tombstones reg) tombstoneRequest k \<or> (\<not> taskRelated record \<and> k = rr_key record)"
proof (cases "taskRelated record")
  case True
  then show ?thesis
    using assms(2,3) by (auto simp: fenceRequest_def addFences_def split: prod.splits)
next
  case False
  have ring: "ring_inv (dr_tombstones reg)"
    using assms(1) by (rule inv_minv)
  note ring' = ring_add [OF ring, of tombstoneRequest "rr_key record", THEN conjunct1]
  show ?thesis
    using assms(2,3) False tombstone_add_contains [OF ring] tombstone_add_contains [OF ring']
    by (auto simp: fenceRequest_def addTombstone_def Let_def split: option.splits if_splits) blast+
qed


section \<open>Active correlations\<close>

lemma putRecord_inv:
  assumes "reg_inv reg" and "\<not> mhas (dr_requests reg) (rr_key record)" and "\<not> mhas (dr_retiredRequests reg) (rr_key record)"
    and "mlen (dr_requests reg) + mlen (dr_tasks reg) < activeCorrelationLimit"
    and "mlen (dr_requests reg) + mlen (dr_retiredRequests reg) < retainedCorrelationLimit"
  shows "reg_inv (putRecord reg record)"
proof -
  have put: "reg_inv (reg\<lparr>dr_requests := mput (dr_requests reg) (rr_key record) record\<rparr>)"
    using assms by (auto simp: reg_inv_defs mlen_mput)
  have "minv (mput (dr_tokens reg) t v)" for t v
    using inv_minv(2) [OF assms(1)] by simp
  then show ?thesis
    using put inv_tokens [OF put] by (cases "rr_token record") (simp_all add: putRecord_def)
qed

lemma canRegister_Ok:
  assumes "canRegister reg frame = Ok ()"
  obtains i where "fr_id frame = Some i" "\<not> mhas (dr_requests reg) (sv_key i)"
    "\<not> mhas (dr_retiredRequests reg) (sv_key i)" "\<not> fencedKey reg tombstoneRequest (sv_key i)"
    "mlen (dr_requests reg) + mlen (dr_tasks reg) < activeCorrelationLimit"
    "mlen (dr_requests reg) + mlen (dr_retiredRequests reg) < retainedCorrelationLimit"
  using assms by (auto simp: canRegister_def Let_def split: option.splits if_splits)

lemma recordOf_key [simp]: "rr_key (recordOf frame i g) = sv_key i"
  by (simp add: rr_key_def recordOf_def)

lemma register_inv:
  assumes "reg_inv reg" and "canRegister reg frame = Ok ()" and "register reg frame g = Some (r, record)"
  shows "reg_inv r"
proof -
  obtain i where "fr_id frame = Some i" "\<not> mhas (dr_requests reg) (sv_key i)"
    "\<not> mhas (dr_retiredRequests reg) (sv_key i)"
    "mlen (dr_requests reg) + mlen (dr_tasks reg) < activeCorrelationLimit"
    "mlen (dr_requests reg) + mlen (dr_retiredRequests reg) < retainedCorrelationLimit"
    using canRegister_Ok [OF assms(2)] by blast
  then show ?thesis
    using assms(1,3) by (auto simp: register_def intro!: putRecord_inv)
qed

lemma inv_task_status:
  "reg_inv reg \<Longrightarrow> mget (dr_tasks reg) i = Some t \<Longrightarrow>
     reg_inv (reg\<lparr>dr_tasks := mput (dr_tasks reg) i (t\<lparr>ta_status := s\<rparr>)\<rparr>)"
  using mget_Some_mhas [of "dr_tasks reg" i t]
  by (auto simp: reg_inv_defs mlen_mput)

lemma inv_retiredTask_status:
  "reg_inv reg \<Longrightarrow> mget (dr_retiredTasks reg) i = Some t \<Longrightarrow>
     reg_inv (reg\<lparr>dr_retiredTasks := mput (dr_retiredTasks reg) i (t\<lparr>ta_status := s\<rparr>)\<rparr>)"
  using mget_Some_mhas [of "dr_retiredTasks reg" i t]
  by (auto simp: reg_inv_defs mlen_mput)

lemma inv_task_to_terminal:
  assumes "reg_inv reg" and t: "mget (dr_tasks reg) i = Some t" and "mlen (dr_terminalTasks reg) < terminalTaskLimit"
  shows "reg_inv (reg\<lparr>dr_tasks := mdel (dr_tasks reg) i,
    dr_terminalTasks := mput (dr_terminalTasks reg) i (t\<lparr>ta_status := s\<rparr>)\<rparr>)"
proof -
  have "mhas (dr_tasks reg) i"
    using t by (rule mget_Some_mhas)
  moreover from this have "0 < mlen (dr_tasks reg)"
    by (rule mlen_pos)
  moreover have "minv (dr_tasks reg)"
    using assms(1) by (rule inv_minv)
  ultimately show ?thesis
    using assms unfolding reg_inv_defs by (auto simp: mlen_mdel mlen_mput)
qed

lemma fence_add_token_inv:
  assumes "reg_inv reg" and "fence_add (dr_persistentFences reg) role k = (f, res)" and "role \<noteq> tombstoneTask"
  shows "reg_inv (reg\<lparr>dr_persistentFences := f\<rparr>)"
proof (rule inv_fences [OF assms(1)])
  show "fence_inv f"
    using fence_add_inv [OF inv_minv(9) [OF assms(1)], of role k] assms(2) by simp
  show "fence_contains (dr_persistentFences reg) tombstoneTask x" if "fence_contains f tombstoneTask x" for x
    using that assms(2,3) by (auto simp: fence_add_def fence_contains_def split: if_splits)
qed

lemma removeTokenKey_terminal:
  "(removeTokenKey reg token)\<lparr>dr_terminalTasks := m\<rparr> = removeTokenKey (reg\<lparr>dr_terminalTasks := m\<rparr>) token"
  by (cases token) (simp_all add: removeTokenKey_def)

lemma removeTokenKey_simps [simp]:
  "dr_terminalTasks (removeTokenKey reg token) = dr_terminalTasks reg"
  "dr_tasks (removeTokenKey reg token) = dr_tasks reg"
  "dr_requests (removeTokenKey reg token) = dr_requests reg"
  "dr_retiredRequests (removeTokenKey reg token) = dr_retiredRequests reg"
  "dr_retiredTasks (removeTokenKey reg token) = dr_retiredTasks reg"
  "dr_tombstones (removeTokenKey reg token) = dr_tombstones reg"
  "dr_persistentFences (removeTokenKey reg token) = dr_persistentFences reg"
  by (cases token; simp add: removeTokenKey_def)+

lemma updateTaskActive_inv:
  assumes inv: "reg_inv reg" and t: "mget (dr_tasks reg) (tm_id meta) = Some active"
  shows "reg_inv (fst (updateTaskActive reg active meta))"
proof -
  let ?add = "case ta_progressToken active of
                 None \<Rightarrow> (dr_persistentFences reg, Ok ())
               | Some token \<Rightarrow> fence_add (dr_persistentFences reg) tombstoneToken token"
  obtain f res where add: "?add = (f, res)"
    by (meson surj_pair)
  have f: "reg_inv (reg\<lparr>dr_persistentFences := f\<rparr>)"
    using inv add fence_add_token_inv [OF inv, of tombstoneToken] by (auto split: option.splits)
  let ?r = "reg\<lparr>dr_persistentFences := f\<rparr>"
  have "reg_inv (removeTokenKey (?r\<lparr>dr_tasks := mdel (dr_tasks ?r) (tm_id meta),
      dr_terminalTasks := mput (dr_terminalTasks ?r) (tm_id meta) (active\<lparr>ta_status := tm_status meta\<rparr>)\<rparr>) token)"
    if "mlen (dr_terminalTasks reg) < terminalTaskLimit" for token
    using inv_task_to_terminal [OF f, of "tm_id meta" active "tm_status meta"] t that by (intro inv_removeTokenKey) simp
  then have moved: "mlen (dr_terminalTasks reg) < terminalTaskLimit \<Longrightarrow>
    reg_inv (let r1 = removeTokenKey (reg\<lparr>dr_persistentFences := f, dr_tasks := mdel (dr_tasks reg) (tm_id meta)\<rparr>) token
      in r1\<lparr>dr_terminalTasks := mput (dr_terminalTasks r1) (tm_id meta) (active\<lparr>ta_status := tm_status meta\<rparr>)\<rparr>)" for token
    unfolding removeTokenKey_terminal Let_def by simp
  show ?thesis
    using inv_task_status [OF inv t] f inv moved
    by (auto simp: updateTaskActive_def add Let_def not_le split: sum.split)
qed

lemma updateTask_inv: "reg_inv reg \<Longrightarrow> reg_inv (fst (updateTask reg meta g))"
  using updateTaskActive_inv [of reg meta]
  by (auto simp: updateTask_def split: option.split sum.split prod.split)

text \<open>A task that is finished leaves the maps and enters the fence.\<close>

lemma taskTombstoneKey_inj [simp]: "taskTombstoneKey i = taskTombstoneKey j \<longleftrightarrow> i = j"
  by (simp add: taskTombstoneKey_def)

lemma inv_finish_current:
  assumes inv: "reg_inv reg" and "fence_inv f" and "\<not> mhas (dr_retiredTasks reg) i"
    and f: "\<And>k. fence_contains f tombstoneTask k \<Longrightarrow>
      fence_contains (dr_persistentFences reg) tombstoneTask k \<or> k = taskTombstoneKey i"
  shows "reg_inv (reg\<lparr>dr_persistentFences := f, dr_tasks := mdel (dr_tasks reg) i,
    dr_terminalTasks := mdel (dr_terminalTasks reg) i\<rparr>)" (is "reg_inv ?r")
proof -
  have "mlen (mdel (dr_tasks reg) i) \<le> mlen (dr_tasks reg)"
    "mlen (mdel (dr_terminalTasks reg) i) \<le> mlen (dr_terminalTasks reg)"
    using inv_minv(3,4) [OF inv] by (simp_all add: mlen_mdel)
  then have "limits_inv ?r"
    using inv by (simp add: reg_inv_def limits_inv_def)
  moreover have F: "\<forall>j. taskFenced ?r j \<longrightarrow> taskFenced reg j \<or> j = i"
    by (auto simp: taskFenced_def dest!: f)
  have "tasks_inv ?r"
    using inv assms(3) F unfolding reg_inv_def tasks_inv_def
    by (simp del: not_ex) blast
  ultimately show ?thesis
    using inv assms(2) by (simp add: reg_inv_def maps_inv_def requests_inv_def)
qed

lemma inv_finish_retired:
  assumes inv: "reg_inv reg" and "fence_inv f" and here: "mhas (dr_retiredTasks reg) i"
    and f: "\<And>k. fence_contains f tombstoneTask k \<Longrightarrow>
      fence_contains (dr_persistentFences reg) tombstoneTask k \<or> k = taskTombstoneKey i"
  shows "reg_inv (reg\<lparr>dr_persistentFences := f, dr_retiredTasks := mdel (dr_retiredTasks reg) i\<rparr>)" (is "reg_inv ?r")
proof -
  have "mlen (mdel (dr_retiredTasks reg) i) \<le> mlen (dr_retiredTasks reg)"
    using inv_minv(7) [OF inv] by (simp add: mlen_mdel)
  then have "limits_inv ?r"
    using inv by (simp add: reg_inv_def limits_inv_def)
  moreover have F: "\<forall>j. taskFenced ?r j \<longrightarrow> taskFenced reg j \<or> j = i"
    by (auto simp: taskFenced_def dest!: f)
  have "tasks_inv ?r"
    using inv here F unfolding reg_inv_def tasks_inv_def
    by (simp del: not_ex) blast
  ultimately show ?thesis
    using inv assms(2) by (simp add: reg_inv_def maps_inv_def requests_inv_def)
qed


lemma addFences_task:
  assumes "reg_inv reg" and "addFences reg es = (r, Ok ())"
    and "\<forall>e \<in> set es. trole e = tombstoneTask \<longrightarrow> tkey e = taskTombstoneKey i"
  shows "\<exists>f. r = reg\<lparr>dr_persistentFences := f\<rparr> \<and> fence_inv f \<and>
    (\<forall>k. fence_contains f tombstoneTask k \<longrightarrow>
      fence_contains (dr_persistentFences reg) tombstoneTask k \<or> k = taskTombstoneKey i)"
proof -
  obtain f where f: "r = reg\<lparr>dr_persistentFences := f\<rparr>" "fence_inv f"
    "\<forall>role k. fence_contains f role k \<longleftrightarrow> fence_contains (dr_persistentFences reg) role k \<or> TKey role k \<in> set es"
    using addFences_form [OF assms(1,2)] by auto
  have "k = taskTombstoneKey i" if "TKey tombstoneTask k \<in> set es" for k
    using assms(3) that by force
  then show ?thesis
    using f by blast
qed

lemma finalizeTask_inv:
  assumes inv: "reg_inv reg"
  shows "reg_inv (fst (finalizeTask reg i g))"
proof -
  have "reg_inv (fst (finalizeTaskRecord reg i task terminal))" if i: "\<not> mhas (dr_retiredTasks reg) i" for task terminal
  proof -
    let ?es = "TKey tombstoneTask (taskTombstoneKey i) # tokenEntries (ta_progressToken task)"
    obtain r res where add: "addFences reg ?es = (r, res)"
      by (meson surj_pair)
    show ?thesis
    proof (cases res)
      case (Inl e)
      then show ?thesis
        using add addFences_Err [OF inv] inv by (auto simp: finalizeTaskRecord_def)
    next
      case (Inr u)
      then obtain f where r: "r = reg\<lparr>dr_persistentFences := f\<rparr>" and f: "fence_inv f"
        "\<And>k. fence_contains f tombstoneTask k \<Longrightarrow>
          fence_contains (dr_persistentFences reg) tombstoneTask k \<or> k = taskTombstoneKey i"
        using addFences_task [OF inv, of ?es r i] add by (auto simp: tokenEntries_def split: option.splits)
      have base: "reg_inv (reg\<lparr>dr_persistentFences := f, dr_tasks := mdel (dr_tasks reg) i,
          dr_terminalTasks := mdel (dr_terminalTasks reg) i\<rparr>)"
        by (rule inv_finish_current [OF inv f(1) i f(2)])
      have "reg_inv (reg\<lparr>dr_persistentFences := f, dr_finalizedTaskStatuses := m, dr_tasks := mdel (dr_tasks reg) i,
          dr_terminalTasks := mdel (dr_terminalTasks reg) i\<rparr>)" for m
        using base by (simp add: reg_inv_defs)
      then show ?thesis
        using add Inr base unfolding r by (auto simp: finalizeTaskRecord_def Let_def split: option.split)
    qed
  qed
  then show ?thesis
    using inv by (auto simp: finalizeTask_def Let_def split: option.split)
qed

lemma completeOperation_inv:
  assumes "reg_inv reg" and "completeOperation reg record meta = (r, res)"
  shows "reg_inv r"
  using assms finalizeTask_inv [OF assms(1)] updateTask_inv [OF assms(1)]
  by (auto simp: completeOperation_def split: option.splits prod.splits sum.splits if_splits) (metis fst_conv)+

text \<open>Binding a created task turns an active request into an active task.\<close>

lemma inv_bind_task:
  assumes inv: "reg_inv reg" and rec: "mhas (dr_requests reg) (rr_key record)"
    and "\<not> mhas (dr_tasks reg) (tm_id meta)" "\<not> mhas (dr_terminalTasks reg) (tm_id meta)"
      "\<not> mhas (dr_retiredTasks reg) (tm_id meta)" "\<not> taskFenced reg (tm_id meta)"
    and "mlen (dr_tasks reg) + mlen (dr_terminalTasks reg) + mlen (dr_retiredTasks reg) < retainedCorrelationLimit"
  shows "reg_inv (reg\<lparr>dr_requests := mdel (dr_requests reg) (rr_key record),
    dr_tasks := mput (dr_tasks reg) (tm_id meta) (boundTask record meta)\<rparr>)" (is "reg_inv ?r")
proof -
  have "0 < mlen (dr_requests reg)" "minv (dr_requests reg)"
    using rec by (rule mlen_pos) (rule inv_minv [OF inv])
  then have "limits_inv ?r"
    using assms by (auto simp: reg_inv_def limits_inv_def mlen_mdel mlen_mput)
  moreover have "tasks_inv ?r"
    using assms by (auto simp: reg_inv_def tasks_inv_def taskFenced_def boundTask_def)
  ultimately show ?thesis
    using inv by (auto simp: reg_inv_def maps_inv_def requests_inv_def)
qed

lemma canBindTask_Ok:
  assumes "canBindTask reg i = Ok ()"
  shows "\<not> mhas (dr_tasks reg) i" "\<not> mhas (dr_terminalTasks reg) i" "\<not> mhas (dr_retiredTasks reg) i"
    "\<not> taskFenced reg i"
    "mlen (dr_tasks reg) + mlen (dr_terminalTasks reg) + mlen (dr_retiredTasks reg) < retainedCorrelationLimit"
  using assms by (auto simp: canBindTask_def taskFenced_def fencedKey_def split: if_splits)

lemma bindsTask_canBind:
  assumes "canComplete reg record response = Ok ()" and "taskOperationResponse record response = (m, op, err)"
    and "bindsTask record response op = Some meta"
  shows "canBindTask reg (tm_id meta) = Ok () \<and> taskRelated record"
  using assms by (auto simp: canComplete_def bindsTask_def taskRelated_def split: if_splits option.splits)

lemma complete_inv:
  assumes inv: "reg_inv reg" and rec: "mget (dr_requests reg) (rr_key record) = Some record"
    and can: "canComplete reg record response = Ok ()" and c: "complete reg record response = (r, res)"
  shows "reg_inv r"
proof -
  obtain om op err where top: "taskOperationResponse record response = (om, op, err)"
    by (metis prod.collapse)
  show ?thesis
  proof (cases err)
    case (Some e)
    then show ?thesis
      using c top inv by (simp add: complete_def)
  next
    case None
    let ?b = "bindsTask record response op"
    obtain r1 res1 where f: "fenceRequest reg record (?b = None) = (r1, res1)"
      by (meson surj_pair)
    have inv1: "reg_inv r1"
      using fenceRequest_inv [OF inv f] .
    have same: "dr_requests r1 = dr_requests reg" "dr_tasks r1 = dr_tasks reg"
      "dr_terminalTasks r1 = dr_terminalTasks reg" "dr_retiredTasks r1 = dr_retiredTasks reg"
      using fenceRequest_simps [OF f] by simp_all
    show ?thesis
    proof (cases ?b)
      case nobind: None
      obtain r2 res2 where o: "(if op then completeOperation r1 record om else (r1, Ok ())) = (r2, res2)"
        by (meson surj_pair)
      have "reg_inv r2"
        using inv1 completeOperation_inv [OF inv1] o by (auto split: if_splits)
      then show ?thesis
        using c top None f o nobind inv1
        by (auto simp: complete_def Let_def intro!: inv_removeToken inv_del_request split: sum.splits if_splits)
    next
      case (Some meta)
      then have "\<not> op"
        by (auto simp: bindsTask_def split: if_splits)
      have "canBindTask reg (tm_id meta) = Ok ()" and "taskRelated record"
        using bindsTask_canBind [OF can top Some] by auto
      then have "reg_inv (r1\<lparr>dr_requests := mdel (dr_requests r1) (rr_key record),
          dr_tasks := mput (dr_tasks r1) (tm_id meta) (boundTask record meta)\<rparr>)"
        using inv1 rec same canBindTask_Ok [of reg "tm_id meta"] fenceRequest_tasks [OF inv f]
        by (intro inv_bind_task) (auto dest: mget_Some_mhas simp: taskFenced_def)
      then show ?thesis
        using c top None f Some \<open>\<not> op\<close> inv1 by (auto simp: complete_def Let_def split: sum.splits)
    qed
  qed
qed


lemma cancel_inv:
  assumes "reg_inv reg" and "cancel reg record = (r, res)"
  shows "reg_inv r"
proof -
  obtain r1 res1 where f: "fenceRequest reg record True = (r1, res1)"
    by (meson surj_pair)
  show ?thesis
    using assms fenceRequest_inv [OF assms(1) f] f
    by (auto simp: cancel_def intro!: inv_removeToken inv_del_request split: sum.splits)
qed

lemma acceptProgress_inv: "reg_inv reg \<Longrightarrow> reg_inv (fst (acceptProgress reg meta g))"
  using inv_minv(2) [of reg] by (auto simp: acceptProgress_def split: option.split)

section \<open>Retirement\<close>

lemma retireRequest_inv:
  assumes inv: "reg_inv reg" and rec: "mget (dr_requests reg) (rr_key record) = Some record"
  shows "reg_inv (retireRequest reg record)"
proof -
  have has: "mhas (dr_requests reg) (rr_key record)"
    using rec by (rule mget_Some_mhas)
  have "0 < mlen (dr_requests reg)" "minv (dr_requests reg)"
    using has by (rule mlen_pos) (rule inv_minv [OF inv])
  then have moved: "reg_inv (reg\<lparr>dr_requests := mdel (dr_requests reg) (rr_key record),
      dr_retiredRequests := mput (dr_retiredRequests reg) (rr_key record) record\<rparr>)" (is "reg_inv ?r")
    using inv has unfolding reg_inv_defs by (auto simp: mlen_mdel mlen_mput)
  have "minv (mdel (dr_tokens reg) t)" "minv (mput (dr_retiredTokens reg) t ())" for t
    using inv_minv(2,6) [OF inv] by simp_all
  then show ?thesis
    using moved inv_retiredTokens [OF inv_tokens [OF moved]]
    by (cases "rr_token record") (simp_all add: retireRequest_def Let_def)
qed

lemma retireTask_inv:
  assumes inv: "reg_inv reg" and t: "mget (dr_tasks reg) i = Some task"
  shows "reg_inv (retireTask reg (i, task))"
proof -
  have has: "mhas (dr_tasks reg) i"
    using t by (rule mget_Some_mhas)
  have "0 < mlen (dr_tasks reg)" "minv (dr_tasks reg)"
    using has by (rule mlen_pos) (rule inv_minv [OF inv])
  then have moved: "reg_inv (reg\<lparr>dr_tasks := mdel (dr_tasks reg) i,
      dr_retiredTasks := mput (dr_retiredTasks reg) i task\<rparr>)" (is "reg_inv ?r")
    using inv has t unfolding reg_inv_defs by (auto simp: mlen_mdel mlen_mput)
  have "minv (mdel (dr_tokens reg) k)" "minv (mput (dr_retiredTokens reg) k ())" for k
    using inv_minv(2,6) [OF inv] by simp_all
  then show ?thesis
    using moved inv_retiredTokens [OF inv_tokens [OF moved]]
    by (cases "ta_progressToken task") (simp_all add: retireTask_def Let_def)
qed

lemma retireRequest_simps [simp]:
  "dr_requests (retireRequest reg r) = mdel (dr_requests reg) (rr_key r)"
  "dr_retiredRequests (retireRequest reg r) = mput (dr_retiredRequests reg) (rr_key r) r"
  "dr_tasks (retireRequest reg r) = dr_tasks reg"
  "dr_terminalTasks (retireRequest reg r) = dr_terminalTasks reg"
  "dr_retiredTasks (retireRequest reg r) = dr_retiredTasks reg"
  "dr_tombstones (retireRequest reg r) = dr_tombstones reg"
  "dr_persistentFences (retireRequest reg r) = dr_persistentFences reg"
  "dr_finalizedTaskStatuses (retireRequest reg r) = dr_finalizedTaskStatuses reg"
  by (cases "rr_token r"; simp add: retireRequest_def Let_def)+

lemma retireTask_simps [simp]:
  "dr_requests (retireTask reg p) = dr_requests reg"
  "dr_retiredRequests (retireTask reg p) = dr_retiredRequests reg"
  "dr_tasks (retireTask reg p) = mdel (dr_tasks reg) (fst p)"
  "dr_terminalTasks (retireTask reg p) = dr_terminalTasks reg"
  "dr_retiredTasks (retireTask reg p) = mput (dr_retiredTasks reg) (fst p) (snd p)"
  "dr_tombstones (retireTask reg p) = dr_tombstones reg"
  "dr_persistentFences (retireTask reg p) = dr_persistentFences reg"
  "dr_finalizedTaskStatuses (retireTask reg p) = dr_finalizedTaskStatuses reg"
  by (cases p; cases "ta_progressToken (snd p)"; simp add: retireTask_def Let_def)+

lemma finalizeTerminal_simps [simp]:
  "dr_requests (finalizeTerminal reg p) = dr_requests reg"
  "dr_retiredRequests (finalizeTerminal reg p) = dr_retiredRequests reg"
  "dr_tasks (finalizeTerminal reg p) = dr_tasks reg"
  "dr_terminalTasks (finalizeTerminal reg p) = mdel (dr_terminalTasks reg) (fst p)"
  "dr_retiredTasks (finalizeTerminal reg p) = dr_retiredTasks reg"
  "dr_tombstones (finalizeTerminal reg p) = dr_tombstones reg"
  "dr_persistentFences (finalizeTerminal reg p) = dr_persistentFences reg"
  "dr_finalizedTaskStatuses (finalizeTerminal reg p) = mput (dr_finalizedTaskStatuses reg) (fst p) (ta_status (snd p))"
  by (cases p; simp add: finalizeTerminal_def)+

text \<open>The three loops, one after the other.\<close>

lemma foldl_retireRequest:
  "distinct (map rr_key rs) \<Longrightarrow> \<forall>r \<in> set rs. mget (dr_requests reg) (rr_key r) = Some r \<Longrightarrow> reg_inv reg \<Longrightarrow>
     reg_inv (foldl retireRequest reg rs) \<and>
     dr_requests (foldl retireRequest reg rs) = mkeep (\<lambda>k _. k \<notin> rr_key ` set rs) (dr_requests reg) \<and>
     dr_retiredRequests (foldl retireRequest reg rs) = foldl (\<lambda>m r. mput m (rr_key r) r) (dr_retiredRequests reg) rs"
proof (induction rs arbitrary: reg)
  case Nil
  then show ?case by simp
next
  case (Cons r rs)
  have "reg_inv (retireRequest reg r)"
    using Cons.prems by (intro retireRequest_inv) auto
  moreover have "mget (dr_requests (retireRequest reg r)) (rr_key x) = Some x" if "x \<in> set rs" for x
  proof -
    have "rr_key x \<noteq> rr_key r"
      using Cons.prems(1) imageI [OF that] by (metis distinct.simps(2) list.set_map list.simps(9))
    then show ?thesis
      using Cons.prems(2) that by simp
  qed
  ultimately show ?case
    using Cons.IH [of "retireRequest reg r"] Cons.prems(1) by (simp add: mkeep_mdel)
qed

lemma foldl_retireRequest_simps [simp]:
  "dr_tasks (foldl retireRequest reg rs) = dr_tasks reg"
  "dr_terminalTasks (foldl retireRequest reg rs) = dr_terminalTasks reg"
  "dr_retiredTasks (foldl retireRequest reg rs) = dr_retiredTasks reg"
  "dr_tombstones (foldl retireRequest reg rs) = dr_tombstones reg"
  "dr_persistentFences (foldl retireRequest reg rs) = dr_persistentFences reg"
  "dr_finalizedTaskStatuses (foldl retireRequest reg rs) = dr_finalizedTaskStatuses reg"
  by (induction rs arbitrary: reg) simp_all

lemma foldl_retireTask:
  "distinct (map fst ts) \<Longrightarrow> \<forall>p \<in> set ts. mget (dr_tasks reg) (fst p) = Some (snd p) \<Longrightarrow> reg_inv reg \<Longrightarrow>
     reg_inv (foldl retireTask reg ts) \<and>
     dr_tasks (foldl retireTask reg ts) = mkeep (\<lambda>k _. k \<notin> fst ` set ts) (dr_tasks reg) \<and>
     dr_retiredTasks (foldl retireTask reg ts) = foldl (\<lambda>m p. mput m (fst p) (snd p)) (dr_retiredTasks reg) ts"
proof (induction ts arbitrary: reg)
  case Nil
  then show ?case by simp
next
  case (Cons p ts)
  have "reg_inv (retireTask reg p)"
    using Cons.prems retireTask_inv [of reg "fst p" "snd p"] by auto
  moreover have "mget (dr_tasks (retireTask reg p)) (fst x) = Some (snd x)" if "x \<in> set ts" for x
  proof -
    have "fst x \<noteq> fst p"
      using Cons.prems(1) imageI [OF that] by (metis distinct.simps(2) list.set_map list.simps(9))
    then show ?thesis
      using Cons.prems(2) that by simp
  qed
  ultimately show ?case
    using Cons.IH [of "retireTask reg p"] Cons.prems(1) by (simp add: mkeep_mdel)
qed

lemma foldl_retireTask_simps [simp]:
  "dr_requests (foldl retireTask reg ts) = dr_requests reg"
  "dr_retiredRequests (foldl retireTask reg ts) = dr_retiredRequests reg"
  "dr_terminalTasks (foldl retireTask reg ts) = dr_terminalTasks reg"
  "dr_tombstones (foldl retireTask reg ts) = dr_tombstones reg"
  "dr_persistentFences (foldl retireTask reg ts) = dr_persistentFences reg"
  by (induction ts arbitrary: reg) simp_all

lemma foldl_finalizeTerminal:
  "dr_terminalTasks (foldl finalizeTerminal reg ts) = mkeep (\<lambda>k _. k \<notin> fst ` set ts) (dr_terminalTasks reg)"
  by (induction ts arbitrary: reg) (simp_all add: mkeep_mdel)

lemma foldl_finalizeTerminal_simps [simp]:
  "dr_requests (foldl finalizeTerminal reg ts) = dr_requests reg"
  "dr_retiredRequests (foldl finalizeTerminal reg ts) = dr_retiredRequests reg"
  "dr_tasks (foldl finalizeTerminal reg ts) = dr_tasks reg"
  "dr_retiredTasks (foldl finalizeTerminal reg ts) = dr_retiredTasks reg"
  "dr_tombstones (foldl finalizeTerminal reg ts) = dr_tombstones reg"
  "dr_persistentFences (foldl finalizeTerminal reg ts) = dr_persistentFences reg"
  by (induction ts arbitrary: reg) simp_all


lemma foldl_finalizeTerminal_eq:
  "foldl finalizeTerminal reg ts =
     reg\<lparr>dr_terminalTasks := dr_terminalTasks (foldl finalizeTerminal reg ts),
         dr_finalizedTaskStatuses := dr_finalizedTaskStatuses (foldl finalizeTerminal reg ts)\<rparr>"
proof (induction ts arbitrary: reg)
  case (Cons p ts)
  show ?case
    by (subst foldl_Cons, subst Cons.IH) (cases p, simp add: finalizeTerminal_def)
qed simp

lemma foldl_retire_fences:
  "foldl retireRequest (reg\<lparr>dr_persistentFences := f\<rparr>) rs = (foldl retireRequest reg rs)\<lparr>dr_persistentFences := f\<rparr>"
  "foldl retireTask (reg\<lparr>dr_persistentFences := f\<rparr>) ts = (foldl retireTask reg ts)\<lparr>dr_persistentFences := f\<rparr>"
proof -
  have r: "retireRequest (reg\<lparr>dr_persistentFences := f\<rparr>) r = (retireRequest reg r)\<lparr>dr_persistentFences := f\<rparr>" for reg r
    by (cases "rr_token r") (simp_all add: retireRequest_def Let_def)
  have t: "retireTask (reg\<lparr>dr_persistentFences := f\<rparr>) p = (retireTask reg p)\<lparr>dr_persistentFences := f\<rparr>" for reg p
    by (cases p; cases "ta_progressToken (snd p)") (simp_all add: retireTask_def Let_def)
  show "foldl retireRequest (reg\<lparr>dr_persistentFences := f\<rparr>) rs = (foldl retireRequest reg rs)\<lparr>dr_persistentFences := f\<rparr>"
    by (induction rs arbitrary: reg) (simp_all add: r)
  show "foldl retireTask (reg\<lparr>dr_persistentFences := f\<rparr>) ts = (foldl retireTask reg ts)\<lparr>dr_persistentFences := f\<rparr>"
    by (induction ts arbitrary: reg) (simp_all add: t)
qed

lemma inv_finish_terminals:
  assumes inv: "reg_inv reg" and "fence_inv f" and here: "\<forall>i \<in> I. mhas (dr_terminalTasks reg) i"
    and f: "\<And>k. fence_contains f tombstoneTask k \<Longrightarrow>
      fence_contains (dr_persistentFences reg) tombstoneTask k \<or> k \<in> taskTombstoneKey ` I"
  shows "reg_inv (reg\<lparr>dr_persistentFences := f, dr_terminalTasks := mkeep (\<lambda>k _. k \<notin> I) (dr_terminalTasks reg),
    dr_finalizedTaskStatuses := m\<rparr>)" (is "reg_inv ?r")
proof -
  have tm: "minv (dr_terminalTasks reg)"
    using inv by (rule inv_minv)
  have "limits_inv ?r"
    using inv mlen_mkeep_le [of "\<lambda>k _. k \<notin> I" "dr_terminalTasks reg"] by (simp add: reg_inv_def limits_inv_def)
  moreover have F: "\<forall>j. taskFenced ?r j \<longrightarrow> taskFenced reg j \<or> j \<in> I"
    by (auto simp: taskFenced_def dest!: f)
  moreover have K: "mhas (mkeep (\<lambda>k _. k \<notin> I) (dr_terminalTasks reg)) j \<longleftrightarrow> mhas (dr_terminalTasks reg) j \<and> j \<notin> I" for j
    unfolding mhas_mkeep [OF tm] by (auto simp: mhas_def)
  have G: "mget (mkeep (\<lambda>k _. k \<notin> I) (dr_terminalTasks reg)) j = Some t \<Longrightarrow> mget (dr_terminalTasks reg) j = Some t" for j t
    by (simp add: mget_mkeep [OF tm] split: option.splits if_splits)
  have "tasks_inv ?r"
    using inv here F G unfolding reg_inv_def tasks_inv_def by (simp add: K) blast
  ultimately show ?thesis
    using inv assms(2) tm by (simp add: reg_inv_def maps_inv_def requests_inv_def)
qed

text \<open>The requests and tasks of a generation, read from maps filed by id.\<close>

lemma requests_keys:
  assumes "reg_inv reg"
  shows "map rr_key (map snd (dr_requests reg)) = map fst (dr_requests reg)"
proof -
  have "rr_key r = k" if "(k, r) \<in> set (dr_requests reg)" for k r
    using assms that mget_Some_iff [OF inv_minv(1) [OF assms]] by (auto simp: reg_inv_def requests_inv_def)
  then show ?thesis
    by auto
qed

lemma generationRequests_set:
  assumes "reg_inv reg"
  shows "r \<in> set (generationRequests reg g) \<longleftrightarrow> mget (dr_requests reg) (rr_key r) = Some r \<and> rr_generation r = g"
proof -
  have keyed: "mget (dr_requests reg) k = Some r \<Longrightarrow> rr_key r = k" for k
    using assms by (simp add: reg_inv_def requests_inv_def)
  show ?thesis
    using mget_Some_iff [OF inv_minv(1) [OF assms]] keyed by (force simp: generationRequests_def)
qed

lemma generationRequests_distinct:
  assumes "reg_inv reg"
  shows "distinct (map rr_key (generationRequests reg g))"
proof -
  have "distinct (map rr_key (map snd (dr_requests reg)))"
    using inv_minv(1) [OF assms] unfolding requests_keys [OF assms] minv_def .
  then show ?thesis
    unfolding generationRequests_def by (rule distinct_map_filter)
qed

lemma generationTasks_set:
  "minv m \<Longrightarrow> (i, t) \<in> set (generationTasks m g) \<longleftrightarrow> mget m i = Some t \<and> ta_generation t = g"
  by (auto simp: generationTasks_def mget_Some_iff)

lemma generationTasks_distinct: "minv m \<Longrightarrow> distinct (map fst (generationTasks m g))"
  unfolding generationTasks_def minv_def by (rule distinct_map_filter)


lemma retireEntries_task:
  "TKey tombstoneTask k \<in> set (retireEntries reg g) \<longleftrightarrow>
     k \<in> taskTombstoneKey ` fst ` set (generationTasks (dr_terminalTasks reg) g)"
  by (force simp: retireEntries_def tokenEntries_def split: option.splits)

lemma retireAll_spec:
  assumes inv: "reg_inv reg" and add: "addFences reg (retireEntries reg g) = (r1, Ok ())"
  defines "R \<equiv> retireAll r1 g"
  shows "reg_inv R"
    and "dr_requests R = mkeep (\<lambda>k _. k \<notin> rr_key ` set (generationRequests reg g)) (dr_requests reg)"
    and "dr_retiredRequests R = foldl (\<lambda>m r. mput m (rr_key r) r) (dr_retiredRequests reg) (generationRequests reg g)"
    and "dr_tasks R = mkeep (\<lambda>k _. k \<notin> fst ` set (generationTasks (dr_tasks reg) g)) (dr_tasks reg)"
    and "dr_retiredTasks R =
      foldl (\<lambda>m p. mput m (fst p) (snd p)) (dr_retiredTasks reg) (generationTasks (dr_tasks reg) g)"
    and "dr_terminalTasks R =
      mkeep (\<lambda>k _. k \<notin> fst ` set (generationTasks (dr_terminalTasks reg) g)) (dr_terminalTasks reg)"
    and "dr_persistentFences R = dr_persistentFences r1" and "dr_tombstones R = dr_tombstones reg"
proof -
  let ?rs = "generationRequests reg g" and ?ts = "generationTasks (dr_tasks reg) g"
    and ?es = "generationTasks (dr_terminalTasks reg) g"
  obtain f where r1: "r1 = reg\<lparr>dr_persistentFences := f\<rparr>" and f: "fence_inv f"
    and c: "\<forall>role k. fence_contains f role k \<longleftrightarrow>
      fence_contains (dr_persistentFences reg) role k \<or> TKey role k \<in> set (retireEntries reg g)"
    using addFences_form [OF inv add] by auto
  define A where "A = foldl retireRequest reg ?rs"
  have A: "reg_inv A"
    "dr_requests A = mkeep (\<lambda>k _. k \<notin> rr_key ` set ?rs) (dr_requests reg)"
    "dr_retiredRequests A = foldl (\<lambda>m r. mput m (rr_key r) r) (dr_retiredRequests reg) ?rs"
    using foldl_retireRequest [of ?rs reg] generationRequests_distinct [OF inv] generationRequests_set [OF inv] inv
    by (auto simp: A_def)
  have A_tasks: "dr_tasks A = dr_tasks reg" "dr_terminalTasks A = dr_terminalTasks reg"
    "dr_retiredTasks A = dr_retiredTasks reg" "dr_persistentFences A = dr_persistentFences reg"
    "dr_tombstones A = dr_tombstones reg"
    by (simp_all add: A_def)
  define B where "B = foldl retireTask A ?ts"
  have ts: "distinct (map fst ?ts)" "\<forall>p \<in> set ?ts. mget (dr_tasks A) (fst p) = Some (snd p)"
    using generationTasks_distinct generationTasks_set inv_minv(3) [OF inv] A_tasks(1) by auto
  have B: "reg_inv B" "dr_tasks B = mkeep (\<lambda>k _. k \<notin> fst ` set ?ts) (dr_tasks reg)"
    "dr_retiredTasks B = foldl (\<lambda>m p. mput m (fst p) (snd p)) (dr_retiredTasks reg) ?ts"
    using foldl_retireTask [OF ts A(1)] A_tasks by (simp_all add: B_def)
  have B_rest: "dr_requests B = dr_requests A" "dr_retiredRequests B = dr_retiredRequests A"
    "dr_terminalTasks B = dr_terminalTasks reg" "dr_persistentFences B = dr_persistentFences reg"
    "dr_tombstones B = dr_tombstones reg"
    using A_tasks by (simp_all add: B_def)
  have gens: "generationRequests r1 g = ?rs" "generationTasks (dr_tasks r1) g = ?ts"
    "generationTasks (dr_terminalTasks r1) g = ?es"
    by (simp_all add: r1 generationRequests_def)
  have R: "R = foldl finalizeTerminal (B\<lparr>dr_persistentFences := f\<rparr>) ?es"
    unfolding R_def retireAll_def gens by (simp add: r1 foldl_retire_fences A_def B_def)
  then have R_term: "dr_terminalTasks R = mkeep (\<lambda>k _. k \<notin> fst ` set ?es) (dr_terminalTasks reg)"
    by (simp add: foldl_finalizeTerminal B_rest)
  have "R = B\<lparr>dr_persistentFences := f, dr_terminalTasks := mkeep (\<lambda>k _. k \<notin> fst ` set ?es) (dr_terminalTasks B),
      dr_finalizedTaskStatuses := dr_finalizedTaskStatuses R\<rparr>"
    using foldl_finalizeTerminal_eq [of "B\<lparr>dr_persistentFences := f\<rparr>" ?es] R R_term B_rest by simp
  moreover have "\<forall>i \<in> fst ` set ?es. mhas (dr_terminalTasks B) i"
    using generationTasks_set [OF inv_minv(4) [OF inv]] B_rest(3) by (auto dest: mget_Some_mhas)
  ultimately show "reg_inv R"
    using inv_finish_terminals [OF B(1) f, of "fst ` set ?es"] c retireEntries_task B_rest(4) by metis
  show "dr_terminalTasks R = mkeep (\<lambda>k _. k \<notin> fst ` set ?es) (dr_terminalTasks reg)"
    by (rule R_term)
  show "dr_requests R = mkeep (\<lambda>k _. k \<notin> rr_key ` set ?rs) (dr_requests reg)"
    "dr_retiredRequests R = foldl (\<lambda>m r. mput m (rr_key r) r) (dr_retiredRequests reg) ?rs"
    "dr_tasks R = mkeep (\<lambda>k _. k \<notin> fst ` set ?ts) (dr_tasks reg)"
    "dr_retiredTasks R = foldl (\<lambda>m p. mput m (fst p) (snd p)) (dr_retiredTasks reg) ?ts"
    "dr_persistentFences R = dr_persistentFences r1" "dr_tombstones R = dr_tombstones reg"
    using A B B_rest by (simp_all add: R r1)
qed


lemma retireGenerationChecked_inv:
  assumes "reg_inv reg"
  shows "reg_inv (fst (retireGenerationChecked reg g))"
proof -
  obtain r1 res where add: "addFences reg (retireEntries reg g) = (r1, res)"
    by (meson surj_pair)
  then have "case res of Inl _ \<Rightarrow> r1 = reg | Inr _ \<Rightarrow> reg_inv (retireAll r1 g)"
    using addFences_Err [OF assms] retireAll_spec(1) [OF assms] by (auto split: sum.split)
  then show ?thesis
    using assms add by (auto simp: retireGenerationChecked_def split: sum.splits)
qed

section \<open>Late answers\<close>

lemma dropRetired_inv: "reg_inv reg \<Longrightarrow> reg_inv (dropRetired reg k t)"
  using inv_del_retiredRequest [of reg k] inv_minv(6) [of reg]
  by (cases t) (auto simp: dropRetired_def Let_def)

lemma releaseRetiredRequest_inv:
  assumes "reg_inv reg" and "releaseRetiredRequest reg record = (r, res)"
  shows "reg_inv r"
proof -
  obtain r1 res1 where f: "fenceRequest reg record True = (r1, res1)"
    by (meson surj_pair)
  show ?thesis
    using assms fenceRequest_inv [OF assms(1) f] f
    by (auto simp: releaseRetiredRequest_def intro!: dropRetired_inv split: sum.splits)
qed

lemma releaseRetiredRequest_retiredTasks:
  "releaseRetiredRequest reg record = (r, res) \<Longrightarrow> dr_retiredTasks r = dr_retiredTasks reg"
  using fenceRequest_simps(7)
  by (auto simp: releaseRetiredRequest_def dropRetired_def Let_def split: prod.splits sum.splits option.splits)

text \<open>A retired task leaves with a fence around its id.\<close>

lemma dropRetiredTask_inv:
  assumes inv: "reg_inv reg" and add: "addFences reg es = (r, Ok ())" and here: "mhas (dr_retiredTasks reg) i"
    and es: "\<forall>e \<in> set es. trole e = tombstoneTask \<longrightarrow> tkey e = taskTombstoneKey i"
  shows "reg_inv (dropRetiredTask (dropRetired (r\<lparr>dr_finalizedTaskStatuses := m\<rparr>) k t) i u)"
    and "reg_inv (dropRetiredTask (r\<lparr>dr_finalizedTaskStatuses := m\<rparr>) i u)"
proof -
  obtain f where r: "r = reg\<lparr>dr_persistentFences := f\<rparr>" and f: "fence_inv f"
    "\<And>x. fence_contains f tombstoneTask x \<Longrightarrow>
      fence_contains (dr_persistentFences reg) tombstoneTask x \<or> x = taskTombstoneKey i"
    using addFences_task [OF inv add es] by auto
  have base: "reg_inv (reg\<lparr>dr_persistentFences := f, dr_retiredTasks := mdel (dr_retiredTasks reg) i\<rparr>)"
    by (rule inv_finish_retired [OF inv f(1) here f(2)])
  have minv: "minv (dr_retiredTokens reg)" "minv (dr_retiredRequests reg)"
    using inv_minv [OF inv] by simp_all
  have "reg_inv (reg\<lparr>dr_persistentFences := f, dr_retiredTasks := mdel (dr_retiredTasks reg) i,
      dr_retiredTokens := a, dr_retiredRequests := mdel (dr_retiredRequests reg) k, dr_finalizedTaskStatuses := m\<rparr>)"
    if "minv a" for a
    using inv_finalized inv_retiredTokens inv_del_retiredRequest [OF base] that by (simp add: reg_inv_defs)
  moreover have "reg_inv (reg\<lparr>dr_persistentFences := f, dr_retiredTasks := mdel (dr_retiredTasks reg) i,
      dr_retiredTokens := a, dr_finalizedTaskStatuses := m\<rparr>)" if "minv a" for a
    using base that by (simp add: reg_inv_defs)
  ultimately show "reg_inv (dropRetiredTask (dropRetired (r\<lparr>dr_finalizedTaskStatuses := m\<rparr>) k t) i u)"
    "reg_inv (dropRetiredTask (r\<lparr>dr_finalizedTaskStatuses := m\<rparr>) i u)"
    using minv by (cases t; cases u; simp add: r dropRetiredTask_def dropRetired_def Let_def reg_inv_defs)+
qed


lemma releaseRetiredTaskOperation_inv:
  assumes inv: "reg_inv reg" and here: "mget (dr_retiredTasks reg) i = Some task"
  shows "reg_inv (fst (releaseRetiredTaskOperation reg record task st))"
proof -
  let ?es = "[TKey tombstoneRequest (rr_key record), TKey tombstoneTask (taskTombstoneKey (ta_id task))] @
              tokenEntries (rr_token record) @ tokenEntries (ta_progressToken task)"
  have i: "ta_id task = i"
    using inv here by (simp add: reg_inv_def tasks_inv_def)
  have es: "\<forall>e \<in> set ?es. trole e = tombstoneTask \<longrightarrow> tkey e = taskTombstoneKey i"
    using i by (auto simp: tokenEntries_def split: option.splits)
  obtain r res where add: "addFences reg ?es = (r, res)"
    by (meson surj_pair)
  show ?thesis
  proof (cases res)
    case (Inl e)
    then show ?thesis
      using add addFences_Err [OF inv] inv by (auto simp: releaseRetiredTaskOperation_def)
  next
    case (Inr u)
    have "reg_inv (dropRetiredTask (dropRetired (r\<lparr>dr_finalizedTaskStatuses := m\<rparr>) k t) i u)" for m k t u
      using dropRetiredTask_inv(1) [OF inv _ mget_Some_mhas [OF here] es] add Inr by simp
    from this [of "dr_finalizedTaskStatuses r"] this show ?thesis
      using add Inr i by (auto simp: releaseRetiredTaskOperation_def Let_def)
  qed
qed

lemma handledBy_fst [simp]: "fst (handledBy p) = fst p"
  by (auto simp: handledBy_def split: prod.split sum.split)

lemma releaseRetiredRequest_fst: "reg_inv reg \<Longrightarrow> reg_inv (fst (releaseRetiredRequest reg record))"
  by (metis releaseRetiredRequest_inv prod.collapse)

lemma consumeRetiredOperation_inv:
  assumes inv: "reg_inv reg"
  shows "reg_inv (fst (consumeRetiredOperation reg record meta))"
proof -
  have t: "retiredTaskForOperation reg record = Ok (Some task) \<Longrightarrow>
      mget (dr_retiredTasks reg) (rr_taskID record) = Some task" for task
    by (auto simp: retiredTaskForOperation_def Let_def split: option.splits if_splits)
  have "reg_inv (r1\<lparr>dr_retiredTasks := mput (dr_retiredTasks r1) (rr_taskID record) (task\<lparr>ta_status := st\<rparr>)\<rparr>)"
    if "releaseRetiredRequest reg record = (r1, res)" "retiredTaskForOperation reg record = Ok (Some task)" for r1 res task st
    using inv_retiredTask_status [OF releaseRetiredRequest_inv [OF inv that(1)]]
      releaseRetiredRequest_retiredTasks [OF that(1)] t [OF that(2)] by simp
  then show ?thesis
    using inv releaseRetiredRequest_fst releaseRetiredRequest_inv [OF inv] releaseRetiredTaskOperation_inv [OF inv] t
    by (auto simp: consumeRetiredOperation_def split: sum.split option.split prod.split)
qed

lemma inv_bind_retired:
  assumes inv: "reg_inv reg" and can: "canBindTask reg (tm_id meta) = Ok ()"
  shows "reg_inv (reg\<lparr>dr_retiredRequests := mdel (dr_retiredRequests reg) k,
    dr_retiredTasks := mput (dr_retiredTasks reg) (tm_id meta) (boundTask record meta)\<rparr>)" (is "reg_inv ?r")
proof -
  have "minv (dr_retiredRequests reg)"
    using inv by (rule inv_minv)
  then have "limits_inv ?r"
    using inv canBindTask_Ok [OF can] by (auto simp: reg_inv_def limits_inv_def mlen_mdel mlen_mput)
  moreover have "tasks_inv ?r"
    using inv canBindTask_Ok [OF can] by (auto simp: reg_inv_def tasks_inv_def taskFenced_def boundTask_def)
  ultimately show ?thesis
    using inv by (auto simp: reg_inv_def maps_inv_def requests_inv_def)
qed

lemma consumeRetiredCreate_inv:
  assumes inv: "reg_inv reg"
  shows "reg_inv (fst (consumeRetiredCreate reg record response))"
proof -
  have "reg_inv (reg\<lparr>dr_persistentFences := f,
      dr_retiredRequests := mdel (dr_retiredRequests reg) (rr_key record),
      dr_retiredTasks := mput (dr_retiredTasks reg) (tm_id meta) (boundTask record meta)\<rparr>)"
    if f: "fence_add (dr_persistentFences reg) tombstoneRequest (rr_key record) = (f, res)"
      and can: "canBindTask reg (tm_id meta) = Ok ()" for f res meta
  proof -
    have "fence_contains f tombstoneTask x = fence_contains (dr_persistentFences reg) tombstoneTask x" for x
      using f by (auto simp: fence_add_def fence_contains_def split: if_splits)
    then have "canBindTask (reg\<lparr>dr_persistentFences := f\<rparr>) (tm_id meta) = Ok ()"
      using can by (simp add: canBindTask_def fencedKey_def split: if_splits)
    then show ?thesis
      using inv_bind_retired [OF fence_add_token_inv [OF inv f]] by simp
  qed
  then show ?thesis
    using inv fence_add_token_inv [OF inv, of tombstoneRequest]
    by (auto simp: consumeRetiredCreate_def split: option.split sum.split prod.split)
qed

lemma consumeRetiredResponse_inv: "reg_inv reg \<Longrightarrow> reg_inv (fst (consumeRetiredResponse reg response))"
  using releaseRetiredRequest_fst consumeRetiredCreate_inv consumeRetiredOperation_inv
  by (auto simp: consumeRetiredResponse_def split: option.split prod.split bool.split)

lemma consumeRetiredTaskStatus_inv:
  assumes inv: "reg_inv reg"
  shows "reg_inv (fst (consumeRetiredTaskStatus reg meta))"
proof (cases "mget (dr_retiredTasks reg) (tm_id meta)")
  case None
  then show ?thesis
    using inv by (auto simp: consumeRetiredTaskStatus_def Let_def split: sum.split)
next
  case (Some task)
  let ?es = "TKey tombstoneTask (taskTombstoneKey (tm_id meta)) # tokenEntries (ta_progressToken task)"
  obtain r res where add: "addFences reg ?es = (r, res)"
    by (meson surj_pair)
  have "\<forall>e \<in> set ?es. trole e = tombstoneTask \<longrightarrow> tkey e = taskTombstoneKey (tm_id meta)"
    by (auto simp: tokenEntries_def split: option.splits)
  then have "case res of Inl _ \<Rightarrow> r = reg
    | Inr _ \<Rightarrow> reg_inv (dropRetiredTask (r\<lparr>dr_finalizedTaskStatuses := m\<rparr>) (tm_id meta) u)" for m u
    using add addFences_Err [OF inv] dropRetiredTask_inv(2) [OF inv _ mget_Some_mhas [OF Some]]
    by (auto split: sum.split)
  then show ?thesis
    using inv Some add inv_retiredTask_status [OF inv Some]
    by (auto simp: consumeRetiredTaskStatus_def Let_def split: sum.splits)
qed

lemma clearTransitionTombstones_inv: "reg_inv reg \<Longrightarrow> reg_inv (clearTransitionTombstones reg)"
  unfolding clearTransitionTombstones_def
  by (rule inv_tombstones) (simp_all add: tombstone_clear_def ring_inv_def tombstone_contains_def tombstoneLimit_def)

lemma clearRetiredCorrelations_inv: "reg_inv reg \<Longrightarrow> reg_inv (clearRetiredCorrelations reg)"
  by (auto simp: reg_inv_defs clearRetiredCorrelations_def fence_clear_def fence_inv_def fence_contains_def)


section \<open>Finished ids stay out of the live maps\<close>

text \<open>No id of a live or retired request is among the transition tombstones.\<close>

definition live :: "directionRegistry \<Rightarrow> scalarKey \<Rightarrow> bool" where
  "live reg k \<longleftrightarrow> mhas (dr_requests reg) k \<or> mhas (dr_retiredRequests reg) k"

definition live_clear :: "directionRegistry \<Rightarrow> bool" where
  "live_clear reg \<longleftrightarrow> (\<forall>k. live reg k \<longrightarrow> \<not> tombstone_contains (dr_tombstones reg) tombstoneRequest k)"

text \<open>A step that makes no id live and no live id a tombstone.\<close>

definition keeps_clear :: "directionRegistry \<Rightarrow> directionRegistry \<Rightarrow> bool" where
  "keeps_clear reg r \<longleftrightarrow>
     (\<forall>k. live r k \<longrightarrow> live reg k \<and>
        (tombstone_contains (dr_tombstones r) tombstoneRequest k \<longrightarrow>
         tombstone_contains (dr_tombstones reg) tombstoneRequest k))"

lemma keeps_clear_live: "keeps_clear reg r \<Longrightarrow> live_clear reg \<Longrightarrow> live_clear r"
  unfolding keeps_clear_def live_clear_def by blast

lemma keeps_clear_same:
  "dr_requests r = dr_requests reg \<Longrightarrow> dr_retiredRequests r = dr_retiredRequests reg \<Longrightarrow>
     dr_tombstones r = dr_tombstones reg \<Longrightarrow> keeps_clear reg r"
  by (simp add: keeps_clear_def live_def)

lemma updateTask_same:
  "dr_requests (fst (updateTask reg meta g)) = dr_requests reg"
  "dr_retiredRequests (fst (updateTask reg meta g)) = dr_retiredRequests reg"
  "dr_tombstones (fst (updateTask reg meta g)) = dr_tombstones reg"
  by (auto simp: updateTask_def updateTaskActive_def Let_def split: option.split sum.split prod.split)

lemma finalizeTask_same:
  "dr_requests (fst (finalizeTask reg i g)) = dr_requests reg"
  "dr_retiredRequests (fst (finalizeTask reg i g)) = dr_retiredRequests reg"
  "dr_tombstones (fst (finalizeTask reg i g)) = dr_tombstones reg"
  by (auto simp: finalizeTask_def finalizeTaskRecord_def addFences_def Let_def split: option.split sum.split prod.split)

lemma completeOperation_same:
  assumes "completeOperation reg record meta = (r, res)"
  shows "dr_requests r = dr_requests reg" "dr_retiredRequests r = dr_retiredRequests reg"
    "dr_tombstones r = dr_tombstones reg"
proof -
  have "r \<in> {reg, fst (finalizeTask reg (rr_taskID record) (rr_generation record))} \<union>
      {fst (updateTask reg m (rr_generation record)) |m. True}"
    using assms by (auto simp: completeOperation_def split: option.splits prod.splits sum.splits if_splits) (metis fst_conv)+
  then show "dr_requests r = dr_requests reg" "dr_retiredRequests r = dr_retiredRequests reg"
    "dr_tombstones r = dr_tombstones reg"
    by (auto simp: updateTask_same finalizeTask_same)
qed

text \<open>The fate of a request that is completed or cancelled: it leaves the map and its id is fenced.\<close>

lemma operation_taskRelated: "taskOperationResponse record response = (om, True, err) \<Longrightarrow> taskRelated record"
  by (auto simp: taskOperationResponse_def taskRelated_def split: if_splits)

lemma fenceRequest_Err_taskRelated: "fenceRequest reg record b = (r, Err e) \<Longrightarrow> taskRelated record"
  by (auto simp: fenceRequest_def Let_def split: if_splits)

lemma keeps_clear_fenced:
  assumes "reg_inv reg" and "fenceRequest reg record b = (r1, res)"
    and "dr_requests r = dr_requests r1" "dr_retiredRequests r = dr_retiredRequests r1" "dr_tombstones r = dr_tombstones r1"
    and "taskRelated record"
  shows "keeps_clear reg r"
  using fenceRequest_tombstones [OF assms(1,2)] fenceRequest_simps [OF assms(2)] assms(3-6)
  by (auto simp: keeps_clear_def live_def)

lemma keeps_clear_finish:
  assumes "reg_inv reg" and "fenceRequest reg record b = (r1, res)" and "mhas (dr_requests reg) (rr_key record)"
    and "dr_requests r = mdel (dr_requests r1) (rr_key record)"
    and "dr_retiredRequests r = dr_retiredRequests r1" "dr_tombstones r = dr_tombstones r1"
  shows "keeps_clear reg r"
proof -
  have "\<not> mhas (dr_retiredRequests reg) (rr_key record)"
    using assms(1,3) by (simp add: reg_inv_def requests_inv_def)
  then show ?thesis
    using fenceRequest_tombstones [OF assms(1,2)] fenceRequest_simps [OF assms(2)] assms(4-6)
    by (auto simp: keeps_clear_def live_def)
qed

lemma updateTask_fences:
  assumes "fence_contains (dr_persistentFences reg) role k"
  shows "fence_contains (dr_persistentFences (fst (updateTask reg meta g))) role k"
proof -
  have "fence_contains (fst (fence_add (dr_persistentFences reg) tombstoneToken t)) role k" for t
    using assms by (rule fence.add_keeps)
  then have "fence_add (dr_persistentFences reg) tombstoneToken t = (f, res) \<Longrightarrow> fence_contains f role k" for t f res
    by (metis fst_conv)
  then show ?thesis
    using assms by (auto simp: updateTask_def updateTaskActive_def Let_def split: option.split sum.split prod.split)
qed

lemma finalizeTask_fences:
  assumes "reg_inv reg" and "fence_contains (dr_persistentFences reg) role k"
  shows "fence_contains (dr_persistentFences (fst (finalizeTask reg i g))) role k"
proof -
  have "addFences reg es = (r, res) \<Longrightarrow> fence_contains (dr_persistentFences r) role k" for es r res
    using addFences_form [OF assms(1), of es r res] assms(2) by (auto split: if_splits)
  then show ?thesis
    using assms(2)
    by (auto simp: finalizeTask_def finalizeTaskRecord_def Let_def split: option.split sum.split prod.split)
qed

lemma completeOperation_fences:
  assumes "reg_inv reg" and "completeOperation reg record meta = (r, res)"
    and "fence_contains (dr_persistentFences reg) role k"
  shows "fence_contains (dr_persistentFences r) role k"
proof -
  have "r \<in> {reg, fst (finalizeTask reg (rr_taskID record) (rr_generation record))} \<union>
      {fst (updateTask reg m (rr_generation record)) |m. True}"
    using assms(2) by (auto simp: completeOperation_def split: option.splits prod.splits sum.splits if_splits) (metis fst_conv)+
  then show ?thesis
    using assms(1,3) by (auto intro: updateTask_fences finalizeTask_fences)
qed

lemma complete_cases:
  assumes "reg_inv reg" and c: "complete reg record response = (r, res)"
  obtains (nothing) e where "r = reg" "res = Err e"
  | (failed) b r1 res1 e where "fenceRequest reg record b = (r1, res1)" "taskRelated record" "res = Err e"
      "dr_requests r = dr_requests r1" "dr_retiredRequests r = dr_retiredRequests r1" "dr_tombstones r = dr_tombstones r1"
  | (finished) b r1 where "fenceRequest reg record b = (r1, Ok ())" "res = Ok ()"
      "dr_requests r = mdel (dr_requests r1) (rr_key record)"
      "dr_retiredRequests r = dr_retiredRequests r1" "dr_tombstones r = dr_tombstones r1"
      "\<And>k. fence_contains (dr_persistentFences r1) tombstoneRequest k \<Longrightarrow>
        fence_contains (dr_persistentFences r) tombstoneRequest k"
proof -
  obtain om op err where top: "taskOperationResponse record response = (om, op, err)"
    by (metis prod.collapse)
  show thesis
  proof (cases err)
    case (Some e)
    then have "r = reg" "res = Err e"
      using c top by (auto simp: complete_def)
    then show ?thesis
      by (rule nothing)
  next
    case None
    let ?b = "bindsTask record response op"
    obtain r1 res1 where f: "fenceRequest reg record (?b = None) = (r1, res1)"
      by (meson surj_pair)
    obtain r2 res2 where o: "(if op then completeOperation r1 record om else (r1, Ok ())) = (r2, res2)"
      by (meson surj_pair)
    have inv1: "reg_inv r1"
      using fenceRequest_inv [OF assms(1) f] .
    have same: "dr_requests r2 = dr_requests r1" "dr_retiredRequests r2 = dr_retiredRequests r1"
      "dr_tombstones r2 = dr_tombstones r1"
      using o completeOperation_same by (auto split: if_splits)
    have fences: "fence_contains (dr_persistentFences r1) tombstoneRequest k \<Longrightarrow>
        fence_contains (dr_persistentFences r2) tombstoneRequest k" for k
      using o completeOperation_fences [OF inv1] by (auto split: if_splits)
    consider (e1) e where "res1 = Err e" | (e2) e where "res1 = Ok ()" "res2 = Err e" | (ok) "res1 = Ok ()" "res2 = Ok ()"
      by (metis (full_types) sum.exhaust old.unit.exhaust)
    then show ?thesis
    proof cases
      case e1
      then have "r = r1" "res = Err e"
        using c top None f by (simp_all add: complete_def Let_def)
      then show ?thesis
        using failed [OF f] fenceRequest_Err_taskRelated f e1 by simp
    next
      case e2
      then have "op"
        using o by (auto split: if_splits)
      then have "taskRelated record"
        using operation_taskRelated top by simp
      moreover have "r = r2" "res = Err e"
        using c top None f o e2 by (simp_all add: complete_def Let_def)
      ultimately show ?thesis
        using failed [OF f] same by simp
    next
      case ok
      let ?r3 = "r2\<lparr>dr_requests := mdel (dr_requests r2) (rr_key record)\<rparr>"
      have "res = Ok () \<and> (r = removeToken ?r3 record \<or> (\<exists>m. r = ?r3\<lparr>dr_tasks := m\<rparr>))"
        using c top None f o ok by (auto simp: complete_def Let_def split: if_splits option.splits)
      then show ?thesis
        using finished [of "?b = None" r1] f ok same fences by (auto simp: removeToken_def)
    qed
  qed
qed

lemma complete_keeps_clear:
  assumes "reg_inv reg" and "mget (dr_requests reg) (rr_key record) = Some record"
    and "complete reg record response = (r, res)"
  shows "keeps_clear reg r"
proof (cases rule: complete_cases [OF assms(1,3)])
  case 1
  then show ?thesis by (simp add: keeps_clear_same)
next
  case 2
  then show ?thesis using keeps_clear_fenced [OF assms(1)] by blast
next
  case 3
  then show ?thesis
    using keeps_clear_finish [OF assms(1)] mget_Some_mhas [OF assms(2)] by blast
qed

lemma cancel_cases:
  assumes "cancel reg record = (r, res)"
  obtains (failed) r1 e where "fenceRequest reg record True = (r1, Err e)" "r = r1" "res = Err e"
  | (finished) r1 where "fenceRequest reg record True = (r1, Ok ())" "res = Ok ()"
      "dr_requests r = mdel (dr_requests r1) (rr_key record)" "dr_persistentFences r = dr_persistentFences r1"
      "dr_retiredRequests r = dr_retiredRequests r1" "dr_tombstones r = dr_tombstones r1"
proof -
  obtain r1 res1 where f: "fenceRequest reg record True = (r1, res1)"
    by (meson surj_pair)
  show thesis
  proof (cases res1)
    case (Inl e)
    then show ?thesis
      using failed [of r1 e] f assms by (simp add: cancel_def)
  next
    case (Inr u)
    then show ?thesis
      using finished [of r1] f assms by (auto simp: cancel_def removeToken_def)
  qed
qed

lemma cancel_keeps_clear:
  assumes "reg_inv reg" and "mget (dr_requests reg) (rr_key record) = Some record" and "cancel reg record = (r, res)"
  shows "keeps_clear reg r"
proof (cases rule: cancel_cases [OF assms(3)])
  case 1
  then show ?thesis
    using keeps_clear_fenced [OF assms(1)] fenceRequest_Err_taskRelated by blast
next
  case 2
  then show ?thesis
    using keeps_clear_finish [OF assms(1)] mget_Some_mhas [OF assms(2)] by blast
qed


lemma releaseRetired_keeps_clear:
  assumes "reg_inv reg" and "mget (dr_retiredRequests reg) (rr_key record) = Some record"
    and "releaseRetiredRequest reg record = (r, res)"
  shows "keeps_clear reg r"
proof -
  obtain r1 res1 where f: "fenceRequest reg record True = (r1, res1)"
    by (meson surj_pair)
  have "\<not> mhas (dr_requests reg) (rr_key record)"
    using assms(1) mget_Some_mhas [OF assms(2)] by (auto simp: reg_inv_def requests_inv_def)
  then show ?thesis
  proof (cases res1)
    case (Inl e)
    then have "r = r1" "taskRelated record"
      using assms(3) f fenceRequest_Err_taskRelated [of reg _ True r1 e] by (auto simp: releaseRetiredRequest_def)
    then show ?thesis
      using keeps_clear_fenced [OF assms(1) f] by simp
  next
    case (Inr u)
    then have "dr_requests r = dr_requests reg" "dr_tombstones r = dr_tombstones r1"
      "dr_retiredRequests r = mdel (dr_retiredRequests reg) (rr_key record)"
      using assms(3) f fenceRequest_simps [OF f]
      by (auto simp: releaseRetiredRequest_def dropRetired_def Let_def split: option.splits)
    then show ?thesis
      using fenceRequest_tombstones [OF assms(1) f] \<open>\<not> mhas (dr_requests reg) (rr_key record)\<close>
      by (auto simp: keeps_clear_def live_def)
  qed
qed

lemma retiredTaskOperation_same:
  assumes "releaseRetiredTaskOperation reg record task st = (r, res)"
  shows "keeps_clear reg r"
  using assms
  by (auto simp: releaseRetiredTaskOperation_def addFences_def dropRetired_def dropRetiredTask_def Let_def
      keeps_clear_def live_def split: prod.splits sum.splits option.splits if_splits)

lemma keeps_clear_put:
  "keeps_clear reg r \<Longrightarrow> keeps_clear reg (r\<lparr>dr_retiredTasks := m\<rparr>)"
  by (simp add: keeps_clear_def live_def)

lemma keeps_clear_finalized:
  "keeps_clear (reg\<lparr>dr_finalizedTaskStatuses := m\<rparr>) r = keeps_clear reg r"
  by (simp add: keeps_clear_def live_def)

lemma keeps_clear_refl [simp]: "keeps_clear reg reg"
  by (simp add: keeps_clear_same)

lemma consumeRetiredOperation_clear:
  assumes inv: "reg_inv reg" and rec: "mget (dr_retiredRequests reg) (rr_key record) = Some record"
  shows "keeps_clear reg (fst (consumeRetiredOperation reg record meta))"
proof -
  have rel1: "keeps_clear reg (fst (releaseRetiredRequest reg record))"
    using releaseRetired_keeps_clear [OF inv rec] by (metis prod.collapse)
  have rel2: "keeps_clear reg (fst (releaseRetiredRequest (reg\<lparr>dr_finalizedTaskStatuses := m\<rparr>) record))" for m
  proof -
    have "mget (dr_retiredRequests (reg\<lparr>dr_finalizedTaskStatuses := m\<rparr>)) (rr_key record) = Some record"
      using rec by simp
    then show ?thesis
      using releaseRetired_keeps_clear [of "reg\<lparr>dr_finalizedTaskStatuses := m\<rparr>"] inv
      unfolding inv_finalized keeps_clear_finalized by (metis prod.collapse)
  qed
  have op: "keeps_clear reg (fst (releaseRetiredTaskOperation reg record task st))" for task st
    using retiredTaskOperation_same by (metis prod.collapse)
  have st: "keeps_clear reg (fst (case releaseRetiredRequest reg record of
      (r1, Inl e) \<Rightarrow> (r1, Err e)
    | (r1, Inr _) \<Rightarrow> (r1\<lparr>dr_retiredTasks := mput (dr_retiredTasks r1) i t\<rparr>, Ok True :: bool result)))" for i t
    using rel1 keeps_clear_put by (auto split: prod.splits sum.splits)
  show ?thesis
    unfolding consumeRetiredOperation_def using rel1 rel2 op st
    by (auto split: sum.split option.split)
qed


lemma consumeRetiredCreate_clear: "keeps_clear reg (fst (consumeRetiredCreate reg record response))"
  by (auto simp: consumeRetiredCreate_def keeps_clear_def live_def split: option.split sum.split prod.split)

lemma consumeRetiredResponse_clear:
  assumes inv: "reg_inv reg"
  shows "keeps_clear reg (fst (consumeRetiredResponse reg response))"
proof -
  have rec: "mget (dr_retiredRequests reg) (rr_key r) = Some r" if "mget (dr_retiredRequests reg) k = Some r" for k r
    using inv that by (simp add: reg_inv_def requests_inv_def)
  have rel1: "mget (dr_retiredRequests reg) k = Some r \<Longrightarrow> keeps_clear reg (fst (releaseRetiredRequest reg r))" for k r
    using releaseRetired_keeps_clear [OF inv rec] by (metis prod.collapse)
  show ?thesis
    using rel1 consumeRetiredOperation_clear [OF inv rec] consumeRetiredCreate_clear
    by (auto simp: consumeRetiredResponse_def bind_eq_None_conv bind_eq_Some_conv split: option.split prod.split bool.split)
qed

lemma consumeRetiredTaskStatus_clear: "keeps_clear reg (fst (consumeRetiredTaskStatus reg meta))"
  by (auto simp: consumeRetiredTaskStatus_def addFences_def dropRetiredTask_def Let_def keeps_clear_def live_def
      split: option.split sum.split prod.split)

lemma retireRequest_clear:
  "mhas (dr_requests reg) (rr_key record) \<Longrightarrow> keeps_clear reg (retireRequest reg record)"
  by (auto simp: keeps_clear_def live_def)

lemma retireGeneration_clear:
  assumes inv: "reg_inv reg"
  shows "keeps_clear reg (fst (retireGenerationChecked reg g))"
proof -
  obtain r1 res where add: "addFences reg (retireEntries reg g) = (r1, res)"
    by (meson surj_pair)
  have "keeps_clear reg (retireAll r1 g)" if "res = Ok ()"
  proof -
    note spec = retireAll_spec [OF inv, of g r1]
    have "mhas (dr_requests reg) k" if "k \<in> rr_key ` set (generationRequests reg g)" for k
      using that generationRequests_set [OF inv] by (auto dest: mget_Some_mhas)
    then show ?thesis
      using spec add that mhas_mkeep [OF inv_minv(1) [OF inv]]
      by (auto simp: keeps_clear_def live_def mhas_foldl_mput dest: mget_Some_mhas)
  qed
  moreover have "r1 = reg" if "res \<noteq> Ok ()"
    using add addFences_Err [OF inv] that by (cases res) auto
  ultimately show ?thesis
    using add by (auto simp: retireGenerationChecked_def split: sum.splits)
qed

section \<open>The registry as the router drives it\<close>

datatype registry_event =
    Register parsedFrame nat
  | Complete scalarKey parsedFrame
  | Cancel scalarKey
  | UpdateTask taskMeta nat
  | Progress progressMeta nat
  | RetireRequest scalarKey
  | RetireGeneration nat
  | LateResponse parsedFrame
  | LateTaskStatus taskMeta
  | ClearTombstones
  | ClearRetired

text \<open>
  Every call the router makes: a request is registered after \<open>canRegister\<close>, a response completes
  the request filed under its id after \<open>canComplete\<close>, a cancellation is for a filed request.
\<close>

fun registry_step :: "directionRegistry \<Rightarrow> registry_event \<Rightarrow> directionRegistry" where
  "registry_step reg (Register frame g) =
     (case (canRegister reg frame, register reg frame g) of
        (Inr _, Some (r, _)) \<Rightarrow> r
      | _ \<Rightarrow> reg)"
| "registry_step reg (Complete k response) =
     (case mget (dr_requests reg) k of
        None \<Rightarrow> reg
      | Some r \<Rightarrow> (case canComplete reg r response of Inl _ \<Rightarrow> reg | Inr _ \<Rightarrow> fst (complete reg r response)))"
| "registry_step reg (Cancel k) = (case mget (dr_requests reg) k of None \<Rightarrow> reg | Some r \<Rightarrow> fst (cancel reg r))"
| "registry_step reg (UpdateTask meta g) = fst (updateTask reg meta g)"
| "registry_step reg (Progress meta g) = fst (acceptProgress reg meta g)"
| "registry_step reg (RetireRequest k) =
     (case mget (dr_requests reg) k of None \<Rightarrow> reg | Some r \<Rightarrow> retireRequest reg r)"
| "registry_step reg (RetireGeneration g) = fst (retireGenerationChecked reg g)"
| "registry_step reg (LateResponse response) = fst (consumeRetiredResponse reg response)"
| "registry_step reg (LateTaskStatus meta) = fst (consumeRetiredTaskStatus reg meta)"
| "registry_step reg ClearTombstones = clearTransitionTombstones reg"
| "registry_step reg ClearRetired = clearRetiredCorrelations reg"

definition registry_ok :: "directionRegistry \<Rightarrow> bool" where
  "registry_ok reg \<longleftrightarrow> reg_inv reg \<and> live_clear reg"

lemma acceptProgress_same:
  "dr_requests (fst (acceptProgress reg meta g)) = dr_requests reg"
  "dr_retiredRequests (fst (acceptProgress reg meta g)) = dr_retiredRequests reg"
  "dr_tombstones (fst (acceptProgress reg meta g)) = dr_tombstones reg"
  by (auto simp: acceptProgress_def split: option.split)

lemma register_ok:
  assumes "registry_ok reg" and "canRegister reg frame = Ok ()" and "register reg frame g = Some (r, record)"
  shows "registry_ok r"
proof -
  obtain i where "fr_id frame = Some i" "\<not> fencedKey reg tombstoneRequest (sv_key i)"
    using canRegister_Ok [OF assms(2)] by blast
  then have "live_clear r"
    using assms(1,3) by (auto simp: registry_ok_def live_clear_def live_def register_def putRecord_def fencedKey_def)
  then show ?thesis
    using assms(1) register_inv [OF _ assms(2,3)] by (simp add: registry_ok_def)
qed

lemma registry_keyed: "reg_inv reg \<Longrightarrow> mget (dr_requests reg) k = Some r \<Longrightarrow> mget (dr_requests reg) (rr_key r) = Some r"
  by (simp add: reg_inv_def requests_inv_def)

lemma registry_step_ok:
  assumes "registry_ok reg"
  shows "registry_ok (registry_step reg e)"
proof -
  have inv: "reg_inv reg" and clear: "live_clear reg"
    using assms by (simp_all add: registry_ok_def)
  have ok: "registry_ok r" if "reg_inv r" "keeps_clear reg r" for r
    using that keeps_clear_live clear by (simp add: registry_ok_def)
  show ?thesis
  proof (cases e)
    case (Register frame g)
    then show ?thesis
      using assms register_ok by (auto split: sum.split option.split)
  next
    case (Complete k response)
    have "registry_ok (fst (complete reg r response))"
      if "mget (dr_requests reg) k = Some r" "canComplete reg r response = Ok ()" for r
      using ok complete_inv [OF inv registry_keyed [OF inv that(1)] that(2)]
        complete_keeps_clear [OF inv registry_keyed [OF inv that(1)]] by (metis prod.collapse)
    then show ?thesis
      using Complete assms by (auto split: option.split sum.split)
  next
    case (Cancel k)
    have "registry_ok (fst (cancel reg r))" if "mget (dr_requests reg) k = Some r" for r
      using ok cancel_inv [OF inv] cancel_keeps_clear [OF inv registry_keyed [OF inv that]] by (metis prod.collapse)
    then show ?thesis
      using Cancel assms by (auto split: option.split)
  next
    case ClearTombstones
    have "keeps_clear reg (clearTransitionTombstones reg)"
      by (simp add: keeps_clear_def live_def clearTransitionTombstones_def tombstone_contains_def tombstone_clear_def)
    then show ?thesis
      using ClearTombstones inv by (simp add: ok clearTransitionTombstones_inv)
  next
    case ClearRetired
    have "keeps_clear reg (clearRetiredCorrelations reg)"
      by (simp add: keeps_clear_def live_def clearRetiredCorrelations_def)
    then show ?thesis
      using ClearRetired inv by (simp add: ok clearRetiredCorrelations_inv)
  next
    case (RetireRequest k)
    then show ?thesis
      using assms ok retireRequest_inv [OF inv registry_keyed [OF inv]] retireRequest_clear
        registry_keyed [OF inv, THEN mget_Some_mhas] by (auto split: option.split)
  qed (use inv ok in \<open>auto simp: updateTask_inv acceptProgress_inv retireGenerationChecked_inv
      consumeRetiredResponse_inv consumeRetiredTaskStatus_inv clearTransitionTombstones_inv
      clearRetiredCorrelations_inv retireGeneration_clear consumeRetiredResponse_clear
      consumeRetiredTaskStatus_clear intro!: ok keeps_clear_same updateTask_same acceptProgress_same\<close>)
qed


interpretation regm: invariant_machine registry_step registry_ok
  by unfold_locales (rule registry_step_ok)

lemma registry_run_ok: "registry_ok (foldl registry_step newDirectionRegistry es)"
proof (rule regm.run_inv)
  show "registry_ok newDirectionRegistry"
    using reg_inv_new by (simp add: registry_ok_def live_clear_def live_def newDirectionRegistry_def)
qed



definition demo_request :: parsedFrame where
  "demo_request = (emptyFrame ''x'')\<lparr>fr_id := Some \<lparr>sv_key = SKey scalarNumber ''7e0'', sv_raw = ''7''\<rparr>,
     fr_method := ''tools/call''\<rparr>"



section \<open>Progress\<close>

text \<open>The notifications that are forwarded out of a sequence of them.\<close>

fun acceptedProgress :: "directionRegistry \<Rightarrow> nat \<Rightarrow> progressMeta list \<Rightarrow> progressMeta list" where
  "acceptedProgress reg g [] = []"
| "acceptedProgress reg g (m # ms) =
     (case acceptProgress reg m g of (r, ok) \<Rightarrow> (if ok then [m] else []) @ acceptedProgress r g ms)"

lemma acceptedProgress_bound:
  assumes "\<forall>m \<in> set ms. sv_key (pm_token m) = t \<and> isNumberKey (pm_progress m)"
    and "mget (dr_tokens reg) t = Some tok" and "to_hasLast tok" and "isNumberKey (to_last tok)"
  shows "(\<forall>m \<in> set (acceptedProgress reg g ms). keyValue (to_last tok) < keyValue (pm_progress m)) \<and>
    sorted_wrt (<) (map (\<lambda>m. keyValue (pm_progress m)) (acceptedProgress reg g ms))"
  using assms
proof (induction ms arbitrary: reg tok)
  case (Cons m ms)
  let ?acc = "to_generation tok = g \<and> \<not> compareCanonicalNumbers (pm_progress m) (to_last tok) \<le> 0"
  let ?tok = "tok\<lparr>to_last := pm_progress m, to_hasLast := True\<rparr>"
  let ?reg = "reg\<lparr>dr_tokens := mput (dr_tokens reg) t ?tok\<rparr>"
  have a: "acceptProgress reg m g = (if ?acc then (?reg, True) else (reg, False))"
    using Cons.prems by (simp add: acceptProgress_def)
  have n: "isNumberKey (pm_progress m)"
    using Cons.prems by simp
  have less: "keyValue (to_last tok) < keyValue (pm_progress m)" if ?acc
    using that compare_keys [OF n Cons.prems(4)] by simp
  have IH: "\<forall>x \<in> set (acceptedProgress ?reg g ms). keyValue (pm_progress m) < keyValue (pm_progress x)"
    "sorted_wrt (<) (map (\<lambda>m. keyValue (pm_progress m)) (acceptedProgress ?reg g ms))"
    using Cons.IH [of ?reg ?tok] Cons.prems n by simp_all
  have IH0: "\<forall>x \<in> set (acceptedProgress reg g ms). keyValue (to_last tok) < keyValue (pm_progress x)"
    "sorted_wrt (<) (map (\<lambda>m. keyValue (pm_progress m)) (acceptedProgress reg g ms))"
    using Cons.IH [of reg tok] Cons.prems by simp_all
  show ?case
  proof (cases ?acc)
    case True
    then have "acceptProgress reg m g = (?reg, True)"
      using a by simp
    then show ?thesis
      using IH less [OF True] by (auto intro: less_trans)
  next
    case False
    then have "acceptProgress reg m g = (reg, False)"
      unfolding a by (rule if_not_P)
    then show ?thesis
      using IH0 by simp
  qed
qed simp

text \<open>C33: the progress notifications that reach the other side for one token strictly increase, as
  exact rational numbers, whatever values arrive and however they are written.\<close>

theorem progress_strictly_increases:
  assumes "\<forall>m \<in> set ms. sv_key (pm_token m) = t \<and> isNumberKey (pm_progress m)"
    and "\<forall>tok. mget (dr_tokens reg) t = Some tok \<longrightarrow> \<not> to_hasLast tok"
  shows "sorted_wrt (<) (map (\<lambda>m. keyValue (pm_progress m)) (acceptedProgress reg g ms))"
  using assms
proof (induction ms)
  case (Cons m ms)
  let ?tok = "\<lambda>tok. tok\<lparr>to_last := pm_progress m, to_hasLast := True\<rparr>"
  let ?reg = "\<lambda>tok. reg\<lparr>dr_tokens := mput (dr_tokens reg) t (?tok tok)\<rparr>"
  have n: "isNumberKey (pm_progress m)"
    using Cons.prems by simp
  show ?case
  proof (cases "\<exists>tok. mget (dr_tokens reg) t = Some tok \<and> to_generation tok = g")
    case True
    then obtain tok where tok: "mget (dr_tokens reg) t = Some tok" "to_generation tok = g"
      by blast
    then have "acceptProgress reg m g = (?reg tok, True)"
      using Cons.prems by (simp add: acceptProgress_def)
    then show ?thesis
      using acceptedProgress_bound [of ms t "?reg tok" "?tok tok" g] Cons.prems n by simp
  next
    case False
    then have "acceptProgress reg m g = (reg, False)"
      using Cons.prems by (auto simp: acceptProgress_def split: option.split)
    then show ?thesis
      using Cons by simp
  qed
qed simp

definition demo_progress :: "bytes \<Rightarrow> progressMeta" where
  "demo_progress v = \<lparr>pm_token = \<lparr>sv_key = SKey scalarString ''p'', sv_raw = []\<rparr>, pm_progress = v\<rparr>"

definition demo_registry :: directionRegistry where
  "demo_registry = newDirectionRegistry\<lparr>dr_tokens :=
     [(SKey scalarString ''p'', \<lparr>to_requestID = SKey scalarNumber ''1e0'', to_generation = 1, to_last = [], to_hasLast = False\<rparr>)]\<rparr>"

theorem progress_strictly_increases_witness:
  "map pm_progress (acceptedProgress demo_registry 1 (map demo_progress [''1e0'', ''5e-1'', ''2e0''])) = [''1e0'', ''2e0''] \<and>
   keyValue ''1e0'' < keyValue ''2e0''"
proof -
  have run: "map pm_progress (acceptedProgress demo_registry 1 (map demo_progress [''1e0'', ''5e-1'', ''2e0''])) = [''1e0'', ''2e0'']"
    by code_simp
  have "canonicalJSONNumber ''1'' = Some ''1e0''" "canonicalJSONNumber ''0.5'' = Some ''5e-1''"
    "canonicalJSONNumber ''2'' = Some ''2e0''"
    by code_simp+
  then have "isNumberKey ''1e0''" "isNumberKey ''5e-1''" "isNumberKey ''2e0''"
    unfolding isNumberKey_def by blast+
  then have "sorted_wrt (<) (map (\<lambda>m. keyValue (pm_progress m))
      (acceptedProgress demo_registry 1 (map demo_progress [''1e0'', ''5e-1'', ''2e0''])))"
    by (intro progress_strictly_increases [of _ "SKey scalarString ''p''"])
      (auto simp: demo_progress_def demo_registry_def mget_def)
  then have "sorted_wrt (<) (map keyValue [''1e0'', ''2e0''])"
    unfolding run [symmetric] by (simp add: comp_def)
  then show ?thesis
    using run by simp
qed

section \<open>Losing a generation\<close>

lemma lostRequests_spec:
  assumes "reg_inv reg"
  shows "sorted (map rr_key (lostRequests reg g)) \<and> distinct (map rr_key (lostRequests reg g)) \<and>
    (\<forall>r. r \<in> set (lostRequests reg g) \<longleftrightarrow>
       mget (dr_requests reg) (rr_key r) = Some r \<and> rr_generation r = g \<and> \<not> rr_initialize r)"
proof -
  have "distinct (map rr_key (filter (\<lambda>r. \<not> rr_initialize r) (generationRequests reg g)))"
    by (rule distinct_map_filter [OF generationRequests_distinct [OF assms]])
  then show ?thesis
    using generationRequests_set [OF assms] by (auto simp: lostRequests_def distinct_map)
qed

lemma retired_requests_lookup:
  assumes inv: "reg_inv reg"
  shows "mget (mkeep (\<lambda>k _. k \<notin> rr_key ` set (generationRequests reg g)) (dr_requests reg)) k =
      (case mget (dr_requests reg) k of None \<Rightarrow> None | Some r \<Rightarrow> if rr_generation r = g then None else Some r)"
    and "mget (foldl (\<lambda>m r. mput m (rr_key r) r) (dr_retiredRequests reg) (generationRequests reg g)) k =
      (case mget (dr_requests reg) k of
         Some r \<Rightarrow> if rr_generation r = g then Some r else mget (dr_retiredRequests reg) k
       | None \<Rightarrow> mget (dr_retiredRequests reg) k)"
proof -
  let ?rs = "generationRequests reg g"
  have keyed: "mget (dr_requests reg) k = Some r \<Longrightarrow> rr_key r = k" for k r
    using inv by (simp add: reg_inv_def requests_inv_def)
  have mem: "k \<in> rr_key ` set ?rs \<longleftrightarrow> (\<exists>r. mget (dr_requests reg) k = Some r \<and> rr_generation r = g)"
    using generationRequests_set [OF inv] keyed by (auto simp: image_iff) force
  then show "mget (mkeep (\<lambda>k _. k \<notin> rr_key ` set ?rs) (dr_requests reg)) k =
      (case mget (dr_requests reg) k of None \<Rightarrow> None | Some r \<Rightarrow> if rr_generation r = g then None else Some r)"
    using mget_mkeep [OF inv_minv(1) [OF inv]] by (auto split: option.split)
  have find: "find (\<lambda>r. rr_key r = k) ?rs =
      (case mget (dr_requests reg) k of Some r \<Rightarrow> if rr_generation r = g then Some r else None | None \<Rightarrow> None)"
  proof (cases "find (\<lambda>r. rr_key r = k) ?rs")
    case None
    then have "k \<notin> rr_key ` set ?rs"
      by (auto simp: find_None_iff)
    then show ?thesis
      using mem None by (auto split: option.split)
  next
    case (Some r)
    then have "r \<in> set ?rs" "rr_key r = k"
      by (auto simp: find_Some_iff)
    then show ?thesis
      using generationRequests_set [OF inv] Some by auto
  qed
  show "mget (foldl (\<lambda>m r. mput m (rr_key r) r) (dr_retiredRequests reg) ?rs) k =
      (case mget (dr_requests reg) k of
         Some r \<Rightarrow> if rr_generation r = g then Some r else mget (dr_retiredRequests reg) k
       | None \<Rightarrow> mget (dr_retiredRequests reg) k)"
    using mget_foldl_mput [OF generationRequests_distinct [OF inv], of "\<lambda>r. r"] find
    by (simp split: option.split)
qed

lemma retired_task_lookup:
  assumes "minv m" and "mget m i = Some t" and "ta_generation t = g"
  shows "mget (foldl (\<lambda>m p. mput m (fst p) (snd p)) m' (generationTasks m g)) i = Some t"
proof -
  let ?ts = "generationTasks m g"
  have d: "distinct (map fst ?ts)"
    using generationTasks_distinct [OF assms(1)] .
  have here: "(i, t) \<in> set ?ts"
    using generationTasks_set [OF assms(1)] assms(2,3) by simp
  obtain p where p: "find (\<lambda>p. fst p = i) ?ts = Some p"
    using here by (cases "find (\<lambda>p. fst p = i) ?ts") (auto simp: find_None_iff)
  then have "p \<in> set ?ts" "fst p = i"
    by (auto simp: find_Some_iff)
  moreover from this have "(i, snd p) \<in> set ?ts"
    by (metis prod.collapse)
  then have "snd p = t"
    using generationTasks_set [OF assms(1)] assms(2) by simp
  ultimately have "p = (i, t)"
    by (metis prod.collapse)
  then show ?thesis
    using mget_foldl_mput [OF d, of snd] p by simp
qed

text \<open>when an engine generation is lost, every request of that generation and no other leaves the
  active map and is remembered as retired, so that its id stays taken; exactly its requests other
  than initialize are reported as lost, once each and in the order of their ids; its tasks are
  retired and its terminal tasks are fenced.\<close>

theorem retire_generation_correct:
  assumes "reg_inv reg" and "retireGenerationChecked reg g = (reg', Ok lost)"
  shows "reg_inv reg' \<and> sorted (map rr_key lost) \<and> distinct (map rr_key lost) \<and>
    (\<forall>r. r \<in> set lost \<longleftrightarrow>
       mget (dr_requests reg) (rr_key r) = Some r \<and> rr_generation r = g \<and> \<not> rr_initialize r) \<and>
    (\<forall>k. mget (dr_requests reg') k =
       (case mget (dr_requests reg) k of None \<Rightarrow> None | Some r \<Rightarrow> if rr_generation r = g then None else Some r)) \<and>
    (\<forall>k. mget (dr_retiredRequests reg') k =
       (case mget (dr_requests reg) k of
          Some r \<Rightarrow> if rr_generation r = g then Some r else mget (dr_retiredRequests reg) k
        | None \<Rightarrow> mget (dr_retiredRequests reg) k)) \<and>
    (\<forall>i t. mget (dr_tasks reg) i = Some t \<longrightarrow> ta_generation t = g \<longrightarrow> mget (dr_retiredTasks reg') i = Some t) \<and>
    (\<forall>i t. mget (dr_terminalTasks reg) i = Some t \<longrightarrow> ta_generation t = g \<longrightarrow> taskFenced reg' i)"
proof -
  obtain r1 where add: "addFences reg (retireEntries reg g) = (r1, Ok ())"
    and reg': "reg' = retireAll r1 g" and lost: "lost = lostRequests reg g"
    using assms(2) by (auto simp: retireGenerationChecked_def split: sum.splits prod.splits)
  note spec = retireAll_spec [OF assms(1) add, folded reg']
  have fenced: "taskFenced reg' i" if "mget (dr_terminalTasks reg) i = Some t" "ta_generation t = g" for i t
  proof -
    have "(i, t) \<in> set (generationTasks (dr_terminalTasks reg) g)"
      using that generationTasks_set [OF inv_minv(4) [OF assms(1)]] by simp
    then have "TKey tombstoneTask (taskTombstoneKey i) \<in> set (retireEntries reg g)"
      unfolding retireEntries_task by force
    then show ?thesis
      using addFences_form [OF assms(1) add] spec(7) by (auto simp: taskFenced_def)
  qed
  have "mget (dr_retiredTasks reg') i = Some t" if "mget (dr_tasks reg) i = Some t" "ta_generation t = g" for i t
    unfolding spec(5) using that by (intro retired_task_lookup inv_minv [OF assms(1)])
  then show ?thesis
    using spec(1) lostRequests_spec [OF assms(1), of g] fenced
    unfolding lost spec(2,3) retired_requests_lookup [OF assms(1)] by blast
qed

theorem retire_generation_correct_witness:
  "\<exists>reg'. retireGenerationChecked (foldl registry_step newDirectionRegistry [Register demo_request 1]) 1 =
      (reg', Ok [recordOf demo_request \<lparr>sv_key = SKey scalarNumber ''7e0'', sv_raw = ''7''\<rparr> 1]) \<and>
    mhas (dr_retiredRequests reg') (SKey scalarNumber ''7e0'')"
proof -
  let ?i = "\<lparr>sv_key = SKey scalarNumber ''7e0'', sv_raw = ''7''\<rparr>"
  let ?reg = "foldl registry_step newDirectionRegistry [Register demo_request 1]"
  let ?rec = "recordOf demo_request ?i 1"
  have reg: "dr_requests ?reg = [(SKey scalarNumber ''7e0'', ?rec)]"
    by (simp add: demo_request_def emptyFrame_def canRegister_def register_def putRecord_def recordOf_def rr_key_def
        rr_token_def newDirectionRegistry_def fencedKey_def tombstone_contains_def emptyTombstones_def
        fence_contains_def emptyFence_def hasTaskLifecycle_def activeCorrelationLimit_def retainedCorrelationLimit_def
        mput_def)
  have "snd (retireGenerationChecked ?reg 1) = Ok [?rec]"
    by code_simp
  then obtain reg' where run: "retireGenerationChecked ?reg 1 = (reg', Ok [?rec])"
    by (metis prod.collapse)
  have "reg_inv ?reg"
    using registry_run_ok by (simp add: registry_ok_def del: foldl_Cons)
  note c = retire_generation_correct [OF this run]
  have "mget (dr_retiredRequests reg') (SKey scalarNumber ''7e0'') = Some ?rec"
    using c reg by (simp add: mget_def recordOf_def del: foldl_Cons)
  then show ?thesis
    using run by (auto simp: mhas_def simp del: foldl_Cons)
qed

end
