(* ===== verification/Pending.thy ===== *)
theory Pending
  imports Frame
begin

text \<open>
  The queue of host frames that wait for an engine (\<open>muxcore/supervisor/queue.go\<close>, with
  \<open>removeModernRequest\<close> of \<open>modern.go\<close>): bounded by a number of frames and a number of bytes, with
  cancellation of a waiting request and duplicate checks on ids and progress tokens.
\<close>

section \<open>Operations\<close>

record pendingFrame =
  pf_sequence :: nat
  pf_arrived :: time
  pf_frame :: parsedFrame
  pf_sameGenerationOnly :: bool

record pendingQueue =
  pq_items :: "pendingFrame list"
  pq_bytes :: int

definition emptyQueue :: pendingQueue where
  "emptyQueue = \<lparr>pq_items = [], pq_bytes = 0\<rparr>"

definition itemSize :: "pendingFrame \<Rightarrow> int" where
  "itemSize item = int (length (fr_raw (pf_frame item))) + 1"

definition queueFull :: "pendingQueue \<Rightarrow> pendingFrame \<Rightarrow> int \<Rightarrow> int \<Rightarrow> bool" where
  "queueFull queue item maxFrames maxBytes \<longleftrightarrow>
     int (length (pq_items queue)) \<ge> maxFrames \<or> itemSize item > maxBytes - pq_bytes queue"

definition enqueue :: "pendingQueue \<Rightarrow> pendingFrame \<Rightarrow> int \<Rightarrow> int \<Rightarrow> pendingQueue \<times> bool" where
  "enqueue queue item maxFrames maxBytes =
     (if queueFull queue item maxFrames maxBytes then (queue, False)
      else (\<lparr>pq_items = pq_items queue @ [item], pq_bytes = pq_bytes queue + itemSize item\<rparr>, True))"

definition pushFrontBounded :: "pendingQueue \<Rightarrow> pendingFrame \<Rightarrow> int \<Rightarrow> int \<Rightarrow> pendingQueue \<times> bool" where
  "pushFrontBounded queue item maxFrames maxBytes =
     (if queueFull queue item maxFrames maxBytes then (queue, False)
      else (\<lparr>pq_items = item # pq_items queue, pq_bytes = pq_bytes queue + itemSize item\<rparr>, True))"

definition popQueue :: "pendingQueue \<Rightarrow> pendingQueue \<times> pendingFrame option" where
  "popQueue queue =
     (case pq_items queue of
        [] \<Rightarrow> (queue, None)
      | item # rest \<Rightarrow> (\<lparr>pq_items = rest, pq_bytes = pq_bytes queue - itemSize item\<rparr>, Some item))"

text \<open>
  The loops that look for the first item with a property and take it out of the slice by copying
  the tail over it: the item and the remaining items in order.
\<close>

fun takeFirst :: "('a \<Rightarrow> bool) \<Rightarrow> 'a list \<Rightarrow> ('a \<times> 'a list) option" where
  "takeFirst P [] = None"
| "takeFirst P (x # xs) =
     (if P x then Some (x, xs) else map_option (\<lambda>(y, ys). (y, x # ys)) (takeFirst P xs))"

definition popFirstInitializationPing :: "pendingQueue \<Rightarrow> pendingQueue \<times> pendingFrame option" where
  "popFirstInitializationPing queue =
     (case takeFirst (\<lambda>item. isInitializationPing (pf_frame item)) (pq_items queue) of
        None \<Rightarrow> (queue, None)
      | Some (item, rest) \<Rightarrow>
          (\<lparr>pq_items = rest, pq_bytes = pq_bytes queue - itemSize item\<rparr>, Some item))"

definition requestWithKey :: "scalarKey \<Rightarrow> pendingFrame \<Rightarrow> bool" where
  "requestWithKey key item \<longleftrightarrow>
     fr_kind (pf_frame item) = frameRequest \<and> map_option sv_key (fr_id (pf_frame item)) = Some key"

definition removeRequest :: "pendingQueue \<Rightarrow> scalarKey \<Rightarrow> pendingQueue \<times> bool" where
  "removeRequest queue key =
     (case takeFirst (requestWithKey key) (pq_items queue) of
        None \<Rightarrow> (queue, False)
      | Some (item, rest) \<Rightarrow>
          (if fr_method (pf_frame item) = ''initialize'' \<or> fr_taskAugmented (pf_frame item)
           then (queue, False)
           else (\<lparr>pq_items = rest, pq_bytes = pq_bytes queue - itemSize item\<rparr>, True)))"

definition removeModernRequest :: "pendingQueue \<Rightarrow> scalarKey \<Rightarrow> pendingQueue \<times> bool" where
  "removeModernRequest queue key =
     (case takeFirst (requestWithKey key) (pq_items queue) of
        None \<Rightarrow> (queue, False)
      | Some (item, rest) \<Rightarrow> (\<lparr>pq_items = rest, pq_bytes = pq_bytes queue - itemSize item\<rparr>, True))"

definition containsRequest :: "pendingQueue \<Rightarrow> scalarKey \<Rightarrow> bool" where
  "containsRequest queue key = list_ex (requestWithKey key) (pq_items queue)"

definition containsProgressToken :: "pendingQueue \<Rightarrow> scalarKey \<Rightarrow> bool" where
  "containsProgressToken queue key =
     list_ex (\<lambda>item. fr_kind (pf_frame item) = frameRequest \<and>
       map_option sv_key (fr_progressToken (pf_frame item)) = Some key) (pq_items queue)"

fun discardLoop :: "pendingFrame list \<Rightarrow> int \<Rightarrow> pendingFrame list \<times> int" where
  "discardLoop [] used = ([], used)"
| "discardLoop (item # items) used =
     (if pf_sameGenerationOnly item then discardLoop items (used - itemSize item)
      else (case discardLoop items used of (kept, u) \<Rightarrow> (item # kept, u)))"

definition discardSameGenerationOnly :: "pendingQueue \<Rightarrow> pendingQueue" where
  "discardSameGenerationOnly queue =
     (case discardLoop (pq_items queue) (pq_bytes queue) of (kept, u) \<Rightarrow> \<lparr>pq_items = kept, pq_bytes = u\<rparr>)"

definition clearQueue :: "pendingQueue \<Rightarrow> pendingQueue" where
  "clearQueue queue = emptyQueue"

definition lenQueue :: "pendingQueue \<Rightarrow> nat" where
  "lenQueue queue = length (pq_items queue)"

section \<open>The invariant\<close>

definition totalSize :: "pendingFrame list \<Rightarrow> int" where
  "totalSize items = (\<Sum>item \<leftarrow> items. itemSize item)"

text \<open>The byte counter is the size of the waiting frames, and both limits hold.\<close>

definition queue_inv :: "int \<Rightarrow> int \<Rightarrow> pendingQueue \<Rightarrow> bool" where
  "queue_inv maxFrames maxBytes queue \<longleftrightarrow>
     pq_bytes queue = totalSize (pq_items queue) \<and>
     int (length (pq_items queue)) \<le> maxFrames \<and> pq_bytes queue \<le> maxBytes"

lemma itemSize_pos: "0 < itemSize item"
  by (simp add: itemSize_def)

lemma totalSize_simps [simp]:
  "totalSize [] = 0" "totalSize (x # xs) = itemSize x + totalSize xs"
  "totalSize (xs @ ys) = totalSize xs + totalSize ys"
  by (simp_all add: totalSize_def)

lemma totalSize_nonneg: "0 \<le> totalSize xs"
  by (induction xs) (simp_all add: itemSize_def)

lemma takeFirst_Some:
  "takeFirst P xs = Some (x, ys) \<Longrightarrow>
     \<exists>us vs. xs = us @ x # vs \<and> ys = us @ vs \<and> P x \<and> list_all (\<lambda>u. \<not> P u) us"
proof (induction xs arbitrary: ys)
  case (Cons a xs)
  show ?case
  proof (cases "P a")
    case True
    with Cons.prems have "a # xs = [] @ x # ys \<and> P x"
      by simp
    then show ?thesis
      by (metis append_Nil list.pred_inject(1))
  next
    case False
    with Cons.prems obtain zs where zs: "takeFirst P xs = Some (x, zs)" "ys = a # zs"
      by auto
    then obtain us vs where "xs = us @ x # vs" "zs = us @ vs" "P x" "list_all (\<lambda>u. \<not> P u) us"
      using Cons.IH by blast
    then have "a # xs = (a # us) @ x # vs \<and> ys = (a # us) @ vs \<and> P x \<and> list_all (\<lambda>u. \<not> P u) (a # us)"
      using zs False by simp
    then show ?thesis
      by blast
  qed
qed simp

lemma takeFirst_total: "takeFirst P xs = Some (x, ys) \<Longrightarrow> totalSize xs = itemSize x + totalSize ys"
  by (auto dest!: takeFirst_Some)

lemma takeFirst_length: "takeFirst P xs = Some (x, ys) \<Longrightarrow> length xs = Suc (length ys)"
  by (auto dest!: takeFirst_Some)

lemma takeFirst_None: "takeFirst P xs = None \<longleftrightarrow> \<not> list_ex P xs"
  by (induction xs) auto

lemma discardLoop_eq:
  "discardLoop items used =
     (filter (\<lambda>item. \<not> pf_sameGenerationOnly item) items, used - totalSize (filter pf_sameGenerationOnly items))"
  by (induction items arbitrary: used) auto

lemma totalSize_filter_split:
  "totalSize (filter P items) + totalSize (filter (\<lambda>x. \<not> P x) items) = totalSize items"
  by (induction items) auto

section \<open>The queue as a bounded sequence\<close>

text \<open>
  The contract of a bounded sequence with a cost per element: what an insertion at either end and
  the removal of the front do to the sequence, and when an insertion is refused. What a client
  derives: refused insertions change nothing, accepted ones are served in order.
\<close>

locale bounded_sequence =
  fixes items :: "'q \<Rightarrow> 'a list"
    and used :: "'q \<Rightarrow> int"
    and cost :: "'a \<Rightarrow> int"
    and push_back :: "'q \<Rightarrow> 'a \<Rightarrow> 'q \<times> bool"
    and push_front :: "'q \<Rightarrow> 'a \<Rightarrow> 'q \<times> bool"
    and next_item :: "'q \<Rightarrow> 'q \<times> 'a option"
    and fits :: "'q \<Rightarrow> 'a \<Rightarrow> bool"
  assumes back_fits: "fits q a \<Longrightarrow> \<exists>q'. push_back q a = (q', True) \<and> items q' = items q @ [a] \<and> used q' = used q + cost a"
    and back_full: "\<not> fits q a \<Longrightarrow> push_back q a = (q, False)"
    and front_fits: "fits q a \<Longrightarrow> \<exists>q'. push_front q a = (q', True) \<and> items q' = a # items q \<and> used q' = used q + cost a"
    and front_full: "\<not> fits q a \<Longrightarrow> push_front q a = (q, False)"
    and next_none: "items q = [] \<Longrightarrow> next_item q = (q, None)"
    and next_some: "items q = a # as \<Longrightarrow>
      \<exists>q'. next_item q = (q', Some a) \<and> items q' = as \<and> used q' = used q - cost a"
begin

fun drain :: "nat \<Rightarrow> 'q \<Rightarrow> 'q \<times> 'a list" where
  "drain 0 q = (q, [])"
| "drain (Suc n) q =
     (case next_item q of
        (q', None) \<Rightarrow> (q', [])
      | (q', Some a) \<Rightarrow> (case drain n q' of (q'', as) \<Rightarrow> (q'', a # as)))"

lemma drain_items: "length (items q) \<le> n \<Longrightarrow> snd (drain n q) = items q"
proof (induction n arbitrary: q)
  case (Suc n)
  show ?case
  proof (cases "items q")
    case Nil
    then show ?thesis by (simp add: next_none)
  next
    case (Cons a as)
    then obtain q' where "next_item q = (q', Some a)" "items q' = as"
      using next_some by blast
    then show ?thesis
      using Suc Cons by (auto split: prod.split) (metis Suc.IH snd_conv)
  qed
qed simp

lemma used_is_cost:
  assumes "used q = sum_list (map cost (items q))"
  shows "used (fst (push_back q a)) = sum_list (map cost (items (fst (push_back q a))))"
    and "used (fst (push_front q a)) = sum_list (map cost (items (fst (push_front q a))))"
    and "used (fst (next_item q)) = sum_list (map cost (items (fst (next_item q))))"
proof -
  show "used (fst (push_back q a)) = sum_list (map cost (items (fst (push_back q a))))"
    using assms back_fits [of q a] back_full [of q a] by (cases "fits q a") auto
  show "used (fst (push_front q a)) = sum_list (map cost (items (fst (push_front q a))))"
    using assms front_fits [of q a] front_full [of q a] by (cases "fits q a") auto
  show "used (fst (next_item q)) = sum_list (map cost (items (fst (next_item q))))"
    using assms next_none [of q] next_some [of q] by (cases "items q") fastforce+
qed

end

interpretation pq: bounded_sequence pq_items pq_bytes itemSize
  "\<lambda>q a. enqueue q a maxFrames maxBytes" "\<lambda>q a. pushFrontBounded q a maxFrames maxBytes" popQueue
  "\<lambda>q a. \<not> queueFull q a maxFrames maxBytes" for maxFrames maxBytes
  by unfold_locales (auto simp: enqueue_def pushFrontBounded_def popQueue_def)


section \<open>Every operation keeps the invariant\<close>

datatype queue_event =
    Enqueue pendingFrame
  | PushFront pendingFrame
  | Pop
  | PopPing
  | Remove scalarKey
  | RemoveModern scalarKey
  | DiscardSameGeneration
  | Clear

fun queue_step :: "int \<Rightarrow> int \<Rightarrow> pendingQueue \<Rightarrow> queue_event \<Rightarrow> pendingQueue" where
  "queue_step mf mb q (Enqueue item) = fst (enqueue q item mf mb)"
| "queue_step mf mb q (PushFront item) = fst (pushFrontBounded q item mf mb)"
| "queue_step mf mb q Pop = fst (popQueue q)"
| "queue_step mf mb q PopPing = fst (popFirstInitializationPing q)"
| "queue_step mf mb q (Remove key) = fst (removeRequest q key)"
| "queue_step mf mb q (RemoveModern key) = fst (removeModernRequest q key)"
| "queue_step mf mb q DiscardSameGeneration = discardSameGenerationOnly q"
| "queue_step mf mb q Clear = clearQueue q"

lemma take_out_inv:
  assumes "queue_inv mf mb q" and "takeFirst P (pq_items q) = Some (item, rest)"
  shows "queue_inv mf mb \<lparr>pq_items = rest, pq_bytes = pq_bytes q - itemSize item\<rparr>"
  using assms takeFirst_total [OF assms(2)] takeFirst_length [OF assms(2)] itemSize_pos [of item]
  by (simp add: queue_inv_def)

lemma enqueue_inv: "queue_inv mf mb q \<Longrightarrow> queue_inv mf mb (fst (enqueue q item mf mb))"
  by (simp add: queue_inv_def enqueue_def queueFull_def)

lemma pushFront_inv: "queue_inv mf mb q \<Longrightarrow> queue_inv mf mb (fst (pushFrontBounded q item mf mb))"
  by (simp add: queue_inv_def pushFrontBounded_def queueFull_def)

lemma popQueue_inv: "queue_inv mf mb q \<Longrightarrow> queue_inv mf mb (fst (popQueue q))"
  by (auto simp: queue_inv_def popQueue_def itemSize_def split: list.split)

lemma popPing_inv: "queue_inv mf mb q \<Longrightarrow> queue_inv mf mb (fst (popFirstInitializationPing q))"
  by (auto simp: popFirstInitializationPing_def intro: take_out_inv split: option.split)

lemma removeRequest_inv: "queue_inv mf mb q \<Longrightarrow> queue_inv mf mb (fst (removeRequest q key))"
  by (auto simp: removeRequest_def intro: take_out_inv split: option.split)

lemma removeModern_inv: "queue_inv mf mb q \<Longrightarrow> queue_inv mf mb (fst (removeModernRequest q key))"
  by (auto simp: removeModernRequest_def intro: take_out_inv split: option.split)

lemma discard_inv: "queue_inv mf mb q \<Longrightarrow> queue_inv mf mb (discardSameGenerationOnly q)"
  using totalSize_filter_split [of pf_sameGenerationOnly "pq_items q"]
    totalSize_nonneg [of "filter pf_sameGenerationOnly (pq_items q)"]
    length_filter_le [of "\<lambda>item. \<not> pf_sameGenerationOnly item" "pq_items q"]
  unfolding queue_inv_def discardSameGenerationOnly_def discardLoop_eq prod.case pendingQueue.select_convs
  by linarith

lemma clear_inv: "0 \<le> mf \<Longrightarrow> 0 \<le> mb \<Longrightarrow> queue_inv mf mb (clearQueue q)"
  by (simp add: queue_inv_def clearQueue_def emptyQueue_def)

lemma queue_inv_limits: "queue_inv mf mb q \<Longrightarrow> 0 \<le> mf \<and> 0 \<le> mb"
  using totalSize_nonneg [of "pq_items q"] by (auto simp: queue_inv_def)

lemmas queue_ops_inv [simp, intro] =
  enqueue_inv pushFront_inv popQueue_inv popPing_inv removeRequest_inv removeModern_inv discard_inv

interpretation pqm: invariant_machine "queue_step mf mb" "queue_inv mf mb" for mf mb
proof unfold_locales
  fix q e
  assume "queue_inv mf mb q"
  then show "queue_inv mf mb (queue_step mf mb q e)"
    using queue_inv_limits [of mf mb q] by (cases e) (auto intro: clear_inv)
qed

text \<open>C29: through any sequence of queue operations the byte counter is exactly the size of the
  waiting frames, never negative, and neither the frame limit nor the byte limit is ever exceeded.\<close>

theorem pending_queue_bounded:
  assumes "0 \<le> maxFrames" and "0 \<le> maxBytes"
  shows "let q = foldl (queue_step maxFrames maxBytes) emptyQueue es
    in pq_bytes q = totalSize (pq_items q) \<and> 0 \<le> pq_bytes q \<and> pq_bytes q \<le> maxBytes \<and>
       int (lenQueue q) \<le> maxFrames"
proof -
  have "queue_inv maxFrames maxBytes emptyQueue"
    using assms by (simp add: queue_inv_def emptyQueue_def)
  then have "queue_inv maxFrames maxBytes (foldl (queue_step maxFrames maxBytes) emptyQueue es)"
    by (rule pqm.run_inv)
  then show ?thesis
    using totalSize_nonneg by (simp add: queue_inv_def lenQueue_def Let_def)
qed

definition demo_item :: "nat \<Rightarrow> pendingFrame" where
  "demo_item n =
     \<lparr>pf_sequence = n, pf_arrived = 0,
      pf_frame = (emptyFrame ''x'')\<lparr>fr_id := Some \<lparr>sv_key = SKey scalarNumber (natDec n), sv_raw = natDec n\<rparr>,
        fr_method := ''tools/call''\<rparr>,
      pf_sameGenerationOnly = False\<rparr>"

theorem pending_queue_bounded_witness:
  "lenQueue (foldl (queue_step 2 100) emptyQueue [Enqueue (demo_item 1), Enqueue (demo_item 2), Enqueue (demo_item 3)]) = 2 \<and>
   pq_bytes (foldl (queue_step 2 100) emptyQueue [Enqueue (demo_item 1), Enqueue (demo_item 2), Enqueue (demo_item 3)]) = 4"
proof -
  let ?q = "foldl (queue_step 2 100) emptyQueue [Enqueue (demo_item 1), Enqueue (demo_item 2), Enqueue (demo_item 3)]"
  have n: "lenQueue ?q = 2" and i: "pq_items ?q = [demo_item 1, demo_item 2]"
    by (simp_all add: lenQueue_def enqueue_def queueFull_def emptyQueue_def itemSize_def demo_item_def
        emptyFrame_def trimJSONWhitespace_def isJSONWhitespace_def)
  have "pq_bytes ?q = totalSize (pq_items ?q)"
    using pending_queue_bounded [of 2 100] by (simp only: Let_def)
  then show ?thesis
    using n i by (simp add: itemSize_def demo_item_def emptyFrame_def trimJSONWhitespace_def isJSONWhitespace_def)
qed

end
