(* ===== verification/Era.thy ===== *)
theory Era
  imports Json
begin

text \<open>
  The protocol eras (\<open>muxcore/era/era.go\<close>): which MCP behaviour is selected before an owner is
  elected, and its wire form.
\<close>

text \<open>The source's type is a byte; the values without a name are refused by \<open>Wire\<close>.\<close>

datatype ProtocolEra = EraLegacy | EraModern20260728 | EraOther nat

definition modern20260728Wire :: bytes where
  "modern20260728Wire = ''2026-07-28''"

definition errUnsupportedProtocolEra :: bytes where
  "errUnsupportedProtocolEra = ''protocol era: unsupported''"

definition ParseProtocolEra :: "bytes \<Rightarrow> ProtocolEra \<times> bytes option" where
  "ParseProtocolEra wire =
     (if wire = [] then (EraLegacy, None)
      else if wire = modern20260728Wire then (EraModern20260728, None)
      else (EraOther 255, Some errUnsupportedProtocolEra))"

definition Wire :: "ProtocolEra \<Rightarrow> bytes result" where
  "Wire era =
     (case era of
        EraLegacy \<Rightarrow> Ok []
      | EraModern20260728 \<Rightarrow> Ok modern20260728Wire
      | EraOther _ \<Rightarrow> Err errUnsupportedProtocolEra)"

end
