(* ===== verification/Runner_State.thy ===== *)
theory Runner_State
  imports Registry Pending Era
begin

text \<open>
  The state of the launcher supervisor and the actions its handlers are built from
  (\<open>muxcore/supervisor\<close>: \<open>supervisor.go\<close>, \<open>run.go\<close>, \<open>write.go\<close>, \<open>generation.go\<close>, \<open>finalization.go\<close>).

  The fields of the source's \<open>runner\<close> are grouped: the initialize exchange, the replay, the timers,
  and the environment. The environment holds what the outside answers (the results of writes and of
  retiring a child, in the order in which they are asked for; when a list is exhausted, everything
  succeeds) and the log of what the supervisor has done. A timer is the duration it was armed with.
  Go routines that run beside the loop (the resolver and starter, the pump and the reaper of a
  child) appear as the events they send.
\<close>

section \<open>Data\<close>

record EngineRef =
  er_ID :: bytes

text \<open>An error of \<open>Exit\<close>, with its text; the first constructor is an error that wraps \<open>ErrProcessTreeUnproven\<close>.\<close>

datatype exit_error = ErrProcessTreeUnproven (exitErrText: bytes) | ErrExit (exitErrText: bytes)

record Exit =
  ex_Code :: int
  ex_Err :: "exit_error option"

datatype State =
    StateStarting | StateReplaying | StateActive | StateQuiescing | StateAwaitingDormantExit
  | StateFinalizing | StateDormant | StateStopping | StateTerminal

datatype Reason =
    ReasonInitial | ReasonCrash | ReasonOutputEOF | ReasonWriteFailure | ReasonProtocolFailure
  | ReasonEngineSwitch | ReasonDormantWake | ReasonDormantCommit | ReasonDormantRejected | ReasonRetry
  | ReasonHostEOF | ReasonHostOutputFailure | ReasonCallerCanceled

record Event =
  ev_Generation :: nat
  ev_State :: State
  ev_Reason :: Reason
  ev_Requested :: "EngineRef option"
  ev_Actual :: "EngineRef option"
  ev_Fallback :: bool

record Config =
  cf_ProtocolEra :: ProtocolEra
  cf_ReplacementNotifications :: "ListChangedKind list"
  cf_RetryDelay :: duration
  cf_ReconcileInterval :: duration
  cf_StartTimeout :: duration
  cf_ReplayTimeout :: duration
  cf_GracefulStopTimeout :: duration
  cf_OutputDrainTimeout :: duration
  cf_DormantExitTimeout :: duration
  cf_DormantLease :: duration
  cf_MaxFrameBytes :: int
  cf_PendingFrameLimit :: int
  cf_PendingByteLimit :: int

definition milliseconds :: "int \<Rightarrow> duration" where
  "milliseconds n = n * 1000000"

text \<open>The numeric part of \<open>withDefaults\<close>; the checks for nil streams and functions precede it.\<close>

definition orDefault :: "int \<Rightarrow> int \<Rightarrow> int" where
  "orDefault x d = (if x = 0 then d else x)"

definition applyDefaults :: "Config \<Rightarrow> Config" where
  "applyDefaults cfg =
     cfg\<lparr>cf_RetryDelay := orDefault (cf_RetryDelay cfg) (milliseconds 100),
         cf_StartTimeout := orDefault (cf_StartTimeout cfg) (seconds 30),
         cf_ReplayTimeout := orDefault (cf_ReplayTimeout cfg) (seconds 30),
         cf_GracefulStopTimeout := orDefault (cf_GracefulStopTimeout cfg) (seconds 2),
         cf_OutputDrainTimeout := orDefault (cf_OutputDrainTimeout cfg) (seconds 2),
         cf_DormantExitTimeout := orDefault (cf_DormantExitTimeout cfg) (seconds 2),
         cf_MaxFrameBytes := orDefault (cf_MaxFrameBytes cfg) (1024 * 1024),
         cf_PendingFrameLimit := orDefault (cf_PendingFrameLimit cfg) 256,
         cf_PendingByteLimit := orDefault (cf_PendingByteLimit cfg) (8 * 1024 * 1024)\<rparr>"

definition withDefaults :: "bool \<Rightarrow> bool \<Rightarrow> bool \<Rightarrow> bool \<Rightarrow> Config \<Rightarrow> Config result" where
  "withDefaults hasHostIn hasHostOut hasResolve hasStart cfg =
     (case Wire (cf_ProtocolEra cfg) of
        Inl e \<Rightarrow> Err (''supervisor: '' @ e)
      | Inr _ \<Rightarrow>
          (if \<not> hasHostIn then Err ''supervisor: host input is nil''
           else if \<not> hasHostOut then Err ''supervisor: host output is nil''
           else if \<not> hasResolve then Err ''supervisor: resolve function is nil''
           else if \<not> hasStart then Err ''supervisor: start function is nil''
           else
             (let c = applyDefaults cfg
              in if cf_RetryDelay c < 0 \<or> cf_StartTimeout c < 0 \<or> cf_ReplayTimeout c < 0 \<or>
                    cf_GracefulStopTimeout c < 0 \<or> cf_OutputDrainTimeout c < 0 \<or> cf_DormantExitTimeout c < 0
                 then Err ''supervisor: required duration is negative''
                 else if cf_MaxFrameBytes c < 1 \<or> cf_PendingFrameLimit c < 1 \<or> cf_PendingByteLimit c < 1
                 then Err ''supervisor: frame and pending limits must be positive''
                 else Ok c)))"

text \<open>
  A generation: its identity, whether its control admission exists and is verified, and what its
  pump and reaper have recorded so far.
\<close>

datatype output_error = OutputEOF | OutputErr bytes

record generation =
  ge_id :: nat
  ge_requested :: EngineRef
  ge_actual :: EngineRef
  ge_fallback :: bool
  ge_admission :: "bool option"
  ge_exit :: "Exit option"
  ge_outputEOF :: bool
  ge_outputErr :: "output_error option"

text \<open>
  What a start returned: the child with whether its transports are present, the admission with
  whether it is verified. The last three fields are what the child and the admission answer when
  the start has to be undone: the result of \<open>Stop\<close>, what its \<open>Wait\<close> channel yields within the stop
  timeout, and the result of closing the admission.
\<close>

datatype wait_answer = WaitNil | WaitClosed | WaitExit Exit | WaitTimeout

record StartResult =
  sr_Child :: "bool option"
  sr_Actual :: EngineRef
  sr_Fallback :: bool
  sr_Admission :: "bool option"
  sr_stopErr :: "bytes option"
  sr_wait :: wait_answer
  sr_closeErr :: "bytes option"

definition startResultHasAuthority :: "StartResult \<Rightarrow> bool" where
  "startResultHasAuthority result \<longleftrightarrow> sr_Child result \<noteq> None \<or> sr_Admission result \<noteq> None"

text \<open>An error of a start; the first constructor is an error that wraps \<open>ErrStartRollbackUnproven\<close>.\<close>

datatype start_error = ErrStartRollbackUnproven (startErrText: bytes) | ErrStart (startErrText: bytes)

text \<open>\<open>errors.Join\<close>: the texts of the errors that are not nil, separated by line breaks.\<close>

definition joinErrors :: "bytes option list \<Rightarrow> bytes option" where
  "joinErrors es =
     (let texts = map the (filter (\<lambda>e. e \<noteq> None) es)
      in if texts = [] then None else Some (joinWith [CHR 0x0A] texts))"

definition deadlineExceeded :: bytes where
  "deadlineExceeded = ''context deadline exceeded''"

definition cleanupWait :: "wait_answer \<Rightarrow> bytes option" where
  "cleanupWait w =
     (case w of
        WaitNil \<Rightarrow> Some ''supervisor: invalid child has no terminal proof''
      | WaitClosed \<Rightarrow> Some ''supervisor: invalid child terminal proof channel closed empty''
      | WaitExit exit \<Rightarrow>
          (case ex_Err exit of
             Some (ErrProcessTreeUnproven text) \<Rightarrow>
               Some (''supervisor: invalid child process-tree retirement unproven: '' @ text)
           | _ \<Rightarrow> None)
      | WaitTimeout \<Rightarrow> Some (''supervisor: invalid child terminal proof: '' @ deadlineExceeded))"

definition cleanupInvalidStart :: "StartResult \<Rightarrow> bytes option" where
  "cleanupInvalidStart result =
     joinErrors
       ((if sr_Child result \<noteq> None
         then [cleanupWait (sr_wait result),
               map_option (\<lambda>e. ''supervisor: invalid child cleanup: '' @ e) (sr_stopErr result)]
         else []) @
        (if sr_Admission result \<noteq> None
         then [map_option (\<lambda>e. ''supervisor: invalid admission cleanup: '' @ e) (sr_closeErr result)]
         else []))"

section \<open>The environment\<close>

datatype writeOutcome = writeNotWritten | writeAmbiguous | writeDelivered

record io_write =
  iw_n :: nat
  iw_err :: "bytes option"

text \<open>The answers to finalising a child: \<open>Stop\<close>, the terminal result after it, the two joins, and closing
  the admission.\<close>

record finalize_env =
  fe_stopErr :: "bytes option"
  fe_exit :: "Exit option"
  fe_pumpDone :: bool
  fe_pumpDoneAfterClose :: bool
  fe_reaperDone :: bool
  fe_admissionErr :: "bytes option"

definition finalize_success :: finalize_env where
  "finalize_success =
     \<lparr>fe_stopErr = None, fe_exit = Some \<lparr>ex_Code = 0, ex_Err = None\<rparr>, fe_pumpDone = True,
      fe_pumpDoneAfterClose = True, fe_reaperDone = True, fe_admissionErr = None\<rparr>"

record environment =
  en_hostWrites :: "io_write list"
  en_childWrites :: "io_write list"
  en_finalizes :: "finalize_env list"
  en_now :: time
  en_hostOut :: "(bytes \<times> writeOutcome) list"
  en_childIn :: "(nat \<times> bytes \<times> writeOutcome) list"
  en_observed :: "Event list"

record timers =
  ti_start :: "duration option"
  ti_retry :: "duration option"
  ti_replay :: "duration option"
  ti_dormantExit :: "duration option"
  ti_childExitDrain :: "duration option"
  ti_dormantLease :: "duration option"
  ti_reconcile :: "duration option"

record initState =
  in_request :: "bytes option"
  in_id :: "scalarValue option"
  in_awaiting :: bool
  in_response :: "bytes option"
  in_failed :: bool
  in_initialized :: "bytes option"

record replayState =
  rp_prelude :: "bytes list"
  rp_preludeBytes :: int
  rp_response :: "bytes option"

record runner =
  ru_cfg :: Config
  ru_boundarySequence :: nat
  ru_boundaryArrived :: time
  ru_lastHostSequence :: nat
  ru_state :: State
  ru_generation :: nat
  ru_current :: "generation option"
  ru_starting :: bool
  ru_startID :: nat
  ru_startCancel :: bool
  ru_resolving :: bool
  ru_resolveID :: nat
  ru_timers :: timers
  ru_pending :: pendingQueue
  ru_host :: directionRegistry
  ru_child :: directionRegistry
  ru_init :: initState
  ru_replay :: replayState
  ru_dormancyInvalid :: bool
  ru_dormantTransitionStart :: nat
  ru_dormantLeaseDeadline :: time
  ru_terminal :: bool
  ru_terminalReason :: Reason
  ru_terminalErr :: "bytes option"
  ru_env :: environment

definition modern :: "runner \<Rightarrow> bool" where
  "modern run \<longleftrightarrow> cf_ProtocolEra (ru_cfg run) = EraModern20260728"

section \<open>Writing frames\<close>

definition newline :: char where
  "newline = CHR 0x0A"

text \<open>One \<open>Write\<close> call: the outcome and the error that \<open>writeFrame\<close> derives from its result.\<close>

definition writeFrame :: "bytes \<Rightarrow> io_write \<Rightarrow> writeOutcome \<times> bytes option" where
  "writeFrame frame w =
     (let buffer = frame @ [newline]
      in if iw_n w = length buffer then (writeDelivered, iw_err w)
         else if iw_n w = 0 \<and> iw_err w \<noteq> None then (writeNotWritten, iw_err w)
         else (writeAmbiguous, Some (case iw_err w of None \<Rightarrow> ''short write'' | Some e \<Rightarrow> e)))"

definition fullWrite :: "bytes \<Rightarrow> io_write" where
  "fullWrite frame = \<lparr>iw_n = length frame + 1, iw_err = None\<rparr>"

definition nextAnswer :: "'a \<Rightarrow> 'a list \<Rightarrow> 'a \<times> 'a list" where
  "nextAnswer d xs = (case xs of [] \<Rightarrow> (d, []) | x # ys \<Rightarrow> (x, ys))"

definition writeHost :: "runner \<Rightarrow> bytes \<Rightarrow> runner \<times> bytes option" where
  "writeHost run frame =
     (let env = ru_env run;
          (w, ws) = nextAnswer (fullWrite frame) (en_hostWrites env);
          (outcome, err) = writeFrame frame w;
          run' = run\<lparr>ru_env := env\<lparr>en_hostWrites := ws, en_hostOut := en_hostOut env @ [(frame, outcome)]\<rparr>\<rparr>
      in if outcome \<noteq> writeDelivered
         then (run', Some (''supervisor: host output: '' @
                 (case err of None \<Rightarrow> ''host frame was not fully written'' | Some e \<Rightarrow> e)))
         else (run', map_option (\<lambda>e. ''supervisor: host output: '' @ e) err))"

definition writeChild :: "runner \<Rightarrow> bytes \<Rightarrow> runner \<times> writeOutcome \<times> bytes option" where
  "writeChild run frame =
     (case ru_current run of
        None \<Rightarrow> (run, writeNotWritten, Some ''supervisor: no active child'')
      | Some gen \<Rightarrow>
          (let env = ru_env run;
               (w, ws) = nextAnswer (fullWrite frame) (en_childWrites env);
               (outcome, err) = writeFrame frame w
           in (run\<lparr>ru_env := env\<lparr>en_childWrites := ws, en_childIn := en_childIn env @ [(ge_id gen, frame, outcome)]\<rparr>\<rparr>,
               outcome, err)))"

section \<open>State, timers, termination\<close>

definition emit :: "State \<Rightarrow> Reason \<Rightarrow> runner \<Rightarrow> runner" where
  "emit state reason run =
     (let event = \<lparr>ev_Generation = ru_generation run, ev_State = state, ev_Reason = reason,
            ev_Requested = map_option ge_requested (ru_current run),
            ev_Actual = map_option ge_actual (ru_current run),
            ev_Fallback = (case ru_current run of None \<Rightarrow> False | Some g \<Rightarrow> ge_fallback g)\<rparr>
      in run\<lparr>ru_env := (ru_env run)\<lparr>en_observed := en_observed (ru_env run) @ [event]\<rparr>\<rparr>)"

definition setState :: "State \<Rightarrow> Reason \<Rightarrow> runner \<Rightarrow> runner" where
  "setState state reason run = emit state reason (run\<lparr>ru_state := state\<rparr>)"

definition terminate :: "Reason \<Rightarrow> bytes option \<Rightarrow> runner \<Rightarrow> runner" where
  "terminate reason err run =
     (if ru_terminal run then run
      else run\<lparr>ru_terminal := True, ru_terminalReason := reason, ru_terminalErr := err\<rparr>)"

definition stopStartTimer :: "runner \<Rightarrow> runner" where
  "stopStartTimer run = run\<lparr>ru_timers := (ru_timers run)\<lparr>ti_start := None\<rparr>\<rparr>"

definition stopRetryTimer :: "runner \<Rightarrow> runner" where
  "stopRetryTimer run = run\<lparr>ru_timers := (ru_timers run)\<lparr>ti_retry := None\<rparr>\<rparr>"

definition stopReplayTimer :: "runner \<Rightarrow> runner" where
  "stopReplayTimer run = run\<lparr>ru_timers := (ru_timers run)\<lparr>ti_replay := None\<rparr>\<rparr>"

definition stopDormantExitTimer :: "runner \<Rightarrow> runner" where
  "stopDormantExitTimer run = run\<lparr>ru_timers := (ru_timers run)\<lparr>ti_dormantExit := None\<rparr>\<rparr>"

definition stopChildExitDrainTimer :: "runner \<Rightarrow> runner" where
  "stopChildExitDrainTimer run = run\<lparr>ru_timers := (ru_timers run)\<lparr>ti_childExitDrain := None\<rparr>\<rparr>"

definition stopDormantLeaseTimer :: "runner \<Rightarrow> runner" where
  "stopDormantLeaseTimer run = run\<lparr>ru_timers := (ru_timers run)\<lparr>ti_dormantLease := None\<rparr>\<rparr>"

definition armReplayTimer :: "runner \<Rightarrow> runner" where
  "armReplayTimer run = run\<lparr>ru_timers := (ru_timers run)\<lparr>ti_replay := Some (cf_ReplayTimeout (ru_cfg run))\<rparr>\<rparr>"

definition armDormantExitTimer :: "runner \<Rightarrow> runner" where
  "armDormantExitTimer run =
     run\<lparr>ru_timers := (ru_timers run)\<lparr>ti_dormantExit := Some (cf_DormantExitTimeout (ru_cfg run))\<rparr>\<rparr>"

definition stopAllTimers :: "runner \<Rightarrow> runner" where
  "stopAllTimers run =
     run\<lparr>ru_timers := \<lparr>ti_start = None, ti_retry = None, ti_replay = None, ti_dormantExit = None,
           ti_childExitDrain = None, ti_dormantLease = None, ti_reconcile = None\<rparr>,
         ru_startCancel := False\<rparr>"

section \<open>Starting an engine\<close>

definition beginStart :: "runner \<Rightarrow> runner" where
  "beginStart run =
     (if ru_terminal run \<or> ru_starting run \<or> ru_current run \<noteq> None then run
      else
        let r1 = (stopRetryTimer run)\<lparr>ru_starting := True, ru_startID := ru_startID run + 1\<rparr>;
            reason = (if ru_generation r1 = 0 \<and> ru_startID r1 = 1 then ReasonInitial else ReasonRetry);
            r2 = setState StateStarting reason r1
        in r2\<lparr>ru_startCancel := True,
              ru_timers := (ru_timers r2)\<lparr>ti_start := Some (cf_StartTimeout (ru_cfg r2))\<rparr>\<rparr>)"

definition scheduleRetry :: "runner \<Rightarrow> runner" where
  "scheduleRetry run =
     (if ru_terminal run \<or> ru_current run \<noteq> None \<or> ti_retry (ru_timers run) \<noteq> None then run
      else setState StateStarting ReasonRetry
             (run\<lparr>ru_timers := (ru_timers run)\<lparr>ti_retry := Some (cf_RetryDelay (ru_cfg run))\<rparr>\<rparr>))"

text \<open>The checks of \<open>newGeneration\<close>; the pump and the reaper it starts appear as events.\<close>

definition newGeneration :: "nat \<Rightarrow> EngineRef \<Rightarrow> StartResult \<Rightarrow> generation result" where
  "newGeneration i requested result =
     (if er_ID requested = [] then Err ''supervisor: resolver returned an empty engine identity''
      else case sr_Child result of
          None \<Rightarrow> Err ''supervisor: start returned a nil child''
        | Some transportsPresent \<Rightarrow>
            (if er_ID (sr_Actual result) = [] then Err ''supervisor: start returned an empty actual identity''
             else if sr_Actual result \<noteq> requested \<and> \<not> sr_Fallback result
             then Err ''supervisor: start changed identity without reporting fallback''
             else if \<not> transportsPresent
             then Err ''supervisor: child returned a nil transport or wait channel''
             else Ok \<lparr>ge_id = i, ge_requested = requested, ge_actual = sr_Actual result,
                      ge_fallback = sr_Fallback result, ge_admission = sr_Admission result, ge_exit = None,
                      ge_outputEOF = False, ge_outputErr = None\<rparr>))"

section \<open>Finalising a generation\<close>

text \<open>
  \<open>finalizeCurrent\<close>: a generation whose end is not yet known is stopped, which may make its terminal
  result known (\<open>afterStop\<close>). The result must prove that the process tree is gone; then pump and
  reaper are joined and the admission is closed.
\<close>

definition afterStop :: "generation \<Rightarrow> finalize_env \<Rightarrow> generation" where
  "afterStop gen fe = (if ge_exit gen = None then gen\<lparr>ge_exit := fe_exit fe\<rparr> else gen)"

definition noTreeProof :: bytes where
  "noTreeProof = ''supervisor: child finalization lacks terminal proof of process-tree retirement: ''"

definition exitProof :: "generation \<Rightarrow> finalize_env \<Rightarrow> unit result" where
  "exitProof gen fe =
     (case (if ge_exit gen = None then fe_stopErr fe else None) of
        Some e \<Rightarrow> Err (noTreeProof @ e)
      | None \<Rightarrow>
          (case ge_exit (afterStop gen fe) of
             None \<Rightarrow> Err (''supervisor: child finalization lacks terminal proof: '' @ deadlineExceeded)
           | Some exit \<Rightarrow>
               (case ex_Err exit of
                  Some (ErrProcessTreeUnproven text) \<Rightarrow> Err (noTreeProof @ text)
                | _ \<Rightarrow> Ok ())))"

definition joinPump :: "finalize_env \<Rightarrow> unit result" where
  "joinPump fe =
     (if fe_pumpDone fe \<or> fe_pumpDoneAfterClose fe then Ok ()
      else Err ''supervisor: child stdout pump did not terminate'')"

definition joinReaper :: "finalize_env \<Rightarrow> unit result" where
  "joinReaper fe =
     (if fe_reaperDone fe then Ok () else Err ''supervisor: child reaper sender did not terminate'')"

definition finalizeWith :: "runner \<Rightarrow> generation \<Rightarrow> finalize_env \<Rightarrow> runner \<times> unit result" where
  "finalizeWith run gen fe =
     (case exitProof gen fe of
        Inl e \<Rightarrow> (run, Err e)
      | Inr _ \<Rightarrow>
          (case joinPump fe of
             Inl e \<Rightarrow> (run, Err e)
           | Inr _ \<Rightarrow>
               (case joinReaper fe of
                  Inl e \<Rightarrow> (run, Err e)
                | Inr _ \<Rightarrow>
                    (let r1 = run\<lparr>ru_current := None\<rparr>
                     in if ge_admission gen \<noteq> None
                        then (case fe_admissionErr fe of
                                Some e \<Rightarrow> (r1, Err (''supervisor: admission cleanup failed: '' @ e))
                              | None \<Rightarrow> (r1, Ok ()))
                        else (r1, Ok ())))))"

definition finalizeCurrent :: "runner \<Rightarrow> runner \<times> unit result" where
  "finalizeCurrent run =
     (case ru_current run of
        None \<Rightarrow> (run, Ok ())
      | Some gen \<Rightarrow>
          (let (fe, fes) = nextAnswer finalize_success (en_finalizes (ru_env run))
           in finalizeWith (run\<lparr>ru_current := Some (afterStop gen fe), ru_env := (ru_env run)\<lparr>en_finalizes := fes\<rparr>\<rparr>) gen fe))"

definition currentID :: "runner \<Rightarrow> nat" where
  "currentID run = (case ru_current run of None \<Rightarrow> 0 | Some g \<Rightarrow> ge_id g)"

definition finishModernRequest :: "runner \<Rightarrow> requestRecord \<Rightarrow> runner" where
  "finishModernRequest run req =
     run\<lparr>ru_host := removeToken ((ru_host run)\<lparr>dr_requests := mdel (dr_requests (ru_host run)) (rr_key req)\<rparr>) req\<rparr>"

text \<open>Cancellations that arrived while the engine prepared to sleep are settled before it is lost.\<close>

fun commitCancellations :: "runner \<Rightarrow> nat \<Rightarrow> pendingFrame list \<Rightarrow> runner \<times> unit result" where
  "commitCancellations run g [] = (run, Ok ())"
| "commitCancellations run g (item # items) =
     (case (if pf_sameGenerationOnly item then fr_cancellation (pf_frame item) else None) of
        None \<Rightarrow> commitCancellations run g items
      | Some target \<Rightarrow>
          (case mget (dr_requests (ru_host run)) (sv_key target) of
             None \<Rightarrow> commitCancellations run g items
           | Some req \<Rightarrow>
               (if rr_generation req \<noteq> g \<or> rr_initialize req \<or> rr_taskAugmented req
                then commitCancellations run g items
                else if modern run then commitCancellations (finishModernRequest run req) g items
                else case cancel (ru_host run) req of
                    (h, Inl e) \<Rightarrow> (run\<lparr>ru_host := h\<rparr>, Err e)
                  | (h, Inr _) \<Rightarrow> commitCancellations (run\<lparr>ru_host := h\<rparr>) g items)))"

definition commitQuiescingCancellations :: "runner \<Rightarrow> runner \<times> unit result" where
  "commitQuiescingCancellations run =
     (case ru_current run of
        None \<Rightarrow> (run, Ok ())
      | Some gen \<Rightarrow> commitCancellations run (ge_id gen) (pq_items (ru_pending run)))"

text \<open>The error answers to the lost requests, in order, until a write to the host fails.\<close>

fun reportLost :: "runner \<Rightarrow> requestRecord list \<Rightarrow> runner \<times> bytes option" where
  "reportLost run [] = (run, None)"
| "reportLost run (req # reqs) =
     (case writeHost run (localErrorFrame (sv_raw (rr_id req)) codeInternal lostRequestMessage) of
        (r1, Some e) \<Rightarrow> (r1, Some e)
      | (r1, None) \<Rightarrow> reportLost r1 reqs)"

text \<open>
  The end of a generation, shared by \<open>replaceCurrent\<close> and \<open>maybeCompleteDormancy\<close>: both directions
  retire it, the lost requests are answered, the child is finalised. \<open>None\<close> when the supervisor has
  to terminate instead.
\<close>

definition retireCurrent :: "runner \<Rightarrow> nat \<Rightarrow> runner \<times> bool" where
  "retireCurrent run g =
     (case retireGenerationChecked (ru_host run) g of
        (h, Inl e) \<Rightarrow> (terminate ReasonProtocolFailure (Some e) (run\<lparr>ru_host := h\<rparr>), False)
      | (h, Inr lost) \<Rightarrow>
          (case retireGenerationChecked (ru_child run) g of
             (c, Inl e) \<Rightarrow>
               (terminate ReasonProtocolFailure (Some e) (run\<lparr>ru_host := h, ru_child := c\<rparr>), False)
           | (c, Inr _) \<Rightarrow>
               (case reportLost (run\<lparr>ru_host := h, ru_child := c\<rparr>) lost of
                  (r1, Some e) \<Rightarrow> (terminate ReasonHostOutputFailure (Some e) r1, False)
                | (r1, None) \<Rightarrow>
                    (case finalizeCurrent r1 of
                       (r2, Inl e) \<Rightarrow> (terminate ReasonProtocolFailure (Some e) r2, False)
                     | (r2, Inr _) \<Rightarrow> (r2, True)))))"

definition replaceCurrent :: "Reason \<Rightarrow> runner \<Rightarrow> runner" where
  "replaceCurrent reason run =
     (if ru_terminal run then run
      else case ru_current run of
          None \<Rightarrow> beginStart run
        | Some gen \<Rightarrow>
            (let r1 = stopDormantLeaseTimer (stopChildExitDrainTimer (stopDormantExitTimer (stopReplayTimer run)));
                 r2 = setState StateFinalizing reason (r1\<lparr>ru_resolving := False, ru_resolveID := ru_resolveID r1 + 1\<rparr>)
             in case commitQuiescingCancellations r2 of
                  (r3, Inl e) \<Rightarrow> terminate ReasonProtocolFailure (Some e) r3
                | (r3, Inr _) \<Rightarrow>
                    (case retireCurrent (r3\<lparr>ru_pending := discardSameGenerationOnly (ru_pending r3)\<rparr>) (ge_id gen) of
                       (r4, False) \<Rightarrow> r4
                     | (r4, True) \<Rightarrow> if ru_terminal r4 then r4 else beginStart r4)))"

end
