(* ===== verification/Runner_Host.thy ===== *)
theory Runner_Host
  imports Runner_State
begin

text \<open>
  What the supervisor does with frames from the host (\<open>muxcore/supervisor\<close>: the host half of
  \<open>routing.go\<close>, \<open>modern.go\<close>, and the dormant lease of \<open>finalization.go\<close> that every host frame resumes).

  A handler is a function from the runner to the runner. Where the source changes a frame through
  its pointer (\<open>validateHostRequest\<close> clears \<open>taskAugmented\<close>), the changed frame is returned.
\<close>

section \<open>Answers\<close>

definition invalidFrameResponse :: "frame_error \<Rightarrow> int \<times> bytes" where
  "invalidFrameResponse err =
     (case err of
        ErrMalformedJSON _ \<Rightarrow> (-32700, ''parse error'')
      | _ \<Rightarrow> (codeInvalidRequest, ''invalid JSON-RPC frame''))"

text \<open>\<open>if err := runner.writeHost(frame); err != nil { runner.terminate(ReasonHostOutputFailure, err) }\<close>,
  with whether the write succeeded.\<close>

definition writeHostOrTerminate :: "runner \<Rightarrow> bytes \<Rightarrow> runner \<times> bool" where
  "writeHostOrTerminate run frame =
     (case writeHost run frame of
        (r, None) \<Rightarrow> (r, True)
      | (r, Some e) \<Rightarrow> (terminate ReasonHostOutputFailure (Some e) r, False))"

text \<open>A write to the child after which any outcome but a clean delivery replaces the child.\<close>

definition writeChildOrReplace :: "runner \<Rightarrow> bytes \<Rightarrow> runner" where
  "writeChildOrReplace run frame =
     (case writeChild run frame of
        (r, outcome, err) \<Rightarrow>
          if outcome \<noteq> writeDelivered \<or> err \<noteq> None then replaceCurrent ReasonWriteFailure r else r)"

definition rejectHostRequest :: "runner \<Rightarrow> parsedFrame \<Rightarrow> int \<Rightarrow> bytes \<Rightarrow> runner" where
  "rejectHostRequest run frame code message =
     (case fr_id frame of
        None \<Rightarrow> run
      | Some i \<Rightarrow> fst (writeHostOrTerminate run (localErrorFrame (sv_raw i) code message)))"

section \<open>Admission of requests\<close>

definition errTerminalTaskCancel :: bytes where
  "errTerminalTaskCancel = ''task is already terminal''"

definition validateTaskOperation :: "directionRegistry \<Rightarrow> parsedFrame \<Rightarrow> nat \<Rightarrow> unit result" where
  "validateTaskOperation registry frame g =
     (let active = mget (dr_tasks registry) (fr_taskID frame);
          term' = mget (dr_terminalTasks registry) (fr_taskID frame)
      in if active \<noteq> None \<and> term' \<noteq> None then Err ''taskId belongs to active and terminal tasks''
         else if (case active of None \<Rightarrow> False | Some t \<Rightarrow> ta_generation t = g) then Ok ()
         else if (case term' of None \<Rightarrow> False | Some t \<Rightarrow> ta_generation t = g)
         then (if fr_taskOperation frame = ''tasks/cancel'' then Err errTerminalTaskCancel else Ok ())
         else Err ''unknown taskId'')"

definition validateModernHostRequest :: "runner \<Rightarrow> parsedFrame \<Rightarrow> unit result" where
  "validateModernHostRequest run frame =
     (case fr_id frame of
        None \<Rightarrow> Err ''request id is missing''
      | Some i \<Rightarrow>
          (if mhas (dr_requests (ru_host run)) (sv_key i) then Err ''duplicate active request id''
           else if mlen (dr_requests (ru_host run)) \<ge> activeCorrelationLimit
           then Err ''active correlation limit reached''
           else if containsRequest (ru_pending run) (sv_key i) then Err ''duplicate pending request id''
           else case fr_progressToken frame of
               None \<Rightarrow> Ok ()
             | Some token \<Rightarrow>
                 (if mhas (dr_tokens (ru_host run)) (sv_key token) then Err ''duplicate active progress token''
                  else if containsProgressToken (ru_pending run) (sv_key token)
                  then Err ''duplicate pending progress token''
                  else Ok ())))"

definition keepSupportedTask :: "bytes option \<Rightarrow> bool \<Rightarrow> parsedFrame \<Rightarrow> parsedFrame" where
  "keepSupportedTask initialize response frame =
     (if fr_taskAugmented frame \<and>
         \<not> taskRequestSupported (case initialize of None \<Rightarrow> [] | Some b \<Rightarrow> b) response (fr_method frame)
      then frame\<lparr>fr_taskAugmented := False\<rparr> else frame)"

definition duplicateInitialize :: "runner \<Rightarrow> scalarKey \<Rightarrow> bool" where
  "duplicateInitialize run key \<longleftrightarrow>
     (case in_id (ru_init run) of
        None \<Rightarrow> False
      | Some i \<Rightarrow> (in_awaiting (ru_init run) \<or> ru_state run = StateReplaying) \<and> key = sv_key i)"

text \<open>The checks after \<open>taskAugmented\<close> has been adjusted; the error comes with its code.\<close>

definition validateLegacyRequest :: "runner \<Rightarrow> parsedFrame \<Rightarrow> (int \<times> bytes) option" where
  "validateLegacyRequest run frame =
     (if fr_utilityErr frame \<noteq> None then Some (codeInvalidRequest, ''invalid request metadata'')
      else case (if fr_taskOperation frame \<noteq> []
                 then (case ru_current run of
                         None \<Rightarrow> Err ''unknown taskId''
                       | Some gen \<Rightarrow> validateTaskOperation (ru_host run) frame (ge_id gen))
                 else Ok ()) of
          Inl e \<Rightarrow> Some (codeInvalidParams, e)
        | Inr _ \<Rightarrow>
            (case canRegister (ru_host run) frame of
               Inl e \<Rightarrow> Some (codeInvalidRequest, e)
             | Inr _ \<Rightarrow>
                 (case fr_id frame of
                    None \<Rightarrow> None
                  | Some i \<Rightarrow>
                      (if duplicateInitialize run (sv_key i)
                       then Some (codeInvalidRequest, ''duplicate active request id'')
                       else if containsRequest (ru_pending run) (sv_key i)
                       then Some (codeInvalidRequest, ''duplicate pending request id'')
                       else if (case fr_progressToken frame of
                                  None \<Rightarrow> False
                                | Some token \<Rightarrow> containsProgressToken (ru_pending run) (sv_key token))
                       then Some (codeInvalidRequest, ''duplicate pending progress token'')
                       else None))))"

definition validateHostRequest :: "runner \<Rightarrow> parsedFrame \<Rightarrow> parsedFrame \<times> (int \<times> bytes) option" where
  "validateHostRequest run frame =
     (if modern run
      then (frame, case validateModernHostRequest run frame of
                     Inl e \<Rightarrow> Some (codeInvalidRequest, e) | Inr _ \<Rightarrow> None)
      else
        let frame' = keepSupportedTask (in_response (ru_init run)) True frame
        in (frame', validateLegacyRequest run frame'))"

text \<open>Requests are validated, other frames pass.\<close>

definition admitHost :: "runner \<Rightarrow> parsedFrame \<Rightarrow> parsedFrame \<times> (int \<times> bytes) option" where
  "admitHost run frame =
     (if fr_kind frame = frameRequest then validateHostRequest run frame else (frame, None))"

section \<open>Queueing and delivery\<close>

definition enqueueHost :: "runner \<Rightarrow> pendingFrame \<Rightarrow> bool \<Rightarrow> runner" where
  "enqueueHost run item sameGenerationOnly =
     (case admitHost run (pf_frame item) of
        (frame, Some (code, message)) \<Rightarrow> rejectHostRequest run frame code message
      | (frame, None) \<Rightarrow>
          (case enqueue (ru_pending run) (item\<lparr>pf_frame := frame, pf_sameGenerationOnly := sameGenerationOnly\<rparr>)
                  (cf_PendingFrameLimit (ru_cfg run)) (cf_PendingByteLimit (ru_cfg run)) of
             (_, False) \<Rightarrow>
               (if fr_kind frame = frameRequest
                then rejectHostRequest run frame codePendingFull ''supervisor pending queue is full''
                else run)
           | (q, True) \<Rightarrow>
               (let r1 = run\<lparr>ru_pending := q\<rparr>
                in if ru_state r1 = StateDormant then beginStart (stopDormantLeaseTimer r1)
                   else if ru_current r1 = None \<and> \<not> ru_starting r1 then beginStart r1
                   else r1)))"

definition retainAfterNotWritten :: "runner \<Rightarrow> pendingFrame \<Rightarrow> runner" where
  "retainAfterNotWritten run item =
     (let frame = pf_frame item
      in if fr_kind frame \<noteq> frameRequest \<and> fr_kind frame \<noteq> frameNotification then run
         else case pushFrontBounded (ru_pending run) item
                     (cf_PendingFrameLimit (ru_cfg run)) (cf_PendingByteLimit (ru_cfg run)) of
             (q, True) \<Rightarrow> run\<lparr>ru_pending := q\<rparr>
           | (_, False) \<Rightarrow>
               (if fr_kind frame = frameRequest
                then rejectHostRequest run frame codePendingFull ''supervisor pending queue is full''
                else run))"

text \<open>In the modern era the record that \<open>register\<close> has filed loses its initialize and task marks.\<close>

definition registerHost :: "runner \<Rightarrow> parsedFrame \<Rightarrow> nat \<Rightarrow> runner" where
  "registerHost run frame g =
     (case register (ru_host run) frame g of
        None \<Rightarrow> run
      | Some (h, req) \<Rightarrow>
          (if modern run
           then run\<lparr>ru_host := h\<lparr>dr_requests := mput (dr_requests h) (rr_key req)
                      (req\<lparr>rr_initialize := False, rr_taskAugmented := False, rr_taskID := []\<rparr>)\<rparr>\<rparr>
           else run\<lparr>ru_host := h\<rparr>))"

definition canDeliver :: "runner \<Rightarrow> parsedFrame \<Rightarrow> bool" where
  "canDeliver run frame \<longleftrightarrow>
     ru_state run = StateActive \<or> ru_state run = StateReplaying \<and> isInitializationPing frame"

definition deliverHostFirst :: "runner \<Rightarrow> pendingFrame \<Rightarrow> runner" where
  "deliverHostFirst run item =
     (case ru_current run of
        None \<Rightarrow> enqueueHost run item False
      | Some gen \<Rightarrow>
          (if \<not> canDeliver run (pf_frame item) then enqueueHost run item False
           else case admitHost run (pf_frame item) of
               (frame, Some (code, message)) \<Rightarrow> rejectHostRequest run frame code message
             | (frame, None) \<Rightarrow>
                 (case writeChild run (fr_raw frame) of
                    (r1, outcome, err) \<Rightarrow>
                      (let r2 = (if fr_kind frame = frameRequest \<and> outcome \<noteq> writeNotWritten
                                 then registerHost r1 frame (ge_id gen) else r1)
                       in if outcome = writeDelivered \<and> err = None then r2
                          else replaceCurrent ReasonWriteFailure
                                 (if outcome = writeNotWritten
                                  then retainAfterNotWritten r2 (item\<lparr>pf_frame := frame\<rparr>) else r2)))))"

section \<open>Responses and notifications of the host\<close>

definition ownChildRequest :: "runner \<Rightarrow> generation \<Rightarrow> scalarKey \<Rightarrow> requestRecord option" where
  "ownChildRequest run gen key =
     (case mget (dr_requests (ru_child run)) key of
        None \<Rightarrow> None
      | Some req \<Rightarrow> if rr_generation req \<noteq> ge_id gen then None else Some req)"

definition completeChildRequest :: "runner \<Rightarrow> requestRecord \<Rightarrow> parsedFrame \<Rightarrow> runner" where
  "completeChildRequest run req frame =
     (case writeChild run (fr_raw frame) of
        (r1, outcome, err) \<Rightarrow>
          (case (if outcome \<noteq> writeNotWritten then complete (ru_child r1) req frame else (ru_child r1, Ok ())) of
             (c, Inl e) \<Rightarrow> terminate ReasonProtocolFailure (Some e) (r1\<lparr>ru_child := c\<rparr>)
           | (c, Inr _) \<Rightarrow>
               (if outcome \<noteq> writeDelivered \<or> err \<noteq> None
                then replaceCurrent ReasonWriteFailure (r1\<lparr>ru_child := c\<rparr>)
                else r1\<lparr>ru_child := c\<rparr>)))"

definition handleHostResponse :: "runner \<Rightarrow> parsedFrame \<Rightarrow> runner" where
  "handleHostResponse run frame =
     (case (fr_id frame, ru_current run) of
        (Some i, Some gen) \<Rightarrow>
          (case ownChildRequest run gen (sv_key i) of
             None \<Rightarrow> run
           | Some req \<Rightarrow>
               (case canComplete (ru_child run) req frame of
                  Inl e \<Rightarrow>
                    (case cancel (ru_child run) req of
                       (c, Inl cancelErr) \<Rightarrow> terminate ReasonProtocolFailure (Some cancelErr) (run\<lparr>ru_child := c\<rparr>)
                     | (c, Inr _) \<Rightarrow>
                         writeChildOrReplace (run\<lparr>ru_child := c\<rparr>) (localErrorFrame (sv_raw i) codeInvalidParams e))
                | Inr _ \<Rightarrow> completeChildRequest run req frame))
      | _ \<Rightarrow> run)"

definition handleHostCancellation :: "runner \<Rightarrow> pendingFrame \<Rightarrow> runner" where
  "handleHostCancellation run item =
     (let frame = pf_frame item
      in if fr_utilityErr frame \<noteq> None then run
         else case fr_cancellation frame of
             None \<Rightarrow> run
           | Some target \<Rightarrow>
               (case removeRequest (ru_pending run) (sv_key target) of
                  (q, True) \<Rightarrow> run\<lparr>ru_pending := q\<rparr>
                | (_, False) \<Rightarrow>
                    (case (mget (dr_requests (ru_host run)) (sv_key target), ru_current run) of
                       (Some req, Some gen) \<Rightarrow>
                         (if rr_generation req \<noteq> ge_id gen \<or> rr_initialize req \<or> rr_taskAugmented req then run
                          else if ru_state run = StateQuiescing then enqueueHost run item True
                          else if ru_state run \<noteq> StateActive then run
                          else case cancel (ru_host run) req of
                              (h, Inl e) \<Rightarrow> terminate ReasonProtocolFailure (Some e) (run\<lparr>ru_host := h\<rparr>)
                            | (h, Inr _) \<Rightarrow> writeChildOrReplace (run\<lparr>ru_host := h\<rparr>) (fr_raw frame))
                     | _ \<Rightarrow> run)))"

definition handleHostProgress :: "runner \<Rightarrow> parsedFrame \<Rightarrow> runner" where
  "handleHostProgress run frame =
     (if fr_utilityErr frame \<noteq> None then run
      else case (fr_progress frame, ru_current run) of
          (Some meta, Some gen) \<Rightarrow>
            (case acceptProgress (ru_child run) meta (ge_id gen) of
               (_, False) \<Rightarrow> run
             | (c, True) \<Rightarrow> writeChildOrReplace (run\<lparr>ru_child := c\<rparr>) (fr_raw frame))
        | _ \<Rightarrow> run)"

definition handleHostTaskStatus :: "runner \<Rightarrow> parsedFrame \<Rightarrow> runner" where
  "handleHostTaskStatus run frame =
     (if fr_utilityErr frame \<noteq> None then run
      else case (fr_taskStatus frame, ru_current run) of
          (Some meta, Some gen) \<Rightarrow>
            (case updateTask (ru_child run) meta (ge_id gen) of
               (c, Inl e) \<Rightarrow> terminate ReasonProtocolFailure (Some e) (run\<lparr>ru_child := c\<rparr>)
             | (c, Inr False) \<Rightarrow> run\<lparr>ru_child := c\<rparr>
             | (c, Inr True) \<Rightarrow> writeChildOrReplace (run\<lparr>ru_child := c\<rparr>) (fr_raw frame))
        | _ \<Rightarrow> run)"

section \<open>The initialize exchange\<close>

definition routeInitializationHostPing :: "runner \<Rightarrow> pendingFrame \<Rightarrow> runner" where
  "routeInitializationHostPing run item =
     (if ru_state run = StateActive \<or> ru_state run = StateReplaying then deliverHostFirst run item
      else enqueueHost run item False)"

definition writeInitialInitialize :: "runner \<Rightarrow> parsedFrame \<Rightarrow> runner" where
  "writeInitialInitialize run frame =
     (case writeChild run (fr_raw frame) of
        (r1, outcome, err) \<Rightarrow>
          if outcome = writeDelivered \<and> err = None then armReplayTimer r1
          else replaceCurrent ReasonWriteFailure r1)"

definition beginInitialize :: "runner \<Rightarrow> parsedFrame \<Rightarrow> runner" where
  "beginInitialize run frame =
     (let r1 = run\<lparr>ru_init := (ru_init run)\<lparr>in_request := Some (fr_raw frame), in_id := fr_id frame, in_awaiting := True\<rparr>\<rparr>
      in if ru_current r1 \<noteq> None \<and> ru_state r1 = StateActive then writeInitialInitialize r1 frame
         else if ru_current r1 = None then beginStart (stopDormantLeaseTimer r1)
         else r1)"

text \<open>Before the exchange is complete: responses go on, a ping is routed, other requests are refused.\<close>

definition duringInitialize :: "runner \<Rightarrow> pendingFrame \<Rightarrow> bytes \<Rightarrow> runner \<times> bool" where
  "duringInitialize run item message =
     (let frame = pf_frame item
      in if isResponse frame then (run, False)
         else if isInitializationPing frame then (routeInitializationHostPing run item, True)
         else if fr_kind frame = frameRequest then (rejectHostRequest run frame codeInvalidRequest message, True)
         else (run, True))"

definition isInitializedNotification :: "parsedFrame \<Rightarrow> bool" where
  "isInitializedNotification frame \<longleftrightarrow>
     fr_kind frame = frameNotification \<and> fr_method frame = ''notifications/initialized''"

definition acceptInitialized :: "runner \<Rightarrow> parsedFrame \<Rightarrow> runner" where
  "acceptInitialized run frame =
     (let r1 = run\<lparr>ru_init := (ru_init run)\<lparr>in_initialized := Some (fr_raw frame)\<rparr>\<rparr>
      in if ru_current r1 \<noteq> None \<and> ru_state r1 = StateActive then writeChildOrReplace r1 (fr_raw frame) else r1)"

definition handleHostLifecycle :: "runner \<Rightarrow> pendingFrame \<Rightarrow> runner \<times> bool" where
  "handleHostLifecycle run item =
     (let frame = pf_frame item; ini = ru_init run
      in if in_request ini = None then
           (if fr_kind frame \<noteq> frameRequest then (run, True)
            else if fr_method frame \<noteq> ''initialize''
            then (rejectHostRequest run frame codeInvalidRequest ''initialize must be the first request'', True)
            else if fr_utilityErr frame \<noteq> None
            then (rejectHostRequest run frame codeInvalidParams ''invalid initialize metadata'', True)
            else (beginInitialize run frame, True))
         else if in_awaiting ini then duringInitialize run item ''initialize response is still pending''
         else if in_failed ini then
           (if fr_kind frame = frameRequest
            then (rejectHostRequest run frame codeInvalidRequest ''initialization failed'', True)
            else (run, True))
         else if in_initialized ini = None then
           (if isInitializedNotification frame then (acceptInitialized run frame, True)
            else duringInitialize run item ''notifications/initialized is required'')
         else if isInitializedNotification frame then (run, True)
         else if fr_kind frame = frameRequest \<and> fr_method frame = ''initialize''
         then (rejectHostRequest run frame codeInvalidRequest ''initialize already completed'', True)
         else (run, False))"

section \<open>The modern era\<close>

definition modernCancellation :: "runner \<Rightarrow> pendingFrame \<Rightarrow> scalarValue \<Rightarrow> runner" where
  "modernCancellation run item target =
     (case removeModernRequest (ru_pending run) (sv_key target) of
        (q, True) \<Rightarrow> run\<lparr>ru_pending := q\<rparr>
      | (_, False) \<Rightarrow>
          (case (ru_current run, mget (dr_requests (ru_host run)) (sv_key target)) of
             (Some gen, Some req) \<Rightarrow>
               (if rr_generation req \<noteq> ge_id gen then run
                else if ru_state run = StateQuiescing then enqueueHost run item True
                else if ru_state run \<noteq> StateActive then run
                else writeChildOrReplace (finishModernRequest run req) (fr_raw (pf_frame item)))
           | _ \<Rightarrow> run))"

definition handleModernHost :: "runner \<Rightarrow> pendingFrame \<Rightarrow> runner" where
  "handleModernHost run item =
     (let frame = pf_frame item
      in if isResponse frame then run
         else if fr_method frame = ''notifications/cancelled'' \<and> fr_kind frame = frameNotification then
           (case fr_cancellation frame of None \<Rightarrow> run | Some target \<Rightarrow> modernCancellation run item target)
         else if fr_method frame = ''notifications/progress'' \<and> fr_kind frame = frameNotification then run
         else if ru_state run = StateActive then deliverHostFirst run item
         else enqueueHost run item False)"

section \<open>The dormant lease\<close>

definition armDormantLease :: "runner \<Rightarrow> runner" where
  "armDormantLease run =
     (let lease = cf_DormantLease (ru_cfg run)
      in if lease \<le> 0 then run
         else run\<lparr>ru_dormantLeaseDeadline := en_now (ru_env run) + lease,
                  ru_timers := (ru_timers run)\<lparr>ti_dormantLease := Some lease\<rparr>\<rparr>)"

definition finishDormantLease :: "time \<Rightarrow> runner \<Rightarrow> runner" where
  "finishDormantLease now run =
     (if now < ru_dormantLeaseDeadline run
      then run\<lparr>ru_timers := (ru_timers run)\<lparr>ti_dormantLease := Some (ru_dormantLeaseDeadline run - now)\<rparr>\<rparr>
      else terminate ReasonDormantCommit None run)"

definition hostFrameInFlight :: "runner \<Rightarrow> bool" where
  "hostFrameInFlight run \<longleftrightarrow>
     ru_boundarySequence run > ru_lastHostSequence run \<and> ru_boundaryArrived run \<le> ru_dormantLeaseDeadline run"

definition resumeDormantLeaseAfterHost :: "runner \<Rightarrow> runner" where
  "resumeDormantLeaseAfterHost run =
     (if ru_terminal run \<or> ru_state run \<noteq> StateDormant \<or> ti_dormantLease (ru_timers run) \<noteq> None \<or>
         cf_DormantLease (ru_cfg run) \<le> 0 then run
      else if hostFrameInFlight run then run
      else finishDormantLease (en_now (ru_env run)) run)"

definition handleDormantLease :: "time \<Rightarrow> runner \<Rightarrow> runner" where
  "handleDormantLease now run =
     (if ru_state run \<noteq> StateDormant \<or> ti_dormantLease (ru_timers run) = None then run
      else
        let r1 = stopDormantLeaseTimer run
        in if hostFrameInFlight r1 then r1 else finishDormantLease now r1)"

section \<open>Dispatch\<close>

record hostFrameEvent =
  he_sequence :: nat
  he_arrived :: time
  he_frame :: "frame_error + parsedFrame"

text \<open>
  Late answers and task statuses for a child that is gone are consumed by the registry of the child's
  requests; \<open>Some\<close> is the runner after such a frame, \<open>None\<close> lets the frame continue.
\<close>

definition consumeRetiredHost :: "runner \<Rightarrow> parsedFrame \<Rightarrow> runner option" where
  "consumeRetiredHost run frame =
     (let settle = (\<lambda>outcome.
            case outcome of
              (c, Inl e) \<Rightarrow> Some (terminate ReasonProtocolFailure (Some e) (run\<lparr>ru_child := c\<rparr>))
            | (c, Inr handled) \<Rightarrow> if handled then Some (run\<lparr>ru_child := c\<rparr>) else None)
      in case (if isResponse frame \<and> fr_id frame \<noteq> None
               then settle (consumeRetiredResponse (ru_child run) frame) else None) of
           Some r \<Rightarrow> Some r
         | None \<Rightarrow>
             (case fr_taskStatus frame of
                Some meta \<Rightarrow>
                  (if fr_method frame = ''notifications/tasks/status''
                   then settle (consumeRetiredTaskStatus (ru_child run) meta) else None)
              | None \<Rightarrow> None))"

definition routeHost :: "runner \<Rightarrow> pendingFrame \<Rightarrow> runner" where
  "routeHost run item =
     (let frame = pf_frame item; state = ru_state run
      in if isResponse frame then
           (if state = StateActive \<or> state = StateReplaying \<or> state = StateAwaitingDormantExit
            then handleHostResponse run frame
            else if state = StateQuiescing then enqueueHost run item True else run)
         else if fr_method frame = ''notifications/cancelled'' then handleHostCancellation run item
         else if fr_method frame = ''notifications/progress'' then
           (if state = StateActive then handleHostProgress run frame
            else if state = StateQuiescing then enqueueHost run item True else run)
         else if fr_method frame = ''notifications/tasks/status'' then
           (if state = StateActive then handleHostTaskStatus run frame
            else if state = StateQuiescing then enqueueHost run item True else run)
         else if canDeliver run frame then deliverHostFirst run item
         else enqueueHost run item False)"

definition handleHostFrame :: "runner \<Rightarrow> pendingFrame \<Rightarrow> runner" where
  "handleHostFrame run item =
     (let frame = pf_frame item
      in if fr_reserved frame then
           (if fr_kind frame = frameRequest
            then rejectHostRequest run frame codeMethodNotFound ''method not found'' else run)
         else if modern run then handleModernHost run item
         else case handleHostLifecycle run item of
             (r1, True) \<Rightarrow> r1
           | (r1, False) \<Rightarrow>
               (case consumeRetiredHost r1 frame of
                  Some r2 \<Rightarrow> r2
                | None \<Rightarrow> routeHost r1 item))"

definition handleHostEvent :: "runner \<Rightarrow> hostFrameEvent \<Rightarrow> runner" where
  "handleHostEvent run event =
     (if ru_terminal run then run
      else
        let r1 = run\<lparr>ru_lastHostSequence := max (ru_lastHostSequence run) (he_sequence event)\<rparr>
        in resumeDormantLeaseAfterHost
             (case he_frame event of
                Inl err \<Rightarrow>
                  (case invalidFrameResponse err of
                     (code, message) \<Rightarrow> fst (writeHostOrTerminate r1 (localErrorFrame [] code message)))
              | Inr frame \<Rightarrow>
                  handleHostFrame r1
                    \<lparr>pf_sequence = he_sequence event, pf_arrived = he_arrived event, pf_frame = frame,
                     pf_sameGenerationOnly = False\<rparr>))"

end
