(* ===== verification/Struct_Decode.thy ===== *)
theory Struct_Decode
  imports Json
begin

text \<open>
  \<open>json.Unmarshal\<close> into Go structs, as far as the modelled sources use it: fields of type string,
  int, bool, pointers, \<open>json.RawMessage\<close>, nested structs, maps and slices of structs. The members of
  an object are assigned in input order; a member of the wrong type makes the call fail, and the
  callers discard the target then, so a failed decoding has no value here.
\<close>

section \<open>Selecting fields\<close>

text \<open>
  The key of an object member selects a struct field when they agree up to case folding. Besides the
  ASCII letters, U+017F folds to s and U+212A to k.
\<close>

fun foldName :: "bytes \<Rightarrow> bytes" where
  "foldName [] = []"
| "foldName (a # b # c # s) =
     (if byte_val a = 226 \<and> byte_val b = 132 \<and> byte_val c = 170 then CHR ''k'' # foldName s
      else if byte_val a = 197 \<and> byte_val b = 191 then CHR ''s'' # foldName (c # s)
      else lower a # foldName (b # c # s))"
| "foldName [a, b] = (if byte_val a = 197 \<and> byte_val b = 191 then ''s'' else [lower a, lower b])"
| "foldName [a] = [lower a]"

definition startsWith :: "char \<Rightarrow> bytes \<Rightarrow> bool" where
  "startsWith c raw \<longleftrightarrow> skipWS raw \<noteq> [] \<and> hd (skipWS raw) = c"

definition isNullValue :: "bytes \<Rightarrow> bool" where
  "isNullValue raw = startsWith (CHR ''n'') raw"

definition isStringValue :: "bytes \<Rightarrow> bool" where
  "isStringValue raw = startsWith (CHR 0x22) raw"

definition isObjectValue :: "bytes \<Rightarrow> bool" where
  "isObjectValue raw = startsWith (CHR ''{'') raw"

definition isArrayValue :: "bytes \<Rightarrow> bool" where
  "isArrayValue raw = startsWith (CHR ''['') raw"

definition isBoolValue :: "bytes \<Rightarrow> bool" where
  "isBoolValue raw \<longleftrightarrow> startsWith (CHR ''t'') raw \<or> startsWith (CHR ''f'') raw"

text \<open>The values of the members that select one field (its name in lower case), in input order.\<close>

definition fieldValues :: "bytes \<Rightarrow> (bytes \<times> bytes) list \<Rightarrow> bytes list" where
  "fieldValues name ms = map snd (filter (\<lambda>(k, _). foldName k = name) ms)"

definition membersOf :: "bytes \<Rightarrow> (bytes \<times> bytes) list" where
  "membersOf raw = (case jsonMembers raw of None \<Rightarrow> [] | Some ms \<Rightarrow> ms)"

text \<open>
  A chain of nested structs: the values that reach the innermost field, in the order in which they
  are assigned. Each struct on the way is an object, or \<open>null\<close>, which changes nothing.
\<close>

fun atPath :: "bytes list \<Rightarrow> bytes list \<Rightarrow> bytes list option" where
  "atPath [] vs = Some vs"
| "atPath (p # ps) vs =
     (if list_all (\<lambda>v. isNullValue v \<or> isObjectValue v) vs
      then atPath ps (concat (map (\<lambda>v. if isNullValue v then [] else fieldValues p (membersOf v)) vs))
      else None)"

text \<open>\<open>None\<close> when the text is no JSON or a struct on the path has another type.\<close>

definition unmarshalPath :: "bytes list \<Rightarrow> bytes \<Rightarrow> bytes list option" where
  "unmarshalPath path raw = (if jsonValid raw then atPath path [raw] else None)"

definition lastValue :: "bytes list \<Rightarrow> bytes option" where
  "lastValue vs = (if vs = [] then None else Some (last vs))"

section \<open>Field types\<close>

text \<open>string: \<open>null\<close> leaves the value, the zero value is empty.\<close>

fun stringField :: "bytes \<Rightarrow> bytes list \<Rightarrow> bytes option" where
  "stringField old [] = Some old"
| "stringField old (v # vs) =
     (if isNullValue v then stringField old vs
      else if isStringValue v then Option.bind (unmarshalString v) (\<lambda>s. stringField s vs)
      else None)"

text \<open>\<open>*string\<close>: \<open>null\<close> sets nil.\<close>

fun stringPtr :: "bytes option \<Rightarrow> bytes list \<Rightarrow> bytes option option" where
  "stringPtr old [] = Some old"
| "stringPtr old (v # vs) =
     (if isNullValue v then stringPtr None vs
      else if isStringValue v then Option.bind (unmarshalString v) (\<lambda>s. stringPtr (Some s) vs)
      else None)"

fun boolField :: "bool \<Rightarrow> bytes list \<Rightarrow> bool option" where
  "boolField old [] = Some old"
| "boolField old (v # vs) =
     (if isNullValue v then boolField old vs
      else if isBoolValue v then boolField (startsWith (CHR ''t'') v) vs
      else None)"

text \<open>
  int and int64: the literal must be an integer without fraction and exponent that fits 64 bits.
\<close>

definition intLiteral :: "bytes \<Rightarrow> int option" where
  "intLiteral v = atoi (trimJSONWhitespace v)"

fun intField :: "int \<Rightarrow> bytes list \<Rightarrow> int option" where
  "intField old [] = Some old"
| "intField old (v # vs) =
     (if isNullValue v then intField old vs
      else Option.bind (intLiteral v) (\<lambda>i. intField i vs))"

text \<open>\<open>json.RawMessage\<close> takes every value, \<open>null\<close> too; a pointer to one is nil after \<open>null\<close>.\<close>

definition rawField :: "bytes list \<Rightarrow> bytes option" where
  "rawField vs = lastValue vs"

definition rawPtr :: "bytes list \<Rightarrow> bytes option" where
  "rawPtr vs = (case lastValue vs of None \<Rightarrow> None | Some v \<Rightarrow> if isNullValue v then None else Some v)"

text \<open>\<open>map[string]json.RawMessage\<close>: an object adds its members, \<open>null\<close> sets the nil map.\<close>

fun mapField :: "(bytes, bytes) gomap option \<Rightarrow> bytes list \<Rightarrow> (bytes, bytes) gomap option option" where
  "mapField old [] = Some old"
| "mapField old (v # vs) =
     (if isNullValue v then mapField None vs
      else if isObjectValue v
      then mapField (Some (foldl (\<lambda>m (k, x). mput m k x) (case old of None \<Rightarrow> [] | Some m \<Rightarrow> m) (membersOf v))) vs
      else None)"

section \<open>Arrays\<close>

text \<open>\<open>json.Unmarshal\<close> of an array into raw elements.\<close>

fun arrElements :: "nat \<Rightarrow> bytes \<Rightarrow> (bytes list \<times> bytes) option" where
  "arrElements 0 s = None"
| "arrElements (Suc f) s =
     Option.bind (jsonRaw s) (\<lambda>(val, r).
       case expect (CHR '','') r of
         Some r1 \<Rightarrow> map_option (\<lambda>(vs, q). (val # vs, q)) (arrElements f r1)
       | None \<Rightarrow> map_option (\<lambda>q. ([val], q)) (expect (CHR '']'') r))"

definition unmarshalElements :: "bytes \<Rightarrow> bytes list option" where
  "unmarshalElements raw =
     (if \<not> jsonValid raw then None
      else Option.bind (expect (CHR ''['') raw) (\<lambda>r.
        case expect (CHR '']'') r of
          Some q \<Rightarrow> Some []
        | None \<Rightarrow> map_option fst (arrElements (length r) r)))"

section \<open>Facts\<close>

lemma stringPtr_ok:
  "stringPtr old vs \<noteq> None \<Longrightarrow> list_all (\<lambda>v. isNullValue v \<or> isStringValue v) vs"
  by (induction vs arbitrary: old) (auto split: if_splits bind_splits)

lemma null_not_string: "isNullValue v \<Longrightarrow> \<not> isStringValue v"
  by (simp add: isNullValue_def isStringValue_def startsWith_def)

end
