(* ===== verification/Initialize_Contract.thy ===== *)
theory Initialize_Contract
  imports Frame Struct_Decode
begin

text \<open>
  The comparison that decides whether a replacement engine may take over an initialised session
  (\<open>muxcore/supervisor/replay.go\<close>): its initialize result must have the protocol version and the
  capabilities of the original one, compared as JSON values, so the order of object members, white
  space and the spelling of numbers and strings do not matter.
\<close>

section \<open>Values\<close>

text \<open>
  The values that \<open>decodeSemanticJSON\<close> builds. A Go map has no order, so the members of an object are
  kept sorted by key and \<open>reflect.DeepEqual\<close> is equality.
\<close>

datatype semantic =
    SObject "(bytes \<times> semantic) list"
  | SArray "semantic list"
  | SString bytes
  | SBool bool
  | SNull
  | SNumber bytes

fun decodeFields :: "(bytes \<Rightarrow> semantic result) \<Rightarrow> (bytes \<times> bytes) list \<Rightarrow> (bytes \<times> semantic) list result" where
  "decodeFields dec [] = Ok []"
| "decodeFields dec ((key, raw) # rest) =
     (case dec raw of
        Inl e \<Rightarrow> Err (key @ '': '' @ e)
      | Inr v \<Rightarrow> (case decodeFields dec rest of Inl e \<Rightarrow> Err e | Inr vs \<Rightarrow> Ok ((key, v) # vs)))"

fun decodeElements :: "(bytes \<Rightarrow> semantic result) \<Rightarrow> nat \<Rightarrow> bytes list \<Rightarrow> semantic list result" where
  "decodeElements dec i [] = Ok []"
| "decodeElements dec i (raw # rest) =
     (case dec raw of
        Inl e \<Rightarrow> Err (''element '' @ natDec i @ '': '' @ e)
      | Inr v \<Rightarrow> (case decodeElements dec (Suc i) rest of Inl e \<Rightarrow> Err e | Inr vs \<Rightarrow> Ok (v # vs)))"

definition semanticObject :: "(bytes \<Rightarrow> semantic result) \<Rightarrow> bytes \<Rightarrow> (bytes \<times> semantic) list result" where
  "semanticObject dec raw =
     (case decodeObject raw of
        Inl e \<Rightarrow> Err e
      | Inr flds \<Rightarrow>
          (case decodeFields dec flds of
             Inl e \<Rightarrow> Err e
           | Inr ms \<Rightarrow> Ok (sort_key fst ms)))"

text \<open>One level of \<open>decodeSemanticJSON\<close>, with the decoder for the parts as an argument.\<close>

definition semanticLevel :: "(bytes \<Rightarrow> semantic result) \<Rightarrow> bytes \<Rightarrow> semantic result" where
  "semanticLevel dec raw =
     (case trimJSONWhitespace raw of
        [] \<Rightarrow> Err ''empty JSON value''
      | c # s \<Rightarrow>
          (if c = CHR ''{'' then
             (case semanticObject dec (c # s) of Inl e \<Rightarrow> Err e | Inr ms \<Rightarrow> Ok (SObject ms))
           else if c = CHR ''['' then
             (case unmarshalElements (c # s) of
                None \<Rightarrow> Err ''invalid array''
              | Some elements \<Rightarrow>
                  (case decodeElements dec 0 elements of Inl e \<Rightarrow> Err e | Inr vs \<Rightarrow> Ok (SArray vs)))
           else if c = CHR 0x22 then
             (case unmarshalString (c # s) of None \<Rightarrow> Err ''invalid string'' | Some v \<Rightarrow> Ok (SString v))
           else if c = CHR ''t'' \<or> c = CHR ''f'' then
             (case unmarshalBool (c # s) of None \<Rightarrow> Err ''invalid literal'' | Some v \<Rightarrow> Ok (SBool v))
           else if c = CHR ''n'' then
             (if c # s = ''null'' then Ok SNull else Err ''invalid null value'')
           else
             (case canonicalJSONNumber (c # s) of
                None \<Rightarrow> Err (''invalid JSON number '' @ goQuote (c # s))
              | Some n \<Rightarrow> Ok (SNumber n))))"

text \<open>The recursion descends into proper parts of the text, so the length of the text bounds its depth.\<close>

primrec semanticJSON_fuel :: "nat \<Rightarrow> bytes \<Rightarrow> semantic result" where
  "semanticJSON_fuel 0 = (\<lambda>raw. Err ''nesting'')"
| "semanticJSON_fuel (Suc n) = semanticLevel (semanticJSON_fuel n)"

definition decodeSemanticJSON :: "bytes \<Rightarrow> semantic result" where
  "decodeSemanticJSON raw = semanticJSON_fuel (Suc (length raw)) raw"

definition decodeSemanticJSONObject :: "bytes \<Rightarrow> (bytes \<times> semantic) list result" where
  "decodeSemanticJSONObject raw = semanticObject decodeSemanticJSON raw"

section \<open>The contract\<close>

definition initializeContract :: "parsedFrame \<Rightarrow> (bytes \<times> (bytes \<times> semantic) list) result" where
  "initializeContract frame =
     (if fr_kind frame \<noteq> frameResult then Err ''initialize response is not a result''
      else case decodeObject (fr_result frame) of
          Inl e \<Rightarrow> Err (''initialize result: '' @ e)
        | Inr result \<Rightarrow>
            (case mget result ''protocolVersion'' of
               None \<Rightarrow> Err ''initialize result is missing protocolVersion''
             | Some raw \<Rightarrow>
                 (let invalid = ''initialize protocolVersion must be a non-empty string''
                  in case parseString raw ''protocolVersion'' of
                       Inl _ \<Rightarrow> Err invalid
                     | Inr version \<Rightarrow>
                         (if version = [] then Err invalid
                          else case mget result ''capabilities'' of
                              None \<Rightarrow> Err ''initialize result is missing capabilities''
                            | Some capabilitiesRaw \<Rightarrow>
                                (case decodeSemanticJSONObject capabilitiesRaw of
                                   Inl e \<Rightarrow> Err (''initialize capabilities must be an object: '' @ e)
                                 | Inr capabilities \<Rightarrow> Ok (version, capabilities))))))"

definition sameInitializeContract :: "bytes \<Rightarrow> parsedFrame \<Rightarrow> bool" where
  "sameInitializeContract original replacement =
     (case parseFrame original 0 of
        Inl _ \<Rightarrow> False
      | Inr originalFrame \<Rightarrow>
          (case initializeContract originalFrame of
             Inl _ \<Rightarrow> False
           | Inr contract \<Rightarrow>
               (case initializeContract replacement of Inl _ \<Rightarrow> False | Inr c \<Rightarrow> c = contract)))"

section \<open>The recursion terminates within its bound\<close>

text \<open>Scanning a value consumes input, so what is decoded next is always shorter.\<close>

lemma expect_length: "expect c s = Some r \<Longrightarrow> length r < length s"
  using length_dropWhile_le [of isJSONWhitespace s]
  by (auto simp: expect_def skipWS_def split: list.splits if_splits)

lemma scanStr_length: "scanStr s = Some (a, r) \<Longrightarrow> length r < length s"
proof (induction s arbitrary: a r rule: scanStr.induct)
  case (2 c s)
  show ?case
  proof (cases "c = CHR 0x5C")
    case False
    with 2 show ?thesis by (auto split: if_splits)
  next
    case True
    show ?thesis
    proof (cases s)
      case (Cons e s')
      consider (plain) "e \<in> set ''bfnrt/'' \<or> e = CHR 0x5C \<or> e = CHR 0x22" | (hex) "\<not> (e \<in> set ''bfnrt/'' \<or> e = CHR 0x5C \<or> e = CHR 0x22)"
        by blast
      then show ?thesis
      proof cases
        case plain
        then obtain a' where "scanStr s' = Some (a', r)"
          using 2(4) True Cons by (auto simp del: list.set)
        then show ?thesis using 2(1) [OF _ True Cons plain] True Cons by fastforce
      next
        case hex
        then obtain h1 h2 h3 h4 s'' a' where "e = CHR ''u''" "s' = h1 # h2 # h3 # h4 # s''"
          "isHex h1 \<and> isHex h2 \<and> isHex h3 \<and> isHex h4" "scanStr s'' = Some (a', r)"
          using 2(4) True Cons by (auto simp del: list.set split: if_splits list.splits)
        then show ?thesis using 2(2) [OF _ True Cons hex] True Cons by fastforce
      qed
    qed (use 2(4) True in auto)
  qed
qed simp

lemma skipNum_length: "skipNum s = Some r \<Longrightarrow> length r \<le> length s"
proof -
  have d: "length (dropWhile isDigit x) \<le> length x" for x by (rule length_dropWhile_le)
  have i: "skipInt x = Some y \<Longrightarrow> length y \<le> length x" for x y
    using d [of "tl x"] by (cases x) (auto simp: skipInt_def split: if_splits)
  have f: "skipFrac x = Some y \<Longrightarrow> length y \<le> length x" for x y
    using d [of "tl x"] by (cases x) (auto simp: skipFrac_def split: if_splits)
  have e: "skipExp x = Some y \<Longrightarrow> length y \<le> length x" for x y
    using d [of "tl x"] d [of "tl (tl x)"]
    by (cases x; cases "tl x") (auto simp: skipExp_def Let_def split: if_splits)
  have "length (case s of [] \<Rightarrow> [] | c # r \<Rightarrow> if c = CHR ''-'' then r else s) \<le> length s"
    by (cases s) auto
  then show "skipNum s = Some r \<Longrightarrow> length r \<le> length s"
    unfolding skipNum_def Let_def bind_eq_Some_conv by (meson e f i order_trans)
qed

lemma expect_le: "expect c s = Some r \<Longrightarrow> length r \<le> length s"
  by (drule expect_length) simp

lemma scanStr_le: "scanStr s = Some (a, r) \<Longrightarrow> length r \<le> length s"
  by (drule scanStr_length) simp

lemma skip_length:
  "skipValue f d s = Some r \<Longrightarrow> length r \<le> length s"
  "skipMembers f d s = Some r \<Longrightarrow> length r \<le> length s"
  "skipElems f d s = Some r \<Longrightarrow> length r \<le> length s"
proof (induction f d s and f d s and f d s arbitrary: r and r and r rule: skipValue_skipMembers_skipElems.induct)
  case (2 f d s)
  show ?case
  proof (cases "skipWS s")
    case (Cons c q)
    then have q: "length q < length s"
      using length_dropWhile_le [of isJSONWhitespace s] by (simp add: skipWS_def)
    have lit: "skipLit l q = Some r \<Longrightarrow> length r \<le> length q" for l
      by (auto simp: skipLit_def split: if_splits)
    have obj: "(case expect (CHR ''}'') q of Some r' \<Rightarrow> Some r' | None \<Rightarrow> skipMembers f (Suc d) q) = Some r \<Longrightarrow>
      c = CHR ''{'' \<Longrightarrow> \<not> maxNestingDepth \<le> d \<Longrightarrow> length r \<le> length q"
      using 2(1) [OF Cons] expect_le [of _ q r] by (simp split: option.splits)
    have arr: "(case expect (CHR '']'') q of Some r' \<Rightarrow> Some r' | None \<Rightarrow> skipElems f (Suc d) q) = Some r \<Longrightarrow>
      c = CHR ''['' \<Longrightarrow> \<not> maxNestingDepth \<le> d \<Longrightarrow> length r \<le> length q"
      using 2(2) [OF Cons] expect_le [of _ q r] by (simp split: option.splits)
    have "length r \<le> length (c # q)"
      using 2(3) Cons obj arr lit scanStr_le [of q _ r] skipNum_length [of "c # q" r]
      by (simp split: if_split_asm) (blast intro: le_SucI)+
    then show ?thesis using q by simp
  qed (use 2 in auto)
next
  case (4 f d s)
  then obtain s0 a s1 s2 s3 where
    *: "expect (CHR 0x22) s = Some s0" "scanStr s0 = Some (a, s1)" "expect (CHR '':'') s1 = Some s2"
       "skipValue f d s2 = Some s3"
    and **: "(case expect (CHR '','') s3 of Some r4 \<Rightarrow> skipMembers f d r4 | None \<Rightarrow> expect (CHR ''}'') s3) = Some r"
    by (auto simp: bind_eq_Some_conv)
  have "length r \<le> length s3"
    using ** 4(2) [OF *(1-2) refl *(3,4)] expect_le
    by (auto split: option.splits) (meson order_trans)
  then show ?case
    using 4(1) [OF *(1-2) refl *(3,4)] expect_le [OF *(1)] scanStr_le [OF *(2)] expect_le [OF *(3)] by linarith
next
  case (6 f d s)
  then obtain s3 where *: "skipValue f d s = Some s3"
    and **: "(case expect (CHR '','') s3 of Some r4 \<Rightarrow> skipElems f d r4 | None \<Rightarrow> expect (CHR '']'') s3) = Some r"
    by (auto simp: bind_eq_Some_conv)
  have "length r \<le> length s3"
    using ** 6(2) [OF *] expect_le by (auto split: option.splits) (meson order_trans)
  then show ?case using 6(1) [OF *] by linarith
qed auto

lemma jsonRaw_length: "jsonRaw s = Some (v, r) \<Longrightarrow> length v \<le> length s \<and> length r \<le> length s"
  using length_dropWhile_le [of isJSONWhitespace s]
    skip_length(1) [of "Suc (length s)" 0 s r]
  by (auto simp: jsonRaw_def jsonSkip_def skipWS_def Let_def simp del: skipValue.simps split: option.splits)

lemma set_mput: "set (mput m k v) \<subseteq> insert (k, v) (set m)"
  unfolding mput_def by (induction m) auto

lemma decodeMembers_length:
  "decodeMembers f flds s = Ok (m, q) \<Longrightarrow> (k, v) \<in> set m \<Longrightarrow> (k, v) \<in> set flds \<or> length v \<le> length s"
proof (induction f flds s arbitrary: m q rule: decodeMembers.induct)
  case (2 f flds s)
  obtain literal r1 where 1: "Option.bind (expect (CHR 0x22) s) scanStr = Some (literal, r1)"
    using 2(2) by (auto split: option.splits)
  obtain val r3 where 3: "Option.bind (expect (CHR '':'') r1) jsonRaw = Some (val, r3)"
    and fresh: "\<not> mhas flds (unquote literal)"
    using 2(2) 1 by (auto simp: Let_def split: option.splits if_splits)
  have len: "length val \<le> length s \<and> length r3 \<le> length s"
    using 1 3 expect_le scanStr_le jsonRaw_length unfolding bind_eq_Some_conv by (metis order_trans)
  show ?case
  proof (cases "expect (CHR '','') r3")
    case (Some r4)
    then have "decodeMembers f (mput flds (unquote literal) val) r4 = Ok (m, q)"
      using 2(2) 1 3 fresh by (simp add: Let_def)
    from 2(1) [OF 1 _ refl fresh 3 _ Some this 2(3)] show ?thesis
      using set_mput [of flds "unquote literal" val] len expect_le [OF Some] by fastforce
  next
    case None
    then have "m = mput flds (unquote literal) val"
      using 2(2) 1 3 fresh by (auto simp: Let_def split: option.splits)
    then show ?thesis using 2(3) set_mput [of flds "unquote literal" val] len by auto
  qed
qed simp

lemma decodeObject_length: "decodeObject raw = Ok flds \<Longrightarrow> (k, v) \<in> set flds \<Longrightarrow> length v < length raw"
proof -
  assume a: "decodeObject raw = Ok flds" "(k, v) \<in> set flds"
  obtain c r where s: "skipWS raw = c # r" using a(1) by (auto simp: decodeObject_def split: list.splits)
  then have "length r < length raw"
    using length_dropWhile_le [of isJSONWhitespace raw] by (simp add: skipWS_def)
  moreover have "length v \<le> length r"
    using a s by (auto simp: decodeObject_def split: if_splits option.splits sum.splits dest: decodeMembers_length)
  ultimately show ?thesis by simp
qed

lemma arrElements_length: "arrElements f s = Some (vs, q) \<Longrightarrow> v \<in> set vs \<Longrightarrow> length v \<le> length s"
proof (induction f s arbitrary: vs q rule: arrElements.induct)
  case (2 f s)
  then obtain val r where r: "jsonRaw s = Some (val, r)" by (auto simp: bind_eq_Some_conv)
  show ?case
  proof (cases "expect (CHR '','') r")
    case (Some r1)
    with 2(2) r obtain vs' where "arrElements f r1 = Some (vs', q)" "vs = val # vs'"
      by (auto simp: bind_eq_Some_conv)
    with 2(1) [OF r refl Some] 2(3) jsonRaw_length [OF r] expect_le [OF Some] show ?thesis by fastforce
  next
    case None
    with 2(2,3) r jsonRaw_length [OF r] show ?thesis by (auto simp: bind_eq_Some_conv)
  qed
qed simp

lemma unmarshalElements_length: "unmarshalElements raw = Some vs \<Longrightarrow> v \<in> set vs \<Longrightarrow> length v < length raw"
proof -
  assume a: "unmarshalElements raw = Some vs" "v \<in> set vs"
  then obtain r where r: "expect (CHR ''['') raw = Some r"
    "vs \<noteq> [] \<longrightarrow> (\<exists>q. arrElements (length r) r = Some (vs, q))"
    by (auto simp: unmarshalElements_def bind_eq_Some_conv split: if_splits option.splits)
  then obtain q where "arrElements (length r) r = Some (vs, q)" using a(2) by auto
  then show ?thesis using arrElements_length [OF _ a(2)] expect_length [OF r(1)] by fastforce
qed

lemma decodeFields_cong:
  "(\<And>k v. (k, v) \<in> set flds \<Longrightarrow> d v = d' v) \<Longrightarrow> decodeFields d flds = decodeFields d' flds"
proof (induction flds)
  case (Cons f flds)
  obtain k v where "f = (k, v)" by (cases f)
  moreover from this Cons(2) [of k v] have "d v = d' v" by simp
  moreover have "decodeFields d flds = decodeFields d' flds"
    by (rule Cons(1)) (use Cons(2) in auto)
  ultimately show ?case by (simp cong: sum.case_cong)
qed simp

lemma decodeElements_cong:
  "(\<And>v. v \<in> set vs \<Longrightarrow> d v = d' v) \<Longrightarrow> decodeElements d i vs = decodeElements d' i vs"
  by (induction vs arbitrary: i) (simp_all cong: sum.case_cong)

lemma semanticObject_cong:
  assumes "\<And>v. length v < length raw \<Longrightarrow> d v = d' v"
  shows "semanticObject d raw = semanticObject d' raw"
proof (cases "decodeObject raw")
  case (Inr flds)
  then have "decodeFields d flds = decodeFields d' flds"
    by (intro decodeFields_cong assms) (rule decodeObject_length)
  then show ?thesis using Inr by (simp add: semanticObject_def)
qed (simp add: semanticObject_def)

lemma length_trimJSON: "length (trimJSONWhitespace raw) \<le> length raw"
  unfolding trimJSONWhitespace_def
  by (metis length_dropWhile_le length_rev order_trans)

lemma semanticLevel_cong:
  assumes "\<And>v. length v < length raw \<Longrightarrow> d v = d' v"
  shows "semanticLevel d raw = semanticLevel d' raw"
proof (cases "trimJSONWhitespace raw")
  case (Cons c s)
  have less: "length v < length (c # s) \<Longrightarrow> d v = d' v" for v
    using assms length_trimJSON [of raw] Cons by simp
  have "semanticObject d (c # s) = semanticObject d' (c # s)"
    by (rule semanticObject_cong) (rule less)
  moreover have "(case unmarshalElements (c # s) of None \<Rightarrow> x | Some vs \<Rightarrow> f (decodeElements d 0 vs)) =
      (case unmarshalElements (c # s) of None \<Rightarrow> x | Some vs \<Rightarrow> f (decodeElements d' 0 vs))"
    for x :: "semantic result" and f
  proof (cases "unmarshalElements (c # s)")
    case (Some vs)
    have "decodeElements d 0 vs = decodeElements d' 0 vs"
      using unmarshalElements_length [OF Some] by (intro decodeElements_cong less) simp
    then show ?thesis using Some by simp
  qed simp
  ultimately show ?thesis
    unfolding semanticLevel_def Cons list.case by presburger
qed (simp add: semanticLevel_def)

lemma semanticJSON_fuel_enough: "length raw < n \<Longrightarrow> semanticJSON_fuel n raw = decodeSemanticJSON raw"
proof (induction n arbitrary: raw rule: less_induct)
  case (less n)
  then obtain k where n: "n = Suc k" by (cases n) auto
  have "semanticLevel (semanticJSON_fuel k) raw = semanticLevel (semanticJSON_fuel (length raw)) raw"
  proof (rule semanticLevel_cong)
    fix v :: bytes
    assume v: "length v < length raw"
    then show "semanticJSON_fuel k v = semanticJSON_fuel (length raw) v"
      using less(1) [of k v] less(1) [of "length raw" v] less(2) n by simp
  qed
  then show ?case by (simp add: n decodeSemanticJSON_def)
qed


end
