(* ===== verification/Runner_Child.thy ===== *)
theory Runner_Child
  imports Runner_Host Initialize_Contract
begin

text \<open>
  What the supervisor does with frames of the child engine and with the end of a child
  (\<open>muxcore/supervisor\<close>: the child half of \<open>routing.go\<close> and \<open>modern.go\<close>, \<open>replay.go\<close>, and the
  dormancy protocol of \<open>finalization.go\<close>).
\<close>

section \<open>Delivering what waited\<close>

text \<open>
  The two loops that hand waiting host frames to the child. Every round takes a frame out of the
  queue, and a frame goes back only when the child is replaced, which ends the loop: the number of
  waiting frames bounds the rounds.
\<close>

definition eventOf :: "pendingFrame \<Rightarrow> hostFrameEvent" where
  "eventOf item = \<lparr>he_sequence = pf_sequence item, he_arrived = pf_arrived item, he_frame = Inr (pf_frame item)\<rparr>"

fun flushLoop :: "nat \<Rightarrow> runner \<Rightarrow> runner" where
  "flushLoop 0 run = run"
| "flushLoop (Suc n) run =
     (if ru_terminal run \<or> ru_current run = None \<or> ru_state run \<noteq> StateActive then run
      else case popQueue (ru_pending run) of
          (_, None) \<Rightarrow> run
        | (q, Some item) \<Rightarrow> flushLoop n (handleHostEvent (run\<lparr>ru_pending := q\<rparr>) (eventOf item)))"

definition flushPending :: "runner \<Rightarrow> runner" where
  "flushPending run = flushLoop (lenQueue (ru_pending run)) run"

fun pingLoop :: "nat \<Rightarrow> runner \<Rightarrow> runner" where
  "pingLoop 0 run = run"
| "pingLoop (Suc n) run =
     (if ru_terminal run \<or> ru_current run = None \<or> ru_state run \<noteq> StateReplaying then run
      else case popFirstInitializationPing (ru_pending run) of
          (_, None) \<Rightarrow> run
        | (q, Some item) \<Rightarrow> pingLoop n (deliverHostFirst (run\<lparr>ru_pending := q\<rparr>) item))"

definition flushReplayPings :: "runner \<Rightarrow> runner" where
  "flushReplayPings run = pingLoop (lenQueue (ru_pending run)) run"

section \<open>Requests and notifications of the child\<close>

definition rejectChildRequest :: "runner \<Rightarrow> parsedFrame \<Rightarrow> int \<Rightarrow> bytes \<Rightarrow> runner" where
  "rejectChildRequest run frame code message =
     (case (fr_id frame, ru_current run) of
        (Some i, Some _) \<Rightarrow> writeChildOrReplace run (localErrorFrame (sv_raw i) code message)
      | _ \<Rightarrow> run)"

definition admitChildRequest :: "runner \<Rightarrow> generation \<Rightarrow> parsedFrame \<Rightarrow> runner" where
  "admitChildRequest run gen frame =
     (if fr_utilityErr frame \<noteq> None
      then rejectChildRequest run frame codeInvalidParams ''invalid request metadata''
      else case (if fr_taskOperation frame \<noteq> []
                 then validateTaskOperation (ru_child run) frame (ge_id gen) else Ok ()) of
          Inl e \<Rightarrow> rejectChildRequest run frame codeInvalidParams e
        | Inr _ \<Rightarrow>
            (case canRegister (ru_child run) frame of
               Inl _ \<Rightarrow> replaceCurrent ReasonProtocolFailure run
             | Inr _ \<Rightarrow>
                 (case writeHostOrTerminate run (fr_raw frame) of
                    (r1, False) \<Rightarrow> r1
                  | (r1, True) \<Rightarrow>
                      (case register (ru_child r1) frame (ge_id gen) of
                         None \<Rightarrow> r1
                       | Some (c, _) \<Rightarrow> r1\<lparr>ru_child := c\<rparr>))))"

definition handleChildRequest :: "runner \<Rightarrow> parsedFrame \<Rightarrow> runner" where
  "handleChildRequest run frame =
     (case ru_current run of
        None \<Rightarrow> replaceCurrent ReasonProtocolFailure run
      | Some gen \<Rightarrow>
          (if in_initialized (ru_init run) = None \<and>
              (in_request (ru_init run) = None \<or> \<not> isInitializationPing frame)
           then replaceCurrent ReasonProtocolFailure run
           else admitChildRequest run gen (keepSupportedTask (in_request (ru_init run)) False frame)))"

definition handleChildCancellation :: "runner \<Rightarrow> parsedFrame \<Rightarrow> runner" where
  "handleChildCancellation run frame =
     (if fr_utilityErr frame \<noteq> None then run
      else case (fr_cancellation frame, ru_current run) of
          (Some target, Some gen) \<Rightarrow>
            (case ownChildRequest run gen (sv_key target) of
               None \<Rightarrow> run
             | Some req \<Rightarrow>
                 (if rr_initialize req \<or> rr_taskAugmented req then run
                  else case writeHostOrTerminate run (fr_raw frame) of
                      (r1, False) \<Rightarrow> r1
                    | (r1, True) \<Rightarrow> r1\<lparr>ru_child := retireRequest (ru_child r1) req\<rparr>))
        | _ \<Rightarrow> run)"

definition handleChildProgress :: "runner \<Rightarrow> parsedFrame \<Rightarrow> runner" where
  "handleChildProgress run frame =
     (if fr_utilityErr frame \<noteq> None then run
      else case (fr_progress frame, ru_current run) of
          (Some meta, Some gen) \<Rightarrow>
            (case acceptProgress (ru_host run) meta (ge_id gen) of
               (_, False) \<Rightarrow> run
             | (h, True) \<Rightarrow> fst (writeHostOrTerminate (run\<lparr>ru_host := h\<rparr>) (fr_raw frame)))
        | _ \<Rightarrow> run)"

definition handleChildTaskStatus :: "runner \<Rightarrow> parsedFrame \<Rightarrow> runner" where
  "handleChildTaskStatus run frame =
     (if fr_utilityErr frame \<noteq> None then run
      else case (fr_taskStatus frame, ru_current run) of
          (Some meta, Some gen) \<Rightarrow>
            (case updateTask (ru_host run) meta (ge_id gen) of
               (h, Inl e) \<Rightarrow> terminate ReasonProtocolFailure (Some e) (run\<lparr>ru_host := h\<rparr>)
             | (h, Inr False) \<Rightarrow> run\<lparr>ru_host := h\<rparr>
             | (h, Inr True) \<Rightarrow> fst (writeHostOrTerminate (run\<lparr>ru_host := h\<rparr>) (fr_raw frame)))
        | _ \<Rightarrow> run)"

section \<open>Responses of the child\<close>

definition completeInitialInitialize :: "runner \<Rightarrow> parsedFrame \<Rightarrow> runner" where
  "completeInitialInitialize run response =
     (if \<not> in_awaiting (ru_init run) then run
      else case writeHostOrTerminate (stopReplayTimer run) (fr_raw response) of
          (r1, False) \<Rightarrow> r1
        | (r1, True) \<Rightarrow>
            (let ini = (ru_init r1)\<lparr>in_awaiting := False\<rparr>
             in r1\<lparr>ru_init := (if fr_kind response = frameResult
                              then ini\<lparr>in_response := Some (fr_raw response)\<rparr>
                              else ini\<lparr>in_failed := True\<rparr>)\<rparr>))"

definition ownHostRequest :: "runner \<Rightarrow> generation \<Rightarrow> scalarKey \<Rightarrow> requestRecord option" where
  "ownHostRequest run gen key =
     (case mget (dr_requests (ru_host run)) key of
        None \<Rightarrow> None
      | Some req \<Rightarrow> if rr_generation req \<noteq> ge_id gen then None else Some req)"

text \<open>The answer is written to the host first, then the request is completed.\<close>

definition completeHostRequest :: "runner \<Rightarrow> requestRecord \<Rightarrow> parsedFrame \<Rightarrow> runner" where
  "completeHostRequest run req frame =
     (case complete (ru_host run) req frame of
        (h, Inl e) \<Rightarrow> terminate ReasonProtocolFailure (Some e) (run\<lparr>ru_host := h\<rparr>)
      | (h, Inr _) \<Rightarrow> run\<lparr>ru_host := h\<rparr>)"

definition handleChildResponse :: "runner \<Rightarrow> parsedFrame \<Rightarrow> runner" where
  "handleChildResponse run frame =
     (case (fr_id frame, ru_current run) of
        (Some i, Some gen) \<Rightarrow>
          (if in_awaiting (ru_init run) \<and> map_option sv_key (in_id (ru_init run)) = Some (sv_key i)
           then completeInitialInitialize run frame
           else case ownHostRequest run gen (sv_key i) of
               None \<Rightarrow> run
             | Some req \<Rightarrow>
                 (case canComplete (ru_host run) req frame of
                    Inl _ \<Rightarrow> replaceCurrent ReasonProtocolFailure run
                  | Inr _ \<Rightarrow>
                      (case writeHostOrTerminate run (fr_raw frame) of
                         (r1, False) \<Rightarrow> r1
                       | (r1, True) \<Rightarrow> completeHostRequest r1 req frame)))
      | _ \<Rightarrow> run)"

section \<open>Replaying the initialize exchange to a new child\<close>

definition beginReplay :: "runner \<Rightarrow> runner" where
  "beginReplay run =
     (case (ru_current run, in_request (ru_init run), in_id (ru_init run)) of
        (Some _, Some request, Some _) \<Rightarrow>
          (let r1 = setState StateReplaying ReasonInitial
                      (run\<lparr>ru_replay := \<lparr>rp_prelude = [], rp_preludeBytes = 0, rp_response = None\<rparr>\<rparr>)
           in case writeChild r1 request of
                (r2, outcome, err) \<Rightarrow>
                  (if outcome \<noteq> writeDelivered \<or> err \<noteq> None then replaceCurrent ReasonWriteFailure r2
                   else flushReplayPings (armReplayTimer r2)))
      | _ \<Rightarrow> replaceCurrent ReasonProtocolFailure run)"

fun writeAllHost :: "runner \<Rightarrow> bytes list \<Rightarrow> runner \<times> bool" where
  "writeAllHost run [] = (run, True)"
| "writeAllHost run (frame # frames) =
     (case writeHostOrTerminate run frame of
        (r1, False) \<Rightarrow> (r1, False)
      | (r1, True) \<Rightarrow> writeAllHost r1 frames)"

text \<open>The list-change notifications that the host can understand after a replacement.\<close>

definition replacementNotices :: "runner \<Rightarrow> bytes list" where
  "replacementNotices run =
     map listChangedFrame
       (filter (\<lambda>kind. supportsListChanged (case in_response (ru_init run) of None \<Rightarrow> [] | Some b \<Rightarrow> b) kind)
         (cf_ReplacementNotifications (ru_cfg run)))"

definition finishReplay :: "runner \<Rightarrow> runner" where
  "finishReplay run =
     flushPending
       (setState StateActive ReasonInitial
         (run\<lparr>ru_replay := (ru_replay run)\<lparr>rp_response := None\<rparr>,
              ru_host := clearRetiredCorrelations (clearTransitionTombstones (ru_host run)),
              ru_child := clearTransitionTombstones (ru_child run)\<rparr>))"

text \<open>The answer of a replayed initialize reaches the host when its first answer is still owed.\<close>

definition settleInitialize :: "runner \<Rightarrow> parsedFrame \<Rightarrow> runner \<times> bool" where
  "settleInitialize run response =
     (if in_awaiting (ru_init run) then
        (case writeHostOrTerminate run (fr_raw response) of
           (r1, False) \<Rightarrow> (r1, False)
         | (r1, True) \<Rightarrow>
             (let ini = (ru_init r1)\<lparr>in_awaiting := False\<rparr>
              in (r1\<lparr>ru_init := (if fr_kind response = frameResult
                               then ini\<lparr>in_response := Some (fr_raw response)\<rparr>
                               else ini\<lparr>in_failed := True\<rparr>)\<rparr>, True)))
      else (run, True))"

definition releasePrelude :: "runner \<Rightarrow> parsedFrame \<Rightarrow> runner" where
  "releasePrelude run response =
     (case writeAllHost run (rp_prelude (ru_replay run)) of
        (r1, False) \<Rightarrow> r1
      | (r1, True) \<Rightarrow>
          (case settleInitialize (r1\<lparr>ru_replay := (ru_replay r1)\<lparr>rp_prelude := [], rp_preludeBytes := 0\<rparr>\<rparr>) response of
             (r2, False) \<Rightarrow> r2
           | (r2, True) \<Rightarrow>
               (case writeAllHost r2
                       (if in_initialized (ru_init r2) \<noteq> None \<and> fr_kind response = frameResult
                        then replacementNotices r2 else []) of
                  (r3, False) \<Rightarrow> r3
                | (r3, True) \<Rightarrow> finishReplay r3)))"

definition completeReplay :: "runner \<Rightarrow> parsedFrame \<Rightarrow> runner" where
  "completeReplay run response =
     (let r1 = stopReplayTimer run
      in if ru_current r1 = None then r1
         else case in_initialized (ru_init r1) of
             None \<Rightarrow> releasePrelude r1 response
           | Some notification \<Rightarrow>
               (case writeChild r1 notification of
                  (r2, outcome, err) \<Rightarrow>
                    (if outcome \<noteq> writeDelivered \<or> err \<noteq> None then replaceCurrent ReasonWriteFailure r2
                     else releasePrelude r2 response)))"

definition replayResponse :: "runner \<Rightarrow> parsedFrame \<Rightarrow> runner" where
  "replayResponse run frame =
     (case ru_current run of
        None \<Rightarrow> run
      | Some gen \<Rightarrow>
          (if (case fr_id frame of None \<Rightarrow> False | Some i \<Rightarrow> ownHostRequest run gen (sv_key i) \<noteq> None)
           then handleChildResponse run frame
           else if fr_id frame = None \<or> in_id (ru_init run) = None \<or>
                   map_option sv_key (fr_id frame) \<noteq> map_option sv_key (in_id (ru_init run))
           then replaceCurrent ReasonProtocolFailure run
           else if (case in_response (ru_init run) of
                      None \<Rightarrow> False
                    | Some original \<Rightarrow> fr_kind frame \<noteq> frameResult \<or> \<not> sameInitializeContract original frame)
           then replaceCurrent ReasonProtocolFailure run
           else completeReplay (run\<lparr>ru_replay := (ru_replay run)\<lparr>rp_response := Some (fr_raw frame)\<rparr>\<rparr>) frame))"

text \<open>Log messages before the answer: forwarded while the host waits, held back otherwise.\<close>

definition replayPrelude :: "runner \<Rightarrow> parsedFrame \<Rightarrow> runner" where
  "replayPrelude run frame =
     (if \<not> isInitializationLogging frame \<or> fr_utilityErr frame \<noteq> None
      then replaceCurrent ReasonProtocolFailure run
      else if in_awaiting (ru_init run) then fst (writeHostOrTerminate run (fr_raw frame))
      else
        let held = ru_replay run; size' = int (length (fr_raw frame)) + 1
        in if int (length (rp_prelude held)) \<ge> cf_PendingFrameLimit (ru_cfg run) \<or>
              size' > cf_PendingByteLimit (ru_cfg run) - rp_preludeBytes held
           then replaceCurrent ReasonProtocolFailure run
           else run\<lparr>ru_replay := held\<lparr>rp_prelude := rp_prelude held @ [fr_raw frame],
                                      rp_preludeBytes := rp_preludeBytes held + size'\<rparr>\<rparr>)"

definition handleReplayFrame :: "runner \<Rightarrow> parsedFrame \<Rightarrow> runner" where
  "handleReplayFrame run frame =
     (if ru_current run = None \<or> ru_state run \<noteq> StateReplaying then run
      else if isInitializationPing frame then handleChildRequest run frame
      else if isResponse frame then replayResponse run frame
      else replayPrelude run frame)"

section \<open>Dormancy\<close>

definition registryIdle :: "directionRegistry \<Rightarrow> bool" where
  "registryIdle reg \<longleftrightarrow>
     mlen (dr_requests reg) = 0 \<and> mlen (dr_tokens reg) = 0 \<and> mlen (dr_tasks reg) = 0 \<and> mlen (dr_terminalTasks reg) = 0"

definition safeToCommitDormant :: "runner \<Rightarrow> bool" where
  "safeToCommitDormant run \<longleftrightarrow>
     ru_current run \<noteq> None \<and> lenQueue (ru_pending run) = 0 \<and> registryIdle (ru_host run) \<and> registryIdle (ru_child run)"

text \<open>The child is gone in the way it announced; it must have left with the dormant exit code.\<close>

definition completeDormancy :: "runner \<Rightarrow> generation \<Rightarrow> runner" where
  "completeDormancy run gen =
     (let r1 = setState StateFinalizing ReasonDormantCommit (stopDormantExitTimer run)
      in case retireCurrent r1 (ge_id gen) of
           (r2, False) \<Rightarrow> r2
         | (r2, True) \<Rightarrow>
             (if lenQueue (ru_pending r2) > 0 \<or> ru_boundarySequence r2 > ru_dormantTransitionStart r2
              then beginStart r2
              else armDormantLease (setState StateDormant ReasonDormantCommit r2)))"

definition maybeCompleteDormancy :: "runner \<Rightarrow> runner" where
  "maybeCompleteDormancy run =
     (case ru_current run of
        None \<Rightarrow> run
      | Some gen \<Rightarrow>
          (if ru_state run \<noteq> StateAwaitingDormantExit then run
           else case (ge_exit gen, ge_outputEOF gen) of
               (Some exit, True) \<Rightarrow>
                 (if ex_Code exit \<noteq> DormantExitCode ProtocolV2 \<or> ex_Err exit \<noteq> None \<or> ru_dormancyInvalid run
                  then replaceCurrent ReasonDormantRejected run
                  else completeDormancy run gen)
             | _ \<Rightarrow>
                 (if ge_outputErr gen \<noteq> None \<and> ge_outputErr gen \<noteq> Some OutputEOF
                  then replaceCurrent ReasonDormantRejected (run\<lparr>ru_dormancyInvalid := True\<rparr>)
                  else run)))"

definition dormantReady :: "runner \<Rightarrow> runner" where
  "dormantReady run =
     (if ru_state run \<noteq> StateActive \<or>
         \<not> modern run \<and> (in_awaiting (ru_init run) \<or> in_initialized (ru_init run) = None)
      then replaceCurrent ReasonProtocolFailure run
      else if \<not> safeToCommitDormant run then emit StateActive ReasonDormantRejected run
      else
        let r1 = setState StateQuiescing ReasonDormantCommit
                   (run\<lparr>ru_dormantTransitionStart := ru_boundarySequence run\<rparr>)
        in case writeChild r1 (case ProtocolFrame ProtocolV2 ControlCommitDormant of None \<Rightarrow> [] | Some b \<Rightarrow> b) of
             (r2, outcome, err) \<Rightarrow>
               (if outcome \<noteq> writeDelivered \<or> err \<noteq> None then replaceCurrent ReasonWriteFailure r2
                else armDormantExitTimer r2))"

definition dormantNack :: "runner \<Rightarrow> runner" where
  "dormantNack run =
     (if ru_state run \<noteq> StateQuiescing then replaceCurrent ReasonProtocolFailure run
      else flushPending (setState StateActive ReasonDormantRejected (stopDormantExitTimer run)))"

definition dormantAck :: "runner \<Rightarrow> runner" where
  "dormantAck run =
     (if ru_state run \<noteq> StateQuiescing then replaceCurrent ReasonProtocolFailure run
      else case commitQuiescingCancellations (stopChildExitDrainTimer run) of
          (r1, Inl e) \<Rightarrow> terminate ReasonProtocolFailure (Some e) r1
        | (r1, Inr _) \<Rightarrow>
            maybeCompleteDormancy
              (armDormantExitTimer
                (setState StateAwaitingDormantExit ReasonDormantCommit
                  (r1\<lparr>ru_pending := discardSameGenerationOnly (ru_pending r1)\<rparr>))))"

definition handleChildControl :: "runner \<Rightarrow> parsedFrame \<Rightarrow> runner" where
  "handleChildControl run frame =
     (case ru_current run of
        None \<Rightarrow> run
      | Some gen \<Rightarrow>
          (if ge_admission gen \<noteq> Some True then run
           else case controlOfParsedFrame frame of
               Inl _ \<Rightarrow> replaceCurrent ReasonProtocolFailure run
             | Inr ControlDormantReady \<Rightarrow> dormantReady run
             | Inr ControlDormantNack \<Rightarrow> dormantNack run
             | Inr ControlDormantAck \<Rightarrow> dormantAck run
             | Inr _ \<Rightarrow> replaceCurrent ReasonProtocolFailure run))"

section \<open>The modern era\<close>

definition modernSubscriptionKey :: "parsedFrame \<Rightarrow> scalarKey option result" where
  "modernSubscriptionKey frame =
     (if fr_params frame = [] then Ok None
      else case decodeObject (fr_params frame) of
          Inl e \<Rightarrow> Err e
        | Inr params \<Rightarrow>
            (case mget params ''_meta'' of
               None \<Rightarrow> Ok None
             | Some rawMeta \<Rightarrow>
                 (case decodeObject rawMeta of
                    Inl e \<Rightarrow> Err e
                  | Inr meta \<Rightarrow>
                      (case mget meta ''io.modelcontextprotocol/subscriptionId'' of
                         None \<Rightarrow> Ok None
                       | Some rawID \<Rightarrow>
                           (case parseScalar rawID of Inl e \<Rightarrow> Err e | Inr i \<Rightarrow> Ok (Some (sv_key i)))))))"

definition forwardAndFinish :: "runner \<Rightarrow> requestRecord \<Rightarrow> bytes \<Rightarrow> runner" where
  "forwardAndFinish run req frame =
     (case writeHostOrTerminate run frame of
        (r1, False) \<Rightarrow> r1
      | (r1, True) \<Rightarrow> finishModernRequest r1 req)"

definition ownSubscription :: "runner \<Rightarrow> generation \<Rightarrow> scalarKey \<Rightarrow> requestRecord option" where
  "ownSubscription run gen key =
     (case ownHostRequest run gen key of
        None \<Rightarrow> None
      | Some req \<Rightarrow> if rr_method req \<noteq> ''subscriptions/listen'' then None else Some req)"

definition modernChildFrame :: "runner \<Rightarrow> generation \<Rightarrow> parsedFrame \<Rightarrow> runner" where
  "modernChildFrame run gen frame =
     (if fr_kind frame = frameRequest then run
      else if isResponse frame then
        (case Option.bind (fr_id frame) (\<lambda>i. ownHostRequest run gen (sv_key i)) of
           None \<Rightarrow> run
         | Some req \<Rightarrow> forwardAndFinish run req (fr_raw frame))
      else if fr_method frame = ''notifications/cancelled'' then
        (case Option.bind (fr_cancellation frame) (\<lambda>target. ownSubscription run gen (sv_key target)) of
           None \<Rightarrow> run
         | Some req \<Rightarrow> forwardAndFinish run req (fr_raw frame))
      else if fr_method frame = ''notifications/progress'' then handleChildProgress run frame
      else case modernSubscriptionKey frame of
          Inl _ \<Rightarrow> run
        | Inr None \<Rightarrow> fst (writeHostOrTerminate run (fr_raw frame))
        | Inr (Some key) \<Rightarrow>
            (if ownSubscription run gen key = None then run
             else fst (writeHostOrTerminate run (fr_raw frame))))"

definition handleModernChild :: "runner \<Rightarrow> generation \<Rightarrow> parsedFrame \<Rightarrow> runner" where
  "handleModernChild run gen frame =
     (let frame' = frame\<lparr>fr_raw := fr_wire frame\<rparr>
      in if ru_state run = StateAwaitingDormantExit then
           (if ru_dormancyInvalid run then run
            else modernChildFrame (run\<lparr>ru_dormancyInvalid := True\<rparr>) gen frame')
         else if ru_state run = StateActive \<or> ru_state run = StateQuiescing then modernChildFrame run gen frame'
         else run)"

section \<open>Dispatch\<close>

definition markDormancyInvalid :: "runner \<Rightarrow> runner" where
  "markDormancyInvalid run = run\<lparr>ru_dormancyInvalid := True\<rparr>"

text \<open>After the child has agreed to exit, anything it still says makes the exit a failure.\<close>

definition awaitingExitFrame :: "runner \<Rightarrow> generation \<Rightarrow> parsedFrame \<Rightarrow> runner" where
  "awaitingExitFrame run gen frame =
     (if ru_dormancyInvalid run then run
      else if fr_kind frame = frameRequest then
        (let r1 = handleChildRequest run frame
         in if ru_state r1 = StateAwaitingDormantExit then markDormancyInvalid r1 else r1)
      else case writeHostOrTerminate run (fr_raw frame) of
          (r1, False) \<Rightarrow> r1
        | (r1, True) \<Rightarrow>
            (case (if isResponse frame
                   then Option.bind (fr_id frame) (\<lambda>i. ownHostRequest r1 gen (sv_key i)) else None) of
               None \<Rightarrow> markDormancyInvalid r1
             | Some req \<Rightarrow>
                 (case complete (ru_host r1) req frame of
                    (h, Inl e) \<Rightarrow> terminate ReasonProtocolFailure (Some e) (r1\<lparr>ru_host := h\<rparr>)
                  | (h, Inr _) \<Rightarrow> markDormancyInvalid (r1\<lparr>ru_host := h\<rparr>))))"

definition beforeInitialized :: "runner \<Rightarrow> parsedFrame \<Rightarrow> runner" where
  "beforeInitialized run frame =
     (if isResponse frame then handleChildResponse run frame
      else if in_request (ru_init run) \<noteq> None \<and> isInitializationPing frame then handleChildRequest run frame
      else if in_request (ru_init run) \<noteq> None \<and> isInitializationLogging frame
      then fst (writeHostOrTerminate run (fr_raw frame))
      else if fr_kind frame = frameRequest then replaceCurrent ReasonProtocolFailure run
      else run)"

definition routeChild :: "runner \<Rightarrow> parsedFrame \<Rightarrow> runner" where
  "routeChild run frame =
     (if isResponse frame then handleChildResponse run frame
      else if fr_kind frame = frameRequest then handleChildRequest run frame
      else if fr_method frame = ''notifications/cancelled'' then handleChildCancellation run frame
      else if fr_method frame = ''notifications/progress'' then handleChildProgress run frame
      else if fr_method frame = ''notifications/tasks/status'' then handleChildTaskStatus run frame
      else fst (writeHostOrTerminate run (fr_raw frame)))"

definition handleChildFrame :: "runner \<Rightarrow> parsedFrame \<Rightarrow> runner" where
  "handleChildFrame run frame =
     (case ru_current run of
        None \<Rightarrow> run
      | Some gen \<Rightarrow>
          (if fr_reserved frame then handleChildControl run frame
           else if modern run then handleModernChild run gen frame
           else if ru_state run = StateReplaying then handleReplayFrame run frame
           else if ru_state run = StateAwaitingDormantExit then awaitingExitFrame run gen frame
           else if ru_state run \<noteq> StateActive \<and> ru_state run \<noteq> StateQuiescing then run
           else if in_initialized (ru_init run) = None then beforeInitialized run frame
           else routeChild run frame))"

section \<open>The end of a child\<close>

definition handleChildOutput :: "runner \<Rightarrow> output_error \<Rightarrow> runner" where
  "handleChildOutput run err =
     (let r1 = stopChildExitDrainTimer run
      in if ru_state r1 = StateAwaitingDormantExit then
           (if err = OutputEOF then maybeCompleteDormancy r1
            else replaceCurrent ReasonDormantRejected (markDormancyInvalid r1))
         else if ru_state r1 = StateFinalizing \<or> ru_state r1 = StateStopping then r1
         else replaceCurrent ReasonOutputEOF r1)"

definition armChildExitDrainTimer :: "runner \<Rightarrow> runner" where
  "armChildExitDrainTimer run =
     (if ti_childExitDrain (ru_timers run) = None
      then run\<lparr>ru_timers := (ru_timers run)\<lparr>ti_childExitDrain := Some (cf_OutputDrainTimeout (ru_cfg run))\<rparr>\<rparr>
      else run)"

definition handleChildExit :: "runner \<Rightarrow> runner" where
  "handleChildExit run =
     (if ru_state run = StateAwaitingDormantExit then maybeCompleteDormancy run
      else if ru_state run = StateFinalizing \<or> ru_state run = StateStopping then run
      else case ru_current run of
          None \<Rightarrow> run
        | Some gen \<Rightarrow>
            (if ge_outputEOF gen \<or> ge_outputErr gen \<noteq> None then replaceCurrent ReasonCrash run
             else armChildExitDrainTimer run))"

end
