(* ===== verification/Runner.thy ===== *)
theory Runner
  imports Runner_Child
begin

text \<open>
  The event loop of the supervisor (\<open>muxcore/supervisor/run.go\<close>, with the events that the goroutines of
  \<open>generation.go\<close> send): one definition per event handler, and \<open>step\<close>, one round of the \<open>select\<close> in
  \<open>Run\<close>. What the goroutines beside the loop do to shared state before they send an event is a step of
  its own: the reader of the host records a frame boundary, the pump and the reaper of a child record
  the end of its output and its exit.
\<close>

section \<open>Starting and switching engines\<close>

record startAttemptEvent =
  se_attempt :: nat
  se_requested :: EngineRef
  se_result :: StartResult
  se_err :: "start_error option"

text \<open>A late or superseded attempt: its child is undone.\<close>

definition dropStartAttempt :: "runner \<Rightarrow> StartResult \<Rightarrow> runner" where
  "dropStartAttempt run result =
     (if startResultHasAuthority result then
        (case cleanupInvalidStart result of
           None \<Rightarrow> run
         | Some e \<Rightarrow> if ru_terminal run then run else terminate ReasonProtocolFailure (Some e) run)
      else run)"

definition failStartAttempt :: "runner \<Rightarrow> StartResult \<Rightarrow> start_error \<Rightarrow> runner" where
  "failStartAttempt run result err =
     (case (if startResultHasAuthority result then cleanupInvalidStart result else None) of
        Some c \<Rightarrow> terminate ReasonProtocolFailure (joinErrors [Some (startErrText err), Some c]) run
      | None \<Rightarrow>
          (case err of
             ErrStartRollbackUnproven text \<Rightarrow>
               (if sr_Child result = None then terminate ReasonProtocolFailure (Some text) run
                else scheduleRetry run)
           | ErrStart _ \<Rightarrow> scheduleRetry run))"

definition attachGeneration :: "runner \<Rightarrow> generation \<Rightarrow> runner" where
  "attachGeneration run gen =
     (let r1 = run\<lparr>ru_generation := ge_id gen, ru_current := Some gen, ru_dormancyInvalid := False\<rparr>
      in if modern r1
         then flushPending (setState StateActive ReasonInitial
                (r1\<lparr>ru_host := clearRetiredCorrelations (clearTransitionTombstones (ru_host r1)),
                    ru_child := clearRetiredCorrelations (clearTransitionTombstones (ru_child r1))\<rparr>))
         else if in_request (ru_init r1) \<noteq> None then beginReplay r1
         else flushPending (setState StateActive ReasonInitial r1))"

definition handleStartAttempt :: "runner \<Rightarrow> startAttemptEvent \<Rightarrow> runner" where
  "handleStartAttempt run event =
     (if se_attempt event \<noteq> ru_startID run \<or> \<not> ru_starting run \<or> ru_terminal run
      then dropStartAttempt run (se_result event)
      else
        let r1 = (stopStartTimer run)\<lparr>ru_startCancel := False, ru_starting := False\<rparr>
        in case se_err event of
             Some err \<Rightarrow> failStartAttempt r1 (se_result event) err
           | None \<Rightarrow>
               (case newGeneration (ru_generation r1 + 1) (se_requested event) (se_result event) of
                  Inr gen \<Rightarrow> attachGeneration r1 gen
                | Inl e \<Rightarrow>
                    (case cleanupInvalidStart (se_result event) of
                       Some c \<Rightarrow> terminate ReasonProtocolFailure (joinErrors [Some e, Some c]) r1
                     | None \<Rightarrow> scheduleRetry r1)))"

definition beginResolve :: "runner \<Rightarrow> runner" where
  "beginResolve run =
     (if ru_terminal run \<or> ru_resolving run \<or> ru_current run = None \<or> ru_state run \<noteq> StateActive then run
      else run\<lparr>ru_resolving := True, ru_resolveID := ru_resolveID run + 1\<rparr>)"

record resolveEvent =
  re_attempt :: nat
  re_ref :: EngineRef
  re_err :: "bytes option"

definition handleResolve :: "runner \<Rightarrow> resolveEvent \<Rightarrow> runner" where
  "handleResolve run event =
     (if re_attempt event \<noteq> ru_resolveID run \<or> \<not> ru_resolving run \<or> ru_terminal run then run
      else
        let r1 = run\<lparr>ru_resolving := False\<rparr>
        in case ru_current r1 of
             None \<Rightarrow> r1
           | Some gen \<Rightarrow>
               (if re_err event \<noteq> None \<or> er_ID (re_ref event) = [] then r1
                else if re_ref event \<noteq> ge_requested gen then replaceCurrent ReasonEngineSwitch r1
                else r1))"

section \<open>Events\<close>

text \<open>The reader of the host: it records the boundary, then parses the line.\<close>

definition recordBoundary :: "time \<Rightarrow> runner \<Rightarrow> runner" where
  "recordBoundary arrived run =
     run\<lparr>ru_boundarySequence := ru_boundarySequence run + 1, ru_boundaryArrived := arrived\<rparr>"

definition readHostFrame :: "runner \<Rightarrow> nat \<Rightarrow> time \<Rightarrow> bytes \<Rightarrow> hostFrameEvent" where
  "readHostFrame run sequence arrived raw =
     \<lparr>he_sequence = sequence, he_arrived = arrived,
      he_frame =
        (case parseFrame raw (cf_MaxFrameBytes (ru_cfg run)) of
           Inl e \<Rightarrow> Inl e
         | Inr frame \<Rightarrow> Inr (if modern run then frame\<lparr>fr_raw := fr_wire frame\<rparr> else frame))\<rparr>"

text \<open>The pump and the reaper of a child: what they record in the generation they belong to.\<close>

definition onCurrent :: "nat \<Rightarrow> (generation \<Rightarrow> generation) \<Rightarrow> runner \<Rightarrow> runner" where
  "onCurrent g f run =
     (case ru_current run of
        None \<Rightarrow> run
      | Some gen \<Rightarrow> if ge_id gen = g then run\<lparr>ru_current := Some (f gen)\<rparr> else run)"

definition pumpRecord :: "nat \<Rightarrow> output_error \<Rightarrow> runner \<Rightarrow> runner" where
  "pumpRecord g err = onCurrent g (\<lambda>gen. gen\<lparr>ge_outputEOF := (err = OutputEOF), ge_outputErr := Some err\<rparr>)"

definition pumpRecordInvalid :: "nat \<Rightarrow> bytes \<Rightarrow> runner \<Rightarrow> runner" where
  "pumpRecordInvalid g err = onCurrent g (\<lambda>gen. gen\<lparr>ge_outputErr := Some (OutputErr err)\<rparr>)"

definition reapRecord :: "nat \<Rightarrow> Exit \<Rightarrow> runner \<Rightarrow> runner" where
  "reapRecord g exit = onCurrent g (\<lambda>gen. gen\<lparr>ge_exit := Some exit\<rparr>)"

datatype runner_event =
    EvHostBoundary time
  | EvHostFrame nat time bytes
  | EvHostTerminal stream_end
  | EvStartAttempt startAttemptEvent
  | EvResolve resolveEvent
  | EvPumpRecord nat output_error
  | EvPumpRecordInvalid nat bytes
  | EvReapRecord nat Exit
  | EvChildFrame nat bytes
  | EvChildOutput nat output_error
  | EvChildExit nat Exit
  | EvChildProof nat bytes
  | EvCallerDone bytes
  | EvRetryTimer
  | EvStartTimer
  | EvReplayTimer
  | EvChildExitDrainTimer
  | EvDormantExitTimer
  | EvDormantLeaseTimer time
  | EvReconcile
  | EvClock time

definition isCurrent :: "runner \<Rightarrow> nat \<Rightarrow> bool" where
  "isCurrent run g \<longleftrightarrow> (case ru_current run of None \<Rightarrow> False | Some gen \<Rightarrow> g = ge_id gen)"

definition handleHostTerminal :: "runner \<Rightarrow> stream_end \<Rightarrow> runner" where
  "handleHostTerminal run err =
     (case err of
        EOF \<Rightarrow> terminate ReasonHostEOF None run
      | ErrRead e \<Rightarrow> terminate ReasonHostEOF (Some (''supervisor: host input: '' @ e)) run)"

text \<open>The pump parses a line of the child before it sends it; only a valid frame becomes this event.\<close>

definition handleChildLine :: "runner \<Rightarrow> nat \<Rightarrow> bytes \<Rightarrow> runner" where
  "handleChildLine run g raw =
     (if isCurrent run g
      then (case parseFrame raw (cf_MaxFrameBytes (ru_cfg run)) of
              Inl _ \<Rightarrow> run
            | Inr frame \<Rightarrow> handleChildFrame run frame)
      else run)"

definition startTimedOut :: "runner \<Rightarrow> runner" where
  "startTimedOut run =
     terminate ReasonProtocolFailure (Some ''supervisor: resolve/start attempt timed out'')
       ((stopStartTimer run)\<lparr>ru_startCancel := False, ru_starting := False, ru_startID := ru_startID run + 1\<rparr>)"

definition whenArmed :: "duration option \<Rightarrow> runner \<Rightarrow> runner \<Rightarrow> runner" where
  "whenArmed t run run' = (if t = None then run else run')"

fun handleEvent :: "runner \<Rightarrow> runner_event \<Rightarrow> runner" where
  "handleEvent run (EvHostBoundary arrived) = recordBoundary arrived run"
| "handleEvent run (EvHostFrame sequence arrived raw) = handleHostEvent run (readHostFrame run sequence arrived raw)"
| "handleEvent run (EvHostTerminal err) = handleHostTerminal run err"
| "handleEvent run (EvStartAttempt event) = handleStartAttempt run event"
| "handleEvent run (EvResolve event) = handleResolve run event"
| "handleEvent run (EvPumpRecord g err) = pumpRecord g err run"
| "handleEvent run (EvPumpRecordInvalid g err) = pumpRecordInvalid g err run"
| "handleEvent run (EvReapRecord g exit) = reapRecord g exit run"
| "handleEvent run (EvChildFrame g raw) = handleChildLine run g raw"
| "handleEvent run (EvChildOutput g err) = (if isCurrent run g then handleChildOutput run err else run)"
| "handleEvent run (EvChildExit g exit) = (if isCurrent run g then handleChildExit run else run)"
| "handleEvent run (EvChildProof g err) =
     (if isCurrent run g then terminate ReasonProtocolFailure (Some (''supervisor: '' @ err)) run else run)"
| "handleEvent run (EvCallerDone err) = terminate ReasonCallerCanceled (Some err) run"
| "handleEvent run EvRetryTimer = whenArmed (ti_retry (ru_timers run)) run (beginStart (stopRetryTimer run))"
| "handleEvent run EvStartTimer = whenArmed (ti_start (ru_timers run)) run (startTimedOut run)"
| "handleEvent run EvReplayTimer =
     whenArmed (ti_replay (ru_timers run)) run (replaceCurrent ReasonProtocolFailure (stopReplayTimer run))"
| "handleEvent run EvChildExitDrainTimer =
     whenArmed (ti_childExitDrain (ru_timers run)) run
       (let r1 = stopChildExitDrainTimer run
        in if ru_current r1 \<noteq> None then replaceCurrent ReasonCrash r1 else r1)"
| "handleEvent run EvDormantExitTimer =
     whenArmed (ti_dormantExit (ru_timers run)) run (replaceCurrent ReasonDormantRejected (stopDormantExitTimer run))"
| "handleEvent run (EvDormantLeaseTimer now) =
     whenArmed (ti_dormantLease (ru_timers run)) run (handleDormantLease now run)"
| "handleEvent run EvReconcile = whenArmed (ti_reconcile (ru_timers run)) run (beginResolve run)"
| "handleEvent run (EvClock now) = run\<lparr>ru_env := (ru_env run)\<lparr>en_now := now\<rparr>\<rparr>"

text \<open>\<open>for !runner.terminal\<close>: a terminated supervisor takes no further events.\<close>

definition step :: "runner \<Rightarrow> runner_event \<Rightarrow> runner" where
  "step run ev = (if ru_terminal run then run else handleEvent run ev)"

section \<open>Begin and end\<close>

definition newRunner :: "Config \<Rightarrow> environment \<Rightarrow> runner" where
  "newRunner cfg env =
     \<lparr>ru_cfg = cfg, ru_boundarySequence = 0, ru_boundaryArrived = 0, ru_lastHostSequence = 0,
      ru_state = StateStarting, ru_generation = 0, ru_current = None, ru_starting = False, ru_startID = 0,
      ru_startCancel = False, ru_resolving = False, ru_resolveID = 0,
      ru_timers = \<lparr>ti_start = None, ti_retry = None, ti_replay = None, ti_dormantExit = None,
        ti_childExitDrain = None, ti_dormantLease = None, ti_reconcile = None\<rparr>,
      ru_pending = emptyQueue, ru_host = newDirectionRegistry, ru_child = newDirectionRegistry,
      ru_init = \<lparr>in_request = None, in_id = None, in_awaiting = False, in_response = None, in_failed = False,
        in_initialized = None\<rparr>,
      ru_replay = \<lparr>rp_prelude = [], rp_preludeBytes = 0, rp_response = None\<rparr>,
      ru_dormancyInvalid = False, ru_dormantTransitionStart = 0, ru_dormantLeaseDeadline = 0,
      ru_terminal = False, ru_terminalReason = ReasonInitial, ru_terminalErr = None, ru_env = env\<rparr>"

definition startRun :: "Config \<Rightarrow> environment \<Rightarrow> runner" where
  "startRun cfg env =
     (let r = newRunner cfg env
      in beginStart
           (if cf_ReconcileInterval cfg > 0
            then r\<lparr>ru_timers := (ru_timers r)\<lparr>ti_reconcile := Some (cf_ReconcileInterval cfg)\<rparr>\<rparr> else r))"

text \<open>The second argument is whether the goroutines of the loop end within the stop timeout.\<close>

definition shutdown :: "runner \<Rightarrow> bool \<Rightarrow> runner" where
  "shutdown run backgroundDone =
     (let r1 = setState StateStopping (ru_terminalReason run) (stopAllTimers run);
          keep = (\<lambda>e r. if ru_terminalErr r = None then r\<lparr>ru_terminalErr := Some e\<rparr> else r);
          r2 = (case ru_current r1 of
                  None \<Rightarrow> r1
                | Some gen \<Rightarrow>
                    (case finalizeCurrent
                            (r1\<lparr>ru_host := fst (retireGeneration (ru_host r1) (ge_id gen)),
                                ru_child := fst (retireGeneration (ru_child r1) (ge_id gen))\<rparr>) of
                       (r, Inl e) \<Rightarrow> keep e r
                     | (r, Inr _) \<Rightarrow> r));
          r3 = r2\<lparr>ru_pending := clearQueue (ru_pending r2)\<rparr>;
          r4 = (if backgroundDone then r3 else keep ''supervisor: resolve/start cancellation timed out'' r3)
      in setState StateTerminal (ru_terminalReason r4) r4)"

end
