(* ===== verification/Runner_Inv.thy ===== *)
theory Runner_Inv
  imports Runner
begin

text \<open>
  The invariant of the supervisor and what follows from it: both registries and the queue stay within
  their bounds, live correlations belong to the attached child, no state is without a next event, and
  no request of the host is left without an answer, a place in the queue or a live correlation.
\<close>

section \<open>Which generation the live correlations of a registry belong to\<close>

definition owned :: "directionRegistry \<Rightarrow> nat \<Rightarrow> bool" where
  "owned reg g \<longleftrightarrow>
     (\<forall>k r. mget (dr_requests reg) k = Some r \<longrightarrow> rr_generation r = g) \<and>
     (\<forall>i t. mget (dr_tasks reg) i = Some t \<longrightarrow> ta_generation t = g) \<and>
     (\<forall>i t. mget (dr_terminalTasks reg) i = Some t \<longrightarrow> ta_generation t = g)"

lemma ownedI:
  "(\<And>k r. mget (dr_requests reg) k = Some r \<Longrightarrow> rr_generation r = g) \<Longrightarrow>
   (\<And>i t. mget (dr_tasks reg) i = Some t \<Longrightarrow> ta_generation t = g) \<Longrightarrow>
   (\<And>i t. mget (dr_terminalTasks reg) i = Some t \<Longrightarrow> ta_generation t = g) \<Longrightarrow> owned reg g"
  by (simp add: owned_def)

lemma owned_same:
  "owned reg g \<Longrightarrow> dr_requests r = dr_requests reg \<Longrightarrow> dr_tasks r = dr_tasks reg \<Longrightarrow>
     dr_terminalTasks r = dr_terminalTasks reg \<Longrightarrow> owned r g"
  by (simp add: owned_def)

lemma mget_mdel_Some: "mget (mdel m k) k' = Some v \<Longrightarrow> mget m k' = Some v"
  by (simp add: mget_def mdel_def delete_conv' split: if_splits)

lemma mget_mkeep_Some: "minv m \<Longrightarrow> mget (mkeep P m) k = Some v \<longleftrightarrow> P k v \<and> mget m k = Some v"
  by (auto simp: mget_def mkeep_def minv_def distinct_map_filter)

lemma owned_del_request: "owned reg g \<Longrightarrow> owned (reg\<lparr>dr_requests := mdel (dr_requests reg) k\<rparr>) g"
  by (auto simp: owned_def dest: mget_mdel_Some)

lemma removeTokenKey_live [simp]:
  "dr_requests (removeTokenKey reg t) = dr_requests reg" "dr_tasks (removeTokenKey reg t) = dr_tasks reg"
  "dr_terminalTasks (removeTokenKey reg t) = dr_terminalTasks reg"
  "dr_retiredRequests (removeTokenKey reg t) = dr_retiredRequests reg"
  by (auto simp: removeTokenKey_def split: option.split)

lemma removeToken_live [simp]:
  "dr_requests (removeToken reg r) = dr_requests reg" "dr_tasks (removeToken reg r) = dr_tasks reg"
  "dr_terminalTasks (removeToken reg r) = dr_terminalTasks reg"
  "dr_retiredRequests (removeToken reg r) = dr_retiredRequests reg"
  by (simp_all add: removeToken_def)

lemma addFences_live:
  assumes "addFences reg es = (r, res)"
  shows "dr_requests r = dr_requests reg" "dr_tasks r = dr_tasks reg" "dr_terminalTasks r = dr_terminalTasks reg"
    "dr_retiredRequests r = dr_retiredRequests reg" "dr_retiredTasks r = dr_retiredTasks reg"
  using assms by (auto simp: addFences_def split: prod.splits)

lemma fenceRequest_live:
  assumes "fenceRequest reg record b = (r, res)"
  shows "dr_requests r = dr_requests reg" "dr_tasks r = dr_tasks reg" "dr_terminalTasks r = dr_terminalTasks reg"
    "dr_retiredRequests r = dr_retiredRequests reg" "dr_retiredTasks r = dr_retiredTasks reg"
  using assms
  by (auto simp: fenceRequest_def addTombstone_def Let_def dest: addFences_live split: if_splits option.splits)

lemma owned_put_task:
  "owned reg g \<Longrightarrow> ta_generation t = g \<Longrightarrow> owned (reg\<lparr>dr_tasks := mput (dr_tasks reg) i t\<rparr>) g"
  by (simp add: owned_def)

lemma owned_put_terminal:
  "owned reg g \<Longrightarrow> ta_generation t = g \<Longrightarrow> owned (reg\<lparr>dr_terminalTasks := mput (dr_terminalTasks reg) i t\<rparr>) g"
  by (simp add: owned_def)

lemma owned_del_task: "owned reg g \<Longrightarrow> owned (reg\<lparr>dr_tasks := mdel (dr_tasks reg) i\<rparr>) g"
  by (auto simp: owned_def dest: mget_mdel_Some)

lemma owned_del_terminal: "owned reg g \<Longrightarrow> owned (reg\<lparr>dr_terminalTasks := mdel (dr_terminalTasks reg) i\<rparr>) g"
  by (auto simp: owned_def dest: mget_mdel_Some)

lemma owned_aux [simp]:
  "owned (reg\<lparr>dr_persistentFences := f\<rparr>) g = owned reg g"
  "owned (reg\<lparr>dr_tombstones := ts\<rparr>) g = owned reg g"
  "owned (reg\<lparr>dr_finalizedTaskStatuses := m\<rparr>) g = owned reg g"
  "owned (reg\<lparr>dr_tokens := tk\<rparr>) g = owned reg g"
  "owned (reg\<lparr>dr_retiredRequests := rq\<rparr>) g = owned reg g"
  "owned (reg\<lparr>dr_retiredTokens := rt\<rparr>) g = owned reg g"
  "owned (reg\<lparr>dr_retiredTasks := rk\<rparr>) g = owned reg g"
  "owned (removeTokenKey reg t) g = owned reg g"
  "owned (removeToken reg record) g = owned reg g"
  by (simp_all add: owned_def)

lemma owned_addFences: "owned reg g \<Longrightarrow> addFences reg es = (r, res) \<Longrightarrow> owned r g"
  using addFences_live [of reg es r res] by (simp add: owned_def)

lemma owned_fenceRequest: "owned reg g \<Longrightarrow> fenceRequest reg record b = (r, res) \<Longrightarrow> owned r g"
  using fenceRequest_live [of reg "record" b r res] by (simp add: owned_def)

lemma owned_cancel: "owned reg g \<Longrightarrow> owned (fst (cancel reg record)) g"
  by (auto simp: cancel_def owned_del_request split: prod.split sum.split dest: owned_fenceRequest)

lemma ownedD:
  "owned reg g \<Longrightarrow> mget (dr_requests reg) k = Some r \<Longrightarrow> rr_generation r = g"
  "owned reg g \<Longrightarrow> mget (dr_tasks reg) i = Some t \<Longrightarrow> ta_generation t = g"
  "owned reg g \<Longrightarrow> mget (dr_terminalTasks reg) i = Some t \<Longrightarrow> ta_generation t = g"
  by (simp_all add: owned_def)

lemma owned_updateTaskActive:
  assumes "owned reg g" and "mget (dr_tasks reg) i = Some active"
  shows "owned (fst (updateTaskActive reg active meta)) g"
proof -
  have a: "ta_generation active = g" by (rule ownedD(2) [OF assms])
  have "owned (removeTokenKey (reg\<lparr>dr_persistentFences := f, dr_tasks := mdel (dr_tasks reg) j\<rparr>) tk) g" for f j tk
    using owned_del_task [OF assms(1), of j] by (simp add: owned_def)
  from owned_put_terminal [OF this] a show ?thesis
    using assms(1) owned_put_task [OF assms(1)]
    by (simp add: updateTaskActive_def Let_def split: prod.split sum.split)
qed

lemma owned_updateTask: "owned reg g \<Longrightarrow> owned (fst (updateTask reg meta h)) g"
  by (auto simp: updateTask_def owned_updateTaskActive split: option.split sum.split)

lemma owned_finalizeTaskRecord:
  assumes "owned reg g"
  shows "owned (fst (finalizeTaskRecord reg i t term')) g"
proof (cases "addFences reg (TKey tombstoneTask (taskTombstoneKey i) # tokenEntries (ta_progressToken t))")
  case (Pair r1 res)
  have o1: "owned r1 g" by (rule owned_addFences [OF assms Pair])
  have "owned (r\<lparr>dr_tasks := mdel (dr_tasks r) i, dr_terminalTasks := mdel (dr_terminalTasks r) i\<rparr>) g"
    if "owned r g" for r
    using owned_del_terminal [OF owned_del_task [OF that], of i i] by simp
  then show ?thesis
    using Pair o1 by (simp add: finalizeTaskRecord_def Let_def split: sum.split option.split)
qed

lemma owned_finalizeTask: "owned reg g \<Longrightarrow> owned (fst (finalizeTask reg i h)) g"
  by (auto simp: finalizeTask_def Let_def owned_finalizeTaskRecord split: option.split)

lemma owned_completeOperation: "owned reg g \<Longrightarrow> owned (fst (completeOperation reg record meta)) g"
  by (cases meta; cases "rr_method record = ''tasks/result''")
    (auto simp: completeOperation_def split: prod.split sum.split
      dest!: arg_cong [where f = "\<lambda>p. owned (fst p) g"] simp: owned_finalizeTask owned_updateTask)

lemma owned_complete:
  assumes o: "owned reg g" and r: "rr_generation record = g"
  shows "owned (fst (complete reg record response)) g"
proof -
  obtain om op err where t: "taskOperationResponse record response = (om, op, err)" by (metis prod_cases3)
  define bd where "bd = bindsTask record response op"
  obtain r1 res1 where f: "fenceRequest reg record (bd = None) = (r1, res1)" by fastforce
  have o1: "owned r1 g" by (rule owned_fenceRequest [OF o f])
  obtain r2 res2 where c: "(if op then completeOperation r1 record om else (r1, Ok ())) = (r2, res2)" by fastforce
  have o2: "owned r2 g" using c o1 owned_completeOperation [OF o1, of "record" om] by (metis fst_conv)
  then have o3: "owned (r2\<lparr>dr_requests := mdel (dr_requests r2) k\<rparr>) g" for k by (rule owned_del_request)
  have "ta_generation (boundTask record meta) = g" for meta using r by (simp add: boundTask_def)
  from owned_put_task [OF o3 this] o o1 o2 o3 show ?thesis
    using f c unfolding complete_def t prod.case bd_def [symmetric]
    by (simp add: Let_def split: option.split sum.split)
qed

lemma owned_acceptProgress: "owned reg g \<Longrightarrow> owned (fst (acceptProgress reg meta h)) g"
  by (auto simp: acceptProgress_def split: option.split)

lemma owned_retireRequest: "owned reg g \<Longrightarrow> owned (retireRequest reg record) g"
  by (rule ownedI) (auto simp: retireRequest_def Let_def owned_def split: option.splits if_splits)

lemma owned_putRecord: "owned reg g \<Longrightarrow> rr_generation record = g \<Longrightarrow> owned (putRecord reg record) g"
  by (simp add: owned_def putRecord_def)

lemma owned_clear [simp]:
  "owned (clearTransitionTombstones reg) g = owned reg g" "owned (clearRetiredCorrelations reg) g = owned reg g"
  by (simp_all add: owned_def clearTransitionTombstones_def clearRetiredCorrelations_def)

lemma owned_release: "owned reg g \<Longrightarrow> owned (fst (releaseRetiredRequest reg record)) g"
  by (auto simp: releaseRetiredRequest_def dropRetired_def Let_def split: prod.split sum.split option.split
      dest: owned_fenceRequest)

lemma owned_releaseTask: "owned reg g \<Longrightarrow> owned (fst (releaseRetiredTaskOperation reg record t st)) g"
  by (auto simp: releaseRetiredTaskOperation_def dropRetired_def dropRetiredTask_def Let_def
      split: prod.split sum.split option.split dest: owned_addFences)

lemma owned_consumeOperation: "owned reg g \<Longrightarrow> owned (fst (consumeRetiredOperation reg record meta)) g"
  using owned_release [of reg g "record"] owned_releaseTask [of reg g "record"]
    owned_release [of "reg\<lparr>dr_finalizedTaskStatuses := m\<rparr>" g "record" for m]
  by (auto simp: consumeRetiredOperation_def split: prod.split sum.split option.split)

lemma owned_consumeResponse: "owned reg g \<Longrightarrow> owned (fst (consumeRetiredResponse reg response)) g"
  by (auto simp: consumeRetiredResponse_def consumeRetiredCreate_def owned_release owned_consumeOperation
      split: prod.split sum.split option.split bool.split)

lemma owned_consumeStatus: "owned reg g \<Longrightarrow> owned (fst (consumeRetiredTaskStatus reg meta)) g"
  by (auto simp: consumeRetiredTaskStatus_def dropRetiredTask_def Let_def
      split: prod.split sum.split option.split dest: owned_addFences)

text \<open>Retiring the generation that owns everything leaves nothing live.\<close>

lemma owned_retire:
  assumes inv: "reg_inv reg" and o: "owned reg g" and r: "retireGenerationChecked reg g = (r, Ok lost)"
  shows "owned r h"
proof -
  obtain r1 where add: "addFences reg (retireEntries reg g) = (r1, Ok ())" and r': "r = retireAll r1 g"
    using r by (auto simp: retireGenerationChecked_def split: sum.splits prod.splits)
  note spec = retireAll_spec [OF inv add, folded r']
  note m = inv_minv [OF inv]
  have keyed: "mget (dr_requests reg) k = Some q \<Longrightarrow> rr_key q = k" for k q
    using inv by (simp add: reg_inv_def requests_inv_def)
  have "mget (dr_requests r) k \<noteq> Some q" for k q
    using generationRequests_set [OF inv, of q g] keyed [of k q] ownedD(1) [OF o, of k q]
    by (auto simp: spec(2) mget_mkeep_Some m(1))
  moreover have "mget (dr_tasks r) i \<noteq> Some t" for i t
    using generationTasks_set [OF m(3), of i t g] ownedD(2) [OF o, of i t]
    by (force simp: spec(4) mget_mkeep_Some m(3) image_iff)
  moreover have "mget (dr_terminalTasks r) i \<noteq> Some t" for i t
    using generationTasks_set [OF m(4), of i t g] ownedD(3) [OF o, of i t]
    by (force simp: spec(6) mget_mkeep_Some m(4) image_iff)
  ultimately show ?thesis by (simp add: owned_def)
qed

section \<open>The invariant\<close>

definition core :: "runner \<Rightarrow> bool" where
  "core run \<longleftrightarrow>
     queue_inv (cf_PendingFrameLimit (ru_cfg run)) (cf_PendingByteLimit (ru_cfg run)) (ru_pending run) \<and>
     reg_inv (ru_host run) \<and> reg_inv (ru_child run)"

text \<open>Live correlations belong to the attached child; without a child there are none.\<close>

definition serves :: "runner \<Rightarrow> nat \<Rightarrow> bool" where
  "serves run g \<longleftrightarrow> (case ru_current run of None \<Rightarrow> True | Some gen \<Rightarrow> ge_id gen = g)"

definition owner_ok :: "runner \<Rightarrow> bool" where
  "owner_ok run \<longleftrightarrow> (\<forall>g. serves run g \<longrightarrow> owned (ru_host run) g \<and> owned (ru_child run) g)"

text \<open>From the commit to dormancy on, no request of the host is live.\<close>

definition quiet :: "runner \<Rightarrow> bool" where
  "quiet run \<longleftrightarrow>
     (ru_state run = StateQuiescing \<or> ru_state run = StateAwaitingDormantExit \<longrightarrow> (\<forall>g. owned (ru_host run) g))"

definition modern_ok :: "runner \<Rightarrow> bool" where
  "modern_ok run \<longleftrightarrow>
     (modern run \<longrightarrow>
        (\<forall>i. \<not> mhas (dr_tasks (ru_host run)) i) \<and>
        (ru_current run \<noteq> None \<longrightarrow> (\<forall>k. \<not> mhas (dr_retiredRequests (ru_host run)) k)))"

text \<open>
  With a child the state is one of the four in which a child is served. Without one, a start is under
  way with its timer armed, or the retry timer is armed, or the supervisor is dormant.
\<close>

definition attached_states :: "State set" where
  "attached_states = {StateActive, StateReplaying, StateQuiescing, StateAwaitingDormantExit}"

definition life_ok :: "runner \<Rightarrow> bool" where
  "life_ok run \<longleftrightarrow>
     (case ru_current run of
        Some gen \<Rightarrow> ge_id gen = ru_generation run \<and> \<not> ru_starting run \<and> ru_state run \<in> attached_states
      | None \<Rightarrow>
          ru_state run = StateStarting \<and>
            (if ru_starting run then ti_start (ru_timers run) \<noteq> None else ti_retry (ru_timers run) \<noteq> None) \<or>
          ru_state run = StateDormant \<and> \<not> ru_starting run)"

definition live_inv :: "runner \<Rightarrow> bool" where
  "live_inv run \<longleftrightarrow> owner_ok run \<and> quiet run \<and> modern_ok run \<and> life_ok run"

definition run_inv :: "runner \<Rightarrow> bool" where
  "run_inv run \<longleftrightarrow> core run \<and> (\<not> ru_terminal run \<longrightarrow> live_inv run)"

lemmas inv_defs = run_inv_def live_inv_def core_def owner_ok_def quiet_def modern_ok_def life_ok_def serves_def modern_def

text \<open>What the invariant does not look at.\<close>

lemma run_inv_frame [simp]:
  "run_inv (run\<lparr>ru_env := e\<rparr>) = run_inv run"
  "run_inv (run\<lparr>ru_init := i\<rparr>) = run_inv run"
  "run_inv (run\<lparr>ru_replay := p\<rparr>) = run_inv run"
  "run_inv (run\<lparr>ru_dormancyInvalid := b\<rparr>) = run_inv run"
  "run_inv (run\<lparr>ru_dormantTransitionStart := n\<rparr>) = run_inv run"
  "run_inv (run\<lparr>ru_dormantLeaseDeadline := t\<rparr>) = run_inv run"
  "run_inv (run\<lparr>ru_lastHostSequence := n\<rparr>) = run_inv run"
  "run_inv (run\<lparr>ru_boundarySequence := n\<rparr>) = run_inv run"
  "run_inv (run\<lparr>ru_boundaryArrived := t\<rparr>) = run_inv run"
  "run_inv (run\<lparr>ru_resolving := b\<rparr>) = run_inv run"
  "run_inv (run\<lparr>ru_resolveID := n\<rparr>) = run_inv run"
  by (simp_all add: inv_defs cong: option.case_cong)

lemma run_inv_timers [simp]:
  "run_inv (stopReplayTimer run) = run_inv run" "run_inv (stopDormantExitTimer run) = run_inv run"
  "run_inv (stopChildExitDrainTimer run) = run_inv run" "run_inv (stopDormantLeaseTimer run) = run_inv run"
  "run_inv (armReplayTimer run) = run_inv run" "run_inv (armDormantExitTimer run) = run_inv run"
  "run_inv (armChildExitDrainTimer run) = run_inv run" "run_inv (armDormantLease run) = run_inv run"
  by (simp_all add: inv_defs stopReplayTimer_def stopDormantExitTimer_def stopChildExitDrainTimer_def
      stopDormantLeaseTimer_def armReplayTimer_def armDormantExitTimer_def armChildExitDrainTimer_def
      armDormantLease_def Let_def cong: option.case_cong)

lemma run_inv_emit [simp]: "run_inv (emit st reason run) = run_inv run"
  by (simp add: emit_def Let_def)

text \<open>Terminating needs only the bounds.\<close>

lemma core_terminate [intro]: "core run \<Longrightarrow> run_inv (terminate reason e run)"
  by (auto simp: terminate_def run_inv_def core_def)

lemma run_inv_core: "run_inv run \<Longrightarrow> core run"
  by (simp add: run_inv_def)

lemma core_term [simp]: "core (terminate reason e run) = core run"
  by (simp add: terminate_def core_def)

lemma run_inv_terminate [intro]: "run_inv run \<Longrightarrow> run_inv (terminate reason e run)"
  by (simp add: core_terminate run_inv_core)

lemma terminate_terminal [simp]: "ru_terminal (terminate reason e run)"
  by (simp add: terminate_def)

text \<open>Changes of one component.\<close>

lemma run_inv_host:
  "run_inv run \<Longrightarrow> reg_inv h \<Longrightarrow> (\<And>g. owned (ru_host run) g \<Longrightarrow> owned h g) \<Longrightarrow>
   (modern run \<Longrightarrow> dr_tasks h = dr_tasks (ru_host run) \<and> dr_retiredRequests h = dr_retiredRequests (ru_host run)) \<Longrightarrow>
   run_inv (run\<lparr>ru_host := h\<rparr>)"
  by (auto simp: inv_defs cong: option.case_cong)

lemma run_inv_child:
  "run_inv run \<Longrightarrow> reg_inv c \<Longrightarrow> (\<And>g. owned (ru_child run) g \<Longrightarrow> owned c g) \<Longrightarrow> run_inv (run\<lparr>ru_child := c\<rparr>)"
  by (auto simp: inv_defs cong: option.case_cong)

lemma run_inv_pending:
  "run_inv run \<Longrightarrow>
   queue_inv (cf_PendingFrameLimit (ru_cfg run)) (cf_PendingByteLimit (ru_cfg run)) q \<Longrightarrow> run_inv (run\<lparr>ru_pending := q\<rparr>)"
  by (auto simp: inv_defs cong: option.case_cong)

lemma run_invD:
  assumes "run_inv run"
  shows "reg_inv (ru_host run)" "reg_inv (ru_child run)"
    "queue_inv (cf_PendingFrameLimit (ru_cfg run)) (cf_PendingByteLimit (ru_cfg run)) (ru_pending run)"
  using assms by (simp_all add: run_inv_def core_def)

section \<open>Writing and finalising\<close>

lemma writeHost_env: "writeHost run frame = (r, e) \<Longrightarrow> \<exists>env. r = run\<lparr>ru_env := env\<rparr>"
  by (auto simp: writeHost_def Let_def split: prod.splits if_splits)

lemma writeChild_env: "writeChild run frame = (r, outcome, e) \<Longrightarrow> \<exists>env. r = run\<lparr>ru_env := env\<rparr>"
  by (auto simp: writeChild_def Let_def split: prod.splits option.splits)
    (metis runner.surjective runner.update_convs(25))

lemma reportLost_env: "reportLost run reqs = (r, e) \<Longrightarrow> \<exists>env. r = run\<lparr>ru_env := env\<rparr>"
proof (induction run reqs arbitrary: r e rule: reportLost.induct)
  case (1 run)
  then show ?case by (auto intro: exI [of _ "ru_env run"])
next
  case (2 run req reqs)
  then show ?case
    by (auto split: prod.splits option.splits dest!: writeHost_env)
qed

lemma finalizeCurrent_form:
  "finalizeCurrent run = (r, res) \<Longrightarrow>
     \<exists>env c. r = run\<lparr>ru_env := env, ru_current := c\<rparr> \<and> (res = Ok () \<longrightarrow> c = None)"
proof -
  assume f: "finalizeCurrent run = (r, res)"
  show ?thesis
  proof (cases "ru_current run")
    case None
    then have "run\<lparr>ru_env := ru_env run, ru_current := None\<rparr> = run" by (cases run) simp
    moreover have "r = run" using f None by (simp add: finalizeCurrent_def)
    ultimately show ?thesis by metis
  next
    case (Some gen)
    then obtain fe fes where "finalizeWith (run\<lparr>ru_current := Some (afterStop gen fe), ru_env := (ru_env run)\<lparr>en_finalizes := fes\<rparr>\<rparr>) gen fe = (r, res)"
      using f by (auto simp: finalizeCurrent_def split: prod.splits)
    then have "r = run\<lparr>ru_env := (ru_env run)\<lparr>en_finalizes := fes\<rparr>, ru_current := Some (afterStop gen fe)\<rparr> \<and> res \<noteq> Ok () \<or>
        r = run\<lparr>ru_env := (ru_env run)\<lparr>en_finalizes := fes\<rparr>, ru_current := None\<rparr>"
      by (auto simp: finalizeWith_def Let_def split: sum.splits if_splits option.splits)
    then show ?thesis by blast
  qed
qed

lemma retire_tasks_empty:
  assumes "reg_inv reg" and "\<And>i. \<not> mhas (dr_tasks reg) i" and "retireGenerationChecked reg g = (r, res)"
  shows "\<not> mhas (dr_tasks r) i"
proof -
  have minv: "minv (dr_tasks reg)" by (rule inv_minv(3) [OF assms(1)])
  consider "r = reg" | r1 where "addFences reg (retireEntries reg g) = (r1, Ok ())" "r = retireAll r1 g"
    | r1 e where "addFences reg (retireEntries reg g) = (r1, Err e)" "r = r1"
    using assms(3) by (auto simp: retireGenerationChecked_def split: sum.splits prod.splits)
  then show ?thesis
  proof cases
    case 2
    have "mget (dr_tasks reg) j = None" for j using assms(2) by (simp add: mhas_def)
    then have "mget (dr_tasks r) i = None"
      unfolding 2(2) retireAll_spec(4) [OF assms(1) 2(1)] using mget_mkeep_Some [OF minv]
      by (metis option.exhaust)
    then show ?thesis by (simp add: mhas_def)
  next
    case 3
    then show ?thesis using assms(2) addFences_live(2) [OF 3(1)] by simp
  qed (use assms in auto)
qed

text \<open>
  The end of a generation either terminates the supervisor or leaves it without a child and without
  live correlations, everything else unchanged.
\<close>

lemma retireCurrent_cases:
  assumes core: "core run" and own: "owned (ru_host run) g" "owned (ru_child run) g"
    and m: "modern run \<longrightarrow> (\<forall>i. \<not> mhas (dr_tasks (ru_host run)) i)" and r: "retireCurrent run g = (r, ok)"
  obtains (failed) "\<not> ok" "ru_terminal r" "core r"
  | (retired) h c env lost lost' rq where "ok" "r = run\<lparr>ru_host := h, ru_child := c, ru_env := env, ru_current := None\<rparr>"
      "core r" "\<forall>g. owned h g \<and> owned c g" "modern run \<longrightarrow> (\<forall>i. \<not> mhas (dr_tasks h) i)"
      "retireGenerationChecked (ru_host run) g = (h, Ok lost)" "retireGenerationChecked (ru_child run) g = (c, Ok lost')"
      "reportLost (run\<lparr>ru_host := h, ru_child := c\<rparr>) lost = (rq, None)" "finalizeCurrent rq = (r, Ok ())"
proof -
  obtain h hres where h: "retireGenerationChecked (ru_host run) g = (h, hres)" by fastforce
  obtain c cres where c: "retireGenerationChecked (ru_child run) g = (c, cres)" by fastforce
  have inv: "reg_inv h" "reg_inv c"
    using retireGenerationChecked_inv [of "ru_host run" g] retireGenerationChecked_inv [of "ru_child run" g] core h c
    by (simp_all add: core_def)
  have core1: "core (run\<lparr>ru_host := h\<rparr>)" "core (run\<lparr>ru_host := h, ru_child := c\<rparr>)"
    using core inv by (simp_all add: core_def)
  show thesis
  proof (cases hres)
    case (Inl e)
    then show thesis using r h core1(1) failed by (auto simp: retireCurrent_def)
  next
    case hok: (Inr lost)
    show thesis
    proof (cases cres)
      case (Inl e)
      then show thesis using r h c hok core1(2) failed
        by (auto simp: retireCurrent_def)
    next
      case cok: (Inr lost')
      obtain r1 e1 where r1: "reportLost (run\<lparr>ru_host := h, ru_child := c\<rparr>) lost = (r1, e1)" by fastforce
      then obtain env where env: "r1 = run\<lparr>ru_host := h, ru_child := c, ru_env := env\<rparr>"
        using reportLost_env by blast
      have core2: "core r1" using core1(2) by (simp add: env core_def)
      obtain r2 res where r2: "finalizeCurrent r1 = (r2, res)" by fastforce
      then obtain env' cur where cur: "r2 = r1\<lparr>ru_env := env', ru_current := cur\<rparr>" "res = Ok () \<longrightarrow> cur = None"
        using finalizeCurrent_form by blast
      have core3: "core r2" using core2 by (simp add: cur core_def)
      show thesis
      proof (cases "e1 = None \<and> res = Ok ()")
        case True
        then have r': "r = r2" "ok" using r h c hok cok r1 r2 by (auto simp: retireCurrent_def)
        have "\<forall>g. owned h g \<and> owned c g"
          using owned_retire [OF _ own(1)] owned_retire [OF _ own(2)] core h c hok cok by (auto simp: core_def)
        moreover have "modern run \<longrightarrow> (\<forall>i. \<not> mhas (dr_tasks h) i)"
          using retire_tasks_empty [OF _ _ h] m core by (auto simp: core_def)
        ultimately show thesis
          by (intro retired [where h = h and c = c and env = env' and lost = lost and lost' = lost' and rq = r1])
            (use r' cur env True core3 h c hok cok r1 r2 in simp_all)
      next
        case False
        then show thesis
          using r h c hok cok r1 r2 core2 core3 failed
          by (auto simp: retireCurrent_def split: option.splits sum.splits)
      qed
    qed
  qed
qed

section \<open>Replacing the child\<close>

lemma beginStart_inv:
  assumes "core run" and "ru_current run = None" and "\<And>g. owned (ru_host run) g \<and> owned (ru_child run) g"
    and "modern run \<longrightarrow> (\<forall>i. \<not> mhas (dr_tasks (ru_host run)) i)"
    and "ru_starting run \<longrightarrow> ru_state run = StateStarting \<and> ti_start (ru_timers run) \<noteq> None"
  shows "run_inv (beginStart run)"
  using assms
  by (simp add: beginStart_def stopRetryTimer_def setState_def emit_def Let_def inv_defs)

lemma run_inv_beginStart [intro]:
  assumes "run_inv run"
  shows "run_inv (beginStart run)"
proof (cases "ru_terminal run \<or> ru_current run \<noteq> None")
  case False
  then show ?thesis
    using assms by (intro beginStart_inv) (auto simp: inv_defs split: if_splits)
qed (use assms in \<open>auto simp: beginStart_def\<close>)

text \<open>A change of a registry that keeps its invariant and the owner of its live correlations.\<close>

definition tame :: "bool \<Rightarrow> directionRegistry \<Rightarrow> directionRegistry \<Rightarrow> bool" where
  "tame m a b \<longleftrightarrow>
     (reg_inv a \<longrightarrow> reg_inv b) \<and> (\<forall>g. owned a g \<longrightarrow> owned b g) \<and>
     (m \<longrightarrow> dr_tasks b = dr_tasks a \<and> dr_retiredRequests b = dr_retiredRequests a)"

lemma tame_refl [simp]: "tame m a a"
  by (simp add: tame_def)

lemma tame_trans: "tame m a b \<Longrightarrow> tame m b c \<Longrightarrow> tame m a c"
  by (auto simp: tame_def)

lemma tame_cancel: "\<not> m \<Longrightarrow> cancel reg req = (r, res) \<Longrightarrow> tame m reg r"
  using cancel_inv [of reg req r res] owned_cancel [of reg _ req] by (auto simp: tame_def)

lemma tame_finish:
  "tame m (ru_host run) (ru_host (finishModernRequest run req))"
  by (auto simp: tame_def finishModernRequest_def inv_del_request owned_del_request)

lemma tame_acceptProgress: "acceptProgress reg meta g = (r, b) \<Longrightarrow> tame m reg r"
  using acceptProgress_inv [of reg meta g] owned_acceptProgress [of reg _ meta g] acceptProgress_same [of reg meta g]
  by (auto simp: tame_def acceptProgress_def split: option.splits if_splits)

lemma tame_updateTask: "\<not> m \<Longrightarrow> updateTask reg meta g = (r, res) \<Longrightarrow> tame m reg r"
  using updateTask_inv [of reg meta g] owned_updateTask [of reg _ meta g] by (auto simp: tame_def)

lemma run_inv_tame_host:
  "run_inv run \<Longrightarrow> tame (modern run) (ru_host run) h \<Longrightarrow> run_inv (run\<lparr>ru_host := h\<rparr>)"
  by (rule run_inv_host) (auto simp: tame_def run_invD)

lemma run_inv_tame_child: "run_inv run \<Longrightarrow> tame m (ru_child run) c \<Longrightarrow> run_inv (run\<lparr>ru_child := c\<rparr>)"
  by (rule run_inv_child) (auto simp: tame_def run_invD)

lemma commitCancellations_form:
  "commitCancellations run g items = (r, res) \<Longrightarrow>
     \<exists>h. r = run\<lparr>ru_host := h\<rparr> \<and> tame (modern run) (ru_host run) h"
proof (induction items arbitrary: run r res)
  case Nil
  have "run\<lparr>ru_host := ru_host run\<rparr> = run" by (cases run) simp
  then show ?case using Nil by (metis Pair_inject commitCancellations.simps(1) tame_refl)
next
  case (Cons item items)
  define t where "t = (if pf_sameGenerationOnly item then fr_cancellation (pf_frame item) else None)"
  show ?case
  proof (cases "\<exists>target req. t = Some target \<and> mget (dr_requests (ru_host run)) (sv_key target) = Some req \<and>
      \<not> (rr_generation req \<noteq> g \<or> rr_initialize req \<or> rr_taskAugmented req)")
    case False
    then have "commitCancellations run g items = (r, res)"
      using Cons.prems unfolding t_def [symmetric] commitCancellations.simps by (auto split: option.splits)
    then show ?thesis by (rule Cons.IH)
  next
    case True
    then obtain target req where tr: "t = Some target" "mget (dr_requests (ru_host run)) (sv_key target) = Some req"
      "\<not> (rr_generation req \<noteq> g \<or> rr_initialize req \<or> rr_taskAugmented req)" by blast
    show ?thesis
    proof (cases "modern run")
      case m: True
      obtain h where h: "finishModernRequest run req = run\<lparr>ru_host := h\<rparr>" by (simp add: finishModernRequest_def)
      have "commitCancellations (finishModernRequest run req) g items = (r, res)"
        using Cons.prems tr m unfolding t_def [symmetric] commitCancellations.simps by simp
      then obtain h' where "r = run\<lparr>ru_host := h'\<rparr>" "tame (modern run) h h'"
        using Cons.IH [of "run\<lparr>ru_host := h\<rparr>" r res] unfolding h by (auto simp: modern_def)
      moreover have "tame (modern run) (ru_host run) h"
        using tame_finish [of "modern run" run req] unfolding h by simp
      ultimately show ?thesis by (blast intro: tame_trans)
    next
      case m: False
      obtain h cres where h: "cancel (ru_host run) req = (h, cres)" by fastforce
      have th: "tame (modern run) (ru_host run) h" by (rule tame_cancel [OF m h])
      show ?thesis
      proof (cases cres)
        case (Inl e)
        then show ?thesis using Cons.prems tr m h th unfolding t_def [symmetric] commitCancellations.simps by auto
      next
        case (Inr u)
        then have "commitCancellations (run\<lparr>ru_host := h\<rparr>) g items = (r, res)"
          using Cons.prems tr m h unfolding t_def [symmetric] commitCancellations.simps by simp
        then obtain h' where "r = run\<lparr>ru_host := h'\<rparr>" "tame (modern run) h h'"
          using Cons.IH [of "run\<lparr>ru_host := h\<rparr>" r res] by (auto simp: modern_def)
        then show ?thesis using th by (blast intro: tame_trans)
      qed
    qed
  qed
qed

lemma commitQuiescing_form:
  assumes "commitQuiescingCancellations run = (r, res)"
  shows "\<exists>h. r = run\<lparr>ru_host := h\<rparr> \<and> tame (modern run) (ru_host run) h"
proof (cases "ru_current run")
  case None
  have "run\<lparr>ru_host := ru_host run\<rparr> = run" by (cases run) simp
  then show ?thesis using None assms by (metis Pair_inject commitQuiescingCancellations_def option.case(1) tame_refl)
next
  case (Some gen)
  then show ?thesis using assms commitCancellations_form by (simp add: commitQuiescingCancellations_def)
qed

definition retiring :: "Reason \<Rightarrow> runner \<Rightarrow> runner" where
  "retiring reason run =
     setState StateFinalizing reason
       ((stopDormantLeaseTimer (stopChildExitDrainTimer (stopDormantExitTimer (stopReplayTimer run))))
          \<lparr>ru_resolving := False, ru_resolveID := ru_resolveID run + 1\<rparr>)"

lemma retiring_simps [simp]:
  "ru_host (retiring reason run) = ru_host run" "ru_child (retiring reason run) = ru_child run"
  "ru_pending (retiring reason run) = ru_pending run" "ru_current (retiring reason run) = ru_current run"
  "ru_terminal (retiring reason run) = ru_terminal run" "ru_cfg (retiring reason run) = ru_cfg run"
  "ru_starting (retiring reason run) = ru_starting run" "ru_generation (retiring reason run) = ru_generation run"
  by (simp_all add: retiring_def setState_def emit_def Let_def stopDormantLeaseTimer_def stopChildExitDrainTimer_def
      stopDormantExitTimer_def stopReplayTimer_def)

lemma replaceCurrent_eq:
  assumes "\<not> ru_terminal run" and "ru_current run = Some gen"
  shows "replaceCurrent reason run =
    (case commitQuiescingCancellations (retiring reason run) of
       (r3, Inl e) \<Rightarrow> terminate ReasonProtocolFailure (Some e) r3
     | (r3, Inr _) \<Rightarrow>
         (case retireCurrent (r3\<lparr>ru_pending := discardSameGenerationOnly (ru_pending r3)\<rparr>) (ge_id gen) of
            (r4, False) \<Rightarrow> r4
          | (r4, True) \<Rightarrow> if ru_terminal r4 then r4 else beginStart r4))"
  using assms
  by (simp add: replaceCurrent_def retiring_def Let_def stopDormantLeaseTimer_def stopChildExitDrainTimer_def
      stopDormantExitTimer_def stopReplayTimer_def)

text \<open>What replacing the child needs: the invariant, but in any state.\<close>

definition replaceable :: "runner \<Rightarrow> bool" where
  "replaceable run \<longleftrightarrow>
     core run \<and>
     (\<not> ru_terminal run \<longrightarrow>
        owner_ok run \<and> (modern run \<longrightarrow> (\<forall>i. \<not> mhas (dr_tasks (ru_host run)) i)) \<and>
        (if ru_current run = None then life_ok run else \<not> ru_starting run))"

lemma run_inv_replaceable: "run_inv run \<Longrightarrow> replaceable run"
  by (auto simp: replaceable_def inv_defs)

lemma replaceable_beginStart: "replaceable run \<Longrightarrow> ru_current run = None \<Longrightarrow> run_inv (beginStart run)"
proof (cases "ru_terminal run")
  case False
  assume "replaceable run" "ru_current run = None"
  with False show ?thesis
    by (intro beginStart_inv) (auto simp: replaceable_def inv_defs split: if_splits)
qed (auto simp: beginStart_def replaceable_def run_inv_def)

lemma replaceCurrent_replaceable:
  assumes inv: "replaceable run"
  shows "run_inv (replaceCurrent reason run)"
proof (cases "ru_terminal run \<or> ru_current run = None")
  case True
  then show ?thesis
    using inv replaceable_beginStart [OF inv] by (auto simp: replaceCurrent_def replaceable_def run_inv_def)
next
  case False
  then obtain gen where gen: "ru_current run = Some gen" and nt: "\<not> ru_terminal run" by auto
  obtain r3 res3 where c: "commitQuiescingCancellations (retiring reason run) = (r3, res3)" by fastforce
  then obtain h where h: "r3 = (retiring reason run)\<lparr>ru_host := h\<rparr>" and th: "tame (modern run) (ru_host run) h"
    using commitQuiescing_form [OF c] by (auto simp: modern_def)
  have core3: "core r3" using inv th by (simp add: h core_def replaceable_def tame_def)
  define r3' where "r3' = r3\<lparr>ru_pending := discardSameGenerationOnly (ru_pending r3)\<rparr>"
  have core3': "core r3'" using core3 by (simp add: r3'_def core_def)
  have own: "owned (ru_host r3') (ge_id gen)" "owned (ru_child r3') (ge_id gen)"
    using inv nt gen th by (auto simp: r3'_def h replaceable_def owner_ok_def serves_def tame_def)
  have m: "modern r3' \<longrightarrow> (\<forall>i. \<not> mhas (dr_tasks (ru_host r3')) i)"
    using inv nt th by (auto simp: r3'_def h replaceable_def modern_def tame_def)
  obtain r4 ok where r4: "retireCurrent r3' (ge_id gen) = (r4, ok)" by fastforce
  have eq: "replaceCurrent reason run = (case res3 of Inl e \<Rightarrow> terminate ReasonProtocolFailure (Some e) r3
      | Inr _ \<Rightarrow> if ok then (if ru_terminal r4 then r4 else beginStart r4) else r4)"
    unfolding replaceCurrent_eq [OF nt gen] using c r4 by (auto simp: r3'_def split: sum.split bool.split)
  from core3' own m r4 show ?thesis
  proof (cases rule: retireCurrent_cases)
    case failed
    then show ?thesis using eq core3 by (auto simp: run_inv_def split: sum.split)
  next
    case (retired h' c' env lost lost' rq)
    have "run_inv (beginStart r4)"
      using retired(3-5) inv nt gen
      by (intro beginStart_inv) (auto simp: retired(2) r3'_def h replaceable_def modern_def)
    then show ?thesis
      using eq core3 retired(1,3) by (auto simp: run_inv_def split: sum.split)
  qed
qed

lemma replaceCurrent_inv: "run_inv run \<Longrightarrow> run_inv (replaceCurrent reason run)"
  by (simp add: replaceCurrent_replaceable run_inv_replaceable)

section \<open>Handlers of host frames\<close>

lemma writeHostOrTerminate_cases:
  assumes "writeHostOrTerminate run frame = (r, ok)"
  obtains (sent) env where "ok" "r = run\<lparr>ru_env := env\<rparr>"
  | (failed) env e where "\<not> ok" "r = terminate ReasonHostOutputFailure (Some e) (run\<lparr>ru_env := env\<rparr>)"
proof -
  obtain r0 e where w: "writeHost run frame = (r0, e)" by fastforce
  then obtain env where "r0 = run\<lparr>ru_env := env\<rparr>" using writeHost_env by blast
  then show thesis using assms w that by (cases e) (auto simp: writeHostOrTerminate_def)
qed

lemma writeHostOrTerminate_inv: "run_inv run \<Longrightarrow> run_inv (fst (writeHostOrTerminate run frame))"
  by (cases "writeHostOrTerminate run frame")
    (auto elim!: writeHostOrTerminate_cases intro!: run_inv_terminate)

lemma writeHostOrTerminate_sent:
  "writeHostOrTerminate run frame = (r, True) \<Longrightarrow> \<exists>env. r = run\<lparr>ru_env := env\<rparr>"
  by (auto elim!: writeHostOrTerminate_cases)

lemma writeHostOrTerminate_failed: "run_inv run \<Longrightarrow> writeHostOrTerminate run frame = (r, ok) \<Longrightarrow> run_inv r"
  using writeHostOrTerminate_inv [of run frame] by simp

lemma writeChildOrReplace_inv: "run_inv run \<Longrightarrow> run_inv (writeChildOrReplace run frame)"
  by (auto simp: writeChildOrReplace_def split: prod.split dest!: writeChild_env intro!: replaceCurrent_inv)

lemma rejectHostRequest_inv: "run_inv run \<Longrightarrow> run_inv (rejectHostRequest run frame code message)"
  by (auto simp: rejectHostRequest_def writeHostOrTerminate_inv split: option.split)

lemma enqueueHost_inv: "run_inv run \<Longrightarrow> run_inv (enqueueHost run item b)"
proof -
  assume inv: "run_inv run"
  have q: "run_inv (run\<lparr>ru_pending := q\<rparr>)"
    if "enqueue (ru_pending run) it (cf_PendingFrameLimit (ru_cfg run)) (cf_PendingByteLimit (ru_cfg run)) = (q, ok)" for it q ok
    using enqueue_inv [OF run_invD(3) [OF inv], of it] that by (intro run_inv_pending [OF inv]) simp
  show ?thesis
    by (auto simp: enqueueHost_def Let_def inv q intro!: rejectHostRequest_inv run_inv_beginStart
        split: prod.split option.split bool.split)
qed

lemma retainAfterNotWritten_inv: "run_inv run \<Longrightarrow> run_inv (retainAfterNotWritten run item)"
proof -
  assume inv: "run_inv run"
  have q: "run_inv (run\<lparr>ru_pending := q\<rparr>)"
    if "pushFrontBounded (ru_pending run) it (cf_PendingFrameLimit (ru_cfg run)) (cf_PendingByteLimit (ru_cfg run)) = (q, ok)" for it q ok
    using pushFront_inv [OF run_invD(3) [OF inv], of it] that by (intro run_inv_pending [OF inv]) simp
  show ?thesis
    by (auto simp: retainAfterNotWritten_def Let_def inv q intro!: rejectHostRequest_inv split: prod.split bool.split)
qed

lemma no_keys: "(\<forall>k. \<not> mhas m k) \<longleftrightarrow> m = []"
  by (cases m) (auto simp: mhas_def mget_def)

lemma mput_mput [simp]: "mput (mput m k a) k b = mput m k b"
  unfolding mput_def by (induction m) auto

lemma registerHost_inv:
  assumes inv: "run_inv run" and nt: "\<not> ru_terminal run" and gen: "ru_current run = Some gen"
    and st: "ru_state run = StateActive \<or> ru_state run = StateReplaying"
    and v: "validateHostRequest run frame0 = (frame, None)"
  shows "run_inv (registerHost run frame (ge_id gen))"
proof (cases "fr_id frame")
  case (Some i)
  let ?h = "ru_host run"
  have own: "owned ?h (ge_id gen)" "owned (ru_child run) (ge_id gen)" and life: "life_ok run"
    using inv nt gen by (auto simp: inv_defs)
  have live: "run_inv (run\<lparr>ru_host := h\<rparr>)"
    if "reg_inv h" "owned h (ge_id gen)" "modern run \<Longrightarrow> dr_tasks h = dr_tasks ?h \<and> dr_retiredRequests h = dr_retiredRequests ?h" for h
    using that inv st gen by (auto simp: inv_defs)
  show ?thesis
  proof (cases "modern run")
    case True
    define req where "req = (recordOf frame i (ge_id gen))\<lparr>rr_initialize := False, rr_taskAugmented := False, rr_taskID := []\<rparr>"
    have fresh: "\<not> mhas (dr_requests ?h) (sv_key i)" "mlen (dr_requests ?h) < activeCorrelationLimit"
      using v True Some by (auto simp: validateHostRequest_def validateModernHostRequest_def split: sum.splits option.splits if_splits)
    have empty: "dr_tasks ?h = []" "dr_retiredRequests ?h = []"
      using inv nt True gen by (auto simp: inv_defs no_keys)
    have "reg_inv (putRecord ?h req)"
      using putRecord_inv [of ?h req] fresh empty run_invD [OF inv]
      by (simp add: req_def rr_key_def recordOf_def mlen_def activeCorrelationLimit_def retainedCorrelationLimit_def)
    moreover have "owned (putRecord ?h req) (ge_id gen)"
      by (rule owned_putRecord [OF own(1)]) (simp add: req_def recordOf_def)
    moreover have "registerHost run frame (ge_id gen) = run\<lparr>ru_host := putRecord ?h req\<rparr>"
      using True Some
      by (simp add: registerHost_def register_def putRecord_def req_def rr_key_def rr_token_def recordOf_def
          split: option.split)
    ultimately show ?thesis using live by (simp add: putRecord_def)
  next
    case False
    have "canRegister ?h frame = Ok ()"
      using v False by (auto simp: validateHostRequest_def validateLegacyRequest_def Let_def split: sum.splits if_splits)
    moreover have reg: "register ?h frame (ge_id gen) = Some (putRecord ?h (recordOf frame i (ge_id gen)), recordOf frame i (ge_id gen))"
      using Some by (simp add: register_def)
    ultimately have "reg_inv (putRecord ?h (recordOf frame i (ge_id gen)))"
      using register_inv run_invD [OF inv] by blast
    moreover have "owned (putRecord ?h (recordOf frame i (ge_id gen))) (ge_id gen)"
      by (rule owned_putRecord [OF own(1)]) (simp add: recordOf_def)
    ultimately show ?thesis using live False reg by (simp add: registerHost_def)
  qed
qed (simp add: registerHost_def register_def inv)

lemma admit_request: "admitHost run frame0 = (frame, None) \<Longrightarrow> fr_kind frame0 = frameRequest \<Longrightarrow>
    validateHostRequest run frame0 = (frame, None)"
  by (simp add: admitHost_def)

lemma admit_kind: "admitHost run frame0 = (frame, e) \<Longrightarrow> fr_kind frame = fr_kind frame0"
  by (auto simp: admitHost_def validateHostRequest_def keepSupportedTask_def Let_def split: if_splits)

lemma validate_env: "validateHostRequest (run\<lparr>ru_env := env\<rparr>) frame = validateHostRequest run frame"
  by (simp add: validateHostRequest_def validateModernHostRequest_def validateLegacyRequest_def
      duplicateInitialize_def modern_def Let_def cong: option.case_cong sum.case_cong if_cong)

lemma deliverHostFirst_inv:
  assumes inv: "run_inv run" and nt: "\<not> ru_terminal run"
  shows "run_inv (deliverHostFirst run item)"
proof (cases "\<exists>gen frame. ru_current run = Some gen \<and> canDeliver run (pf_frame item) \<and> admitHost run (pf_frame item) = (frame, None)")
  case False
  then show ?thesis
    using inv enqueueHost_inv [OF inv] rejectHostRequest_inv [OF inv]
    by (auto simp: deliverHostFirst_def split: option.split prod.split)
next
  case True
  then obtain gen frame where d: "ru_current run = Some gen" "canDeliver run (pf_frame item)"
    "admitHost run (pf_frame item) = (frame, None)" by blast
  obtain r1 outcome err where w: "writeChild run (fr_raw frame) = (r1, outcome, err)" by (metis prod_cases3)
  then obtain env where r1: "r1 = run\<lparr>ru_env := env\<rparr>" using writeChild_env by blast
  define r2 where "r2 = (if fr_kind frame = frameRequest \<and> outcome \<noteq> writeNotWritten then registerHost r1 frame (ge_id gen) else r1)"
  have "run_inv r1" using inv by (simp add: r1)
  moreover have "run_inv (registerHost r1 frame (ge_id gen))" if "fr_kind frame = frameRequest"
  proof (rule registerHost_inv)
    show "validateHostRequest r1 (pf_frame item) = (frame, None)"
      using that d(3) by (simp add: r1 validate_env admit_kind admit_request)
  qed (use inv nt d in \<open>auto simp: r1 canDeliver_def\<close>)
  ultimately have i2: "run_inv r2" by (simp add: r2_def)
  have "deliverHostFirst run item = (if outcome = writeDelivered \<and> err = None then r2
      else replaceCurrent ReasonWriteFailure
        (if outcome = writeNotWritten then retainAfterNotWritten r2 (item\<lparr>pf_frame := frame\<rparr>) else r2))"
    using d w by (simp add: deliverHostFirst_def r2_def Let_def)
  then show ?thesis
    using i2 by (auto intro!: replaceCurrent_inv retainAfterNotWritten_inv)
qed

lemma ownChildRequest_Some:
  "ownChildRequest run gen k = Some req \<Longrightarrow> mget (dr_requests (ru_child run)) k = Some req \<and> rr_generation req = ge_id gen"
  by (auto simp: ownChildRequest_def split: option.splits if_splits)

lemma ownHostRequest_Some:
  "ownHostRequest run gen k = Some req \<Longrightarrow> mget (dr_requests (ru_host run)) k = Some req \<and> rr_generation req = ge_id gen"
  by (auto simp: ownHostRequest_def split: option.splits if_splits)

lemma tame_complete:
  assumes "\<not> m" and "mget (dr_requests reg) k = Some req" and "canComplete reg req frame = Ok ()"
    and "complete reg req frame = (r, res)"
  shows "reg_inv reg \<Longrightarrow> tame m reg r"
  using assms complete_inv [of reg req frame r res] owned_complete [of reg _ req frame] registry_keyed [of reg k req]
  by (auto simp: tame_def dest: ownedD(1))

lemma completeChildRequest_inv:
  assumes inv: "run_inv run" and own: "ownChildRequest run gen k = Some req"
    and can: "canComplete (ru_child run) req frame = Ok ()"
  shows "run_inv (completeChildRequest run req frame)"
proof -
  obtain r1 outcome err where w: "writeChild run (fr_raw frame) = (r1, outcome, err)" by (metis prod_cases3)
  then obtain env where r1: "r1 = run\<lparr>ru_env := env\<rparr>" using writeChild_env by blast
  obtain c res where c: "(if outcome \<noteq> writeNotWritten then complete (ru_child r1) req frame else (ru_child r1, Ok ())) = (c, res)"
    by fastforce
  have "tame False (ru_child run) c"
  proof (cases "outcome \<noteq> writeNotWritten")
    case True
    then show ?thesis
      using tame_complete [OF _ conjunct1 [OF ownChildRequest_Some [OF own]] can _ run_invD(2) [OF inv], where m = False] c r1 by simp
  qed (use c r1 in simp)
  then have "run_inv (r1\<lparr>ru_child := c\<rparr>)"
    using inv by (intro run_inv_tame_child) (auto simp: r1)
  then show ?thesis
    using w c by (auto simp: completeChildRequest_def intro: replaceCurrent_inv split: sum.split)
qed

lemma handleHostResponse_inv: "run_inv run \<Longrightarrow> run_inv (handleHostResponse run frame)"
  using tame_cancel [of False "ru_child run"]
  by (auto simp: handleHostResponse_def split: option.split sum.split prod.split
      intro!: completeChildRequest_inv writeChildOrReplace_inv run_inv_terminate intro: run_inv_tame_child)

lemma handleHostCancellation_inv:
  assumes inv: "run_inv run" and "\<not> modern run"
  shows "run_inv (handleHostCancellation run item)"
proof -
  have "removeRequest (ru_pending run) k = (q, b) \<Longrightarrow> run_inv (run\<lparr>ru_pending := q\<rparr>)" for k q b
    using removeRequest_inv [OF run_invD(3) [OF inv], of k] by (intro run_inv_pending [OF inv]) simp
  moreover have "cancel (ru_host run) req = (h, res) \<Longrightarrow> run_inv (run\<lparr>ru_host := h\<rparr>)" for req h res
    using tame_cancel assms(2) by (intro run_inv_tame_host [OF inv]) simp
  ultimately show ?thesis
    by (auto simp: handleHostCancellation_def inv Let_def split: option.split sum.split prod.split bool.split
        intro!: writeChildOrReplace_inv run_inv_terminate enqueueHost_inv)
qed

lemma handleHostProgress_inv: "run_inv run \<Longrightarrow> run_inv (handleHostProgress run frame)"
  using tame_acceptProgress [of "ru_child run"]
  by (auto simp: handleHostProgress_def split: option.split prod.split bool.split
      intro!: writeChildOrReplace_inv intro: run_inv_tame_child)

lemma handleHostTaskStatus_inv:
  assumes inv: "run_inv run"
  shows "run_inv (handleHostTaskStatus run frame)"
proof -
  have "updateTask (ru_child run) meta g = (c, res) \<Longrightarrow> run_inv (run\<lparr>ru_child := c\<rparr>)" for meta g c res
    using tame_updateTask [of False] by (intro run_inv_tame_child [OF inv, where m = False]) simp
  then show ?thesis
    by (auto simp: handleHostTaskStatus_def inv split: option.split sum.split prod.split bool.split
        intro!: writeChildOrReplace_inv run_inv_terminate)
qed

lemma writeInitialInitialize_inv: "run_inv run \<Longrightarrow> run_inv (writeInitialInitialize run frame)"
  by (auto simp: writeInitialInitialize_def split: prod.split dest!: writeChild_env intro!: replaceCurrent_inv)

lemma beginInitialize_inv: "run_inv run \<Longrightarrow> run_inv (beginInitialize run frame)"
  by (auto simp: beginInitialize_def Let_def intro!: writeInitialInitialize_inv run_inv_beginStart)

lemma duringInitialize_inv:
  "run_inv run \<Longrightarrow> \<not> ru_terminal run \<Longrightarrow> run_inv (fst (duringInitialize run item message))"
  by (auto simp: duringInitialize_def routeInitializationHostPing_def Let_def
      intro!: deliverHostFirst_inv enqueueHost_inv rejectHostRequest_inv)

lemma acceptInitialized_inv: "run_inv run \<Longrightarrow> run_inv (acceptInitialized run frame)"
  by (auto simp: acceptInitialized_def Let_def intro!: writeChildOrReplace_inv)

lemma handleHostLifecycle_inv:
  "run_inv run \<Longrightarrow> \<not> ru_terminal run \<Longrightarrow> run_inv (fst (handleHostLifecycle run item))"
  by (simp add: handleHostLifecycle_def Let_def rejectHostRequest_inv beginInitialize_inv duringInitialize_inv
      acceptInitialized_inv)

lemma duringInitialize_continue: "duringInitialize run item message = (r, False) \<Longrightarrow> r = run"
  by (auto simp: duringInitialize_def Let_def split: if_splits)

lemma lifecycle_continue: "handleHostLifecycle run item = (r, False) \<Longrightarrow> r = run"
  by (auto simp: handleHostLifecycle_def Let_def split: if_splits dest: duringInitialize_continue)

lemma modernCancellation_inv:
  assumes inv: "run_inv run"
  shows "run_inv (modernCancellation run item target)"
proof -
  have "removeModernRequest (ru_pending run) k = (q, b) \<Longrightarrow> run_inv (run\<lparr>ru_pending := q\<rparr>)" for k q b
    using removeModern_inv [OF run_invD(3) [OF inv], of k] by (intro run_inv_pending [OF inv]) simp
  moreover have "run_inv (finishModernRequest run req)" for req
    using run_inv_tame_host [OF inv tame_finish, of req] by (simp add: finishModernRequest_def)
  ultimately show ?thesis
    by (auto simp: modernCancellation_def inv split: option.split prod.split bool.split
        intro!: writeChildOrReplace_inv enqueueHost_inv)
qed

lemma handleModernHost_inv: "run_inv run \<Longrightarrow> \<not> ru_terminal run \<Longrightarrow> run_inv (handleModernHost run item)"
  by (auto simp: handleModernHost_def Let_def split: option.split
      intro!: modernCancellation_inv deliverHostFirst_inv enqueueHost_inv)

lemma tame_consumeResponse: "consumeRetiredResponse reg frame = (r, res) \<Longrightarrow> tame False reg r"
  using consumeRetiredResponse_inv [of reg frame] owned_consumeResponse [of reg _ frame] by (auto simp: tame_def)

lemma tame_consumeStatus: "consumeRetiredTaskStatus reg meta = (r, res) \<Longrightarrow> tame False reg r"
  using consumeRetiredTaskStatus_inv [of reg meta] owned_consumeStatus [of reg _ meta] by (auto simp: tame_def)

lemma consumeRetiredHost_inv:
  assumes inv: "run_inv run" and "consumeRetiredHost run frame = Some r"
  shows "run_inv r"
proof -
  have "consumeRetiredResponse (ru_child run) frame = (c, res) \<Longrightarrow> run_inv (run\<lparr>ru_child := c\<rparr>)" for c res
    by (rule run_inv_tame_child [OF inv]) (rule tame_consumeResponse)
  moreover have "consumeRetiredTaskStatus (ru_child run) meta = (c, res) \<Longrightarrow> run_inv (run\<lparr>ru_child := c\<rparr>)" for meta c res
    by (rule run_inv_tame_child [OF inv]) (rule tame_consumeStatus)
  ultimately show ?thesis
    using assms(2) by (auto simp: consumeRetiredHost_def Let_def split: prod.splits sum.splits if_splits option.splits)
qed

lemma routeHost_inv:
  assumes "run_inv run" and "\<not> ru_terminal run" and "\<not> modern run"
  shows "run_inv (routeHost run item)"
  using assms
  by (simp add: routeHost_def Let_def handleHostResponse_inv enqueueHost_inv handleHostCancellation_inv
      handleHostProgress_inv handleHostTaskStatus_inv deliverHostFirst_inv)

lemma handleHostFrame_inv:
  assumes inv: "run_inv run" and nt: "\<not> ru_terminal run"
  shows "run_inv (handleHostFrame run item)"
proof -
  obtain r1 ok where l: "handleHostLifecycle run item = (r1, ok)" by fastforce
  then have "run_inv r1" "\<not> ok \<Longrightarrow> r1 = run"
    using handleHostLifecycle_inv [OF inv nt, of item] lifecycle_continue by auto
  then show ?thesis
    using l nt consumeRetiredHost_inv [OF inv] rejectHostRequest_inv [OF inv] handleModernHost_inv [OF inv nt] inv
      routeHost_inv [OF inv nt]
    by (auto simp: handleHostFrame_def Let_def split: option.split bool.split)
qed

lemma finishDormantLease_inv: "run_inv run \<Longrightarrow> run_inv (finishDormantLease now run)"
  by (auto simp: finishDormantLease_def inv_defs terminate_def cong: option.case_cong)

lemma resume_inv: "run_inv run \<Longrightarrow> run_inv (resumeDormantLeaseAfterHost run)"
  by (auto simp: resumeDormantLeaseAfterHost_def finishDormantLease_inv)

lemma handleDormantLease_inv: "run_inv run \<Longrightarrow> run_inv (handleDormantLease now run)"
  by (auto simp: handleDormantLease_def Let_def intro!: finishDormantLease_inv)

lemma handleHostEvent_inv:
  assumes "run_inv run"
  shows "run_inv (handleHostEvent run event)"
proof -
  have "run_inv (run\<lparr>ru_lastHostSequence := n\<rparr>)" for n using assms by simp
  then show ?thesis
    using assms
    by (auto simp: handleHostEvent_def Let_def simp del: run_inv_frame split: sum.split prod.split
        intro!: resume_inv writeHostOrTerminate_inv handleHostFrame_inv)
qed

end
