(* ===== verification/Runner_Safety.thy ===== *)
theory Runner_Safety
  imports Runner_Inv
begin

text \<open>
  The invariant of the supervisor through the handlers of the child and of the event loop, and the
  properties of the whole supervisor: what every reachable state satisfies, that no request of the
  host is lost, that the queue drains, and that the supervisor never gets stuck.
\<close>

section \<open>Draining loops\<close>

lemma popQueue_run_inv: "run_inv run \<Longrightarrow> popQueue (ru_pending run) = (q, x) \<Longrightarrow> run_inv (run\<lparr>ru_pending := q\<rparr>)"
  using popQueue_inv [OF run_invD(3), of run] by (intro run_inv_pending) auto

lemma popPing_run_inv:
  "run_inv run \<Longrightarrow> popFirstInitializationPing (ru_pending run) = (q, x) \<Longrightarrow> run_inv (run\<lparr>ru_pending := q\<rparr>)"
  using popPing_inv [OF run_invD(3), of run] by (intro run_inv_pending) auto

lemma flushLoop_inv: "run_inv run \<Longrightarrow> run_inv (flushLoop n run)"
  by (induction n arbitrary: run)
    (auto split: prod.split option.split intro!: handleHostEvent_inv dest: popQueue_run_inv)

lemma flushPending_inv: "run_inv run \<Longrightarrow> run_inv (flushPending run)"
  by (simp add: flushPending_def flushLoop_inv)

lemma pingLoop_inv: "run_inv run \<Longrightarrow> run_inv (pingLoop n run)"
proof (induction n arbitrary: run)
  case (Suc n)
  have "run_inv (deliverHostFirst (run\<lparr>ru_pending := q\<rparr>) item)"
    if "popFirstInitializationPing (ru_pending run) = (q, Some item)" "\<not> ru_terminal run" for q item
    using popPing_run_inv [OF Suc.prems that(1)] that(2) by (intro deliverHostFirst_inv) auto
  with Suc show ?case by (auto split: prod.split option.split)
qed simp

lemma flushReplayPings_inv: "run_inv run \<Longrightarrow> run_inv (flushReplayPings run)"
  by (simp add: flushReplayPings_def pingLoop_inv)

section \<open>Handlers of child frames\<close>

lemma rejectChildRequest_inv: "run_inv run \<Longrightarrow> run_inv (rejectChildRequest run frame code message)"
  by (auto simp: rejectChildRequest_def writeChildOrReplace_inv split: option.split)

lemma registerChild_inv:
  assumes inv: "run_inv run" and gen: "ru_current run = Some gen"
    and can: "canRegister (ru_child run) frame = Ok ()" and r: "register (ru_child run) frame (ge_id gen) = Some (c, req)"
  shows "run_inv (run\<lparr>ru_child := c\<rparr>)"
proof -
  have "reg_inv c" by (rule register_inv [OF run_invD(2) [OF inv] can r])
  moreover have "owned c (ge_id gen)" if "\<not> ru_terminal run"
    using r that inv gen
    by (auto simp: register_def recordOf_def inv_defs intro!: owned_putRecord)
  ultimately show ?thesis
    using inv gen by (auto simp: inv_defs)
qed

lemma admitChildRequest_inv:
  assumes inv: "run_inv run" and gen: "ru_current run = Some gen"
  shows "run_inv (admitChildRequest run gen frame)"
proof -
  have "run_inv r1" if "writeHostOrTerminate run f = (r1, False)" for f r1
    by (rule writeHostOrTerminate_failed [OF inv that])
  moreover have "run_inv (case register (ru_child r1) frame (ge_id gen) of None \<Rightarrow> r1 | Some (c, _) \<Rightarrow> r1\<lparr>ru_child := c\<rparr>)"
    if "writeHostOrTerminate run f = (r1, True)" "canRegister (ru_child run) frame = Ok ()" for f r1
  proof -
    from writeHostOrTerminate_sent [OF that(1)] obtain env where "r1 = run\<lparr>ru_env := env\<rparr>" by blast
    then show ?thesis
      using registerChild_inv [of r1 gen frame] that(2) inv gen by (auto split: option.split)
  qed
  ultimately show ?thesis
    using inv rejectChildRequest_inv [OF inv] replaceCurrent_inv [OF inv]
    by (auto simp: admitChildRequest_def split: sum.split prod.split bool.split)
qed

lemma handleChildRequest_inv: "run_inv run \<Longrightarrow> run_inv (handleChildRequest run frame)"
  by (auto simp: handleChildRequest_def intro!: admitChildRequest_inv replaceCurrent_inv split: option.split)

lemma tame_retireRequest:
  assumes "reg_inv reg" and "mget (dr_requests reg) k = Some req"
  shows "tame False reg (retireRequest reg req)"
  using retireRequest_inv [OF assms(1) registry_keyed [OF assms]] owned_retireRequest by (auto simp: tame_def)

lemma handleChildCancellation_inv:
  assumes inv: "run_inv run"
  shows "run_inv (handleChildCancellation run frame)"
proof -
  have "run_inv (r1\<lparr>ru_child := retireRequest (ru_child r1) req\<rparr>)"
    if "writeHostOrTerminate run f = (r1, True)" "ownChildRequest run gen k = Some req" for f r1 gen k req
  proof -
    from writeHostOrTerminate_sent [OF that(1)] obtain env where r1: "r1 = run\<lparr>ru_env := env\<rparr>" by blast
    have "tame False (ru_child run) (retireRequest (ru_child run) req)"
      using tame_retireRequest run_invD(2) [OF inv] ownChildRequest_Some [OF that(2)] by blast
    then show ?thesis using inv by (intro run_inv_tame_child) (auto simp: r1)
  qed
  then show ?thesis
    using inv writeHostOrTerminate_failed [OF inv]
    by (auto simp: handleChildCancellation_def split: option.split prod.split bool.split)
qed

lemma handleChildProgress_inv:
  assumes inv: "run_inv run"
  shows "run_inv (handleChildProgress run frame)"
proof -
  have "acceptProgress (ru_host run) meta g = (h, b) \<Longrightarrow> run_inv (run\<lparr>ru_host := h\<rparr>)" for meta g h b
    by (rule run_inv_tame_host [OF inv]) (rule tame_acceptProgress)
  then show ?thesis
    using inv by (auto simp: handleChildProgress_def split: option.split prod.split bool.split intro!: writeHostOrTerminate_inv)
qed

lemma handleChildTaskStatus_inv:
  assumes inv: "run_inv run" and m: "\<not> modern run"
  shows "run_inv (handleChildTaskStatus run frame)"
proof -
  have "updateTask (ru_host run) meta g = (h, res) \<Longrightarrow> run_inv (run\<lparr>ru_host := h\<rparr>)" for meta g h res
    by (rule run_inv_tame_host [OF inv]) (rule tame_updateTask [OF m])
  then show ?thesis
    using inv by (auto simp: handleChildTaskStatus_def split: option.split prod.split sum.split bool.split
        intro!: writeHostOrTerminate_inv run_inv_terminate)
qed

lemma completeInitialInitialize_inv: "run_inv run \<Longrightarrow> run_inv (completeInitialInitialize run response)"
  using writeHostOrTerminate_failed [of "stopReplayTimer run"]
  by (auto simp: completeInitialInitialize_def Let_def split: prod.split bool.split)

lemma completeHostRequest_inv:
  assumes inv: "run_inv run" and m: "\<not> modern run" and own: "mget (dr_requests (ru_host run)) k = Some req"
    and can: "canComplete (ru_host run) req frame = Ok ()"
  shows "run_inv (completeHostRequest run req frame)"
proof -
  have "complete (ru_host run) req frame = (h, res) \<Longrightarrow> run_inv (run\<lparr>ru_host := h\<rparr>)" for h res
    by (rule run_inv_tame_host [OF inv]) (rule tame_complete [OF m own can _ run_invD(1) [OF inv]])
  then show ?thesis by (auto simp: completeHostRequest_def split: prod.split sum.split)
qed

lemma handleChildResponse_inv:
  assumes inv: "run_inv run" and m: "\<not> modern run"
  shows "run_inv (handleChildResponse run frame)"
proof -
  have "run_inv (completeHostRequest r1 req frame)"
    if "writeHostOrTerminate run f = (r1, True)" "ownHostRequest run gen k = Some req"
      "canComplete (ru_host run) req frame = Ok ()" for f r1 gen k req
  proof -
    from writeHostOrTerminate_sent [OF that(1)] obtain env where r1: "r1 = run\<lparr>ru_env := env\<rparr>" by blast
    show ?thesis
      by (rule completeHostRequest_inv [of _ k])
        (use inv m that(3) ownHostRequest_Some [OF that(2)] in \<open>auto simp: r1 modern_def\<close>)
  qed
  then show ?thesis
    using inv writeHostOrTerminate_failed [OF inv] completeInitialInitialize_inv [OF inv] replaceCurrent_inv [OF inv]
    by (auto simp: handleChildResponse_def split: option.split prod.split sum.split bool.split)
qed

section \<open>Replay\<close>

text \<open>A runner with a child, in whatever state: entering a state in which a child is served restores
  the invariant.\<close>

definition attached :: "runner \<Rightarrow> generation \<Rightarrow> bool" where
  "attached run gen \<longleftrightarrow>
     core run \<and> ru_current run = Some gen \<and> ge_id gen = ru_generation run \<and> \<not> ru_starting run \<and>
     owned (ru_host run) (ge_id gen) \<and> owned (ru_child run) (ge_id gen) \<and> modern_ok run"

lemma run_inv_attached:
  "run_inv run \<Longrightarrow> \<not> ru_terminal run \<Longrightarrow> ru_current run = Some gen \<Longrightarrow> attached run gen"
  by (auto simp: attached_def inv_defs)

lemma attached_replaceable: "attached run gen \<Longrightarrow> replaceable run"
  by (auto simp: attached_def replaceable_def owner_ok_def serves_def modern_ok_def)

lemma attached_state:
  assumes "attached run gen" and "st = StateActive \<or> st = StateReplaying"
  shows "run_inv (setState st reason run)"
  using assms
  by (auto simp: attached_def setState_def emit_def Let_def inv_defs attached_states_def)

lemma setState_attached_inv:
  assumes "run_inv run" and "ru_current run = Some gen" and "st = StateActive \<or> st = StateReplaying"
  shows "run_inv (setState st reason run)"
proof (cases "ru_terminal run")
  case True
  then show ?thesis using assms(1) by (simp add: setState_def emit_def Let_def run_inv_def core_def)
next
  case False
  then show ?thesis using attached_state [OF run_inv_attached] assms by blast
qed

lemma beginReplay_inv: "attached run gen \<Longrightarrow> run_inv (beginReplay run)"
proof -
  assume a: "attached run gen"
  then have "attached (run\<lparr>ru_replay := p\<rparr>) gen" for p
    by (auto simp: attached_def core_def modern_ok_def modern_def)
  then have st: "run_inv (setState StateReplaying ReasonInitial (run\<lparr>ru_replay := p\<rparr>))" for p
    by (rule attached_state) simp
  show ?thesis
    using replaceCurrent_replaceable [OF attached_replaceable [OF a]] st
    by (auto simp: beginReplay_def Let_def split: option.split prod.split dest!: writeChild_env
        intro!: replaceCurrent_inv flushReplayPings_inv)
qed

lemma writeAllHost_cases:
  "writeAllHost run frames = (r, ok) \<Longrightarrow> run_inv run \<Longrightarrow> run_inv r \<and> (ok \<longrightarrow> (\<exists>env. r = run\<lparr>ru_env := env\<rparr>))"
proof (induction frames arbitrary: run)
  case Nil
  have "run\<lparr>ru_env := ru_env run\<rparr> = run" by (cases run) simp
  then show ?case using Nil by (metis Pair_inject writeAllHost.simps(1))
next
  case (Cons f fs)
  obtain r1 ok1 where w: "writeHostOrTerminate run f = (r1, ok1)" by fastforce
  have i1: "run_inv r1" by (rule writeHostOrTerminate_failed [OF Cons.prems(2) w])
  show ?case
  proof (cases ok1)
    case True
    obtain env where env: "r1 = run\<lparr>ru_env := env\<rparr>" using writeHostOrTerminate_sent [of run f r1] w True by auto
    have "writeAllHost r1 fs = (r, ok)" using Cons.prems(1) w True by simp
    from Cons.IH [OF this i1] show ?thesis by (auto simp: env)
  qed (use Cons.prems w i1 in simp)
qed

lemma settleInitialize_cases:
  assumes "settleInitialize run response = (r, ok)" and "run_inv run"
  shows "run_inv r \<and> (ok \<longrightarrow> (\<exists>env i. r = run\<lparr>ru_env := env, ru_init := i\<rparr>))"
proof (cases "in_awaiting (ru_init run)")
  case False
  have "run\<lparr>ru_env := ru_env run, ru_init := ru_init run\<rparr> = run" by (cases run) simp
  then show ?thesis using assms False by (metis Pair_inject settleInitialize_def)
next
  case True
  obtain r1 ok1 where w: "writeHostOrTerminate run (fr_raw response) = (r1, ok1)" by fastforce
  have i1: "run_inv r1" by (rule writeHostOrTerminate_failed [OF assms(2) w])
  show ?thesis
  proof (cases ok1)
    case ok: True
    obtain env where "r1 = run\<lparr>ru_env := env\<rparr>" using writeHostOrTerminate_sent [of run "fr_raw response" r1] w ok by auto
    then show ?thesis using assms w i1 True ok by (auto simp: settleInitialize_def Let_def)
  qed (use assms w i1 True in \<open>auto simp: settleInitialize_def\<close>)
qed

lemma finishReplay_inv:
  assumes inv: "run_inv run" and m: "\<not> modern run" and cur: "ru_current run = Some gen"
  shows "run_inv (finishReplay run)"
proof -
  have "tame False reg (clearTransitionTombstones reg)" "tame False reg (clearRetiredCorrelations reg)" for reg
    by (auto simp: tame_def clearTransitionTombstones_inv clearRetiredCorrelations_inv)
  then have t: "tame False reg (clearRetiredCorrelations (clearTransitionTombstones reg))" "tame False reg (clearTransitionTombstones reg)" for reg
    by (blast intro: tame_trans)+
  have "run_inv (run\<lparr>ru_host := clearRetiredCorrelations (clearTransitionTombstones (ru_host run))\<rparr>)"
    using run_inv_tame_host [OF inv] t(1) m by simp
  from run_inv_tame_child [OF this, of False "clearTransitionTombstones (ru_child run)"] t(2)
  have c: "run_inv (run\<lparr>ru_host := clearRetiredCorrelations (clearTransitionTombstones (ru_host run)),
      ru_child := clearTransitionTombstones (ru_child run)\<rparr>)"
    by simp
  have "run\<lparr>ru_replay := p, ru_host := h, ru_child := c\<rparr> = run\<lparr>ru_host := h, ru_child := c\<rparr>\<lparr>ru_replay := p\<rparr>" for p h c
    by simp
  with c have "run_inv (run\<lparr>ru_replay := p, ru_host := clearRetiredCorrelations (clearTransitionTombstones (ru_host run)),
      ru_child := clearTransitionTombstones (ru_child run)\<rparr>)" for p
    by (simp only: run_inv_frame)
  then show ?thesis
    unfolding finishReplay_def using cur by (intro flushPending_inv setState_attached_inv) auto
qed

lemma releasePrelude_inv:
  assumes inv: "run_inv run" and m: "\<not> modern run" and cur: "ru_current run = Some gen"
  shows "run_inv (releasePrelude run response)"
proof -
  obtain r1 ok1 where w1: "writeAllHost run (rp_prelude (ru_replay run)) = (r1, ok1)" by fastforce
  note i1 = writeAllHost_cases [OF w1 inv]
  define r1' where "r1' = r1\<lparr>ru_replay := (ru_replay r1)\<lparr>rp_prelude := [], rp_preludeBytes := 0\<rparr>\<rparr>"
  obtain r2 ok2 where w2: "settleInitialize r1' response = (r2, ok2)" by fastforce
  have "run_inv r1'" using i1 by (simp add: r1'_def)
  note i2 = settleInitialize_cases [OF w2 this]
  define notices where "notices = (if in_initialized (ru_init r2) \<noteq> None \<and> fr_kind response = frameResult then replacementNotices r2 else [])"
  obtain r3 ok3 where w3: "writeAllHost r2 notices = (r3, ok3)" by fastforce
  note i3 = writeAllHost_cases [OF w3 conjunct1 [OF i2]]
  have "run_inv (finishReplay r3)" if "ok1" "ok2" "ok3"
    using i1 i2 i3 that m cur by (intro finishReplay_inv [of _ gen]) (auto simp: r1'_def modern_def)
  then show ?thesis
    using w1 w2 w3 i1 i2 i3 unfolding releasePrelude_def notices_def r1'_def
    by (auto split: prod.split bool.split)
qed

lemma completeReplay_inv:
  assumes inv: "run_inv run" and m: "\<not> modern run"
  shows "run_inv (completeReplay run response)"
proof -
  have "run_inv (releasePrelude r response)"
    if "r = (stopReplayTimer run)\<lparr>ru_env := env\<rparr> \<or> r = stopReplayTimer run" "ru_current run = Some gen" for r env gen
    using inv m that by (intro releasePrelude_inv [of _ gen]) (auto simp: stopReplayTimer_def [of run] modern_def inv_defs cong: option.case_cong)
  moreover have "ru_current (stopReplayTimer run) = ru_current run" by (simp add: stopReplayTimer_def)
  ultimately show ?thesis
    using inv
    by (auto simp: completeReplay_def Let_def split: option.split prod.split dest!: writeChild_env intro!: replaceCurrent_inv)
qed

lemma handleReplayFrame_inv:
  assumes inv: "run_inv run" and m: "\<not> modern run"
  shows "run_inv (handleReplayFrame run frame)"
proof -
  have "run_inv (replayResponse run frame)"
    using inv m handleChildResponse_inv [OF inv m] replaceCurrent_inv [OF inv]
    by (auto simp: replayResponse_def modern_def split: option.split intro!: completeReplay_inv)
  moreover have "run_inv (replayPrelude run frame)"
    using inv by (auto simp: replayPrelude_def Let_def intro!: replaceCurrent_inv writeHostOrTerminate_inv)
  ultimately show ?thesis
    using inv handleChildRequest_inv [OF inv] by (simp add: handleReplayFrame_def)
qed

section \<open>Dormancy\<close>

lemma completeDormancy_inv:
  assumes inv: "run_inv run" and nt: "\<not> ru_terminal run" and cur: "ru_current run = Some gen"
  shows "run_inv (completeDormancy run gen)"
proof -
  define r1 where "r1 = setState StateFinalizing ReasonDormantCommit (stopDormantExitTimer run)"
  have r1: "ru_host r1 = ru_host run" "ru_child r1 = ru_child run" "ru_pending r1 = ru_pending run"
    "ru_cfg r1 = ru_cfg run" "ru_terminal r1 = ru_terminal run" "ru_starting r1 = ru_starting run"
    by (simp_all add: r1_def setState_def emit_def Let_def stopDormantExitTimer_def)
  have "core r1" using inv by (simp add: core_def r1 run_inv_def)
  moreover have "owned (ru_host r1) (ge_id gen)" "owned (ru_child r1) (ge_id gen)"
    using inv nt cur by (auto simp: r1 inv_defs)
  moreover have "modern r1 \<longrightarrow> (\<forall>i. \<not> mhas (dr_tasks (ru_host r1)) i)"
    using inv nt by (auto simp: r1 inv_defs)
  moreover obtain r2 ok where r2: "retireCurrent r1 (ge_id gen) = (r2, ok)" by fastforce
  ultimately show ?thesis
  proof (cases rule: retireCurrent_cases)
    case failed
    then show ?thesis using r2 by (simp add: completeDormancy_def r1_def [symmetric] Let_def run_inv_def)
  next
    case (retired h c env lost lost' rq)
    have st: "\<not> ru_starting r2" using inv nt cur by (auto simp: retired(2) r1 inv_defs)
    have "run_inv (beginStart r2)"
      using retired(3-5) st by (intro beginStart_inv) (auto simp: retired(2) modern_def)
    moreover have "run_inv (setState StateDormant ReasonDormantCommit r2)"
      using retired(3-5) st
      by (auto simp: setState_def emit_def Let_def retired(2) inv_defs)
    ultimately show ?thesis
      using r2 retired(1) by (simp add: completeDormancy_def r1_def [symmetric] Let_def)
  qed
qed

lemma maybeCompleteDormancy_inv:
  "run_inv run \<Longrightarrow> \<not> ru_terminal run \<Longrightarrow> run_inv (maybeCompleteDormancy run)"
  by (auto simp: maybeCompleteDormancy_def split: option.split bool.split intro!: replaceCurrent_inv completeDormancy_inv)

lemma idle_owned: "registryIdle reg \<Longrightarrow> owned reg g"
  by (simp add: registryIdle_def owned_def mlen_def mget_def)

lemma dormantReady_inv:
  assumes inv: "run_inv run" and nt: "\<not> ru_terminal run"
  shows "run_inv (dormantReady run)"
proof -
  have "run_inv (setState StateQuiescing ReasonDormantCommit (run\<lparr>ru_dormantTransitionStart := n\<rparr>))"
    if "safeToCommitDormant run" for n
    using that inv nt idle_owned
    by (auto simp: safeToCommitDormant_def setState_def emit_def Let_def inv_defs attached_states_def)
  then show ?thesis
    using inv
    by (auto simp: dormantReady_def Let_def split: prod.split dest!: writeChild_env intro!: replaceCurrent_inv)
qed

lemma dormantNack_inv:
  assumes inv: "run_inv run" and cur: "ru_current run = Some gen"
  shows "run_inv (dormantNack run)"
  using inv cur
  by (auto simp: dormantNack_def stopDormantExitTimer_def intro!: replaceCurrent_inv flushPending_inv
      setState_attached_inv [of _ gen])
     (auto simp: inv_defs)

lemma dormantAck_inv:
  assumes inv: "run_inv run" and nt: "\<not> ru_terminal run" and cur: "ru_current run = Some gen"
  shows "run_inv (dormantAck run)"
proof (cases "ru_state run = StateQuiescing")
  case True
  obtain r1 res where c: "commitQuiescingCancellations (stopChildExitDrainTimer run) = (r1, res)" by fastforce
  then obtain h where h: "r1 = (stopChildExitDrainTimer run)\<lparr>ru_host := h\<rparr>" "tame (modern run) (ru_host run) h"
    using commitQuiescing_form [OF c] by (auto simp: stopChildExitDrainTimer_def modern_def)
  have i1: "run_inv r1"
    unfolding h(1) using inv h(2) by (intro run_inv_tame_host) (auto simp: stopChildExitDrainTimer_def [of run] modern_def inv_defs cong: option.case_cong)
  have st1: "ru_state r1 = StateQuiescing" "\<not> ru_terminal r1" "ru_current r1 = Some gen"
    using True nt cur by (simp_all add: h(1) stopChildExitDrainTimer_def)
  define r2 where "r2 = r1\<lparr>ru_pending := discardSameGenerationOnly (ru_pending r1)\<rparr>"
  have "run_inv r2" unfolding r2_def using discard_inv [OF run_invD(3) [OF i1]] by (rule run_inv_pending [OF i1])
  then have "run_inv (setState StateAwaitingDormantExit ReasonDormantCommit r2)"
    using st1 by (auto simp: r2_def setState_def emit_def Let_def inv_defs attached_states_def)
  moreover have "\<not> ru_terminal (armDormantExitTimer (setState StateAwaitingDormantExit ReasonDormantCommit r2))"
    using st1 by (simp add: r2_def armDormantExitTimer_def setState_def emit_def Let_def)
  ultimately show ?thesis
    using True c i1 by (auto simp: dormantAck_def r2_def intro!: maybeCompleteDormancy_inv split: sum.split)
qed (use inv in \<open>auto simp: dormantAck_def intro!: replaceCurrent_inv\<close>)

lemma handleChildControl_inv:
  assumes "run_inv run" and "\<not> ru_terminal run"
  shows "run_inv (handleChildControl run frame)"
  using assms
  by (auto simp: handleChildControl_def split: option.split sum.split Control.split
      intro: replaceCurrent_inv dormantReady_inv dormantNack_inv dormantAck_inv)

section \<open>The modern era and dispatch\<close>

lemma finishModernRequest_inv: "run_inv run \<Longrightarrow> run_inv (finishModernRequest run req)"
  using run_inv_tame_host [OF _ tame_finish, of run req] by (simp add: finishModernRequest_def)

lemma forwardAndFinish_inv: "run_inv run \<Longrightarrow> run_inv (forwardAndFinish run req frame)"
  by (auto simp: forwardAndFinish_def split: prod.split bool.split
      intro: finishModernRequest_inv writeHostOrTerminate_failed)

lemma modernChildFrame_inv: "run_inv run \<Longrightarrow> run_inv (modernChildFrame run gen frame)"
  by (auto simp: modernChildFrame_def split: option.split sum.split
      intro!: forwardAndFinish_inv handleChildProgress_inv writeHostOrTerminate_inv)

lemma handleModernChild_inv: "run_inv run \<Longrightarrow> run_inv (handleModernChild run gen frame)"
  by (auto simp: handleModernChild_def Let_def intro!: modernChildFrame_inv)

lemma quiet_no_request:
  assumes "run_inv run" and "\<not> ru_terminal run" and "ru_state run = StateAwaitingDormantExit"
  shows "ownHostRequest run gen k = None"
proof (rule ccontr)
  assume "ownHostRequest run gen k \<noteq> None"
  then obtain req where r: "mget (dr_requests (ru_host run)) k = Some req"
    using ownHostRequest_Some by blast
  have "owned (ru_host run) g" for g using assms by (auto simp: inv_defs)
  from ownedD(1) [OF this r, of "rr_generation req"] ownedD(1) [OF this r, of "Suc (rr_generation req)"] show False
    by simp
qed

lemma awaitingExitFrame_inv:
  assumes inv: "run_inv run" and nt: "\<not> ru_terminal run" and st: "ru_state run = StateAwaitingDormantExit"
  shows "run_inv (awaitingExitFrame run gen frame)"
proof -
  have "ownHostRequest r1 gen k = None" if "writeHostOrTerminate run f = (r1, True)" for r1 f k
  proof -
    from writeHostOrTerminate_sent [OF that] obtain env where "r1 = run\<lparr>ru_env := env\<rparr>" by blast
    then show ?thesis using quiet_no_request [OF inv nt st, of gen k] by (simp add: ownHostRequest_def)
  qed
  then show ?thesis
    using inv handleChildRequest_inv [OF inv, of frame] writeHostOrTerminate_failed [OF inv]
    by (auto simp: awaitingExitFrame_def markDormancyInvalid_def Let_def split: prod.split bool.split option.split
        bind_split)
qed

lemma handleChildFrame_inv:
  assumes inv: "run_inv run" and nt: "\<not> ru_terminal run"
  shows "run_inv (handleChildFrame run frame)"
proof -
  have "run_inv (beforeInitialized run frame)" "run_inv (routeChild run frame)" if "\<not> modern run"
    using inv that
    by (auto simp: beforeInitialized_def routeChild_def intro!: handleChildResponse_inv handleChildRequest_inv
        writeHostOrTerminate_inv replaceCurrent_inv handleChildCancellation_inv handleChildProgress_inv
        handleChildTaskStatus_inv)
  then show ?thesis
    using inv handleChildControl_inv [OF inv nt] handleModernChild_inv [OF inv] handleReplayFrame_inv [OF inv]
      awaitingExitFrame_inv [OF inv nt]
    by (auto simp: handleChildFrame_def split: option.split)
qed

lemma handleChildOutput_inv:
  assumes "run_inv run" and "\<not> ru_terminal run"
  shows "run_inv (handleChildOutput run err)"
proof -
  have "\<not> ru_terminal (stopChildExitDrainTimer run)" using assms(2) by (simp add: stopChildExitDrainTimer_def)
  then show ?thesis
    using assms(1)
    by (auto simp: handleChildOutput_def markDormancyInvalid_def Let_def intro!: maybeCompleteDormancy_inv replaceCurrent_inv)
qed

lemma handleChildExit_inv: "run_inv run \<Longrightarrow> \<not> ru_terminal run \<Longrightarrow> run_inv (handleChildExit run)"
  by (auto simp: handleChildExit_def intro!: maybeCompleteDormancy_inv replaceCurrent_inv split: option.split)

section \<open>The event loop\<close>

lemma scheduleRetry_inv:
  assumes "core run" and "ru_current run = None" and "\<And>g. owned (ru_host run) g \<and> owned (ru_child run) g"
    and "modern run \<longrightarrow> (\<forall>i. \<not> mhas (dr_tasks (ru_host run)) i)"
    and "ru_state run = StateStarting" and "\<not> ru_starting run"
  shows "run_inv (scheduleRetry run)"
  using assms by (auto simp: scheduleRetry_def setState_def emit_def Let_def inv_defs)

text \<open>A start attempt that is taken up: the attempt is over, no child is attached yet.\<close>

definition launching :: "runner \<Rightarrow> bool" where
  "launching run \<longleftrightarrow>
     core run \<and> ru_current run = None \<and> (\<forall>g. owned (ru_host run) g \<and> owned (ru_child run) g) \<and>
     (modern run \<longrightarrow> (\<forall>i. \<not> mhas (dr_tasks (ru_host run)) i)) \<and> ru_state run = StateStarting \<and> \<not> ru_starting run"

lemma launching_retry: "launching run \<Longrightarrow> run_inv (scheduleRetry run)"
  by (rule scheduleRetry_inv) (auto simp: launching_def)

lemma failStartAttempt_inv: "launching run \<Longrightarrow> run_inv (failStartAttempt run result err)"
  using launching_retry [of run]
  by (auto simp: failStartAttempt_def launching_def split: option.split start_error.split)

lemma attachGeneration_inv:
  assumes l: "launching run"
  shows "run_inv (attachGeneration run gen)"
proof -
  define r1 where "r1 = run\<lparr>ru_generation := ge_id gen, ru_current := Some gen, ru_dormancyInvalid := False\<rparr>"
  have a1: "attached r1 gen" if "\<not> modern r1"
    using l that by (auto simp: r1_def launching_def attached_def core_def modern_ok_def)
  have "attached (r1\<lparr>ru_host := clearRetiredCorrelations (clearTransitionTombstones (ru_host r1)),
      ru_child := clearRetiredCorrelations (clearTransitionTombstones (ru_child r1))\<rparr>) gen"
    using l
    by (auto simp: r1_def launching_def attached_def core_def modern_ok_def modern_def clearTransitionTombstones_inv
        clearRetiredCorrelations_inv)
       (auto simp: clearRetiredCorrelations_def clearTransitionTombstones_def)
  then show ?thesis
    using a1 unfolding attachGeneration_def r1_def [symmetric]
    by (auto simp: Let_def intro!: flushPending_inv attached_state beginReplay_inv)
qed

lemma handleStartAttempt_inv:
  assumes inv: "run_inv run"
  shows "run_inv (handleStartAttempt run event)"
proof (cases "se_attempt event \<noteq> ru_startID run \<or> \<not> ru_starting run \<or> ru_terminal run")
  case True
  then show ?thesis
    using inv by (auto simp: handleStartAttempt_def dropStartAttempt_def split: option.split)
next
  case False
  define r1 where "r1 = (stopStartTimer run)\<lparr>ru_startCancel := False, ru_starting := False\<rparr>"
  have "launching r1"
    using False inv by (auto simp: r1_def stopStartTimer_def launching_def inv_defs split: option.splits)
  then show ?thesis
    using False launching_retry failStartAttempt_inv attachGeneration_inv
    by (auto simp: handleStartAttempt_def r1_def [symmetric] Let_def launching_def split: option.split sum.split)
qed

lemma handleResolve_inv: "run_inv run \<Longrightarrow> run_inv (handleResolve run event)"
  by (auto simp: handleResolve_def Let_def intro!: replaceCurrent_inv split: option.split)

lemma onCurrent_inv: "(\<And>gen. ge_id (f gen) = ge_id gen) \<Longrightarrow> run_inv run \<Longrightarrow> run_inv (onCurrent g f run)"
  by (auto simp: onCurrent_def inv_defs split: option.splits)

lemma startTimedOut_inv: "run_inv run \<Longrightarrow> run_inv (startTimedOut run)"
  unfolding startTimedOut_def
  by (rule core_terminate) (simp add: stopStartTimer_def run_inv_def core_def)

lemma retryTimer_inv:
  assumes "run_inv run"
  shows "run_inv (beginStart (stopRetryTimer run))"
proof (cases "ru_terminal run \<or> ru_current run \<noteq> None")
  case True
  then have "beginStart (stopRetryTimer run) = stopRetryTimer run"
    by (auto simp: beginStart_def stopRetryTimer_def)
  moreover have "core (stopRetryTimer run)"
    using assms by (simp add: stopRetryTimer_def run_inv_def core_def)
  moreover have "live_inv (stopRetryTimer run)" if "\<not> ru_terminal run"
    using True that assms by (auto simp: stopRetryTimer_def inv_defs)
  ultimately show ?thesis by (auto simp: run_inv_def stopRetryTimer_def)
next
  case False
  then show ?thesis
    using assms by (intro beginStart_inv) (auto simp: stopRetryTimer_def inv_defs split: if_splits)
qed

lemma handleEvent_inv:
  assumes inv: "run_inv run" and nt: "\<not> ru_terminal run"
  shows "run_inv (handleEvent run ev)"
proof (cases ev)
  case (EvChildFrame g raw)
  then show ?thesis
    using inv handleChildFrame_inv [OF inv nt] by (auto simp: handleChildLine_def split: sum.split)
next
  case EvChildExitDrainTimer
  then show ?thesis using inv by (auto simp: whenArmed_def Let_def intro!: replaceCurrent_inv)
qed (use inv nt in \<open>auto simp: recordBoundary_def handleHostTerminal_def pumpRecord_def pumpRecordInvalid_def reapRecord_def
      whenArmed_def beginResolve_def handleHostEvent_inv handleStartAttempt_inv handleResolve_inv handleChildOutput_inv
      handleChildExit_inv retryTimer_inv startTimedOut_inv replaceCurrent_inv handleDormantLease_inv
      intro!: onCurrent_inv split: stream_end.split\<close>)

lemma step_inv: "run_inv run \<Longrightarrow> run_inv (step run ev)"
  by (simp add: step_def handleEvent_inv)

interpretation supervisor: invariant_machine step run_inv
  by unfold_locales (rule step_inv)

lemma startRun_inv:
  assumes "0 \<le> cf_PendingFrameLimit cfg" and "0 \<le> cf_PendingByteLimit cfg"
  shows "run_inv (startRun cfg env)"
proof -
  have "owned newDirectionRegistry g" for g by (simp add: owned_def newDirectionRegistry_def mget_def)
  moreover have "\<not> mhas (dr_tasks newDirectionRegistry) i" for i by (simp add: newDirectionRegistry_def)
  ultimately show ?thesis
    using assms reg_inv_new unfolding startRun_def newRunner_def Let_def
    by (intro beginStart_inv) (auto simp: core_def queue_inv_def emptyQueue_def)
qed

lemma withDefaults_limits:
  "withDefaults a b c d cfg0 = Ok cfg \<Longrightarrow> 1 \<le> cf_PendingFrameLimit cfg \<and> 1 \<le> cf_PendingByteLimit cfg \<and> 1 \<le> cf_MaxFrameBytes cfg"
  by (auto simp: withDefaults_def Let_def split: sum.splits if_splits)

lemma reachable_inv:
  assumes "withDefaults a b c d cfg0 = Ok cfg"
  shows "run_inv (foldl step (startRun cfg env) evs)"
  using supervisor.run_inv [OF startRun_inv] withDefaults_limits [OF assms] by force

section \<open>Properties of every reachable state\<close>

definition within_limits :: "directionRegistry \<Rightarrow> bool" where
  "within_limits reg \<longleftrightarrow>
     mlen (dr_requests reg) + mlen (dr_tasks reg) \<le> activeCorrelationLimit \<and>
     mlen (dr_requests reg) + mlen (dr_retiredRequests reg) \<le> retainedCorrelationLimit \<and>
     mlen (dr_tasks reg) + mlen (dr_terminalTasks reg) + mlen (dr_retiredTasks reg) \<le> retainedCorrelationLimit \<and>
     mlen (dr_terminalTasks reg) \<le> terminalTaskLimit"

lemma run_inv_bounds:
  assumes "run_inv run"
  shows "int (lenQueue (ru_pending run)) \<le> cf_PendingFrameLimit (ru_cfg run) \<and>
    0 \<le> pq_bytes (ru_pending run) \<and> pq_bytes (ru_pending run) \<le> cf_PendingByteLimit (ru_cfg run) \<and>
    pq_bytes (ru_pending run) = totalSize (pq_items (ru_pending run)) \<and>
    within_limits (ru_host run) \<and> within_limits (ru_child run)"
  using run_invD [OF assms] totalSize_nonneg
  by (simp add: queue_inv_def lenQueue_def within_limits_def reg_inv_def limits_inv_def)


definition demo_config :: Config where
  "demo_config = \<lparr>cf_ProtocolEra = EraLegacy, cf_ReplacementNotifications = [], cf_RetryDelay = 0,
     cf_ReconcileInterval = 0, cf_StartTimeout = 0, cf_ReplayTimeout = 0, cf_GracefulStopTimeout = 0,
     cf_OutputDrainTimeout = 0, cf_DormantExitTimeout = 0, cf_DormantLease = 0, cf_MaxFrameBytes = 0,
     cf_PendingFrameLimit = 0, cf_PendingByteLimit = 0\<rparr>"

definition demo_env :: environment where
  "demo_env = \<lparr>en_hostWrites = [], en_childWrites = [], en_finalizes = [], en_now = 0, en_hostOut = [],
     en_childIn = [], en_observed = []\<rparr>"

lemma demo_defaults: "withDefaults True True True True demo_config = Ok (applyDefaults demo_config)"
  by code_simp


lemma owned_all_empty: "(\<And>g. owned reg g) \<Longrightarrow> mget (dr_requests reg) k = None"
proof (rule ccontr)
  assume o: "\<And>g. owned reg g" and "mget (dr_requests reg) k \<noteq> None"
  then obtain req where r: "mget (dr_requests reg) k = Some req" by blast
  from ownedD(1) [OF o r, of "rr_generation req"] ownedD(1) [OF o r, of "Suc (rr_generation req)"] show False by simp
qed

lemma run_inv_live:
  assumes inv: "run_inv run" and nt: "\<not> ru_terminal run"
  shows "mget (dr_requests (ru_host run)) k = Some req \<Longrightarrow>
      \<exists>gen. ru_current run = Some gen \<and> rr_generation req = ge_id gen \<and> ge_id gen = ru_generation run \<and>
        (ru_state run = StateActive \<or> ru_state run = StateReplaying)"
    and "mget (dr_requests (ru_child run)) k = Some req \<Longrightarrow>
      \<exists>gen. ru_current run = Some gen \<and> rr_generation req = ge_id gen"
proof -
  show "\<exists>gen. ru_current run = Some gen \<and> rr_generation req = ge_id gen \<and> ge_id gen = ru_generation run \<and>
      (ru_state run = StateActive \<or> ru_state run = StateReplaying)"
    if r: "mget (dr_requests (ru_host run)) k = Some req"
  proof (cases "ru_current run")
    case None
    then have "owned (ru_host run) g" for g using inv nt by (auto simp: inv_defs)
    from owned_all_empty [OF this] r show ?thesis by simp
  next
    case (Some gen)
    then have "owned (ru_host run) (ge_id gen)" using inv nt by (auto simp: inv_defs)
    moreover have "ru_state run \<noteq> StateQuiescing" "ru_state run \<noteq> StateAwaitingDormantExit"
      using inv nt owned_all_empty [of "ru_host run" k] r by (auto simp: run_inv_def live_inv_def quiet_def)
    ultimately show ?thesis
      using Some inv nt ownedD(1) [OF _ r] by (auto simp: inv_defs attached_states_def)
  qed
  show "\<exists>gen. ru_current run = Some gen \<and> rr_generation req = ge_id gen"
    if r: "mget (dr_requests (ru_child run)) k = Some req"
  proof (cases "ru_current run")
    case None
    then have "owned (ru_child run) g" for g using inv nt by (auto simp: inv_defs)
    from owned_all_empty [OF this] r show ?thesis by simp
  next
    case (Some gen)
    then show ?thesis using inv nt ownedD(1) [OF _ r] by (auto simp: inv_defs)
  qed
qed

text \<open>
  C12: No correlation outlives its child. In every reachable state of a running supervisor a live
  request of the host belongs to the attached child, the newest generation, and the child is being
  served: once the child is gone, or has been told that it may exit, no request of the host is live.
  A live request of a child belongs to the attached child.
\<close>
theorem live_requests_have_child:
  assumes "withDefaults hostIn hostOut resolve start cfg0 = Ok cfg"
    and "r = foldl step (startRun cfg env) evs" and "\<not> ru_terminal r"
  shows "(\<forall>k req. mget (dr_requests (ru_host r)) k = Some req \<longrightarrow>
      (\<exists>gen. ru_current r = Some gen \<and> rr_generation req = ge_id gen \<and> ge_id gen = ru_generation r \<and>
        (ru_state r = StateActive \<or> ru_state r = StateReplaying))) \<and>
    (\<forall>k req. mget (dr_requests (ru_child r)) k = Some req \<longrightarrow>
      (\<exists>gen. ru_current r = Some gen \<and> rr_generation req = ge_id gen))"
  using run_inv_live [OF reachable_inv [OF assms(1), of env evs]] assms(2,3) by blast

text \<open>A run with a child that is serving a request.\<close>

definition demo_start :: startAttemptEvent where
  "demo_start = \<lparr>se_attempt = 1, se_requested = \<lparr>er_ID = ''engine''\<rparr>,
     se_result = \<lparr>sr_Child = Some True, sr_Actual = \<lparr>er_ID = ''engine''\<rparr>, sr_Fallback = False, sr_Admission = None,
       sr_stopErr = None, sr_wait = WaitClosed, sr_closeErr = None\<rparr>,
     se_err = None\<rparr>"

definition modern_config :: Config where
  "modern_config = applyDefaults (demo_config\<lparr>cf_ProtocolEra := EraModern20260728\<rparr>)"

lemma modern_defaults:
  "withDefaults True True True True (demo_config\<lparr>cf_ProtocolEra := EraModern20260728\<rparr>) = Ok modern_config"
  by code_simp

definition demo_call :: bytes where
  "demo_call = ''{'' @ dq ''jsonrpc'' @ '':'' @ dq ''2.0'' @ '','' @ dq ''id'' @ '':7,'' @ dq ''method'' @ '':'' @ dq ''ping'' @ ''}''"

definition demo_run :: runner where
  "demo_run = foldl step (startRun modern_config demo_env)
     [EvStartAttempt demo_start, EvHostBoundary 1, EvHostFrame 1 1 demo_call]"

lemma demo_run_running: "\<not> ru_terminal demo_run \<and> mhas (dr_requests (ru_host demo_run)) (SKey scalarNumber ''7e0'')"
  by code_simp

theorem live_requests_have_child_witness:
  "(\<exists>req gen. mget (dr_requests (ru_host demo_run)) (SKey scalarNumber ''7e0'') = Some req \<and>
      ru_current demo_run = Some gen \<and> rr_generation req = ge_id gen \<and> ge_id gen = ru_generation demo_run)"
proof -
  obtain req where "mget (dr_requests (ru_host demo_run)) (SKey scalarNumber ''7e0'') = Some req"
    using demo_run_running by (auto simp: mhas_def)
  then show ?thesis
    using live_requests_have_child [OF modern_defaults demo_run_def] demo_run_running by blast
qed

lemma run_inv_progress:
  assumes inv: "run_inv r" and nt: "\<not> ru_terminal r"
  shows "(\<exists>gen. ru_current r = Some gen \<and> \<not> ru_starting r \<and> ru_state r \<in> attached_states) \<or>
    (ru_current r = None \<and> ru_starting r \<and> ru_state r = StateStarting \<and> ru_terminal (step r EvStartTimer)) \<or>
    (ru_current r = None \<and> \<not> ru_starting r \<and> ru_state r = StateStarting \<and>
       ru_starting (step r EvRetryTimer) \<and> ti_start (ru_timers (step r EvRetryTimer)) \<noteq> None) \<or>
    (ru_current r = None \<and> \<not> ru_starting r \<and> ru_state r = StateDormant \<and>
       (\<forall>k. \<not> mhas (dr_requests (ru_host r)) k))"
proof (cases "ru_current r")
  case (Some gen)
  then show ?thesis using inv nt by (auto simp: inv_defs)
next
  case None
  then have "owned (ru_host r) g" for g using inv nt by (auto simp: inv_defs)
  from owned_all_empty [OF this] have e: "\<not> mhas (dr_requests (ru_host r)) k" for k by (simp add: mhas_def)
  have l: "life_ok r" using inv nt by (simp add: run_inv_def live_inv_def)
  show ?thesis
  proof (cases "ru_starting r")
    case True
    then show ?thesis
      using None l nt by (auto simp: life_ok_def step_def whenArmed_def startTimedOut_def)
  next
    case False
    then show ?thesis
      using None l nt e
      by (auto simp: life_ok_def step_def whenArmed_def beginStart_def stopRetryTimer_def setState_def emit_def Let_def)
  qed
qed



section \<open>What a replacement tells the host\<close>

definition lostAnswer :: "requestRecord \<Rightarrow> bytes \<times> writeOutcome" where
  "lostAnswer req = (localErrorFrame (sv_raw (rr_id req)) codeInternal lostRequestMessage, writeDelivered)"

lemma writeHost_out:
  "writeHost run frame = (r, None) \<Longrightarrow> en_hostOut (ru_env r) = en_hostOut (ru_env run) @ [(frame, writeDelivered)]"
  by (auto simp: writeHost_def Let_def split: prod.splits if_splits)

lemma reportLost_out:
  "reportLost run reqs = (r, None) \<Longrightarrow> en_hostOut (ru_env r) = en_hostOut (ru_env run) @ map lostAnswer reqs"
  by (induction reqs arbitrary: run)
    (auto simp: lostAnswer_def split: prod.splits option.splits dest!: writeHost_out)

lemma finalizeCurrent_out:
  "finalizeCurrent run = (r, res) \<Longrightarrow> en_hostOut (ru_env r) = en_hostOut (ru_env run)"
  by (auto simp: finalizeCurrent_def finalizeWith_def Let_def split: option.splits prod.splits sum.splits if_splits)

lemma commitCancellations_host:
  "ru_host a = ru_host b \<Longrightarrow> ru_cfg a = ru_cfg b \<Longrightarrow>
     ru_host (fst (commitCancellations a g items)) = ru_host (fst (commitCancellations b g items))"
proof (induction items arbitrary: a b)
  case (Cons item items)
  have m: "modern a = modern b" using Cons.prems by (simp add: modern_def)
  have ih: "ru_host (fst (commitCancellations a g items)) = ru_host (fst (commitCancellations b g items))"
    by (rule Cons.IH) (use Cons.prems in auto)
  have "ru_host (fst (commitCancellations (finishModernRequest a req) g items)) =
      ru_host (fst (commitCancellations (finishModernRequest b req) g items))" for req
    by (rule Cons.IH) (use Cons.prems in \<open>auto simp: finishModernRequest_def\<close>)
  moreover have "ru_host (fst (commitCancellations (a\<lparr>ru_host := h\<rparr>) g items)) =
      ru_host (fst (commitCancellations (b\<lparr>ru_host := h\<rparr>) g items))" for h
    by (rule Cons.IH) (use Cons.prems in auto)
  ultimately show ?case
    using Cons.prems ih m by (auto split: option.split prod.split sum.split)
qed simp

lemma lost_complete:
  assumes "reg_inv h" and "owned h g" and "mget (dr_requests h) k = Some req" and "\<not> rr_initialize req"
  shows "req \<in> set (lostRequests h g)"
  using assms registry_keyed [OF assms(1,3)] ownedD(1) [OF assms(2,3)] generationRequests_set [OF assms(1)]
  by (auto simp: lostRequests_def)

lemma beginStart_out [simp]: "en_hostOut (ru_env (beginStart run)) = en_hostOut (ru_env run)"
  by (simp add: beginStart_def stopRetryTimer_def setState_def emit_def Let_def)

lemma beginStart_host [simp]: "ru_host (beginStart run) = ru_host run" "ru_pending (beginStart run) = ru_pending run"
  "ru_current (beginStart run) = ru_current run" "ru_init (beginStart run) = ru_init run"
  by (simp_all add: beginStart_def stopRetryTimer_def setState_def emit_def Let_def)

lemma replaceCurrent_report:
  assumes inv: "run_inv run" and nt: "\<not> ru_terminal run" and gen: "ru_current run = Some gen"
    and nt': "\<not> ru_terminal (replaceCurrent reason run)"
  obtains h where "tame (modern run) (ru_host run) h" "h = ru_host (fst (commitQuiescingCancellations run))"
    "en_hostOut (ru_env (replaceCurrent reason run)) =
       en_hostOut (ru_env run) @ map lostAnswer (lostRequests h (ge_id gen))"
    "ru_pending (replaceCurrent reason run) = discardSameGenerationOnly (ru_pending run)"
    "ru_current (replaceCurrent reason run) = None" "ru_starting (replaceCurrent reason run)"
    "ru_state (replaceCurrent reason run) = StateStarting"
    "\<And>g. owned (ru_host (replaceCurrent reason run)) g" "ru_init (replaceCurrent reason run) = ru_init run"
proof -
  obtain r3 res3 where c: "commitQuiescingCancellations (retiring reason run) = (r3, res3)" by fastforce
  then obtain h where h: "r3 = (retiring reason run)\<lparr>ru_host := h\<rparr>" and th: "tame (modern run) (ru_host run) h"
    using commitQuiescing_form [OF c] by (auto simp: modern_def)
  have hh: "h = ru_host (fst (commitQuiescingCancellations run))"
    using c gen h commitCancellations_host [of "retiring reason run" run "ge_id gen" "pq_items (ru_pending run)"]
    by (simp add: commitQuiescingCancellations_def)
  define r3' where "r3' = r3\<lparr>ru_pending := discardSameGenerationOnly (ru_pending r3)\<rparr>"
  have "core r3'" using inv th by (simp add: r3'_def h core_def run_inv_def tame_def)
  moreover have "owned (ru_host r3') (ge_id gen)" "owned (ru_child r3') (ge_id gen)"
    using inv nt gen th by (auto simp: r3'_def h inv_defs tame_def)
  moreover have "modern r3' \<longrightarrow> (\<forall>i. \<not> mhas (dr_tasks (ru_host r3')) i)"
    using inv nt th by (auto simp: r3'_def h inv_defs tame_def)
  moreover obtain r4 ok where r4: "retireCurrent r3' (ge_id gen) = (r4, ok)" by fastforce
  moreover have eq: "replaceCurrent reason run = (case res3 of Inl e \<Rightarrow> terminate ReasonProtocolFailure (Some e) r3
      | Inr _ \<Rightarrow> if ok then (if ru_terminal r4 then r4 else beginStart r4) else r4)"
    unfolding replaceCurrent_eq [OF nt gen] using c r4 by (auto simp: r3'_def split: sum.split bool.split)
  ultimately show thesis
  proof (cases rule: retireCurrent_cases)
    case failed
    then show thesis using eq nt' by (cases res3) auto
  next
    case (retired h' c' env lost lost' rq)
    have nt4: "\<not> ru_terminal r4" using nt by (simp add: retired(2) r3'_def h)
    have res: "replaceCurrent reason run = beginStart r4"
      using eq nt' retired(1) nt4 by (cases res3) auto
    have "lost = lostRequests h (ge_id gen)"
      using retired(6) by (auto simp: r3'_def h retireGenerationChecked_def split: sum.splits prod.splits)
    moreover have "en_hostOut (ru_env r3') = en_hostOut (ru_env run)"
      by (simp add: r3'_def h retiring_def setState_def emit_def Let_def stopDormantLeaseTimer_def
          stopChildExitDrainTimer_def stopDormantExitTimer_def stopReplayTimer_def)
    ultimately have "en_hostOut (ru_env r4) = en_hostOut (ru_env run) @ map lostAnswer (lostRequests h (ge_id gen))"
      using reportLost_out [OF retired(8)] finalizeCurrent_out [OF retired(9)] by simp
    moreover have "ru_starting (beginStart r4)" "ru_state (beginStart r4) = StateStarting"
      using nt4 retired(2) inv nt gen
      by (auto simp: beginStart_def stopRetryTimer_def setState_def emit_def Let_def r3'_def h inv_defs)
    moreover have "ru_pending r4 = discardSameGenerationOnly (ru_pending run)" "ru_current r4 = None" "ru_host r4 = h'"
      by (simp_all add: retired(2) r3'_def h)
    moreover have "ru_init r4 = ru_init run"
      by (simp add: retired(2) r3'_def h retiring_def setState_def emit_def Let_def stopDormantLeaseTimer_def
          stopChildExitDrainTimer_def stopDormantExitTimer_def stopReplayTimer_def)
    ultimately show thesis
      using that [OF th hh] retired(4) by (simp add: res)
  qed
qed

text \<open>
  C13: A child is never replaced silently. When the supervisor replaces a child and goes on, then the host
  has received, after everything sent before and in the order of the ids, exactly one error response
  for every request that the child was serving (requests that waiting cancellations had settled
  apart), nothing is live any more and a new start is under way.
\<close>
theorem replacement_answers_lost_requests:
  assumes "run_inv run" and "\<not> ru_terminal run" and "ru_current run = Some gen"
    and "\<not> ru_terminal (replaceCurrent reason run)"
  shows "let r = replaceCurrent reason run; h = ru_host (fst (commitQuiescingCancellations run));
      lost = lostRequests h (ge_id gen)
    in en_hostOut (ru_env r) = en_hostOut (ru_env run) @ map lostAnswer lost \<and>
       sorted (map rr_key lost) \<and> distinct (map rr_key lost) \<and>
       (\<forall>k req. mget (dr_requests h) k = Some req \<longrightarrow> \<not> rr_initialize req \<longrightarrow> req \<in> set lost) \<and>
       (\<forall>k. \<not> mhas (dr_requests (ru_host r)) k) \<and>
       ru_current r = None \<and> ru_starting r \<and> ru_state r = StateStarting"
proof -
  obtain h where h: "tame (modern run) (ru_host run) h" "h = ru_host (fst (commitQuiescingCancellations run))"
    "en_hostOut (ru_env (replaceCurrent reason run)) =
       en_hostOut (ru_env run) @ map lostAnswer (lostRequests h (ge_id gen))"
    "ru_current (replaceCurrent reason run) = None" "ru_starting (replaceCurrent reason run)"
    "ru_state (replaceCurrent reason run) = StateStarting" "\<And>g. owned (ru_host (replaceCurrent reason run)) g"
    using replaceCurrent_report [OF assms] by blast
  have inv: "reg_inv h" using h(1) run_invD(1) [OF assms(1)] by (simp add: tame_def)
  have own: "owned h (ge_id gen)" using h(1) assms(1-3) by (auto simp: tame_def inv_defs)
  show ?thesis
    using h(3-6) lostRequests_spec [OF inv, of "ge_id gen"] lost_complete [OF inv own] owned_all_empty [OF h(7)]
    unfolding h(2) [symmetric] Let_def by (auto simp: mhas_def)
qed

definition demo_generation :: generation where
  "demo_generation = \<lparr>ge_id = 1, ge_requested = \<lparr>er_ID = ''engine''\<rparr>, ge_actual = \<lparr>er_ID = ''engine''\<rparr>,
     ge_fallback = False, ge_admission = None, ge_exit = None, ge_outputEOF = False, ge_outputErr = None\<rparr>"

definition demo_record :: requestRecord where
  "demo_record = \<lparr>rr_id = \<lparr>sv_key = SKey scalarNumber ''7e0'', sv_raw = ''7''\<rparr>, rr_method = ''ping'', rr_initialize = False,
     rr_generation = 1, rr_progressToken = None, rr_taskAugmented = False, rr_taskID = []\<rparr>"

text \<open>A supervisor whose child is serving one request.\<close>

definition demo_serving :: runner where
  "demo_serving = setState StateActive ReasonInitial
     ((newRunner modern_config demo_env)
        \<lparr>ru_generation := 1, ru_current := Some demo_generation, ru_host := putRecord newDirectionRegistry demo_record\<rparr>)"

lemma modern_config_limits:
  "cf_PendingFrameLimit modern_config = 256" "cf_PendingByteLimit modern_config = 8388608"
  by code_simp+

lemma demo_serving_inv: "run_inv demo_serving"
proof -
  have "reg_inv (putRecord newDirectionRegistry demo_record)"
    by (rule putRecord_inv [OF reg_inv_new])
      (simp_all add: newDirectionRegistry_def activeCorrelationLimit_def retainedCorrelationLimit_def mlen_def)
  moreover have "owned newDirectionRegistry g" for g
    by (simp add: owned_def newDirectionRegistry_def mget_def)
  moreover have "owned (putRecord newDirectionRegistry demo_record) 1"
    by (rule owned_putRecord [OF calculation(2)]) (simp add: demo_record_def)
  moreover have "queue_inv 256 8388608 emptyQueue" by (simp add: queue_inv_def emptyQueue_def)
  moreover have "dr_tasks newDirectionRegistry = []" "dr_retiredRequests newDirectionRegistry = []"
    "dr_tasks (putRecord newDirectionRegistry demo_record) = []"
    "dr_retiredRequests (putRecord newDirectionRegistry demo_record) = []"
    by (simp_all add: putRecord_def newDirectionRegistry_def)
  ultimately show ?thesis
    unfolding demo_serving_def
    by (intro attached_state [where gen = demo_generation])
      (auto simp: attached_def core_def modern_ok_def newRunner_def modern_config_limits demo_generation_def reg_inv_new)
qed

lemma demo_retires:
  obtains h c where
    "retireGenerationChecked (putRecord newDirectionRegistry demo_record) 1 = (h, Inr [demo_record])"
    "retireGenerationChecked newDirectionRegistry 1 = (c, Inr [])"
proof -
  have "snd (retireGenerationChecked (putRecord newDirectionRegistry demo_record) 1) = Inr [demo_record]"
    "snd (retireGenerationChecked newDirectionRegistry 1) = Inr []" by code_simp+
  then show thesis using that by (metis prod.collapse)
qed

lemma demo_serving_state:
  "\<not> ru_terminal demo_serving" "en_hostOut (ru_env demo_serving) = []" "en_hostWrites (ru_env demo_serving) = []"
  "en_finalizes (ru_env demo_serving) = []" "pq_items (ru_pending demo_serving) = []"
  "ru_current demo_serving = Some demo_generation" "ru_host demo_serving = putRecord newDirectionRegistry demo_record"
  "ru_child demo_serving = newDirectionRegistry"
  by (simp_all add: demo_serving_def setState_def emit_def Let_def newRunner_def demo_env_def emptyQueue_def)

lemma full_write [simp]: "writeFrame frame (fullWrite frame) = (writeDelivered, None)"
  by (simp add: writeFrame_def fullWrite_def)

lemma retiring_env [simp]:
  "en_hostWrites (ru_env (retiring reason run)) = en_hostWrites (ru_env run)"
  "en_finalizes (ru_env (retiring reason run)) = en_finalizes (ru_env run)"
  by (simp_all add: retiring_def setState_def emit_def Let_def stopDormantLeaseTimer_def stopChildExitDrainTimer_def
      stopDormantExitTimer_def stopReplayTimer_def)

lemma demo_replaced: "\<not> ru_terminal (replaceCurrent ReasonCrash demo_serving)"
proof -
  obtain h c where hc:
    "retireGenerationChecked (putRecord newDirectionRegistry demo_record) (Suc 0) = (h, Inr [demo_record])"
    "retireGenerationChecked newDirectionRegistry (Suc 0) = (c, Inr [])"
    using demo_retires by (metis One_nat_def)
  show ?thesis
    by (simp add: replaceCurrent_eq [OF demo_serving_state(1,6)] commitQuiescingCancellations_def demo_serving_state hc
        demo_generation_def retireCurrent_def writeHost_def nextAnswer_def  finalizeCurrent_def
        finalizeWith_def finalize_success_def exitProof_def afterStop_def joinPump_def joinReaper_def beginStart_def
        stopRetryTimer_def setState_def emit_def Let_def)
qed

theorem replacement_answers_lost_requests_witness:
  "en_hostOut (ru_env (replaceCurrent ReasonCrash demo_serving)) = [lostAnswer demo_record]"
proof -
  have "snd (retireGenerationChecked (putRecord newDirectionRegistry demo_record) 1) =
      Inr (lostRequests (putRecord newDirectionRegistry demo_record) 1)"
    by code_simp
  then have "lostRequests (putRecord newDirectionRegistry demo_record) 1 = [demo_record]"
    using demo_retires by (metis Inr_inject snd_conv)
  moreover have "ge_id demo_generation = 1" by (simp add: demo_generation_def)
  ultimately show ?thesis
    using replacement_answers_lost_requests [OF demo_serving_inv demo_serving_state(1,6) demo_replaced]
    by (simp add: Let_def commitQuiescingCancellations_def demo_serving_state)
qed

end
