(* ===== verification/Fallback.thy ===== *)
theory Fallback
  imports Runner_Safety
begin

text \<open>
  Starting an engine with a fallback (\<open>src/muxcore/supervisor/fallback.go\<close>), and what the supervisor
  does with the outcome. The product's start function and the state of the context are arguments:
  \<open>start\<close> threads a state of its own, \<open>ctxErr\<close> reads from that state whether the context is done.
\<close>

type_synonym 's StartFunc = "'s \<Rightarrow> EngineRef \<Rightarrow> 's \<times> StartResult \<times> start_error option"

definition noStart :: StartResult where
  "noStart = \<lparr>sr_Child = None, sr_Actual = \<lparr>er_ID = []\<rparr>, sr_Fallback = False, sr_Admission = None,
     sr_stopErr = None, sr_wait = WaitNil, sr_closeErr = None\<rparr>"

definition errNilFallbackStarter :: bytes where
  "errNilFallbackStarter = ''supervisor: nil fallback starter''"

definition errNoDistinctFallback :: bytes where
  "errNoDistinctFallback = ''supervisor: requested child start failed and no distinct fallback is available''"

definition errFallbackStart :: bytes where
  "errFallbackStart = ''supervisor: requested child and fallback start failed''"

definition errRetainedStart :: bytes where
  "errRetainedStart = ''supervisor: child start failed with retained authority''"

definition rollbackUnprovenText :: bytes where
  "rollbackUnprovenText = ''supervisor: failed start rollback unproven''"

definition rollbackUnproven :: "start_error \<Rightarrow> bool" where
  "rollbackUnproven err \<longleftrightarrow> (case err of ErrStartRollbackUnproven _ \<Rightarrow> True | ErrStart _ \<Rightarrow> False)"

text \<open>\<open>errors.Join\<close> of a classified error with more text: the classification stays.\<close>

definition addErrorText :: "start_error \<Rightarrow> bytes \<Rightarrow> start_error" where
  "addErrorText err text =
     (case err of
        ErrStartRollbackUnproven t \<Rightarrow> ErrStartRollbackUnproven (joinWith [CHR 0x0A] [t, text])
      | ErrStart t \<Rightarrow> ErrStart (joinWith [CHR 0x0A] [t, text]))"

definition retainFailedStart :: "StartResult \<Rightarrow> start_error \<Rightarrow> (StartResult \<times> start_error) option" where
  "retainFailedStart result err =
     (if rollbackUnproven err
      then Some (result, ErrStartRollbackUnproven (joinWith [CHR 0x0A] [errRetainedStart, rollbackUnprovenText]))
      else if startResultHasAuthority result then Some (result, ErrStart errRetainedStart)
      else None)"

text \<open>
  What one failed attempt leads to: \<open>Some\<close> when \<open>StartWithFallback\<close> returns it, \<open>None\<close> when the
  attempt failed cleanly and the context still lives.
\<close>

definition failedAttempt :: "bytes option \<Rightarrow> StartResult \<Rightarrow> start_error \<Rightarrow> (StartResult \<times> start_error) option" where
  "failedAttempt ctxErr result err =
     (case retainFailedStart result err of
        Some (retained, retainedErr) \<Rightarrow>
          Some (retained, case ctxErr of None \<Rightarrow> retainedErr | Some e \<Rightarrow> addErrorText retainedErr e)
      | None \<Rightarrow> (case ctxErr of Some e \<Rightarrow> Some (noStart, ErrStart e) | None \<Rightarrow> None))"

definition StartWithFallback ::
    "('s \<Rightarrow> bytes option) \<Rightarrow> EngineRef \<Rightarrow> EngineRef \<Rightarrow> 's StartFunc option \<Rightarrow> 's \<Rightarrow>
      's \<times> StartResult \<times> start_error option" where
  "StartWithFallback ctxErr requested fallback startFn s =
     (case startFn of
        None \<Rightarrow> (s, noStart, Some (ErrStart errNilFallbackStarter))
      | Some start \<Rightarrow>
          (case start s requested of
             (s1, result1, None) \<Rightarrow> (s1, result1\<lparr>sr_Fallback := False\<rparr>, None)
           | (s1, result1, Some err1) \<Rightarrow>
               (case failedAttempt (ctxErr s1) (result1\<lparr>sr_Fallback := False\<rparr>) err1 of
                  Some (result, err) \<Rightarrow> (s1, result, Some err)
                | None \<Rightarrow>
                    (if requested = fallback then (s1, noStart, Some (ErrStart errNoDistinctFallback))
                     else case start s1 fallback of
                         (s2, result2, None) \<Rightarrow> (s2, result2\<lparr>sr_Fallback := True\<rparr>, None)
                       | (s2, result2, Some err2) \<Rightarrow>
                           (case failedAttempt (ctxErr s2) (result2\<lparr>sr_Fallback := True\<rparr>) err2 of
                              Some (result, err) \<Rightarrow> (s2, result, Some err)
                            | None \<Rightarrow> (s2, noStart, Some (ErrStart errFallbackStart)))))))"

section \<open>No authority is dropped\<close>

text \<open>A failed attempt may still own a process: it returned authority, or its rollback is unproven.\<close>

definition retains :: "StartResult \<Rightarrow> start_error option \<Rightarrow> bool" where
  "retains result err \<longleftrightarrow>
     (case err of None \<Rightarrow> False | Some e \<Rightarrow> rollbackUnproven e \<or> startResultHasAuthority result)"

lemma authority_simps [simp]:
  "startResultHasAuthority (result\<lparr>sr_Fallback := b\<rparr>) = startResultHasAuthority result"
  "\<not> startResultHasAuthority noStart"
  by (simp_all add: startResultHasAuthority_def noStart_def)

lemma rollbackUnproven_simps [simp]:
  "rollbackUnproven (ErrStartRollbackUnproven t)" "\<not> rollbackUnproven (ErrStart t)"
  "rollbackUnproven (addErrorText err text) = rollbackUnproven err"
  by (simp_all add: rollbackUnproven_def addErrorText_def split: start_error.split)

lemma failedAttempt_cases:
  obtains (retained) err' where "retains result (Some err)" "failedAttempt c result err = Some (result, err')"
      "rollbackUnproven err' = rollbackUnproven err"
  | (cancelled) e where "\<not> retains result (Some err)" "c = Some e" "failedAttempt c result err = Some (noStart, ErrStart e)"
  | (clean) "\<not> retains result (Some err)" "c = None" "failedAttempt c result err = None"
proof (cases "retains result (Some err)")
  case True
  then obtain e' where "retainFailedStart result err = Some (result, e')" "rollbackUnproven e' = rollbackUnproven err"
    by (cases "rollbackUnproven err") (auto simp: retains_def retainFailedStart_def)
  then show thesis using retained True by (cases c) (auto simp: failedAttempt_def)
next
  case False
  then have "retainFailedStart result err = None" by (auto simp: retains_def retainFailedStart_def)
  then show thesis using clean cancelled False by (cases c) (auto simp: failedAttempt_def)
qed

lemma retains_simps [simp]:
  "retains (result\<lparr>sr_Fallback := b\<rparr>) err = retains result err" "\<not> retains result None"
  "\<not> retains noStart (Some (ErrStart t))"
  by (simp_all add: retains_def split: option.split)

text \<open>
  C19: Starting with a fallback never drops authority over a process. The fallback is started only
  after the requested engine failed without leaving anything behind; an attempt that succeeded or
  that left something behind is the outcome of the call, unchanged but for its fallback mark, with
  the rollback classification of its error; when the outcome leaves nothing behind, then neither did
  any attempt.
\<close>
theorem start_with_fallback_keeps_authority:
  assumes "start s requested = (s1, result1, err1)" and "start s1 fallback = (s2, result2, err2)"
    and "StartWithFallback ctxErr requested fallback (Some start) s = (s', result, err)"
  shows "(err1 = None \<or> retains result1 err1 \<longrightarrow>
        s' = s1 \<and> result = result1\<lparr>sr_Fallback := False\<rparr> \<and>
        map_option rollbackUnproven err = map_option rollbackUnproven err1) \<and>
     (\<not> (err1 = None \<or> retains result1 err1) \<longrightarrow>
        (ctxErr s1 \<noteq> None \<or> requested = fallback \<longrightarrow> s' = s1 \<and> result = noStart \<and> err \<noteq> None) \<and>
        (ctxErr s1 = None \<and> requested \<noteq> fallback \<longrightarrow>
           s' = s2 \<and> (err2 = None \<longleftrightarrow> err = None) \<and> (retains result2 err2 \<longleftrightarrow> retains result err) \<and>
           (err2 = None \<or> retains result2 err2 \<longrightarrow>
              result = result2\<lparr>sr_Fallback := True\<rparr> \<and>
              map_option rollbackUnproven err = map_option rollbackUnproven err2)))"
proof (cases err1)
  case None
  then show ?thesis using assms by (auto simp: StartWithFallback_def)
next
  case (Some e1)
  show ?thesis
  proof (cases rule: failedAttempt_cases [of "result1\<lparr>sr_Fallback := False\<rparr>" e1 "ctxErr s1"])
    case clean
    show ?thesis
    proof (cases "requested = fallback \<or> err2 = None")
      case True
      then show ?thesis using assms clean Some by (auto simp: StartWithFallback_def)
    next
      case False
      then obtain e2 where "err2 = Some e2" "requested \<noteq> fallback" by blast
      then show ?thesis
        using assms clean Some
        by (cases rule: failedAttempt_cases [of "result2\<lparr>sr_Fallback := True\<rparr>" e2 "ctxErr s2"])
          (auto simp: StartWithFallback_def retains_def)
    qed
  qed (use assms Some in \<open>auto simp: StartWithFallback_def\<close>)
qed

text \<open>A start function that counts its calls: the requested engine fails, the fallback starts.\<close>

definition demo_start_fn :: "nat StartFunc" where
  "demo_start_fn s ref =
     (if er_ID ref = ''stable'' then (s + 1, noStart\<lparr>sr_Child := Some True, sr_Actual := ref\<rparr>, None)
      else (s + 1, noStart, Some (ErrStart ''no such engine'')))"

theorem start_with_fallback_keeps_authority_witness:
  "StartWithFallback (\<lambda>_. None) \<lparr>er_ID = ''new''\<rparr> \<lparr>er_ID = ''stable''\<rparr> (Some demo_start_fn) 0 =
     (2, noStart\<lparr>sr_Child := Some True, sr_Actual := \<lparr>er_ID = ''stable''\<rparr>, sr_Fallback := True\<rparr>, None)"
proof -
  obtain s' result err where r:
    "StartWithFallback (\<lambda>_. None) \<lparr>er_ID = ''new''\<rparr> \<lparr>er_ID = ''stable''\<rparr> (Some demo_start_fn) 0 = (s', result, err)"
    by (metis prod_cases3)
  show ?thesis
    using start_with_fallback_keeps_authority [OF _ _ r, of 1 noStart "Some (ErrStart ''no such engine'')" 2] r
    by (simp add: demo_start_fn_def)
qed

section \<open>What the supervisor does with a failed start\<close>

definition unproven :: "wait_answer \<Rightarrow> bool" where
  "unproven w \<longleftrightarrow>
     (case w of
        WaitExit exit \<Rightarrow> (case ex_Err exit of Some (ErrProcessTreeUnproven _) \<Rightarrow> True | _ \<Rightarrow> False)
      | _ \<Rightarrow> True)"

lemma cleanupWait_none: "cleanupWait w = None \<longleftrightarrow> \<not> unproven w"
  by (auto simp: cleanupWait_def unproven_def split: wait_answer.split option.split exit_error.split)

lemma joinErrors_none: "joinErrors es = None \<longleftrightarrow> set es \<subseteq> {None}"
  by (auto simp: joinErrors_def filter_empty_conv)

lemma cleanup_none:
  "cleanupInvalidStart result = None \<longleftrightarrow>
     (sr_Child result \<noteq> None \<longrightarrow> \<not> unproven (sr_wait result) \<and> sr_stopErr result = None) \<and>
     (sr_Admission result \<noteq> None \<longrightarrow> sr_closeErr result = None)"
  by (auto simp: cleanupInvalidStart_def joinErrors_none cleanupWait_none)

lemma scheduleRetry_effect:
  assumes "\<not> ru_terminal run" and "ru_current run = None"
  shows "\<not> ru_terminal (scheduleRetry run)" "ru_current (scheduleRetry run) = None"
    "ru_starting (scheduleRetry run) = ru_starting run" "ti_retry (ru_timers (scheduleRetry run)) \<noteq> None"
  using assms by (auto simp: scheduleRetry_def setState_def emit_def Let_def)

lemma terminate_effect:
  assumes "\<not> ru_terminal run"
  shows "ru_terminal (terminate reason e run)" "ru_terminalReason (terminate reason e run) = reason"
    "ru_terminalErr (terminate reason e run) = e" "ru_current (terminate reason e run) = ru_current run"
    "ru_starting (terminate reason e run) = ru_starting run"
  using assms by (simp_all add: terminate_def)

text \<open>
  C35: After a failed start the supervisor either retries or terminates. It retries, with the retry
  timer armed and no child attached, exactly when everything the attempt left behind has been proven
  to be gone: the child has delivered its exit within the stop timeout without a doubt about its
  process tree, the admission could be closed, and an unproven rollback came with a child to prove it.
\<close>
theorem failed_start_retries_only_when_retired:
  assumes "\<not> ru_terminal run" and "ru_starting run" and "ru_current run = None"
    and "se_attempt event = ru_startID run" and "se_err event = Some err"
  shows "let r = handleStartAttempt run event; result = se_result event
    in \<not> ru_starting r \<and> ru_current r = None \<and> (\<not> ru_terminal r \<longrightarrow> ti_retry (ru_timers r) \<noteq> None) \<and>
       (ru_terminal r \<longleftrightarrow>
          sr_Child result \<noteq> None \<and> (sr_stopErr result \<noteq> None \<or> unproven (sr_wait result)) \<or>
          sr_Admission result \<noteq> None \<and> sr_closeErr result \<noteq> None \<or>
          rollbackUnproven err \<and> sr_Child result = None) \<and>
       (ru_terminal r \<longrightarrow> ru_terminalReason r = ReasonProtocolFailure \<and> ru_terminalErr r \<noteq> None)"
proof -
  define r1 where "r1 = (stopStartTimer run)\<lparr>ru_startCancel := False, ru_starting := False\<rparr>"
  have r1: "\<not> ru_terminal r1" "ru_current r1 = None" "\<not> ru_starting r1"
    using assms(1,3) by (simp_all add: r1_def stopStartTimer_def)
  have h: "handleStartAttempt run event = failStartAttempt r1 (se_result event) err"
    using assms by (simp add: handleStartAttempt_def r1_def Let_def)
  define c where "c = (if startResultHasAuthority (se_result event) then cleanupInvalidStart (se_result event) else None)"
  have c: "c = None \<longleftrightarrow> cleanupInvalidStart (se_result event) = None"
    by (auto simp: c_def cleanup_none startResultHasAuthority_def)
  show ?thesis
  proof (cases c)
    case None
    then show ?thesis
      unfolding h Let_def failStartAttempt_def c_def [symmetric] using c r1 scheduleRetry_effect [OF r1(1,2)]
      by (auto simp: cleanup_none terminate_effect rollbackUnproven_def split: start_error.split)
  next
    case (Some e)
    then show ?thesis
      unfolding h Let_def failStartAttempt_def c_def [symmetric] using c r1
      by (auto simp: cleanup_none terminate_effect joinErrors_none)
  qed
qed

theorem failed_start_retries_only_when_retired_witness:
  "let r = handleStartAttempt (startRun modern_config demo_env)
         (demo_start\<lparr>se_result := noStart, se_err := Some (ErrStart ''no such engine'')\<rparr>)
   in \<not> ru_terminal r \<and> ti_retry (ru_timers r) \<noteq> None"
proof -
  have run: "\<not> ru_terminal (startRun modern_config demo_env)" "ru_starting (startRun modern_config demo_env)"
    "ru_current (startRun modern_config demo_env) = None" "ru_startID (startRun modern_config demo_env) = 1"
    by (simp_all add: startRun_def beginStart_def newRunner_def stopRetryTimer_def setState_def emit_def Let_def)
  show ?thesis
    using failed_start_retries_only_when_retired
        [OF run(1-3), of "demo_start\<lparr>se_result := noStart, se_err := Some (ErrStart ''no such engine'')\<rparr>"
          "ErrStart ''no such engine''"] run(4)
    by (simp add: Let_def demo_start_def noStart_def)
qed

end
