(* ===== verification/Runner_Requests.thy ===== *)
theory Runner_Requests
  imports Runner_Safety
begin

text \<open>
  What becomes of a request of the host. The supervisor may forward it, keep it, or refuse it, a
  write to the child may fail half way, and the child may have to be replaced on the spot; the
  theorem at the end says that in every case the host still gets an answer or can expect one.
\<close>

section \<open>The fate of a request\<close>

text \<open>An error answer with the id of the request was delivered to the host since \<open>run\<close>.\<close>

definition refused :: "runner \<Rightarrow> runner \<Rightarrow> scalarValue \<Rightarrow> bool" where
  "refused run r i \<longleftrightarrow>
     (\<exists>out code message. en_hostOut (ru_env r) = en_hostOut (ru_env run) @ out \<and>
        (localErrorFrame (sv_raw i) code message, writeDelivered) \<in> set out)"

text \<open>The answer to the request is still to come: it is live, it waits, or it is the initialize exchange.\<close>

definition awaited :: "runner \<Rightarrow> scalarValue \<Rightarrow> bool" where
  "awaited r i \<longleftrightarrow>
     mhas (dr_requests (ru_host r)) (sv_key i) \<or> containsRequest (ru_pending r) (sv_key i) \<or>
     in_awaiting (ru_init r) \<and> map_option sv_key (in_id (ru_init r)) = Some (sv_key i)"

text \<open>The host has cancelled the id, and the cancellation waits for the child's decision to sleep.\<close>

definition cancels :: "scalarKey \<Rightarrow> pendingFrame \<Rightarrow> bool" where
  "cancels k item \<longleftrightarrow> pf_sameGenerationOnly item \<and> map_option sv_key (fr_cancellation (pf_frame item)) = Some k"

definition withdrawn :: "runner \<Rightarrow> scalarValue \<Rightarrow> bool" where
  "withdrawn run i \<longleftrightarrow> list_ex (cancels (sv_key i)) (pq_items (ru_pending run))"

definition accounted :: "runner \<Rightarrow> runner \<Rightarrow> scalarValue \<Rightarrow> bool" where
  "accounted run r i \<longleftrightarrow> ru_terminal r \<or> refused run r i \<or> awaited r i \<or> withdrawn run i"

lemma refused_env: "ru_env a = ru_env run \<Longrightarrow> refused a r i = refused run r i"
  by (simp add: refused_def)

lemma rejectHostRequest_refuses:
  assumes "fr_id frame = Some i"
  shows "ru_terminal (rejectHostRequest run frame code message) \<or> refused run (rejectHostRequest run frame code message) i"
proof -
  obtain r e where w: "writeHost run (localErrorFrame (sv_raw i) code message) = (r, e)" by fastforce
  show ?thesis
    using assms w writeHost_out [of run "localErrorFrame (sv_raw i) code message" r]
    by (cases e) (auto simp: rejectHostRequest_def writeHostOrTerminate_def refused_def)
qed

lemma rejectHostRequest_accounted:
  "fr_id frame = Some i \<Longrightarrow> accounted run (rejectHostRequest run frame code message) i"
  using rejectHostRequest_refuses [of frame i run code message] by (auto simp: accounted_def)

lemma admit_id: "admitHost run frame0 = (frame, e) \<Longrightarrow>
    fr_id frame = fr_id frame0 \<and> fr_kind frame = fr_kind frame0 \<and> fr_method frame = fr_method frame0"
  by (auto simp: admitHost_def validateHostRequest_def keepSupportedTask_def Let_def split: if_splits)

lemma enqueue_contains:
  "enqueue q item mf mb = (q', True) \<Longrightarrow> requestWithKey k item \<Longrightarrow> containsRequest q' k"
  by (auto simp: enqueue_def containsRequest_def split: if_splits)

lemma pushFront_contains:
  "pushFrontBounded q item mf mb = (q', True) \<Longrightarrow> pq_items q' = item # pq_items q"
  by (auto simp: pushFrontBounded_def split: if_splits)

lemma enqueueHost_accounted:
  assumes "fr_id (pf_frame item) = Some i" and "fr_kind (pf_frame item) = frameRequest"
  shows "accounted run (enqueueHost run item b) i"
proof -
  obtain frame e where a: "admitHost run (pf_frame item) = (frame, e)" by fastforce
  note f = admit_id [OF a] assms
  obtain q ok where q: "enqueue (ru_pending run) (item\<lparr>pf_frame := frame, pf_sameGenerationOnly := b\<rparr>)
      (cf_PendingFrameLimit (ru_cfg run)) (cf_PendingByteLimit (ru_cfg run)) = (q, ok)" by fastforce
  have k: "requestWithKey (sv_key i) (item\<lparr>pf_frame := frame, pf_sameGenerationOnly := b\<rparr>)"
    using f by (simp add: requestWithKey_def)
  have "awaited (run\<lparr>ru_pending := q\<rparr>) i" "awaited (beginStart (run\<lparr>ru_pending := q\<rparr>)) i"
    "awaited (beginStart (stopDormantLeaseTimer (run\<lparr>ru_pending := q\<rparr>))) i" if ok
    using enqueue_contains [OF _ k] q that by (auto simp: awaited_def stopDormantLeaseTimer_def)
  then show ?thesis
    using f rejectHostRequest_accounted [of frame i run]
    by (cases e; cases ok) (auto simp: enqueueHost_def a q Let_def accounted_def)
qed

section \<open>Replacing the child on the spot\<close>

lemma commitCancellations_keeps:
  "reg_inv (ru_host run) \<Longrightarrow> \<not> list_ex (cancels k) items \<Longrightarrow>
     mget (dr_requests (ru_host (fst (commitCancellations run g items)))) k = mget (dr_requests (ru_host run)) k"
proof (induction items arbitrary: run)
  case (Cons item items)
  have rest: "mget (dr_requests (ru_host (fst (commitCancellations run g items)))) k = mget (dr_requests (ru_host run)) k"
    using Cons by simp
  show ?case
  proof (cases "\<exists>target req. pf_sameGenerationOnly item \<and> fr_cancellation (pf_frame item) = Some target \<and>
      mget (dr_requests (ru_host run)) (sv_key target) = Some req")
    case False
    then show ?thesis using rest by (auto split: option.split)
  next
    case True
    then obtain target req where t: "pf_sameGenerationOnly item" "fr_cancellation (pf_frame item) = Some target"
      "mget (dr_requests (ru_host run)) (sv_key target) = Some req" by blast
    have "sv_key target \<noteq> k" using Cons.prems(2) t by (auto simp: cancels_def)
    moreover have "rr_key req = sv_key target"
      using Cons.prems(1) t(3) by (simp add: reg_inv_def requests_inv_def)
    ultimately have d: "mget (mdel (dr_requests (ru_host run)) (rr_key req)) k = mget (dr_requests (ru_host run)) k"
      by (simp add: gomap_simps)
    have fin: "mget (dr_requests (ru_host (fst (commitCancellations (finishModernRequest run req) g items)))) k =
        mget (dr_requests (ru_host run)) k"
      using Cons.IH [of "finishModernRequest run req"] Cons.prems d tame_finish [of False run req]
      by (simp add: tame_def) (simp add: finishModernRequest_def)
    have can: "mget (dr_requests (ru_host (fst (commitCancellations (run\<lparr>ru_host := h\<rparr>) g items)))) k =
        mget (dr_requests (ru_host run)) k \<and> mget (dr_requests h) k = mget (dr_requests (ru_host run)) k"
      if "cancel (ru_host run) req = (h, res)" for h res
    proof -
      have "reg_inv h" using tame_cancel [OF _ that, of False] Cons.prems(1) by (simp add: tame_def)
      moreover have "mget (dr_requests h) k = mget (dr_requests (ru_host run)) k"
        using that d by (auto simp: cancel_def dest: fenceRequest_live(1) split: prod.splits sum.splits)
      ultimately show ?thesis using Cons.IH [of "run\<lparr>ru_host := h\<rparr>"] Cons.prems(2) by simp
    qed
    show ?thesis
      using t rest fin can by (auto split: prod.split sum.split)
  qed
qed simp

lemma replaceCurrent_accounts_live:
  assumes inv: "run_inv run" and nt: "\<not> ru_terminal run" and gen: "ru_current run = Some gen"
    and live: "mget (dr_requests (ru_host run)) (sv_key i) = Some req" "rr_id req = i" "\<not> rr_initialize req"
  shows "accounted run (replaceCurrent reason run) i"
proof (cases "ru_terminal (replaceCurrent reason run) \<or> withdrawn run i")
  case False
  then have nt': "\<not> ru_terminal (replaceCurrent reason run)" and w: "\<not> withdrawn run i" by auto
  obtain h where h: "tame (modern run) (ru_host run) h" "h = ru_host (fst (commitQuiescingCancellations run))"
    "en_hostOut (ru_env (replaceCurrent reason run)) = en_hostOut (ru_env run) @ map lostAnswer (lostRequests h (ge_id gen))"
    using replaceCurrent_report [OF inv nt gen nt'] by blast
  have "mget (dr_requests h) (sv_key i) = Some req"
    using commitCancellations_keeps [of run "sv_key i" "pq_items (ru_pending run)" "ge_id gen"] w live(1) run_invD(1) [OF inv]
    by (simp add: h(2) commitQuiescingCancellations_def gen withdrawn_def)
  moreover have "reg_inv h" using h(1) run_invD(1) [OF inv] by (simp add: tame_def)
  moreover have "owned h (ge_id gen)" using h(1) inv nt gen by (auto simp: tame_def inv_defs)
  ultimately have "req \<in> set (lostRequests h (ge_id gen))" using lost_complete live(3) by blast
  then have "lostAnswer req \<in> set (map lostAnswer (lostRequests h (ge_id gen)))" by simp
  then show ?thesis
    using h(3) live(2) unfolding accounted_def refused_def lostAnswer_def by blast
qed (auto simp: accounted_def)

lemma replaceCurrent_accounts_pending:
  assumes inv: "run_inv run" and nt: "\<not> ru_terminal run" and gen: "ru_current run = Some gen"
    and item: "item \<in> set (pq_items (ru_pending run))" "requestWithKey (sv_key i) item" "\<not> pf_sameGenerationOnly item"
  shows "ru_terminal (replaceCurrent reason run) \<or> awaited (replaceCurrent reason run) i"
proof (cases "ru_terminal (replaceCurrent reason run)")
  case False
  have "ru_pending (replaceCurrent reason run) = discardSameGenerationOnly (ru_pending run)"
    using replaceCurrent_report [OF inv nt gen False] by blast
  then show ?thesis
    using item by (auto simp: awaited_def containsRequest_def discardSameGenerationOnly_def discardLoop_eq list_ex_iff)
qed simp

lemma replaceCurrent_keeps_refusal:
  assumes inv: "run_inv run" and nt: "\<not> ru_terminal run" and gen: "ru_current run = Some gen" and r: "refused run0 run i"
  shows "ru_terminal (replaceCurrent reason run) \<or> refused run0 (replaceCurrent reason run) i"
proof (cases "ru_terminal (replaceCurrent reason run)")
  case False
  obtain more where "en_hostOut (ru_env (replaceCurrent reason run)) = en_hostOut (ru_env run) @ more"
    using replaceCurrent_report [OF inv nt gen False] by blast
  moreover from r obtain out code message where "en_hostOut (ru_env run) = en_hostOut (ru_env run0) @ out"
    "(localErrorFrame (sv_raw i) code message, writeDelivered) \<in> set out"
    by (auto simp: refused_def)
  ultimately show ?thesis unfolding refused_def by (metis Un_iff append.assoc set_append)
qed simp

section \<open>Delivery\<close>

lemma registerHost_records:
  assumes "fr_id frame = Some i" and "modern run \<or> fr_method frame \<noteq> ''initialize''"
  obtains req where "mget (dr_requests (ru_host (registerHost run frame g))) (sv_key i) = Some req"
    "rr_id req = i" "\<not> rr_initialize req"
  using assms
  by (cases "modern run")
    (auto simp: registerHost_def register_def putRecord_def recordOf_def rr_key_def gomap_simps)

lemma registerHost_same [simp]:
  "ru_terminal (registerHost run frame g) = ru_terminal run" "ru_current (registerHost run frame g) = ru_current run"
  "ru_pending (registerHost run frame g) = ru_pending run" "ru_env (registerHost run frame g) = ru_env run"
  by (auto simp: registerHost_def split: option.split prod.split)

lemma rejectHostRequest_same [simp]:
  "ru_current (rejectHostRequest run frame code message) = ru_current run"
proof (cases "fr_id frame")
  case (Some i)
  obtain r ok where w: "writeHostOrTerminate run (localErrorFrame (sv_raw i) code message) = (r, ok)" by fastforce
  then show ?thesis
    by (cases rule: writeHostOrTerminate_cases) (auto simp: rejectHostRequest_def Some w terminate_def)
qed (simp add: rejectHostRequest_def)

text \<open>A request that could not be written waits at the front of the queue, or is refused.\<close>

lemma retain_then_replace:
  assumes inv: "run_inv run" and nt: "\<not> ru_terminal run" and gen: "ru_current run = Some gen"
    and item: "fr_id (pf_frame item) = Some i" "fr_kind (pf_frame item) = frameRequest" "\<not> pf_sameGenerationOnly item"
  shows "accounted run (replaceCurrent reason (retainAfterNotWritten run item)) i"
proof -
  define r where "r = retainAfterNotWritten run item"
  obtain q ok where q: "pushFrontBounded (ru_pending run) item
      (cf_PendingFrameLimit (ru_cfg run)) (cf_PendingByteLimit (ru_cfg run)) = (q, ok)" by fastforce
  have ri: "run_inv r" unfolding r_def by (rule retainAfterNotWritten_inv [OF inv])
  have rg: "ru_current r = Some gen"
    using gen q by (cases ok) (auto simp: r_def retainAfterNotWritten_def Let_def item)
  show ?thesis
  proof (cases "ru_terminal r")
    case True
    then show ?thesis by (simp add: r_def [symmetric] accounted_def replaceCurrent_def)
  next
    case False
    show ?thesis
    proof (cases ok)
      case True
      then have "item \<in> set (pq_items (ru_pending r))" using q item(2) pushFront_contains
        by (auto simp: r_def retainAfterNotWritten_def Let_def)
      moreover have "requestWithKey (sv_key i) item" using item by (simp add: requestWithKey_def)
      ultimately show ?thesis
        using replaceCurrent_accounts_pending [OF ri False rg _ _ item(3)] by (auto simp: r_def accounted_def)
    next
      case full: False
      then have "r = rejectHostRequest run (pf_frame item) codePendingFull ''supervisor pending queue is full''"
        using q item(2) by (auto simp: r_def retainAfterNotWritten_def Let_def)
      then have "refused run r i" using rejectHostRequest_refuses [OF item(1), of run] False by metis
      from replaceCurrent_keeps_refusal [OF ri False rg this] show ?thesis by (auto simp: r_def accounted_def)
    qed
  qed
qed

lemma accounted_from:
  assumes "accounted a r i" and "en_hostOut (ru_env a) = en_hostOut (ru_env run)" and "ru_pending a = ru_pending run"
  shows "accounted run r i"
  using assms by (simp add: accounted_def refused_def withdrawn_def)

lemma writeChild_out: "writeChild run frame = (r, outcome, e) \<Longrightarrow> en_hostOut (ru_env r) = en_hostOut (ru_env run)"
  by (auto simp: writeChild_def Let_def split: option.splits prod.splits)

lemma deliverHostFirst_accounted:
  assumes inv: "run_inv run" and nt: "\<not> ru_terminal run"
    and item: "fr_id (pf_frame item) = Some i" "fr_kind (pf_frame item) = frameRequest" "\<not> pf_sameGenerationOnly item"
    and m: "modern run \<or> fr_method (pf_frame item) \<noteq> ''initialize''"
  shows "accounted run (deliverHostFirst run item) i"
proof (cases "\<exists>gen frame. ru_current run = Some gen \<and> canDeliver run (pf_frame item) \<and> admitHost run (pf_frame item) = (frame, None)")
  case False
  obtain frame e where a: "admitHost run (pf_frame item) = (frame, e)" by fastforce
  show ?thesis
    using False a enqueueHost_accounted [OF item(1,2), of run] rejectHostRequest_accounted [of frame i run] admit_id [OF a] item(1)
    by (auto simp: deliverHostFirst_def split: option.split)
next
  case True
  then obtain gen frame where d: "ru_current run = Some gen" "canDeliver run (pf_frame item)"
    "admitHost run (pf_frame item) = (frame, None)" by blast
  obtain r1 outcome err where w: "writeChild run (fr_raw frame) = (r1, outcome, err)" by (metis prod_cases3)
  then obtain env where r1: "r1 = run\<lparr>ru_env := env\<rparr>" using writeChild_env by blast
  have out: "en_hostOut (ru_env r1) = en_hostOut (ru_env run)" by (rule writeChild_out [OF w])
  have f: "fr_id frame = Some i" "fr_kind frame = frameRequest" "fr_method frame = fr_method (pf_frame item)"
    using admit_id [OF d(3)] item by simp_all
  define r2 where "r2 = registerHost r1 frame (ge_id gen)"
  have m': "modern r1 = modern run" by (simp add: r1 modern_def)
  obtain req where req: "mget (dr_requests (ru_host r2)) (sv_key i) = Some req" "rr_id req = i" "\<not> rr_initialize req"
    unfolding r2_def using registerHost_records [OF f(1), of r1 "ge_id gen"] m f(3) by (metis m' )
  have i1: "run_inv r1" using inv by (simp add: r1)
  have i2: "run_inv r2"
    unfolding r2_def
  proof (rule registerHost_inv)
    show "validateHostRequest r1 (pf_frame item) = (frame, None)"
      using d(3) item(2) by (simp add: r1 validate_env admit_request)
  qed (use inv nt d in \<open>auto simp: r1 canDeliver_def\<close>)
  have "accounted r2 (replaceCurrent ReasonWriteFailure r2) i"
    by (rule replaceCurrent_accounts_live [OF i2 _ _ req]) (use nt d(1) in \<open>simp_all add: r2_def r1\<close>)
  then have ambiguous: "accounted run (replaceCurrent ReasonWriteFailure r2) i"
    by (rule accounted_from) (simp_all add: r2_def out, simp add: r1)
  have "accounted r1 (replaceCurrent ReasonWriteFailure (retainAfterNotWritten r1 (item\<lparr>pf_frame := frame\<rparr>))) i"
    by (rule retain_then_replace [OF i1]) (use nt d(1) f item(3) in \<open>simp_all add: r1\<close>)
  then have kept: "accounted run (replaceCurrent ReasonWriteFailure (retainAfterNotWritten r1 (item\<lparr>pf_frame := frame\<rparr>))) i"
    by (rule accounted_from) (simp_all add: out, simp add: r1)
  have live: "accounted run r2 i" using req(1) by (simp add: accounted_def awaited_def mhas_def)
  show ?thesis
    using d w f(2) kept ambiguous live by (simp add: deliverHostFirst_def Let_def r2_def)
qed

section \<open>Dispatch\<close>

lemma beginInitialize_accounted:
  assumes inv: "run_inv run" and nt: "\<not> ru_terminal run" and i: "fr_id frame = Some i"
  shows "accounted run (beginInitialize run frame) i"
proof -
  define r1 where "r1 = run\<lparr>ru_init := (ru_init run)\<lparr>in_request := Some (fr_raw frame), in_id := fr_id frame, in_awaiting := True\<rparr>\<rparr>"
  have w: "awaited r i" if "ru_init r = ru_init r1" for r
    using that i by (simp add: awaited_def r1_def)
  have i1: "run_inv r1" using inv by (simp add: r1_def)
  show ?thesis
  proof (cases "ru_current r1 \<noteq> None \<and> ru_state r1 = StateActive")
    case True
    then obtain gen where gen: "ru_current r1 = Some gen" by blast
    obtain r2 outcome err where wc: "writeChild r1 (fr_raw frame) = (r2, outcome, err)" by (metis prod_cases3)
    then obtain env where r2: "r2 = r1\<lparr>ru_env := env\<rparr>" using writeChild_env by blast
    have i2: "run_inv r2" "\<not> ru_terminal r2" "ru_current r2 = Some gen"
      using i1 nt gen by (simp_all add: r2 r1_def)
    have "accounted run (replaceCurrent ReasonWriteFailure r2) i"
    proof (cases "ru_terminal (replaceCurrent ReasonWriteFailure r2)")
      case False
      have "ru_init (replaceCurrent ReasonWriteFailure r2) = ru_init r2"
        using replaceCurrent_report [OF i2 False] by blast
      then show ?thesis using w [of "replaceCurrent ReasonWriteFailure r2"] by (simp add: accounted_def r2)
    qed (simp add: accounted_def)
    moreover have "accounted run (armReplayTimer r2) i"
      using w [of "armReplayTimer r2"] by (simp add: accounted_def r2 armReplayTimer_def)
    ultimately show ?thesis
      using True wc by (simp add: beginInitialize_def r1_def [symmetric] Let_def writeInitialInitialize_def)
  next
    case False
    have "awaited (beginStart (stopDormantLeaseTimer r1)) i" "awaited r1 i"
      by (rule w; simp add: stopDormantLeaseTimer_def)+
    then show ?thesis
      using False by (auto simp: beginInitialize_def r1_def [symmetric] Let_def accounted_def)
  qed
qed

lemma lifecycle_accounted:
  assumes inv: "run_inv run" and nt: "\<not> ru_terminal run" and m: "\<not> modern run"
    and item: "fr_id (pf_frame item) = Some i" "fr_kind (pf_frame item) = frameRequest" "\<not> pf_sameGenerationOnly item"
  shows "case handleHostLifecycle run item of
      (r, True) \<Rightarrow> accounted run r i
    | (r, False) \<Rightarrow> r = run \<and> fr_method (pf_frame item) \<noteq> ''initialize''"
proof -
  have rej: "accounted run (rejectHostRequest run (pf_frame item) code message) i" for code message
    by (rule rejectHostRequest_accounted [OF item(1)])
  have ping: "isInitializationPing (pf_frame item) \<Longrightarrow> accounted run (routeInitializationHostPing run item) i"
    using deliverHostFirst_accounted [OF inv nt item] enqueueHost_accounted [OF item(1,2), of run False]
    by (auto simp: routeInitializationHostPing_def isInitializationPing_def)
  have "\<not> isResponse (pf_frame item)" "\<not> isInitializedNotification (pf_frame item)"
    using item(2) by (simp_all add: isResponse_def isInitializedNotification_def)
  then show ?thesis
    using item(2) rej ping beginInitialize_accounted [OF inv nt item(1)]
    by (simp add: handleHostLifecycle_def duringInitialize_def Let_def)
qed

lemma handleHostFrame_accounted:
  assumes inv: "run_inv run" and nt: "\<not> ru_terminal run"
    and item: "fr_id (pf_frame item) = Some i" "fr_kind (pf_frame item) = frameRequest" "\<not> pf_sameGenerationOnly item"
    and meth: "fr_method (pf_frame item) \<notin> {''notifications/cancelled'', ''notifications/progress'', ''notifications/tasks/status''}"
    and ts: "fr_taskStatus (pf_frame item) = None"
  shows "accounted run (handleHostFrame run item) i"
proof -
  have nr: "\<not> isResponse (pf_frame item)" using item(2) by (simp add: isResponse_def)
  have rej: "accounted run (rejectHostRequest run (pf_frame item) code message) i" for code message
    by (rule rejectHostRequest_accounted [OF item(1)])
  have enq: "accounted run (enqueueHost run item False) i" by (rule enqueueHost_accounted [OF item(1,2)])
  show ?thesis
  proof (cases "modern run")
    case True
    then show ?thesis
      using nr rej enq item(2) deliverHostFirst_accounted [OF inv nt item]
      by (simp add: handleHostFrame_def handleModernHost_def Let_def)
  next
    case False
    show ?thesis
      using lifecycle_accounted [OF inv nt False item] nr rej enq item(2) meth ts False
        deliverHostFirst_accounted [OF inv nt item]
      by (auto simp: handleHostFrame_def consumeRetiredHost_def routeHost_def Let_def split: prod.splits bool.splits)
  qed
qed

lemma parsed_request:
  assumes "parseFrame raw n = Inr frame" and "fr_kind frame = frameRequest"
  shows "fr_id frame \<noteq> None" "fr_taskStatus frame = None"
proof -
  obtain flds where "parseFields raw flds = Inr frame"
    using assms(1) by (auto simp: parseFrame_def Let_def split: if_splits sum.splits)
  from parseFields_wf [OF this] assms(2) show "fr_id frame \<noteq> None" "fr_taskStatus frame = None"
    by (auto simp: shape_defs)
qed

lemma resume_accounted: "accounted run r i \<Longrightarrow> accounted run (resumeDormantLeaseAfterHost r) i"
  by (auto simp: accounted_def refused_def awaited_def resumeDormantLeaseAfterHost_def finishDormantLease_def terminate_def)

lemma handleHostEvent_accounted:
  assumes inv: "run_inv run" and nt: "\<not> ru_terminal run" and ev: "he_frame event = Inr frame"
    and f: "fr_id frame = Some i" "fr_kind frame = frameRequest" "fr_taskStatus frame = None"
      "fr_method frame \<notin> {''notifications/cancelled'', ''notifications/progress'', ''notifications/tasks/status''}"
  shows "accounted run (handleHostEvent run event) i"
proof -
  define r1 where "r1 = run\<lparr>ru_lastHostSequence := max (ru_lastHostSequence run) (he_sequence event)\<rparr>"
  define item where "item = \<lparr>pf_sequence = he_sequence event, pf_arrived = he_arrived event, pf_frame = frame,
      pf_sameGenerationOnly = False\<rparr>"
  have "accounted r1 (handleHostFrame r1 item) i"
    by (rule handleHostFrame_accounted) (use inv nt f in \<open>simp_all add: r1_def item_def\<close>)
  then have "accounted run (handleHostFrame r1 item) i"
    by (rule accounted_from) (simp_all add: r1_def)
  from resume_accounted [OF this] show ?thesis
    using nt ev by (simp add: handleHostEvent_def Let_def r1_def item_def)
qed

text \<open>
  C1: No request of the host is lost. Whatever has happened to a running supervisor, when it takes a
  well-formed request from the host, then afterwards the supervisor has terminated, or the host has
  received an error answer with the id of the request, or the request is live at the child, waits in
  the queue or is the initialize exchange under way, or the host had already cancelled that id.
  The three notification names are excluded: a frame that carries one of them and an id is treated
  as a notification.
\<close>
theorem every_request_accounted:
  assumes "withDefaults hostIn hostOut resolve start cfg0 = Ok cfg"
    and "r = foldl step (startRun cfg env) evs" and "\<not> ru_terminal r"
    and "parseFrame raw (cf_MaxFrameBytes (ru_cfg r)) = Inr frame" and "fr_kind frame = frameRequest"
    and "fr_method frame \<notin> {''notifications/cancelled'', ''notifications/progress'', ''notifications/tasks/status''}"
  shows "\<exists>i. fr_id frame = Some i \<and> accounted r (step r (EvHostFrame sequence arrived raw)) i"
proof -
  obtain i where i: "fr_id frame = Some i" using parsed_request(1) [OF assms(4,5)] by blast
  obtain frame' where e: "he_frame (readHostFrame r sequence arrived raw) = Inr frame'"
    and f: "fr_id frame' = Some i" "fr_kind frame' = frameRequest" "fr_taskStatus frame' = None" "fr_method frame' = fr_method frame"
    using parsed_request(2) [OF assms(4,5)] assms(4,5) i by (auto simp: readHostFrame_def)
  have "run_inv r" unfolding assms(2) by (rule reachable_inv [OF assms(1)])
  from handleHostEvent_accounted [OF this assms(3) e f(1-3)] f(4) assms(3,6) i
  show ?thesis by (simp add: step_def)
qed

lemma demo_call_parses:
  obtains frame where "parseFrame demo_call 1048576 = Inr frame" "fr_kind frame = frameRequest" "fr_method frame = ''ping''"
proof -
  have "(case parseFrame demo_call 1048576 of
      Inl _ \<Rightarrow> False | Inr f \<Rightarrow> fr_kind f = frameRequest \<and> fr_method f = ''ping'')"
    by code_simp
  then show thesis using that by (auto split: sum.splits)
qed

theorem every_request_accounted_witness:
  "\<exists>i frame. parseFrame demo_call 1048576 = Inr frame \<and> fr_id frame = Some i \<and>
     accounted (startRun modern_config demo_env) (step (startRun modern_config demo_env) (EvHostFrame 1 0 demo_call)) i"
proof -
  have s: "\<not> ru_terminal (startRun modern_config demo_env)" "cf_MaxFrameBytes (ru_cfg (startRun modern_config demo_env)) = 1048576"
    by (simp_all add: startRun_def beginStart_def newRunner_def stopRetryTimer_def setState_def emit_def Let_def
        modern_config_def applyDefaults_def orDefault_def demo_config_def)
  obtain frame where "parseFrame demo_call 1048576 = Inr frame" "fr_kind frame = frameRequest" "fr_method frame = ''ping''"
    by (rule demo_call_parses)
  then show ?thesis
    using every_request_accounted [OF modern_defaults _ s(1), of demo_env "[]" demo_call frame 1 0] s(2) by auto
qed

end
