(* ===== verification/Session_Manager.thy ===== *)
theory Session_Manager
  imports Prelude
begin

text \<open>
  The session manager (\<open>muxcore/session/session_manager.go\<close>): active sessions, in-flight request
  correlation, handshake tokens waiting for a shim (\<open>pending\<close>) and the history of consumed tokens
  (\<open>bound\<close>) that lets a shim reconnect. Every method runs under one mutex, so a method is one
  atomic step; \<open>RegisterReconnect\<close> releases the mutex around its callback and is two steps.
\<close>

section \<open>Data\<close>

text \<open>
  A \<open>*Session\<close> is its address together with the \<open>ID\<close> field, which is fixed at construction;
  comparing pointers compares addresses and IDs. The mutable fields that \<open>Bind\<close> writes are kept
  in the manager's model as a heap.
\<close>

record session_ptr =
  sp_addr :: nat
  sp_ID :: int

type_synonym env = "(bytes, bytes) gomap option"

record context_rec =
  ctx_Session :: session_ptr
  ctx_Cwd :: bytes
  ctx_Env :: env

record pendingSession =
  ps_OwnerKey :: bytes
  ps_Cwd :: bytes
  ps_Env :: env
  ps_CreatedAt :: time
  ps_SourceSession :: "session_ptr option"

record boundHistory =
  bh_OwnerKey :: bytes
  bh_Cwd :: bytes
  bh_Env :: env
  bh_BoundAt :: time
  bh_LastUsed :: time
  bh_Session :: "session_ptr option"

record boundHistorySnapshot =
  bs_Token :: bytes
  bs_OwnerKey :: bytes
  bs_Cwd :: bytes
  bs_Env :: env
  bs_BoundAt :: time
  bs_LastUsed :: time

definition pendingTokenTTL :: duration where
  "pendingTokenTTL = seconds 120"

definition boundTokenTTL :: duration where
  "boundTokenTTL = seconds 1800"

datatype reconnect_error = ErrUnknownToken | ErrOwnerGone | ErrTokenEntropy

record manager =
  sessions :: "(int, context_rec) gomap"
  inflight :: "(bytes, int) gomap"
  pending :: "(bytes, pendingSession) gomap"
  bound :: "(bytes, boundHistory) gomap"
  lastActive :: "(int, time) gomap"
  sessionFields :: "(session_ptr, bytes \<times> env) gomap"

definition NewManager :: manager where
  "NewManager = \<lparr>sessions = [], inflight = [], pending = [], bound = [], lastActive = [],
     sessionFields = []\<rparr>"

definition cloneEnv :: "env \<Rightarrow> env" where
  "cloneEnv e = (case e of None \<Rightarrow> None | Some m \<Rightarrow> Some (map (\<lambda>(k, v). (k, v)) m))"

section \<open>Operations\<close>

definition boundIsLiveLocked :: "manager \<Rightarrow> boundHistory \<Rightarrow> bool" where
  "boundIsLiveLocked sm hist =
     (case bh_Session hist of
        None \<Rightarrow> False
      | Some s \<Rightarrow>
          (case mget (sessions sm) (sp_ID s) of
             None \<Rightarrow> False
           | Some ctx \<Rightarrow> ctx_Session ctx = s))"

definition boundExpiredLocked :: "manager \<Rightarrow> boundHistory \<Rightarrow> time \<Rightarrow> bool" where
  "boundExpiredLocked sm hist now \<longleftrightarrow>
     \<not> boundIsLiveLocked sm hist \<and> time_sub now (bh_LastUsed hist) > boundTokenTTL"

definition exportEntry :: "manager \<Rightarrow> time \<Rightarrow> bytes \<times> boundHistory \<Rightarrow> boundHistorySnapshot option" where
  "exportEntry sm now = (\<lambda>(token, hist).
     (if token = [] \<or> bh_OwnerKey hist = [] then None
      else
        let live = boundIsLiveLocked sm hist in
        if \<not> live \<and> time_sub now (bh_LastUsed hist) > boundTokenTTL then None
        else Some \<lparr>bs_Token = token, bs_OwnerKey = bh_OwnerKey hist, bs_Cwd = bh_Cwd hist,
               bs_Env = cloneEnv (bh_Env hist), bs_BoundAt = bh_BoundAt hist,
               bs_LastUsed = (if live then now else bh_LastUsed hist)\<rparr>))"

definition ExportBoundHistory :: "manager \<Rightarrow> time \<Rightarrow> boundHistorySnapshot list" where
  "ExportBoundHistory sm now = List.map_filter (exportEntry sm now) (bound sm)"

definition importEntry :: "time \<Rightarrow> boundHistorySnapshot \<Rightarrow> (bytes \<times> boundHistory) option" where
  "importEntry now e =
     (if bs_Token e = [] \<or> bs_OwnerKey e = [] then None
      else
        let lastUsed = (if bs_LastUsed e = 0 then bs_BoundAt e else bs_LastUsed e) in
        if lastUsed = 0 \<or> time_sub now lastUsed > boundTokenTTL then None
        else
          let boundAt = (if bs_BoundAt e = 0 then lastUsed else bs_BoundAt e) in
          Some (bs_Token e,
            \<lparr>bh_OwnerKey = bs_OwnerKey e, bh_Cwd = bs_Cwd e, bh_Env = cloneEnv (bs_Env e),
             bh_BoundAt = boundAt, bh_LastUsed = lastUsed, bh_Session = None\<rparr>))"

fun ImportBoundHistory :: "manager \<Rightarrow> time \<Rightarrow> boundHistorySnapshot list \<Rightarrow> manager \<times> nat" where
  "ImportBoundHistory sm now [] = (sm, 0)"
| "ImportBoundHistory sm now (e # es) =
     (case importEntry now e of
        None \<Rightarrow> ImportBoundHistory sm now es
      | Some (token, hist) \<Rightarrow>
          (let (sm', n) = ImportBoundHistory (sm\<lparr>bound := mput (bound sm) token hist\<rparr>) now es
           in (sm', Suc n)))"

text \<open>The loop shared by \<open>RegisterSession\<close> and \<open>RemoveSession\<close>: detach a session from history.\<close>

definition detachBound :: "session_ptr \<Rightarrow> time \<Rightarrow> boundHistory \<Rightarrow> boundHistory" where
  "detachBound s now hist =
     (if bh_Session hist = Some s then hist\<lparr>bh_Session := None, bh_LastUsed := now\<rparr> else hist)"

definition RegisterSession :: "manager \<Rightarrow> time \<Rightarrow> session_ptr \<Rightarrow> bytes \<Rightarrow> manager" where
  "RegisterSession sm now session cwd =
     (let sm1 =
        (case mget (sessions sm) (sp_ID session) of
           None \<Rightarrow> sm
         | Some previous \<Rightarrow>
             (if ctx_Session previous \<noteq> session
              then sm\<lparr>bound := mmapv (detachBound (ctx_Session previous) now) (bound sm)\<rparr>
              else sm))
      in sm1\<lparr>sessions := mput (sessions sm1) (sp_ID session)
               \<lparr>ctx_Session = session, ctx_Cwd = cwd, ctx_Env = None\<rparr>\<rparr>)"

definition RemoveSession :: "manager \<Rightarrow> time \<Rightarrow> int \<Rightarrow> manager" where
  "RemoveSession sm now sessionID =
     (let removed = mget (sessions sm) sessionID;
          bound' = (case removed of
             None \<Rightarrow> bound sm
           | Some ctx \<Rightarrow> mmapv (detachBound (ctx_Session ctx) now) (bound sm))
      in sm\<lparr>sessions := mdel (sessions sm) sessionID,
            lastActive := mdel (lastActive sm) sessionID,
            bound := bound',
            inflight := mkeep (\<lambda>_ sid. sid \<noteq> sessionID) (inflight sm)\<rparr>)"

definition PreRegisterForOwner :: "manager \<Rightarrow> time \<Rightarrow> bytes \<Rightarrow> bytes \<Rightarrow> bytes \<Rightarrow> env \<Rightarrow> manager" where
  "PreRegisterForOwner sm now token ownerKey cwd e =
     sm\<lparr>pending := mput (pending sm) token
          \<lparr>ps_OwnerKey = ownerKey, ps_Cwd = cwd, ps_Env = cloneEnv e, ps_CreatedAt = now,
           ps_SourceSession = None\<rparr>\<rparr>"

definition PreRegister :: "manager \<Rightarrow> time \<Rightarrow> bytes \<Rightarrow> bytes \<Rightarrow> env \<Rightarrow> manager" where
  "PreRegister sm now token cwd e = PreRegisterForOwner sm now token [] cwd e"

definition RemovePendingForOwnerExcept :: "manager \<Rightarrow> bytes \<Rightarrow> bytes \<Rightarrow> manager \<times> nat" where
  "RemovePendingForOwnerExcept sm ownerKey keepToken =
     (if ownerKey = [] then (sm, 0)
      else
        let kept = mkeep (\<lambda>token ps. \<not> (ps_OwnerKey ps = ownerKey \<and> token \<noteq> keepToken)) (pending sm)
        in (sm\<lparr>pending := kept\<rparr>, mlen (pending sm) - mlen kept))"

definition RemovePendingForOwner :: "manager \<Rightarrow> bytes \<Rightarrow> manager \<times> nat" where
  "RemovePendingForOwner sm ownerKey = RemovePendingForOwnerExcept sm ownerKey []"

definition RemovePendingForOwnerExceptSession ::
    "manager \<Rightarrow> bytes \<Rightarrow> session_ptr option \<Rightarrow> manager \<times> nat" where
  "RemovePendingForOwnerExceptSession sm ownerKey keep =
     (if ownerKey = [] then (sm, 0)
      else
        let kept = mkeep (\<lambda>_ ps. \<not> (ps_OwnerKey ps = ownerKey \<and>
                                    (keep = None \<or> ps_SourceSession ps \<noteq> keep))) (pending sm)
        in (sm\<lparr>pending := kept\<rparr>, mlen (pending sm) - mlen kept))"

definition RemovePendingForOwnerToken :: "manager \<Rightarrow> bytes \<Rightarrow> bytes \<Rightarrow> manager \<times> bool" where
  "RemovePendingForOwnerToken sm ownerKey token =
     (if ownerKey = [] \<or> token = [] then (sm, False)
      else
        case mget (pending sm) token of
          None \<Rightarrow> (sm, False)
        | Some ps \<Rightarrow>
            (if ps_OwnerKey ps \<noteq> ownerKey then (sm, False)
             else (sm\<lparr>pending := mdel (pending sm) token\<rparr>, True)))"

definition IsPreRegistered :: "manager \<Rightarrow> bytes \<Rightarrow> bool" where
  "IsPreRegistered sm token = mhas (pending sm) token"

definition LookupPendingForOwner :: "manager \<Rightarrow> bytes \<Rightarrow> bytes \<Rightarrow> (bytes \<times> env) option" where
  "LookupPendingForOwner sm token ownerKey =
     (case mget (pending sm) token of
        None \<Rightarrow> None
      | Some ps \<Rightarrow>
          (if ps_OwnerKey ps \<noteq> [] \<and> ps_OwnerKey ps \<noteq> ownerKey then None
           else Some (ps_Cwd ps, cloneEnv (ps_Env ps))))"

definition SweepExpiredPending :: "manager \<Rightarrow> time \<Rightarrow> manager \<times> nat" where
  "SweepExpiredPending sm now =
     (let kept = mkeep (\<lambda>_ ps. \<not> time_sub now (ps_CreatedAt ps) > pendingTokenTTL) (pending sm)
      in (sm\<lparr>pending := kept\<rparr>, mlen (pending sm) - mlen kept))"

definition SweepExpiredBound :: "manager \<Rightarrow> time \<Rightarrow> manager \<times> nat" where
  "SweepExpiredBound sm now =
     (let kept = mkeep (\<lambda>_ hist. \<not> boundExpiredLocked sm hist now) (bound sm)
      in (sm\<lparr>bound := kept\<rparr>, mlen (bound sm) - mlen kept))"

definition RemoveBoundForOwner :: "manager \<Rightarrow> bytes \<Rightarrow> manager \<times> nat" where
  "RemoveBoundForOwner sm ownerKey =
     (if ownerKey = [] then (sm, 0)
      else
        let kept = mkeep (\<lambda>_ hist. bh_OwnerKey hist \<noteq> ownerKey) (bound sm)
        in (sm\<lparr>bound := kept\<rparr>, mlen (bound sm) - mlen kept))"

definition RemoveBoundForOwnerExceptSession ::
    "manager \<Rightarrow> bytes \<Rightarrow> session_ptr option \<Rightarrow> manager \<times> nat" where
  "RemoveBoundForOwnerExceptSession sm ownerKey keep =
     (if ownerKey = [] then (sm, 0)
      else
        let kept = mkeep (\<lambda>_ hist. \<not> (bh_OwnerKey hist = ownerKey \<and>
                                      (keep = None \<or> bh_Session hist \<noteq> keep))) (bound sm)
        in (sm\<lparr>bound := kept\<rparr>, mlen (bound sm) - mlen kept))"

definition PendingCount :: "manager \<Rightarrow> nat" where
  "PendingCount sm = mlen (pending sm)"

definition Bind :: "manager \<Rightarrow> time \<Rightarrow> bytes \<Rightarrow> bytes \<Rightarrow> session_ptr \<Rightarrow> manager \<times> bool" where
  "Bind sm now token ownerKey session =
     (case mget (pending sm) token of
        None \<Rightarrow> (sm, False)
      | Some ps \<Rightarrow>
          (if ps_OwnerKey ps \<noteq> [] \<and> ps_OwnerKey ps \<noteq> ownerKey then (sm, False)
           else
             let e = cloneEnv (ps_Env ps);
                 historyOwnerKey = (if ps_OwnerKey ps = [] then ownerKey else ps_OwnerKey ps);
                 sessions' =
                   (case mget (sessions sm) (sp_ID session) of
                      None \<Rightarrow> sessions sm
                    | Some ctx \<Rightarrow> mput (sessions sm) (sp_ID session)
                        (ctx\<lparr>ctx_Cwd := ps_Cwd ps, ctx_Env := cloneEnv e\<rparr>))
             in (sm\<lparr>pending := mdel (pending sm) token,
                    bound := mput (bound sm) token
                      \<lparr>bh_OwnerKey = historyOwnerKey, bh_Cwd = ps_Cwd ps, bh_Env = e,
                       bh_BoundAt = now, bh_LastUsed = now, bh_Session = Some session\<rparr>,
                    sessionFields := mput (sessionFields sm) session (ps_Cwd ps, cloneEnv e),
                    sessions := sessions'\<rparr>, True)))"

definition LookupHistory :: "manager \<Rightarrow> time \<Rightarrow> bytes \<Rightarrow> (bytes \<times> bytes \<times> env) option" where
  "LookupHistory sm now prev =
     (case mget (bound sm) prev of
        None \<Rightarrow> None
      | Some hist \<Rightarrow>
          (if boundExpiredLocked sm hist now then None
           else Some (bh_OwnerKey hist, bh_Cwd hist, cloneEnv (bh_Env hist))))"

text \<open>
  \<open>RegisterReconnect\<close> in its two critical sections. The first reserves a fresh pending token
  (\<open>gen\<close> is the result of \<open>generateToken\<close>, \<open>None\<close> when the entropy source fails); the second runs
  after the \<open>ownerAlive\<close> callback, on whatever state the other goroutines left (\<open>other\<close>).
\<close>

definition reconnectReserve ::
    "manager \<Rightarrow> time \<Rightarrow> bytes \<Rightarrow> bytes option \<Rightarrow>
     manager \<times> (reconnect_error + bytes \<times> bytes \<times> bytes \<times> env)" where
  "reconnectReserve sm now prev gen =
     (case mget (bound sm) prev of
        None \<Rightarrow> (sm, Inl ErrUnknownToken)
      | Some hist \<Rightarrow>
          (if boundExpiredLocked sm hist now
           then (sm\<lparr>bound := mdel (bound sm) prev\<rparr>, Inl ErrUnknownToken)
           else
             case gen of
               None \<Rightarrow> (sm, Inl ErrTokenEntropy)
             | Some token \<Rightarrow>
                 (let e = cloneEnv (bh_Env hist)
                  in (sm\<lparr>pending := mput (pending sm) token
                           \<lparr>ps_OwnerKey = bh_OwnerKey hist, ps_Cwd = bh_Cwd hist,
                            ps_Env = cloneEnv e, ps_CreatedAt = now,
                            ps_SourceSession = bh_Session hist\<rparr>\<rparr>,
                      Inr (token, bh_OwnerKey hist, bh_Cwd hist, e)))))"

definition reconnectCommit ::
    "manager \<Rightarrow> time \<Rightarrow> bytes \<Rightarrow> bytes \<times> bytes \<times> bytes \<times> env \<Rightarrow> manager \<times> (reconnect_error + bytes)" where
  "reconnectCommit sm now prev = (\<lambda>(token, ownerKey, cwd, e).
     (if \<not> mhas (pending sm) token then (sm, Inl ErrUnknownToken)
      else
        case mget (bound sm) prev of
          None \<Rightarrow> (sm\<lparr>pending := mdel (pending sm) token\<rparr>, Inl ErrUnknownToken)
        | Some hist \<Rightarrow>
            (if boundExpiredLocked sm hist now
             then (sm\<lparr>pending := mdel (pending sm) token, bound := mdel (bound sm) prev\<rparr>,
                   Inl ErrUnknownToken)
             else
               let bound1 = mput (bound sm) prev (hist\<lparr>bh_LastUsed := now\<rparr>)
               in (sm\<lparr>bound := mput bound1 token
                        \<lparr>bh_OwnerKey = ownerKey, bh_Cwd = cwd, bh_Env = cloneEnv e,
                         bh_BoundAt = now, bh_LastUsed = now, bh_Session = bh_Session hist\<rparr>\<rparr>,
                   Inr token))))"

definition RegisterReconnect ::
    "manager \<Rightarrow> time \<Rightarrow> bytes \<Rightarrow> bytes option \<Rightarrow> (bytes \<Rightarrow> bool) \<Rightarrow> (manager \<Rightarrow> manager) \<Rightarrow> time \<Rightarrow>
     manager \<times> (reconnect_error + bytes)" where
  "RegisterReconnect sm now prev gen ownerAlive other now' =
     (case reconnectReserve sm now prev gen of
        (sm1, Inl e) \<Rightarrow> (sm1, Inl e)
      | (sm1, Inr (token, ownerKey, cwd, e)) \<Rightarrow>
          (let sm2 = other sm1
           in if \<not> ownerAlive ownerKey
              then (sm2\<lparr>pending := mdel (pending sm2) token\<rparr>, Inl ErrOwnerGone)
              else reconnectCommit sm2 now' prev (token, ownerKey, cwd, e)))"

definition TrackRequest :: "manager \<Rightarrow> time \<Rightarrow> bytes \<Rightarrow> int \<Rightarrow> manager" where
  "TrackRequest sm now remappedID sessionID =
     sm\<lparr>inflight := mput (inflight sm) remappedID sessionID,
        lastActive := mput (lastActive sm) sessionID now\<rparr>"

definition CompleteRequest :: "manager \<Rightarrow> bytes \<Rightarrow> manager" where
  "CompleteRequest sm remappedID = sm\<lparr>inflight := mdel (inflight sm) remappedID\<rparr>"

definition DrainInflight :: "manager \<Rightarrow> manager \<times> (bytes \<times> int) list" where
  "DrainInflight sm = (sm\<lparr>inflight := []\<rparr>, inflight sm)"

text \<open>
  The loop of \<open>ResolveCallback\<close> over the sessions with in-flight requests: the most recent
  \<open>TrackRequest\<close> wins; a session without a recorded time has the zero time.
\<close>

definition lastActiveOf :: "manager \<Rightarrow> int \<Rightarrow> time" where
  "lastActiveOf sm sid = (case mget (lastActive sm) sid of None \<Rightarrow> 0 | Some t \<Rightarrow> t)"

fun resolveBest :: "manager \<Rightarrow> int list \<Rightarrow> int \<Rightarrow> time \<Rightarrow> int" where
  "resolveBest sm [] bestID bestTime = bestID"
| "resolveBest sm (sid # sids) bestID bestTime =
     (if lastActiveOf sm sid > bestTime
      then resolveBest sm sids sid (lastActiveOf sm sid)
      else resolveBest sm sids bestID bestTime)"

definition ResolveCallback :: "manager \<Rightarrow> context_rec option" where
  "ResolveCallback sm =
     (case remdups (map snd (inflight sm)) of
        [] \<Rightarrow> None
      | [sid] \<Rightarrow> mget (sessions sm) sid
      | sids \<Rightarrow> mget (sessions sm) (resolveBest sm sids 0 0))"

definition GetSession :: "manager \<Rightarrow> int \<Rightarrow> context_rec option" where
  "GetSession sm sessionID = mget (sessions sm) sessionID"

definition SessionCount :: "manager \<Rightarrow> nat" where
  "SessionCount sm = mlen (sessions sm)"

section \<open>The invariant\<close>

text \<open>
  Every map is well formed, and a session context is filed under the ID of its session.
\<close>

definition manager_inv :: "manager \<Rightarrow> bool" where
  "manager_inv sm \<longleftrightarrow>
     minv (sessions sm) \<and> minv (inflight sm) \<and> minv (pending sm) \<and> minv (bound sm) \<and>
     minv (lastActive sm) \<and>
     (\<forall>k ctx. mget (sessions sm) k = Some ctx \<longrightarrow> sp_ID (ctx_Session ctx) = k)"

datatype manager_event =
    EvRegisterSession time session_ptr bytes
  | EvRemoveSession time int
  | EvPreRegister time bytes bytes bytes env
  | EvRemovePending bytes bytes
  | EvRemovePendingSession bytes "session_ptr option"
  | EvRemovePendingToken bytes bytes
  | EvSweepPending time
  | EvSweepBound time
  | EvRemoveBound bytes
  | EvRemoveBoundSession bytes "session_ptr option"
  | EvBind time bytes bytes session_ptr
  | EvReserve time bytes "bytes option"
  | EvCommit time bytes "bytes \<times> bytes \<times> bytes \<times> env"
  | EvImport time "boundHistorySnapshot list"
  | EvTrack time bytes int
  | EvComplete bytes
  | EvDrain

fun manager_step :: "manager \<Rightarrow> manager_event \<Rightarrow> manager" where
  "manager_step sm (EvRegisterSession now s cwd) = RegisterSession sm now s cwd"
| "manager_step sm (EvRemoveSession now sid) = RemoveSession sm now sid"
| "manager_step sm (EvPreRegister now t ok cwd e) = PreRegisterForOwner sm now t ok cwd e"
| "manager_step sm (EvRemovePending ok kt) = fst (RemovePendingForOwnerExcept sm ok kt)"
| "manager_step sm (EvRemovePendingSession ok s) = fst (RemovePendingForOwnerExceptSession sm ok s)"
| "manager_step sm (EvRemovePendingToken ok t) = fst (RemovePendingForOwnerToken sm ok t)"
| "manager_step sm (EvSweepPending now) = fst (SweepExpiredPending sm now)"
| "manager_step sm (EvSweepBound now) = fst (SweepExpiredBound sm now)"
| "manager_step sm (EvRemoveBound ok) = fst (RemoveBoundForOwner sm ok)"
| "manager_step sm (EvRemoveBoundSession ok s) = fst (RemoveBoundForOwnerExceptSession sm ok s)"
| "manager_step sm (EvBind now t ok s) = fst (Bind sm now t ok s)"
| "manager_step sm (EvReserve now prev gen) = fst (reconnectReserve sm now prev gen)"
| "manager_step sm (EvCommit now prev r) = fst (reconnectCommit sm now prev r)"
| "manager_step sm (EvImport now es) = fst (ImportBoundHistory sm now es)"
| "manager_step sm (EvTrack now r sid) = TrackRequest sm now r sid"
| "manager_step sm (EvComplete r) = CompleteRequest sm r"
| "manager_step sm EvDrain = fst (DrainInflight sm)"

lemmas manager_defs =
  RegisterSession_def RemoveSession_def PreRegisterForOwner_def RemovePendingForOwnerExcept_def
  RemovePendingForOwnerExceptSession_def RemovePendingForOwnerToken_def SweepExpiredPending_def
  SweepExpiredBound_def RemoveBoundForOwner_def RemoveBoundForOwnerExceptSession_def Bind_def
  reconnectReserve_def reconnectCommit_def TrackRequest_def CompleteRequest_def DrainInflight_def
  Let_def

lemma cloneEnv_id [simp]: "cloneEnv e = e"
  by (cases e) (simp_all add: cloneEnv_def)

lemma manager_inv_New [simp]: "manager_inv NewManager"
  by (simp add: manager_inv_def NewManager_def)

lemma ImportBoundHistory_fields [simp]:
  "sessions (fst (ImportBoundHistory sm now es)) = sessions sm"
  "inflight (fst (ImportBoundHistory sm now es)) = inflight sm"
  "pending (fst (ImportBoundHistory sm now es)) = pending sm"
  "lastActive (fst (ImportBoundHistory sm now es)) = lastActive sm"
  by (induction es arbitrary: sm) (simp_all add: case_prod_beta split: option.split)

lemma ImportBoundHistory_minv:
  "minv (bound sm) \<Longrightarrow> minv (bound (fst (ImportBoundHistory sm now es)))"
  by (induction es arbitrary: sm) (simp_all add: case_prod_beta split: option.split)

lemma manager_step_inv:
  assumes "manager_inv sm"
  shows "manager_inv (manager_step sm e)"
  using assms
  by (cases e)
     (simp_all add: manager_inv_def manager_defs ImportBoundHistory_minv case_prod_beta
       split: option.split)

interpretation smm: invariant_machine manager_step manager_inv
  by unfold_locales (rule manager_step_inv)

section \<open>Handshake tokens\<close>

lemma Bind_iff:
  "snd (Bind sm now token owner s) \<longleftrightarrow>
     (\<exists>ps. mget (pending sm) token = Some ps \<and> (ps_OwnerKey ps = [] \<or> ps_OwnerKey ps = owner))"
  by (auto simp: Bind_def Let_def split: option.splits if_splits)

lemma Bind_False_unchanged: "Bind sm now token owner s = (sm', False) \<Longrightarrow> sm' = sm"
  by (auto simp: Bind_def Let_def split: option.splits if_splits)

lemma Bind_True_pending:
  "Bind sm now token owner s = (sm', True) \<Longrightarrow> pending sm' = mdel (pending sm) token"
  by (auto simp: Bind_def Let_def split: option.splits if_splits)

text \<open>The events that can make a token pending.\<close>

fun issues :: "bytes \<Rightarrow> manager_event \<Rightarrow> bool" where
  "issues token (EvPreRegister now t ok cwd e) = (t = token)"
| "issues token (EvReserve now prev gen) = (gen = Some token)"
| "issues token _ = False"

lemma manager_step_not_pending:
  assumes "manager_inv sm" and "\<not> IsPreRegistered sm token" and "\<not> issues token e"
  shows "\<not> IsPreRegistered (manager_step sm e) token"
  using assms
  by (cases e)
     (auto simp: IsPreRegistered_def manager_inv_def manager_defs mhas_def mget_mkeep
       case_prod_beta split: option.split)

lemma manager_run_not_pending:
  "manager_inv sm \<Longrightarrow> \<not> IsPreRegistered sm token \<Longrightarrow> \<forall>e\<in>set es. \<not> issues token e \<Longrightarrow>
     \<not> IsPreRegistered (foldl manager_step sm es) token"
proof (induction es arbitrary: sm)
  case Nil
  then show ?case by simp
next
  case (Cons e es)
  then show ?case
    using manager_step_inv manager_step_not_pending by simp
qed

text \<open>C16: a handshake token admits one connection. After a successful \<open>Bind\<close>, no sequence of
  manager operations that does not issue the token again lets a second \<open>Bind\<close> of it succeed.\<close>

theorem bind_single_use:
  assumes "manager_inv sm" and "Bind sm now token owner s = (sm', True)"
    and "\<forall>e\<in>set es. \<not> issues token e"
  shows "Bind (foldl manager_step sm' es) now' token owner' s'
           = (foldl manager_step sm' es, False)"
proof -
  have "manager_step sm (EvBind now token owner s) = sm'"
    using assms(2) by simp
  then have "manager_inv sm'"
    using manager_step_inv [OF assms(1), of "EvBind now token owner s"] by simp
  moreover have "\<not> IsPreRegistered sm' token"
    using Bind_True_pending [OF assms(2)] by (simp add: IsPreRegistered_def)
  ultimately have "\<not> IsPreRegistered (foldl manager_step sm' es) token"
    using manager_run_not_pending assms(3) by blast
  then show ?thesis
    by (simp add: Bind_def IsPreRegistered_def mhas_def)
qed

definition demo_session :: session_ptr where
  "demo_session = \<lparr>sp_addr = 7, sp_ID = 1\<rparr>"

definition demo_manager :: manager where
  "demo_manager = PreRegisterForOwner NewManager 1000 ''tok'' ''own'' ''/w'' (Some [(''K'', ''V'')])"

lemma demo_manager_inv: "manager_inv demo_manager"
  using manager_step_inv [OF manager_inv_New, of "EvPreRegister 1000 ''tok'' ''own'' ''/w'' (Some [(''K'', ''V'')])"]
  by (simp add: demo_manager_def)

theorem bind_single_use_witness:
  "Bind (foldl manager_step (fst (Bind demo_manager 1001 ''tok'' ''own'' demo_session))
           [EvSweepPending 1002]) 1003 ''tok'' ''own'' demo_session
     = (foldl manager_step (fst (Bind demo_manager 1001 ''tok'' ''own'' demo_session))
           [EvSweepPending 1002], False)"
proof -
  have b: "Bind demo_manager 1001 ''tok'' ''own'' demo_session
             = (fst (Bind demo_manager 1001 ''tok'' ''own'' demo_session), True)"
    by (simp add: demo_manager_def PreRegisterForOwner_def Bind_def Let_def NewManager_def)
  show ?thesis
    by (rule bind_single_use [OF demo_manager_inv b]) simp
qed



section \<open>Removing a session\<close>

lemma RemoveSession_inflight:
  "manager_inv sm \<Longrightarrow> mget (inflight (RemoveSession sm now sid)) r =
     (case mget (inflight sm) r of
        None \<Rightarrow> None | Some sid' \<Rightarrow> if sid' = sid then None else Some sid')"
  by (simp add: RemoveSession_def Let_def mget_mkeep manager_inv_def split: option.split)

lemma RemoveSession_inv: "manager_inv sm \<Longrightarrow> manager_inv (RemoveSession sm now sid)"
  using manager_step_inv [of sm "EvRemoveSession now sid"] by simp

text \<open>removing a session removes exactly its own in-flight requests, no server callback is
  routed to it any more, and a token it had consumed stays usable for reconnecting for the full
  history lifetime counted from the disconnect.\<close>

theorem remove_session_correct:
  assumes "manager_inv sm" and "sm' = RemoveSession sm now sid"
  shows "(\<forall>r. mget (inflight sm') r =
            (case mget (inflight sm) r of
               None \<Rightarrow> None | Some sid' \<Rightarrow> if sid' = sid then None else Some sid')) \<and>
         GetSession sm' sid = None \<and>
         (\<forall>ctx. ResolveCallback sm' = Some ctx \<longrightarrow> sp_ID (ctx_Session ctx) \<noteq> sid) \<and>
         (\<forall>token hist ctx now'.
            mget (sessions sm) sid = Some ctx \<longrightarrow> mget (bound sm) token = Some hist \<longrightarrow>
            bh_Session hist = Some (ctx_Session ctx) \<longrightarrow>
            (LookupHistory sm' now' token \<noteq> None \<longleftrightarrow> time_sub now' now \<le> boundTokenTTL))"
proof (intro conjI allI impI)
  show "mget (inflight sm') r =
          (case mget (inflight sm) r of
             None \<Rightarrow> None | Some sid' \<Rightarrow> if sid' = sid then None else Some sid')" for r
    using assms by (simp add: RemoveSession_inflight)
  show gone: "GetSession sm' sid = None"
    using assms(2) by (simp add: RemoveSession_def GetSession_def Let_def)
  show "sp_ID (ctx_Session ctx) \<noteq> sid" if r: "ResolveCallback sm' = Some ctx" for ctx
  proof -
    obtain k where "mget (sessions sm') k = Some ctx"
      using r by (auto simp: ResolveCallback_def split: list.splits)
    moreover have "manager_inv sm'"
      using assms RemoveSession_inv by simp
    ultimately show ?thesis
      using gone by (auto simp: manager_inv_def GetSession_def)
  qed
  show "LookupHistory sm' now' token \<noteq> None \<longleftrightarrow> time_sub now' now \<le> boundTokenTTL"
    if "mget (sessions sm) sid = Some ctx" and "mget (bound sm) token = Some hist"
      and "bh_Session hist = Some (ctx_Session ctx)" for token hist ctx now'
    using assms(2) that
    by (simp add: RemoveSession_def Let_def LookupHistory_def detachBound_def
          boundExpiredLocked_def boundIsLiveLocked_def not_less)
qed

definition demo_bound :: manager where
  "demo_bound = fst (Bind (RegisterSession demo_manager 1000 demo_session ''/x'') 1001 ''tok'' ''own''
     demo_session)"

lemma demo_bound_inv: "manager_inv demo_bound"
  using smm.run_inv [OF demo_manager_inv, of
      "[EvRegisterSession 1000 demo_session ''/x'', EvBind 1001 ''tok'' ''own'' demo_session]"]
  by (simp add: demo_bound_def)

lemmas demo_simps =
  demo_bound_def demo_manager_def PreRegisterForOwner_def RegisterSession_def Bind_def Let_def
  NewManager_def demo_session_def mget_def mput_def mdel_def

theorem remove_session_correct_witness:
  "GetSession (RemoveSession demo_bound 2000 1) 1 = None \<and>
   LookupHistory (RemoveSession demo_bound 2000 1) 3000 ''tok'' \<noteq> None"
proof -
  let ?h = "\<lparr>bh_OwnerKey = ''own'', bh_Cwd = ''/w'', bh_Env = Some [(''K'', ''V'')], bh_BoundAt = 1001,
             bh_LastUsed = 1001, bh_Session = Some demo_session\<rparr>"
  let ?c = "\<lparr>ctx_Session = demo_session, ctx_Cwd = ''/w'', ctx_Env = Some [(''K'', ''V'')]\<rparr>"
  have c: "mget (sessions demo_bound) 1 = Some ?c" and h: "mget (bound demo_bound) ''tok'' = Some ?h"
    by (simp_all add: demo_simps)
  have t: "time_sub 3000 2000 \<le> boundTokenTTL"
    by (simp add: time_sub_def boundTokenTTL_def seconds_def)
  show ?thesis
    using remove_session_correct [OF demo_bound_inv refl, of 2000 1] c h t by auto
qed

section \<open>Reconnect history\<close>

lemma SweepExpiredBound_lookup:
  assumes "manager_inv sm"
  shows "LookupHistory (fst (SweepExpiredBound sm now)) now token = LookupHistory sm now token"
  using assms
  by (auto simp: SweepExpiredBound_def LookupHistory_def Let_def mget_mkeep manager_inv_def
        boundExpiredLocked_def boundIsLiveLocked_def split: option.splits)

lemma ImportBoundHistory_other:
  "(\<forall>e\<in>set es. bs_Token e \<noteq> token) \<Longrightarrow>
     mget (bound (fst (ImportBoundHistory sm now es))) token = mget (bound sm) token"
  by (induction es arbitrary: sm)
     (auto simp: case_prod_beta importEntry_def Let_def split: option.splits if_splits)

lemma ImportBoundHistory_get:
  assumes "e \<in> set es" and "importEntry now e = Some (token, hist)"
    and "distinct (map bs_Token es)"
  shows "mget (bound (fst (ImportBoundHistory sm now es))) token = Some hist"
  using assms
proof (induction es arbitrary: sm)
  case Nil
  then show ?case by simp
next
  case (Cons d es)
  have tok: "bs_Token e = token"
    using Cons.prems(2) by (auto simp: importEntry_def Let_def split: if_splits)
  show ?case
  proof (cases "d = e")
    case True
    then have "\<forall>x\<in>set es. bs_Token x \<noteq> token"
      using Cons.prems(3) tok by simp (metis image_eqI)
    then show ?thesis
      using True Cons.prems(2) by (simp add: case_prod_beta ImportBoundHistory_other)
  next
    case False
    then show ?thesis
      using Cons by (auto simp: case_prod_beta split: option.split)
  qed
qed

lemma exportEntry_token: "exportEntry sm now (token, hist) = Some e \<Longrightarrow> bs_Token e = token"
  by (auto simp: exportEntry_def Let_def split: if_splits)

lemma set_map_filter: "set (List.map_filter f xs) = {y. \<exists>x\<in>set xs. f x = Some y}"
  by (force simp: List.map_filter_def)

lemma distinct_export: "distinct (map fst xs) \<Longrightarrow>
   distinct (map bs_Token (List.map_filter (exportEntry sm now) xs))"
proof (induction xs)
  case Nil
  then show ?case by (simp add: List.map_filter_def)
next
  case (Cons p xs)
  have "bs_Token e \<notin> bs_Token ` set (List.map_filter (exportEntry sm now) xs)"
    if "exportEntry sm now p = Some e" for e
    using that Cons.prems exportEntry_token
    by (cases p) (auto simp: set_map_filter, metis fst_conv image_eqI)
  with Cons show ?case
    by (auto simp: List.map_filter_simps split: option.split)
qed

text \<open>A history entry that survives a snapshot: it has an owner and a time of last use.\<close>

definition restorable :: "manager \<Rightarrow> bool" where
  "restorable sm \<longleftrightarrow> (\<forall>(token, hist)\<in>set (bound sm).
     token \<noteq> [] \<and> bh_OwnerKey hist \<noteq> [] \<and> bh_LastUsed hist \<noteq> 0)"

lemma in_export_iff:
  assumes "manager_inv sm"
  shows "e \<in> set (ExportBoundHistory sm now) \<longleftrightarrow>
    (\<exists>hist. mget (bound sm) (bs_Token e) = Some hist \<and>
            exportEntry sm now (bs_Token e, hist) = Some e)"
proof -
  have iff: "mget (bound sm) k = Some v \<longleftrightarrow> (k, v) \<in> set (bound sm)" for k v
    using assms by (simp add: manager_inv_def mget_Some_iff)
  show ?thesis
    unfolding iff ExportBoundHistory_def set_map_filter by (auto dest: exportEntry_token)
qed

lemma exportEntry_Some_iff:
  assumes "token \<noteq> []" and "bh_OwnerKey hist \<noteq> []"
  shows "exportEntry sm now (token, hist) =
    (if boundExpiredLocked sm hist now then None
     else Some \<lparr>bs_Token = token, bs_OwnerKey = bh_OwnerKey hist, bs_Cwd = bh_Cwd hist,
            bs_Env = bh_Env hist, bs_BoundAt = bh_BoundAt hist,
            bs_LastUsed = (if boundIsLiveLocked sm hist then now else bh_LastUsed hist)\<rparr>)"
  using assms by (simp add: exportEntry_def boundExpiredLocked_def Let_def)

text \<open>The history entry a successor daemon rebuilds from an exported one.\<close>

definition restoredHistory :: "manager \<Rightarrow> time \<Rightarrow> boundHistory \<Rightarrow> boundHistory" where
  "restoredHistory sm now hist =
     (let lastUsed = (if boundIsLiveLocked sm hist then now else bh_LastUsed hist)
      in \<lparr>bh_OwnerKey = bh_OwnerKey hist, bh_Cwd = bh_Cwd hist, bh_Env = bh_Env hist,
          bh_BoundAt = (if bh_BoundAt hist = 0 then lastUsed else bh_BoundAt hist),
          bh_LastUsed = lastUsed, bh_Session = None\<rparr>)"

lemma import_exported_entry:
  assumes "token \<noteq> []" and "bh_OwnerKey hist \<noteq> []" and "bh_LastUsed hist \<noteq> 0" and "now \<noteq> 0"
    and "exportEntry sm now (token, hist) = Some e"
  shows "importEntry now e = Some (token, restoredHistory sm now hist)"
proof -
  let ?e = "\<lparr>bs_Token = token, bs_OwnerKey = bh_OwnerKey hist, bs_Cwd = bh_Cwd hist,
            bs_Env = bh_Env hist, bs_BoundAt = bh_BoundAt hist,
            bs_LastUsed = (if boundIsLiveLocked sm hist then now else bh_LastUsed hist)\<rparr>"
  have "e = ?e" and "\<not> boundExpiredLocked sm hist now"
    using assms(5) by (simp_all add: exportEntry_Some_iff [OF assms(1,2)] split: if_splits)
  then show ?thesis
    using assms(1-4)
    by (auto simp: importEntry_def boundExpiredLocked_def restoredHistory_def Let_def
          boundTokenTTL_def seconds_def)
qed

lemma import_export_get:
  assumes inv: "manager_inv sm" and "restorable sm" and "now \<noteq> 0"
  shows "mget (bound (fst (ImportBoundHistory NewManager now (ExportBoundHistory sm now)))) token =
    (case mget (bound sm) token of
       None \<Rightarrow> None
     | Some hist \<Rightarrow>
         if boundExpiredLocked sm hist now then None else Some (restoredHistory sm now hist))"
proof -
  let ?es = "ExportBoundHistory sm now"
  let ?b = "bound (fst (ImportBoundHistory NewManager now ?es))"
  have gone: "mget ?b token = None" if "\<forall>e \<in> set ?es. bs_Token e \<noteq> token"
    using ImportBoundHistory_other [OF that] by (simp add: NewManager_def)
  show ?thesis
  proof (cases "mget (bound sm) token")
    case None
    then show ?thesis
      using gone in_export_iff [OF inv] by fastforce
  next
    case (Some hist)
    then have "(token, hist) \<in> set (bound sm)"
      using inv by (simp add: manager_inv_def mget_Some_iff)
    then have ok: "token \<noteq> []" "bh_OwnerKey hist \<noteq> []" "bh_LastUsed hist \<noteq> 0"
      using assms(2) by (auto simp: restorable_def)
    show ?thesis
    proof (cases "exportEntry sm now (token, hist)")
      case None
      then have "\<forall>e \<in> set ?es. bs_Token e \<noteq> token"
        using Some in_export_iff [OF inv] by fastforce
      then show ?thesis
        using gone Some None ok by (simp add: exportEntry_Some_iff split: if_splits)
    next
      case e: (Some e)
      then have "e \<in> set ?es"
        using Some in_export_iff [OF inv] exportEntry_token by fastforce
      moreover have "distinct (map bs_Token ?es)"
        using distinct_export inv by (simp add: ExportBoundHistory_def manager_inv_def minv_def)
      ultimately show ?thesis
        using ImportBoundHistory_get import_exported_entry [OF ok assms(3) e] Some e ok
        by (simp add: exportEntry_Some_iff split: if_splits)
    qed
  qed
qed


lemma demo_restorable: "restorable demo_bound"
  by (simp add: restorable_def demo_simps)


section \<open>Reconnecting\<close>

lemma reconnectCommit_Err:
  "reconnectCommit sm now prev (token, owner, cwd, e) = (sm', Inl err) \<Longrightarrow>
     \<not> IsPreRegistered sm' token"
  by (auto simp: reconnectCommit_def IsPreRegistered_def Let_def split: option.splits if_splits)

lemma reconnectCommit_Ok:
  "reconnectCommit sm now prev (token, owner, cwd, e) = (sm', Inr tok) \<Longrightarrow>
     tok = token \<and> IsPreRegistered sm' token \<and> pending sm' = pending sm \<and>
     sessions sm' = sessions sm \<and> LookupHistory sm' now token = Some (owner, cwd, e)"
  by (auto simp: reconnectCommit_def IsPreRegistered_def LookupHistory_def boundExpiredLocked_def
        boundTokenTTL_def seconds_def Let_def split: option.splits if_splits)

text \<open>whatever the other goroutines do while the liveness callback runs, a reconnect either
  fails and leaves its reservation revoked, or returns the freshly generated token, reserved for
  the owner that the previous token was bound to and backed by a history entry with the same
  project context; it succeeds only if that owner is alive.\<close>

theorem register_reconnect_correct:
  assumes "RegisterReconnect sm now prev gen ownerAlive other now' = (sm', r)"
    and "\<forall>token. gen = Some token \<longrightarrow> \<not> IsPreRegistered sm token"
  shows "case r of
      Inl err \<Rightarrow> (\<forall>token. gen = Some token \<longrightarrow> \<not> IsPreRegistered sm' token)
    | Inr token \<Rightarrow>
        gen = Some token \<and> IsPreRegistered sm' token \<and>
        (\<exists>owner cwd e. LookupHistory sm now prev = Some (owner, cwd, e) \<and> ownerAlive owner \<and>
           LookupHistory sm' now' token = Some (owner, cwd, e))"
proof (cases "reconnectReserve sm now prev gen")
  case (Pair sm1 res)
  show ?thesis
  proof (cases res)
    case (Inl err)
    then have "pending sm1 = pending sm"
      using Pair by (auto simp: reconnectReserve_def Let_def split: option.splits if_splits)
    then show ?thesis
      using assms Pair Inl by (auto simp: RegisterReconnect_def IsPreRegistered_def)
  next
    case (Inr q)
    obtain token owner cwd e where q: "q = (token, owner, cwd, e)"
      by (cases q) auto
    have res: "gen = Some token" "LookupHistory sm now prev = Some (owner, cwd, e)"
      using Pair Inr q
      by (auto simp: reconnectReserve_def LookupHistory_def Let_def split: option.splits if_splits)
    show ?thesis
    proof (cases "ownerAlive owner")
      case True
      then have "reconnectCommit (other sm1) now' prev (token, owner, cwd, e) = (sm', r)"
        using assms(1) Pair Inr q by (simp add: RegisterReconnect_def Let_def)
      then show ?thesis
        using True res reconnectCommit_Err reconnectCommit_Ok by (cases r) fastforce+
    next
      case False
      then show ?thesis
        using assms(1) Pair Inr q res
        by (auto simp: RegisterReconnect_def Let_def IsPreRegistered_def)
    qed
  qed
qed

theorem register_reconnect_correct_witness:
  "\<exists>sm'. RegisterReconnect demo_bound 2000 ''tok'' (Some ''fresh'') (\<lambda>k. k = ''own'')
            (\<lambda>sm. RemoveSession sm 2001 1) 2002 = (sm', Inr ''fresh'') \<and>
     IsPreRegistered sm' ''fresh'' \<and>
     LookupHistory sm' 2002 ''fresh'' = Some (''own'', ''/w'', Some [(''K'', ''V'')])"
proof -
  let ?R = "RegisterReconnect demo_bound 2000 ''tok'' (Some ''fresh'') (\<lambda>k. k = ''own'')
            (\<lambda>sm. RemoveSession sm 2001 1) 2002"
  have lk: "LookupHistory demo_bound 2000 ''tok'' = Some (''own'', ''/w'', Some [(''K'', ''V'')])"
    by (simp add: demo_simps LookupHistory_def boundExpiredLocked_def boundIsLiveLocked_def)
  have fresh: "\<forall>token. Some ''fresh'' = Some token \<longrightarrow> \<not> IsPreRegistered demo_bound token"
    by (simp add: IsPreRegistered_def mhas_def demo_simps)
  have ok: "snd ?R = Inr ''fresh''"
    by (simp add: RegisterReconnect_def reconnectReserve_def reconnectCommit_def RemoveSession_def
          demo_simps boundExpiredLocked_def boundIsLiveLocked_def mhas_def mmapv_def detachBound_def
          time_sub_def boundTokenTTL_def seconds_def)
  have "?R = (fst ?R, Inr ''fresh'')"
    using ok by (metis prod.collapse)
  then show ?thesis
    using register_reconnect_correct [OF _ fresh, of 2000 "''tok''" "\<lambda>k. k = ''own''"
        "\<lambda>sm. RemoveSession sm 2001 1" 2002 "fst ?R" "Inr ''fresh''"] lk by auto
qed

section \<open>Routing server callbacks\<close>

lemma resolveBest_pick:
  assumes "\<exists>sid\<in>set sids. lastActiveOf sm sid > bt"
  shows "resolveBest sm sids b bt \<in> set sids \<and>
         (\<forall>sid\<in>set sids. lastActiveOf sm sid \<le> lastActiveOf sm (resolveBest sm sids b bt)) \<and>
         bt < lastActiveOf sm (resolveBest sm sids b bt)"
  using assms
proof (induction sids arbitrary: b bt)
  case Nil
  then show ?case by simp
next
  case (Cons sid sids)
  show ?case
  proof (cases "lastActiveOf sm sid > bt")
    case True
    show ?thesis
    proof (cases "\<exists>x\<in>set sids. lastActiveOf sm x > lastActiveOf sm sid")
      case later: True
      show ?thesis
        using True Cons.IH [OF later, of sid] by auto
    next
      case False
      then have "resolveBest sm sids sid (lastActiveOf sm sid) = sid"
        by (induction sids) auto
      then show ?thesis
        using True False by (auto simp: not_less)
    qed
  next
    case False
    then have "\<exists>x\<in>set sids. lastActiveOf sm x > bt"
      using Cons.prems by auto
    note later = Cons.IH [OF this, of b]
    then have "lastActiveOf sm sid \<le> lastActiveOf sm (resolveBest sm sids b bt)"
      using False by simp
    then show ?thesis
      using False later by simp
  qed
qed

text \<open>a server-to-client callback goes to a session that has a request in flight, and when
  several do, to one whose last request is the most recent; with no request in flight it goes to
  none.\<close>

theorem resolve_callback_correct:
  assumes "\<forall>sid\<in>snd ` set (inflight sm). 0 < lastActiveOf sm sid"
  shows "(inflight sm = [] \<longrightarrow> ResolveCallback sm = None) \<and>
    (inflight sm \<noteq> [] \<longrightarrow>
       (\<exists>sid\<in>snd ` set (inflight sm).
          (\<forall>sid'\<in>snd ` set (inflight sm). lastActiveOf sm sid' \<le> lastActiveOf sm sid) \<and>
          ResolveCallback sm = GetSession sm sid))"
proof -
  let ?s = "remdups (map snd (inflight sm))"
  have set_s: "set ?s = snd ` set (inflight sm)"
    by simp
  consider "?s = []" | sid where "?s = [sid]" | a b xs where "?s = a # b # xs"
    by (metis list.exhaust)
  then show ?thesis
  proof cases
    case 1
    then show ?thesis by (simp add: ResolveCallback_def)
  next
    case (2 sid)
    then have "snd ` set (inflight sm) = {sid}"
      using set_s by simp
    moreover have "inflight sm \<noteq> []"
      using 2 by auto
    ultimately show ?thesis
      using 2 by (simp add: ResolveCallback_def GetSession_def)
  next
    case (3 a b xs)
    then have "a \<in> set ?s" by simp
    then have "\<exists>sid\<in>set ?s. lastActiveOf sm sid > 0"
      using assms set_s by blast
    note pick = resolveBest_pick [OF this, of 0]
    define best where "best = resolveBest sm ?s 0 0"
    have best: "best \<in> snd ` set (inflight sm)"
      "\<forall>sid\<in>snd ` set (inflight sm). lastActiveOf sm sid \<le> lastActiveOf sm best"
      using pick unfolding set_s best_def by blast+
    have "ResolveCallback sm = GetSession sm best"
      unfolding best_def using 3 by (simp add: ResolveCallback_def GetSession_def)
    moreover have "inflight sm \<noteq> []"
      using 3 by auto
    ultimately show ?thesis
      using best by blast
  qed
qed

theorem resolve_callback_correct_witness:
  "map_option ctx_Session (ResolveCallback (TrackRequest (TrackRequest demo_bound 10 ''a'' 5) 20 ''b'' 1))
     = Some demo_session"
proof -
  let ?sm = "TrackRequest (TrackRequest demo_bound 10 ''a'' 5) 20 ''b'' 1"
  have fl: "inflight ?sm = [(''a'', 5), (''b'', 1)]"
    by (simp add: TrackRequest_def demo_simps)
  have la: "lastActiveOf ?sm 5 = 10" "lastActiveOf ?sm 1 = 20"
    by (simp_all add: lastActiveOf_def TrackRequest_def demo_simps)
  have "map_option ctx_Session (GetSession ?sm 1) = Some demo_session"
    by (simp add: GetSession_def TrackRequest_def demo_simps)
  then show ?thesis
    using resolve_callback_correct [of ?sm] fl la by auto
qed

end
