(* ===== verification/Jsonrpc.thy ===== *)
theory Jsonrpc
  imports Struct_Decode
begin

text \<open>
  JSON-RPC messages on the multiplexing path (\<open>src/muxcore/jsonrpc\<close>): parsing just enough to route
  (\<open>message.go\<close>), replacing the id, adding metadata (\<open>meta.go\<close>) and splitting a stream into messages
  (\<open>scanner.go\<close>). A write to a nil map panics in Go; the functions where that can happen return
  \<open>None\<close> for it.
\<close>

section \<open>Messages\<close>

datatype MessageType = TypeRequest | TypeNotification | TypeResponse

record Message =
  msg_Type :: MessageType
  msg_ID :: "bytes option"
  msg_Method :: bytes
  msg_Raw :: bytes

record rawEnvelope =
  re_Method :: "bytes option"
  re_Result :: "bytes option"
  re_Error :: "bytes option"

definition unmarshalEnvelope :: "bytes \<Rightarrow> rawEnvelope result" where
  "unmarshalEnvelope data =
     (if isNullValue data then Ok \<lparr>re_Method = None, re_Result = None, re_Error = None\<rparr>
      else case jsonMembers data of
          None \<Rightarrow> Err ''json: cannot unmarshal into Go value''
        | Some ms \<Rightarrow>
            (case stringPtr None (fieldValues ''method'' ms) of
               None \<Rightarrow> Err ''json: cannot unmarshal into Go struct field rawEnvelope.method of type string''
             | Some m \<Rightarrow> Ok \<lparr>re_Method = m, re_Result = rawPtr (fieldValues ''result'' ms),
                            re_Error = rawPtr (fieldValues ''error'' ms)\<rparr>))"

definition Parse :: "bytes \<Rightarrow> Message result" where
  "Parse data =
     (if data = [] then Err ''jsonrpc: empty message''
      else case unmarshalMap data of
          None \<Rightarrow> Err ''jsonrpc: parse''
        | Some raw \<Rightarrow>
            (case unmarshalEnvelope data of
               Inl e \<Rightarrow> Err ''jsonrpc: parse''
             | Inr env \<Rightarrow>
                 (let i = (case raw of None \<Rightarrow> None | Some m \<Rightarrow> mget m ''id'');
                      msg = \<lparr>msg_Type = TypeRequest, msg_ID = i, msg_Method = [], msg_Raw = data\<rparr>
                  in case re_Method env of
                       Some method \<Rightarrow>
                         Ok (msg\<lparr>msg_Method := method,
                                 msg_Type := (if i \<noteq> None then TypeRequest else TypeNotification)\<rparr>)
                     | None \<Rightarrow>
                         (if re_Result env \<noteq> None \<or> re_Error env \<noteq> None
                          then (if i = None then Err ''jsonrpc: response without id''
                                else Ok (msg\<lparr>msg_Type := TypeResponse\<rparr>))
                          else Err ''jsonrpc: message has neither method nor result/error''))))"

definition IsNotification :: "Message \<Rightarrow> bool" where
  "IsNotification m \<longleftrightarrow> msg_Type m = TypeNotification"

definition IsRequest :: "Message \<Rightarrow> bool" where
  "IsRequest m \<longleftrightarrow> msg_Type m = TypeRequest"

definition IsResponse :: "Message \<Rightarrow> bool" where
  "IsResponse m \<longleftrightarrow> msg_Type m = TypeResponse"

definition MessageTypeString :: "MessageType \<Rightarrow> bytes" where
  "MessageTypeString t =
     (case t of TypeRequest \<Rightarrow> ''request'' | TypeNotification \<Rightarrow> ''notification'' | TypeResponse \<Rightarrow> ''response'')"

section \<open>Rewriting messages\<close>

definition marshalOr :: "bytes \<Rightarrow> (bytes, bytes) gomap \<Rightarrow> bytes result" where
  "marshalOr err m = (case marshalMap m of None \<Rightarrow> Err err | Some b \<Rightarrow> Ok b)"

text \<open>A map that may be nil: reading from a nil map finds nothing, writing to it panics.\<close>

definition nilget :: "('k, 'v) gomap option \<Rightarrow> 'k \<Rightarrow> 'v option" where
  "nilget m k = (case m of None \<Rightarrow> None | Some mm \<Rightarrow> mget mm k)"

definition nilput :: "('k, 'v) gomap option \<Rightarrow> 'k \<Rightarrow> 'v \<Rightarrow> ('k, 'v) gomap option" where
  "nilput m k v = map_option (\<lambda>mm. mput mm k v) m"

definition ReplaceID :: "bytes \<Rightarrow> bytes \<Rightarrow> bytes result option" where
  "ReplaceID raw newID =
     (case unmarshalMap raw of
        None \<Rightarrow> Some (Err ''jsonrpc: replace id'')
      | Some obj \<Rightarrow> map_option (marshalOr ''jsonrpc: marshal after replace'') (nilput obj ''id'' newID))"

definition metaParams :: "(bytes, bytes) gomap option \<Rightarrow> (bytes, bytes) gomap option result" where
  "metaParams obj =
     (case nilget obj ''params'' of
        None \<Rightarrow> Ok (Some [])
      | Some paramsRaw \<Rightarrow>
          (case unmarshalMap paramsRaw of None \<Rightarrow> Err ''inject meta: parse params'' | Some m \<Rightarrow> Ok m))"

definition metaObject :: "(bytes, bytes) gomap option \<Rightarrow> (bytes, bytes) gomap option" where
  "metaObject params =
     (case nilget params ''_meta'' of
        None \<Rightarrow> Some []
      | Some metaRaw \<Rightarrow> (case unmarshalMap metaRaw of None \<Rightarrow> Some [] | Some m \<Rightarrow> m))"

text \<open>\<open>InjectMeta\<close> with the value already encoded.\<close>

definition InjectMeta :: "bytes \<Rightarrow> bytes \<Rightarrow> bytes \<Rightarrow> bytes result option" where
  "InjectMeta raw key valueJSON =
     (case unmarshalMap raw of
        None \<Rightarrow> Some (Err ''inject meta: parse message'')
      | Some obj \<Rightarrow>
          (case metaParams obj of
             Inl e \<Rightarrow> Some (Err e)
           | Inr params \<Rightarrow>
               Option.bind (nilput (metaObject params) key valueJSON) (\<lambda>meta.
                 case marshalMap meta of
                   None \<Rightarrow> Some (Err ''inject meta: marshal _meta'')
                 | Some metaJSON \<Rightarrow>
                     Option.bind (nilput params ''_meta'' metaJSON) (\<lambda>params'.
                       case marshalMap params' of
                         None \<Rightarrow> Some (Err ''inject meta: marshal params'')
                       | Some paramsJSON \<Rightarrow>
                           map_option (marshalOr ''inject meta: marshal message'')
                             (nilput obj ''params'' paramsJSON)))))"

section \<open>Streams of messages\<close>

text \<open>
  \<open>bufio.Scanner\<close> with a buffer of 1 MiB: the next line without its terminator, an error when the
  line and its terminator do not fit the buffer, and at the end of the stream the rest as a last line.
\<close>

definition scanBuffer :: nat where
  "scanBuffer = 1024 * 1024"

datatype scan_error = ScanEOF | ScanErr bytes

definition dropCR :: "bytes \<Rightarrow> bytes" where
  "dropCR line = (if line \<noteq> [] \<and> last line = CHR 0x0D then butlast line else line)"

definition scanLine :: "bytes \<Rightarrow> scan_error + bytes \<times> bytes" where
  "scanLine input =
     (case cutByte (CHR 0x0A) input of
        Some (line, rest) \<Rightarrow>
          (if length line < scanBuffer then Inr (dropCR line, rest) else Inl (ScanErr ''bufio.Scanner: token too long''))
      | None \<Rightarrow>
          (if input = [] then Inl ScanEOF
           else if length input < scanBuffer then Inr (dropCR input, [])
           else Inl (ScanErr ''bufio.Scanner: token too long'')))"

lemma scanLine_shrinks: "scanLine input = Inr (line, rest) \<Longrightarrow> length rest < length input"
  by (auto simp: scanLine_def split: option.splits if_splits dest: cutByte_Some)

function Scan :: "bytes \<Rightarrow> scan_error + Message \<times> bytes" where
  "Scan input =
     (case scanLine input of
        Inl ScanEOF \<Rightarrow> Inl ScanEOF
      | Inl (ScanErr e) \<Rightarrow> Inl (ScanErr (''jsonrpc scanner: '' @ e))
      | Inr (line, rest) \<Rightarrow>
          (if line = [] then Scan rest
           else case Parse line of
               Inl e \<Rightarrow> Inl (ScanErr (''jsonrpc scanner: '' @ e))
             | Inr msg \<Rightarrow> Inr (msg, rest)))"
  by pat_completeness auto

termination Scan
  by (relation "measure length") (auto dest: scanLine_shrinks)

declare Scan.simps [simp del]

section \<open>What parsing promises\<close>

text \<open>
  Parsing classifies a message by its envelope and loses nothing. An accepted message keeps its
  bytes; it is a request when it has a method and an id, a notification when it has a method and no
  id, and a response, without a method and with an id, otherwise; the id is the exact text of the
  last id member of the object. A message is refused only when it is not an object, when a method is
  neither a string nor null, when a response has no id, or when it has neither method nor outcome.
\<close>
theorem parse_classifies:
  "(\<forall>msg. Parse data = Ok msg \<longrightarrow>
      msg_Raw msg = data \<and>
      (\<exists>m. unmarshalMap data = Some (Some m) \<and> msg_ID msg = mget m ''id'') \<and>
      (IsRequest msg \<or> IsNotification msg \<or> IsResponse msg) \<and>
      (IsRequest msg \<longrightarrow> msg_ID msg \<noteq> None) \<and>
      (IsNotification msg \<longleftrightarrow> msg_ID msg = None) \<and>
      (IsResponse msg \<longrightarrow> msg_Method msg = [] \<and> msg_ID msg \<noteq> None)) \<and>
   (\<forall>e. Parse data = Err e \<longrightarrow>
      unmarshalMap data = None \<or> unmarshalMap data = Some None \<or>
      (\<exists>m ms. unmarshalMap data = Some (Some m) \<and> jsonMembers data = Some ms \<and>
         (stringPtr None (fieldValues ''method'' ms) = None \<or>
          stringPtr None (fieldValues ''method'' ms) = Some None \<and>
            (mget m ''id'' = None \<or>
             rawPtr (fieldValues ''result'' ms) = None \<and> rawPtr (fieldValues ''error'' ms) = None))))"
proof -
  have null: "unmarshalEnvelope data = Ok \<lparr>re_Method = None, re_Result = None, re_Error = None\<rparr>"
    if "unmarshalMap data = Some None"
    using that by (auto simp: unmarshalMap_def unmarshalEnvelope_def isNullValue_def startsWith_def split: if_splits)
  have obj: "jsonMembers data \<noteq> None \<and> \<not> isNullValue data" if "unmarshalMap data = Some (Some m)" for m
    using that by (auto simp: unmarshalMap_def isNullValue_def startsWith_def split: if_splits)
  have nil: "unmarshalMap data \<noteq> Some (Some m)" if "data = []" for m
    using that by (simp add: unmarshalMap_def jsonValid_def jsonSkip_def skipWS_def)
  show ?thesis
  proof (cases "unmarshalMap data")
    case None
    then show ?thesis by (auto simp: Parse_def)
  next
    case (Some raw)
    show ?thesis
    proof (cases raw)
      case None
      then show ?thesis using Some null by (auto simp: Parse_def Let_def split: if_splits)
    next
      case m: (Some m)
      with Some obj obtain ms where "jsonMembers data = Some ms" "\<not> isNullValue data" by blast
      then show ?thesis
        using Some m nil [of m]
        by (auto simp: Parse_def unmarshalEnvelope_def Let_def IsRequest_def IsNotification_def IsResponse_def
            split: sum.splits option.splits if_splits)
    qed
  qed
qed

definition jq :: "bytes \<Rightarrow> bytes" where
  "jq s = CHR 0x22 # s @ [CHR 0x22]"

definition demo_request :: bytes where
  "demo_request = ''{'' @ jq ''id'' @ '':1,'' @ jq ''method'' @ '':'' @ jq ''ping'' @ ''}''"

lemma demo_request_parses:
  obtains msg where "Parse demo_request = Ok msg" "msg_ID msg = Some ''1''" "IsRequest msg"
proof -
  have "(case Parse demo_request of Inl _ \<Rightarrow> False | Inr m \<Rightarrow> msg_ID m = Some ''1'' \<and> msg_Type m = TypeRequest)"
    by code_simp
  then show thesis using that by (auto simp: IsRequest_def split: sum.splits)
qed

theorem parse_classifies_witness:
  "\<exists>msg m. Parse demo_request = Ok msg \<and> msg_Raw msg = demo_request \<and>
     unmarshalMap demo_request = Some (Some m) \<and> msg_ID msg = mget m ''id''"
proof -
  obtain msg where "Parse demo_request = Ok msg" by (rule demo_request_parses)
  then show ?thesis using parse_classifies [of demo_request] by blast
qed

section \<open>Framing\<close>

lemma Scan_shrinks: "Scan input = Inr (msg, rest) \<Longrightarrow> length rest < length input"
proof (induction input rule: Scan.induct)
  case (1 input)
  show ?case
  proof (cases "scanLine input")
    case (Inl e)
    then show ?thesis using "1.prems" by (cases e) (simp_all add: Scan.simps [of input])
  next
    case (Inr p)
    obtain line rest' where p: "p = (line, rest')" by fastforce
    have "length rest' < length input" using Inr p scanLine_shrinks by blast
    then show ?thesis
      using "1.prems" "1.IH" [OF Inr p [symmetric]] Inr p
      by (auto simp: Scan.simps [of input] split: if_splits sum.splits)
  qed
qed

text \<open>Every message of a stream, and why the stream ended.\<close>

function scanAll :: "bytes \<Rightarrow> Message list \<times> scan_error" where
  "scanAll input =
     (case Scan input of
        Inl e \<Rightarrow> ([], e)
      | Inr (msg, rest) \<Rightarrow> (case scanAll rest of (msgs, e) \<Rightarrow> (msg # msgs, e)))"
  by pat_completeness auto

termination scanAll
  by (relation "measure length") (auto dest: Scan_shrinks)

declare scanAll.simps [simp del]

definition framed :: "bytes list \<Rightarrow> bytes" where
  "framed lines = concat (map (\<lambda>line. line @ [CHR 0x0A]) lines)"

lemma scanLine_framed:
  assumes "CHR 0x0A \<notin> set line" and "length line < scanBuffer" and "line \<noteq> []" and "last line \<noteq> CHR 0x0D"
  shows "scanLine (line @ CHR 0x0A # rest) = Inr (line, rest)"
  using assms by (simp add: scanLine_def cutByte_append dropCR_def)



section \<open>Nil maps\<close>

text \<open>
  C38: Adding metadata panics only on null. \<open>InjectMeta\<close> returns a message or an error unless the
  message itself, its params or the _meta member of its params is the JSON value null.
\<close>
theorem inject_meta_panics_only_on_null:
  assumes "InjectMeta raw key valueJSON = None"
  shows "unmarshalMap raw = Some None \<or>
    (\<exists>obj paramsRaw. unmarshalMap raw = Some (Some obj) \<and> mget obj ''params'' = Some paramsRaw \<and>
       (unmarshalMap paramsRaw = Some None \<or>
        (\<exists>params metaRaw. unmarshalMap paramsRaw = Some (Some params) \<and> mget params ''_meta'' = Some metaRaw \<and>
           unmarshalMap metaRaw = Some None)))"
proof (cases "unmarshalMap raw")
  case None
  then show ?thesis using assms by (simp add: InjectMeta_def)
next
  case (Some obj)
  then obtain params where p: "metaParams obj = Ok params"
    using assms by (auto simp: InjectMeta_def split: sum.splits)
  show ?thesis
  proof (cases "obj = None \<or> params = None \<or> metaObject params = None")
    case True
    then show ?thesis
      using Some p by (cases obj) (auto simp: metaParams_def metaObject_def nilget_def split: option.splits)
  next
    case False
    then show ?thesis
      using assms Some p by (auto simp: InjectMeta_def nilput_def split: option.splits bind_splits)
  qed
qed

definition null_params_request :: bytes where
  "null_params_request = ''{'' @ jq ''id'' @ '':1,'' @ jq ''method'' @ '':'' @ jq ''tools/call'' @ '','' @ jq ''params'' @ '':null}''"

text \<open>The panic does happen: a well-formed request with null params is enough.\<close>

lemma inject_meta_null_params: "InjectMeta null_params_request ''muxSessionId'' (jq ''sess_1'') = None"
  by code_simp

theorem inject_meta_panics_only_on_null_witness:
  "InjectMeta null_params_request ''muxSessionId'' (jq ''sess_1'') = None \<and>
   (\<exists>obj paramsRaw. unmarshalMap null_params_request = Some (Some obj) \<and> mget obj ''params'' = Some paramsRaw)"
proof -
  have "unmarshalMap null_params_request \<noteq> Some None" by code_simp
  then show ?thesis
    using inject_meta_panics_only_on_null [OF inject_meta_null_params] inject_meta_null_params by blast
qed

end
