(* ===== verification/Session_Conn.thy ===== *)
theory Session_Conn
  imports Session_Manager Jsonrpc "HOL-Library.Sublist"
begin

text \<open>
  One downstream client connection (\<open>src/muxcore/session/session.go\<close>). The connection itself is the
  list of answers to the next writes (\<open>False\<close> is a write error; when the list is exhausted, writes
  succeed) and the list of lines that reached the client. The notification channel is its content,
  oldest first; the goroutine that drains it is the step \<open>drainNotification\<close>.
\<close>

section \<open>Data\<close>

definition notificationBufferSize :: nat where
  "notificationBufferSize = 256"

text \<open>The zero time is \<open>None\<close>.\<close>

record SessionMeta =
  me_SessionID :: bytes
  me_Conn :: "int \<times> int \<times> bytes"
  me_TenantID :: bytes
  me_AuthorizedAt :: "time option"

definition IsAuthorized :: "SessionMeta \<Rightarrow> bool" where
  "IsAuthorized sm \<longleftrightarrow> me_AuthorizedAt sm \<noteq> None"

record Session =
  se_ptr :: session_ptr
  se_MuxSessionID :: bytes
  se_Cwd :: bytes
  se_Env :: env
  se_meta :: SessionMeta
  se_notifCh :: "bytes list"
  se_draining :: bool
  se_closed :: bool
  se_answers :: "bool list"
  se_out :: "bytes list"

abbreviation se_ID :: "Session \<Rightarrow> int" where
  "se_ID s \<equiv> sp_ID (se_ptr s)"

section \<open>Operations\<close>

text \<open>
  \<open>NewSession\<close>: the address, the number and the random texts are arguments.
\<close>

definition NewSession :: "session_ptr \<Rightarrow> bytes \<Rightarrow> bytes \<Rightarrow> Session" where
  "NewSession p muxID sid =
     \<lparr>se_ptr = p, se_MuxSessionID = muxID, se_Cwd = [], se_Env = None,
      se_meta = \<lparr>me_SessionID = sid, me_Conn = (0, 0, []), me_TenantID = [], me_AuthorizedAt = None\<rparr>,
      se_notifCh = [], se_draining = True, se_closed = False, se_answers = [], se_out = []\<rparr>"

definition SetMeta :: "Session \<Rightarrow> SessionMeta \<Rightarrow> Session" where
  "SetMeta s m = s\<lparr>se_meta := m\<lparr>me_SessionID := me_SessionID (se_meta s)\<rparr>\<rparr>"

definition nextOk :: "bool list \<Rightarrow> bool \<times> bool list" where
  "nextOk answers = (case answers of [] \<Rightarrow> (True, []) | a # as \<Rightarrow> (a, as))"

text \<open>\<open>True\<close> is success.\<close>

definition WriteRaw :: "Session \<Rightarrow> bytes \<Rightarrow> Session \<times> bool" where
  "WriteRaw s data =
     (if se_closed s then (s, False)
      else case nextOk (se_answers s) of
          (ok, as) \<Rightarrow>
            (if ok then (s\<lparr>se_answers := as, se_out := se_out s @ [data]\<rparr>, True)
             else (s\<lparr>se_answers := as\<rparr>, False)))"

definition WriteMessage :: "Session \<Rightarrow> bytes \<Rightarrow> bytes \<Rightarrow> Session \<times> bool" where
  "WriteMessage s i resultJSON =
     (case (compact i, compact resultJSON) of
        (Some i', Some r') \<Rightarrow>
          WriteRaw s (''{'' @ CHR 0x22 # ''jsonrpc'' @ [CHR 0x22] @ '':'' @ quote ''2.0'' @ '','' @
                      CHR 0x22 # ''id'' @ [CHR 0x22] @ '':'' @ i' @ '','' @
                      CHR 0x22 # ''result'' @ [CHR 0x22] @ '':'' @ r' @ ''}'')
      | _ \<Rightarrow> (s, False))"

definition CloseSession :: "Session \<Rightarrow> Session" where
  "CloseSession s = s\<lparr>se_closed := True\<rparr>"

definition IsClosed :: "Session \<Rightarrow> bool" where
  "IsClosed s = se_closed s"

text \<open>
  Queueing a notification: an immediate send when the buffer has room, otherwise the oldest one is
  received and dropped and a plain channel send follows, which blocks (\<open>None\<close>) when the buffer has
  filled up again. \<open>other\<close> is what other goroutines do to the session between the two.
\<close>

definition trySend :: "Session \<Rightarrow> bytes \<Rightarrow> Session option" where
  "trySend s data =
     (if length (se_notifCh s) < notificationBufferSize
      then Some (s\<lparr>se_notifCh := se_notifCh s @ [data]\<rparr>) else None)"

definition sendInterleaved :: "(Session \<Rightarrow> Session) \<Rightarrow> Session \<Rightarrow> bytes \<Rightarrow> Session option" where
  "sendInterleaved other s data =
     (if se_closed s then Some s
      else case trySend s data of
          Some s' \<Rightarrow> Some s'
        | None \<Rightarrow> trySend (other (s\<lparr>se_notifCh := tl (se_notifCh s)\<rparr>)) data)"

text \<open>The same without interference.\<close>

definition SendNotification :: "Session \<Rightarrow> bytes \<Rightarrow> Session" where
  "SendNotification s data =
     (if se_closed s then s
      else if length (se_notifCh s) < notificationBufferSize
      then s\<lparr>se_notifCh := se_notifCh s @ [data]\<rparr>
      else s\<lparr>se_notifCh := tl (se_notifCh s) @ [data]\<rparr>)"

text \<open>
  One round of \<open>drainNotifications\<close>: a write error ends the goroutine, closing the session ends it
  too (Go may still pick the queue when both are ready, so the argument says which case is taken).
\<close>

definition drainNotification :: "Session \<Rightarrow> bool \<Rightarrow> Session" where
  "drainNotification s takeDone =
     (if \<not> se_draining s then s
      else if se_closed s \<and> takeDone then s\<lparr>se_draining := False\<rparr>
      else case se_notifCh s of
          [] \<Rightarrow> s
        | data # rest \<Rightarrow>
            (case WriteRaw (s\<lparr>se_notifCh := rest\<rparr>) data of
               (s', ok) \<Rightarrow> if ok then s' else s'\<lparr>se_draining := False\<rparr>))"

section \<open>Facts\<close>

lemma WriteRaw_keeps [simp]:
  "se_ptr (fst (WriteRaw s d)) = se_ptr s" "se_closed (fst (WriteRaw s d)) = se_closed s"
  "se_notifCh (fst (WriteRaw s d)) = se_notifCh s" "se_Cwd (fst (WriteRaw s d)) = se_Cwd s"
  "se_Env (fst (WriteRaw s d)) = se_Env s" "se_meta (fst (WriteRaw s d)) = se_meta s"
  by (auto simp: WriteRaw_def split: prod.split)

lemma WriteRaw_out: "se_out (fst (WriteRaw s d)) = se_out s @ (if snd (WriteRaw s d) then [d] else [])"
  by (auto simp: WriteRaw_def split: prod.split)

lemma SendNotification_keeps [simp]:
  "se_ptr (SendNotification s d) = se_ptr s" "se_closed (SendNotification s d) = se_closed s"
  "se_out (SendNotification s d) = se_out s" "se_meta (SendNotification s d) = se_meta s"
  by (auto simp: SendNotification_def)

section \<open>The notification queue\<close>

datatype conn_op = OpSend bytes | OpDrain bool | OpWrite bytes | OpClose

fun conn_step :: "Session \<Rightarrow> conn_op \<Rightarrow> Session" where
  "conn_step s (OpSend data) = SendNotification s data"
| "conn_step s (OpDrain takeDone) = drainNotification s takeDone"
| "conn_step s (OpWrite data) = fst (WriteRaw s data)"
| "conn_step s OpClose = CloseSession s"

text \<open>The notifications that were accepted, in order, while the session was open.\<close>

fun accepted :: "Session \<Rightarrow> conn_op list \<Rightarrow> bytes list" where
  "accepted s [] = []"
| "accepted s (op # ops) =
     (case op of OpSend data \<Rightarrow> if se_closed s then [] else [data] | _ \<Rightarrow> []) @ accepted (conn_step s op) ops"

lemma suffix_tl_of: "suffix xs ys \<Longrightarrow> suffix (tl xs) ys"
  using suffix_order.order_trans suffix_tl by blast

lemma suffix_snoc_iff: "suffix (xs @ [d]) (ys @ [d]) \<longleftrightarrow> suffix xs ys"
  by (auto simp: suffix_def)

lemma SendNotification_queue:
  "se_notifCh (SendNotification s d) =
     (if se_closed s then se_notifCh s
      else if length (se_notifCh s) < notificationBufferSize then se_notifCh s @ [d] else tl (se_notifCh s) @ [d])"
  by (simp add: SendNotification_def)

lemma drainNotification_queue:
  "se_notifCh (drainNotification s b) = se_notifCh s \<or> se_notifCh (drainNotification s b) = tl (se_notifCh s)"
proof (cases "se_draining s \<and> \<not> (se_closed s \<and> b)")
  case True
  then show ?thesis
  proof (cases "se_notifCh s")
    case (Cons data rest)
    let ?w = "WriteRaw (s\<lparr>se_notifCh := rest\<rparr>) data"
    have "se_notifCh (fst ?w) = rest" by simp
    then show ?thesis using True Cons by (cases ?w) (auto simp: drainNotification_def)
  qed (auto simp: drainNotification_def)
qed (auto simp: drainNotification_def)

text \<open>A full buffer keeps the newest notifications.\<close>

definition newest :: "bytes list \<Rightarrow> bytes list \<Rightarrow> bool" where
  "newest queue sent \<longleftrightarrow> length queue \<le> notificationBufferSize \<and> suffix queue sent"

lemma newest_send: "newest q sent \<Longrightarrow> length q < notificationBufferSize \<Longrightarrow> newest (q @ [d]) (sent @ [d])"
  by (simp add: newest_def suffix_snoc_iff)

lemma newest_drop: "newest q sent \<Longrightarrow> newest (tl q) sent"
  by (auto simp: newest_def intro: suffix_tl_of)

lemma newest_replace: "newest q sent \<Longrightarrow> newest (tl q @ [d]) (sent @ [d])"
proof (cases "q = []")
  case True
  then show ?thesis by (simp add: newest_def suffix_def notificationBufferSize_def)
next
  case False
  then have "length (tl q) < notificationBufferSize" if "newest q sent"
    using that by (cases q) (auto simp: newest_def)
  moreover assume "newest q sent"
  ultimately show ?thesis using newest_drop newest_send by blast
qed

lemma conn_step_newest:
  assumes "newest (se_notifCh s) sent"
  shows "newest (se_notifCh (conn_step s op)) (sent @ accepted s [op])"
proof (cases op)
  case (OpSend d)
  then show ?thesis using assms newest_send newest_replace by (auto simp: SendNotification_queue)
next
  case (OpDrain b)
  then show ?thesis using assms newest_drop drainNotification_queue [of s b] by auto
qed (use assms in \<open>auto simp: CloseSession_def\<close>)

lemma accepted_Cons: "accepted s (op # ops) = accepted s [op] @ accepted (conn_step s op) ops"
  by simp

lemma conn_run_newest:
  "newest (se_notifCh s) sent \<Longrightarrow> newest (se_notifCh (foldl conn_step s ops)) (sent @ accepted s ops)"
proof (induction ops arbitrary: s sent)
  case (Cons op ops)
  have "newest (se_notifCh (foldl conn_step (conn_step s op) ops))
      ((sent @ accepted s [op]) @ accepted (conn_step s op) ops)"
    by (rule Cons.IH [OF conn_step_newest [OF Cons.prems]])
  then show ?case unfolding foldl_Cons accepted_Cons [of s op ops] append_assoc .
qed simp

text \<open>
  The notification queue of a client keeps the newest notifications. Whatever mix of sends,
  deliveries, direct writes and closing a new session sees, its buffer never holds more than 256
  notifications, and what it holds is the end of the sequence of accepted notifications, in order:
  under pressure only the oldest ones are lost.
\<close>
theorem notification_queue_newest:
  "length (se_notifCh (foldl conn_step (NewSession p muxID sid) ops)) \<le> notificationBufferSize \<and>
   suffix (se_notifCh (foldl conn_step (NewSession p muxID sid) ops)) (accepted (NewSession p muxID sid) ops)"
proof -
  have "newest (se_notifCh (NewSession p muxID sid)) []"
    by (simp add: NewSession_def newest_def)
  from conn_run_newest [OF this, of ops] show ?thesis by (simp add: newest_def)
qed

text \<open>
  Alone, a sender never blocks and does what \<open>SendNotification\<close> says; but when another sender takes
  the slot that it has freed, the second send of a full buffer blocks.
\<close>

lemma sendInterleaved_alone:
  "length (se_notifCh s) \<le> notificationBufferSize \<Longrightarrow>
   sendInterleaved (\<lambda>s. s) s data = Some (SendNotification s data)"
  by (auto simp: sendInterleaved_def trySend_def SendNotification_def notificationBufferSize_def)

lemma concurrent_send_blocks:
  assumes "\<not> se_closed s" and "length (se_notifCh s) = notificationBufferSize"
  shows "sendInterleaved (\<lambda>s. SendNotification s other) s data = None"
  using assms by (simp add: sendInterleaved_def trySend_def SendNotification_def notificationBufferSize_def)

end
