(* ===== verification/Remap.thy ===== *)
theory Remap
  imports Json
begin

text \<open>
  Request ids of many sessions on one upstream connection (\<open>src/muxcore/remap/remap.go\<close>): an id is
  prefixed with the number of its session on the way up and restored on the way back.
\<close>

section \<open>Operations\<close>

text \<open>A string in double quotes, without any escaping, as \<open>fmt.Sprintf\<close> writes it.\<close>

definition rawQuoted :: "bytes \<Rightarrow> bytes" where
  "rawQuoted s = CHR 0x22 # s @ [CHR 0x22]"

definition sessionPrefix :: "int \<Rightarrow> bytes" where
  "sessionPrefix sessionID = CHR ''s'' # intDec sessionID @ '':''"

text \<open>The original id is \<open>None\<close> when the message has no id.\<close>

definition Remap :: "int \<Rightarrow> bytes option \<Rightarrow> bytes" where
  "Remap sessionID originalID =
     (case originalID of
        None \<Rightarrow> rawQuoted (sessionPrefix sessionID @ ''null'')
      | Some i \<Rightarrow>
          (if i = ''null'' then rawQuoted (sessionPrefix sessionID @ ''null'')
           else
             let raw = trimSpace i
             in if raw \<noteq> [] \<and> hd raw = CHR 0x22
                then rawQuoted (sessionPrefix sessionID @ ''s:'' @ (case unmarshalString i of None \<Rightarrow> raw | Some s \<Rightarrow> s))
                else rawQuoted (sessionPrefix sessionID @ ''n:'' @ raw)))"

record DeremapResult =
  de_SessionID :: int
  de_OriginalID :: bytes

definition restoreID :: "bytes \<Rightarrow> bytes result" where
  "restoreID rest =
     (if rest = ''null'' then Ok ''null''
      else if length rest < 2 \<or> rest ! 1 \<noteq> CHR '':'' then Err ''deremap: malformed type prefix''
      else if hd rest = CHR ''n'' then Ok (drop 2 rest)
      else if hd rest = CHR ''s'' then Ok (quote (drop 2 rest))
      else Err ''deremap: unknown type prefix'')"

definition Deremap :: "bytes \<Rightarrow> DeremapResult result" where
  "Deremap remappedID =
     (case unmarshalString remappedID of
        None \<Rightarrow> Err ''deremap: expected string id''
      | Some s \<Rightarrow>
          (if \<not> hasPrefix s ''s'' then Err ''deremap: missing session prefix''
           else case cutByte (CHR '':'') (tl s) of
               None \<Rightarrow> Err ''deremap: malformed remapped id''
             | Some (sessionStr, rest) \<Rightarrow>
                 (case atoi sessionStr of
                    None \<Rightarrow> Err ''deremap: invalid session id''
                  | Some sessionID \<Rightarrow>
                      (case restoreID rest of
                         Inl e \<Rightarrow> Err e
                       | Inr i \<Rightarrow> Ok \<lparr>de_SessionID = sessionID, de_OriginalID = i\<rparr>))))"

definition IsRemapped :: "bytes \<Rightarrow> bool" where
  "IsRemapped i =
     (case unmarshalString i of None \<Rightarrow> False | Some s \<Rightarrow> hasPrefix s ''s'' \<and> contains s '':'')"

section \<open>String literals without escapes\<close>

definition plain :: "char \<Rightarrow> bool" where
  "plain c \<longleftrightarrow> c \<noteq> CHR 0x22 \<and> c \<noteq> CHR 0x5C \<and> 32 \<le> byte_val c \<and> byte_val c < 128"

lemma scanStr_plain: "list_all plain p \<Longrightarrow> scanStr (p @ s) = map_option (\<lambda>(a, b). (p @ a, b)) (scanStr s)"
  by (induction p; cases "scanStr s") (auto simp: plain_def)

lemma unquote_plain: "list_all plain p \<Longrightarrow> unquote (p @ s) = p @ unquote s"
proof -
  have "list_all plain p \<Longrightarrow> unquote_fuel (length p + n) (p @ s) = p @ unquote_fuel n s" for n
    by (induction p) (auto simp: plain_def)
  then show "list_all plain p \<Longrightarrow> ?thesis" by (simp add: unquote_def)
qed

lemma unquote_Nil [simp]: "unquote [] = []"
  by (simp add: unquote_def)

lemma jsonValid_plain:
  assumes "list_all plain p"
  shows "jsonValid (rawQuoted p)"
  using scanStr_plain [OF assms, of "''\"''"]
  by (simp add: jsonValid_def jsonSkip_def rawQuoted_def skipWS_def isJSONWhitespace_def)

lemma unmarshal_plain: "list_all plain p \<Longrightarrow> unmarshalString (rawQuoted p) = Some p"
  using scanStr_plain [of p "''\"''"] unquote_plain [of p "[]"] jsonValid_plain [of p]
  by (simp add: unmarshalString_def rawQuoted_def skipWS_def isJSONWhitespace_def)

lemma unmarshal_prefix:
  assumes "list_all plain p" and "unmarshalString (rawQuoted (p @ body)) = Some s"
  shows "\<exists>rest. s = p @ rest"
proof -
  have "map_option (\<lambda>(a, _). unquote a) (scanStr (p @ body @ ''\"'')) = Some s"
    using assms(2) by (auto simp: unmarshalString_def rawQuoted_def skipWS_def isJSONWhitespace_def split: if_splits)
  then obtain a where "s = unquote (p @ a)"
    using scanStr_plain [OF assms(1), of "body @ ''\"''"] by (auto simp: option.map_comp)
  then show ?thesis using unquote_plain [OF assms(1)] by blast
qed

lemma escapeASCII_plain:
  assumes "plain c" and "c \<notin> set ''<>&''"
  shows "escapeASCII c = [c]"
proof -
  have "byte_val (CHR 0x08) = 8" "byte_val (CHR 0x0C) = 12" "byte_val (CHR 0x0A) = 10" "byte_val (CHR 0x0D) = 13"
    "byte_val (CHR 0x09) = 9" by (simp_all add: byte_val_def)
  then have "c \<noteq> CHR 0x08" "c \<noteq> CHR 0x0C" "c \<noteq> CHR 0x0A" "c \<noteq> CHR 0x0D" "c \<noteq> CHR 0x09"
    using assms(1) by (auto simp: plain_def)
  then show ?thesis using assms by (simp add: escapeASCII_def plain_def)
qed

lemma quote_plain:
  assumes "list_all (\<lambda>c. plain c \<and> c \<notin> set ''<>&'') s"
  shows "quote s = rawQuoted s"
proof -
  have "list_all (\<lambda>c. plain c \<and> c \<notin> set ''<>&'') s \<Longrightarrow> quoteBody_fuel (length s) s = s"
  proof (induction s)
    case (Cons c s)
    then show ?case using escapeASCII_plain [of c] by (simp add: plain_def)
  qed simp
  then show ?thesis using assms by (simp add: quote_def rawQuoted_def)
qed

section \<open>Isolation of sessions\<close>

definition goInt :: "int \<Rightarrow> bool" where
  "goInt i \<longleftrightarrow> - (2 ^ 63) \<le> i \<and> i < 2 ^ 63"

lemma isDigit_plain: "isDigit c \<Longrightarrow> plain c" "plain (CHR ''-'')" "plain (CHR '':'')" "plain (CHR ''s'')"
  by (auto simp: plain_def isDigit_def byte_val_def)

lemma prefix_plain: "list_all plain (sessionPrefix n)"
  using intDec_chars [of _ n] isDigit_plain by (auto simp: sessionPrefix_def list_all_iff)

lemma colon_free: "CHR '':'' \<notin> set (intDec n)"
  using intDec_chars [of "CHR '':''" n] by (auto simp: isDigit_def byte_val_def)

text \<open>Whatever follows the prefix, the session that is read back is the one that was written.\<close>

lemma deremap_prefix:
  assumes "goInt n" and "unmarshalString raw = Some (sessionPrefix n @ rest)"
  shows "Deremap raw = (case restoreID rest of Inl e \<Rightarrow> Err e | Inr i \<Rightarrow> Ok \<lparr>de_SessionID = n, de_OriginalID = i\<rparr>)"
proof -
  have "cutByte (CHR '':'') (intDec n @ CHR '':'' # rest) = Some (intDec n, rest)"
    by (rule cutByte_append [OF colon_free])
  moreover have "atoi (intDec n) = Some n" using assms(1) by (simp add: atoi_intDec goInt_def)
  ultimately show ?thesis using assms(2) by (simp add: Deremap_def sessionPrefix_def hasPrefix_def)
qed

lemma remap_form: "\<exists>body. Remap n i = rawQuoted (sessionPrefix n @ body)"
  by (auto simp: Remap_def Let_def split: option.split)



section \<open>The way there and back\<close>

text \<open>The ids that survive: null, numbers as JSON writes them, and strings of unescaped ASCII.\<close>

definition numberText :: "bytes \<Rightarrow> bool" where
  "numberText i \<longleftrightarrow> i \<noteq> [] \<and> list_all (\<lambda>c. isDigit c \<or> c \<in> set ''+-.eE'') i"

definition simpleID :: "bytes \<Rightarrow> bool" where
  "simpleID i \<longleftrightarrow>
     i = ''null'' \<or> numberText i \<or> (\<exists>s. i = rawQuoted s \<and> list_all (\<lambda>c. plain c \<and> c \<notin> set ''<>&'') s)"

lemma numberText_plain:
  assumes "numberText i"
  shows "list_all plain i" "trimSpace i = i" "hd i \<noteq> CHR 0x22" "i \<noteq> ''null''"
proof -
  have c: "isDigit c \<or> c \<in> set ''+-.eE'' \<Longrightarrow> plain c \<and> solid c \<and> c \<noteq> CHR 0x22 \<and> c \<noteq> CHR ''n''" for c
    by (auto simp: plain_def isDigit_def solid_def asciiSpace_def byte_val_def)
  show "list_all plain i" using assms c by (auto simp: numberText_def list_all_iff)
  have "i \<noteq> []" "solid (hd i)" "solid (last i)" using assms c by (auto simp: numberText_def list_all_iff)
  then show "trimSpace i = i" by (rule trimSpace_solid)
  have h: "hd i \<noteq> CHR 0x22 \<and> hd i \<noteq> CHR ''n''" using assms c by (auto simp: numberText_def list_all_iff)
  then show "hd i \<noteq> CHR 0x22" by simp
  show "i \<noteq> ''null''" using h by auto
qed

lemma deremap_simple:
  assumes "goInt n" and "list_all plain body" and "restoreID body = Ok i"
  shows "Deremap (rawQuoted (sessionPrefix n @ body)) = Ok \<lparr>de_SessionID = n, de_OriginalID = i\<rparr>"
  using deremap_prefix [OF assms(1), of "rawQuoted (sessionPrefix n @ body)" body]
    unmarshal_plain [of "sessionPrefix n @ body"] prefix_plain [of n] assms(2,3) by simp

lemma remap_roundtrip_lemma:
  assumes "goInt n" and "simpleID i"
  shows "Deremap (Remap n (Some i)) = Ok \<lparr>de_SessionID = n, de_OriginalID = i\<rparr>"
proof -
  have pl: "plain (CHR ''n'')" "plain (CHR ''u'')" "plain (CHR ''l'')" "plain (CHR '':'')" "plain (CHR ''s'')"
    by (simp_all add: plain_def byte_val_def)
  consider "i = ''null''" | "numberText i" | s where "i = rawQuoted s" "list_all (\<lambda>c. plain c \<and> c \<notin> set ''<>&'') s"
    using assms(2) by (auto simp: simpleID_def)
  then show ?thesis
  proof cases
    case 1
    then show ?thesis
      using deremap_simple [OF assms(1), of "''null''" "''null''"] pl by (simp add: Remap_def restoreID_def)
  next
    case 2
    have "restoreID (''n:'' @ i) = Ok i" by (auto simp: restoreID_def)
    then show ?thesis
      using deremap_simple [OF assms(1), of "''n:'' @ i" i] numberText_plain [OF 2] pl by (simp add: Remap_def Let_def)
  next
    case 3
    have p: "list_all plain s" using 3(2) by (simp add: list_all_iff)
    have q: "restoreID (''s:'' @ s) = Ok i" using quote_plain [OF 3(2)] 3(1) by (auto simp: restoreID_def)
    have t: "trimSpace i = i"
      by (rule trimSpace_solid) (simp_all add: 3(1) rawQuoted_def solid_def asciiSpace_def byte_val_def)
    show ?thesis
      using deremap_simple [OF assms(1), of "''s:'' @ s" i] p q t unmarshal_plain [OF p] pl 3(1)
      by (simp add: Remap_def Let_def rawQuoted_def)
  qed
qed



section \<open>Ids that do not survive\<close>

text \<open>
  A string id that contains a quotation mark is written into the remapped id without escaping: the
  result is no JSON value, so the request cannot be rewritten and is never forwarded.
\<close>
lemma remap_breaks_quotes: "\<not> jsonValid (Remap 1 (Some (CHR 0x22 # ''a'' @ [CHR 0x5C, CHR 0x22] @ ''b'' @ [CHR 0x22])))"
  by code_simp

end
