(* ===== verification/Progress.thy ===== *)
theory Progress
  imports Json
begin

text \<open>
  Synthetic progress (\<open>src/muxcore/progress/progress.go\<close>): the notification that the multiplexer makes
  up for a request without progress of its own, and the tracker that holds it back while real
  progress arrives.
\<close>

section \<open>The notification\<close>

definition jsonField :: "bytes \<Rightarrow> bytes \<Rightarrow> bytes" where
  "jsonField name value = CHR 0x22 # name @ [CHR 0x22, CHR '':''] @ value"

text \<open>The token is inserted as it is; an invalid one makes \<open>json.Marshal\<close> fail, which yields no bytes.\<close>

definition BuildSyntheticNotification :: "bytes \<Rightarrow> bytes \<Rightarrow> int \<Rightarrow> bytes" where
  "BuildSyntheticNotification token toolOrMethod elapsedSeconds =
     (case compact token of
        None \<Rightarrow> []
      | Some tok \<Rightarrow>
          ''{'' @ jsonField ''jsonrpc'' (quote ''2.0'') @ '','' @ jsonField ''method'' (quote ''notifications/progress'') @ '','' @
          jsonField ''params''
            (''{'' @ jsonField ''progressToken'' tok @ '','' @ jsonField ''progress'' (intDec elapsedSeconds) @ '','' @
             jsonField ''message'' (quote (toolOrMethod @ '': '' @ intDec elapsedSeconds @ ''s elapsed'')) @ ''}'') @ ''}'')"

definition LoadProgressInterval :: "int \<Rightarrow> duration" where
  "LoadProgressInterval ns = (if ns \<le> 0 then seconds 5 else ns)"

section \<open>The tracker\<close>

record Tracker =
  tr_lastRealProgress :: "(bytes, time) gomap"
  tr_determinateTokens :: "(bytes, bool) gomap"

definition NewTracker :: Tracker where
  "NewTracker = \<lparr>tr_lastRealProgress = [], tr_determinateTokens = []\<rparr>"

definition RecordRealProgressAt :: "Tracker \<Rightarrow> bytes \<Rightarrow> time \<Rightarrow> bool \<Rightarrow> Tracker" where
  "RecordRealProgressAt t token at hasTotalField =
     t\<lparr>tr_lastRealProgress := mput (tr_lastRealProgress t) token at,
       tr_determinateTokens :=
         (if hasTotalField then mput (tr_determinateTokens t) token True else tr_determinateTokens t)\<rparr>"

text \<open>\<open>RecordRealProgress\<close> reads the clock; here the time is its argument.\<close>

definition RecordRealProgress :: "Tracker \<Rightarrow> time \<Rightarrow> bytes \<Rightarrow> bool \<Rightarrow> Tracker" where
  "RecordRealProgress t now token hasTotalField = RecordRealProgressAt t token now hasTotalField"

definition ShouldSuppress :: "Tracker \<Rightarrow> time \<Rightarrow> bytes \<Rightarrow> duration \<Rightarrow> bool" where
  "ShouldSuppress t now token interval =
     (if mget (tr_determinateTokens t) token = Some True then True
      else case mget (tr_lastRealProgress t) token of
          None \<Rightarrow> False
        | Some lastAt \<Rightarrow> time_sub now lastAt < interval)"

definition Cleanup :: "Tracker \<Rightarrow> bytes list \<Rightarrow> Tracker" where
  "Cleanup t tokens =
     foldl (\<lambda>t token. t\<lparr>tr_lastRealProgress := mdel (tr_lastRealProgress t) token,
                        tr_determinateTokens := mdel (tr_determinateTokens t) token\<rparr>) t tokens"

section \<open>What the tracker remembers\<close>

text \<open>
  The specification keeps, for each token, the real progress seen since the token was last cleaned
  up, oldest first: when, and whether it carried a total.
\<close>

datatype tracker_op = OpRecord bytes time bool | OpCleanup "bytes list"

fun tracker_step :: "Tracker \<Rightarrow> tracker_op \<Rightarrow> Tracker" where
  "tracker_step t (OpRecord token at hasTotal) = RecordRealProgressAt t token at hasTotal"
| "tracker_step t (OpCleanup tokens) = Cleanup t tokens"

fun history_step :: "(bytes \<Rightarrow> (time \<times> bool) list) \<Rightarrow> tracker_op \<Rightarrow> (bytes \<Rightarrow> (time \<times> bool) list)" where
  "history_step h (OpRecord token at hasTotal) = h(token := h token @ [(at, hasTotal)])"
| "history_step h (OpCleanup tokens) = (\<lambda>token. if token \<in> set tokens then [] else h token)"

definition remembers :: "Tracker \<Rightarrow> (bytes \<Rightarrow> (time \<times> bool) list) \<Rightarrow> bool" where
  "remembers t h \<longleftrightarrow>
     (\<forall>token. mget (tr_lastRealProgress t) token = (if h token = [] then None else Some (fst (last (h token)))) \<and>
        (mget (tr_determinateTokens t) token = Some True \<longleftrightarrow> (\<exists>p\<in>set (h token). snd p)))"

lemma Cleanup_get:
  "mget (tr_lastRealProgress (Cleanup t tokens)) k = (if k \<in> set tokens then None else mget (tr_lastRealProgress t) k)"
  "mget (tr_determinateTokens (Cleanup t tokens)) k = (if k \<in> set tokens then None else mget (tr_determinateTokens t) k)"
  by (induction tokens arbitrary: t) (auto simp: Cleanup_def gomap_simps)

lemma remembers_step: "remembers t h \<Longrightarrow> remembers (tracker_step t op) (history_step h op)"
  by (cases op) (auto simp: remembers_def RecordRealProgressAt_def Cleanup_get gomap_simps)

lemma remembers_new: "remembers NewTracker (\<lambda>_. [])"
  by (simp add: remembers_def NewTracker_def mget_def)

lemma remembers_all: "remembers t h \<Longrightarrow> remembers (foldl tracker_step t ops) (foldl history_step h ops)"
  by (induction ops arbitrary: t h) (auto intro: remembers_step)

text \<open>
  C39: The tracker implements its history. After any sequence of recorded progress and cleanups, made-up
  progress for a token is held back exactly when some progress since its last cleanup carried a
  total, or the latest one is younger than the interval; a token that was cleaned up and has seen
  nothing since is not held back.
\<close>
theorem tracker_refines_history:
  "ShouldSuppress (foldl tracker_step NewTracker ops) now token interval \<longleftrightarrow>
     (let seen = foldl history_step (\<lambda>_. []) ops token
      in list_ex snd seen \<or> seen \<noteq> [] \<and> time_sub now (fst (last seen)) < interval)"
proof -
  have "remembers (foldl tracker_step NewTracker ops) (foldl history_step (\<lambda>_. []) ops)"
    by (rule remembers_all [OF remembers_new])
  then show ?thesis
    by (auto simp: remembers_def ShouldSuppress_def Let_def list_ex_iff split: option.split)
qed

end
