(* ===== verification/Classify.thy ===== *)
theory Classify
  imports Struct_Decode
begin

text \<open>
  Whether one upstream process may serve several sessions (\<open>src/muxcore/classify\<close>): from the x-mux
  capability of the initialize response, or from the names of the tools; and the timeouts that the
  capability declares.
\<close>

section \<open>Tool names\<close>

text \<open>
  \<open>strings.ToLower\<close>, as far as it decides about ASCII patterns: besides the ASCII letters, U+0130
  becomes i and U+212A becomes k; no other character becomes an ASCII one.
\<close>

fun toLower :: "bytes \<Rightarrow> bytes" where
  "toLower [] = []"
| "toLower (a # b # c # s) =
     (if byte_val a = 226 \<and> byte_val b = 132 \<and> byte_val c = 170 then CHR ''k'' # toLower s
      else if byte_val a = 196 \<and> byte_val b = 176 then CHR ''i'' # toLower (c # s)
      else lower a # toLower (b # c # s))"
| "toLower [a, b] = (if byte_val a = 196 \<and> byte_val b = 176 then ''i'' else [lower a, lower b])"
| "toLower [a] = [lower a]"

definition isolationPrefixes :: "bytes list" where
  "isolationPrefixes = [''browser_'', ''session_'', ''editor_'', ''navigate'', ''page_'', ''tab_'']"

definition isolationSubstrings :: "bytes list" where
  "isolationSubstrings = [''_process'', ''_document'', ''_editor_'', ''snapshot'', ''activate_project'']"

definition isIsolationPattern :: "bytes \<Rightarrow> bool" where
  "isIsolationPattern name =
     (let low = toLower name
      in list_ex (hasPrefix low) isolationPrefixes \<or> list_ex (contains low) isolationSubstrings)"

section \<open>Tool lists\<close>

datatype SharingMode = ModeShared | ModeIsolated | ModeSessionAware

text \<open>
  Decoding an array of tools into the slice \<open>Tools\<close>. When the slice has been filled before, its
  elements are reused: a name that is missing in the new array keeps its old value.
\<close>

definition toolName :: "bytes \<Rightarrow> bytes \<Rightarrow> bytes option" where
  "toolName old v =
     (if isNullValue v then Some old
      else if isObjectValue v then stringField old (fieldValues ''name'' (membersOf v))
      else None)"

fun toolNames :: "bytes list \<Rightarrow> bytes list \<Rightarrow> bytes list option" where
  "toolNames olds [] = Some []"
| "toolNames olds (v # vs) =
     Option.bind (toolName (case olds of [] \<Rightarrow> [] | o' # _ \<Rightarrow> o') v) (\<lambda>n.
       map_option (\<lambda>ns. n # ns) (toolNames (tl olds) vs))"

text \<open>The backing array of the slice and the number of its elements in use.\<close>

fun toolsField :: "bytes list \<times> nat \<Rightarrow> bytes list \<Rightarrow> (bytes list \<times> nat) option" where
  "toolsField st [] = Some st"
| "toolsField (arr, n) (v # vs) =
     (if isNullValue v then toolsField ([], 0) vs
      else if isArrayValue v then
        Option.bind (unmarshalElements v) (\<lambda>els.
          if els = [] then toolsField ([], 0) vs
          else Option.bind (toolNames arr els) (\<lambda>ns. toolsField (ns @ drop (length ns) arr, length ns) vs))
      else None)"

definition decodeTools :: "bytes \<Rightarrow> bytes list option" where
  "decodeTools raw =
     Option.bind (unmarshalPath [''result'', ''tools''] raw) (\<lambda>vs.
       map_option (\<lambda>(arr, n). take n arr) (toolsField ([], 0) vs))"

definition ClassifyTools :: "bytes \<Rightarrow> SharingMode \<times> bytes list" where
  "ClassifyTools toolsListJSON =
     (case decodeTools toolsListJSON of
        None \<Rightarrow> (ModeShared, [])
      | Some names \<Rightarrow>
          (let matched = filter isIsolationPattern names
           in if matched \<noteq> [] then (ModeIsolated, matched) else (ModeShared, [])))"

section \<open>The x-mux capability\<close>

text \<open>
  The capability block: \<open>capabilities.x-mux\<close>, else \<open>capabilities.experimental["x-mux"]\<close>. All fields
  below \<open>capabilities\<close> are decoded by one call, so an \<open>experimental\<close> member of the wrong type hides
  the block as well.
\<close>

definition xmuxBlock :: "bytes \<Rightarrow> bytes option" where
  "xmuxBlock initJSON =
     Option.bind (unmarshalPath [''result'', ''capabilities'', ''x-mux''] initJSON) (\<lambda>direct.
     Option.bind (unmarshalPath [''result'', ''capabilities'', ''experimental''] initJSON) (\<lambda>exps.
     Option.bind (mapField None exps) (\<lambda>experimental.
       case rawField direct of
         Some raw \<Rightarrow> Some raw
       | None \<Rightarrow> (case experimental of None \<Rightarrow> None | Some m \<Rightarrow> mget m ''x-mux''))))"

text \<open>\<open>unmarshalXMux\<close> into a struct with one field: the values of that field in the block.\<close>

definition unmarshalXMux :: "bytes \<Rightarrow> bytes \<Rightarrow> bytes list option" where
  "unmarshalXMux initJSON field = Option.bind (xmuxBlock initJSON) (unmarshalPath [field])"

definition ClassifyCapabilities :: "bytes \<Rightarrow> SharingMode option" where
  "ClassifyCapabilities initJSON =
     (case Option.bind (unmarshalXMux initJSON ''sharing'') (stringField []) of
        None \<Rightarrow> None
      | Some mode \<Rightarrow>
          (if mode = ''shared'' then Some ModeShared
           else if mode = ''isolated'' then Some ModeIsolated
           else if mode = ''session-aware'' then Some ModeSessionAware
           else None))"

definition ParsePersistent :: "bytes \<Rightarrow> bool" where
  "ParsePersistent initJSON =
     (case Option.bind (unmarshalXMux initJSON ''persistent'') (boolField False) of
        None \<Rightarrow> False | Some b \<Rightarrow> b)"

text \<open>A declared number of seconds: nothing below one, at most the cap.\<close>

definition cappedSeconds :: "int \<Rightarrow> bytes \<Rightarrow> bytes \<Rightarrow> int" where
  "cappedSeconds cap field initJSON =
     (case Option.bind (unmarshalXMux initJSON field) (intField 0) of
        None \<Rightarrow> 0
      | Some n \<Rightarrow> if n \<le> 0 then 0 else if n > cap then cap else n)"

definition ParseToolTimeout :: "bytes \<Rightarrow> int" where
  "ParseToolTimeout = cappedSeconds 3600 ''tooltimeout''"

definition ParseDrainTimeout :: "bytes \<Rightarrow> int" where
  "ParseDrainTimeout = cappedSeconds 300 ''draintimeout''"

definition ParseIdleTimeout :: "bytes \<Rightarrow> int" where
  "ParseIdleTimeout = cappedSeconds 86400 ''idletimeout''"

definition ParseProgressInterval :: "bytes \<Rightarrow> int" where
  "ParseProgressInterval = cappedSeconds 60 ''progressinterval''"

section \<open>Properties\<close>

text \<open>
  Every declared time is within its bounds: whatever bytes the upstream sends as its initialize
  response, the tool timeout, the drain timeout, the idle timeout and the progress interval that
  are taken from it are between zero and one hour, five minutes, one day and one minute.
\<close>
lemma declared_times_bounded:
  "0 \<le> ParseToolTimeout raw \<and> ParseToolTimeout raw \<le> 3600 \<and>
   0 \<le> ParseDrainTimeout raw \<and> ParseDrainTimeout raw \<le> 300 \<and>
   0 \<le> ParseIdleTimeout raw \<and> ParseIdleTimeout raw \<le> 86400 \<and>
   0 \<le> ParseProgressInterval raw \<and> ParseProgressInterval raw \<le> 60"
proof -
  have "0 \<le> cap \<Longrightarrow> 0 \<le> cappedSeconds cap field raw \<and> cappedSeconds cap field raw \<le> cap" for cap field
    by (auto simp: cappedSeconds_def split: option.split)
  then show ?thesis
    by (simp add: ParseToolTimeout_def ParseDrainTimeout_def ParseIdleTimeout_def ParseProgressInterval_def)
qed

lemma classify_tools_exact:
  "(fst (ClassifyTools raw) = ModeIsolated \<longleftrightarrow>
      (\<exists>names. decodeTools raw = Some names \<and> list_ex isIsolationPattern names)) \<and>
   fst (ClassifyTools raw) \<noteq> ModeSessionAware \<and>
   snd (ClassifyTools raw) =
     (case decodeTools raw of None \<Rightarrow> [] | Some names \<Rightarrow> filter isIsolationPattern names)"
  by (auto simp: ClassifyTools_def Let_def list_ex_iff filter_empty_conv split: option.split)

end
