(* ===== verification/List_Changed.thy ===== *)
theory List_Changed
  imports Struct_Decode
begin

text \<open>
  The rewriting of a cached initialize response so that its clients subscribe to list changes
  (\<open>src/muxcore/listchanged/inject.go\<close>). \<open>None\<close> stands for \<open>mutated = false\<close> and \<open>ok = false\<close>.
\<close>

definition alreadyTrue :: "(bytes, bytes) gomap \<Rightarrow> bool" where
  "alreadyTrue obj = (case mget obj ''listChanged'' of None \<Rightarrow> False | Some raw \<Rightarrow> unmarshalBool raw = Some True)"

text \<open>The argument is \<open>None\<close> when the map has no such key.\<close>

definition InjectCapability :: "bytes option \<Rightarrow> bytes option" where
  "InjectCapability input =
     (case input of
        None \<Rightarrow> None
      | Some raw \<Rightarrow>
          (if raw = [] then None
           else case unmarshalMap raw of
               None \<Rightarrow> None
             | Some obj0 \<Rightarrow>
                 (let obj = (case obj0 of None \<Rightarrow> [] | Some m \<Rightarrow> m)
                  in if alreadyTrue obj then None else marshalMap (mput obj ''listChanged'' ''true''))))"

fun injectKeys :: "(bytes, bytes) gomap \<Rightarrow> bytes list \<Rightarrow> (bytes, bytes) gomap \<times> bool" where
  "injectKeys caps [] = (caps, False)"
| "injectKeys caps (key # keys) =
     (case InjectCapability (mget caps key) of
        None \<Rightarrow> injectKeys caps keys
      | Some forced \<Rightarrow> (fst (injectKeys (mput caps key forced) keys), True))"

definition listKeys :: "bytes list" where
  "listKeys = [''tools'', ''prompts'', ''resources'']"

definition resultCaps :: "(bytes, bytes) gomap option \<Rightarrow> (bytes, bytes) gomap option" where
  "resultCaps result =
     (case (case result of None \<Rightarrow> None | Some m \<Rightarrow> mget m ''capabilities'') of
        None \<Rightarrow> Some []
      | Some capsRaw \<Rightarrow>
          (case unmarshalMap capsRaw of
             None \<Rightarrow> None
           | Some caps \<Rightarrow> Some (case caps of None \<Rightarrow> [] | Some m \<Rightarrow> m)))"

definition endsInNewline :: "bytes \<Rightarrow> bool" where
  "endsInNewline raw = hasSuffix raw [CHR 0x0A]"

definition InjectInitializeCapability :: "bytes \<Rightarrow> bytes option" where
  "InjectInitializeCapability raw =
     Option.bind (unmarshalMap raw) (\<lambda>root.
     Option.bind (case root of None \<Rightarrow> None | Some m \<Rightarrow> mget m ''result'') (\<lambda>resultRaw.
     Option.bind (unmarshalMap resultRaw) (\<lambda>result.
     Option.bind (resultCaps result) (\<lambda>caps.
       case injectKeys caps listKeys of
         (_, False) \<Rightarrow> None
       | (caps', True) \<Rightarrow>
           Option.bind (marshalMap caps') (\<lambda>encodedCaps.
           Option.bind (map_option (\<lambda>m. mput m ''capabilities'' encodedCaps) result) (\<lambda>result'.
           Option.bind (marshalMap result') (\<lambda>encodedResult.
           Option.bind (map_option (\<lambda>m. mput m ''result'' encodedResult) root) (\<lambda>root'.
             map_option (\<lambda>out. if endsInNewline raw then out @ [CHR 0x0A] else out) (marshalMap root'))))))))) "

section \<open>What is changed\<close>

lemma injectKeys_spec:
  assumes "distinct keys"
  shows "mhas (fst (injectKeys caps keys)) k = mhas caps k \<and>
    (k \<notin> set keys \<longrightarrow> mget (fst (injectKeys caps keys)) k = mget caps k) \<and>
    (k \<in> set keys \<longrightarrow> mget (fst (injectKeys caps keys)) k =
       (case InjectCapability (mget caps k) of None \<Rightarrow> mget caps k | Some forced \<Rightarrow> Some forced)) \<and>
    (snd (injectKeys caps keys) \<longleftrightarrow> (\<exists>key\<in>set keys. InjectCapability (mget caps key) \<noteq> None))"
  using assms
proof (induction keys arbitrary: caps)
  case (Cons key keys)
  show ?case
  proof (cases "InjectCapability (mget caps key)")
    case None
    then show ?thesis using Cons.IH [of caps] Cons.prems by auto
  next
    case (Some forced)
    have "mget caps key \<noteq> None" using Some by (cases "mget caps key") (auto simp: InjectCapability_def)
    then have "mhas (mput caps key forced) k = mhas caps k" by (auto simp: mhas_def gomap_simps)
    moreover have "mget (mput caps key forced) k' = mget caps k'" if "k' \<noteq> key" for k'
      using that by (simp add: gomap_simps)
    moreover have "mget (mput caps key forced) key = Some forced" by (simp add: gomap_simps)
    moreover have "key \<notin> set keys" using Cons.prems by simp
    ultimately show ?thesis
      using Cons.IH [of "mput caps key forced"] Cons.prems Some
      by (cases "k = key") (auto cong: option.case_cong)
  qed
qed simp

text \<open>
  No capability is invented. The rewriting of the capability object keeps exactly the keys that the
  upstream declared; only tools, prompts and resources change, each to its own object with
  listChanged set; the message is rewritten exactly when one of them changes.
\<close>
lemma list_changed_keeps_declared:
  "mhas (fst (injectKeys caps listKeys)) k = mhas caps k \<and>
   mget (fst (injectKeys caps listKeys)) k =
     (if k \<in> {''tools'', ''prompts'', ''resources''}
      then case InjectCapability (mget caps k) of None \<Rightarrow> mget caps k | Some forced \<Rightarrow> Some forced
      else mget caps k) \<and>
   (snd (injectKeys caps listKeys) \<longleftrightarrow>
      list_ex (\<lambda>key. InjectCapability (mget caps key) \<noteq> None) [''tools'', ''prompts'', ''resources''])"
  using injectKeys_spec [of listKeys caps k] by (auto simp: listKeys_def)

text \<open>A capability that the upstream declared as null is turned into an object.\<close>

lemma inject_capability_null:
  "InjectCapability (Some ''null'') = Some (''{'' @ CHR 0x22 # ''listChanged'' @ [CHR 0x22] @ '':true}'')"
  by code_simp

end
