(* ===== verification/Env_Identity.thy ===== *)
theory Env_Identity
  imports Session_Manager Go_Text "HOL-Library.List_Lexorder" "HOL-Library.Char_ord"
begin

text \<open>
  Which environment variables make two launches of an upstream the same server
  (\<open>src/muxcore/internal/envidentity/identity.go\<close>). The hash function is an argument.
\<close>

section \<open>Names\<close>

text \<open>
  \<open>strings.ToUpper\<close> as far as comparisons with ASCII names can see: besides the ASCII letters, U+017F
  and U+0131 become S and I; every other letter stays outside ASCII.
\<close>

definition upperASCII :: "char \<Rightarrow> char" where
  "upperASCII c = (if 97 \<le> byte_val c \<and> byte_val c \<le> 122 then byte_of (byte_val c - 32) else c)"

fun toUpper :: "bytes \<Rightarrow> bytes" where
  "toUpper [] = []"
| "toUpper [a] = [upperASCII a]"
| "toUpper (a # b # s) =
     (if byte_val a = 197 \<and> byte_val b = 191 then CHR ''S'' # toUpper s
      else if byte_val a = 196 \<and> byte_val b = 177 then CHR ''I'' # toUpper s
      else upperASCII a # toUpper (b # s))"

definition credentialNames :: "bytes list" where
  "credentialNames =
     [''TOKEN'', ''KEY'', ''API_KEY'', ''SECRET'', ''PASSWORD'', ''PASSWD'', ''CREDENTIAL'', ''CREDENTIALS'', ''AUTH'',
      ''GH_TOKEN'', ''GITHUB_TOKEN'', ''GITHUB_PERSONAL_ACCESS_TOKEN'', ''OPENAI_API_KEY'', ''ANTHROPIC_API_KEY'',
      ''TAVILY_API_KEY'', ''GOOGLE_API_KEY'', ''AWS_ACCESS_KEY_ID'', ''AWS_SECRET_ACCESS_KEY'',
      ''AWS_SESSION_TOKEN'', ''SSH_AUTH_SOCK'', ''SSH_AGENT_PID'', ''DOCKER_AUTH_CONFIG'']"

definition credentialSuffixes :: "bytes list" where
  "credentialSuffixes =
     [''_TOKEN'', ''_KEY'', ''_API_KEY'', ''_SECRET'', ''_PASSWORD'', ''_PASSWD'', ''_CREDENTIALS'', ''_AUTH'']"

definition IsCredentialKey :: "bytes \<Rightarrow> bool" where
  "IsCredentialKey key =
     (let upper = toUpper key
      in upper \<in> set credentialNames \<or> list_ex (hasSuffix upper) credentialSuffixes)"

definition identityNames :: "bytes list" where
  "identityNames =
     [''CONFIG'', ''CONFIG_FILE'', ''CONFIG_PATH'', ''CONFIG_DIR'', ''HOST'', ''PORT'', ''URL'', ''BASE_URL'', ''ENDPOINT'',
      ''REGION'', ''PROFILE'', ''KUBECONFIG'', ''NODE_EXTRA_CA_CERTS'', ''CERT_PATH'', ''CERT_FILE'',
      ''HTTP_PROXY'', ''HTTPS_PROXY'', ''ALL_PROXY'', ''NO_PROXY'', ''SSL_CERT_FILE'', ''SSL_CERT_DIR'',
      ''REQUESTS_CA_BUNDLE'', ''CURL_CA_BUNDLE'']"

definition identitySuffixes :: "bytes list" where
  "identitySuffixes =
     [''_CONFIG'', ''_CONFIG_FILE'', ''_CONFIG_PATH'', ''_CONFIG_DIR'', ''_ENDPOINT'', ''_BASE_URL'', ''_URL'', ''_HOST'',
      ''_PORT'', ''_REGION'', ''_PROFILE'', ''_CERT_PATH'', ''_CERT_FILE'']"

definition IsIdentityKey :: "bytes \<Rightarrow> bool" where
  "IsIdentityKey key =
     (IsCredentialKey key \<or>
      (let upper = toUpper key
       in list_ex (hasSuffix upper) identitySuffixes \<or> upper \<in> set identityNames \<or> hasPrefix upper ''NPM_CONFIG_''))"

definition transientPrefixes :: "bytes list" where
  "transientPrefixes = [''CLAUDE_CODE_'', ''CLAUDE_AUTO'', ''WT_'', ''npm_lifecycle_'', ''npm_package_'']"

definition transientNames :: "bytes list" where
  "transientNames =
     [''CLAUDE_CODE_ENTRYPOINT'', ''SESSIONNAME'', ''WSLENV'', ''WARP_FOCUS_URL'', ''PWD'', ''OLDPWD'', ''INIT_CWD'',
      ''npm_execpath'', ''npm_node_execpath'', ''npm_command'', ''TERM'', ''TERM_PROGRAM'', ''TERM_PROGRAM_VERSION'',
      ''COLORTERM'', ''LINES'', ''COLUMNS'', ''_'', ''SHLVL'', ''SHELL'', ''SSH_CLIENT'', ''SSH_CONNECTION'', ''SSH_TTY'',
      ''DISPLAY'', ''XAUTHORITY'', ''WAYLAND_DISPLAY'']"

definition IsTransient :: "bytes \<Rightarrow> bool" where
  "IsTransient key \<longleftrightarrow> list_ex (hasPrefix key) transientPrefixes \<or> key \<in> set transientNames"

definition relevantKey :: "bytes \<Rightarrow> bool" where
  "relevantKey key \<longleftrightarrow> \<not> (IsTransient key \<or> \<not> IsIdentityKey key)"

section \<open>Operations\<close>

definition envMap :: "env \<Rightarrow> (bytes, bytes) gomap" where
  "envMap e = (case e of None \<Rightarrow> [] | Some m \<Rightarrow> m)"

definition identityKeys :: "env \<Rightarrow> bytes list" where
  "identityKeys e = sort (filter relevantKey (map fst (envMap e)))"

definition fingerprintVersion :: bytes where
  "fingerprintVersion = ''mcp-mux-env-v1''"

text \<open>Big-endian 64-bit length, then the value.\<close>

fun bigEndian :: "nat \<Rightarrow> nat \<Rightarrow> bytes" where
  "bigEndian 0 n = []"
| "bigEndian (Suc k) n = bigEndian k (n div 256) @ [byte_of (n mod 256)]"

definition writeField :: "bytes \<Rightarrow> bytes" where
  "writeField v = bigEndian 8 (length v) @ v"

definition valueOf :: "env \<Rightarrow> bytes \<Rightarrow> bytes" where
  "valueOf e key = (case mget (envMap e) key of None \<Rightarrow> [] | Some v \<Rightarrow> v)"

definition hashInput :: "env \<Rightarrow> bytes" where
  "hashInput e =
     writeField fingerprintVersion @
     concat (map (\<lambda>key. writeField key @ writeField (valueOf e key)) (identityKeys e))"

definition hexEncode :: "bytes \<Rightarrow> bytes" where
  "hexEncode s =
     concat (map (\<lambda>c. [(''0123456789abcdef'') ! (byte_val c div 16), (''0123456789abcdef'') ! (byte_val c mod 16)]) s)"

definition Build :: "(bytes \<Rightarrow> bytes) \<Rightarrow> env \<Rightarrow> bytes" where
  "Build sha e = ''v1:'' @ hexEncode (sha (hashInput e))"

definition covers :: "env \<Rightarrow> env \<Rightarrow> bool" where
  "covers a b \<longleftrightarrow>
     list_all (\<lambda>(key, v). \<not> relevantKey key \<or> mget (envMap b) key = Some v) (envMap a)"

definition Equal :: "bytes \<Rightarrow> bytes \<Rightarrow> env \<Rightarrow> env \<Rightarrow> bool" where
  "Equal a b aEnv bEnv = (if a \<noteq> b then False else covers aEnv bEnv \<and> covers bEnv aEnv)"

definition Compatible :: "env \<Rightarrow> env \<Rightarrow> bool" where
  "Compatible a b \<longleftrightarrow>
     list_all (\<lambda>(key, v).
       relevantKey key \<longrightarrow>
         (case mget (envMap b) key of
            None \<Rightarrow> \<not> IsCredentialKey key
          | Some other \<Rightarrow> v = other)) (envMap a) \<and>
     list_all (\<lambda>(key, _).
       relevantKey key \<longrightarrow> mget (envMap a) key \<noteq> None \<or> \<not> IsCredentialKey key) (envMap b)"

definition ShortHash :: "(bytes \<Rightarrow> bytes) \<Rightarrow> env \<Rightarrow> bytes" where
  "ShortHash sha e =
     (if identityKeys e = [] then ''00000000'' else take 8 (drop (length ''v1:'') (Build sha e)))"

section \<open>Identity\<close>

definition envOK :: "env \<Rightarrow> bool" where
  "envOK e \<longleftrightarrow> minv (envMap e)"

text \<open>The identity of an environment: its relevant variables.\<close>

definition projection :: "env \<Rightarrow> bytes \<Rightarrow> bytes option" where
  "projection e key = (if relevantKey key then mget (envMap e) key else None)"

lemma covers_iff:
  assumes "envOK a"
  shows "covers a b \<longleftrightarrow> (\<forall>key v. projection a key = Some v \<longrightarrow> projection b key = Some v)"
proof -
  have "minv (envMap a)" using assms by (simp add: envOK_def)
  then have "(key, v) \<in> set (envMap a) \<longleftrightarrow> mget (envMap a) key = Some v" for key v
    by (simp add: mget_Some_iff)
  then have "covers a b \<longleftrightarrow> (\<forall>key v. mget (envMap a) key = Some v \<longrightarrow>
      \<not> relevantKey key \<or> mget (envMap b) key = Some v)"
    unfolding covers_def list_all_iff by blast
  then show ?thesis by (auto simp: projection_def)
qed

lemma covers_both:
  assumes "envOK a" and "envOK b"
  shows "covers a b \<and> covers b a \<longleftrightarrow> projection a = projection b"
proof
  assume c: "covers a b \<and> covers b a"
  show "projection a = projection b"
  proof
    fix key
    have "projection a key = Some v \<Longrightarrow> projection b key = Some v"
      and "projection b key = Some v \<Longrightarrow> projection a key = Some v" for v
      using c covers_iff [OF assms(1)] covers_iff [OF assms(2)] by blast+
    then show "projection a key = projection b key"
      by (metis not_Some_eq)
  qed
qed (simp add: covers_iff assms)

lemma identityKeys_set:
  assumes "envOK e"
  shows "set (identityKeys e) = {key. projection e key \<noteq> None}"
proof -
  have "key \<in> fst ` set (envMap e) \<longleftrightarrow> mget (envMap e) key \<noteq> None" for key
    by (simp add: mget_def dom_map_of_conv_image_fst [symmetric] domIff)
  then show ?thesis by (auto simp: identityKeys_def projection_def split: if_splits)
qed

lemma identityKeys_eq:
  assumes "envOK a" and "envOK b" and "projection a = projection b"
  shows "identityKeys a = identityKeys b"
proof (rule sorted_distinct_set_unique)
  show "distinct (identityKeys a)" "distinct (identityKeys b)"
    using assms by (simp_all add: identityKeys_def envOK_def minv_def)
  show "set (identityKeys a) = set (identityKeys b)"
    using assms identityKeys_set by simp
qed (simp_all add: identityKeys_def)

lemma hashInput_eq:
  assumes "envOK a" and "envOK b" and "projection a = projection b"
  shows "hashInput a = hashInput b"
proof -
  have "valueOf a key = valueOf b key" if "key \<in> set (identityKeys a)" for key
  proof -
    have "relevantKey key" using that by (simp add: identityKeys_def)
    then show ?thesis using fun_cong [OF assms(3), of key] by (simp add: valueOf_def projection_def)
  qed
  then show ?thesis
    unfolding hashInput_def identityKeys_eq [OF assms, symmetric] by (simp cong: map_cong)
qed

lemma Compatible_iff:
  assumes "envOK a" and "envOK b"
  shows "Compatible a b \<longleftrightarrow>
    (\<forall>key. relevantKey key \<longrightarrow>
       (IsCredentialKey key \<longrightarrow> projection a key = projection b key) \<and>
       (projection a key = None \<or> projection b key = None \<or> projection a key = projection b key))"
    (is "_ \<longleftrightarrow> ?R")
proof
  assume c: "Compatible a b"
  have l: "relevantKey key \<Longrightarrow> mget (envMap a) key = Some v \<Longrightarrow>
      (case mget (envMap b) key of None \<Rightarrow> \<not> IsCredentialKey key | Some other \<Rightarrow> v = other)" for key v
    using c assms(1) unfolding Compatible_def list_all_iff envOK_def by (auto simp: mget_Some_iff)
  have r: "relevantKey key \<Longrightarrow> mget (envMap b) key = Some v \<Longrightarrow>
      mget (envMap a) key \<noteq> None \<or> \<not> IsCredentialKey key" for key v
    using c assms(2) unfolding Compatible_def list_all_iff envOK_def by (auto simp: mget_Some_iff)
  show ?R
  proof (intro allI impI conjI)
    fix key
    assume rel: "relevantKey key"
    show "IsCredentialKey key \<Longrightarrow> projection a key = projection b key"
      using l [OF rel] r [OF rel] rel
      by (cases "mget (envMap a) key"; cases "mget (envMap b) key") (auto simp: projection_def)
    show "projection a key = None \<or> projection b key = None \<or> projection a key = projection b key"
      using l [OF rel] rel
      by (cases "mget (envMap a) key"; cases "mget (envMap b) key") (auto simp: projection_def)
  qed
next
  assume R: ?R
  have "relevantKey key \<Longrightarrow> mget (envMap a) key = Some v \<Longrightarrow>
      (case mget (envMap b) key of None \<Rightarrow> \<not> IsCredentialKey key | Some other \<Rightarrow> v = other)" for key v
    using spec [OF R, of key] by (auto simp: projection_def split: option.split)
  moreover have "relevantKey key \<Longrightarrow> mget (envMap b) key = Some v \<Longrightarrow>
      mget (envMap a) key \<noteq> None \<or> \<not> IsCredentialKey key" for key v
    using spec [OF R, of key] by (auto simp: projection_def)
  ultimately show "Compatible a b"
    using assms unfolding Compatible_def list_all_iff envOK_def by (auto simp: mget_Some_iff)
qed

text \<open>
  C40: Two environments name the same server exactly when their identity variables agree. For any hash
  function, comparing the fingerprints and then the variables succeeds exactly when every credential,
  configuration, endpoint, proxy and certificate variable that is not launch noise has the same value
  in both or is missing in both. Environments that agree are compatible; compatibility is symmetric,
  and compatible environments never differ in a credential, not even by one that only one side has.
\<close>
theorem env_identity_exact:
  assumes "envOK a" and "envOK b"
  shows "(Equal (Build sha a) (Build sha b) a b \<longleftrightarrow> projection a = projection b) \<and>
    (projection a = projection b \<longrightarrow> Compatible a b) \<and>
    (Compatible a b \<longleftrightarrow> Compatible b a) \<and>
    (Compatible a b \<longrightarrow> (\<forall>key. IsCredentialKey key \<longrightarrow> projection a key = projection b key))"
proof (intro conjI)
  show "Equal (Build sha a) (Build sha b) a b \<longleftrightarrow> projection a = projection b"
    using covers_both [OF assms] hashInput_eq [OF assms] by (auto simp: Equal_def Build_def)
  show "projection a = projection b \<longrightarrow> Compatible a b" by (simp add: Compatible_iff assms)
  show "Compatible a b \<longleftrightarrow> Compatible b a"
    unfolding Compatible_iff [OF assms] Compatible_iff [OF assms(2,1)] by metis
  show "Compatible a b \<longrightarrow> (\<forall>key. IsCredentialKey key \<longrightarrow> projection a key = projection b key)"
    unfolding Compatible_iff [OF assms] by (auto simp: projection_def)
qed

definition demo_env_a :: env where
  "demo_env_a = Some [(''GITHUB_TOKEN'', ''x''), (''PWD'', ''/a''), (''API_URL'', ''u'')]"

definition demo_env_b :: env where
  "demo_env_b = Some [(''API_URL'', ''u''), (''PWD'', ''/b'')]"

theorem env_identity_exact_witness:
  "\<not> Equal (Build (\<lambda>s. s) demo_env_a) (Build (\<lambda>s. s) demo_env_b) demo_env_a demo_env_b \<and>
   \<not> Compatible demo_env_a demo_env_b"
proof -
  have ok: "envOK demo_env_a" "envOK demo_env_b"
    by (simp_all add: envOK_def envMap_def demo_env_a_def demo_env_b_def minv_def)
  have "projection demo_env_a ''GITHUB_TOKEN'' = Some ''x''" by code_simp
  moreover have "projection demo_env_b ''GITHUB_TOKEN'' = None" by code_simp
  moreover have "IsCredentialKey ''GITHUB_TOKEN''" by code_simp
  ultimately show ?thesis
    using env_identity_exact [OF ok, of "\<lambda>s. s"] by (metis option.distinct(1))
qed

end
