(* ===== verification/Busy.thy ===== *)
theory Busy
  imports Struct_Decode
begin

text \<open>
  The x-mux busy protocol (\<open>src/muxcore/busy/busy_protocol.go\<close>) and the declarations an owner keeps
  (\<open>owner.go\<close>, \<open>RegisterBusy\<close>, \<open>ClearBusy\<close>, \<open>HasActiveBusyWork\<close>). \<open>time.Parse\<close> with the RFC 3339
  layout is an argument; the zero time is \<open>None\<close>.
\<close>

definition millisecond :: duration where
  "millisecond = 1000000"

text \<open>The product of a large negative count of milliseconds wraps around.\<close>

definition wrap64 :: "int \<Rightarrow> int" where
  "wrap64 x = (x + 2 ^ 63) mod 2 ^ 64 - 2 ^ 63"

definition MaxBusyDurationMs :: int where
  "MaxBusyDurationMs = 86400000"

record BusyParams =
  bp_ID :: bytes
  bp_StartedAt :: "time option"
  bp_EstimatedDuration :: duration
  bp_Task :: bytes

definition errMissingID :: bytes where
  "errMissingID = ''busy: missing required id field''"

text \<open>The params of a notification as raw bytes, then one field of them.\<close>

definition notificationParams :: "bytes \<Rightarrow> bytes option option" where
  "notificationParams raw = map_option rawField (unmarshalPath [''params''] raw)"

definition paramValues :: "bytes option \<Rightarrow> bytes \<Rightarrow> bytes list option" where
  "paramValues params field = (case params of None \<Rightarrow> Some [] | Some raw \<Rightarrow> unmarshalPath [field] raw)"

definition ParseBusyNotification :: "(bytes \<Rightarrow> time option) \<Rightarrow> bytes \<Rightarrow> BusyParams result" where
  "ParseBusyNotification parseTime raw =
     (case Option.bind (notificationParams raw) (\<lambda>params.
        Option.bind (Option.bind (paramValues params ''id'') (stringField [])) (\<lambda>i.
        Option.bind (Option.bind (paramValues params ''startedat'') (stringField [])) (\<lambda>started.
        Option.bind (Option.bind (paramValues params ''estimateddurationms'') (intField 0)) (\<lambda>ms.
        map_option (\<lambda>task. (i, started, ms, task)) (Option.bind (paramValues params ''task'') (stringField [])))))) of
        None \<Rightarrow> Err ''json: cannot unmarshal''
      | Some (i, started, ms, task) \<Rightarrow>
          (if i = [] then Err errMissingID
           else Ok \<lparr>bp_ID = i, bp_StartedAt = (if started = [] then None else parseTime started),
                   bp_EstimatedDuration = wrap64 ((if ms > MaxBusyDurationMs then MaxBusyDurationMs else ms) * millisecond),
                   bp_Task = task\<rparr>))"

definition ParseIdleNotification :: "bytes \<Rightarrow> bytes result" where
  "ParseIdleNotification raw =
     (case Option.bind (notificationParams raw) (\<lambda>params.
        Option.bind (paramValues params ''id'') (stringField [])) of
        None \<Rightarrow> Err ''json: cannot unmarshal''
      | Some i \<Rightarrow> if i = [] then Err errMissingID else Ok i)"

section \<open>Declarations\<close>

record busyDeclaration =
  bd_StartedAt :: time
  bd_EstimatedEnd :: time
  bd_HardExpiresAt :: time
  bd_Task :: bytes
  bd_SessionID :: int

definition maxBusyDuration :: duration where
  "maxBusyDuration = seconds 86400"

definition clampBusy :: "duration \<Rightarrow> duration" where
  "clampBusy d = (let d1 = (if d \<le> 0 then seconds 600 else d) in if d1 > maxBusyDuration then maxBusyDuration else d1)"

definition RegisterBusy ::
  "time \<Rightarrow> bytes \<Rightarrow> time option \<Rightarrow> duration \<Rightarrow> bytes \<Rightarrow> int \<Rightarrow> (bytes, busyDeclaration) gomap \<Rightarrow> (bytes, busyDeclaration) gomap" where
  "RegisterBusy now i startedAt estimated task sid decls =
     (let started = (case startedAt of None \<Rightarrow> now | Some t \<Rightarrow> t)
      in mput decls i \<lparr>bd_StartedAt = started, bd_EstimatedEnd = started + clampBusy estimated,
                       bd_HardExpiresAt = started + clampBusy estimated * 2, bd_Task = task, bd_SessionID = sid\<rparr>)"

definition ClearBusy :: "bytes \<Rightarrow> (bytes, busyDeclaration) gomap \<Rightarrow> (bytes, busyDeclaration) gomap" where
  "ClearBusy i decls = mdel decls i"

definition HasActiveBusyWork ::
  "time \<Rightarrow> (bytes, busyDeclaration) gomap \<Rightarrow> (bytes, busyDeclaration) gomap \<times> bool" where
  "HasActiveBusyWork now decls =
     (let live = mkeep (\<lambda>_ d. \<not> now > bd_HardExpiresAt d) decls in (live, live \<noteq> []))"

section \<open>Expiry\<close>

lemma clampBusy_bounds: "0 < clampBusy d \<and> clampBusy d \<le> maxBusyDuration"
  by (simp add: clampBusy_def maxBusyDuration_def seconds_def Let_def)

text \<open>
  A declaration holds the owner for at most two days after its start, but the start is the
  upstream's word: a start in the far future holds the owner until then.
\<close>

lemma busy_expires:
  assumes "now > started + 2 * maxBusyDuration"
  shows "HasActiveBusyWork now (RegisterBusy now0 i (Some started) est task sid []) = ([], False)"
  using assms clampBusy_bounds [of est]
  by (simp add: HasActiveBusyWork_def RegisterBusy_def Let_def mput_def mkeep_def)

lemma busy_future_start_holds:
  "snd (HasActiveBusyWork now (RegisterBusy now0 i (Some (now + years)) est task sid [])) \<longleftrightarrow> 
     now \<le> now + years + clampBusy est * 2"
  by (simp add: HasActiveBusyWork_def RegisterBusy_def Let_def mput_def mkeep_def not_less)

end
