(* ===== verification/Owner_State.thy ===== *)
theory Owner_State
  imports Session_Conn Remap Progress Classify List_Changed Env_Identity Busy Numbers
begin

text \<open>
  The state of an owner (\<open>src/muxcore/owner\<close>: the \<open>Owner\<close> struct of \<open>owner.go\<close> and the data of
  \<open>materialization.go\<close>) and the small actions that its handlers share.

  Modelled is an owner of the legacy era with a subprocess or an in-process handler behind a pipe;
  \<open>sessionHandler\<close> and the writer that tests inject are nil. The fields are grouped: routing tables,
  cached responses, classification and declared times, the upstream generation with the queue of
  waiting demands, and the environment. The environment holds the answers of the outside (upstream
  writes and the daemon's \<open>onCacheReady\<close>; when a list is exhausted everything succeeds) and the log
  of lines sent upstream and of callbacks. A process is a number. Mutexes are taken around each
  action; an action of the model is what happens under one lock, or a handler whose parts cannot
  be told apart from outside. The working directory, \<open>CanonicalizePath\<close> (which asks the file system)
  and \<open>time.Parse\<close> are functions of the environment; \<open>ow_admissionClosed\<close> says that the listener or
  the owner is closed.
\<close>

section \<open>Requests in flight\<close>

record InflightRequest =
  if_ptr :: nat
  if_Method :: bytes
  if_Tool :: bytes
  if_SessionID :: int
  if_StartTime :: time
  if_process :: "nat option"

text \<open>A started tool watchdog, with what its goroutine captures.\<close>

record watchdog =
  wd_remappedID :: bytes
  wd_originalID :: bytes
  wd_session :: session_ptr
  wd_method :: bytes
  wd_timeout :: duration

record routing =
  ro_sessions :: "(int, Session) gomap"
  ro_inflight :: "(bytes, InflightRequest) gomap"
  ro_methodTags :: "(bytes, bytes) gomap"
  ro_timedOut :: "(bytes, unit) gomap"
  ro_pending :: int
  ro_mgr :: manager
  ro_progressOwners :: "(bytes, int) gomap"
  ro_tokenRequest :: "(bytes, bytes) gomap"
  ro_requestTokens :: "(bytes, bytes list) gomap"
  ro_tracker :: Tracker
  ro_nextPtr :: nat
  ro_watchdogs :: "watchdog list"

section \<open>Caches and classification\<close>

record caches =
  ca_initDone :: bool
  ca_initResp :: "bytes option"
  ca_initProtocolVersion :: bytes
  ca_toolList :: "bytes option"
  ca_promptList :: "bytes option"
  ca_resourceList :: "bytes option"
  ca_resourceTemplateList :: "bytes option"
  ca_cachedInitSessions :: "(int, bool) gomap"
  ca_listChangedAfterRefresh :: bool

text \<open>\<open>cs_mode\<close> is \<open>None\<close> for the empty classification; the two flags are the closed channels.\<close>

record classification =
  cs_mode :: "SharingMode option"
  cs_source :: bytes
  cs_reason :: "bytes list"
  cs_classified :: bool
  cs_initReady :: bool
  cs_cwd :: bytes
  cs_cwdSet :: "(bytes, bool) gomap"
  cs_env :: env
  cs_drainTimeout :: duration
  cs_toolTimeoutNs :: int
  cs_idleTimeoutNs :: int
  cs_progressIntervalNs :: int

section \<open>Upstream generations\<close>

datatype MaterializationPolicy = MaterializationEager | MaterializationOnDemand | MaterializationPersistent

datatype MaterializationState =
    MaterializationCacheOnly | MaterializationMaterializing | MaterializationReady
  | MaterializationFinalizing | MaterializationFinalizeBlocked

text \<open>The first one is the empty string, the trigger of an owner that has not started anything.\<close>

datatype MaterializationTrigger =
    MaterializationTriggerNone | MaterializationTriggerEager | MaterializationTriggerDemand | MaterializationTriggerBackground
  | MaterializationTriggerUpstreamExit | MaterializationTriggerWriteError | MaterializationTriggerPersistent

record LaunchContext =
  lc_SessionID :: int
  lc_Cwd :: bytes
  lc_Env :: env

text \<open>The signals of one process: the outcome of initialize, readiness of discovery, a failure.\<close>

record materializationSignals =
  sg_init :: "bool option"
  sg_discoveryReady :: bool
  sg_failed :: "bytes option"

definition newMaterializationSignals :: materializationSignals where
  "newMaterializationSignals = \<lparr>sg_init = None, sg_discoveryReady = False, sg_failed = None\<rparr>"

text \<open>
  Where the goroutine of an attempt (\<open>runMaterialization\<close>) stands: before its first look at the
  current process, at the head of its loop, waiting for the initialize response, waiting for
  discovery, waiting for the retirement of a process (with the error that caused it, if any),
  waiting for a retry, or forwarding the waiting demands (with the keys it took).
\<close>

datatype attempt_phase =
    PhaseBegin | PhaseLoop | PhaseInit | PhaseDiscovery | PhaseRetire nat "bytes option" bool | PhaseRetry
  | PhaseForward "bytes list"

record materializationAttempt =
  at_generation :: nat
  at_trigger :: MaterializationTrigger
  at_launch :: LaunchContext
  at_launchFrozen :: bool
  at_launchRequiresSession :: bool
  at_cancelled :: bool
  at_process :: "nat option"
  at_signals :: materializationSignals
  at_wait :: duration
  at_phase :: attempt_phase

datatype localDemandState = localDemandWaiting | localDemandForwarding

text \<open>A demand leaves the table when it reaches a terminal state, so only two states are stored.\<close>

record localDemand =
  ld_session :: session_ptr
  ld_message :: Message
  ld_state :: localDemandState
  ld_generation :: nat

record cacheStage =
  sta_generation :: nat
  sta_process :: nat
  sta_initResp :: "bytes option"
  sta_toolList :: "bytes option"
  sta_promptList :: "bytes option"
  sta_resourceList :: "bytes option"
  sta_resourceTemplateList :: "bytes option"
  sta_listChanged :: bool

text \<open>
  A goroutine in \<open>completeRetiringProcess\<close>: the process, the trigger, and whether it runs inside the
  retry loop of \<open>startRetiringProcessRetry\<close>.
\<close>

record completion =
  co_process :: nat
  co_trigger :: MaterializationTrigger
  co_retrying :: bool

record materialization =
  ma_policy :: MaterializationPolicy
  ma_state :: MaterializationState
  ma_trigger :: MaterializationTrigger
  ma_generation :: nat
  ma_attempt :: "materializationAttempt option"
  ma_retiring :: "nat option"
  ma_blockedErr :: "bytes option"
  ma_retryProcess :: "nat option"
  ma_stop :: bool
  ma_demands :: "(bytes, localDemand) gomap"
  ma_order :: "bytes list"
  ma_persistentPending :: bool
  ma_persistentRequired :: bool
  ma_resumeTrigger :: "MaterializationTrigger option"
  ma_restartPins :: int
  ma_stage :: "cacheStage option"
  ma_upstream :: "nat option"
  ma_dead :: bool
  ma_nextProc :: nat
  ma_completing :: "completion list"

section \<open>The owner\<close>

text \<open>The public state of a maintenance hold; its timestamps are their JSON texts.\<close>

record MaintenanceResult =
  mr_HoldID :: bytes
  mr_ServerID :: bytes
  mr_State :: bytes
  mr_ExpiresAt :: bytes
  mr_DrainDeadline :: bytes
  mr_TreesRetired :: bool

datatype callback =
    OnZeroSessions | OnUpstreamExit | OnPersistentDetected | OnPersistentResolved bool | OnCacheInvalidated

record owner_env =
  oe_upWrites :: "bool list"
  oe_upOut :: "(nat \<times> bytes) list"
  oe_cacheReady :: "bool list"
  oe_calls :: "callback list"
  oe_canon :: "bytes \<Rightarrow> bytes"
  oe_getwd :: bytes
  oe_parseTime :: "bytes \<Rightarrow> time option"

record owner =
  ow_serverID :: bytes
  ow_initialAdmissionToken :: bytes
  ow_needsAuth :: bool
  ow_handlerFunc :: bool
  ow_proactiveNamespace :: bytes
  ow_maintenance :: "MaintenanceResult option"
  ow_admissionClosed :: bool
  ow_busy :: "(bytes, busyDeclaration) gomap"
  ow_ro :: routing
  ow_ca :: caches
  ow_cs :: classification
  ow_ma :: materialization
  ow_en :: owner_env

section \<open>Sessions\<close>

abbreviation ow_sessions :: "owner \<Rightarrow> (int, Session) gomap" where
  "ow_sessions ow \<equiv> ro_sessions (ow_ro ow)"

definition onRouting :: "(routing \<Rightarrow> routing) \<Rightarrow> owner \<Rightarrow> owner" where
  "onRouting f ow = ow\<lparr>ow_ro := f (ow_ro ow)\<rparr>"

definition onCaches :: "(caches \<Rightarrow> caches) \<Rightarrow> owner \<Rightarrow> owner" where
  "onCaches f ow = ow\<lparr>ow_ca := f (ow_ca ow)\<rparr>"

definition onClass :: "(classification \<Rightarrow> classification) \<Rightarrow> owner \<Rightarrow> owner" where
  "onClass f ow = ow\<lparr>ow_cs := f (ow_cs ow)\<rparr>"

definition onMat :: "(materialization \<Rightarrow> materialization) \<Rightarrow> owner \<Rightarrow> owner" where
  "onMat f ow = ow\<lparr>ow_ma := f (ow_ma ow)\<rparr>"

definition onEnv :: "(owner_env \<Rightarrow> owner_env) \<Rightarrow> owner \<Rightarrow> owner" where
  "onEnv f ow = ow\<lparr>ow_en := f (ow_en ow)\<rparr>"

definition callback_do :: "callback \<Rightarrow> owner \<Rightarrow> owner" where
  "callback_do c ow = onEnv (\<lambda>e. e\<lparr>oe_calls := oe_calls e @ [c]\<rparr>) ow"

text \<open>The session behind a pointer, when it is still registered. A session is unregistered only after it was closed.\<close>

definition sessionAt :: "owner \<Rightarrow> session_ptr \<Rightarrow> Session option" where
  "sessionAt ow p =
     (case mget (ow_sessions ow) (sp_ID p) of
        None \<Rightarrow> None
      | Some s \<Rightarrow> if se_ptr s = p then Some s else None)"

definition updateSession :: "int \<Rightarrow> Session \<Rightarrow> owner \<Rightarrow> owner" where
  "updateSession sid s ow = onRouting (\<lambda>r. r\<lparr>ro_sessions := mput (ro_sessions r) sid s\<rparr>) ow"

text \<open>\<open>s.WriteRaw(data)\<close> through a pointer; writing to a closed session is an error.\<close>

definition sessionWrite :: "session_ptr \<Rightarrow> bytes \<Rightarrow> owner \<Rightarrow> owner \<times> bool" where
  "sessionWrite p data ow =
     (case sessionAt ow p of
        None \<Rightarrow> (ow, False)
      | Some s \<Rightarrow> (case WriteRaw s data of (s', ok) \<Rightarrow> (updateSession (sp_ID p) s' ow, ok)))"

definition sessionNotify :: "session_ptr \<Rightarrow> bytes \<Rightarrow> owner \<Rightarrow> owner" where
  "sessionNotify p data ow =
     (case sessionAt ow p of
        None \<Rightarrow> ow
      | Some s \<Rightarrow> updateSession (sp_ID p) (SendNotification s data) ow)"

definition closeSession :: "session_ptr \<Rightarrow> owner \<Rightarrow> owner" where
  "closeSession p ow =
     (case sessionAt ow p of
        None \<Rightarrow> ow
      | Some s \<Rightarrow> updateSession (sp_ID p) (CloseSession s) ow)"

section \<open>Error answers\<close>

text \<open>A nil \<open>json.RawMessage\<close> is written as null; an invalid one makes \<open>json.Marshal\<close> fail.\<close>

definition rawJSON :: "bytes option \<Rightarrow> bytes option" where
  "rawJSON i = (case i of None \<Rightarrow> Some ''null'' | Some raw \<Rightarrow> Json.compact raw)"

definition errorFrame :: "bytes \<Rightarrow> int \<Rightarrow> bytes \<Rightarrow> bytes \<Rightarrow> bytes" where
  "errorFrame i code message extra =
     ''{'' @ jsonField ''jsonrpc'' (quote ''2.0'') @ '','' @ jsonField ''id'' i @ '','' @
     jsonField ''error''
       (''{'' @ jsonField ''code'' (intDec code) @ '','' @ jsonField ''message'' (quote message) @ extra @ ''}'') @ ''}''"

definition buildJSONRPCErrorBytes :: "bytes option \<Rightarrow> int \<Rightarrow> bytes \<Rightarrow> bytes option" where
  "buildJSONRPCErrorBytes i code message = map_option (\<lambda>raw. errorFrame raw code message []) (rawJSON i)"

definition boolJSON :: "bool \<Rightarrow> bytes" where
  "boolJSON b = (if b then ''true'' else ''false'')"

definition maintenanceJSON :: "MaintenanceResult \<Rightarrow> bytes" where
  "maintenanceJSON m =
     ''{'' @ jsonField ''hold_id'' (quote (mr_HoldID m)) @ '','' @ jsonField ''server_id'' (quote (mr_ServerID m)) @ '','' @
     jsonField ''state'' (quote (mr_State m)) @ '','' @ jsonField ''expires_at'' (mr_ExpiresAt m) @ '','' @
     jsonField ''drain_deadline'' (mr_DrainDeadline m) @ '','' @ jsonField ''trees_retired'' (boolJSON (mr_TreesRetired m)) @ ''}''"

text \<open>The error of \<open>json.Marshal\<close> is ignored, which leaves an empty line.\<close>

definition maintenanceErrorBytes :: "bytes option \<Rightarrow> MaintenanceResult \<Rightarrow> bytes" where
  "maintenanceErrorBytes i held =
     (case rawJSON i of
        None \<Rightarrow> []
      | Some raw \<Rightarrow>
          errorFrame raw (-32005) ''upstream held for update''
            ('','' @ jsonField ''data''
               (''{'' @ jsonField ''error_code'' (quote ''maintenance_held'') @ '','' @
                jsonField ''maintenance'' (maintenanceJSON held) @ ''}'')))"

definition rejectMaintenance :: "session_ptr \<Rightarrow> Message \<Rightarrow> MaintenanceResult \<Rightarrow> owner \<Rightarrow> owner" where
  "rejectMaintenance p msg held ow =
     (if \<not> IsRequest msg then ow else fst (sessionWrite p (maintenanceErrorBytes (msg_ID msg) held) ow))"

definition writeDemandError :: "session_ptr \<Rightarrow> bytes option \<Rightarrow> bytes \<Rightarrow> owner \<Rightarrow> owner" where
  "writeDemandError p i message ow =
     (case ow_maintenance ow of
        Some held \<Rightarrow> fst (sessionWrite p (maintenanceErrorBytes i held) ow)
      | None \<Rightarrow>
          (case buildJSONRPCErrorBytes i (-32603) message of
             None \<Rightarrow> ow
           | Some payload \<Rightarrow> fst (sessionWrite p payload ow)))"

section \<open>Writing upstream\<close>

text \<open>\<open>proc.WriteLine\<close>.\<close>

definition writeLine :: "nat \<Rightarrow> bytes \<Rightarrow> owner \<Rightarrow> owner \<times> bool" where
  "writeLine proc data ow =
     (case nextOk (oe_upWrites (ow_en ow)) of
        (ok, as) \<Rightarrow>
          (onEnv (\<lambda>e. e\<lparr>oe_upWrites := as, oe_upOut := (if ok then oe_upOut e @ [(proc, data)] else oe_upOut e)\<rparr>) ow, ok))"

datatype write_error = WriteHeld MaintenanceResult | WriteUnavailable | WriteFailed

text \<open>\<open>writeUpstreamFromCurrent\<close> without a \<open>bind\<close> callback, as \<open>writeUpstream\<close> calls it.\<close>

definition writeUpstream :: "bytes \<Rightarrow> owner \<Rightarrow> owner \<times> write_error option" where
  "writeUpstream data ow =
     (case ow_maintenance ow of
        Some held \<Rightarrow> (ow, Some (WriteHeld held))
      | None \<Rightarrow>
          (case ma_upstream (ow_ma ow) of
             None \<Rightarrow> (ow, Some WriteUnavailable)
           | Some up \<Rightarrow> (case writeLine up data ow of (ow', ok) \<Rightarrow> (ow', if ok then None else Some WriteFailed))))"

definition writeUpstreamToProcess :: "nat \<Rightarrow> bytes \<Rightarrow> owner \<Rightarrow> owner \<times> write_error option" where
  "writeUpstreamToProcess proc data ow =
     (case ow_maintenance ow of
        Some held \<Rightarrow> (ow, Some (WriteHeld held))
      | None \<Rightarrow> (case writeLine proc data ow of (ow', ok) \<Rightarrow> (ow', if ok then None else Some WriteFailed)))"

definition hasWritableUpstream :: "owner \<Rightarrow> bool" where
  "hasWritableUpstream ow \<longleftrightarrow> ma_upstream (ow_ma ow) \<noteq> None"

definition materializationReadyForRequests :: "owner \<Rightarrow> bool" where
  "materializationReadyForRequests ow \<longleftrightarrow>
     ma_state (ow_ma ow) = MaterializationReady \<and> \<not> ma_dead (ow_ma ow) \<and> hasWritableUpstream ow"

definition forwardNotificationIfReady :: "bytes \<Rightarrow> owner \<Rightarrow> owner" where
  "forwardNotificationIfReady data ow =
     (if \<not> materializationReadyForRequests ow then ow else fst (writeUpstream data ow))"

definition rootsListChangedFrame :: bytes where
  "rootsListChangedFrame =
     ''{'' @ jsonField ''jsonrpc'' (quote ''2.0'') @ '','' @ jsonField ''method'' (quote ''notifications/roots/list_changed'') @ ''}''"

definition sendRootsListChanged :: "owner \<Rightarrow> owner" where
  "sendRootsListChanged ow = forwardNotificationIfReady rootsListChangedFrame ow"

section \<open>Proactive requests\<close>

text \<open>
  \<open>strconv.Unquote\<close> on the raw text of an id: a Go literal in double quotes; the escapes that JSON
  allows and Go does not are refused.
\<close>

fun goUnescape :: "bytes \<Rightarrow> bytes option" where
  "goUnescape [] = Some []"
| "goUnescape (c # s) =
     (if c = CHR 0x22 \<or> c = CHR 0x0A then None
      else if c \<noteq> CHR 0x5C then map_option ((#) c) (goUnescape s)
      else case s of
          [] \<Rightarrow> None
        | e # s' \<Rightarrow>
            (if e = CHR ''b'' then map_option ((#) (CHR 0x08)) (goUnescape s')
             else if e = CHR ''f'' then map_option ((#) (CHR 0x0C)) (goUnescape s')
             else if e = CHR ''n'' then map_option ((#) (CHR 0x0A)) (goUnescape s')
             else if e = CHR ''r'' then map_option ((#) (CHR 0x0D)) (goUnescape s')
             else if e = CHR ''t'' then map_option ((#) (CHR 0x09)) (goUnescape s')
             else if e = CHR 0x5C \<or> e = CHR 0x22 then map_option ((#) e) (goUnescape s')
             else if e = CHR ''u'' then
               (case s' of
                  h1 # h2 # h3 # h4 # s'' \<Rightarrow>
                    (case hex4 [h1, h2, h3, h4] of
                       None \<Rightarrow> None
                     | Some rr \<Rightarrow> if isSurrogate rr then None else map_option ((@) (encodeRune rr)) (goUnescape s''))
                | _ \<Rightarrow> None)
             else None))"

definition goUnquote :: "bytes \<Rightarrow> bytes option" where
  "goUnquote s =
     (if length s \<ge> 2 \<and> hd s = CHR 0x22 \<and> last s = CHR 0x22 then goUnescape (butlast (tl s)) else None)"

definition isProactiveID :: "bytes \<Rightarrow> bytes \<Rightarrow> bool" where
  "isProactiveID namespace i =
     (case goUnquote i of
        None \<Rightarrow> False
      | Some v \<Rightarrow> namespace \<noteq> [] \<and> hasPrefix v (namespace @ ''-''))"

section \<open>Counting and claiming\<close>

definition decrementPending :: "routing \<Rightarrow> routing" where
  "decrementPending r = (if ro_pending r \<le> 0 then r else r\<lparr>ro_pending := ro_pending r - 1\<rparr>)"

definition completeRequest :: "bytes \<Rightarrow> routing \<Rightarrow> routing" where
  "completeRequest key r = r\<lparr>ro_mgr := CompleteRequest (ro_mgr r) key\<rparr>"

section \<open>Progress tokens\<close>

definition requestProgressToken :: "bytes \<Rightarrow> bytes option" where
  "requestProgressToken raw =
     Option.bind (unmarshalPath [''params'', ''_meta'', ''progresstoken''] raw) rawField"

definition tokensOf :: "routing \<Rightarrow> bytes \<Rightarrow> bytes list" where
  "tokensOf r requestID = (case mget (ro_requestTokens r) requestID of None \<Rightarrow> [] | Some ts \<Rightarrow> ts)"

definition trackProgressToken :: "int \<Rightarrow> bytes \<Rightarrow> bytes \<Rightarrow> routing \<Rightarrow> routing" where
  "trackProgressToken sessionID requestID raw r =
     (case requestProgressToken raw of
        None \<Rightarrow> r
      | Some token \<Rightarrow>
          r\<lparr>ro_progressOwners := mput (ro_progressOwners r) token sessionID,
            ro_tokenRequest := mput (ro_tokenRequest r) token requestID,
            ro_requestTokens := mput (ro_requestTokens r) requestID (tokensOf r requestID @ [token])\<rparr>)"

definition clearProgressTokensForRequest :: "bytes \<Rightarrow> routing \<Rightarrow> routing" where
  "clearProgressTokensForRequest requestID r =
     (let tokens = tokensOf r requestID
      in r\<lparr>ro_progressOwners := foldl mdel (ro_progressOwners r) tokens,
           ro_tokenRequest := foldl mdel (ro_tokenRequest r) tokens,
           ro_requestTokens := mdel (ro_requestTokens r) requestID,
           ro_tracker := Cleanup (ro_tracker r) tokens\<rparr>)"

text \<open>The part of \<open>removeSession\<close> that drops the tokens a session owns.\<close>

definition ownedTokens :: "routing \<Rightarrow> int \<Rightarrow> bytes list" where
  "ownedTokens r sid = map fst (filter (\<lambda>(_, o'). o' = sid) (ro_progressOwners r))"

definition dropSessionTokens :: "int \<Rightarrow> routing \<Rightarrow> routing" where
  "dropSessionTokens sid r =
     (let tokens = ownedTokens r sid;
          reqs = map (\<lambda>t. case mget (ro_tokenRequest r) t of None \<Rightarrow> [] | Some q \<Rightarrow> q) tokens
      in r\<lparr>ro_progressOwners := foldl mdel (ro_progressOwners r) tokens,
           ro_tokenRequest := foldl mdel (ro_tokenRequest r) tokens,
           ro_requestTokens := foldl mdel (ro_requestTokens r) reqs,
           ro_tracker := (if tokens = [] then ro_tracker r else Cleanup (ro_tracker r) tokens)\<rparr>)"

end
