(* ===== verification/Owner_Cache.thy ===== *)
theory Owner_Cache
  imports Owner_State
begin

text \<open>
  The responses that an owner keeps for replay, and what it learns from them: the sharing mode of
  the server, its declared times and persistence (\<open>owner.go\<close> from \<open>getCachedResponse\<close> to
  \<open>parseDrainTimeout\<close>, and the broadcasts). The daemon's callbacks are set, as \<open>daemon.go\<close> sets them.
\<close>

section \<open>Broadcasts\<close>

definition notifyAll :: "bytes list \<Rightarrow> owner \<Rightarrow> owner" where
  "notifyAll datas ow =
     onRouting (\<lambda>r. r\<lparr>ro_sessions := mmapv (\<lambda>s. foldl SendNotification s datas) (ro_sessions r)\<rparr>) ow"

definition listChangedFrame :: "bytes \<Rightarrow> bytes" where
  "listChangedFrame kind =
     ''{'' @ jsonField ''jsonrpc'' (quote ''2.0'') @ '','' @
     jsonField ''method'' (quote (''notifications/'' @ kind @ ''/list_changed'')) @ ''}''"

definition broadcastListChanged :: "owner \<Rightarrow> owner" where
  "broadcastListChanged ow = notifyAll (map listChangedFrame [''tools'', ''prompts'', ''resources'']) ow"

definition invalidateCacheIfNeeded :: "bytes \<Rightarrow> owner \<Rightarrow> owner" where
  "invalidateCacheIfNeeded data ow =
     (case Parse data of
        Inl _ \<Rightarrow> ow
      | Inr msg \<Rightarrow>
          (if \<not> IsNotification msg then ow
           else if msg_Method msg = ''notifications/tools/list_changed''
           then callback_do OnCacheInvalidated (onCaches (\<lambda>c. c\<lparr>ca_toolList := None\<rparr>) ow)
           else if msg_Method msg = ''notifications/prompts/list_changed''
           then callback_do OnCacheInvalidated (onCaches (\<lambda>c. c\<lparr>ca_promptList := None\<rparr>) ow)
           else if msg_Method msg = ''notifications/resources/list_changed''
           then callback_do OnCacheInvalidated
                  (onCaches (\<lambda>c. c\<lparr>ca_resourceList := None, ca_resourceTemplateList := None\<rparr>) ow)
           else ow))"

definition broadcast :: "bytes \<Rightarrow> owner \<Rightarrow> owner" where
  "broadcast data ow = notifyAll [data] (invalidateCacheIfNeeded data ow)"

section \<open>Replay\<close>

definition getCachedResponse :: "owner \<Rightarrow> bytes \<Rightarrow> bytes option" where
  "getCachedResponse ow method =
     (if method = ''initialize'' then ca_initResp (ow_ca ow)
      else if method = ''tools/list'' then ca_toolList (ow_ca ow)
      else if method = ''prompts/list'' then ca_promptList (ow_ca ow)
      else if method = ''resources/list'' then ca_resourceList (ow_ca ow)
      else if method = ''resources/templates/list'' then ca_resourceTemplateList (ow_ca ow)
      else None)"

definition initProtocolVersionOf :: "bytes \<Rightarrow> bytes option" where
  "initProtocolVersionOf raw = Option.bind (unmarshalPath [''params'', ''protocolversion''] raw) (stringField [])"

definition captureInitFingerprint :: "bytes \<Rightarrow> owner \<Rightarrow> owner" where
  "captureInitFingerprint raw ow =
     (case initProtocolVersionOf raw of
        None \<Rightarrow> ow
      | Some v \<Rightarrow>
          (if v = [] then ow
           else if ca_initProtocolVersion (ow_ca ow) = []
           then onCaches (\<lambda>c. c\<lparr>ca_initProtocolVersion := v\<rparr>) ow
           else ow))"

definition initFingerprintMatches :: "owner \<Rightarrow> bytes \<Rightarrow> bool" where
  "initFingerprintMatches ow raw =
     (if ca_initProtocolVersion (ow_ca ow) = [] then True
      else case initProtocolVersionOf raw of
          None \<Rightarrow> True
        | Some v \<Rightarrow> v = ca_initProtocolVersion (ow_ca ow))"

text \<open>
  The answer with the id of the client, and the error of the call. Replacing the id of a cached
  response cannot panic, because only objects are cached.
\<close>

definition writeErrorText :: "owner \<Rightarrow> session_ptr \<Rightarrow> bytes" where
  "writeErrorText ow p =
     ''session '' @ intDec (sp_ID p) @
     (case sessionAt ow p of
        None \<Rightarrow> '': closed''
      | Some s \<Rightarrow> if se_closed s then '': closed'' else '': write'')"

definition replayFromCache :: "session_ptr \<Rightarrow> Message \<Rightarrow> bytes \<Rightarrow> owner \<Rightarrow> owner \<times> bytes option" where
  "replayFromCache p msg cached ow =
     (case ow_maintenance ow of
        Some held \<Rightarrow> (rejectMaintenance p msg held ow, None)
      | None \<Rightarrow>
          (case ReplaceID cached (case msg_ID msg of None \<Rightarrow> ''null'' | Some i \<Rightarrow> i) of
             None \<Rightarrow> (ow, Some [])
           | Some (Inl e) \<Rightarrow> (ow, Some (''replay '' @ msg_Method msg @ '': replace id: '' @ e))
           | Some (Inr replaced) \<Rightarrow>
               (case sessionWrite p replaced
                   (if msg_Method msg = ''initialize''
                    then onCaches (\<lambda>c. c\<lparr>ca_cachedInitSessions := mput (ca_cachedInitSessions c) (sp_ID p) True\<rparr>) ow
                    else ow) of
                  (ow', True) \<Rightarrow> (ow', None)
                | (ow', False) \<Rightarrow> (ow', Some (writeErrorText ow' p)))))"

section \<open>Classification\<close>

definition resetCwdSetToPrimary :: "owner \<Rightarrow> owner" where
  "resetCwdSetToPrimary ow =
     onClass (\<lambda>c. c\<lparr>cs_cwdSet := [(oe_canon (ow_en ow) (cs_cwd c), True)]\<rparr>) ow"

definition lowestID :: "int list \<Rightarrow> int" where
  "lowestID ids = foldl (\<lambda>keep sid. if keep = -1 \<or> sid < keep then sid else keep) (-1) ids"

definition closeAllBut :: "int \<Rightarrow> owner \<Rightarrow> owner" where
  "closeAllBut keepID ow =
     onRouting (\<lambda>r. r\<lparr>ro_sessions :=
       map (\<lambda>(sid, s). (sid, if sid = keepID then s else CloseSession s)) (ro_sessions r)\<rparr>) ow"

definition evictExtraSessions :: "owner \<Rightarrow> owner" where
  "evictExtraSessions ow =
     (if mlen (ow_sessions ow) \<le> 1 then ow
      else closeAllBut (lowestID (map fst (ow_sessions ow))) ow)"

definition setClassification :: "SharingMode \<Rightarrow> bytes \<Rightarrow> bytes list \<Rightarrow> owner \<Rightarrow> owner" where
  "setClassification mode source reason ow =
     onClass (\<lambda>c. c\<lparr>cs_mode := Some mode, cs_source := source, cs_reason := reason, cs_classified := True\<rparr>) ow"

definition restrictToIsolated :: "owner \<Rightarrow> owner" where
  "restrictToIsolated ow =
     evictExtraSessions
       (onRouting (\<lambda>r. r\<lparr>ro_mgr := fst (RemovePendingForOwnerExcept (ro_mgr r) (ow_serverID ow) (ow_initialAdmissionToken ow))\<rparr>)
          (resetCwdSetToPrimary ow))"

definition classifyFromCapabilities :: "bytes \<Rightarrow> owner \<Rightarrow> owner" where
  "classifyFromCapabilities initJSON ow =
     (if cs_source (ow_cs ow) \<noteq> [] then ow
      else case ClassifyCapabilities initJSON of
          None \<Rightarrow> ow
        | Some mode \<Rightarrow>
            (let ow' = setClassification mode ''capability'' [] ow
             in if mode = ModeIsolated then restrictToIsolated ow' else ow'))"

definition classifyFromToolList :: "bytes \<Rightarrow> owner \<Rightarrow> owner" where
  "classifyFromToolList toolsJSON ow =
     (if cs_source (ow_cs ow) \<noteq> [] then ow
      else case ClassifyTools toolsJSON of
          (mode, matched) \<Rightarrow>
            (let ow' = setClassification mode ''tools'' matched ow
             in if mode = ModeIsolated then restrictToIsolated ow' else ow'))"

section \<open>Declared settings\<close>

definition ResolvePersistent :: "bool \<Rightarrow> owner \<Rightarrow> owner" where
  "ResolvePersistent persistent ow =
     onMat (\<lambda>m. m\<lparr>ma_persistentPending := False,
       ma_policy := (if persistent \<or> ma_persistentRequired m \<or> ma_policy m = MaterializationPersistent
                     then MaterializationPersistent else ma_policy m)\<rparr>) ow"

definition checkPersistent :: "bytes \<Rightarrow> owner \<Rightarrow> owner" where
  "checkPersistent initJSON ow =
     callback_do (OnPersistentResolved (ParsePersistent initJSON)) (ResolvePersistent (ParsePersistent initJSON) ow)"

definition storeSeconds :: "(int \<Rightarrow> classification \<Rightarrow> classification) \<Rightarrow> int \<Rightarrow> owner \<Rightarrow> owner" where
  "storeSeconds store secs ow = (if secs > 0 then onClass (store (seconds secs)) ow else ow)"

definition parseDrainTimeout :: "bytes \<Rightarrow> owner \<Rightarrow> owner" where
  "parseDrainTimeout initJSON = storeSeconds (\<lambda>ns c. c\<lparr>cs_drainTimeout := ns\<rparr>) (ParseDrainTimeout initJSON)"

definition parseToolTimeout :: "bytes \<Rightarrow> owner \<Rightarrow> owner" where
  "parseToolTimeout initJSON = storeSeconds (\<lambda>ns c. c\<lparr>cs_toolTimeoutNs := ns\<rparr>) (ParseToolTimeout initJSON)"

definition parseIdleTimeout :: "bytes \<Rightarrow> owner \<Rightarrow> owner" where
  "parseIdleTimeout initJSON = storeSeconds (\<lambda>ns c. c\<lparr>cs_idleTimeoutNs := ns\<rparr>) (ParseIdleTimeout initJSON)"

definition parseProgressInterval :: "bytes \<Rightarrow> owner \<Rightarrow> owner" where
  "parseProgressInterval initJSON =
     storeSeconds (\<lambda>ns c. c\<lparr>cs_progressIntervalNs := ns\<rparr>) (ParseProgressInterval initJSON)"

definition markInitReady :: "owner \<Rightarrow> owner" where
  "markInitReady ow = onClass (\<lambda>c. c\<lparr>cs_initReady := True\<rparr>) ow"

section \<open>Caching\<close>

definition successfulJSONRPCResponse :: "bytes \<Rightarrow> bool" where
  "successfulJSONRPCResponse raw =
     (case unmarshalMap raw of
        None \<Rightarrow> False
      | Some obj \<Rightarrow> nilget obj ''result'' \<noteq> None \<and> nilget obj ''error'' = None)"

definition injectedInit :: "bytes \<Rightarrow> bytes" where
  "injectedInit raw = (case InjectInitializeCapability raw of None \<Rightarrow> raw | Some injected \<Rightarrow> injected)"

definition storeResponse :: "bytes \<Rightarrow> bytes \<Rightarrow> caches \<Rightarrow> caches" where
  "storeResponse method raw c =
     (if method = ''initialize'' then c\<lparr>ca_initResp := Some (injectedInit raw), ca_initDone := True\<rparr>
      else if method = ''tools/list'' then c\<lparr>ca_toolList := Some raw\<rparr>
      else if method = ''prompts/list'' then c\<lparr>ca_promptList := Some raw\<rparr>
      else if method = ''resources/list'' then c\<lparr>ca_resourceList := Some raw\<rparr>
      else if method = ''resources/templates/list'' then c\<lparr>ca_resourceTemplateList := Some raw\<rparr>
      else c)"

text \<open>The daemon is asked before a tool list of an initialized server is published.\<close>

definition askCacheReady :: "owner \<Rightarrow> owner \<times> bool" where
  "askCacheReady ow =
     (case nextOk (oe_cacheReady (ow_en ow)) of
        (ok, as) \<Rightarrow> (onEnv (\<lambda>e. e\<lparr>oe_cacheReady := as\<rparr>) ow, ok))"

definition cacheAdmitted :: "bytes \<Rightarrow> owner \<Rightarrow> owner \<times> bool" where
  "cacheAdmitted method ow =
     (if method = ''tools/list'' \<and> ca_initDone (ow_ca ow) then askCacheReady ow else (ow, True))"

definition learnFromInit :: "bytes \<Rightarrow> owner \<Rightarrow> owner" where
  "learnFromInit raw ow =
     parseProgressInterval raw (parseIdleTimeout raw (parseToolTimeout raw (parseDrainTimeout raw
       (checkPersistent raw (classifyFromCapabilities raw (markInitReady ow))))))"

text \<open>The result says whether the clients must be told to fetch their lists again.\<close>

definition cacheResponseState :: "bytes \<Rightarrow> bytes \<Rightarrow> owner \<Rightarrow> owner \<times> bool" where
  "cacheResponseState method raw ow =
     (if \<not> successfulJSONRPCResponse raw then (ow, False)
      else case cacheAdmitted method ow of
          (ow0, False) \<Rightarrow> (ow0, False)
        | (ow0, True) \<Rightarrow>
            (let ow1 = onCaches (storeResponse method raw) ow0;
                 ow2 = (if method = ''initialize'' then learnFromInit raw ow1 else ow1)
             in if method \<noteq> ''tools/list'' then (ow2, False)
                else let ow3 = classifyFromToolList raw ow2
                     in if \<not> ca_listChangedAfterRefresh (ow_ca ow3) then (ow3, False)
                        else (onCaches (\<lambda>c. c\<lparr>ca_listChangedAfterRefresh := False, ca_promptList := None,
                                 ca_resourceList := None, ca_resourceTemplateList := None\<rparr>) ow3, True)))"

definition cacheResponse :: "bytes \<Rightarrow> bytes \<Rightarrow> owner \<Rightarrow> owner" where
  "cacheResponse method raw ow =
     (case cacheResponseState method raw ow of
        (ow', changed) \<Rightarrow> if changed then broadcastListChanged ow' else ow')"

end
