(* ===== verification/Owner_Route.thy ===== *)
theory Owner_Route
  imports Owner_Cache
begin

text \<open>
  Requests of the sessions on their way to the upstream and back: forwarding with a remapped id
  (\<open>materialization.go\<close>, \<open>forwardRequestPrepared\<close>), the tool watchdog, the errors that a dead
  upstream leaves behind, progress notifications and synthetic progress (\<open>owner.go\<close>,
  \<open>progress_reporter.go\<close>).
\<close>

section \<open>Forwarding a request\<close>

definition extractToolName :: "bytes \<Rightarrow> bytes" where
  "extractToolName raw =
     (case Option.bind (unmarshalPath [''params'', ''name''] raw) (stringField []) of None \<Rightarrow> [] | Some n \<Rightarrow> n)"

text \<open>\<open>json.Marshal\<close> of a \<open>map[string]string\<close>.\<close>

definition marshalStrings :: "(bytes, bytes) gomap \<Rightarrow> bytes" where
  "marshalStrings m = ''{'' @ joinWith '','' (map (\<lambda>(k, v). quote k @ CHR '':'' # quote v) (sort_key fst m)) @ ''}''"

text \<open>A failed injection is logged and the message stays as it is; \<open>None\<close> is a panic.\<close>

definition injectOrKeep :: "bytes \<Rightarrow> bytes \<Rightarrow> bytes \<Rightarrow> bytes option" where
  "injectOrKeep key valueJSON raw =
     (case InjectMeta raw key valueJSON of
        None \<Rightarrow> None
      | Some (Inl _) \<Rightarrow> Some raw
      | Some (Inr injected) \<Rightarrow> Some injected)"

definition sessionMetaInjected :: "Session \<Rightarrow> bytes \<Rightarrow> bytes option" where
  "sessionMetaInjected s raw =
     Option.bind (injectOrKeep ''muxSessionId'' (quote (se_MuxSessionID s)) raw) (\<lambda>raw1.
     Option.bind (if se_Cwd s \<noteq> [] then injectOrKeep ''muxCwd'' (quote (se_Cwd s)) raw1 else Some raw1) (\<lambda>raw2.
       if envMap (se_Env s) \<noteq> [] then injectOrKeep ''muxEnv'' (marshalStrings (envMap (se_Env s))) raw2 else Some raw2))"

definition needsMeta :: "owner \<Rightarrow> bool" where
  "needsMeta ow \<longleftrightarrow> cs_mode (ow_cs ow) = Some ModeSessionAware \<or> ow_handlerFunc ow"

text \<open>The bytes that go upstream: \<open>None\<close> is a panic, \<open>Inl\<close> an id that cannot be replaced.\<close>

definition remappedRequest :: "owner \<Rightarrow> Session \<Rightarrow> Message \<Rightarrow> bytes result option" where
  "remappedRequest ow s msg =
     (case ReplaceID (msg_Raw msg) (Remap (se_ID s) (msg_ID msg)) of
        None \<Rightarrow> None
      | Some (Inl e) \<Rightarrow> Some (Err (''remap request: '' @ e))
      | Some (Inr raw) \<Rightarrow> (if needsMeta ow then map_option Ok (sessionMetaInjected s raw) else Some (Ok raw)))"

definition taggedMethods :: "bytes list" where
  "taggedMethods = [''initialize'', ''tools/list'', ''prompts/list'', ''resources/list'', ''resources/templates/list'']"

definition newInflight :: "nat \<Rightarrow> time \<Rightarrow> Session \<Rightarrow> Message \<Rightarrow> nat \<Rightarrow> InflightRequest" where
  "newInflight ptr now s msg proc =
     \<lparr>if_ptr = ptr, if_Method = msg_Method msg, if_Tool = extractToolName (msg_Raw msg), if_SessionID = se_ID s,
      if_StartTime = now, if_process = Some proc\<rparr>"

definition startToolWatchdog :: "bytes \<Rightarrow> bytes option \<Rightarrow> session_ptr \<Rightarrow> bytes \<Rightarrow> owner \<Rightarrow> owner" where
  "startToolWatchdog remappedID originalID p method ow =
     (if cs_toolTimeoutNs (ow_cs ow) \<le> 0 then ow
      else onRouting (\<lambda>r. r\<lparr>ro_watchdogs := ro_watchdogs r @
             [\<lparr>wd_remappedID = remappedID, wd_originalID = (case originalID of None \<Rightarrow> [] | Some i \<Rightarrow> i),
               wd_session = p, wd_method = method, wd_timeout = cs_toolTimeoutNs (ow_cs ow)\<rparr>]\<rparr>) ow)"

text \<open>The \<open>bind\<close> callback: everything that is recorded before the bytes are written.\<close>

definition publishRequest :: "time \<Rightarrow> Session \<Rightarrow> Message \<Rightarrow> nat \<Rightarrow> owner \<Rightarrow> owner" where
  "publishRequest now s msg proc ow =
     (let key = Remap (se_ID s) (msg_ID msg);
          ow1 = onRouting (\<lambda>r.
            r\<lparr>ro_pending := ro_pending r + 1,
              ro_inflight := mput (ro_inflight r) key (newInflight (ro_nextPtr r) now s msg proc),
              ro_nextPtr := Suc (ro_nextPtr r),
              ro_methodTags :=
                (if msg_Method msg \<in> set taggedMethods
                 then mput (ro_methodTags r) key (msg_Method msg) else ro_methodTags r)\<rparr>) ow;
          ow2 = (if msg_Method msg = ''initialize'' then captureInitFingerprint (msg_Raw msg) ow1 else ow1);
          ow3 = onRouting (\<lambda>r. (trackProgressToken (se_ID s) key (msg_Raw msg) r)) ow2;
          ow4 = onRouting (\<lambda>r. r\<lparr>ro_mgr := TrackRequest (ro_mgr r) now key (se_ID s)\<rparr>) ow3
      in if msg_Method msg = ''tools/call'' \<and> cs_toolTimeoutNs (ow_cs ow4) > 0
         then startToolWatchdog key (msg_ID msg) (se_ptr s) (msg_Method msg) ow4 else ow4)"

text \<open>What a failed write undoes, when the request is still the one that was published.\<close>

definition unpublish :: "bytes \<Rightarrow> nat \<Rightarrow> routing \<Rightarrow> (routing \<times> bool)" where
  "unpublish key ptr r =
     (case mget (ro_inflight r) key of
        None \<Rightarrow> (r, False)
      | Some fl \<Rightarrow>
          (if if_ptr fl \<noteq> ptr then (r, False)
           else (decrementPending (clearProgressTokensForRequest key (completeRequest key
                   (r\<lparr>ro_inflight := mdel (ro_inflight r) key,
                      ro_methodTags := mdel (ro_methodTags r) key\<rparr>))), True)))"

datatype forward_result =
    ForwardOk | ForwardHeld MaintenanceResult | ForwardError bytes | ForwardWriteFailed "nat option" | ForwardPanic

text \<open>The caller holds a session that is registered.\<close>

definition forwardRequestPrepared :: "time \<Rightarrow> session_ptr \<Rightarrow> Message \<Rightarrow> owner \<Rightarrow> owner \<times> forward_result" where
  "forwardRequestPrepared now p msg ow =
     (case sessionAt ow p of
        None \<Rightarrow> (ow, ForwardOk)
      | Some s \<Rightarrow>
          (case remappedRequest ow s msg of
             None \<Rightarrow> (ow, ForwardPanic)
           | Some (Inl e) \<Rightarrow> (ow, ForwardError e)
           | Some (Inr raw) \<Rightarrow>
               (case ow_maintenance ow of
                  Some held \<Rightarrow> (ow, ForwardHeld held)
                | None \<Rightarrow>
                    (case ma_upstream (ow_ma ow) of
                       None \<Rightarrow> (writeDemandError p (msg_ID msg) ''upstream write failed'' ow, ForwardWriteFailed None)
                     | Some up \<Rightarrow>
                         (let key = Remap (se_ID s) (msg_ID msg); ptr = ro_nextPtr (ow_ro ow)
                          in case writeLine up raw (publishRequest now s msg up ow) of
                               (ow1, True) \<Rightarrow> (ow1, ForwardOk)
                             | (ow1, False) \<Rightarrow>
                                 (case unpublish key ptr (ow_ro ow1) of
                                    (r, True) \<Rightarrow>
                                      (writeDemandError p (msg_ID msg) ''upstream write failed'' (ow1\<lparr>ow_ro := r\<rparr>),
                                       ForwardWriteFailed (Some up))
                                  | (_, False) \<Rightarrow> (ow1, ForwardWriteFailed (Some up))))))))"

section \<open>The tool watchdog\<close>

text \<open>Go prints a duration of whole seconds as hours, minutes and seconds.\<close>

definition durationString :: "duration \<Rightarrow> bytes" where
  "durationString d =
     (let secs = d div 1000000000; h = secs div 3600; mi = secs mod 3600 div 60; sec = secs mod 60
      in (if h > 0 then intDec h @ ''h'' else []) @ (if h > 0 \<or> mi > 0 then intDec mi @ ''m'' else []) @ intDec sec @ ''s'')"

definition watchdogFrame :: "watchdog \<Rightarrow> bytes" where
  "watchdogFrame wd =
     ''{'' @ jsonField ''jsonrpc'' (quote ''2.0'') @ '','' @ jsonField ''id'' (wd_originalID wd) @ '','' @
     jsonField ''error''
       (''{'' @ jsonField ''code'' ''-32000'' @ '','' @
        jsonField ''message'' ([CHR 0x22] @ ''mux: '' @ wd_method wd @ '' timed out after '' @ durationString (wd_timeout wd) @
          '' (upstream did not respond)'' @ [CHR 0x22]) @ ''}'') @ ''}''"

definition fireWatchdog :: "watchdog \<Rightarrow> owner \<Rightarrow> owner" where
  "fireWatchdog wd ow =
     (let key = wd_remappedID wd
      in if mget (ro_inflight (ow_ro ow)) key = None then ow
         else fst (sessionWrite (wd_session wd) (watchdogFrame wd)
                (onRouting (\<lambda>r. decrementPending (completeRequest key
                   (r\<lparr>ro_inflight := mdel (ro_inflight r) key,
                      ro_timedOut := mput (ro_timedOut r) key (),
                      ro_methodTags := mdel (ro_methodTags r) key\<rparr>))) ow)))"

section \<open>The death of the upstream\<close>

text \<open>
  Every key is an id that \<open>Remap\<close> made, so it starts with a quote; when it is no JSON text, the
  quoted form that the source decodes instead starts with a quote, too, and has no session prefix.
\<close>

definition deremapKey :: "bytes \<Rightarrow> DeremapResult result" where
  "deremapKey key = (if jsonValid key then Deremap key else Err ''deremap: missing session prefix'')"

definition exitedFrame :: "bytes \<Rightarrow> bytes" where
  "exitedFrame originalID =
     ''{'' @ jsonField ''jsonrpc'' (quote ''2.0'') @ '','' @ jsonField ''id'' originalID @ '','' @
     jsonField ''error''
       (''{'' @ jsonField ''code'' ''-32603'' @ '','' @ jsonField ''message'' (quote ''upstream process exited'') @ ''}'') @ ''}''"

definition drainPayload :: "owner \<Rightarrow> bytes \<Rightarrow> bytes" where
  "drainPayload ow originalID =
     (case ow_maintenance ow of
        None \<Rightarrow> exitedFrame originalID
      | Some held \<Rightarrow> maintenanceErrorBytes (Some originalID) held)"

definition forgetDrained :: "bytes \<Rightarrow> routing \<Rightarrow> routing" where
  "forgetDrained key r =
     clearProgressTokensForRequest key
       (r\<lparr>ro_methodTags := mdel (ro_methodTags r) key, ro_timedOut := mdel (ro_timedOut r) key\<rparr>)"

text \<open>One entry of the session manager's in-flight table; the answer that is due, if any.\<close>

definition claimEntry :: "owner \<Rightarrow> bytes \<Rightarrow> owner \<times> (session_ptr \<times> bytes) list" where
  "claimEntry ow key =
     (if mget (ro_inflight (ow_ro ow)) key = None then (ow, [])
      else
        let ow1 = onRouting (\<lambda>r. decrementPending (r\<lparr>ro_inflight := mdel (ro_inflight r) key\<rparr>)) ow
        in case deremapKey key of
             Inl _ \<Rightarrow> (ow1, [])
           | Inr res \<Rightarrow>
               (onRouting (forgetDrained key) ow1,
                case mget (ow_sessions ow1) (de_SessionID res) of
                  None \<Rightarrow> []
                | Some s \<Rightarrow> [(se_ptr s, drainPayload ow1 (de_OriginalID res))]))"

fun claimEntries :: "bytes list \<Rightarrow> owner \<Rightarrow> owner \<times> (session_ptr \<times> bytes) list" where
  "claimEntries [] ow = (ow, [])"
| "claimEntries (key # keys) ow =
     (case claimEntry ow key of
        (ow1, rs) \<Rightarrow> (case claimEntries keys ow1 of (ow2, rs') \<Rightarrow> (ow2, rs @ rs')))"

definition claimInflightRequests :: "owner \<Rightarrow> owner \<times> (session_ptr \<times> bytes) list" where
  "claimInflightRequests ow =
     (case DrainInflight (ro_mgr (ow_ro ow)) of
        (mgr', entries) \<Rightarrow> claimEntries (map fst entries) (onRouting (\<lambda>r. r\<lparr>ro_mgr := mgr'\<rparr>) ow))"

definition deliverInflightResponses :: "(session_ptr \<times> bytes) list \<Rightarrow> owner \<Rightarrow> owner" where
  "deliverInflightResponses responses ow = foldl (\<lambda>ow (p, payload). fst (sessionWrite p payload ow)) ow responses"

definition drainInflightRequests :: "owner \<Rightarrow> owner" where
  "drainInflightRequests ow =
     (case claimInflightRequests ow of (ow', responses) \<Rightarrow> deliverInflightResponses responses ow')"

section \<open>Progress\<close>

text \<open>
  \<open>*float64\<close>: a number that does not round to infinity; \<open>null\<close> leaves nil.
\<close>

definition finiteFloat :: "bytes \<Rightarrow> bool" where
  "finiteFloat v =
     (case canonicalJSONNumber (trimJSONWhitespace v) of
        None \<Rightarrow> False
      | Some k \<Rightarrow>
          (case splitCanonicalNumber k of
             (sign, digits, e) \<Rightarrow>
               (let bound = 2 ^ 1024 - 2 ^ 970 :: nat
                in if e < 0 then digval digits < bound * 10 ^ nat (- e)
                   else digits = [] \<or> (e \<le> 400 \<and> digval digits * 10 ^ nat e < bound))))"

fun floatPtr :: "bool \<Rightarrow> bytes list \<Rightarrow> bool option" where
  "floatPtr present [] = Some present"
| "floatPtr present (v # vs) =
     (if isNullValue v then floatPtr False vs
      else if finiteFloat v then floatPtr True vs
      else None)"

text \<open>The token and whether a total was sent; \<open>None\<close> when the notification cannot be decoded or has no token.\<close>

definition progressParams :: "bytes \<Rightarrow> (bytes \<times> bool) option" where
  "progressParams raw =
     Option.bind (unmarshalPath [''params'', ''progresstoken''] raw) (\<lambda>tokens.
     Option.bind (Option.bind (unmarshalPath [''params'', ''total''] raw) (floatPtr False)) (\<lambda>hasTotal.
       map_option (\<lambda>token. (token, hasTotal)) (rawField tokens)))"

definition routeProgressNotification :: "time \<Rightarrow> bytes \<Rightarrow> owner \<Rightarrow> owner" where
  "routeProgressNotification now raw ow =
     (case progressParams raw of
        None \<Rightarrow> ow
      | Some (token, hasTotal) \<Rightarrow>
          (case mget (ro_progressOwners (ow_ro ow)) token of
             None \<Rightarrow> ow
           | Some sid \<Rightarrow>
               (case mget (ow_sessions ow) sid of
                  None \<Rightarrow> ow
                | Some s \<Rightarrow>
                    onRouting (\<lambda>r. r\<lparr>ro_tracker := RecordRealProgress (ro_tracker r) now token hasTotal\<rparr>)
                      (updateSession sid (SendNotification s raw) ow))))"

definition loadProgressInterval :: "owner \<Rightarrow> duration" where
  "loadProgressInterval ow = LoadProgressInterval (cs_progressIntervalNs (ow_cs ow))"

definition syntheticFor :: "time \<Rightarrow> duration \<Rightarrow> bytes \<Rightarrow> InflightRequest \<Rightarrow> owner \<Rightarrow> owner" where
  "syntheticFor now interval key fl ow =
     (let elapsed = time_sub now (if_StartTime fl)
      in if elapsed < interval then ow
         else case mget (ow_sessions ow) (if_SessionID fl) of
             None \<Rightarrow> ow
           | Some s \<Rightarrow>
               foldl (\<lambda>ow token.
                 if ShouldSuppress (ro_tracker (ow_ro ow)) now token interval then ow
                 else fst (sessionWrite (se_ptr s)
                        (BuildSyntheticNotification token (if if_Tool fl = [] then if_Method fl else if_Tool fl)
                           (elapsed div 1000000000)) ow))
                 ow (tokensOf (ow_ro ow) key))"

definition emitSyntheticProgress :: "time \<Rightarrow> duration \<Rightarrow> owner \<Rightarrow> owner" where
  "emitSyntheticProgress now interval ow =
     foldl (\<lambda>ow (key, fl). syntheticFor now interval key fl ow) ow (ro_inflight (ow_ro ow))"

end
