(* ===== verification/Owner_Materialize.thy ===== *)
theory Owner_Materialize
  imports Owner_Route
begin

text \<open>
  The life of an owner's upstream process (\<open>materialization.go\<close>, \<open>maintenance.go\<close>): demands that wait
  for a process, the one attempt that may start it, discovery and the commit of its caches, and the
  retirement of a process before a replacement may start.

  The goroutine of an attempt is the step function \<open>attemptStep\<close>; the goroutines that finish the
  retirement of a ready process are the entries of \<open>ma_completing\<close>.
\<close>

section \<open>Texts and times\<close>

definition materializationRetryInitial :: duration where
  "materializationRetryInitial = 100000000"

definition materializationRetryMax :: duration where
  "materializationRetryMax = seconds 2"

definition nextMaterializationRetry :: "duration \<Rightarrow> duration" where
  "nextMaterializationRetry wait =
     (if wait * 2 > materializationRetryMax then materializationRetryMax else wait * 2)"

definition errFinalizationUnproven :: bytes where
  "errFinalizationUnproven = ''upstream process-tree finalization unproven''"

definition errMaterializationCancelled :: bytes where
  "errMaterializationCancelled = ''upstream materialization cancelled for restart''"

definition errMaterializationInitiatorGone :: bytes where
  "errMaterializationInitiatorGone = ''materialization initiator disconnected before isolated classification commit''"

definition errMaterializationContextReelected :: bytes where
  "errMaterializationContextReelected = ''fresh isolated classification requires retained-session rematerialization''"

text \<open>\<open>errors.Join\<close>: the texts on separate lines.\<close>

definition joinErr :: "bytes \<Rightarrow> bytes option \<Rightarrow> bytes" where
  "joinErr e rest = (case rest of None \<Rightarrow> e | Some f \<Rightarrow> e @ [CHR 0x0A] @ f)"

section \<open>Launch contexts\<close>

definition cloneLaunchEnv :: "env \<Rightarrow> env" where
  "cloneLaunchEnv e = (if envMap e = [] then None else Some (envMap e))"

definition launchContextForSession :: "owner \<Rightarrow> Session option \<Rightarrow> LaunchContext" where
  "launchContextForSession ow session =
     (case session of
        None \<Rightarrow> \<lparr>lc_SessionID = 0, lc_Cwd = cs_cwd (ow_cs ow), lc_Env = cloneLaunchEnv (cs_env (ow_cs ow))\<rparr>
      | Some s \<Rightarrow>
          \<lparr>lc_SessionID = se_ID s,
           lc_Cwd = (if se_Cwd s \<noteq> [] then se_Cwd s else cs_cwd (ow_cs ow)),
           lc_Env = (if se_Env s \<noteq> None then cloneLaunchEnv (se_Env s) else cloneLaunchEnv (cs_env (ow_cs ow)))\<rparr>)"

definition admissible :: "owner \<Rightarrow> Session \<Rightarrow> bool" where
  "admissible ow s \<longleftrightarrow> \<not> IsClosed s \<and> (ow_needsAuth ow \<longrightarrow> IsAuthorized (se_meta s))"

definition sessionEligibleForDemand :: "owner \<Rightarrow> session_ptr \<Rightarrow> bool" where
  "sessionEligibleForDemand ow p =
     (case sessionAt ow p of None \<Rightarrow> False | Some s \<Rightarrow> admissible ow s)"

text \<open>The loop over the sessions that keeps the one with the lowest number.\<close>

definition oldestEligibleSession :: "owner \<Rightarrow> Session option" where
  "oldestEligibleSession ow =
     foldl (\<lambda>selected (sid, s).
       if \<not> admissible ow s then selected
       else case selected of
           None \<Rightarrow> Some s
         | Some best \<Rightarrow> if sid < se_ID best then Some s else selected) None (ow_sessions ow)"

fun electFrom :: "owner \<Rightarrow> bytes list \<Rightarrow> Session option" where
  "electFrom ow [] = None"
| "electFrom ow (key # keys) =
     (case mget (ma_demands (ow_ma ow)) key of
        None \<Rightarrow> electFrom ow keys
      | Some d \<Rightarrow>
          (if ld_state d = localDemandWaiting \<and> sessionEligibleForDemand ow (ld_session d)
           then sessionAt ow (ld_session d) else electFrom ow keys))"

definition electLaunchContext :: "owner \<Rightarrow> LaunchContext" where
  "electLaunchContext ow = launchContextForSession ow (electFrom ow (ma_order (ow_ma ow)))"

definition launchSessionEligible :: "owner \<Rightarrow> LaunchContext \<Rightarrow> bool" where
  "launchSessionEligible ow launch =
     (if lc_SessionID launch = 0 then True
      else case mget (ow_sessions ow) (lc_SessionID launch) of
          None \<Rightarrow> False
        | Some s \<Rightarrow> sessionEligibleForDemand ow (se_ptr s))"

definition sameEnv :: "env \<Rightarrow> env \<Rightarrow> bool" where
  "sameEnv a b \<longleftrightarrow>
     mlen (envMap a) = mlen (envMap b) \<and> list_all (\<lambda>(k, v). mget (envMap b) k = Some v) (envMap a)"

definition launchContextsEqual :: "owner \<Rightarrow> LaunchContext \<Rightarrow> LaunchContext \<Rightarrow> bool" where
  "launchContextsEqual ow a b \<longleftrightarrow>
     oe_canon (ow_en ow) (lc_Cwd a) = oe_canon (ow_en ow) (lc_Cwd b) \<and> sameEnv (lc_Env a) (lc_Env b)"

text \<open>The fingerprints of equal variables agree, whatever the hash function (\<open>hashInput_eq\<close>).\<close>

definition launchContextCompatible :: "owner \<Rightarrow> LaunchContext \<Rightarrow> LaunchContext \<Rightarrow> bool" where
  "launchContextCompatible ow a b =
     (if \<not> Equal (Build (\<lambda>s. s) (lc_Env a)) (Build (\<lambda>s. s) (lc_Env b)) (lc_Env a) (lc_Env b) then False
      else if cs_mode (ow_cs ow) = Some ModeIsolated \<or> cs_mode (ow_cs ow) = None
      then oe_canon (ow_en ow) (lc_Cwd a) = oe_canon (ow_en ow) (lc_Cwd b)
      else True)"

section \<open>Starting an attempt\<close>

definition newMaterializationAttempt :: "nat \<Rightarrow> MaterializationTrigger \<Rightarrow> LaunchContext \<Rightarrow> materializationAttempt" where
  "newMaterializationAttempt gen trigger launch =
     \<lparr>at_generation = gen, at_trigger = trigger, at_launch = launch, at_launchFrozen = False,
      at_launchRequiresSession = False, at_cancelled = False, at_process = None,
      at_signals = newMaterializationSignals, at_wait = materializationRetryInitial, at_phase = PhaseBegin\<rparr>"

definition assignGeneration :: "nat \<Rightarrow> localDemand \<Rightarrow> localDemand" where
  "assignGeneration gen d =
     (if ld_state d = localDemandWaiting \<and> ld_generation d = 0 then d\<lparr>ld_generation := gen\<rparr> else d)"

text \<open>
  The attempt that serves the caller: one that is complete already, with its error, or the current one.
\<close>

datatype start_result = Completed "bytes option" | Running nat

definition exitTrigger :: "MaterializationTrigger \<Rightarrow> bool" where
  "exitTrigger t \<longleftrightarrow> t = MaterializationTriggerUpstreamExit \<or> t = MaterializationTriggerWriteError"

definition blockedError :: "materialization \<Rightarrow> bytes" where
  "blockedError m = (case ma_blockedErr m of None \<Rightarrow> errFinalizationUnproven | Some e \<Rightarrow> e)"

definition startMaterialization :: "MaterializationTrigger \<Rightarrow> owner \<Rightarrow> owner \<times> start_result" where
  "startMaterialization trigger ow =
     (let m = ow_ma ow
      in if ma_restartPins m > 0 then
           (if ma_resumeTrigger m = None \<and> exitTrigger trigger \<and> ow_sessions ow \<noteq> []
            then onMat (\<lambda>m. m\<lparr>ma_resumeTrigger := Some trigger\<rparr>) ow else ow,
            Completed (Some ''restart snapshot in progress''))
         else if ma_stop m then (ow, Completed (Some ''owner shutting down''))
         else if ma_state m = MaterializationFinalizing \<or> ma_state m = MaterializationFinalizeBlocked \<or> ma_retiring m \<noteq> None
         then (ow, Completed (Some (blockedError m)))
         else case ma_attempt m of
             Some a \<Rightarrow> (ow, Running (at_generation a))
           | None \<Rightarrow>
               (if ma_state m = MaterializationReady \<and> \<not> ma_dead m then (ow, Completed None)
                else if ma_dead m \<and> ma_upstream m \<noteq> None then (ow, Completed (Some errFinalizationUnproven))
                else
                  let gen = Suc (ma_generation m);
                      a = newMaterializationAttempt gen trigger (electLaunchContext ow)
                  in (onMat (\<lambda>m. m\<lparr>ma_generation := gen, ma_demands := mmapv (assignGeneration gen) (ma_demands m),
                         ma_attempt := Some a, ma_state := MaterializationMaterializing,
                         ma_trigger := trigger\<rparr>) ow,
                      Running gen)))"

section \<open>Waiting demands\<close>

definition deleteDemand :: "bytes \<Rightarrow> owner \<Rightarrow> owner" where
  "deleteDemand key ow = onMat (\<lambda>m. m\<lparr>ma_demands := mdel (ma_demands m) key\<rparr>) ow"

text \<open>The result is whether the demand was queued (or refused), and the error to report.\<close>

definition enqueueLocalDemandAdmitted :: "session_ptr \<Rightarrow> Message \<Rightarrow> owner \<Rightarrow> owner \<times> bool \<times> bytes option" where
  "enqueueLocalDemandAdmitted p msg ow =
     (case (Parse (msg_Raw msg), sessionAt ow p) of
        (Inl e, _) \<Rightarrow> (ow, False, Some e)
      | (Inr copyMsg, session) \<Rightarrow>
          (let m = ow_ma ow; key = Remap (sp_ID p) (msg_ID msg); candidate = launchContextForSession ow session
           in if \<not> sessionEligibleForDemand ow p
              then (ow, True, Some ''request no longer admitted before upstream materialization'')
              else if ma_state m = MaterializationReady \<and> \<not> ma_dead m then (ow, False, None)
              else if ma_restartPins m > 0 then (ow, True, Some ''restart snapshot in progress'')
              else if ma_state m = MaterializationFinalizeBlocked then (ow, True, Some (blockedError m))
              else if mget (ma_demands m) key \<noteq> None
              then (ow, True, Some ''duplicate request id while upstream materializes'')
              else
                let recovery = (ma_state m = MaterializationCacheOnly \<and> ma_attempt m \<noteq> None)
                in if (case ma_attempt m of None \<Rightarrow> False
                       | Some a \<Rightarrow> \<not> recovery \<and> \<not> launchContextCompatible ow (at_launch a) candidate)
                   then (ow, True, Some ''request context incompatible with active upstream materialization'')
                   else
                     let demand = \<lparr>ld_session = p, ld_message = copyMsg, ld_state = localDemandWaiting, ld_generation = 0\<rparr>;
                         ow1 = onMat (\<lambda>m. m\<lparr>ma_demands := mput (ma_demands m) key demand, ma_order := ma_order m @ [key]\<rparr>) ow
                     in if recovery \<or> ma_state m = MaterializationFinalizing \<or> ma_retiring m \<noteq> None \<or>
                           (ma_dead m \<and> ma_upstream m \<noteq> None)
                        then (ow1, True, None)
                        else case startMaterialization MaterializationTriggerDemand ow1 of
                            (ow2, Completed err) \<Rightarrow>
                              (deleteDemand key ow2, err \<noteq> None, err)
                          | (ow2, Running gen) \<Rightarrow>
                              (onMat (\<lambda>m. m\<lparr>ma_demands := mput (ma_demands m) key (demand\<lparr>ld_generation := gen\<rparr>)\<rparr>) ow2,
                               True, None)))"

definition enqueueLocalDemand :: "session_ptr \<Rightarrow> Message \<Rightarrow> owner \<Rightarrow> owner \<times> bool \<times> bytes option" where
  "enqueueLocalDemand p msg ow =
     (case ow_maintenance ow of
        Some held \<Rightarrow> (rejectMaintenance p msg held ow, True, None)
      | None \<Rightarrow>
          (case enqueueLocalDemandAdmitted p msg ow of
             (ow1, True, Some e) \<Rightarrow> (writeDemandError p (msg_ID msg) e ow1, True, None)
           | r \<Rightarrow> r))"

text \<open>Taking a waiting demand out of the table.\<close>

definition transitionLocalDemand :: "bytes \<Rightarrow> owner \<Rightarrow> owner \<times> localDemand option" where
  "transitionLocalDemand key ow =
     (case mget (ma_demands (ow_ma ow)) key of
        None \<Rightarrow> (ow, None)
      | Some d \<Rightarrow>
          (if ld_state d \<noteq> localDemandWaiting then (ow, None) else (deleteDemand key ow, Some d)))"

definition expireLocalDemand :: "bytes \<Rightarrow> owner \<Rightarrow> owner" where
  "expireLocalDemand key ow =
     (case transitionLocalDemand key ow of
        (ow1, None) \<Rightarrow> ow1
      | (ow1, Some d) \<Rightarrow>
          writeDemandError (ld_session d) (msg_ID (ld_message d)) ''upstream materialization timed out'' ow1)"

definition setAttempt :: "(materializationAttempt \<Rightarrow> materializationAttempt) \<Rightarrow> owner \<Rightarrow> owner" where
  "setAttempt f ow = onMat (\<lambda>m. m\<lparr>ma_attempt := map_option f (ma_attempt m)\<rparr>) ow"

definition reelect :: "owner \<Rightarrow> owner" where
  "reelect ow = setAttempt (\<lambda>a. if at_launchFrozen a then a else a\<lparr>at_launch := electLaunchContext ow\<rparr>) ow"

definition cancelLocalDemand :: "session_ptr \<Rightarrow> bytes \<Rightarrow> owner \<Rightarrow> owner \<times> bool" where
  "cancelLocalDemand p requestID ow =
     (case transitionLocalDemand (Remap (sp_ID p) (Some requestID)) ow of
        (ow1, None) \<Rightarrow> (ow1, False)
      | (ow1, Some d) \<Rightarrow>
          (case ma_attempt (ow_ma ow1) of
             None \<Rightarrow> (ow1, True)
           | Some a \<Rightarrow>
               (if sp_ID (ld_session d) = lc_SessionID (at_launch a) then reelect ow1 else ow1, True)))"

definition waitingOf :: "int \<Rightarrow> bytes \<Rightarrow> localDemand \<Rightarrow> bool" where
  "waitingOf sid key d \<longleftrightarrow> sp_ID (ld_session d) = sid \<and> ld_state d = localDemandWaiting"

definition cancelLocalDemandsForSession :: "int \<Rightarrow> owner \<Rightarrow> owner" where
  "cancelLocalDemandsForSession sid ow =
     (let removed = list_ex (\<lambda>(key, d). waitingOf sid key d) (ma_demands (ow_ma ow));
          ow1 = onMat (\<lambda>m. m\<lparr>ma_demands := mkeep (\<lambda>key d. \<not> waitingOf sid key d) (ma_demands m)\<rparr>) ow
      in case ma_attempt (ow_ma ow1) of
           None \<Rightarrow> ow1
         | Some a \<Rightarrow> if removed \<and> sid = lc_SessionID (at_launch a) then reelect ow1 else ow1)"

definition cancelDisposableMaterializationForZeroSessions :: "owner \<Rightarrow> owner" where
  "cancelDisposableMaterializationForZeroSessions ow =
     (let m = ow_ma ow
      in case ma_attempt m of
           None \<Rightarrow> ow
         | Some a \<Rightarrow>
             (if ma_policy m = MaterializationPersistent \<or> ma_persistentPending m \<or> ma_restartPins m > 0 \<or>
                 at_trigger a = MaterializationTriggerBackground \<or> at_trigger a = MaterializationTriggerPersistent
              then ow else setAttempt (\<lambda>a. a\<lparr>at_cancelled := True\<rparr>) ow))"

definition detachable :: "nat \<Rightarrow> localDemand \<Rightarrow> bool" where
  "detachable gen d \<longleftrightarrow> ld_state d = localDemandWaiting \<and> (gen = 0 \<or> ld_generation d = gen)"

definition detachLocalDemandsForGeneration :: "nat \<Rightarrow> owner \<Rightarrow> owner \<times> localDemand list" where
  "detachLocalDemandsForGeneration gen ow =
     (let m = ow_ma ow;
          kept = mkeep (\<lambda>_ d. \<not> detachable gen d) (ma_demands m)
      in (onMat (\<lambda>m. m\<lparr>ma_demands := kept,
            ma_order := filter (\<lambda>key. case mget kept key of None \<Rightarrow> False | Some d \<Rightarrow> ld_state d = localDemandWaiting) (ma_order m)\<rparr>) ow,
          map snd (filter (\<lambda>(_, d). detachable gen d) (ma_demands m))))"

fun writeFailedLocalDemands :: "localDemand list \<Rightarrow> bytes \<Rightarrow> owner \<Rightarrow> owner" where
  "writeFailedLocalDemands [] err ow = ow"
| "writeFailedLocalDemands (d # ds) err ow =
     writeFailedLocalDemands ds err
       (case ow_maintenance ow of
          Some held \<Rightarrow> rejectMaintenance (ld_session d) (ld_message d) held ow
        | None \<Rightarrow> writeDemandError (ld_session d) (msg_ID (ld_message d)) err ow)"

definition failAllLocalDemands :: "bytes \<Rightarrow> owner \<Rightarrow> owner" where
  "failAllLocalDemands err ow =
     (case detachLocalDemandsForGeneration 0 ow of (ow1, ds) \<Rightarrow> writeFailedLocalDemands ds err ow1)"

definition clearProactiveTracking :: "owner \<Rightarrow> owner" where
  "clearProactiveTracking ow =
     onRouting (\<lambda>r.
       let mine = filter (isProactiveID (ow_proactiveNamespace ow)) (map fst (ro_methodTags r))
       in foldl (\<lambda>r key. decrementPending (r\<lparr>ro_methodTags := mdel (ro_methodTags r) key\<rparr>)) r mine) ow"

section \<open>Whether to go on\<close>

definition shouldRetryMaterialization :: "MaterializationTrigger \<Rightarrow> owner \<Rightarrow> bool" where
  "shouldRetryMaterialization trigger ow =
     (let m = ow_ma ow
      in if ow_maintenance ow \<noteq> None then False
         else if ma_stop m then False
         else if ma_policy m = MaterializationPersistent \<or> ma_persistentPending m \<or> ma_demands m \<noteq> [] then True
         else exitTrigger trigger \<and> ow_sessions ow \<noteq> [])"

definition materializationStillNeeded :: "MaterializationTrigger \<Rightarrow> owner \<Rightarrow> bool" where
  "materializationStillNeeded trigger ow =
     (let m = ow_ma ow
      in if trigger = MaterializationTriggerEager \<or> trigger = MaterializationTriggerBackground \<or>
            trigger = MaterializationTriggerPersistent then True
         else ma_demands m \<noteq> [] \<or> ma_policy m = MaterializationPersistent \<or> ma_persistentPending m \<or> ow_sessions ow \<noteq> [])"

definition acceptsProcessEvent :: "nat \<Rightarrow> owner \<Rightarrow> bool" where
  "acceptsProcessEvent proc ow =
     (let m = ow_ma ow
      in \<not> (ma_retiring m = Some proc \<or> ma_state m = MaterializationFinalizing \<or> ma_state m = MaterializationFinalizeBlocked) \<and>
         ma_upstream m = Some proc \<and> \<not> ma_dead m)"

definition hasUsableCache :: "owner \<Rightarrow> bool" where
  "hasUsableCache ow \<longleftrightarrow> ca_initResp (ow_ca ow) \<noteq> None"

section \<open>Signals\<close>

definition onSignals :: "(materializationSignals \<Rightarrow> materializationSignals) \<Rightarrow> owner \<Rightarrow> owner" where
  "onSignals f ow = setAttempt (\<lambda>a. a\<lparr>at_signals := f (at_signals a)\<rparr>) ow"

definition signalInit :: "bool \<Rightarrow> materializationSignals \<Rightarrow> materializationSignals" where
  "signalInit ok s = (if sg_init s = None then s\<lparr>sg_init := Some ok\<rparr> else s)"

definition signalDiscoveryReady :: "materializationSignals \<Rightarrow> materializationSignals" where
  "signalDiscoveryReady s = s\<lparr>sg_discoveryReady := True\<rparr>"

definition signalFailure :: "bytes \<Rightarrow> materializationSignals \<Rightarrow> materializationSignals" where
  "signalFailure err s = (if sg_failed s = None then s\<lparr>sg_failed := Some err\<rparr> else s)"

section \<open>Discovery\<close>

definition stagedBy :: "nat \<Rightarrow> owner \<Rightarrow> bool" where
  "stagedBy proc ow =
     (case (ma_attempt (ow_ma ow), ma_stage (ow_ma ow)) of
        (Some a, Some st) \<Rightarrow> sta_process st = proc \<and> at_process a = Some proc
      | _ \<Rightarrow> False)"

definition onStage :: "(cacheStage \<Rightarrow> cacheStage) \<Rightarrow> owner \<Rightarrow> owner" where
  "onStage f ow = onMat (\<lambda>m. m\<lparr>ma_stage := map_option f (ma_stage m)\<rparr>) ow"

text \<open>\<open>None\<close>: the notification is not staged and goes its usual way.\<close>

definition stageMaterializationListChanged :: "nat \<Rightarrow> bytes \<Rightarrow> owner \<Rightarrow> owner option" where
  "stageMaterializationListChanged proc method ow =
     (if method \<in> {''notifications/tools/list_changed'', ''notifications/prompts/list_changed'',
                    ''notifications/resources/list_changed''} \<and> stagedBy proc ow
      then Some (onStage (\<lambda>st. st\<lparr>sta_listChanged := True\<rparr>) ow) else None)"

definition stagedClassification :: "bytes \<Rightarrow> bytes \<Rightarrow> SharingMode \<times> bytes \<times> bytes list" where
  "stagedClassification initJSON toolsJSON =
     (case ClassifyCapabilities initJSON of
        Some mode \<Rightarrow> (mode, ''capability'', [])
      | None \<Rightarrow> (case ClassifyTools toolsJSON of (mode, matched) \<Rightarrow> (mode, ''tools'', matched)))"

definition keptSession :: "int \<Rightarrow> owner \<Rightarrow> int" where
  "keptSession keepID ow =
     (if mget (ow_sessions ow) keepID \<noteq> None then keepID else lowestID (map fst (ow_sessions ow)))"

text \<open>The sessions that an isolated server must give up; the session manager forgets their tokens.\<close>

definition isolatedEvictees :: "SharingMode \<Rightarrow> int \<Rightarrow> owner \<Rightarrow> owner \<times> int list" where
  "isolatedEvictees mode keepID ow =
     (if mode \<noteq> ModeIsolated then (ow, [])
      else
        let ow1 = resetCwdSetToPrimary ow;
            keep = keptSession keepID ow1;
            ow2 = onRouting (\<lambda>r.
              case mget (ro_sessions r) keep of
                None \<Rightarrow> r\<lparr>ro_mgr := fst (RemovePendingForOwnerExcept (ro_mgr r) (ow_serverID ow) (ow_initialAdmissionToken ow))\<rparr>
              | Some s \<Rightarrow>
                  r\<lparr>ro_mgr := fst (RemoveBoundForOwnerExceptSession
                      (fst (RemovePendingForOwnerExceptSession (ro_mgr r) (ow_serverID ow) (Some (se_ptr s))))
                      (ow_serverID ow) (Some (se_ptr s)))\<rparr>) ow1
        in if mlen (ow_sessions ow) \<le> 1 then (ow2, [])
           else (ow2, filter (\<lambda>sid. sid \<noteq> keep) (map fst (ow_sessions ow))))"

definition closeSessions :: "int list \<Rightarrow> owner \<Rightarrow> owner" where
  "closeSessions sids ow =
     onRouting (\<lambda>r. r\<lparr>ro_sessions :=
       map (\<lambda>(sid, s). (sid, if sid \<in> set sids then CloseSession s else s)) (ro_sessions r)\<rparr>) ow"

definition rejectEvicted :: "int list \<Rightarrow> owner \<Rightarrow> owner" where
  "rejectEvicted sids ow =
     (if \<not> list_ex (\<lambda>(_, d). sp_ID (ld_session d) \<in> set sids \<and> ld_state d = localDemandWaiting) (ma_demands (ow_ma ow)) then ow
      else onMat (\<lambda>m.
        let kept = mkeep (\<lambda>_ d. \<not> (sp_ID (ld_session d) \<in> set sids \<and> ld_state d = localDemandWaiting)) (ma_demands m)
        in m\<lparr>ma_demands := kept, ma_order := filter (\<lambda>key. mget kept key \<noteq> None) (ma_order m)\<rparr>) ow)"

definition hadCachedLists :: "owner \<Rightarrow> bool" where
  "hadCachedLists ow \<longleftrightarrow>
     ca_toolList (ow_ca ow) \<noteq> None \<or> ca_promptList (ow_ca ow) \<noteq> None \<or> ca_resourceList (ow_ca ow) \<noteq> None \<or>
     ca_resourceTemplateList (ow_ca ow) \<noteq> None"

text \<open>
  The launch context of an isolated server must be that of a session: \<open>None\<close> when discovery fails
  for it, with the attempt changed and the reason signalled.
\<close>

definition commitLaunch :: "SharingMode \<Rightarrow> owner \<Rightarrow> owner \<times> bytes option" where
  "commitLaunch freshMode ow =
     (case ma_attempt (ow_ma ow) of
        None \<Rightarrow> (ow, None)
      | Some a0 \<Rightarrow>
          (let (ow1, e1) =
             (if freshMode = ModeIsolated \<and> lc_SessionID (at_launch a0) = 0 then
                (case oldestEligibleSession ow of
                   None \<Rightarrow> (ow, None)
                 | Some retained \<Rightarrow>
                     (let launch = launchContextForSession ow (Some retained)
                      in if launchContextsEqual ow (at_launch a0) launch
                         then (setAttempt (\<lambda>a. a\<lparr>at_launchRequiresSession := True, at_launch := launch\<rparr>) ow, None)
                         else (setAttempt (\<lambda>a. a\<lparr>at_launchRequiresSession := True, at_launch := launch,
                                  at_launchFrozen := False\<rparr>) ow,
                               Some errMaterializationContextReelected)))
              else (ow, None))
           in if e1 \<noteq> None then (ow1, e1)
              else case ma_attempt (ow_ma ow1) of
                  None \<Rightarrow> (ow1, None)
                | Some a \<Rightarrow>
                    (if freshMode = ModeIsolated \<and> lc_SessionID (at_launch a) \<noteq> 0 \<and>
                        (case mget (ow_sessions ow1) (lc_SessionID (at_launch a)) of None \<Rightarrow> True | Some s \<Rightarrow> IsClosed s)
                     then (ow1, Some errMaterializationInitiatorGone) else (ow1, None))))"

definition liveClassification :: "SharingMode \<times> bytes \<times> bytes list \<Rightarrow> owner \<Rightarrow> SharingMode \<times> bytes \<times> bytes list" where
  "liveClassification fresh ow =
     (if cs_mode (ow_cs ow) = Some ModeIsolated \<and> fst fresh \<noteq> ModeIsolated
      then (ModeIsolated, cs_source (ow_cs ow), cs_reason (ow_cs ow)) else fresh)"

definition installCaches :: "cacheStage \<Rightarrow> caches \<Rightarrow> caches" where
  "installCaches st c =
     c\<lparr>ca_initResp := sta_initResp st, ca_toolList := sta_toolList st, ca_promptList := sta_promptList st,
       ca_resourceList := sta_resourceList st, ca_resourceTemplateList := sta_resourceTemplateList st, ca_initDone := True\<rparr>"

definition commitClassified :: "cacheStage \<Rightarrow> bytes \<Rightarrow> SharingMode \<times> bytes \<times> bytes list \<Rightarrow> LaunchContext \<Rightarrow> owner \<Rightarrow> owner" where
  "commitClassified st initResp fresh launch ow =
     (case liveClassification fresh ow of
        (mode, source, reason) \<Rightarrow>
          (let persistent = (ParsePersistent initResp \<or> ma_persistentPending (ow_ma ow) \<or> ma_persistentRequired (ow_ma ow) \<or>
                             ma_policy (ow_ma ow) = MaterializationPersistent);
               ow1 = onClass (\<lambda>c. c\<lparr>cs_mode := Some mode, cs_source := source, cs_reason := reason,
                                 cs_cwd := lc_Cwd launch, cs_env := cloneLaunchEnv (lc_Env launch)\<rparr>)
                       (onCaches (installCaches st) ow);
               (ow2, evictees) = isolatedEvictees mode (lc_SessionID launch) ow1;
               ow3 = onMat (\<lambda>m. m\<lparr>ma_persistentPending := False, ma_stage := None,
                         ma_policy := (if persistent then MaterializationPersistent else ma_policy m)\<rparr>)
                       (rejectEvicted evictees ow2);
               ow4 = onClass (\<lambda>c. c\<lparr>cs_initReady := True, cs_classified := True\<rparr>) (closeSessions evictees ow3);
               ow5 = parseProgressInterval initResp (parseIdleTimeout initResp (parseToolTimeout initResp
                       (parseDrainTimeout initResp (callback_do (OnPersistentResolved persistent) ow4))));
               ow6 = (if hadCachedLists ow \<or> sta_listChanged st then broadcastListChanged ow5 else ow5)
           in onSignals signalDiscoveryReady ow6))"

definition commitMaterializationCache :: "owner \<Rightarrow> owner" where
  "commitMaterializationCache ow =
     (case (ma_attempt (ow_ma ow), ma_stage (ow_ma ow)) of
        (Some a, Some st) \<Rightarrow>
          (case (sta_initResp st, sta_toolList st) of
             (Some initResp, Some toolList) \<Rightarrow>
               (if sta_generation st \<noteq> at_generation a then ow
                else
                  let fresh = stagedClassification initResp toolList
                  in case commitLaunch (fst fresh) ow of
                       (ow1, Some e) \<Rightarrow> onSignals (signalFailure e) ow1
                     | (ow1, None) \<Rightarrow>
                         (case askCacheReady ow1 of
                            (ow2, False) \<Rightarrow> onSignals (signalFailure ''stale owner generation rejected cache commit'') ow2
                          | (ow2, True) \<Rightarrow>
                              (case ma_attempt (ow_ma ow2) of
                                 None \<Rightarrow> ow2
                               | Some a' \<Rightarrow> commitClassified st initResp fresh (at_launch a') ow2)))
           | _ \<Rightarrow> ow)
      | _ \<Rightarrow> ow)"

definition stageResponse :: "bytes \<Rightarrow> bytes \<Rightarrow> cacheStage \<Rightarrow> cacheStage" where
  "stageResponse method raw st =
     (if method = ''initialize'' then st\<lparr>sta_initResp := Some (injectedInit raw)\<rparr>
      else if method = ''tools/list'' then st\<lparr>sta_toolList := Some raw\<rparr>
      else if method = ''prompts/list'' then st\<lparr>sta_promptList := Some raw\<rparr>
      else if method = ''resources/list'' then st\<lparr>sta_resourceList := Some raw\<rparr>
      else st\<lparr>sta_resourceTemplateList := Some raw\<rparr>)"

definition detectPersistent :: "bytes \<Rightarrow> owner \<Rightarrow> owner" where
  "detectPersistent cached ow =
     (if ParsePersistent cached \<and> \<not> ma_persistentPending (ow_ma ow)
      then callback_do OnPersistentDetected
             (onMat (\<lambda>m. m\<lparr>ma_persistentPending := True, ma_policy := MaterializationPersistent\<rparr>) ow)
      else ow)"

definition stageMaterializationCacheResponse :: "nat \<Rightarrow> bytes \<Rightarrow> bytes \<Rightarrow> owner \<Rightarrow> owner option" where
  "stageMaterializationCacheResponse proc method raw ow =
     (if method \<notin> set taggedMethods \<or> \<not> stagedBy proc ow then None
      else if \<not> successfulJSONRPCResponse raw
      then Some (onSignals (signalFailure (method @ '' did not return a successful JSON-RPC result''))
                   (if method = ''initialize'' then onSignals (signalInit False) ow else ow))
      else
        let ow1 = onStage (stageResponse method raw) ow;
            ow2 = (if method = ''initialize'' then onSignals (signalInit True) (detectPersistent (injectedInit raw) ow1) else ow1)
        in Some (commitMaterializationCache ow2))"

definition cacheResponseFromLocked :: "nat \<Rightarrow> bytes \<Rightarrow> bytes \<Rightarrow> owner \<Rightarrow> owner" where
  "cacheResponseFromLocked proc method raw ow =
     (case stageMaterializationCacheResponse proc method raw ow of
        Some ow' \<Rightarrow> ow'
      | None \<Rightarrow> cacheResponse method raw ow)"

end
