(* ===== verification/Owner_Lifecycle.thy ===== *)
theory Owner_Lifecycle
  imports Owner_Materialize
begin

text \<open>
  The process behind an owner (\<open>materialization.go\<close>, \<open>maintenance.go\<close>): installing it, the proactive
  handshake, forwarding the demands that waited for it, retiring it, and trying again. The goroutine
  \<open>runMaterialization\<close> is \<open>attemptStep\<close>, one step per point where it waits; what it waits for is the
  argument. A process gets a fresh number when it is started.
\<close>

section \<open>Retiring a ready process\<close>

text \<open>
  The first half of \<open>retireReadyProcess\<close>: the process is marked, its requests are answered, and a
  goroutine goes on with \<open>completeRetiringProcess\<close>.
\<close>

definition addCompletion :: "nat \<Rightarrow> MaterializationTrigger \<Rightarrow> bool \<Rightarrow> owner \<Rightarrow> owner" where
  "addCompletion proc trigger retrying ow =
     onMat (\<lambda>m. m\<lparr>ma_completing := ma_completing m @
       [\<lparr>co_process = proc, co_trigger = trigger, co_retrying = retrying\<rparr>]\<rparr>) ow"

definition retireReadyProcess :: "nat \<Rightarrow> MaterializationTrigger \<Rightarrow> owner \<Rightarrow> owner" where
  "retireReadyProcess proc trigger ow =
     (if ma_retiring (ow_ma ow) = Some proc then ow
      else if ma_upstream (ow_ma ow) \<noteq> Some proc then ow
      else
        let ow1 = onMat (\<lambda>m. m\<lparr>ma_dead := True, ma_retiring := Some proc, ma_state := MaterializationFinalizing,
                         ma_trigger := trigger\<rparr>) ow
        in addCompletion proc trigger False (drainInflightRequests ow1))"

definition forgetProcess :: "nat \<Rightarrow> materialization \<Rightarrow> materialization" where
  "forgetProcess proc m =
     m\<lparr>ma_upstream := (if ma_upstream m = Some proc then None else ma_upstream m), ma_dead := True,
       ma_retiring := (if ma_retiring m = Some proc then None else ma_retiring m),
       ma_stage := (case ma_stage m of None \<Rightarrow> None | Some st \<Rightarrow> if sta_process st = proc then None else Some st)\<rparr>"

text \<open>
  \<open>completeRetiringProcess\<close> after \<open>proc.Close\<close>: \<open>proven\<close> is \<open>RetirementProven\<close>, \<open>closeErr\<close> the error of
  closing. The result says whether the process is gone.
\<close>

definition completeRetiringProcess ::
  "nat \<Rightarrow> MaterializationTrigger \<Rightarrow> bool \<Rightarrow> bytes option \<Rightarrow> owner \<Rightarrow> owner \<times> bool" where
  "completeRetiringProcess proc trigger proven closeErr ow =
     (if \<not> proven then
        (if ma_retiring (ow_ma ow) = Some proc then
           (case detachLocalDemandsForGeneration 0
               (onMat (\<lambda>m. m\<lparr>ma_state := MaterializationFinalizeBlocked,
                  ma_blockedErr := Some (joinErr errFinalizationUnproven closeErr)\<rparr>) ow) of
              (ow1, ds) \<Rightarrow> (writeFailedLocalDemands ds (joinErr errFinalizationUnproven closeErr) ow1, False))
         else (ow, False))
      else if ma_retiring (ow_ma ow) \<noteq> Some proc then (ow, True)
      else
        let ow1 = onMat (\<lambda>m. (forgetProcess proc m)\<lparr>ma_blockedErr := None\<rparr>) ow;
            retry = shouldRetryMaterialization trigger ow1;
            settling = (retry \<and> ma_attempt (ow_ma ow1) \<noteq> None);
            ow2 = onMat (\<lambda>m. m\<lparr>ma_state := MaterializationCacheOnly,
                     ma_resumeTrigger := (if settling \<and> ma_resumeTrigger m = None then Some trigger else ma_resumeTrigger m)\<rparr>) ow1;
            ow3 = clearProactiveTracking (drainInflightRequests ow2);
            ow4 = onMat (\<lambda>m. m\<lparr>ma_retryProcess := (if ma_retryProcess m = Some proc then None else ma_retryProcess m)\<rparr>) ow3
        in (if retry \<and> \<not> settling then fst (startMaterialization trigger ow4)
            else if \<not> retry \<and> \<not> hasUsableCache ow4 then callback_do OnUpstreamExit ow4
            else ow4, True))"

text \<open>\<open>startRetiringProcessRetry\<close>: one retry loop at a time.\<close>

definition startRetiringProcessRetry :: "nat \<Rightarrow> MaterializationTrigger \<Rightarrow> owner \<Rightarrow> owner" where
  "startRetiringProcessRetry proc trigger ow =
     (if ma_retryProcess (ow_ma ow) \<noteq> None then ow
      else addCompletion proc trigger True (onMat (\<lambda>m. m\<lparr>ma_retryProcess := Some proc\<rparr>) ow))"

text \<open>The goroutine at position \<open>i\<close> of \<open>ma_completing\<close> learns how its attempt to retire the process ended.\<close>

definition completionStep :: "nat \<Rightarrow> bool \<Rightarrow> bytes option \<Rightarrow> owner \<Rightarrow> owner" where
  "completionStep i proven closeErr ow =
     (if i \<ge> length (ma_completing (ow_ma ow)) then ow
      else
        let c = ma_completing (ow_ma ow) ! i;
            ow0 = onMat (\<lambda>m. m\<lparr>ma_completing := take i (ma_completing m) @ drop (Suc i) (ma_completing m)\<rparr>) ow
        in case completeRetiringProcess (co_process c) (co_trigger c) proven closeErr ow0 of
             (ow1, True) \<Rightarrow>
               (if co_retrying c
                then onMat (\<lambda>m. m\<lparr>ma_retryProcess :=
                       (if ma_retryProcess m = Some (co_process c) then None else ma_retryProcess m)\<rparr>) ow1
                else ow1)
           | (ow1, False) \<Rightarrow>
               (if co_retrying c
                then (if ma_stop (ow_ma ow1)
                      then onMat (\<lambda>m. m\<lparr>ma_retryProcess :=
                             (if ma_retryProcess m = Some (co_process c) then None else ma_retryProcess m)\<rparr>) ow1
                      else addCompletion (co_process c) (co_trigger c) True ow1)
                else startRetiringProcessRetry (co_process c) (co_trigger c) ow1))"

text \<open>\<open>readUpstream\<close> has reached the end of the output of a process.\<close>

definition markCurrentUpstreamDead :: "nat \<Rightarrow> owner \<Rightarrow> owner" where
  "markCurrentUpstreamDead proc ow =
     (if ma_upstream (ow_ma ow) \<noteq> Some proc then ow
      else drainInflightRequests (onMat (\<lambda>m. m\<lparr>ma_dead := True\<rparr>) ow))"

definition managedBy :: "nat \<Rightarrow> materialization \<Rightarrow> bool" where
  "managedBy proc m = (case ma_attempt m of None \<Rightarrow> False | Some a \<Rightarrow> at_process a = Some proc)"

definition discoveryCommitted :: "materialization \<Rightarrow> bool" where
  "discoveryCommitted m = (case ma_attempt m of None \<Rightarrow> False | Some a \<Rightarrow> sg_discoveryReady (at_signals a))"

definition monitorMaterializedProcessExit :: "nat \<Rightarrow> bytes \<Rightarrow> owner \<Rightarrow> owner" where
  "monitorMaterializedProcessExit proc exitErr ow =
     (let m = ow_ma ow
      in if ma_retiring m = Some proc then
           (if ma_state m = MaterializationFinalizeBlocked \<and> \<not> managedBy proc m
            then addCompletion proc (ma_trigger m) False ow else ow)
         else if ma_upstream m \<noteq> Some proc then ow
         else if managedBy proc m then
           (let ow1 = onSignals (signalFailure (''upstream exited before materialization completed: '' @ exitErr))
                        (drainInflightRequests (onMat (\<lambda>m. m\<lparr>ma_dead := True\<rparr>) ow))
            in if discoveryCommitted m then retireReadyProcess proc MaterializationTriggerUpstreamExit ow1 else ow1)
         else retireReadyProcess proc MaterializationTriggerUpstreamExit ow)"

definition monitorUpstreamExit :: "nat \<Rightarrow> bytes \<Rightarrow> owner \<Rightarrow> owner" where
  "monitorUpstreamExit proc exitErr ow =
     (if ma_stop (ow_ma ow) then ow
      else if ma_upstream (ow_ma ow) \<noteq> Some proc then monitorMaterializedProcessExit proc exitErr ow
      else monitorMaterializedProcessExit proc exitErr (markInitReady ow))"

section \<open>Forwarding\<close>

definition afterWriteFailure :: "nat option \<Rightarrow> owner \<Rightarrow> owner" where
  "afterWriteFailure used ow =
     (case used of
        Some proc \<Rightarrow> retireReadyProcess proc MaterializationTriggerWriteError ow
      | None \<Rightarrow> fst (startMaterialization MaterializationTriggerWriteError ow))"

text \<open>\<open>None\<close> is a panic of the goroutine.\<close>

definition forwardRequestNow :: "time \<Rightarrow> session_ptr \<Rightarrow> Message \<Rightarrow> owner \<Rightarrow> owner option" where
  "forwardRequestNow now p msg ow =
     (case forwardRequestPrepared now p msg ow of
        (ow1, ForwardOk) \<Rightarrow> Some ow1
      | (ow1, ForwardError _) \<Rightarrow> Some ow1
      | (ow1, ForwardHeld held) \<Rightarrow> Some (rejectMaintenance p msg held ow1)
      | (ow1, ForwardWriteFailed used) \<Rightarrow> Some (afterWriteFailure used ow1)
      | (_, ForwardPanic) \<Rightarrow> None)"

text \<open>
  A demand that waited: replayed from the cache or forwarded. The demand leaves the table in every
  case but the first two.
\<close>

definition queuedReply :: "owner \<Rightarrow> Message \<Rightarrow> bytes option" where
  "queuedReply ow msg =
     (if msg_Method msg = ''initialize'' \<and> \<not> initFingerprintMatches ow (msg_Raw msg) then None
      else getCachedResponse ow (msg_Method msg))"

definition sendQueued :: "time \<Rightarrow> bytes \<Rightarrow> localDemand \<Rightarrow> owner \<Rightarrow> owner option" where
  "sendQueued now key d ow =
     (let p = ld_session d; msg = ld_message d
      in case queuedReply ow msg of
           Some cached \<Rightarrow>
             (case replayFromCache p msg cached ow of
                (ow1, None) \<Rightarrow> Some (deleteDemand key ow1)
              | (ow1, Some e) \<Rightarrow> Some (writeDemandError p (msg_ID msg) e (deleteDemand key ow1)))
         | None \<Rightarrow>
             (case forwardRequestPrepared now p msg ow of
                (ow1, ForwardOk) \<Rightarrow> Some (deleteDemand key ow1)
              | (ow1, ForwardError _) \<Rightarrow> Some (deleteDemand key ow1)
              | (ow1, ForwardHeld held) \<Rightarrow> Some (rejectMaintenance p msg held (deleteDemand key ow1))
              | (ow1, ForwardWriteFailed used) \<Rightarrow> Some (afterWriteFailure used (deleteDemand key ow1))
              | (_, ForwardPanic) \<Rightarrow> None))"

definition forwardQueuedDemand :: "time \<Rightarrow> bytes \<Rightarrow> nat \<Rightarrow> LaunchContext \<Rightarrow> owner \<Rightarrow> owner option" where
  "forwardQueuedDemand now key gen launch ow =
     (case mget (ma_demands (ow_ma ow)) key of
        None \<Rightarrow> Some ow
      | Some d \<Rightarrow>
          (if ld_state d \<noteq> localDemandWaiting \<or> ld_generation d \<noteq> gen then Some ow
           else case ow_maintenance ow of
               Some held \<Rightarrow> Some (rejectMaintenance (ld_session d) (ld_message d) held (deleteDemand key ow))
             | None \<Rightarrow>
                 (if \<not> sessionEligibleForDemand ow (ld_session d) \<or>
                     \<not> launchContextCompatible ow launch (launchContextForSession ow (sessionAt ow (ld_session d)))
                  then Some (writeDemandError (ld_session d) (msg_ID (ld_message d))
                         ''request no longer admitted after upstream materialization'' (deleteDemand key ow))
                  else sendQueued now key d ow)))"

section \<open>The end of an attempt\<close>

definition resumeMaterializationAfterRestartPin :: "owner \<Rightarrow> owner" where
  "resumeMaterializationAfterRestartPin ow =
     (let m = ow_ma ow
      in if ma_restartPins m \<noteq> 0 then ow
         else if ma_stop m then onMat (\<lambda>m. m\<lparr>ma_resumeTrigger := None\<rparr>) ow
         else if ma_attempt m \<noteq> None then ow
         else if ma_state m = MaterializationReady \<or> ma_state m = MaterializationFinalizeBlocked
         then onMat (\<lambda>m. m\<lparr>ma_resumeTrigger := None\<rparr>) ow
         else
           let trigger = (if ma_policy m = MaterializationPersistent \<or> ma_persistentPending m
                          then Some MaterializationTriggerPersistent
                          else if ma_resumeTrigger m = None \<and> ma_demands m \<noteq> [] then Some MaterializationTriggerDemand
                          else ma_resumeTrigger m);
               ow1 = onMat (\<lambda>m. m\<lparr>ma_resumeTrigger := None\<rparr>) ow
           in case trigger of None \<Rightarrow> ow1 | Some t \<Rightarrow> fst (startMaterialization t ow1))"

definition finishMaterializationFailure :: "bytes \<Rightarrow> owner \<Rightarrow> owner" where
  "finishMaterializationFailure err ow =
     (case ma_attempt (ow_ma ow) of
        None \<Rightarrow> ow
      | Some a \<Rightarrow>
          (case detachLocalDemandsForGeneration (at_generation a) (clearProactiveTracking ow) of
             (ow1, ds) \<Rightarrow>
               (let ow2 = onMat (\<lambda>m. m\<lparr>ma_attempt := None, ma_stage := None,
                       ma_state := (if ma_state m = MaterializationFinalizeBlocked then MaterializationFinalizeBlocked
                                    else if ma_retiring m \<noteq> None \<or> ma_state m = MaterializationFinalizing
                                    then MaterializationFinalizing else MaterializationCacheOnly)\<rparr>) ow1
                in resumeMaterializationAfterRestartPin (writeFailedLocalDemands ds err ow2))))"

section \<open>The attempt\<close>

definition setPhase :: "attempt_phase \<Rightarrow> owner \<Rightarrow> owner" where
  "setPhase ph ow = setAttempt (\<lambda>a. a\<lparr>at_phase := ph\<rparr>) ow"

text \<open>
  The first half of \<open>retireMaterializationProcess\<close>: \<open>err\<close> is why, \<open>final\<close> that the attempt ends with it.
\<close>

definition beginRetire :: "nat \<Rightarrow> bytes option \<Rightarrow> bool \<Rightarrow> owner \<Rightarrow> owner" where
  "beginRetire proc err final ow =
     setPhase (PhaseRetire proc err final)
       (onMat (\<lambda>m. m\<lparr>ma_state := MaterializationFinalizing, ma_retiring := Some proc\<rparr>) ow)"

definition afterFailure :: "bytes \<Rightarrow> bool \<Rightarrow> owner \<Rightarrow> owner" where
  "afterFailure err terminal ow =
     (case ma_attempt (ow_ma ow) of
        None \<Rightarrow> ow
      | Some a \<Rightarrow>
          (let ow1 = setAttempt (\<lambda>a. a\<lparr>at_launchFrozen := False\<rparr>) ow
           in if terminal \<or> at_cancelled a \<or> \<not> shouldRetryMaterialization (at_trigger a) ow1
              then finishMaterializationFailure err ow1
              else setPhase PhaseRetry ow1))"

definition endRetire :: "nat \<Rightarrow> bytes option \<Rightarrow> bool \<Rightarrow> bytes option \<Rightarrow> bytes option \<Rightarrow> owner \<Rightarrow> owner" where
  "endRetire proc err final finalizationErr closeErr ow =
     (case ma_attempt (ow_ma ow) of
        None \<Rightarrow> ow
      | Some a \<Rightarrow>
          (case finalizationErr of
             Some f \<Rightarrow>
               (let blocked = joinErr f closeErr;
                    ow1 = onMat (\<lambda>m. m\<lparr>ma_state := MaterializationFinalizeBlocked, ma_blockedErr := Some blocked\<rparr>) ow
                in finishMaterializationFailure (case err of None \<Rightarrow> blocked | Some e \<Rightarrow> joinErr e (Some blocked))
                     (startRetiringProcessRetry proc (at_trigger a) ow1))
           | None \<Rightarrow>
               (let ow1 = clearProactiveTracking
                      (onMat (\<lambda>m. let m1 = forgetProcess proc m
                         in m1\<lparr>ma_state := (if ma_state m1 = MaterializationFinalizing then MaterializationMaterializing
                                            else ma_state m1)\<rparr>) ow)
                in case err of
                     None \<Rightarrow> setPhase PhaseLoop ow1
                   | Some e \<Rightarrow>
                       (if final then finishMaterializationFailure e ow1
                        else afterFailure e (e = errMaterializationInitiatorGone \<and> \<not> exitTrigger (at_trigger a)) ow1))))"

definition installMaterializationProcess :: "nat \<Rightarrow> owner \<Rightarrow> owner" where
  "installMaterializationProcess proc ow =
     setAttempt (\<lambda>a. a\<lparr>at_process := Some proc, at_signals := newMaterializationSignals\<rparr>)
       (onMat (\<lambda>m. m\<lparr>ma_upstream := Some proc, ma_dead := False,
          ma_stage := (case ma_attempt m of None \<Rightarrow> None
             | Some a \<Rightarrow> Some \<lparr>sta_generation = at_generation a, sta_process = proc, sta_initResp = None, sta_toolList = None,
                 sta_promptList = None, sta_resourceList = None, sta_resourceTemplateList = None, sta_listChanged = False\<rparr>)\<rparr>) ow)"

text \<open>The final election of the launch context, as \<open>startAdmittedMaterialization\<close> makes it.\<close>

definition freezeLaunch :: "owner \<Rightarrow> owner" where
  "freezeLaunch ow =
     setAttempt (\<lambda>a.
       if at_launchFrozen a then a
       else if launchSessionEligible ow (at_launch a) then a\<lparr>at_launchFrozen := True\<rparr>
       else if at_launchRequiresSession a
       then a\<lparr>at_launchFrozen := True,
              at_launch := (case oldestEligibleSession ow of None \<Rightarrow> at_launch a
                            | Some s \<Rightarrow> launchContextForSession ow (Some s))\<rparr>
       else a\<lparr>at_launchFrozen := True, at_launch := electLaunchContext ow\<rparr>) ow"

text \<open>What starting a process yields: a process or none, and an error or none.\<close>

definition startAdmittedMaterialization :: "bool \<Rightarrow> bytes option \<Rightarrow> owner \<Rightarrow> owner \<times> nat option \<times> bytes option" where
  "startAdmittedMaterialization started err ow =
     (if ow_maintenance ow \<noteq> None then (ow, None, Some ''upstream held for update'')
      else
        let ow1 = freezeLaunch ow
        in if \<not> started then (ow1, None, err)
           else let proc = ma_nextProc (ow_ma ow1)
                in (installMaterializationProcess proc (onMat (\<lambda>m. m\<lparr>ma_nextProc := Suc (ma_nextProc m)\<rparr>) ow1), Some proc, err))"

text \<open>The proactive handshake: its requests are tagged and counted before they are written.\<close>

definition proactiveKey :: "owner \<Rightarrow> nat \<Rightarrow> bytes \<Rightarrow> bytes" where
  "proactiveKey ow gen n = [CHR 0x22] @ ow_proactiveNamespace ow @ ''-'' @ natDec gen @ ''-'' @ n @ [CHR 0x22]"

definition tagProactive :: "bytes \<Rightarrow> bytes \<Rightarrow> owner \<Rightarrow> owner" where
  "tagProactive key method ow =
     onRouting (\<lambda>r. r\<lparr>ro_methodTags := mput (ro_methodTags r) key method, ro_pending := ro_pending r + 1\<rparr>) ow"

definition initializeFrame :: "bytes \<Rightarrow> bytes" where
  "initializeFrame key =
     ''{'' @ jsonField ''jsonrpc'' (quote ''2.0'') @ '','' @ jsonField ''id'' key @ '','' @ jsonField ''method'' (quote ''initialize'') @ '','' @
     jsonField ''params''
       (''{'' @ jsonField ''protocolVersion'' (quote ''2025-11-25'') @ '','' @
        jsonField ''capabilities'' (''{'' @ jsonField ''roots'' (''{'' @ jsonField ''listChanged'' ''true'' @ ''}'') @ ''}'') @ '','' @
        jsonField ''clientInfo'' (''{'' @ jsonField ''name'' (quote ''mcp-mux'') @ '','' @ jsonField ''version'' (quote ''1.0.0'') @ ''}'') @ ''}'') @ ''}''"

definition initializedFrame :: bytes where
  "initializedFrame =
     ''{'' @ jsonField ''jsonrpc'' (quote ''2.0'') @ '','' @ jsonField ''method'' (quote ''notifications/initialized'') @ ''}''"

definition toolsListFrame :: "bytes \<Rightarrow> bytes" where
  "toolsListFrame key =
     ''{'' @ jsonField ''jsonrpc'' (quote ''2.0'') @ '','' @ jsonField ''id'' key @ '','' @ jsonField ''method'' (quote ''tools/list'') @ '','' @
     jsonField ''params'' ''{}'' @ ''}''"

definition sendInitialize :: "nat \<Rightarrow> materializationAttempt \<Rightarrow> owner \<Rightarrow> owner" where
  "sendInitialize proc a ow =
     (let key = proactiveKey ow (at_generation a) ''0''
      in case writeLine proc (initializeFrame key) (tagProactive key ''initialize'' ow) of
           (ow1, True) \<Rightarrow> setPhase PhaseInit ow1
         | (ow1, False) \<Rightarrow> setPhase PhaseDiscovery (onSignals (signalFailure ''proactive initialize write'') ow1))"

definition sendToolsList :: "nat \<Rightarrow> materializationAttempt \<Rightarrow> owner \<Rightarrow> owner" where
  "sendToolsList proc a ow =
     (case writeLine proc initializedFrame ow of
        (ow1, False) \<Rightarrow> onSignals (signalFailure ''proactive initialized notification'') ow1
      | (ow1, True) \<Rightarrow>
          (let key = proactiveKey ow (at_generation a) ''1''
           in case writeLine proc (toolsListFrame key) (tagProactive key ''tools/list'' ow1) of
                (ow2, True) \<Rightarrow> ow2
              | (ow2, False) \<Rightarrow> onSignals (signalFailure ''proactive tools/list write'') ow2))"

text \<open>
  What an attempt waits for: the result of starting a process, the retirement of a process, or one of
  the cases of a select statement. When several cases are ready, Go takes any of them, so the event
  names the case; a case that is not ready changes nothing. The errors of failed system calls that
  the source wraps are left out of the texts.
\<close>

datatype wait_case = CaseInit | CaseDiscovery | CaseFailed | CaseTimer | CaseCancel | CaseStop

datatype attempt_event =
    StartResult bool "bytes option"
  | Retired "bytes option" "bytes option"
  | Chosen wait_case
  | Proceed

definition attemptLoop :: "bool \<Rightarrow> bytes option \<Rightarrow> materializationAttempt \<Rightarrow> owner \<Rightarrow> owner" where
  "attemptLoop started err a ow =
     (if ma_stop (ow_ma ow) then finishMaterializationFailure ''owner shutting down'' ow
      else if at_cancelled a then finishMaterializationFailure errMaterializationCancelled ow
      else if \<not> materializationStillNeeded (at_trigger a) ow
      then finishMaterializationFailure ''upstream materialization no longer needed'' ow
      else case startAdmittedMaterialization started err ow of
          (ow1, Some proc, Some e) \<Rightarrow> beginRetire proc (Some e) False ow1
        | (ow1, None, Some e) \<Rightarrow> afterFailure e False ow1
        | (ow1, None, None) \<Rightarrow> finishMaterializationFailure ''upstream start returned no process'' ow1
        | (ow1, Some proc, None) \<Rightarrow>
            (if at_cancelled a then beginRetire proc (Some errMaterializationCancelled) True ow1
             else sendInitialize proc a ow1))"

text \<open>
  Waiting inside the proactive handshake for the initialize response. A failure of the handshake is
  signalled and read again by the wait for discovery.
\<close>

definition failHandshake :: "bytes \<Rightarrow> owner \<Rightarrow> owner" where
  "failHandshake e ow = setPhase PhaseDiscovery (onSignals (signalFailure e) ow)"

definition attemptInit :: "wait_case \<Rightarrow> nat \<Rightarrow> materializationAttempt \<Rightarrow> owner \<Rightarrow> owner" where
  "attemptInit c proc a ow =
     (case c of
        CaseInit \<Rightarrow>
          (case sg_init (at_signals a) of
             None \<Rightarrow> ow
           | Some False \<Rightarrow> failHandshake ''proactive initialize did not produce a usable response'' ow
           | Some True \<Rightarrow>
               (if at_cancelled a then failHandshake errMaterializationCancelled ow
                else setPhase PhaseDiscovery (sendToolsList proc a ow)))
      | CaseFailed \<Rightarrow> if sg_failed (at_signals a) = None then ow else setPhase PhaseDiscovery ow
      | CaseTimer \<Rightarrow> failHandshake ''proactive initialize timeout after 30s'' ow
      | CaseCancel \<Rightarrow> if at_cancelled a then failHandshake errMaterializationCancelled ow else ow
      | CaseStop \<Rightarrow> if ma_stop (ow_ma ow) then failHandshake ''owner shutting down'' ow else ow
      | CaseDiscovery \<Rightarrow> ow)"

definition discoveryError :: "nat \<Rightarrow> materializationAttempt \<Rightarrow> owner \<Rightarrow> bytes option" where
  "discoveryError proc a ow =
     (case sg_failed (at_signals a) of
        Some e \<Rightarrow> Some e
      | None \<Rightarrow>
          (if ma_dead (ow_ma ow) \<or> ma_upstream (ow_ma ow) \<noteq> Some proc
           then Some ''upstream exited before materialization completed'' else None))"

definition attemptDiscovery :: "wait_case \<Rightarrow> nat \<Rightarrow> materializationAttempt \<Rightarrow> owner \<Rightarrow> owner" where
  "attemptDiscovery c proc a ow =
     (case c of
        CaseDiscovery \<Rightarrow>
          (if \<not> sg_discoveryReady (at_signals a) then ow
           else case discoveryError proc a ow of
               Some e \<Rightarrow> beginRetire proc (Some e) False ow
             | None \<Rightarrow> setPhase (PhaseForward []) ow)
      | CaseFailed \<Rightarrow>
          (case sg_failed (at_signals a) of None \<Rightarrow> ow | Some e \<Rightarrow> beginRetire proc (Some e) False ow)
      | CaseTimer \<Rightarrow> beginRetire proc (Some ''upstream materialization readiness timeout after 30s'') False ow
      | CaseCancel \<Rightarrow> if at_cancelled a then beginRetire proc (Some errMaterializationCancelled) False ow else ow
      | CaseStop \<Rightarrow> if ma_stop (ow_ma ow) then beginRetire proc (Some ''owner shutting down'') False ow else ow
      | CaseInit \<Rightarrow> ow)"

definition attemptRetry :: "wait_case \<Rightarrow> materializationAttempt \<Rightarrow> owner \<Rightarrow> owner" where
  "attemptRetry c a ow =
     (case c of
        CaseTimer \<Rightarrow>
          setAttempt (\<lambda>a. a\<lparr>at_wait := nextMaterializationRetry (at_wait a), at_phase := PhaseLoop\<rparr>)
            (onMat (\<lambda>m. m\<lparr>ma_state := MaterializationMaterializing\<rparr>) ow)
      | CaseCancel \<Rightarrow> if at_cancelled a then finishMaterializationFailure errMaterializationCancelled ow else ow
      | CaseStop \<Rightarrow> if ma_stop (ow_ma ow) then finishMaterializationFailure errMaterializationCancelled ow else ow
      | _ \<Rightarrow> ow)"

text \<open>One turn of the loop of \<open>finishMaterializationSuccess\<close> when the keys it took are used up.\<close>

definition attemptLive :: "materializationAttempt \<Rightarrow> materialization \<Rightarrow> bool" where
  "attemptLive a m \<longleftrightarrow>
     ma_state m = MaterializationMaterializing \<and> ma_retiring m = None \<and> ma_upstream m = at_process a \<and> \<not> ma_dead m"

definition becomeReady :: "materializationAttempt \<Rightarrow> owner \<Rightarrow> owner" where
  "becomeReady a ow =
     onMat (\<lambda>m. m\<lparr>ma_attempt := None, ma_state := MaterializationReady, ma_trigger := at_trigger a,
        ma_resumeTrigger := None\<rparr>) ow"

definition lostAuthority :: "materializationAttempt \<Rightarrow> owner \<Rightarrow> owner" where
  "lostAuthority a ow =
     (let m = ow_ma ow;
          err = (case ma_blockedErr m of Some e \<Rightarrow> e
                 | None \<Rightarrow> ''materialization generation lost process authority before ready'');
          trigger = (if ma_trigger m = MaterializationTriggerNone then MaterializationTriggerUpstreamExit else ma_trigger m);
          ow1 = (case at_process a of None \<Rightarrow> ow | Some proc \<Rightarrow> retireReadyProcess proc trigger ow);
          ow2 = finishMaterializationFailure err ow1
      in if shouldRetryMaterialization trigger ow2 then fst (startMaterialization trigger ow2) else ow2)"

definition takeDemands :: "materializationAttempt \<Rightarrow> owner \<Rightarrow> owner" where
  "takeDemands a ow =
     (let order = ma_order (ow_ma ow); ow1 = onMat (\<lambda>m. m\<lparr>ma_order := []\<rparr>) ow
      in if order = [] \<and> ma_demands (ow_ma ow) = []
         then (if attemptLive a (ow_ma ow1) then becomeReady a ow1 else lostAuthority a ow1)
         else setPhase (PhaseForward order) ow1)"

definition forwardNext :: "time \<Rightarrow> bytes \<Rightarrow> bytes list \<Rightarrow> materializationAttempt \<Rightarrow> owner \<Rightarrow> owner option" where
  "forwardNext now key keys a ow =
     map_option (setPhase (PhaseForward keys)) (forwardQueuedDemand now key (at_generation a) (at_launch a) ow)"

text \<open>\<open>None\<close> is a panic. An event that the attempt does not wait for changes nothing.\<close>

definition attemptBegin :: "owner \<Rightarrow> owner" where
  "attemptBegin ow =
     (case ma_upstream (ow_ma ow) of
        None \<Rightarrow> setPhase PhaseLoop ow
      | Some cur \<Rightarrow> beginRetire cur None False ow)"

definition attemptStep :: "time \<Rightarrow> attempt_event \<Rightarrow> owner \<Rightarrow> owner option" where
  "attemptStep now ev ow =
     (case ma_attempt (ow_ma ow) of
        None \<Rightarrow> Some ow
      | Some a \<Rightarrow>
          (case at_phase a of
             PhaseBegin \<Rightarrow> Some (if ev = Proceed then attemptBegin ow else ow)
           | PhaseLoop \<Rightarrow> Some (case ev of StartResult started err \<Rightarrow> attemptLoop started err a ow | _ \<Rightarrow> ow)
           | PhaseInit \<Rightarrow>
               Some (case (ev, at_process a) of (Chosen c, Some proc) \<Rightarrow> attemptInit c proc a ow | _ \<Rightarrow> ow)
           | PhaseDiscovery \<Rightarrow>
               Some (case (ev, at_process a) of (Chosen c, Some proc) \<Rightarrow> attemptDiscovery c proc a ow | _ \<Rightarrow> ow)
           | PhaseRetire proc err final \<Rightarrow>
               Some (case ev of Retired finalizationErr closeErr \<Rightarrow> endRetire proc err final finalizationErr closeErr ow | _ \<Rightarrow> ow)
           | PhaseRetry \<Rightarrow> Some (case ev of Chosen c \<Rightarrow> attemptRetry c a ow | _ \<Rightarrow> ow)
           | PhaseForward keys \<Rightarrow>
               (if ev \<noteq> Proceed then Some ow
                else case keys of [] \<Rightarrow> Some (takeDemands a ow) | key # rest \<Rightarrow> forwardNext now key rest a ow)))"

section \<open>Stopping and pins\<close>

definition stopMaterialization :: "owner \<Rightarrow> owner" where
  "stopMaterialization ow =
     (if ma_stop (ow_ma ow) then ow
      else failAllLocalDemands ''owner shutting down''
             (onSignals (signalFailure ''owner shutting down'') (onMat (\<lambda>m. m\<lparr>ma_stop := True\<rparr>) ow)))"

definition releaseRestartPin :: "owner \<Rightarrow> owner" where
  "releaseRestartPin ow =
     (let ow1 = onMat (\<lambda>m. m\<lparr>ma_restartPins := ma_restartPins m - 1\<rparr>) ow
      in if ma_restartPins (ow_ma ow1) = 0 then resumeMaterializationAfterRestartPin ow1 else ow1)"

text \<open>The part of \<open>AcquireRestartPin\<close> before it waits for the attempt.\<close>

definition acquireRestartPin :: "owner \<Rightarrow> owner" where
  "acquireRestartPin ow =
     (let ow1 = onMat (\<lambda>m. m\<lparr>ma_restartPins := ma_restartPins m + 1\<rparr>) ow
      in case ma_attempt (ow_ma ow1) of
           Some a \<Rightarrow>
             onMat (\<lambda>m. m\<lparr>ma_resumeTrigger := (if ma_resumeTrigger m = None then Some (at_trigger a) else ma_resumeTrigger m)\<rparr>)
               (setAttempt (\<lambda>a. if at_launchFrozen a then a
                  else a\<lparr>at_launch := electLaunchContext ow1, at_launchFrozen := True\<rparr>) ow1)
         | None \<Rightarrow>
             (if ma_policy (ow_ma ow1) = MaterializationPersistent \<or> ma_persistentPending (ow_ma ow1)
              then onMat (\<lambda>m. m\<lparr>ma_resumeTrigger := Some MaterializationTriggerPersistent\<rparr>) ow1 else ow1))"

definition cancelMaterialization :: "owner \<Rightarrow> owner" where
  "cancelMaterialization ow = setAttempt (\<lambda>a. a\<lparr>at_cancelled := True\<rparr>) ow"

end
