(* ===== verification/Owner_Handlers.thy ===== *)
theory Owner_Handlers
  imports Owner_Lifecycle
begin

text \<open>
  The messages that an owner handles (\<open>owner.go\<close>): those of its sessions
  (\<open>handleDownstreamMessage\<close>), those of its upstream (\<open>handleUpstreamMessageFrom\<close>), and the sessions
  that come and go. Errors that the callers only log leave no trace here; \<open>None\<close> is a panic.
\<close>

section \<open>Sessions\<close>

definition AddSession :: "time \<Rightarrow> Session \<Rightarrow> owner \<Rightarrow> owner" where
  "AddSession now s ow =
     (if ow_maintenance ow \<noteq> None \<or> ow_admissionClosed ow then ow
      else if mget (ow_sessions ow) (se_ID s) \<noteq> None then ow
      else sendRootsListChanged
             (onRouting (\<lambda>r. r\<lparr>ro_sessions := mput (ro_sessions r) (se_ID s) s,
                ro_mgr := RegisterSession (ro_mgr r) now (se_ptr s) (se_Cwd s)\<rparr>) ow))"

definition removeSession :: "time \<Rightarrow> session_ptr \<Rightarrow> owner \<Rightarrow> owner" where
  "removeSession now p ow =
     (case sessionAt ow p of
        None \<Rightarrow> ow
      | Some s \<Rightarrow>
          (let sid = sp_ID p;
               ow1 = onRouting (\<lambda>r. dropSessionTokens sid (r\<lparr>ro_sessions := mdel (ro_sessions r) sid\<rparr>)) ow;
               none = (ow_sessions ow1 = []);
               ow2 = cancelLocalDemandsForSession sid ow1;
               ow3 = (if none then cancelDisposableMaterializationForZeroSessions ow2 else ow2);
               ow4 = onRouting (\<lambda>r. r\<lparr>ro_mgr := RemoveSession (ro_mgr r) now sid\<rparr>) ow3
           in if none then callback_do OnZeroSessions ow4 else sendRootsListChanged ow4))"

text \<open>The end of \<open>readSession\<close>: the session is closed, then removed.\<close>

definition endSession :: "time \<Rightarrow> session_ptr \<Rightarrow> owner \<Rightarrow> owner" where
  "endSession now p ow = removeSession now p (closeSession p ow)"

section \<open>Messages of a session\<close>

datatype FrameAction = FramePass | FrameDrop | FrameError

text \<open>
  \<open>notifications/cancelled\<close>: a waiting demand is cancelled here, anything else goes upstream with the
  remapped id, to the process that has the request.
\<close>

definition cancelledRequestID :: "bytes \<Rightarrow> ((bytes, bytes) gomap option \<times> (bytes, bytes) gomap option \<times> bytes) option" where
  "cancelledRequestID raw =
     Option.bind (unmarshalMap raw) (\<lambda>obj.
     Option.bind (nilget obj ''params'') (\<lambda>paramsRaw.
     Option.bind (unmarshalMap paramsRaw) (\<lambda>params.
     map_option (\<lambda>requestID. (obj, params, requestID)) (nilget params ''requestId''))))"

definition remappedCancellation ::
  "(bytes, bytes) gomap option \<Rightarrow> (bytes, bytes) gomap option \<Rightarrow> bytes \<Rightarrow> bytes option" where
  "remappedCancellation obj params newID =
     Option.bind (nilput params ''requestId'' newID) (\<lambda>params'.
     Option.bind (marshalMap params') (\<lambda>newParams.
     Option.bind (nilput obj ''params'' newParams) marshalMap))"

definition forwardCancelledNotification :: "session_ptr \<Rightarrow> Message \<Rightarrow> owner \<Rightarrow> owner" where
  "forwardCancelledNotification p msg ow =
     (case cancelledRequestID (msg_Raw msg) of
        None \<Rightarrow> forwardNotificationIfReady (msg_Raw msg) ow
      | Some (obj, params, requestID) \<Rightarrow>
          (case cancelLocalDemand p requestID ow of
             (ow1, True) \<Rightarrow> ow1
           | (ow1, False) \<Rightarrow>
               (let key = Remap (sp_ID p) (Some requestID)
                in case remappedCancellation obj params key of
                     None \<Rightarrow> forwardNotificationIfReady (msg_Raw msg) ow1
                   | Some remapped \<Rightarrow>
                       (let ow2 = onRouting (clearProgressTokensForRequest key) ow1
                        in case Option.bind (mget (ro_inflight (ow_ro ow2)) key) if_process of
                             Some proc \<Rightarrow> fst (writeUpstreamToProcess proc remapped ow2)
                           | None \<Rightarrow> forwardNotificationIfReady remapped ow2))))"

definition handleDownstreamNotification :: "session_ptr \<Rightarrow> Message \<Rightarrow> owner \<Rightarrow> owner" where
  "handleDownstreamNotification p msg ow =
     (if msg_Method msg = ''notifications/initialized'' \<and> mget (ca_cachedInitSessions (ow_ca ow)) (sp_ID p) = Some True then ow
      else if msg_Method msg = ''notifications/cancelled'' then forwardCancelledNotification p msg ow
      else if \<not> hasWritableUpstream ow then ow
      else forwardNotificationIfReady (msg_Raw msg) ow)"

definition handleDownstreamRequest :: "time \<Rightarrow> session_ptr \<Rightarrow> Message \<Rightarrow> owner \<Rightarrow> owner option" where
  "handleDownstreamRequest now p msg ow =
     (case queuedReply ow msg of
        Some cached \<Rightarrow> Some (fst (replayFromCache p msg cached ow))
      | None \<Rightarrow>
          (if materializationReadyForRequests ow then forwardRequestNow now p msg ow
           else case enqueueLocalDemand p msg ow of
               (ow1, queued, err) \<Rightarrow>
                 (if queued \<or> err \<noteq> None then Some ow1 else forwardRequestNow now p msg ow1)))"

definition handleDownstreamMessage :: "time \<Rightarrow> FrameAction \<Rightarrow> session_ptr \<Rightarrow> Message \<Rightarrow> owner \<Rightarrow> owner option" where
  "handleDownstreamMessage now action p msg ow =
     (case ow_maintenance ow of
        Some held \<Rightarrow> Some (rejectMaintenance p msg held ow)
      | None \<Rightarrow>
          (case action of
             FrameDrop \<Rightarrow> Some ow
           | FrameError \<Rightarrow>
               (if IsNotification msg then Some ow
                else case buildJSONRPCErrorBytes (msg_ID msg) (-32004) ''rate limited'' of
                    None \<Rightarrow> Some ow
                  | Some errBytes \<Rightarrow> Some (fst (sessionWrite p errBytes ow)))
           | FramePass \<Rightarrow>
               (case msg_Type msg of
                  TypeNotification \<Rightarrow> Some (handleDownstreamNotification p msg ow)
                | TypeRequest \<Rightarrow> handleDownstreamRequest now p msg ow
                | TypeResponse \<Rightarrow> Some (fst (writeUpstream (msg_Raw msg) ow)))))"

section \<open>Messages of the upstream\<close>

text \<open>\<open>filepath.Base\<close> on Unix.\<close>

definition baseName :: "bytes \<Rightarrow> bytes" where
  "baseName p =
     (if p = [] then ''.''
      else let s = rev (dropWhile ((=) (CHR ''/'')) (rev p))
           in if s = [] then ''/'' else rev (takeWhile ((\<noteq>) (CHR ''/'')) (rev s)))"

definition pathToFileURI :: "bytes \<Rightarrow> bytes" where
  "pathToFileURI p = (if length p \<ge> 2 \<and> p ! 1 = CHR '':'' then ''file:///'' @ p else ''file://'' @ p)"

definition rootEntry :: "bytes \<Rightarrow> bytes" where
  "rootEntry cwd = ''{'' @ jsonField ''uri'' (quote (pathToFileURI cwd)) @ '','' @ jsonField ''name'' (quote (baseName cwd)) @ ''}''"

definition resultFrame :: "bytes \<Rightarrow> bytes \<Rightarrow> bytes" where
  "resultFrame i result =
     ''{'' @ jsonField ''jsonrpc'' (quote ''2.0'') @ '','' @ jsonField ''id'' i @ '','' @ jsonField ''result'' result @ ''}''"

definition respondToRootsList :: "bytes option \<Rightarrow> owner \<Rightarrow> owner" where
  "respondToRootsList i ow =
     (let cwds = filter (\<lambda>cwd. cwd \<noteq> []) (map fst (cs_cwdSet (ow_cs ow)));
          roots = (if cwds = [] then [oe_getwd (ow_en ow)] else cwds)
      in case rawJSON i of
           None \<Rightarrow> ow
         | Some raw \<Rightarrow>
             fst (writeUpstream
               (resultFrame raw (''{'' @ jsonField ''roots'' (''['' @ joinWith '','' (map rootEntry roots) @ '']'') @ ''}'')) ow))"

definition respondToPing :: "bytes option \<Rightarrow> owner \<Rightarrow> owner" where
  "respondToPing i ow = fst (writeUpstream (resultFrame (case i of None \<Rightarrow> [] | Some raw \<Rightarrow> raw) ''{}'') ow)"

definition respondToElicitationCancel :: "bytes option \<Rightarrow> owner \<Rightarrow> owner" where
  "respondToElicitationCancel i ow =
     (case rawJSON i of
        None \<Rightarrow> ow
      | Some raw \<Rightarrow> fst (writeUpstream (resultFrame raw (''{'' @ jsonField ''action'' (quote ''cancel'') @ ''}'')) ow))"

definition respondWithError :: "bytes option \<Rightarrow> int \<Rightarrow> bytes \<Rightarrow> owner \<Rightarrow> owner" where
  "respondWithError i code message ow =
     (case buildJSONRPCErrorBytes i code message of None \<Rightarrow> ow | Some data \<Rightarrow> fst (writeUpstream data ow))"

definition routeToLastActiveSession :: "Message \<Rightarrow> owner \<Rightarrow> owner" where
  "routeToLastActiveSession msg ow =
     (case ResolveCallback (ro_mgr (ow_ro ow)) of
        Some ctx \<Rightarrow> sessionNotify (ctx_Session ctx) (msg_Raw msg) ow
      | None \<Rightarrow>
          (if msg_Method msg = ''roots/list'' then respondToRootsList (msg_ID msg) ow
           else if msg_Method msg = ''elicitation/create'' then respondToElicitationCancel (msg_ID msg) ow
           else respondWithError (msg_ID msg) (-32603) ''no active session available'' ow))"

definition handleUpstreamRequest :: "Message \<Rightarrow> owner \<Rightarrow> owner" where
  "handleUpstreamRequest msg ow =
     (if msg_Method msg = ''ping'' then respondToPing (msg_ID msg) ow else routeToLastActiveSession msg ow)"

definition handleBusyNotification :: "time \<Rightarrow> bytes \<Rightarrow> owner \<Rightarrow> owner" where
  "handleBusyNotification now raw ow =
     (case ParseBusyNotification (oe_parseTime (ow_en ow)) raw of
        Inl _ \<Rightarrow> ow
      | Inr p \<Rightarrow> ow\<lparr>ow_busy := RegisterBusy now (bp_ID p) (bp_StartedAt p) (bp_EstimatedDuration p) (bp_Task p) (-1) (ow_busy ow)\<rparr>)"

definition handleIdleNotification :: "bytes \<Rightarrow> owner \<Rightarrow> owner" where
  "handleIdleNotification raw ow =
     (case ParseIdleNotification raw of
        Inl _ \<Rightarrow> ow
      | Inr i \<Rightarrow> ow\<lparr>ow_busy := ClearBusy i (ow_busy ow)\<rparr>)"

definition handleUpstreamNotification :: "time \<Rightarrow> nat \<Rightarrow> Message \<Rightarrow> owner \<Rightarrow> owner" where
  "handleUpstreamNotification now proc msg ow =
     (case stageMaterializationListChanged proc (msg_Method msg) ow of
        Some ow' \<Rightarrow> ow'
      | None \<Rightarrow>
          (if msg_Method msg = ''notifications/progress'' then routeProgressNotification now (msg_Raw msg) ow
           else if msg_Method msg = ''notifications/x-mux/busy'' then handleBusyNotification now (msg_Raw msg) ow
           else if msg_Method msg = ''notifications/x-mux/idle'' then handleIdleNotification (msg_Raw msg) ow
           else broadcast (msg_Raw msg) ow))"

definition proactiveResponse :: "nat \<Rightarrow> bytes \<Rightarrow> bytes \<Rightarrow> owner \<Rightarrow> owner" where
  "proactiveResponse proc key raw ow =
     (case mget (ro_methodTags (ow_ro ow)) key of
        None \<Rightarrow> ow
      | Some method \<Rightarrow>
          cacheResponseFromLocked proc method raw
            (onRouting (\<lambda>r. clearProgressTokensForRequest key (completeRequest key (decrementPending
               (r\<lparr>ro_methodTags := mdel (ro_methodTags r) key\<rparr>)))) ow))"

definition lateResponse :: "nat \<Rightarrow> bytes \<Rightarrow> bytes \<Rightarrow> owner \<Rightarrow> owner" where
  "lateResponse proc key raw ow =
     (let ow1 = onRouting (\<lambda>r. r\<lparr>ro_timedOut := mdel (ro_timedOut r) key\<rparr>) ow;
          ow2 = (case mget (ro_methodTags (ow_ro ow1)) key of
                   None \<Rightarrow> ow1
                 | Some method \<Rightarrow>
                     cacheResponseFromLocked proc method raw
                       (onRouting (\<lambda>r. r\<lparr>ro_methodTags := mdel (ro_methodTags r) key\<rparr>) ow1))
      in onRouting (clearProgressTokensForRequest key) ow2)"

text \<open>Taking a request out of the tables when its response arrives.\<close>

definition claimResponse :: "bytes \<Rightarrow> owner \<Rightarrow> owner" where
  "claimResponse key ow =
     onRouting (\<lambda>r. clearProgressTokensForRequest key (completeRequest key (decrementPending
       (r\<lparr>ro_inflight := mdel (ro_inflight r) key\<rparr>)))) ow"

definition cacheTagged :: "nat \<Rightarrow> bytes \<Rightarrow> bytes \<Rightarrow> owner \<Rightarrow> owner" where
  "cacheTagged proc key raw ow =
     (case mget (ro_methodTags (ow_ro ow)) key of
        None \<Rightarrow> ow
      | Some method \<Rightarrow>
          cacheResponseFromLocked proc method raw
            (onRouting (\<lambda>r. r\<lparr>ro_methodTags := mdel (ro_methodTags r) key\<rparr>) ow))"

definition deliverResponse :: "bytes \<Rightarrow> bytes \<Rightarrow> owner \<Rightarrow> owner option" where
  "deliverResponse key raw ow =
     (case Deremap key of
        Inl _ \<Rightarrow> Some ow
      | Inr res \<Rightarrow>
          (case ReplaceID raw (de_OriginalID res) of
             None \<Rightarrow> None
           | Some (Inl _) \<Rightarrow> Some ow
           | Some (Inr restored) \<Rightarrow>
               (case mget (ow_sessions ow) (de_SessionID res) of
                  None \<Rightarrow> Some ow
                | Some s \<Rightarrow> Some (fst (sessionWrite (se_ptr s) restored ow)))))"

definition handleUpstreamResponse :: "nat \<Rightarrow> Message \<Rightarrow> owner \<Rightarrow> owner option" where
  "handleUpstreamResponse proc msg ow =
     (let key = (case msg_ID msg of None \<Rightarrow> [] | Some i \<Rightarrow> i); raw = msg_Raw msg
      in if isProactiveID (ow_proactiveNamespace ow) key then Some (proactiveResponse proc key raw ow)
         else if mget (ro_timedOut (ow_ro ow)) key \<noteq> None then Some (lateResponse proc key raw ow)
         else if mget (ro_inflight (ow_ro ow)) key = None then Some ow
         else deliverResponse key raw (cacheTagged proc key raw (claimResponse key ow)))"

definition handleUpstreamMessageFrom :: "time \<Rightarrow> nat \<Rightarrow> Message \<Rightarrow> owner \<Rightarrow> owner option" where
  "handleUpstreamMessageFrom now proc msg ow =
     (if \<not> acceptsProcessEvent proc ow then Some ow
      else case msg_Type msg of
          TypeNotification \<Rightarrow> Some (handleUpstreamNotification now proc msg ow)
        | TypeRequest \<Rightarrow> Some (handleUpstreamRequest msg ow)
        | TypeResponse \<Rightarrow> handleUpstreamResponse proc msg ow)"

section \<open>The owner as a whole\<close>

datatype owner_event =
    EvConnect Session
  | EvDisconnect session_ptr
  | EvDownstream FrameAction session_ptr Message
  | EvUpstream nat Message
  | EvWatchdog nat
  | EvAttempt attempt_event
  | EvCompletion nat bool "bytes option"
  | EvUpstreamEOF nat
  | EvUpstreamExit nat bytes
  | EvDemandTimer bytes
  | EvProgressTick
  | EvDrain session_ptr bool
  | EvSetMaintenance "MaintenanceResult option"
  | EvDrainForMaintenance
  | EvStart MaterializationTrigger
  | EvAcquirePin
  | EvReleasePin
  | EvCancelAttempt
  | EvStop

definition SetMaintenance :: "MaintenanceResult option \<Rightarrow> owner \<Rightarrow> owner" where
  "SetMaintenance result ow =
     ow\<lparr>ow_maintenance :=
       (case result of None \<Rightarrow> None | Some m \<Rightarrow> if mr_State m = ''RELEASED'' then None else Some m)\<rparr>"

text \<open>\<open>DrainForMaintenance\<close> after its waiting: waiting demands and requests in flight are answered.\<close>

definition DrainForMaintenance :: "owner \<Rightarrow> owner" where
  "DrainForMaintenance ow =
     (case ow_maintenance ow of
        None \<Rightarrow> ow
      | Some held \<Rightarrow>
          (case detachLocalDemandsForGeneration 0 ow of
             (ow1, ds) \<Rightarrow>
               drainInflightRequests
                 (foldl (\<lambda>ow d. fst (sessionWrite (ld_session d) (maintenanceErrorBytes (msg_ID (ld_message d)) held) ow)) ow1 ds)))"

definition watchdogEvent :: "nat \<Rightarrow> owner \<Rightarrow> owner" where
  "watchdogEvent i ow =
     (let wds = ro_watchdogs (ow_ro ow)
      in if i \<ge> length wds then ow
         else fireWatchdog (wds ! i)
                (onRouting (\<lambda>r. r\<lparr>ro_watchdogs := take i wds @ drop (Suc i) wds\<rparr>) ow))"

definition drainEvent :: "session_ptr \<Rightarrow> bool \<Rightarrow> owner \<Rightarrow> owner" where
  "drainEvent p takeDone ow =
     (case sessionAt ow p of
        None \<Rightarrow> ow
      | Some s \<Rightarrow> updateSession (sp_ID p) (drainNotification s takeDone) ow)"

fun owner_step :: "time \<Rightarrow> owner \<Rightarrow> owner_event \<Rightarrow> owner option" where
  "owner_step now ow (EvConnect s) = Some (AddSession now s ow)"
| "owner_step now ow (EvDisconnect p) = Some (endSession now p ow)"
| "owner_step now ow (EvDownstream action p msg) =
     (if sessionAt ow p = None then Some ow else handleDownstreamMessage now action p msg ow)"
| "owner_step now ow (EvUpstream proc msg) = handleUpstreamMessageFrom now proc msg ow"
| "owner_step now ow (EvWatchdog i) = Some (watchdogEvent i ow)"
| "owner_step now ow (EvAttempt ev) = attemptStep now ev ow"
| "owner_step now ow (EvCompletion i proven closeErr) = Some (completionStep i proven closeErr ow)"
| "owner_step now ow (EvUpstreamEOF proc) = Some (markCurrentUpstreamDead proc ow)"
| "owner_step now ow (EvUpstreamExit proc exitErr) = Some (monitorUpstreamExit proc exitErr ow)"
| "owner_step now ow (EvDemandTimer key) = Some (expireLocalDemand key ow)"
| "owner_step now ow EvProgressTick = Some (emitSyntheticProgress now (loadProgressInterval ow) ow)"
| "owner_step now ow (EvDrain p takeDone) = Some (drainEvent p takeDone ow)"
| "owner_step now ow (EvSetMaintenance m) = Some (SetMaintenance m ow)"
| "owner_step now ow EvDrainForMaintenance = Some (DrainForMaintenance ow)"
| "owner_step now ow (EvStart trigger) = Some (fst (startMaterialization trigger ow))"
| "owner_step now ow EvAcquirePin = Some (acquireRestartPin ow)"
| "owner_step now ow EvReleasePin = Some (releaseRestartPin ow)"
| "owner_step now ow EvCancelAttempt = Some (cancelMaterialization ow)"
| "owner_step now ow EvStop = Some (stopMaterialization ow)"

text \<open>A run; a panic ends the process, which is \<open>None\<close>.\<close>

fun owner_run :: "owner \<Rightarrow> (time \<times> owner_event) list \<Rightarrow> owner option" where
  "owner_run ow [] = Some ow"
| "owner_run ow ((now, ev) # evs) =
     (case owner_step now ow ev of None \<Rightarrow> None | Some ow' \<Rightarrow> owner_run ow' evs)"

section \<open>A new owner\<close>

definition nextProactiveNamespace :: "int \<Rightarrow> nat \<Rightarrow> bytes" where
  "nextProactiveNamespace pid sequence = ''mux-init-'' @ intDec pid @ ''-'' @ natDec sequence"

text \<open>The fields of the configuration that an owner of this model uses.\<close>

record OwnerConfig =
  cfg_Env :: env
  cfg_Cwd :: bytes
  cfg_ServerID :: bytes
  cfg_HandlerFunc :: bool
  cfg_Authorize :: bool
  cfg_MaterializationPolicy :: MaterializationPolicy
  cfg_DeferInitialMaterialization :: bool
  cfg_PersistentPending :: bool
  cfg_PersistentRequired :: bool

definition emptyRouting :: routing where
  "emptyRouting =
     \<lparr>ro_sessions = [], ro_inflight = [], ro_methodTags = [], ro_timedOut = [], ro_pending = 0, ro_mgr = NewManager,
      ro_progressOwners = [], ro_tokenRequest = [], ro_requestTokens = [], ro_tracker = NewTracker, ro_nextPtr = 0,
      ro_watchdogs = []\<rparr>"

definition emptyCaches :: caches where
  "emptyCaches =
     \<lparr>ca_initDone = False, ca_initResp = None, ca_initProtocolVersion = [], ca_toolList = None, ca_promptList = None,
      ca_resourceList = None, ca_resourceTemplateList = None, ca_cachedInitSessions = [], ca_listChangedAfterRefresh = False\<rparr>"

definition newClassification :: "OwnerConfig \<Rightarrow> owner_env \<Rightarrow> classification" where
  "newClassification cfg en =
     \<lparr>cs_mode = None, cs_source = [], cs_reason = [], cs_classified = False, cs_initReady = False, cs_cwd = cfg_Cwd cfg,
      cs_cwdSet = [(oe_canon en (cfg_Cwd cfg), True)], cs_env = cfg_Env cfg, cs_drainTimeout = 0, cs_toolTimeoutNs = 0,
      cs_idleTimeoutNs = 0, cs_progressIntervalNs = seconds 5\<rparr>"

definition newMaterialization :: "OwnerConfig \<Rightarrow> materialization" where
  "newMaterialization cfg =
     \<lparr>ma_policy = cfg_MaterializationPolicy cfg, ma_state = MaterializationCacheOnly, ma_trigger = MaterializationTriggerNone,
      ma_generation = 0, ma_attempt = None, ma_retiring = None, ma_blockedErr = None, ma_retryProcess = None, ma_stop = False,
      ma_demands = [], ma_order = [], ma_persistentPending = cfg_PersistentPending cfg,
      ma_persistentRequired = cfg_PersistentRequired cfg, ma_resumeTrigger = None, ma_restartPins = 0, ma_stage = None,
      ma_upstream = None, ma_dead = False, ma_nextProc = 0, ma_completing = []\<rparr>"

text \<open>
  \<open>NewOwner\<close> once the socket is open, with the process id and the sequence number of the owner. The wait
  for the first start of the process is left to the events that follow.
\<close>

definition NewOwner :: "int \<Rightarrow> nat \<Rightarrow> OwnerConfig \<Rightarrow> owner_env \<Rightarrow> owner" where
  "NewOwner pid sequence cfg en =
     (let ow = \<lparr>ow_serverID = cfg_ServerID cfg, ow_initialAdmissionToken = [], ow_needsAuth = cfg_Authorize cfg,
           ow_handlerFunc = cfg_HandlerFunc cfg, ow_proactiveNamespace = nextProactiveNamespace pid sequence,
           ow_maintenance = None, ow_admissionClosed = False, ow_busy = [], ow_ro = emptyRouting, ow_ca = emptyCaches,
           ow_cs = newClassification cfg en, ow_ma = newMaterialization cfg, ow_en = en\<rparr>
      in if cfg_DeferInitialMaterialization cfg then ow else fst (startMaterialization MaterializationTriggerEager ow))"

end
