(* ===== verification/Owner_Inv.thy ===== *)
theory Owner_Inv
  imports Owner_Handlers
begin

text \<open>
  What every event of an owner keeps: the count of pending requests covers the requests in flight, a
  process is started only when its predecessor is proven gone, and persistence and isolation, once
  established, stay.
\<close>

section \<open>Actions that only write\<close>

text \<open>Two owners that differ only in their sessions and their environment.\<close>

definition outside :: "owner \<Rightarrow> owner \<Rightarrow> bool" where
  "outside ow ow' \<longleftrightarrow>
     ow_ma ow' = ow_ma ow \<and> ow_ca ow' = ow_ca ow \<and> ow_cs ow' = ow_cs ow \<and> ow_maintenance ow' = ow_maintenance ow \<and>
     ow_proactiveNamespace ow' = ow_proactiveNamespace ow \<and> ow_serverID ow' = ow_serverID ow \<and>
     ow_admissionClosed ow' = ow_admissionClosed ow \<and>
     (ow_ro ow')\<lparr>ro_sessions := []\<rparr> = (ow_ro ow)\<lparr>ro_sessions := []\<rparr>"

lemma outside_refl [simp, intro]: "outside ow ow"
  by (simp add: outside_def)

lemma outside_trans: "outside a b \<Longrightarrow> outside b c \<Longrightarrow> outside a c"
  by (simp add: outside_def)

lemma outside_routing:
  assumes "outside ow ow'"
  shows "ro_pending (ow_ro ow') = ro_pending (ow_ro ow)" "ro_inflight (ow_ro ow') = ro_inflight (ow_ro ow)"
    "ro_methodTags (ow_ro ow') = ro_methodTags (ow_ro ow)" "ro_nextPtr (ow_ro ow') = ro_nextPtr (ow_ro ow)"
    "ro_mgr (ow_ro ow') = ro_mgr (ow_ro ow)" "ro_timedOut (ow_ro ow') = ro_timedOut (ow_ro ow)"
    "ro_watchdogs (ow_ro ow') = ro_watchdogs (ow_ro ow)"
proof -
  have "(ow_ro ow')\<lparr>ro_sessions := []\<rparr> = (ow_ro ow)\<lparr>ro_sessions := []\<rparr>" using assms by (simp add: outside_def)
  from arg_cong [OF this, of ro_pending] arg_cong [OF this, of ro_inflight] arg_cong [OF this, of ro_methodTags]
    arg_cong [OF this, of ro_nextPtr] arg_cong [OF this, of ro_mgr] arg_cong [OF this, of ro_timedOut]
    arg_cong [OF this, of ro_watchdogs]
  show "ro_pending (ow_ro ow') = ro_pending (ow_ro ow)" "ro_inflight (ow_ro ow') = ro_inflight (ow_ro ow)"
    "ro_methodTags (ow_ro ow') = ro_methodTags (ow_ro ow)" "ro_nextPtr (ow_ro ow') = ro_nextPtr (ow_ro ow)"
    "ro_mgr (ow_ro ow') = ro_mgr (ow_ro ow)" "ro_timedOut (ow_ro ow') = ro_timedOut (ow_ro ow)"
    "ro_watchdogs (ow_ro ow') = ro_watchdogs (ow_ro ow)"
    by simp_all
qed

lemmas on_defs = onRouting_def onCaches_def onClass_def onMat_def onEnv_def

lemma outside_env [simp]: "outside ow (onEnv f ow)"
  by (simp add: outside_def on_defs)

lemma outside_updateSession [simp]: "outside ow (updateSession sid s ow)"
  by (simp add: outside_def updateSession_def on_defs)

lemma outside_sessionWrite: "outside ow (fst (sessionWrite p d ow))"
  by (auto simp: sessionWrite_def split: option.split prod.split)

lemma outside_sessionNotify: "outside ow (sessionNotify p d ow)"
  by (auto simp: sessionNotify_def split: option.split)

lemma outside_closeSession: "outside ow (closeSession p ow)"
  by (auto simp: closeSession_def split: option.split)

lemma outside_callback: "outside ow (callback_do c ow)"
  by (simp add: callback_do_def)

lemma outside_rejectMaintenance: "outside ow (rejectMaintenance p msg held ow)"
  by (auto simp: rejectMaintenance_def intro: outside_sessionWrite)

lemma outside_writeDemandError: "outside ow (writeDemandError p i e ow)"
  by (auto simp: writeDemandError_def intro: outside_sessionWrite split: option.split)

lemma outside_writeLine: "outside ow (fst (writeLine proc d ow))"
  by (auto simp: writeLine_def split: prod.split)

lemma outside_writeUpstream: "outside ow (fst (writeUpstream d ow))"
  using outside_writeLine by (auto simp: writeUpstream_def split: option.split prod.split) (metis fst_conv)

lemma outside_writeUpstreamToProcess: "outside ow (fst (writeUpstreamToProcess proc d ow))"
  using outside_writeLine by (auto simp: writeUpstreamToProcess_def split: option.split prod.split) (metis fst_conv)

lemma outside_forwardNotificationIfReady: "outside ow (forwardNotificationIfReady d ow)"
  by (simp add: forwardNotificationIfReady_def outside_writeUpstream)

lemma outside_sendRootsListChanged: "outside ow (sendRootsListChanged ow)"
  by (simp add: sendRootsListChanged_def outside_forwardNotificationIfReady)

lemma outside_notifyAll: "outside ow (notifyAll ds ow)"
  by (simp add: notifyAll_def outside_def on_defs)

lemma outside_closeAllBut: "outside ow (closeAllBut k ow)"
  by (simp add: closeAllBut_def outside_def on_defs)

lemma outside_closeSessions: "outside ow (closeSessions ks ow)"
  by (simp add: closeSessions_def outside_def on_defs)

lemma outside_askCacheReady: "outside ow (fst (askCacheReady ow))"
  by (auto simp: askCacheReady_def split: prod.split)

lemma outside_fold:
  assumes "\<And>x ow. outside ow (f ow x)"
  shows "outside ow (foldl f ow xs)"
  by (induction xs arbitrary: ow) (auto intro: outside_trans assms)

lemma outside_deliver: "outside ow (deliverInflightResponses rs ow)"
  unfolding deliverInflightResponses_def by (rule outside_fold) (auto intro: outside_sessionWrite split: prod.split)

lemma outside_writeFailed: "outside ow (writeFailedLocalDemands ds e ow)"
  by (induction ds arbitrary: ow)
    (auto intro: outside_trans [OF outside_rejectMaintenance] outside_trans [OF outside_writeDemandError] split: option.split)

lemma outside_synthetic: "outside ow (emitSyntheticProgress now i ow)"
  unfolding emitSyntheticProgress_def
proof (rule outside_fold)
  fix x :: "bytes \<times> InflightRequest" and ow :: owner
  show "outside ow (case x of (key, fl) \<Rightarrow> syntheticFor now i key fl ow)"
    by (auto simp: syntheticFor_def Let_def intro!: outside_fold outside_sessionWrite split: prod.split option.split)
qed

lemma outside_drainEvent: "outside ow (drainEvent p b ow)"
  by (auto simp: drainEvent_def split: option.split)

lemmas outside_simps = outside_sessionWrite outside_sessionNotify outside_closeSession outside_callback outside_rejectMaintenance
  outside_writeDemandError outside_writeLine outside_writeUpstream outside_writeUpstreamToProcess
  outside_forwardNotificationIfReady outside_sendRootsListChanged outside_notifyAll outside_closeAllBut
  outside_closeSessions outside_askCacheReady outside_deliver outside_writeFailed outside_synthetic outside_drainEvent

section \<open>Counting\<close>

text \<open>Proactive requests are counted by their tags, the requests of sessions by their in-flight entries.\<close>

definition ptags :: "bytes \<Rightarrow> (bytes, bytes) gomap \<Rightarrow> nat" where
  "ptags ns m = length (filter (\<lambda>(k, _). isProactiveID ns k) m)"

definition counted :: "bytes \<Rightarrow> routing \<Rightarrow> bool" where
  "counted ns r \<longleftrightarrow>
     minv (ro_inflight r) \<and> minv (ro_methodTags r) \<and>
     int (mlen (ro_inflight r)) + int (ptags ns (ro_methodTags r)) \<le> ro_pending r"

definition foreign :: "bytes \<Rightarrow> bool" where
  "foreign ns \<longleftrightarrow> ns \<noteq> [] \<and> hd ns \<noteq> CHR ''s''"

lemma ptags_alt: "ptags ns m = mlen (mkeep (\<lambda>k _. isProactiveID ns k) m)"
  by (simp add: ptags_def mlen_def mkeep_def)

lemma mkeep_key_mdel: "mkeep (\<lambda>k _. P k) (mdel m x) = mdel (mkeep (\<lambda>k _. P k) m) x"
  by (induction m) (auto simp: mkeep_def mdel_def)

lemma ptags_mdel_le: "ptags ns (mdel m k) \<le> ptags ns m"
  by (simp add: ptags_alt mkeep_key_mdel) (simp add: mlen_def mdel_def length_delete_le)

lemma ptags_mdel:
  assumes "minv m" "isProactiveID ns k" "mget m k \<noteq> None"
  shows "Suc (ptags ns (mdel m k)) = ptags ns m"
proof -
  have "mget (mkeep (\<lambda>k _. isProactiveID ns k) m) k \<noteq> None" using assms by (auto simp: mget_mkeep split: option.split)
  then have "mhas (mkeep (\<lambda>k _. isProactiveID ns k) m) k" by (simp add: mhas_def)
  then show ?thesis using mlen_pos assms(1) by (fastforce simp: ptags_alt mkeep_key_mdel mlen_mdel)
qed

lemma mkeep_key_mput:
  "mkeep (\<lambda>k _. P k) (mput m x v) = (if P x then mput (mkeep (\<lambda>k _. P k) m) x v else mkeep (\<lambda>k _. P k) m)"
  by (induction m) (auto simp: mkeep_def mput_def)

lemma ptags_mput_user: "\<not> isProactiveID ns k \<Longrightarrow> ptags ns (mput m k v) = ptags ns m"
  by (simp add: ptags_alt mkeep_key_mput)

lemma ptags_mput_le: "ptags ns (mput m k v) \<le> Suc (ptags ns m)"
  by (auto simp: ptags_alt mkeep_key_mput mlen_mput)

lemma remap_user:
  assumes "foreign ns"
  shows "\<not> isProactiveID ns (Remap n i)"
proof -
  obtain body where "Remap n i = rawQuoted (CHR ''s'' # body)"
    using remap_form [of n i] by (auto simp: sessionPrefix_def)
  then have "goUnquote (Remap n i) = map_option ((#) (CHR ''s'')) (goUnescape body)"
    by (simp add: goUnquote_def rawQuoted_def)
  then show ?thesis using assms by (cases ns) (auto simp: isProactiveID_def foreign_def hasPrefix_def split: option.split)
qed

lemma counted_same:
  assumes "ro_inflight r' = ro_inflight r" "ro_methodTags r' = ro_methodTags r" "ro_pending r' = ro_pending r"
  shows "counted ns r' \<longleftrightarrow> counted ns r"
  using assms by (simp add: counted_def)

lemma counted_untag: "counted ns r \<Longrightarrow> counted ns (r\<lparr>ro_methodTags := mdel (ro_methodTags r) k\<rparr>)"
  using ptags_mdel_le [of ns "ro_methodTags r" k] by (auto simp: counted_def)

lemma counted_claim:
  assumes "counted ns r" "mget (ro_inflight r) k \<noteq> None"
  shows "counted ns (decrementPending (r\<lparr>ro_inflight := mdel (ro_inflight r) k\<rparr>))"
proof -
  have "mhas (ro_inflight r) k" using assms(2) by (simp add: mhas_def)
  then show ?thesis using assms(1) mlen_pos [of "ro_inflight r" k] by (auto simp: counted_def decrementPending_def mlen_mdel)
qed

lemma counted_untag_proactive:
  assumes "counted ns r" "isProactiveID ns k" "mget (ro_methodTags r) k \<noteq> None"
  shows "counted ns (decrementPending (r\<lparr>ro_methodTags := mdel (ro_methodTags r) k\<rparr>))"
  using assms ptags_mdel [of "ro_methodTags r" ns k] by (auto simp: counted_def decrementPending_def)

lemma counted_tag: "counted ns r \<Longrightarrow>
    counted ns (r\<lparr>ro_methodTags := mput (ro_methodTags r) k v, ro_pending := ro_pending r + 1\<rparr>)"
  using ptags_mput_le [of ns "ro_methodTags r" k v] by (auto simp: counted_def)

lemma counted_clear:
  assumes "counted ns r" "distinct ks" "\<forall>k\<in>set ks. isProactiveID ns k \<and> mget (ro_methodTags r) k \<noteq> None"
  shows "counted ns (foldl (\<lambda>r k. decrementPending (r\<lparr>ro_methodTags := mdel (ro_methodTags r) k\<rparr>)) r ks)"
  using assms
proof (induction ks arbitrary: r)
  case (Cons k ks)
  let ?r = "decrementPending (r\<lparr>ro_methodTags := mdel (ro_methodTags r) k\<rparr>)"
  have tags: "ro_methodTags ?r = mdel (ro_methodTags r) k" by (simp add: decrementPending_def)
  have "counted ns ?r" using Cons.prems by (intro counted_untag_proactive) auto
  moreover have "\<forall>x\<in>set ks. isProactiveID ns x \<and> mget (ro_methodTags ?r) x \<noteq> None"
    using Cons.prems unfolding tags by auto
  ultimately show ?case using Cons.IH [of ?r] Cons.prems by simp
qed simp

section \<open>Steps that keep the generation\<close>

definition acore :: "materializationAttempt option \<Rightarrow> (attempt_phase \<times> nat option) option" where
  "acore a = map_option (\<lambda>a. (at_phase a, at_process a)) a"

abbreviation core :: "owner \<Rightarrow> (attempt_phase \<times> nat option) option" where
  "core ow \<equiv> acore (ma_attempt (ow_ma ow))"

definition isolated :: "owner \<Rightarrow> bool" where
  "isolated ow \<longleftrightarrow> cs_mode (ow_cs ow) = Some ModeIsolated \<and> cs_source (ow_cs ow) \<noteq> []"

definition persistent :: "owner \<Rightarrow> bool" where
  "persistent ow \<longleftrightarrow> ma_policy (ow_ma ow) = MaterializationPersistent"

definition ocounted :: "owner \<Rightarrow> bool" where
  "ocounted ow \<longleftrightarrow> foreign (ow_proactiveNamespace ow) \<and> counted (ow_proactiveNamespace ow) (ow_ro ow)"

text \<open>
  What a step keeps that neither starts nor retires a process: persistence, isolation and a closed
  admission stay, the
  count stays right, an owner that was told to stop stays so and starts no attempt, and the attempt
  stays where it is, ends, or is a new one. Only the current process is marked for retirement, and an
  attempt does not begin while an older process is.
\<close>

abbreviation agen :: "materialization \<Rightarrow> nat option" where
  "agen m \<equiv> map_option at_generation (ma_attempt m)"

definition halting :: "materialization \<Rightarrow> materialization \<Rightarrow> bool" where
  "halting m m' \<longleftrightarrow> (ma_stop m \<longrightarrow> ma_stop m' \<and> (agen m' = agen m \<or> ma_attempt m' = None))"

lemma halting_refl [simp]: "halting m m"
  by (simp add: halting_def)

lemma halting_trans: "halting a b \<Longrightarrow> halting b c \<Longrightarrow> halting a c"
  unfolding halting_def by (metis map_option_is_None)

definition sticky :: "owner \<Rightarrow> owner \<Rightarrow> bool" where
  "sticky ow ow' \<longleftrightarrow>
     ow_proactiveNamespace ow' = ow_proactiveNamespace ow \<and> ow_serverID ow' = ow_serverID ow \<and> ow_maintenance ow' = ow_maintenance ow \<and>
     (ow_admissionClosed ow \<longrightarrow> ow_admissionClosed ow') \<and> (persistent ow \<longrightarrow> persistent ow') \<and>
     (isolated ow \<longrightarrow> isolated ow') \<and> (ocounted ow \<longrightarrow> ocounted ow') \<and> halting (ow_ma ow) (ow_ma ow')"

definition begins :: "nat option \<Rightarrow> (attempt_phase \<times> nat option) option \<Rightarrow> (attempt_phase \<times> nat option) option \<Rightarrow> nat option \<Rightarrow> bool" where
  "begins up c c' rt' \<longleftrightarrow> c' = c \<or> c' = None \<or> c' = Some (PhaseBegin, None) \<and> (rt' = None \<or> rt' = up)"

definition steady :: "materialization \<Rightarrow> materialization \<Rightarrow> bool" where
  "steady m m' \<longleftrightarrow>
     ma_upstream m' = ma_upstream m \<and> ma_nextProc m' = ma_nextProc m \<and>
     (ma_retiring m' = ma_retiring m \<or> ma_retiring m' = ma_upstream m) \<and>
     begins (ma_upstream m) (acore (ma_attempt m)) (acore (ma_attempt m')) (ma_retiring m')"

definition good :: "owner \<Rightarrow> owner \<Rightarrow> bool" where
  "good ow ow' \<longleftrightarrow> sticky ow ow' \<and> steady (ow_ma ow) (ow_ma ow')"

lemma acore_None [simp]: "acore None = None" "acore a = None \<longleftrightarrow> a = None"
  by (simp_all add: acore_def)

lemma steady_refl [simp]: "steady m m"
  by (simp add: steady_def begins_def)

lemma begins_trans:
  "begins up c1 c2 r2 \<Longrightarrow> begins up c2 c3 r3 \<Longrightarrow> r3 = r2 \<or> r3 = up \<Longrightarrow> begins up c1 c3 r3"
  unfolding begins_def by metis

lemma steady_trans:
  assumes "steady a b" "steady b c"
  shows "steady a c"
proof -
  note ab = assms(1) [unfolded steady_def] and bc = assms(2) [unfolded steady_def]
  have up: "ma_upstream b = ma_upstream a" using ab by blast
  have ret: "ma_retiring c = ma_retiring b \<or> ma_retiring c = ma_upstream a" using bc unfolding up by blast
  have "begins (ma_upstream a) (acore (ma_attempt a)) (acore (ma_attempt b)) (ma_retiring b)" using ab by blast
  moreover have "begins (ma_upstream a) (acore (ma_attempt b)) (acore (ma_attempt c)) (ma_retiring c)" using bc unfolding up by blast
  ultimately have "begins (ma_upstream a) (acore (ma_attempt a)) (acore (ma_attempt c)) (ma_retiring c)" using ret by (rule begins_trans)
  moreover have "ma_retiring c = ma_retiring a \<or> ma_retiring c = ma_upstream a" using ab ret by argo
  moreover have "ma_upstream c = ma_upstream a" "ma_nextProc c = ma_nextProc a" using ab bc by argo+
  ultimately show ?thesis unfolding steady_def using ab bc by blast
qed

lemma sticky_refl [simp, intro]: "sticky ow ow"
  by (simp add: sticky_def)

lemma sticky_trans: "sticky a b \<Longrightarrow> sticky b c \<Longrightarrow> sticky a c"
  by (auto simp: sticky_def intro: halting_trans)

lemma good_refl [simp, intro]: "good ow ow"
  by (simp add: good_def)

lemma good_trans: "good a b \<Longrightarrow> good b c \<Longrightarrow> good a c"
  unfolding good_def by (blast intro: sticky_trans steady_trans)

lemma good_sticky: "good a b \<Longrightarrow> sticky a b"
  by (simp add: good_def)

named_theorems keeps

lemma good_outside: "outside ow ow' \<Longrightarrow> good ow ow'"
  using outside_routing [of ow ow']
  by (simp add: good_def sticky_def persistent_def isolated_def ocounted_def outside_def counted_def)

lemma good_after: "good z ow \<Longrightarrow> outside ow ow' \<Longrightarrow> good z ow'"
  by (rule good_trans [OF _ good_outside])

lemmas [keeps] =
  good_after [OF _ outside_env] good_after [OF _ outside_updateSession] good_after [OF _ outside_sessionWrite]
  good_after [OF _ outside_sessionNotify] good_after [OF _ outside_closeSession] good_after [OF _ outside_callback]
  good_after [OF _ outside_rejectMaintenance] good_after [OF _ outside_writeDemandError] good_after [OF _ outside_writeLine]
  good_after [OF _ outside_writeUpstream] good_after [OF _ outside_writeUpstreamToProcess]
  good_after [OF _ outside_forwardNotificationIfReady] good_after [OF _ outside_sendRootsListChanged]
  good_after [OF _ outside_notifyAll] good_after [OF _ outside_closeAllBut] good_after [OF _ outside_closeSessions]
  good_after [OF _ outside_askCacheReady] good_after [OF _ outside_deliver] good_after [OF _ outside_writeFailed]
  good_after [OF _ outside_synthetic] good_after [OF _ outside_drainEvent]

lemma good_routing:
  assumes "good z ow" "counted (ow_proactiveNamespace ow) (ow_ro ow) \<Longrightarrow> counted (ow_proactiveNamespace ow) (f (ow_ro ow))"
  shows "good z (onRouting f ow)"
  using assms(1)
  by (rule good_trans) (use assms(2) in \<open>auto simp: good_def sticky_def persistent_def isolated_def ocounted_def on_defs\<close>)

lemma good_routing_same:
  assumes "good z ow" "ro_inflight (f (ow_ro ow)) = ro_inflight (ow_ro ow)"
    "ro_methodTags (f (ow_ro ow)) = ro_methodTags (ow_ro ow)" "ro_pending (f (ow_ro ow)) = ro_pending (ow_ro ow)"
  shows "good z (onRouting f ow)"
  by (rule good_routing [OF assms(1)]) (use assms(2-) counted_same in blast)

lemma good_caches [keeps]: "good z ow \<Longrightarrow> good z (onCaches f ow)"
  by (erule good_trans) (auto simp: good_def sticky_def persistent_def isolated_def ocounted_def on_defs)

lemma good_class:
  assumes "good z ow" "isolated ow \<Longrightarrow> cs_mode (f (ow_cs ow)) = Some ModeIsolated \<and> cs_source (f (ow_cs ow)) \<noteq> []"
  shows "good z (onClass f ow)"
  using assms(1)
  by (rule good_trans) (use assms(2) in \<open>auto simp: good_def sticky_def persistent_def isolated_def ocounted_def on_defs\<close>)

lemma good_mat:
  assumes "good z ow" "ma_upstream (f (ow_ma ow)) = ma_upstream (ow_ma ow)" "ma_nextProc (f (ow_ma ow)) = ma_nextProc (ow_ma ow)"
    "ma_policy (f (ow_ma ow)) = ma_policy (ow_ma ow) \<or> ma_policy (f (ow_ma ow)) = MaterializationPersistent"
    "begins (ma_upstream (ow_ma ow)) (core ow) (acore (ma_attempt (f (ow_ma ow)))) (ma_retiring (f (ow_ma ow)))"
    "halting (ow_ma ow) (f (ow_ma ow))"
    "ma_retiring (f (ow_ma ow)) = ma_retiring (ow_ma ow) \<or> ma_retiring (f (ow_ma ow)) = ma_upstream (ow_ma ow)"
  shows "good z (onMat f ow)"
  using assms(1)
  by (rule good_trans)
    (use assms(2-) in \<open>auto simp: good_def steady_def sticky_def persistent_def isolated_def ocounted_def on_defs\<close>)

lemma halting_simps [simp]:
  "ma_stop m' = ma_stop m \<Longrightarrow> ma_attempt m' = ma_attempt m \<Longrightarrow> halting m m'"
  "ma_stop m' = ma_stop m \<Longrightarrow> ma_attempt m' = None \<Longrightarrow> halting m m'"
  "\<not> ma_stop m \<Longrightarrow> halting m m'"
  by (simp_all add: halting_def)

lemma begins_simps [simp]: "begins up c c rt" "begins up c None rt" "begins up c (Some (PhaseBegin, None)) None"
  by (simp_all add: begins_def)

lemma good_other [keeps]: "good z ow \<Longrightarrow> good z (ow\<lparr>ow_busy := b\<rparr>)"
proof -
  have "good ow (ow\<lparr>ow_busy := b\<rparr>)" by (simp add: good_def sticky_def persistent_def isolated_def ocounted_def)
  then show "good z ow \<Longrightarrow> good z (ow\<lparr>ow_busy := b\<rparr>)" by (blast intro: good_trans)
qed

section \<open>Caches and classification\<close>

lemmas step_simps = Let_def case_prod_beta
lemmas step_splits = option.split bool.split sum.split if_split

lemma good_storeSeconds:
  assumes "good z ow" "\<And>n c. cs_mode (st n c) = cs_mode c" "\<And>n c. cs_source (st n c) = cs_source c"
  shows "good z (storeSeconds st n ow)"
  using assms by (auto simp: storeSeconds_def isolated_def intro!: good_class)

lemma good_declared [keeps]:
  assumes "good z ow"
  shows "good z (parseDrainTimeout raw ow)" "good z (parseToolTimeout raw ow)" "good z (parseIdleTimeout raw ow)"
    "good z (parseProgressInterval raw ow)"
  using assms unfolding parseDrainTimeout_def parseToolTimeout_def parseIdleTimeout_def parseProgressInterval_def
  by (auto intro!: good_storeSeconds)

lemma good_markInitReady [keeps]: "good z ow \<Longrightarrow> good z (markInitReady ow)"
  by (auto simp: markInitReady_def isolated_def intro!: good_class)

lemma good_resetCwd [keeps]: "good z ow \<Longrightarrow> good z (resetCwdSetToPrimary ow)"
  by (auto simp: resetCwdSetToPrimary_def isolated_def intro!: good_class)

lemma good_mgr [keeps]: "good z ow \<Longrightarrow> good z (onRouting (\<lambda>r. r\<lparr>ro_mgr := f r\<rparr>) ow)"
  by (rule good_routing_same) auto

lemma good_restrict [keeps]: "good z ow \<Longrightarrow> good z (restrictToIsolated ow)"
  by (auto simp: restrictToIsolated_def evictExtraSessions_def intro!: keeps)

lemma good_setClassification:
  "good z ow \<Longrightarrow> cs_source (ow_cs ow) = [] \<Longrightarrow> good z (setClassification mode source reason ow)"
  by (auto simp: setClassification_def isolated_def intro!: good_class)

lemma good_classify [keeps]:
  assumes "good z ow"
  shows "good z (classifyFromCapabilities raw ow)" "good z (classifyFromToolList raw ow)"
  using assms by (auto simp: classifyFromCapabilities_def classifyFromToolList_def step_simps
      intro!: keeps good_setClassification split: option.split)

lemma good_ResolvePersistent [keeps]: "good z ow \<Longrightarrow> good z (ResolvePersistent p ow)"
  by (auto simp: ResolvePersistent_def intro!: good_mat)

lemma good_learn [keeps]: "good z ow \<Longrightarrow> good z (learnFromInit raw ow)"
  by (auto simp: learnFromInit_def checkPersistent_def intro!: keeps)

lemma good_broadcast [keeps]:
  assumes "good z ow"
  shows "good z (broadcastListChanged ow)" "good z (broadcast raw ow)" "good z (captureInitFingerprint raw ow)"
  using assms by (auto simp: broadcastListChanged_def broadcast_def invalidateCacheIfNeeded_def captureInitFingerprint_def
      intro!: keeps split: step_splits)

lemma good_cacheAdmitted [keeps]: "good z ow \<Longrightarrow> good z (fst (cacheAdmitted m ow))"
  by (auto simp: cacheAdmitted_def intro!: keeps)

lemma good_cacheResponseState [keeps]: "good z ow \<Longrightarrow> good z (fst (cacheResponseState m raw ow))"
  by (auto simp: cacheResponseState_def step_simps intro!: keeps split: bool.split)

lemma good_cacheResponse [keeps]: "good z ow \<Longrightarrow> good z (cacheResponse m raw ow)"
  by (auto simp: cacheResponse_def step_simps intro!: keeps)

lemma good_replay [keeps]: "good z ow \<Longrightarrow> good z (fst (replayFromCache p msg c ow))"
  by (auto simp: replayFromCache_def step_simps intro!: keeps split: step_splits)

section \<open>Requests in flight\<close>

lemma routing_frames [simp]:
  "ro_inflight (clearProgressTokensForRequest k r) = ro_inflight r" "ro_methodTags (clearProgressTokensForRequest k r) = ro_methodTags r"
  "ro_pending (clearProgressTokensForRequest k r) = ro_pending r" "ro_inflight (completeRequest k r) = ro_inflight r"
  "ro_methodTags (completeRequest k r) = ro_methodTags r" "ro_pending (completeRequest k r) = ro_pending r"
  "ro_inflight (trackProgressToken sid k raw r) = ro_inflight r" "ro_methodTags (trackProgressToken sid k raw r) = ro_methodTags r"
  "ro_pending (trackProgressToken sid k raw r) = ro_pending r" "ro_inflight (dropSessionTokens sid r) = ro_inflight r"
  "ro_methodTags (dropSessionTokens sid r) = ro_methodTags r" "ro_pending (dropSessionTokens sid r) = ro_pending r"
  by (simp_all add: clearProgressTokensForRequest_def completeRequest_def trackProgressToken_def dropSessionTokens_def Let_def
      split: option.split)

lemma counted_frames [simp]:
  "counted ns (clearProgressTokensForRequest k r) \<longleftrightarrow> counted ns r" "counted ns (completeRequest k r) \<longleftrightarrow> counted ns r"
  "counted ns (trackProgressToken sid k raw r) \<longleftrightarrow> counted ns r" "counted ns (r\<lparr>ro_timedOut := t\<rparr>) \<longleftrightarrow> counted ns r"
  "counted ns (r\<lparr>ro_mgr := g\<rparr>) \<longleftrightarrow> counted ns r" "counted ns (r\<lparr>ro_watchdogs := w\<rparr>) \<longleftrightarrow> counted ns r"
  by (simp_all add: counted_def)

lemma counted_swap:
  "counted ns (decrementPending (clearProgressTokensForRequest k r)) \<longleftrightarrow> counted ns (decrementPending r)"
  "counted ns (decrementPending (completeRequest k r)) \<longleftrightarrow> counted ns (decrementPending r)"
  by (auto simp: counted_def decrementPending_def)

lemma counted_claim_untag:
  assumes "counted ns r" "mget (ro_inflight r) k \<noteq> None"
  shows "counted ns (decrementPending (r\<lparr>ro_inflight := mdel (ro_inflight r) k, ro_methodTags := mdel (ro_methodTags r) k\<rparr>))"
    "counted ns (decrementPending (r\<lparr>ro_inflight := mdel (ro_inflight r) k, ro_timedOut := t,
       ro_methodTags := mdel (ro_methodTags r) k\<rparr>))"
  using counted_claim [OF assms] ptags_mdel_le [of ns "ro_methodTags r" k]
  by (auto simp: counted_def decrementPending_def split: if_splits)

lemma counted_publish:
  assumes "counted ns r" "\<not> isProactiveID ns key"
  shows "counted ns (r\<lparr>ro_pending := ro_pending r + 1, ro_inflight := mput (ro_inflight r) key e, ro_nextPtr := n,
           ro_methodTags := (if b then mput (ro_methodTags r) key v else ro_methodTags r)\<rparr>)"
  using assms ptags_mput_user [OF assms(2), of "ro_methodTags r" v] by (auto simp: counted_def mlen_mput)

lemma good_publish:
  assumes "good z ow" "foreign (ow_proactiveNamespace ow)"
  shows "good z (publishRequest now s msg proc ow)"
proof -
  have user: "\<not> isProactiveID (ow_proactiveNamespace ow) (Remap (se_ID s) (msg_ID msg))" using remap_user assms(2) by blast
  show ?thesis unfolding publishRequest_def startToolWatchdog_def Let_def
    by (auto intro!: keeps good_routing assms(1) counted_publish user)
qed

text \<open>The condition on the namespace is part of what is kept; without it nothing is claimed of the count.\<close>

lemma good_weaken:
  assumes "foreign (ow_proactiveNamespace ow) \<Longrightarrow> good ow ow'" "\<not> foreign (ow_proactiveNamespace ow) \<Longrightarrow> good ow (ow'\<lparr>ow_ro := ow_ro ow\<rparr>)"
  shows "good ow ow'"
  using assms by (cases "foreign (ow_proactiveNamespace ow)")
    (auto simp: good_def sticky_def persistent_def isolated_def ocounted_def)

lemma good_publish_only: "good ow ((publishRequest now s msg proc ow)\<lparr>ow_ro := ow_ro ow\<rparr>)"
  by (auto simp: publishRequest_def startToolWatchdog_def captureInitFingerprint_def Let_def good_def sticky_def persistent_def
      isolated_def ocounted_def on_defs split: option.split)

lemma good_published [keeps]: "good z ow \<Longrightarrow> good z (publishRequest now s msg proc ow)"
  by (rule good_trans, assumption, rule good_weaken) (auto intro: good_publish good_publish_only)

lemma counted_unpublish: "counted ns r \<Longrightarrow> counted ns (fst (unpublish key ptr r))"
  using counted_claim_untag(1) by (auto simp: unpublish_def counted_swap split: option.split)

lemma good_ro:
  assumes "good z ow" "counted (ow_proactiveNamespace ow) (ow_ro ow) \<Longrightarrow> counted (ow_proactiveNamespace ow) r"
  shows "good z (ow\<lparr>ow_ro := r\<rparr>)"
  using good_routing [of z ow "\<lambda>_. r"] assms by (simp add: onRouting_def)

lemma good_unpublish [keeps]: "good z ow \<Longrightarrow> good z (ow\<lparr>ow_ro := fst (unpublish key ptr (ow_ro ow))\<rparr>)"
  by (auto intro: good_ro counted_unpublish)

lemma good_forwardPrepared [keeps]: "good z ow \<Longrightarrow> good z (fst (forwardRequestPrepared now p msg ow))"
  by (auto simp: forwardRequestPrepared_def step_simps intro!: keeps split: step_splits)

lemma good_fireWatchdog [keeps]: "good z ow \<Longrightarrow> good z (fireWatchdog wd ow)"
  by (auto simp: fireWatchdog_def Let_def counted_swap intro!: keeps good_routing counted_claim_untag(2))

lemma good_watchdogEvent [keeps]: "good z ow \<Longrightarrow> good z (watchdogEvent i ow)"
  by (auto simp: watchdogEvent_def Let_def intro!: keeps good_routing_same)

lemma good_forgetDrained [keeps]: "good z ow \<Longrightarrow> good z (onRouting (forgetDrained key) ow)"
  using counted_untag by (auto simp: forgetDrained_def intro!: good_routing)

lemma good_claimEntry [keeps]: "good z ow \<Longrightarrow> good z (fst (claimEntry ow key))"
  by (auto simp: claimEntry_def Let_def intro!: keeps good_routing counted_claim split: sum.split)

lemma good_claimEntries [keeps]: "good z ow \<Longrightarrow> good z (fst (claimEntries keys ow))"
  by (induction keys arbitrary: ow) (auto simp: case_prod_beta intro!: keeps)

lemma good_drainInflight [keeps]: "good z ow \<Longrightarrow> good z (drainInflightRequests ow)"
  by (auto simp: drainInflightRequests_def claimInflightRequests_def case_prod_beta intro!: keeps)

lemma good_routeProgress [keeps]: "good z ow \<Longrightarrow> good z (routeProgressNotification now raw ow)"
  by (auto simp: routeProgressNotification_def intro!: keeps good_routing_same split: step_splits prod.split)

lemma good_clearProactive [keeps]:
  assumes "good z ow"
  shows "good z (clearProactiveTracking ow)"
  unfolding clearProactiveTracking_def Let_def
proof (rule good_routing [OF assms])
  let ?r = "ow_ro ow" and ?ns = "ow_proactiveNamespace ow"
  assume c: "counted ?ns ?r"
  then have "distinct (map fst (ro_methodTags ?r))" by (simp add: counted_def minv_def)
  then have "distinct (filter (isProactiveID ?ns) (map fst (ro_methodTags ?r)))" by (rule distinct_filter)
  moreover have "mget (ro_methodTags ?r) k \<noteq> None" if "k \<in> set (map fst (ro_methodTags ?r))" for k
    using that by (auto simp: mget_def map_of_eq_None_iff)
  ultimately show "counted ?ns (foldl (\<lambda>r key. decrementPending (r\<lparr>ro_methodTags := mdel (ro_methodTags r) key\<rparr>)) ?r
      (filter (isProactiveID ?ns) (map fst (ro_methodTags ?r))))"
    by (intro counted_clear c) auto
qed

section \<open>Demands and discovery\<close>

lemma good_start [keeps]: "good z ow \<Longrightarrow> good z (fst (startMaterialization t ow))"
  by (auto simp: startMaterialization_def newMaterializationAttempt_def acore_def Let_def intro!: good_mat split: option.split)

lemma good_deleteDemand [keeps]: "good z ow \<Longrightarrow> good z (deleteDemand key ow)"
  by (auto simp: deleteDemand_def intro!: good_mat)

lemma good_enqueueAdmitted [keeps]: "good z ow \<Longrightarrow> good z (fst (enqueueLocalDemandAdmitted p msg ow))"
  by (auto simp: enqueueLocalDemandAdmitted_def step_simps intro!: keeps good_mat split: sum.split start_result.split)

lemma good_enqueue [keeps]: "good z ow \<Longrightarrow> good z (fst (enqueueLocalDemand p msg ow))"
  by (auto simp: enqueueLocalDemand_def step_simps intro!: keeps split: step_splits)

lemma good_setAttempt:
  assumes "good z ow" "\<And>a. at_phase (f a) = at_phase a" "\<And>a. at_process (f a) = at_process a"
    "\<And>a. at_generation (f a) = at_generation a"
  shows "good z (setAttempt f ow)"
  unfolding setAttempt_def using assms by (auto simp: acore_def halting_def comp_def map_option.compositionality intro!: good_mat)

lemma good_reelect [keeps]: "good z ow \<Longrightarrow> good z (reelect ow)"
  by (auto simp: reelect_def intro!: good_setAttempt)

lemma good_onSignals [keeps]: "good z ow \<Longrightarrow> good z (onSignals f ow)"
  by (auto simp: onSignals_def intro!: good_setAttempt)

lemma good_transition [keeps]: "good z ow \<Longrightarrow> good z (fst (transitionLocalDemand key ow))"
  by (auto simp: transitionLocalDemand_def intro!: keeps split: option.split)

lemma good_expire [keeps]: "good z ow \<Longrightarrow> good z (expireLocalDemand key ow)"
  by (auto simp: expireLocalDemand_def case_prod_beta intro!: keeps split: option.split)

lemma good_cancelDemand [keeps]: "good z ow \<Longrightarrow> good z (fst (cancelLocalDemand p i ow))"
  by (auto simp: cancelLocalDemand_def case_prod_beta intro!: keeps split: option.split)

lemma good_cancelDemands [keeps]: "good z ow \<Longrightarrow> good z (cancelLocalDemandsForSession sid ow)"
  by (auto simp: cancelLocalDemandsForSession_def Let_def intro!: keeps good_mat split: option.split)

lemma good_cancelDisposable [keeps]: "good z ow \<Longrightarrow> good z (cancelDisposableMaterializationForZeroSessions ow)"
  by (auto simp: cancelDisposableMaterializationForZeroSessions_def Let_def intro!: good_setAttempt split: option.split)

lemma good_detach [keeps]: "good z ow \<Longrightarrow> good z (fst (detachLocalDemandsForGeneration gen ow))"
  by (auto simp: detachLocalDemandsForGeneration_def Let_def intro!: good_mat)

lemma good_failAll [keeps]: "good z ow \<Longrightarrow> good z (failAllLocalDemands e ow)"
  by (auto simp: failAllLocalDemands_def case_prod_beta intro!: keeps)

lemma good_onStage [keeps]: "good z ow \<Longrightarrow> good z (onStage f ow)"
  by (auto simp: onStage_def intro!: good_mat)

lemma good_evictees [keeps]: "good z ow \<Longrightarrow> good z (fst (isolatedEvictees mode keep ow))"
  by (auto simp: isolatedEvictees_def Let_def intro!: keeps good_routing_same split: option.split)

lemma good_rejectEvicted [keeps]: "good z ow \<Longrightarrow> good z (rejectEvicted sids ow)"
  by (auto simp: rejectEvicted_def Let_def intro!: good_mat)

lemma good_commitLaunch [keeps]: "good z ow \<Longrightarrow> good z (fst (commitLaunch mode ow))"
  by (auto simp: commitLaunch_def step_simps intro!: good_setAttempt split: option.split)

lemma cs_onCaches [simp]: "ow_cs (onCaches f ow) = ow_cs ow"
  by (simp add: onCaches_def)

lemma good_commitClassified [keeps]:
  assumes "good z ow" "fst (snd fresh) \<noteq> []"
  shows "good z (commitClassified st initResp fresh launch ow)"
  using assms unfolding commitClassified_def liveClassification_def step_simps
  by (auto intro!: keeps good_mat good_class simp: isolated_def)

lemma staged_source: "fst (snd (stagedClassification i t)) \<noteq> []"
  by (auto simp: stagedClassification_def split: option.split prod.split)

lemma good_commit [keeps]: "good z ow \<Longrightarrow> good z (commitMaterializationCache ow)"
  unfolding commitMaterializationCache_def step_simps
  by (auto intro!: keeps staged_source split: option.split bool.split)

lemma good_detect [keeps]: "good z ow \<Longrightarrow> good z (detectPersistent raw ow)"
  by (auto simp: detectPersistent_def intro!: keeps good_mat)

lemma good_cacheResponseFrom [keeps]: "good z ow \<Longrightarrow> good z (cacheResponseFromLocked proc m raw ow)"
  by (auto simp: cacheResponseFromLocked_def stageMaterializationCacheResponse_def Let_def intro!: keeps)

section \<open>Handlers that keep the generation\<close>

lemma good_addCompletion [keeps]: "good z ow \<Longrightarrow> good z (addCompletion proc t b ow)"
  by (auto simp: addCompletion_def intro!: good_mat)

lemma good_retireReady [keeps]: "good z ow \<Longrightarrow> good z (retireReadyProcess proc t ow)"
  by (auto simp: retireReadyProcess_def Let_def intro!: keeps good_mat)

lemma good_startRetry [keeps]: "good z ow \<Longrightarrow> good z (startRetiringProcessRetry proc t ow)"
  by (auto simp: startRetiringProcessRetry_def intro!: keeps good_mat)

lemma good_markDead [keeps]: "good z ow \<Longrightarrow> good z (markCurrentUpstreamDead proc ow)"
  by (auto simp: markCurrentUpstreamDead_def intro!: keeps good_mat)

lemma good_monitor [keeps]: "good z ow \<Longrightarrow> good z (monitorUpstreamExit proc e ow)"
  by (auto simp: monitorUpstreamExit_def monitorMaterializedProcessExit_def Let_def intro!: keeps good_mat)

lemma good_afterWrite [keeps]: "good z ow \<Longrightarrow> good z (afterWriteFailure used ow)"
  by (auto simp: afterWriteFailure_def intro!: keeps split: option.split)

text \<open>The same for a handler that may panic.\<close>

definition goodO :: "owner \<Rightarrow> owner option \<Rightarrow> bool" where
  "goodO z r \<longleftrightarrow> (\<forall>ow'. r = Some ow' \<longrightarrow> good z ow')"

lemma goodO_simps [simp]: "goodO z None" "goodO z (Some ow) \<longleftrightarrow> good z ow"
  by (simp_all add: goodO_def)

lemma good_forwardNow [keeps]: "good z ow \<Longrightarrow> goodO z (forwardRequestNow now p msg ow)"
  by (auto simp: forwardRequestNow_def case_prod_beta intro!: keeps split: forward_result.split)

lemma good_sendQueued [keeps]: "good z ow \<Longrightarrow> goodO z (sendQueued now key d ow)"
  by (auto simp: sendQueued_def step_simps intro!: keeps split: forward_result.split option.split)

lemma good_forwardQueued [keeps]:
  "good z ow \<Longrightarrow> goodO z (forwardQueuedDemand now key gen launch ow)"
  unfolding forwardQueuedDemand_def by (auto intro!: keeps split: option.split)

lemma good_resume [keeps]: "good z ow \<Longrightarrow> good z (resumeMaterializationAfterRestartPin ow)"
  by (auto simp: resumeMaterializationAfterRestartPin_def Let_def intro!: keeps good_mat split: option.split)

lemma good_finishFailure [keeps]: "good z ow \<Longrightarrow> good z (finishMaterializationFailure e ow)"
  by (auto simp: finishMaterializationFailure_def step_simps intro!: keeps good_mat split: option.split)

lemma good_stop [keeps]: "good z ow \<Longrightarrow> good z (stopMaterialization ow)"
  by (auto simp: stopMaterialization_def intro!: keeps good_mat)

lemma good_pins [keeps]:
  assumes "good z ow"
  shows "good z (releaseRestartPin ow)" "good z (acquireRestartPin ow)" "good z (cancelMaterialization ow)"
  using assms by (auto simp: releaseRestartPin_def acquireRestartPin_def cancelMaterialization_def Let_def
      intro!: keeps good_mat good_setAttempt split: option.split)

lemma good_AddSession [keeps]: "good z ow \<Longrightarrow> good z (AddSession now s ow)"
  by (auto simp: AddSession_def intro!: keeps good_routing_same)

lemma good_endSession [keeps]: "good z ow \<Longrightarrow> good z (endSession now p ow)"
  by (auto simp: endSession_def removeSession_def Let_def intro!: keeps good_routing_same split: option.split)

lemma good_clearTokens [keeps]: "good z ow \<Longrightarrow> good z (onRouting (clearProgressTokensForRequest key) ow)"
  by (auto intro!: good_routing_same)

lemma good_cancelled [keeps]: "good z ow \<Longrightarrow> good z (forwardCancelledNotification p msg ow)"
  by (auto simp: forwardCancelledNotification_def step_simps intro!: keeps split: option.split bool.split)

lemma good_downstreamNotification [keeps]: "good z ow \<Longrightarrow> good z (handleDownstreamNotification p msg ow)"
  by (auto simp: handleDownstreamNotification_def intro!: keeps)

lemma good_downstreamRequest [keeps]: "good z ow \<Longrightarrow> goodO z (handleDownstreamRequest now p msg ow)"
  by (auto simp: handleDownstreamRequest_def case_prod_beta intro!: keeps split: option.split)

lemma good_downstream [keeps]: "good z ow \<Longrightarrow> goodO z (handleDownstreamMessage now action p msg ow)"
  unfolding handleDownstreamMessage_def by (auto intro!: keeps split: option.split FrameAction.split MessageType.split)

lemma good_upstreamRequest [keeps]: "good z ow \<Longrightarrow> good z (handleUpstreamRequest msg ow)"
  by (auto simp: handleUpstreamRequest_def routeToLastActiveSession_def respondToPing_def respondToRootsList_def
      respondToElicitationCancel_def respondWithError_def Let_def intro!: keeps split: option.split)

lemma good_upstreamNotification [keeps]: "good z ow \<Longrightarrow> good z (handleUpstreamNotification now proc msg ow)"
  by (auto simp: handleUpstreamNotification_def stageMaterializationListChanged_def handleBusyNotification_def
      handleIdleNotification_def intro!: keeps split: step_splits)

lemma good_untag [keeps]: "good z ow \<Longrightarrow> good z (onRouting (\<lambda>r. r\<lparr>ro_methodTags := mdel (ro_methodTags r) key\<rparr>) ow)"
  by (auto intro!: good_routing counted_untag)

lemma good_claimResponse: "good z ow \<Longrightarrow> mget (ro_inflight (ow_ro ow)) key \<noteq> None \<Longrightarrow> good z (claimResponse key ow)"
  by (auto simp: claimResponse_def intro!: good_routing counted_claim)

lemma good_proactiveResponse:
  "good z ow \<Longrightarrow> isProactiveID (ow_proactiveNamespace ow) key \<Longrightarrow> good z (proactiveResponse proc key raw ow)"
  by (auto simp: proactiveResponse_def intro!: keeps good_routing counted_untag_proactive split: option.split)

lemma good_lateResponse [keeps]: "good z ow \<Longrightarrow> good z (lateResponse proc key raw ow)"
  by (auto simp: lateResponse_def Let_def intro!: keeps good_routing_same split: option.split)

lemma good_cacheTagged [keeps]: "good z ow \<Longrightarrow> good z (cacheTagged proc key raw ow)"
  by (auto simp: cacheTagged_def intro!: keeps split: option.split)

lemma good_deliver [keeps]: "good z ow \<Longrightarrow> goodO z (deliverResponse key raw ow)"
  by (auto simp: deliverResponse_def intro!: keeps split: option.split sum.split)

lemma good_upstreamResponse [keeps]: "good z ow \<Longrightarrow> goodO z (handleUpstreamResponse proc msg ow)"
  unfolding handleUpstreamResponse_def Let_def by (simp add: keeps good_claimResponse good_proactiveResponse)

lemma good_upstream [keeps]:
  "good z ow \<Longrightarrow> goodO z (handleUpstreamMessageFrom now proc msg ow)"
  unfolding handleUpstreamMessageFrom_def by (auto intro!: keeps split: MessageType.split)

lemma good_drainMaintenance [keeps]: "good z ow \<Longrightarrow> good z (DrainForMaintenance ow)"
  by (auto simp: DrainForMaintenance_def case_prod_beta intro!: keeps good_after [OF _ outside_fold] outside_sessionWrite
      split: option.split)

end
