(* ===== verification/Owner_Safety.thy ===== *)
theory Owner_Safety
  imports Owner_Inv
begin

text \<open>
  The process behind an owner over whole runs: at most one process of an owner is not proven gone, the
  count of pending requests covers what is in flight, and persistence and isolation are never lost.
\<close>

section \<open>Where an attempt may stand\<close>

fun phase_ok :: "attempt_phase \<Rightarrow> nat option \<Rightarrow> nat option \<Rightarrow> nat option \<Rightarrow> bool" where
  "phase_ok PhaseBegin pr up rt \<longleftrightarrow> rt = None \<or> rt = up"
| "phase_ok PhaseLoop pr up rt \<longleftrightarrow> up = None \<and> rt = None"
| "phase_ok PhaseRetry pr up rt \<longleftrightarrow> up = None \<and> rt = None"
| "phase_ok (PhaseRetire p e f) pr up rt \<longleftrightarrow> (up = Some p \<or> up = None) \<and> (rt = Some p \<or> rt = None)"
| "phase_ok PhaseInit pr up rt \<longleftrightarrow> (pr = None \<or> up = pr \<or> up = None) \<and> (rt = None \<or> rt = up)"
| "phase_ok PhaseDiscovery pr up rt \<longleftrightarrow> (pr = None \<or> up = pr \<or> up = None) \<and> (rt = None \<or> rt = up)"
| "phase_ok (PhaseForward ks) pr up rt \<longleftrightarrow> (pr = None \<or> up = pr \<or> up = None) \<and> (rt = None \<or> rt = up)"

text \<open>Every process that was started is the current one or among the processes \<open>R\<close>, which are proven gone.\<close>

definition kept :: "nat set \<Rightarrow> materialization \<Rightarrow> bool" where
  "kept R m \<longleftrightarrow> (\<forall>q<ma_nextProc m. ma_upstream m = Some q \<or> q \<in> R)"

definition proc_ok :: "nat set \<Rightarrow> owner \<Rightarrow> bool" where
  "proc_ok R ow \<longleftrightarrow>
     kept R (ow_ma ow) \<and>
     (ma_retiring (ow_ma ow) = None \<or> ma_upstream (ow_ma ow) = None \<or> ma_retiring (ow_ma ow) = ma_upstream (ow_ma ow)) \<and>
     (\<forall>ph pr. core ow = Some (ph, pr) \<longrightarrow> phase_ok ph pr (ma_upstream (ow_ma ow)) (ma_retiring (ow_ma ow)))"

lemma good_mat_facts:
  assumes "good ow ow'"
  shows "ma_upstream (ow_ma ow') = ma_upstream (ow_ma ow)" "ma_nextProc (ow_ma ow') = ma_nextProc (ow_ma ow)"
    "ma_retiring (ow_ma ow') = ma_retiring (ow_ma ow) \<or> ma_retiring (ow_ma ow') = ma_upstream (ow_ma ow)"
    "begins (ma_upstream (ow_ma ow)) (core ow) (core ow') (ma_retiring (ow_ma ow'))"
  using assms by (auto simp: good_def steady_def)

lemma kept_good: "kept R (ow_ma ow) \<Longrightarrow> good ow ow' \<Longrightarrow> kept R (ow_ma ow')"
  by (simp add: kept_def good_def steady_def)

lemma phase_ok_mark: "phase_ok ph pr up rt \<Longrightarrow> rt' = rt \<or> rt' = up \<Longrightarrow> phase_ok ph pr up rt'"
  by (cases ph) auto

lemma proc_ok_good:
  assumes "proc_ok R ow" "good ow ow'"
  shows "proc_ok R ow'"
proof -
  note f = good_mat_facts [OF assms(2)]
  have "phase_ok ph pr (ma_upstream (ow_ma ow)) (ma_retiring (ow_ma ow'))" if "core ow' = Some (ph, pr)" for ph pr
    using f(4) that assms(1) phase_ok_mark [OF _ f(3)] by (auto simp: begins_def proc_ok_def)
  then show ?thesis using assms(1) f(3) kept_good [OF _ assms(2)] by (auto simp: proc_ok_def f(1))
qed

lemma proc_ok_mono: "proc_ok R ow \<Longrightarrow> R \<subseteq> R' \<Longrightarrow> proc_ok R' ow"
  by (auto simp: proc_ok_def kept_def)

text \<open>
  A step that starts no process, and a step that may start one: then there was none, and the new one
  becomes the current one.
\<close>

definition stays :: "nat set \<Rightarrow> owner \<Rightarrow> owner \<Rightarrow> bool" where
  "stays R ow ow' \<longleftrightarrow>
     sticky ow ow' \<and> proc_ok R ow' \<and> ma_nextProc (ow_ma ow') = ma_nextProc (ow_ma ow) \<and>
     (ma_upstream (ow_ma ow') = ma_upstream (ow_ma ow) \<or> ma_upstream (ow_ma ow') = None)"

definition moved :: "nat set \<Rightarrow> owner \<Rightarrow> owner \<Rightarrow> bool" where
  "moved R ow ow' \<longleftrightarrow>
     stays R ow ow' \<or>
     sticky ow ow' \<and> proc_ok R ow' \<and> ma_upstream (ow_ma ow) = None \<and> ow_maintenance ow = None \<and> core ow \<noteq> None \<and>
     ma_nextProc (ow_ma ow') = Suc (ma_nextProc (ow_ma ow)) \<and> ma_upstream (ow_ma ow') = Some (ma_nextProc (ow_ma ow))"

lemma stays_good:
  assumes "proc_ok R ow" "good ow ow'"
  shows "stays R ow ow'"
  unfolding stays_def using good_sticky [OF assms(2)] proc_ok_good [OF assms] good_mat_facts(1,2) [OF assms(2)] by blast

lemma stays_trans: "stays R ow ow1 \<Longrightarrow> stays R' ow1 ow2 \<Longrightarrow> stays R' ow ow2"
  unfolding stays_def by (metis sticky_trans)

lemma stays_then: "stays R ow ow1 \<Longrightarrow> good ow1 ow2 \<Longrightarrow> stays R ow ow2"
  by (rule stays_trans, assumption, rule stays_good) (simp_all add: stays_def)

lemma core_setPhase: "core (setPhase ph ow) = map_option (\<lambda>(_, pr). (ph, pr)) (core ow)"
  by (cases "ma_attempt (ow_ma ow)") (simp_all add: setPhase_def setAttempt_def acore_def on_defs)

lemma setPhase_frame [simp]:
  "ma_upstream (ow_ma (setPhase ph ow)) = ma_upstream (ow_ma ow)" "ma_retiring (ow_ma (setPhase ph ow)) = ma_retiring (ow_ma ow)"
  "ma_nextProc (ow_ma (setPhase ph ow)) = ma_nextProc (ow_ma ow)"
  "kept R (ow_ma (setPhase ph ow)) \<longleftrightarrow> kept R (ow_ma ow)"
  by (simp_all add: setPhase_def setAttempt_def kept_def on_defs)

lemma sticky_onMat: "sticky z ow \<Longrightarrow> ma_policy (f (ow_ma ow)) = ma_policy (ow_ma ow) \<Longrightarrow>
    halting (ow_ma ow) (f (ow_ma ow)) \<Longrightarrow> sticky z (onMat f ow)"
  by (auto intro: halting_trans simp: sticky_def persistent_def isolated_def ocounted_def on_defs)

lemma halting_setPhase [simp]: "halting m (ow_ma (setPhase ph ow)) \<longleftrightarrow> halting m (ow_ma ow)"
  by (simp add: setPhase_def setAttempt_def halting_def on_defs option.map_comp comp_def)

lemma sticky_setPhase [simp]: "sticky z (setPhase ph ow) \<longleftrightarrow> sticky z ow"
  by (simp add: sticky_def) (simp add: setPhase_def setAttempt_def persistent_def isolated_def ocounted_def on_defs)

text \<open>Actions that keep the generation, followed by a change of the phase.\<close>

lemma stays_phase:
  assumes "proc_ok R ow" "sticky ow ow1" "ma_upstream (ow_ma ow1) = ma_upstream (ow_ma ow)" "ma_nextProc (ow_ma ow1) = ma_nextProc (ow_ma ow)"
    "ma_retiring (ow_ma ow1) = None \<or> ma_upstream (ow_ma ow) = None \<or> ma_retiring (ow_ma ow1) = ma_upstream (ow_ma ow)"
    "\<And>ph1 pr. core ow1 = Some (ph1, pr) \<Longrightarrow> phase_ok ph pr (ma_upstream (ow_ma ow)) (ma_retiring (ow_ma ow1))"
  shows "stays R ow (setPhase ph ow1)"
  using assms by (auto simp: stays_def proc_ok_def kept_def core_setPhase)

lemma stays_setPhase:
  assumes "proc_ok R ow" "core ow = Some (ph0, pr0)" "good ow ow1"
    "\<And>pr rt. pr = pr0 \<or> pr = None \<Longrightarrow> rt = ma_retiring (ow_ma ow) \<or> rt = ma_upstream (ow_ma ow) \<Longrightarrow> phase_ok ph pr (ma_upstream (ow_ma ow)) rt"
  shows "stays R ow (setPhase ph ow1)"
proof (rule stays_phase [OF assms(1) good_sticky [OF assms(3)]])
  note f = good_mat_facts [OF assms(3)]
  show "ma_upstream (ow_ma ow1) = ma_upstream (ow_ma ow)" "ma_nextProc (ow_ma ow1) = ma_nextProc (ow_ma ow)" by (fact f)+
  show "ma_retiring (ow_ma ow1) = None \<or> ma_upstream (ow_ma ow) = None \<or> ma_retiring (ow_ma ow1) = ma_upstream (ow_ma ow)"
    using f(3) assms(1) by (auto simp: proc_ok_def)
  show "phase_ok ph pr (ma_upstream (ow_ma ow)) (ma_retiring (ow_ma ow1))" if "core ow1 = Some (ph1, pr)" for ph1 pr
    using that f(3,4) assms(2,4) by (auto simp: begins_def)
qed

section \<open>The steps of an attempt\<close>

lemma stays_beginRetire:
  assumes "proc_ok R ow" "good ow ow1" "ma_upstream (ow_ma ow) = Some p \<or> ma_upstream (ow_ma ow) = None"
  shows "stays R ow (beginRetire p e final ow1)"
proof -
  let ?ow = "onMat (\<lambda>m. m\<lparr>ma_state := MaterializationFinalizing, ma_retiring := Some p\<rparr>) ow1"
  have "sticky ow ?ow" using good_sticky [OF assms(2)] by (rule sticky_onMat) simp_all
  then show ?thesis unfolding beginRetire_def
    by (rule stays_phase [OF assms(1)]) (use assms(3) good_mat_facts [OF assms(2)] in \<open>auto simp: on_defs\<close>)
qed

lemma stays_afterFailure:
  assumes "proc_ok R ow" "core ow = Some (ph0, pr0)" "good ow ow1" "ma_upstream (ow_ma ow) = None" "ma_retiring (ow_ma ow) = None"
  shows "stays R ow (afterFailure e terminal ow1)"
proof (cases "ma_attempt (ow_ma ow1)")
  case None
  then show ?thesis using assms by (auto simp: afterFailure_def intro: stays_good)
next
  case (Some a)
  have good: "good ow (setAttempt (\<lambda>a. a\<lparr>at_launchFrozen := False\<rparr>) ow1)" using assms(3) by (auto intro: good_setAttempt)
  have "stays R ow (setPhase PhaseRetry (setAttempt (\<lambda>a. a\<lparr>at_launchFrozen := False\<rparr>) ow1))"
    by (rule stays_setPhase [OF assms(1,2) good]) (use assms(4,5) in auto)
  moreover have "stays R ow (finishMaterializationFailure e (setAttempt (\<lambda>a. a\<lparr>at_launchFrozen := False\<rparr>) ow1))"
    using assms good by (auto intro: stays_good keeps)
  ultimately show ?thesis using Some by (simp add: afterFailure_def Let_def)
qed

lemma stays_attemptBegin:
  assumes "proc_ok R ow" "core ow = Some (PhaseBegin, pr0)"
  shows "stays R ow (attemptBegin ow)"
proof (cases "ma_upstream (ow_ma ow)")
  case None
  then have "stays R ow (setPhase PhaseLoop ow)" using assms by (intro stays_setPhase) (auto simp: proc_ok_def)
  then show ?thesis using None by (simp add: attemptBegin_def)
next
  case (Some p)
  then show ?thesis using stays_beginRetire [OF assms(1) good_refl, of p] by (auto simp: attemptBegin_def intro: stays_good assms(1))
qed

lemma good_freeze [keeps]: "good z ow \<Longrightarrow> good z (freezeLaunch ow)"
  by (auto simp: freezeLaunch_def intro!: good_setAttempt)

lemma good_tag [keeps]: "good z ow \<Longrightarrow> good z (tagProactive k m ow)"
  by (auto simp: tagProactive_def intro!: good_routing counted_tag)

lemma good_sendToolsList [keeps]: "good z ow \<Longrightarrow> good z (sendToolsList p a ow)"
  by (auto simp: sendToolsList_def step_simps intro!: keeps split: bool.split)

text \<open>Installing a process when there is none.\<close>

definition installed :: "owner \<Rightarrow> owner" where
  "installed ow = installMaterializationProcess (ma_nextProc (ow_ma ow)) (onMat (\<lambda>m. m\<lparr>ma_nextProc := Suc (ma_nextProc m)\<rparr>) ow)"

lemma installed_facts:
  "ma_upstream (ow_ma (installed ow)) = Some (ma_nextProc (ow_ma ow))" "ma_nextProc (ow_ma (installed ow)) = Suc (ma_nextProc (ow_ma ow))"
  "core (installed ow) = map_option (\<lambda>(ph, _). (ph, Some (ma_nextProc (ow_ma ow)))) (core ow)" "sticky ow (installed ow)"
  "ma_retiring (ow_ma (installed ow)) = ma_retiring (ow_ma ow)"
  by (cases "ma_attempt (ow_ma ow)";
      simp add: installed_def installMaterializationProcess_def setAttempt_def acore_def sticky_def persistent_def isolated_def
        ocounted_def halting_def on_defs)+

lemma moved_installed:
  assumes "proc_ok R ow" "core ow = Some (PhaseLoop, pr0)" "ow_maintenance ow = None" "good ow ow1" "core ow1 = core ow"
    "good (installed ow1) ow2"
    "\<And>pr rt. pr = Some (ma_nextProc (ow_ma ow)) \<or> pr = None \<Longrightarrow> rt = Some (ma_nextProc (ow_ma ow)) \<or> rt = None \<Longrightarrow>
       phase_ok ph pr (Some (ma_nextProc (ow_ma ow))) rt"
  shows "moved R ow (setPhase ph ow2)"
proof -
  note f = good_mat_facts [OF assms(4)] and g = good_mat_facts [OF assms(6)]
  have up: "ma_upstream (ow_ma ow) = None" "ma_retiring (ow_ma ow) = None" using assms(1,2) by (auto simp: proc_ok_def)
  have same: "ma_upstream (ow_ma ow1) = None" "ma_nextProc (ow_ma ow1) = ma_nextProc (ow_ma ow)" "ma_retiring (ow_ma ow1) = None"
    using up f by simp_all
  have two: "ma_upstream (ow_ma ow2) = Some (ma_nextProc (ow_ma ow))" "ma_nextProc (ow_ma ow2) = Suc (ma_nextProc (ow_ma ow))"
    "ma_retiring (ow_ma ow2) = Some (ma_nextProc (ow_ma ow)) \<or> ma_retiring (ow_ma ow2) = None"
    using g same by (auto simp: installed_facts)
  have "sticky ow ow2"
    using good_sticky [OF assms(4)] installed_facts(4) [of ow1] good_sticky [OF assms(6)] by (blast intro: sticky_trans)
  moreover have "kept R (ow_ma ow2)" using assms(1) up two by (auto simp: proc_ok_def kept_def less_Suc_eq)
  moreover have "pr = Some (ma_nextProc (ow_ma ow)) \<or> pr = None" if "core (setPhase ph ow2) = Some (ph1, pr)" for ph1 pr
    using that assms(2,5) g(4) same by (auto simp: core_setPhase begins_def installed_facts)
  moreover have "ph1 = ph" if "core (setPhase ph ow2) = Some (ph1, pr)" for ph1 pr
    using that by (auto simp: core_setPhase)
  ultimately show ?thesis using up two assms(2,3,7) by (auto simp: moved_def proc_ok_def)
qed

lemma moved_sendInitialize:
  assumes "proc_ok R ow" "core ow = Some (PhaseLoop, pr0)" "ow_maintenance ow = None" "good ow ow1" "core ow1 = core ow"
  shows "moved R ow (sendInitialize p a (installed ow1))"
  unfolding sendInitialize_def step_simps
  by (auto intro!: moved_installed [OF assms] keeps split: bool.split)

lemma moved_retireStarted:
  assumes "proc_ok R ow" "core ow = Some (PhaseLoop, pr0)" "ow_maintenance ow = None" "good ow ow1" "core ow1 = core ow"
  shows "moved R ow (beginRetire (ma_nextProc (ow_ma ow)) e final (installed ow1))"
proof -
  have "good (installed ow1) (onMat (\<lambda>m. m\<lparr>ma_state := MaterializationFinalizing, ma_retiring := Some (ma_nextProc (ow_ma ow))\<rparr>)
      (installed ow1))"
    using good_mat_facts(2) [OF assms(4)] by (intro good_mat) (auto simp: installed_facts)
  then show ?thesis unfolding beginRetire_def by (rule moved_installed [OF assms]) auto
qed

lemma startAdmitted_cases:
  assumes "startAdmittedMaterialization started err ow = (ow1, pr, e)" "core ow = Some (ph, pr0)"
  obtains "pr = None" "good ow ow1"
  | ow0 where "ow_maintenance ow = None" "pr = Some (ma_nextProc (ow_ma ow))" "ow1 = installed ow0" "good ow ow0" "core ow0 = core ow"
proof (cases "ow_maintenance ow = None \<and> started")
  case True
  have good: "good ow (freezeLaunch ow)" by (auto intro: keeps)
  moreover have "core (freezeLaunch ow) = core ow" using assms(2)
    by (auto simp: freezeLaunch_def setAttempt_def acore_def on_defs split: option.split)
  moreover have "ma_nextProc (ow_ma (freezeLaunch ow)) = ma_nextProc (ow_ma ow)" using good by (rule good_mat_facts)
  ultimately show ?thesis using that(2) [of "freezeLaunch ow"] True assms(1)
    by (auto simp: startAdmittedMaterialization_def Let_def installed_def)
next
  case False
  then show ?thesis using that(1) assms(1)
    by (auto simp: startAdmittedMaterialization_def Let_def intro: keeps split: if_splits)
qed

lemma moved_attemptLoop:
  assumes "proc_ok R ow" "core ow = Some (PhaseLoop, pr0)"
  shows "moved R ow (attemptLoop started err a ow)"
proof -
  have up: "ma_upstream (ow_ma ow) = None" "ma_retiring (ow_ma ow) = None" using assms by (simp_all add: proc_ok_def)
  obtain ow1 pr e where res: "startAdmittedMaterialization started err ow = (ow1, pr, e)" by (metis prod_cases3)
  have finish: "moved R ow (finishMaterializationFailure x ow)" for x
    using assms(1) by (auto simp: moved_def intro: stays_good keeps)
  from res assms(2) show ?thesis
  proof (cases rule: startAdmitted_cases)
    case 1
    then have "moved R ow (finishMaterializationFailure x ow1)" "moved R ow (afterFailure x b ow1)" for x b
      using assms up by (auto simp: moved_def intro: stays_good keeps stays_afterFailure)
    then show ?thesis using 1 finish by (cases e) (simp_all add: attemptLoop_def res)
  next
    case (2 ow0)
    then have "moved R ow (beginRetire (ma_nextProc (ow_ma ow)) x b ow1)" "moved R ow (sendInitialize (ma_nextProc (ow_ma ow)) a ow1)" for x b
      using assms moved_retireStarted moved_sendInitialize by auto
    then show ?thesis using 2 finish by (cases e) (simp_all add: attemptLoop_def res)
  qed
qed

lemma stays_failHandshake:
  assumes "proc_ok R ow" "core ow = Some (PhaseInit, pr0)"
  shows "stays R ow (failHandshake e ow)"
  unfolding failHandshake_def using assms by (intro stays_setPhase) (auto simp: proc_ok_def intro!: keeps)

lemma stays_attemptInit:
  assumes "proc_ok R ow" "core ow = Some (PhaseInit, pr0)"
  shows "stays R ow (attemptInit c p a ow)"
proof -
  have "stays R ow (setPhase PhaseDiscovery ow')" if "good ow ow'" for ow'
    using assms that by (intro stays_setPhase) (auto simp: proc_ok_def)
  from this [of ow] this [of "sendToolsList p a ow"]
  have "stays R ow (setPhase PhaseDiscovery ow)" "stays R ow (setPhase PhaseDiscovery (sendToolsList p a ow))"
    by (auto intro: keeps)
  moreover have "stays R ow ow" using assms(1) by (auto intro: stays_good)
  ultimately show ?thesis using stays_failHandshake [OF assms]
    by (auto simp: attemptInit_def split: wait_case.split option.split bool.split)
qed

lemma stays_attemptDiscovery:
  assumes "proc_ok R ow" "core ow = Some (PhaseDiscovery, Some p)"
  shows "stays R ow (attemptDiscovery c p a ow)"
proof -
  have up: "ma_upstream (ow_ma ow) = Some p \<or> ma_upstream (ow_ma ow) = None" using assms by (auto simp: proc_ok_def)
  then have "stays R ow (beginRetire p e b ow)" for e b using assms by (intro stays_beginRetire) auto
  moreover have "stays R ow (setPhase (PhaseForward []) ow)" using assms up by (intro stays_setPhase) (auto simp: proc_ok_def)
  moreover have "stays R ow ow" using assms(1) by (auto intro: stays_good)
  ultimately show ?thesis by (auto simp: attemptDiscovery_def split: wait_case.split option.split)
qed

lemma stays_attemptRetry:
  assumes "proc_ok R ow" "core ow = Some (PhaseRetry, pr0)"
  shows "stays R ow (attemptRetry c a ow)"
proof -
  let ?ow = "setAttempt (\<lambda>a. a\<lparr>at_wait := nextMaterializationRetry (at_wait a)\<rparr>)
    (onMat (\<lambda>m. m\<lparr>ma_state := MaterializationMaterializing\<rparr>) ow)"
  have "good ow ?ow" by (auto intro!: good_setAttempt good_mat)
  then have "stays R ow (setPhase PhaseLoop ?ow)" using assms by (intro stays_setPhase) (auto simp: proc_ok_def)
  moreover have "setPhase PhaseLoop ?ow = setAttempt (\<lambda>a. a\<lparr>at_wait := nextMaterializationRetry (at_wait a), at_phase := PhaseLoop\<rparr>)
      (onMat (\<lambda>m. m\<lparr>ma_state := MaterializationMaterializing\<rparr>) ow)"
    by (simp add: setPhase_def setAttempt_def on_defs map_option.compositionality comp_def)
  moreover have "stays R ow (finishMaterializationFailure e ow)" for e using assms(1) by (auto intro: stays_good keeps)
  moreover have "stays R ow ow" using assms(1) by (auto intro: stays_good)
  ultimately show ?thesis by (auto simp: attemptRetry_def split: wait_case.split)
qed

lemma stays_takeDemands:
  assumes "proc_ok R ow" "core ow = Some (PhaseForward ks, pr0)"
  shows "stays R ow (takeDemands a ow)"
proof -
  let ?ow = "onMat (\<lambda>m. m\<lparr>ma_order := []\<rparr>) ow"
  have good: "good ow ?ow" by (auto intro!: good_mat)
  then have "good ow (becomeReady a ?ow)" by (auto simp: becomeReady_def intro!: good_mat)
  moreover have "good ow (lostAuthority a ?ow)" using good by (auto simp: lostAuthority_def Let_def intro!: keeps split: option.split)
  moreover have "stays R ow (setPhase (PhaseForward x) ?ow)" for x
    using assms good by (intro stays_setPhase) (auto simp: proc_ok_def)
  ultimately show ?thesis using assms(1) by (auto simp: takeDemands_def Let_def intro: stays_good)
qed

lemma stays_forwardNext:
  assumes "proc_ok R ow" "core ow = Some (PhaseForward ks, pr0)" "forwardNext now key keys a ow = Some ow'"
  shows "stays R ow ow'"
proof -
  obtain ow1 where ow1: "forwardQueuedDemand now key (at_generation a) (at_launch a) ow = Some ow1"
    "ow' = setPhase (PhaseForward keys) ow1"
    using assms(3) by (auto simp: forwardNext_def)
  then have "good ow ow1" using good_forwardQueued [OF good_refl] by (metis goodO_simps(2))
  then show ?thesis unfolding ow1(2) using assms(1,2) by (intro stays_setPhase) (auto simp: proc_ok_def)
qed

text \<open>A process whose retirement is proven is forgotten.\<close>

lemma phase_ok_forget:
  "phase_ok ph pr up rt \<Longrightarrow> phase_ok ph pr (if up = Some p then None else up) (if rt = Some p then None else rt)"
  by (cases ph) auto

lemma stays_forget:
  assumes "proc_ok R ow" "ma_policy (f (ow_ma ow)) = ma_policy (ow_ma ow)" "ma_nextProc (f (ow_ma ow)) = ma_nextProc (ow_ma ow)"
    "ma_attempt (f (ow_ma ow)) = ma_attempt (ow_ma ow)" "ma_upstream (f (ow_ma ow)) = ma_upstream (forgetProcess p (ow_ma ow))"
    "ma_retiring (f (ow_ma ow)) = ma_retiring (forgetProcess p (ow_ma ow))" "ma_stop (f (ow_ma ow)) = ma_stop (ow_ma ow)"
  shows "stays (insert p R) ow (onMat f ow)"
proof -
  have up: "ma_upstream (f (ow_ma ow)) = (if ma_upstream (ow_ma ow) = Some p then None else ma_upstream (ow_ma ow))"
    and rt: "ma_retiring (f (ow_ma ow)) = (if ma_retiring (ow_ma ow) = Some p then None else ma_retiring (ow_ma ow))"
    using assms(5,6) by (simp_all add: forgetProcess_def)
  have "proc_ok (insert p R) (onMat f ow)"
    unfolding proc_ok_def onMat_def
  proof (intro conjI allI impI)
    show "kept (insert p R) (ow_ma (ow\<lparr>ow_ma := f (ow_ma ow)\<rparr>))"
      using assms(1,3) by (auto simp: proc_ok_def kept_def up)
    show "ma_retiring (ow_ma (ow\<lparr>ow_ma := f (ow_ma ow)\<rparr>)) = None \<or> ma_upstream (ow_ma (ow\<lparr>ow_ma := f (ow_ma ow)\<rparr>)) = None \<or>
        ma_retiring (ow_ma (ow\<lparr>ow_ma := f (ow_ma ow)\<rparr>)) = ma_upstream (ow_ma (ow\<lparr>ow_ma := f (ow_ma ow)\<rparr>))"
      using assms(1) by (auto simp: proc_ok_def up rt)
    show "phase_ok ph pr (ma_upstream (ow_ma (ow\<lparr>ow_ma := f (ow_ma ow)\<rparr>))) (ma_retiring (ow_ma (ow\<lparr>ow_ma := f (ow_ma ow)\<rparr>)))"
      if "core (ow\<lparr>ow_ma := f (ow_ma ow)\<rparr>) = Some (ph, pr)" for ph pr
      using that assms(1,4) phase_ok_forget by (simp add: proc_ok_def up rt)
  qed
  then show ?thesis using assms(2,3,4,7) by (auto simp: stays_def on_defs up intro!: sticky_onMat [unfolded on_defs])
qed

lemma stays_endRetire_proven:
  assumes "proc_ok R ow" "core ow = Some (PhaseRetire p e final, pr0)"
  shows "stays (insert p R) ow (endRetire p e final None closeErr ow)"
proof -
  let ?f = "\<lambda>m. let m1 = forgetProcess p m in m1\<lparr>ma_state := (if ma_state m1 = MaterializationFinalizing then MaterializationMaterializing
      else ma_state m1)\<rparr>"
  let ?ow = "onMat ?f ow" and ?R = "insert p R"
  have first: "stays ?R ow ?ow" using assms(1) by (intro stays_forget) (simp_all add: forgetProcess_def Let_def)
  then have ok: "proc_ok ?R ?ow" by (simp add: stays_def)
  have up: "ma_upstream (ow_ma ?ow) = None" "ma_retiring (ow_ma ?ow) = None"
    using assms by (auto simp: proc_ok_def forgetProcess_def Let_def on_defs)
  have core: "core ?ow = Some (PhaseRetire p e final, pr0)" using assms(2) by (simp add: forgetProcess_def Let_def on_defs)
  have good: "good ?ow (clearProactiveTracking ?ow)" by (auto intro: keeps)
  have "stays ?R ?ow (setPhase PhaseLoop (clearProactiveTracking ?ow))" using ok core good up by (intro stays_setPhase) auto
  moreover have "stays ?R ?ow (finishMaterializationFailure x (clearProactiveTracking ?ow))" for x
    using ok good by (auto intro: stays_good keeps)
  moreover have "stays ?R ?ow (afterFailure x b (clearProactiveTracking ?ow))" for x b
    using ok core good up by (intro stays_afterFailure) auto
  moreover obtain a where "ma_attempt (ow_ma ow) = Some a" using assms(2) by (auto simp: acore_def)
  ultimately show ?thesis using first
    by (auto simp: endRetire_def Let_def intro: stays_trans split: option.split)
qed

lemma stays_endRetire_blocked:
  assumes "proc_ok R ow"
  shows "stays R ow (endRetire p e final (Some f) closeErr ow)"
  using assms by (auto simp: endRetire_def Let_def intro!: stays_good keeps good_mat split: option.split)

text \<open>The processes that an event proves gone.\<close>

fun provenBy :: "owner \<Rightarrow> owner_event \<Rightarrow> nat set" where
  "provenBy ow (EvCompletion i True closeErr) =
     (if i < length (ma_completing (ow_ma ow)) then {co_process (ma_completing (ow_ma ow) ! i)} else {})"
| "provenBy ow (EvAttempt (Retired None closeErr)) =
     (case ma_attempt (ow_ma ow) of
        None \<Rightarrow> {}
      | Some a \<Rightarrow> (case at_phase a of PhaseRetire p _ _ \<Rightarrow> {p} | _ \<Rightarrow> {}))"
| "provenBy ow _ = {}"

lemma moved_stays: "stays R ow ow' \<Longrightarrow> moved R ow ow'"
  by (simp add: moved_def)

lemma moved_mono: "moved R ow ow' \<Longrightarrow> R \<subseteq> R' \<Longrightarrow> moved R' ow ow'"
  using proc_ok_mono [of R ow' R'] by (auto simp: moved_def stays_def)

lemma moved_unproven:
  assumes "proc_ok R ow" "attemptStep now ev ow = Some ow'" "ma_attempt (ow_ma ow) = Some a"
    "\<And>p e f c. at_phase a = PhaseRetire p e f \<Longrightarrow> ev \<noteq> Retired None c"
  shows "moved R ow ow'"
proof -
  have core: "core ow = Some (at_phase a, at_process a)" using assms(3) by (simp add: acore_def)
  have same: "moved R ow ow" using assms(1) by (auto intro: stays_good moved_stays)
  have step: "attemptStep now ev ow = (case at_phase a of
             PhaseBegin \<Rightarrow> Some (if ev = Proceed then attemptBegin ow else ow)
           | PhaseLoop \<Rightarrow> Some (case ev of StartResult started err \<Rightarrow> attemptLoop started err a ow | _ \<Rightarrow> ow)
           | PhaseInit \<Rightarrow> Some (case (ev, at_process a) of (Chosen c, Some proc) \<Rightarrow> attemptInit c proc a ow | _ \<Rightarrow> ow)
           | PhaseDiscovery \<Rightarrow> Some (case (ev, at_process a) of (Chosen c, Some proc) \<Rightarrow> attemptDiscovery c proc a ow | _ \<Rightarrow> ow)
           | PhaseRetire proc err final \<Rightarrow>
               Some (case ev of Retired finalizationErr closeErr \<Rightarrow> endRetire proc err final finalizationErr closeErr ow | _ \<Rightarrow> ow)
           | PhaseRetry \<Rightarrow> Some (case ev of Chosen c \<Rightarrow> attemptRetry c a ow | _ \<Rightarrow> ow)
           | PhaseForward keys \<Rightarrow>
               (if ev \<noteq> Proceed then Some ow
                else case keys of [] \<Rightarrow> Some (takeDemands a ow) | key # rest \<Rightarrow> forwardNext now key rest a ow))"
    using assms(3) by (simp add: attemptStep_def)
  show ?thesis
  proof (cases "at_phase a")
    case (PhaseRetire p e final)
    then have "ow' = ow \<or> (\<exists>f c. ow' = endRetire p e final (Some f) c ow)"
      using assms(2,4) unfolding step by (auto split: attempt_event.splits)
    then show ?thesis using same assms(1) by (auto intro: stays_endRetire_blocked moved_stays)
  next
    case (PhaseForward ks)
    then have "ow' = ow \<or> ow' = takeDemands a ow \<or> (\<exists>key rest. forwardNext now key rest a ow = Some ow')"
      using assms(2) unfolding step by (auto split: if_splits list.splits)
    then show ?thesis using same assms(1) core PhaseForward by (auto intro: stays_takeDemands stays_forwardNext moved_stays)
  next
    case PhaseDiscovery
    then show ?thesis using assms(1,2) core same unfolding step
      by (auto intro: stays_attemptDiscovery moved_stays split: attempt_event.splits option.splits)
  next
    case PhaseLoop
    then show ?thesis using assms(1,2) core same unfolding step
      by (auto intro: moved_attemptLoop split: attempt_event.splits)
  qed (use assms(1,2) core same in \<open>unfold step,
      auto intro: stays_attemptBegin stays_attemptInit stays_attemptRetry moved_stays split: attempt_event.splits option.splits if_splits\<close>)
qed

lemma moved_attemptStep:
  assumes "proc_ok R ow" "attemptStep now ev ow = Some ow'"
  shows "moved (R \<union> provenBy ow (EvAttempt ev)) ow ow'"
proof (cases "ma_attempt (ow_ma ow)")
  case None
  then have "ow' = ow" using assms(2) by (simp add: attemptStep_def)
  moreover have "moved R ow ow" using assms(1) by (auto intro: moved_stays stays_good)
  ultimately show ?thesis by (auto intro: moved_mono)
next
  case (Some a)
  show ?thesis
  proof (cases "\<exists>p e f c. at_phase a = PhaseRetire p e f \<and> ev = Retired None c")
    case True
    then obtain p e f c where *: "at_phase a = PhaseRetire p e f" "ev = Retired None c" by blast
    then have "ow' = endRetire p e f None c ow" using assms(2) Some by (simp add: attemptStep_def)
    then show ?thesis using stays_endRetire_proven [of R ow p e f "at_process a" c] assms(1) Some *
      by (simp add: acore_def moved_stays)
  next
    case False
    then show ?thesis using moved_unproven [OF assms Some] by (auto intro: moved_mono)
  qed
qed

section \<open>Every event\<close>

lemma good_complete_unproven: "good z ow \<Longrightarrow> good z (fst (completeRetiringProcess p t False e ow))"
  by (auto simp: completeRetiringProcess_def case_prod_beta intro!: keeps good_mat)

lemma stays_complete:
  assumes "proc_ok R ow"
  shows "stays (insert p R) ow (fst (completeRetiringProcess p t True e ow))"
proof (cases "ma_retiring (ow_ma ow) = Some p")
  case False
  then show ?thesis using proc_ok_mono [OF assms, of "insert p R"] by (auto simp: completeRetiringProcess_def intro!: stays_good)
next
  case True
  define ow1 where "ow1 = onMat (\<lambda>m. (forgetProcess p m)\<lparr>ma_blockedErr := None\<rparr>) ow"
  have "stays (insert p R) ow ow1" unfolding ow1_def using assms by (intro stays_forget) (simp_all add: forgetProcess_def)
  moreover have "good ow1 (fst (completeRetiringProcess p t True e ow))"
    unfolding completeRetiringProcess_def Let_def ow1_def [symmetric] using True by (auto intro!: keeps good_mat)
  ultimately show ?thesis by (rule stays_then)
qed

lemma stays_completionStep:
  assumes "proc_ok R ow"
  shows "stays (R \<union> provenBy ow (EvCompletion i proven e)) ow (completionStep i proven e ow)"
proof (cases "i < length (ma_completing (ow_ma ow))")
  case False
  then show ?thesis using assms by (cases proven) (auto simp: completionStep_def intro: stays_good)
next
  case True
  let ?c = "ma_completing (ow_ma ow) ! i"
  let ?ow = "onMat (\<lambda>m. m\<lparr>ma_completing := take i (ma_completing m) @ drop (Suc i) (ma_completing m)\<rparr>) ow"
  let ?r = "completeRetiringProcess (co_process ?c) (co_trigger ?c) proven e ?ow"
  have rest: "good z (completionStep i proven e ow)" if "good z (fst ?r)" for z
    using that True unfolding completionStep_def Let_def case_prod_beta by (auto intro!: keeps good_mat split: bool.split)
  have "stays R ow ?ow" using assms by (auto intro!: stays_good good_mat)
  then have ok: "proc_ok R ?ow" by (simp add: stays_def)
  have "stays (R \<union> provenBy ow (EvCompletion i proven e)) ?ow (fst ?r)"
    using stays_complete [OF ok] good_complete_unproven [OF good_refl, of ?ow] ok True by (cases proven) (auto intro: stays_good)
  moreover have "good (fst ?r) (completionStep i proven e ow)" using rest [of "fst ?r"] by simp
  ultimately show ?thesis using \<open>stays R ow ?ow\<close> by (blast intro: stays_trans stays_then)
qed

lemma good_event:
  assumes "owner_step now ow ev = Some ow'" "\<And>e. ev \<noteq> EvAttempt e" "\<And>i p e. ev \<noteq> EvCompletion i p e" "\<And>m. ev \<noteq> EvSetMaintenance m"
  shows "good ow ow'"
proof -
  have from_goodO: "good ow ow'" if "goodO ow r" "r = Some ow'" for r using that by simp
  show ?thesis using assms
    by (cases ev) (auto intro: keeps from_goodO [OF good_downstream] from_goodO [OF good_upstream] split: if_splits)
qed

text \<open>Only the daemon changes a maintenance hold; every other event leaves it alone.\<close>

lemma owner_step_moved:
  assumes "proc_ok R ow" "owner_step now ow ev = Some ow'"
  shows "moved (R \<union> provenBy ow ev) ow ow' \<or> (\<exists>m h. ev = EvSetMaintenance m \<and> ow' = ow\<lparr>ow_maintenance := h\<rparr>)"
proof -
  consider (attempt) e where "ev = EvAttempt e" | (completion) i p e where "ev = EvCompletion i p e" | (hold) m where "ev = EvSetMaintenance m"
    | (other) "\<And>e. ev \<noteq> EvAttempt e" "\<And>i p e. ev \<noteq> EvCompletion i p e" "\<And>m. ev \<noteq> EvSetMaintenance m" by (cases ev) auto
  then show ?thesis
  proof cases
    case attempt
    then show ?thesis using assms moved_attemptStep by simp
  next
    case completion
    then show ?thesis using assms stays_completionStep [OF assms(1)] by (auto intro: moved_stays)
  next
    case hold
    then show ?thesis using assms(2) by (auto simp: SetMaintenance_def)
  next
    case other
    then have "moved R ow ow'" using good_event assms by (blast intro: moved_stays stays_good)
    then show ?thesis by (auto intro: moved_mono)
  qed
qed

lemma owner_step_maintenance:
  assumes "proc_ok R ow" "owner_step now ow ev = Some ow'" "\<And>m. ev \<noteq> EvSetMaintenance m"
  shows "ow_maintenance ow' = ow_maintenance ow"
  using owner_step_moved [OF assms(1,2)] assms(3) by (auto simp: moved_def stays_def sticky_def)

lemma proc_ok_hold [simp]: "proc_ok R (ow\<lparr>ow_maintenance := h\<rparr>) = proc_ok R ow"
  by (simp add: proc_ok_def)

lemma ocounted_hold [simp]: "ocounted (ow\<lparr>ow_maintenance := h\<rparr>) = ocounted ow"
  by (simp add: ocounted_def)

definition lasting :: "owner \<Rightarrow> owner \<Rightarrow> bool" where
  "lasting ow ow' \<longleftrightarrow>
     (persistent ow \<longrightarrow> persistent ow') \<and> (isolated ow \<longrightarrow> isolated ow') \<and> (ocounted ow \<longrightarrow> ocounted ow')"

lemma owner_step_ok:
  assumes "proc_ok R ow" "owner_step now ow ev = Some ow'"
  shows "proc_ok (R \<union> provenBy ow ev) ow' \<and> lasting ow ow'"
  using owner_step_moved [OF assms] assms(1) proc_ok_mono [OF assms(1), of "R \<union> provenBy ow ev"]
  by (auto simp: moved_def stays_def sticky_def lasting_def persistent_def isolated_def)

section \<open>Runs\<close>

fun provenRun :: "owner \<Rightarrow> (time \<times> owner_event) list \<Rightarrow> nat set" where
  "provenRun ow [] = {}"
| "provenRun ow ((now, ev) # evs) =
     provenBy ow ev \<union> (case owner_step now ow ev of None \<Rightarrow> {} | Some ow' \<Rightarrow> provenRun ow' evs)"

lemma owner_run_ok:
  assumes "proc_ok R ow" "owner_run ow evs = Some ow'"
  shows "proc_ok (R \<union> provenRun ow evs) ow' \<and> lasting ow ow'"
  using assms
proof (induction evs arbitrary: R ow)
  case (Cons e evs)
  obtain now ev where e: "e = (now, ev)" by force
  obtain ow1 where step: "owner_step now ow ev = Some ow1" "owner_run ow1 evs = Some ow'"
    using Cons.prems(2) e by (auto split: option.splits)
  have one: "proc_ok (R \<union> provenBy ow ev) ow1" "lasting ow ow1" using owner_step_ok Cons.prems(1) step(1) by blast+
  show ?case using Cons.IH [OF one(1) step(2)] one(2) by (auto simp: e step(1) Un_assoc lasting_def)
qed (simp add: lasting_def)

lemma NewOwner_ok: "proc_ok {} (NewOwner pid sequence cfg en)" "ocounted (NewOwner pid sequence cfg en)"
proof -
  let ?ow = "NewOwner pid sequence (cfg\<lparr>cfg_DeferInitialMaterialization := True\<rparr>) en"
  have "proc_ok {} ?ow" "ocounted ?ow"
    by (simp_all add: NewOwner_def newMaterialization_def emptyRouting_def nextProactiveNamespace_def proc_ok_def kept_def acore_def
        ocounted_def foreign_def counted_def ptags_def)
  moreover have "good ?ow (NewOwner pid sequence cfg en)"
    using good_start [OF good_refl, of ?ow] by (simp add: NewOwner_def newMaterialization_def newClassification_def Let_def)
  ultimately show "proc_ok {} (NewOwner pid sequence cfg en)" "ocounted (NewOwner pid sequence cfg en)"
    using proc_ok_good good_sticky by (blast, metis sticky_def)
qed

lemma NewOwner_run:
  assumes "owner_run (NewOwner pid sequence cfg en) evs = Some ow"
  shows "proc_ok (provenRun (NewOwner pid sequence cfg en) evs) ow" "ocounted ow"
  using owner_run_ok [OF NewOwner_ok(1) assms] NewOwner_ok(2) [of pid sequence cfg en] by (simp_all add: lasting_def)

section \<open>The properties\<close>

text \<open>
  C2: An owner has at most one process that is not proven gone. In every run of a new owner, each
  process that it ever started is the current one or was proven retired by an event of the run; and
  an event starts a process only when there is no current one and all earlier processes are
  proven retired, whatever fails in between: a blocked finalisation never leads to a second process.
\<close>
theorem one_process_at_a_time:
  assumes "owner_run (NewOwner pid sequence cfg en) evs = Some ow" "owner_step now ow ev = Some ow'"
  shows "(\<forall>q<ma_nextProc (ow_ma ow). ma_upstream (ow_ma ow) = Some q \<or> q \<in> provenRun (NewOwner pid sequence cfg en) evs) \<and>
    (ma_nextProc (ow_ma ow') \<noteq> ma_nextProc (ow_ma ow) \<longrightarrow>
       ma_upstream (ow_ma ow) = None \<and> (\<forall>q<ma_nextProc (ow_ma ow). q \<in> provenRun (NewOwner pid sequence cfg en) evs) \<and>
       ma_nextProc (ow_ma ow') = Suc (ma_nextProc (ow_ma ow)) \<and> ma_upstream (ow_ma ow') = Some (ma_nextProc (ow_ma ow)))"
proof -
  have ok: "proc_ok (provenRun (NewOwner pid sequence cfg en) evs) ow" using NewOwner_run(1) [OF assms(1)] .
  show ?thesis using owner_step_moved [OF ok assms(2)] ok by (auto simp: proc_ok_def kept_def moved_def stays_def)
qed

text \<open>
  C6: The count of pending requests never understates the work. In every run of a new owner it is at
  least the number of requests in flight plus the number of proactive requests that are unanswered;
  so an owner whose count is zero, which the daemon may shut down, has no request in flight.
\<close>
theorem pending_covers_inflight:
  assumes "owner_run (NewOwner pid sequence cfg en) evs = Some ow"
  shows "int (mlen (ro_inflight (ow_ro ow))) + int (ptags (ow_proactiveNamespace ow) (ro_methodTags (ow_ro ow))) \<le> ro_pending (ow_ro ow) \<and>
    (ro_pending (ow_ro ow) = 0 \<longrightarrow> ro_inflight (ow_ro ow) = [])"
proof -
  have le: "int (mlen (ro_inflight (ow_ro ow))) + int (ptags (ow_proactiveNamespace ow) (ro_methodTags (ow_ro ow))) \<le> ro_pending (ow_ro ow)"
    using NewOwner_run(2) [OF assms] by (simp add: ocounted_def counted_def)
  moreover have "mlen (ro_inflight (ow_ro ow)) = 0" if "ro_pending (ow_ro ow) = 0" using le that by linarith
  ultimately show ?thesis by simp
qed

text \<open>
  C21: Persistence and isolation are never lost. Once an owner is persistent, and once its server is
  classified as isolated, every later state of the run is so too, whatever later generations of the
  server declare.
\<close>
theorem persistence_and_isolation_stay:
  assumes "owner_run (NewOwner pid sequence cfg en) evs = Some ow" "owner_run ow evs' = Some ow'"
  shows "(ma_policy (ow_ma ow) = MaterializationPersistent \<longrightarrow> ma_policy (ow_ma ow') = MaterializationPersistent) \<and>
    (cs_mode (ow_cs ow) = Some ModeIsolated \<and> cs_source (ow_cs ow) \<noteq> [] \<longrightarrow>
       cs_mode (ow_cs ow') = Some ModeIsolated \<and> cs_source (ow_cs ow') \<noteq> [])"
  using owner_run_ok [OF NewOwner_run(1) [OF assms(1)] assms(2)] by (simp add: lasting_def persistent_def isolated_def)

section \<open>A concrete run\<close>

definition demo_config :: OwnerConfig where
  "demo_config =
     \<lparr>cfg_Env = None, cfg_Cwd = ''/p'', cfg_ServerID = ''srv'', cfg_HandlerFunc = False, cfg_Authorize = False,
      cfg_MaterializationPolicy = MaterializationPersistent, cfg_DeferInitialMaterialization = False,
      cfg_PersistentPending = False, cfg_PersistentRequired = False\<rparr>"

definition demo_outside :: owner_env where
  "demo_outside =
     \<lparr>oe_upWrites = [], oe_upOut = [], oe_cacheReady = [], oe_calls = [], oe_canon = (\<lambda>s. s), oe_getwd = ''/'',
      oe_parseTime = (\<lambda>_. None)\<rparr>"

definition demo_start :: "(time \<times> owner_event) list" where
  "demo_start = [(0, EvAttempt Proceed), (0, EvAttempt (StartResult True None))]"

text \<open>The first process does not answer and is retired; the retry timer has run out.\<close>

definition demo_failure :: "(time \<times> owner_event) list" where
  "demo_failure =
     [(0, EvAttempt (Chosen CaseTimer)), (0, EvAttempt (Chosen CaseFailed)), (0, EvAttempt (Retired None None)),
      (0, EvAttempt (Chosen CaseTimer))]"

lemma demo_started:
  obtains ow where "owner_run (NewOwner 1 1 demo_config demo_outside) demo_start = Some ow" "ro_pending (ow_ro ow) = 1"
    "ma_policy (ow_ma ow) = MaterializationPersistent"
proof -
  have "(case owner_run (NewOwner 1 1 demo_config demo_outside) demo_start of
      None \<Rightarrow> False | Some ow \<Rightarrow> ro_pending (ow_ro ow) = 1 \<and> ma_policy (ow_ma ow) = MaterializationPersistent)"
    by code_simp
  then show thesis using that by (auto split: option.splits)
qed

theorem pending_covers_inflight_witness:
  "\<exists>ow. owner_run (NewOwner 1 1 demo_config demo_outside) demo_start = Some ow \<and>
     int (mlen (ro_inflight (ow_ro ow))) + int (ptags (ow_proactiveNamespace ow) (ro_methodTags (ow_ro ow))) \<le> 1"
proof -
  obtain ow where "owner_run (NewOwner 1 1 demo_config demo_outside) demo_start = Some ow" "ro_pending (ow_ro ow) = 1"
    using demo_started by blast
  then show ?thesis using pending_covers_inflight [of 1 1 demo_config demo_outside demo_start ow] by auto
qed

lemma demo_restarted:
  obtains ow ow' where "owner_run (NewOwner 1 1 demo_config demo_outside) (demo_start @ demo_failure) = Some ow"
    "owner_step 0 ow (EvAttempt (StartResult True None)) = Some ow'" "ma_nextProc (ow_ma ow) = 1" "ma_nextProc (ow_ma ow') = 2"
proof -
  have "(case owner_run (NewOwner 1 1 demo_config demo_outside) (demo_start @ demo_failure) of
      None \<Rightarrow> False
    | Some ow \<Rightarrow> ma_nextProc (ow_ma ow) = 1 \<and>
        (case owner_step 0 ow (EvAttempt (StartResult True None)) of None \<Rightarrow> False | Some ow' \<Rightarrow> ma_nextProc (ow_ma ow') = 2))"
    by code_simp
  then show thesis using that by (auto split: option.splits)
qed

theorem one_process_at_a_time_witness:
  "\<exists>ow ow'. owner_run (NewOwner 1 1 demo_config demo_outside) (demo_start @ demo_failure) = Some ow \<and>
     owner_step 0 ow (EvAttempt (StartResult True None)) = Some ow' \<and> ma_upstream (ow_ma ow') = Some 1 \<and>
     0 \<in> provenRun (NewOwner 1 1 demo_config demo_outside) (demo_start @ demo_failure)"
proof -
  obtain ow ow' where run: "owner_run (NewOwner 1 1 demo_config demo_outside) (demo_start @ demo_failure) = Some ow"
    "owner_step 0 ow (EvAttempt (StartResult True None)) = Some ow'" "ma_nextProc (ow_ma ow) = 1" "ma_nextProc (ow_ma ow') = 2"
    using demo_restarted by blast
  then show ?thesis using one_process_at_a_time [OF run(1,2)] by auto
qed

theorem persistence_and_isolation_stay_witness:
  "\<exists>ow ow'. owner_run (NewOwner 1 1 demo_config demo_outside) demo_start = Some ow \<and>
     owner_run ow [(0, EvStop)] = Some ow' \<and> ma_policy (ow_ma ow') = MaterializationPersistent"
proof -
  obtain ow where ow: "owner_run (NewOwner 1 1 demo_config demo_outside) demo_start = Some ow"
    "ma_policy (ow_ma ow) = MaterializationPersistent"
    using demo_started by blast
  have "owner_run ow [(0, EvStop)] = Some (stopMaterialization ow)" by simp
  then show ?thesis using ow persistence_and_isolation_stay [OF ow(1), of "[(0, EvStop)]"] by blast
qed

end
