(* ===== verification/Owner_Answers.thy ===== *)
theory Owner_Answers
  imports Owner_Safety
begin

text \<open>
  The answers that the sessions of an owner get: the response of the upstream to a forwarded request,
  and the errors for demands whose process did not come up.
\<close>

section \<open>A request and its response\<close>

lemma WriteRaw_ptr [simp]: "se_ptr (fst (WriteRaw s d)) = se_ptr s"
  by (auto simp: WriteRaw_def split: prod.split)

lemma onRouting_frame [simp]:
  "ow_ro (onRouting f ow) = f (ow_ro ow)" "ow_ma (onRouting f ow) = ow_ma ow" "ow_cs (onRouting f ow) = ow_cs ow"
  "ow_maintenance (onRouting f ow) = ow_maintenance ow" "ow_proactiveNamespace (onRouting f ow) = ow_proactiveNamespace ow"
  by (simp_all add: onRouting_def)

lemma capture_frame [simp]:
  "ow_ro (captureInitFingerprint raw ow) = ow_ro ow" "ow_ma (captureInitFingerprint raw ow) = ow_ma ow"
  "ow_maintenance (captureInitFingerprint raw ow) = ow_maintenance ow"
  "ow_proactiveNamespace (captureInitFingerprint raw ow) = ow_proactiveNamespace ow"
  by (simp_all add: captureInitFingerprint_def onCaches_def split: option.split)

lemma track_frame [simp]:
  "ro_sessions (trackProgressToken sid k raw r) = ro_sessions r" "ro_timedOut (trackProgressToken sid k raw r) = ro_timedOut r"
  by (simp_all add: trackProgressToken_def split: option.split)

lemma publish_frame:
  fixes ow s now up
  assumes "msg_Method msg \<notin> set taggedMethods"
  defines "ow1 \<equiv> publishRequest now s msg up ow" and "key \<equiv> Remap (se_ID s) (msg_ID msg)"
  shows "ow_sessions ow1 = ow_sessions ow" "ow_ma ow1 = ow_ma ow" "ow_maintenance ow1 = ow_maintenance ow"
    "ow_proactiveNamespace ow1 = ow_proactiveNamespace ow" "ro_methodTags (ow_ro ow1) = ro_methodTags (ow_ro ow)"
    "ro_timedOut (ow_ro ow1) = ro_timedOut (ow_ro ow)" "ro_pending (ow_ro ow1) = ro_pending (ow_ro ow) + 1"
    "ro_inflight (ow_ro ow1) = mput (ro_inflight (ow_ro ow)) key (newInflight (ro_nextPtr (ow_ro ow)) now s msg up)"
  using assms(1) unfolding ow1_def key_def publishRequest_def startToolWatchdog_def Let_def
  by (simp_all add: taggedMethods_def)

lemma forward_ok:
  assumes "sessionAt ow p = Some s" "ow_maintenance ow = None" "ma_upstream (ow_ma ow) = Some up"
    "forwardRequestPrepared now p msg ow = (ow1, ForwardOk)"
  obtains raw where "ow1 = fst (writeLine up raw (publishRequest now s msg up ow))"
  using assms by (auto simp: forwardRequestPrepared_def Let_def split: option.splits sum.splits prod.splits bool.splits)
    (metis fst_conv)

lemma publish_env: "ow_en (publishRequest now s msg up ow) = ow_en ow"
proof -
  have "ow_en (onRouting f ow) = ow_en ow" "ow_en (captureInitFingerprint raw ow) = ow_en ow" for f raw ow
    by (simp_all add: on_defs captureInitFingerprint_def split: option.split)
  then show ?thesis unfolding publishRequest_def startToolWatchdog_def Let_def by simp
qed

lemma forward_succeeds:
  assumes "sessionAt ow p = Some s" "ow_maintenance ow = None" "ma_upstream (ow_ma ow) = Some up"
    "remappedRequest ow s msg = Some (Ok raw)" "oe_upWrites (ow_en ow) = []"
  obtains ow1 where "forwardRequestPrepared now p msg ow = (ow1, ForwardOk)"
  using assms by (auto simp: forwardRequestPrepared_def writeLine_def publish_env nextOk_def Let_def)

lemma writeLine_frame: "ow_ro (fst (writeLine up raw ow)) = ow_ro ow" "ow_ma (fst (writeLine up raw ow)) = ow_ma ow"
  "ow_maintenance (fst (writeLine up raw ow)) = ow_maintenance ow"
  "ow_proactiveNamespace (fst (writeLine up raw ow)) = ow_proactiveNamespace ow"
  by (simp_all add: writeLine_def on_defs split: prod.split)

lemma claim_frame:
  "ow_sessions (claimResponse key ow) = ow_sessions ow" "ow_ma (claimResponse key ow) = ow_ma ow"
  "ow_proactiveNamespace (claimResponse key ow) = ow_proactiveNamespace ow"
  "ro_methodTags (ow_ro (claimResponse key ow)) = ro_methodTags (ow_ro ow)"
  "ro_timedOut (ow_ro (claimResponse key ow)) = ro_timedOut (ow_ro ow)"
  "ro_inflight (ow_ro (claimResponse key ow)) = mdel (ro_inflight (ow_ro ow)) key"
  "0 < ro_pending (ow_ro ow) \<Longrightarrow> ro_pending (ow_ro (claimResponse key ow)) = ro_pending (ow_ro ow) - 1"
  by (simp_all add: claimResponse_def clearProgressTokensForRequest_def completeRequest_def decrementPending_def on_defs Let_def)

lemma accepts_same: "ow_ma ow' = ow_ma ow \<Longrightarrow> acceptsProcessEvent up ow' \<longleftrightarrow> acceptsProcessEvent up ow"
  by (simp add: acceptsProcessEvent_def)

text \<open>The response to a request that is in flight, untagged and not timed out.\<close>

lemma response_delivered:
  assumes "acceptsProcessEvent up ow" "msg_Type resp = TypeResponse" "msg_ID resp = Some key"
    "\<not> isProactiveID (ow_proactiveNamespace ow) key" "mget (ro_timedOut (ow_ro ow)) key = None"
    "mget (ro_inflight (ow_ro ow)) key \<noteq> None" "mget (ro_methodTags (ow_ro ow)) key = None"
    "Deremap key = Ok \<lparr>de_SessionID = sp_ID p, de_OriginalID = i\<rparr>" "ReplaceID (msg_Raw resp) i = Some (Ok restored)"
    "sessionAt ow p = Some s"
  shows "handleUpstreamMessageFrom now up resp ow =
    Some (updateSession (sp_ID p) (fst (WriteRaw s restored)) (claimResponse key ow))"
proof -
  have s: "mget (ow_sessions ow) (sp_ID p) = Some s" "se_ptr s = p"
    using assms(10) by (auto simp: sessionAt_def split: option.splits if_splits)
  have "cacheTagged up key (msg_Raw resp) (claimResponse key ow) = claimResponse key ow"
    using assms(7) by (simp add: cacheTagged_def claim_frame)
  moreover have "sessionAt (claimResponse key ow) p = Some s" using assms(10) by (simp add: sessionAt_def claim_frame)
  ultimately show ?thesis using assms s
    by (auto simp: handleUpstreamMessageFrom_def handleUpstreamResponse_def deliverResponse_def claim_frame sessionWrite_def
        case_prod_beta Let_def)
qed


definition demo_session :: Session where
  "demo_session = NewSession \<lparr>sp_addr = 0, sp_ID = 1\<rparr> ''sess_1'' []"

definition demo_ready :: owner where
  "demo_ready =
     onRouting (\<lambda>r. r\<lparr>ro_sessions := [(1, demo_session)]\<rparr>)
       (onMat (\<lambda>m. m\<lparr>ma_upstream := Some 0, ma_nextProc := 1, ma_state := MaterializationReady\<rparr>)
          (NewOwner 1 1 (demo_config\<lparr>cfg_DeferInitialMaterialization := True\<rparr>) demo_outside))"

definition demo_call :: Message where
  "demo_call =
     \<lparr>msg_Type = TypeRequest, msg_ID = Some ''7'', msg_Method = ''ping'',
      msg_Raw = ''{'' @ jq ''id'' @ '':7,'' @ jq ''method'' @ '':'' @ jq ''ping'' @ ''}''\<rparr>"

definition demo_answer :: Message where
  "demo_answer =
     \<lparr>msg_Type = TypeResponse, msg_ID = Some (Remap 1 (Some ''7'')), msg_Method = [],
      msg_Raw = ''{'' @ jq ''id'' @ '':'' @ Remap 1 (Some ''7'') @ '','' @ jq ''result'' @ '':true}''\<rparr>"

definition demo_restored :: bytes where
  "demo_restored = ''{'' @ jq ''id'' @ '':7,'' @ jq ''result'' @ '':true}''"

lemma demo_restores: "ReplaceID (msg_Raw demo_answer) ''7'' = Some (Ok demo_restored)"
  by code_simp

lemma demo_remapped: obtains raw where "remappedRequest demo_ready demo_session demo_call = Some (Ok raw)"
proof -
  have "(case remappedRequest demo_ready demo_session demo_call of Some (Inr _) \<Rightarrow> True | _ \<Rightarrow> False)" by code_simp
  then show thesis using that by (auto split: option.splits sum.splits)
qed

lemma demo_ready_ok:
  "foreign (ow_proactiveNamespace demo_ready)" "0 \<le> ro_pending (ow_ro demo_ready)"
  "sessionAt demo_ready \<lparr>sp_addr = 0, sp_ID = 1\<rparr> = Some demo_session" "ow_maintenance demo_ready = None"
  "acceptsProcessEvent 0 demo_ready" "msg_Method demo_call \<notin> set taggedMethods"
  "mget (ro_methodTags (ow_ro demo_ready)) (Remap 1 (Some ''7'')) = None"
  "mget (ro_timedOut (ow_ro demo_ready)) (Remap 1 (Some ''7'')) = None"
  "ma_upstream (ow_ma demo_ready) = Some 0" "oe_upWrites (ow_en demo_ready) = []"
  by (simp_all add: demo_ready_def NewOwner_def newMaterialization_def emptyRouting_def demo_outside_def nextProactiveNamespace_def
      demo_session_def NewSession_def sessionAt_def acceptsProcessEvent_def foreign_def taggedMethods_def demo_call_def mget_def on_defs)


section \<open>Demands of a failed attempt\<close>

definition demandError :: "bytes \<Rightarrow> localDemand \<Rightarrow> bytes option" where
  "demandError err d = buildJSONRPCErrorBytes (msg_ID (ld_message d)) (-32603) err"

definition demandsOf :: "nat \<Rightarrow> session_ptr \<Rightarrow> owner \<Rightarrow> localDemand list" where
  "demandsOf gen p ow = filter (\<lambda>d. ld_state d = localDemandWaiting \<and> ld_generation d = gen \<and> ld_session d = p) (map snd (ma_demands (ow_ma ow)))"

lemma write_other:
  assumes "mget (ow_sessions ow) (se_ID s) = Some s" "p \<noteq> se_ptr s"
  shows "mget (ow_sessions (fst (sessionWrite p payload ow))) (se_ID s) = Some s"
proof (cases "sessionAt ow p")
  case None
  then show ?thesis using assms(1) by (simp add: sessionWrite_def)
next
  case (Some t)
  then have "sp_ID p \<noteq> se_ID s" using assms by (auto simp: sessionAt_def split: if_splits)
  then show ?thesis using assms(1) Some by (simp add: sessionWrite_def updateSession_def case_prod_beta)
qed

lemma write_own:
  assumes "mget (ow_sessions ow) (se_ID s) = Some s" "\<not> se_closed s" "se_answers s = []"
  shows "mget (ow_sessions (fst (sessionWrite (se_ptr s) payload ow))) (se_ID s) = Some (s\<lparr>se_out := se_out s @ [payload]\<rparr>)"
  using assms by (simp add: sessionWrite_def sessionAt_def updateSession_def WriteRaw_def nextOk_def)

lemma writeDemandError_maintenance: "ow_maintenance (writeDemandError p i e ow) = ow_maintenance ow"
  using outside_writeDemandError [of ow p i e] by (simp add: outside_def)

lemma writeFailed_session:
  assumes "ow_maintenance ow = None" "mget (ow_sessions ow) (se_ID s) = Some s" "\<not> se_closed s" "se_answers s = []"
  shows "mget (ow_sessions (writeFailedLocalDemands ds err ow)) (se_ID s) =
    Some (s\<lparr>se_out := se_out s @ List.map_filter (demandError err) (filter (\<lambda>d. ld_session d = se_ptr s) ds)\<rparr>)"
  using assms
proof (induction ds arbitrary: ow s)
  case Nil
  then show ?case by (simp add: map_filter_def)
next
  case (Cons d ds)
  let ?ow = "writeDemandError (ld_session d) (msg_ID (ld_message d)) err ow"
  have m: "ow_maintenance ?ow = None" using Cons.prems(1) by (simp add: writeDemandError_maintenance)
  have step: "writeFailedLocalDemands (d # ds) err ow = writeFailedLocalDemands ds err ?ow" using Cons.prems(1) by simp
  show ?case
  proof (cases "ld_session d = se_ptr s \<and> demandError err d \<noteq> None")
    case True
    then obtain payload where p: "demandError err d = Some payload" by auto
    let ?s = "s\<lparr>se_out := se_out s @ [payload]\<rparr>"
    have "mget (ow_sessions ?ow) (se_ID ?s) = Some ?s"
      using True p Cons.prems write_own by (simp add: writeDemandError_def demandError_def)
    from Cons.IH [OF m this] Cons.prems True p show ?thesis unfolding step by (simp add: map_filter_def)
  next
    case False
    have "mget (ow_sessions ?ow) (se_ID s) = Some s"
      using False Cons.prems write_other by (auto simp: writeDemandError_def demandError_def split: option.split)
    from Cons.IH [OF m this Cons.prems(3,4)] False show ?thesis unfolding step by (auto simp: map_filter_def)
  qed
qed

lemma onMat_frame [simp]:
  "ow_ro (onMat f ow) = ow_ro ow" "ow_ma (onMat f ow) = f (ow_ma ow)" "ow_maintenance (onMat f ow) = ow_maintenance ow"
  by (simp_all add: onMat_def)

lemma clear_sessions: "ro_sessions (foldl (\<lambda>r key. decrementPending (r\<lparr>ro_methodTags := mdel (ro_methodTags r) key\<rparr>)) r ks) = ro_sessions r"
  by (induction ks arbitrary: r) (simp_all add: decrementPending_def)

lemma clearProactive_frame [simp]:
  "ow_sessions (clearProactiveTracking ow) = ow_sessions ow" "ow_ma (clearProactiveTracking ow) = ow_ma ow"
  "ow_maintenance (clearProactiveTracking ow) = ow_maintenance ow"
  by (simp_all add: clearProactiveTracking_def clear_sessions Let_def)

lemma mmapv_Nil [simp]: "mmapv f [] = []"
  by (simp add: mmapv_def)

lemma start_frame: "ow_sessions (fst (startMaterialization t ow)) = ow_sessions ow"
  "ma_demands (ow_ma (fst (startMaterialization t ow))) = ma_demands (ow_ma ow) \<or>
   ma_demands (ow_ma (fst (startMaterialization t ow))) = mmapv (assignGeneration (Suc (ma_generation (ow_ma ow)))) (ma_demands (ow_ma ow))"
  by (auto simp: startMaterialization_def Let_def split: option.split)

lemma resume_frame: "ow_sessions (resumeMaterializationAfterRestartPin ow) = ow_sessions ow"
  "ma_demands (ow_ma (resumeMaterializationAfterRestartPin ow)) = ma_demands (ow_ma ow) \<or>
   ma_demands (ow_ma (resumeMaterializationAfterRestartPin ow)) =
     mmapv (assignGeneration (Suc (ma_generation (ow_ma ow)))) (ma_demands (ow_ma ow))"
  using start_frame(2) [of _ "onMat (\<lambda>m. m\<lparr>ma_resumeTrigger := None\<rparr>) ow"]
  by (auto simp: resumeMaterializationAfterRestartPin_def Let_def start_frame(1) split: option.split)


definition demo_waiting :: owner where
  "demo_waiting =
     onMat (\<lambda>m. m\<lparr>ma_upstream := None, ma_generation := 1, ma_state := MaterializationMaterializing,
        ma_attempt := Some (newMaterializationAttempt 1 MaterializationTriggerDemand \<lparr>lc_SessionID = 1, lc_Cwd = [], lc_Env = None\<rparr>),
        ma_demands := [(Remap 1 (Some ''7''), \<lparr>ld_session = \<lparr>sp_addr = 0, sp_ID = 1\<rparr>, ld_message = demo_call,
           ld_state = localDemandWaiting, ld_generation = 1\<rparr>)]\<rparr>) demo_ready"

lemma demo_waiting_facts:
  "ow_maintenance demo_waiting = None" "mget (ow_sessions demo_waiting) (se_ID demo_session) = Some demo_session"
  "length (demandsOf 1 (se_ptr demo_session) demo_waiting) = 1"
  by (simp_all add: demo_waiting_def demo_ready_def NewOwner_def demo_session_def NewSession_def mget_def demandsOf_def)


end
