(* ===== verification/Owner_Admission.thy ===== *)
theory Owner_Admission
  imports Owner_Safety
begin

text \<open>
  The outer life of an owner: how sessions are admitted (\<open>PreRegister\<close>, \<open>readToken\<close>, \<open>acceptLoop\<close>) and
  how the owner is retired (\<open>FinalizeForRemoval\<close>), from \<open>owner.go\<close>, \<open>maintenance.go\<close> and
  \<open>handoff.go\<close>. \<open>ownerObj\<close> adds the state of the listener, of the accept goroutine and of the removal
  to the owner of the theories before. The accept goroutine works on one connection at a time, and
  \<open>removalMu\<close> allows one finalisation at a time; both are split where they wait.
\<close>

section \<open>State\<close>

text \<open>A connection whose token was found, before its session is registered.\<close>

record connection =
  cn_token :: bytes
  cn_session :: Session
  cn_reserved :: bool

text \<open>
  A running \<open>FinalizeForRemoval\<close>: the prepared handoff it aborts, whether the owner was held for
  maintenance, the generation of the attempt it waits for, and the process it elected.
\<close>

record finalizer =
  fz_soft :: bool
  fz_abort :: bool
  fz_maintenance :: bool
  fz_attempt :: "nat option"
  fz_elected :: bool
  fz_process :: "nat option"

record ownerObj =
  oo_owner :: owner
  oo_tokenHandshake :: bool
  oo_listenerDone :: bool
  oo_done :: bool
  oo_isAccepting :: bool
  oo_acceptStarted :: bool
  oo_acceptDone :: bool
  oo_frozen :: bool
  oo_purged :: int
  oo_nativeWork :: int
  oo_tornDown :: bool
  oo_maintenanceRetired :: bool
  oo_handoffPrepared :: bool
  oo_handoffAbortRequested :: bool
  oo_connecting :: "connection option"
  oo_finalizer :: "finalizer option"
  oo_startTime :: time
  oo_lastActivityNs :: int
  oo_command :: bytes

definition onOwner :: "(owner \<Rightarrow> owner) \<Rightarrow> ownerObj \<Rightarrow> ownerObj" where
  "onOwner f oo = oo\<lparr>oo_owner := f (oo_owner oo)\<rparr>"

definition onManager :: "(manager \<Rightarrow> manager) \<Rightarrow> ownerObj \<Rightarrow> ownerObj" where
  "onManager f oo = onOwner (onRouting (\<lambda>r. r\<lparr>ro_mgr := f (ro_mgr r)\<rparr>)) oo"

abbreviation oo_mgr :: "ownerObj \<Rightarrow> manager" where
  "oo_mgr oo \<equiv> ro_mgr (ow_ro (oo_owner oo))"

section \<open>What the daemon reads\<close>

definition SessionMgrPending :: "ownerObj \<Rightarrow> nat" where
  "SessionMgrPending oo = PendingCount (oo_mgr oo)"

definition ownerSessionCount :: "ownerObj \<Rightarrow> nat" where
  "ownerSessionCount oo = mlen (ow_sessions (oo_owner oo))"

definition PendingRequests :: "ownerObj \<Rightarrow> int" where
  "PendingRequests oo = ro_pending (ow_ro (oo_owner oo))"

definition ActiveProgressTokens :: "ownerObj \<Rightarrow> nat" where
  "ActiveProgressTokens oo = mlen (ro_progressOwners (ow_ro (oo_owner oo)))"

definition UpstreamDead :: "ownerObj \<Rightarrow> bool" where
  "UpstreamDead oo = ma_dead (ow_ma (oo_owner oo))"

definition CacheReady :: "ownerObj \<Rightarrow> bool" where
  "CacheReady oo \<longleftrightarrow> ca_initResp (ow_ca (oo_owner oo)) \<noteq> None \<and> ca_toolList (ow_ca (oo_owner oo)) \<noteq> None"

definition PersistentPending :: "ownerObj \<Rightarrow> bool" where
  "PersistentPending oo = ma_persistentPending (ow_ma (oo_owner oo))"

definition MaterializationBlocksEviction :: "ownerObj \<Rightarrow> bool" where
  "MaterializationBlocksEviction oo \<longleftrightarrow>
     (let m = ow_ma (oo_owner oo)
      in ma_restartPins m > 0 \<or> ma_persistentPending m \<or> ma_state m = MaterializationMaterializing \<or>
         ma_state m = MaterializationFinalizing \<or> ma_state m = MaterializationFinalizeBlocked)"

definition ownerIdleTimeout :: "ownerObj \<Rightarrow> duration" where
  "ownerIdleTimeout oo = cs_idleTimeoutNs (ow_cs (oo_owner oo))"

text \<open>\<open>LastActivity\<close> and \<open>touchActivity\<close>: a time is a count of nanoseconds.\<close>

definition LastActivity :: "ownerObj \<Rightarrow> time" where
  "LastActivity oo = (if oo_lastActivityNs oo = 0 then oo_startTime oo else oo_lastActivityNs oo)"

definition touchActivity :: "time \<Rightarrow> ownerObj \<Rightarrow> ownerObj" where
  "touchActivity now oo =
     (if now - oo_lastActivityNs oo \<ge> seconds 1 then oo\<lparr>oo_lastActivityNs := now\<rparr> else oo)"

definition ownerHasActiveBusyWork :: "time \<Rightarrow> ownerObj \<Rightarrow> ownerObj \<times> bool" where
  "ownerHasActiveBusyWork now oo =
     (case HasActiveBusyWork now (ow_busy (oo_owner oo)) of
        (live, active) \<Rightarrow> (onOwner (\<lambda>ow. ow\<lparr>ow_busy := live\<rparr>) oo, active))"

definition IsAccepting :: "ownerObj \<Rightarrow> bool" where
  "IsAccepting oo \<longleftrightarrow> oo_isAccepting oo \<or> \<not> oo_listenerDone oo"

definition IsClassifiedShareable :: "ownerObj \<Rightarrow> bool" where
  "IsClassifiedShareable oo \<longleftrightarrow>
     (let c = ow_cs (oo_owner oo) in cs_classified c \<and> (cs_mode c = Some ModeShared \<or> cs_mode c = Some ModeSessionAware))"

definition IsClassifiedIsolated :: "ownerObj \<Rightarrow> bool" where
  "IsClassifiedIsolated oo \<longleftrightarrow> (let c = ow_cs (oo_owner oo) in cs_classified c \<and> cs_mode c = Some ModeIsolated)"

definition MarkClassifiedAs :: "SharingMode \<Rightarrow> ownerObj \<Rightarrow> ownerObj" where
  "MarkClassifiedAs mode oo =
     (if cs_classified (ow_cs (oo_owner oo)) then oo
      else onOwner (onClass (\<lambda>c. c\<lparr>cs_mode := Some mode, cs_classified := True,
             cs_source := (if cs_source c = [] then ''test'' else cs_source c)\<rparr>)) oo)"

definition AddCwd :: "bytes \<Rightarrow> ownerObj \<Rightarrow> ownerObj" where
  "AddCwd cwd oo =
     (let canonical = oe_canon (ow_en (oo_owner oo)) cwd
      in if cwd = [] then oo
         else if mget (cs_cwdSet (ow_cs (oo_owner oo))) canonical = Some True then oo
         else onOwner (\<lambda>ow. sendRootsListChanged (onClass (\<lambda>c. c\<lparr>cs_cwdSet := mput (cs_cwdSet c) canonical True\<rparr>) ow)) oo)"

text \<open>\<open>String\<close>, the name of the owner in the supervisor's events.\<close>

definition ownerString :: "ownerObj \<Rightarrow> bytes" where
  "ownerString oo = ''owner['' @ take 8 (ow_serverID (oo_owner oo)) @ '' '' @ oo_command oo @ '']''"

section \<open>Reservations\<close>

text \<open>\<open>PreRegister\<close> of a fresh consumer.\<close>

definition ownerPreRegister :: "time \<Rightarrow> bytes \<Rightarrow> bytes \<Rightarrow> env \<Rightarrow> ownerObj \<Rightarrow> ownerObj \<times> bool" where
  "ownerPreRegister now token cwd e oo =
     (if oo_frozen oo \<or> oo_listenerDone oo \<or> cs_mode (ow_cs (oo_owner oo)) = Some ModeIsolated then (oo, False)
      else (onManager (\<lambda>sm. PreRegisterForOwner sm now token (ow_serverID (oo_owner oo)) cwd e) oo, True))"

text \<open>
  One round of \<open>PreRegisterInitial\<close>, the reservation of the shim that creates the owner: \<open>None\<close> is
  another round, \<open>expired\<close> that the deadline has passed.
\<close>

definition PreRegisterInitial :: "time \<Rightarrow> bool \<Rightarrow> bytes \<Rightarrow> bytes \<Rightarrow> env \<Rightarrow> ownerObj \<Rightarrow> (ownerObj \<times> bool) option" where
  "PreRegisterInitial now expired token cwd e oo =
     (let initial = ow_initialAdmissionToken (oo_owner oo)
      in if oo_frozen oo then (if expired then Some (oo, False) else None)
         else if oo_listenerDone oo then Some (oo, False)
         else if initial \<noteq> [] \<and> initial \<noteq> token then Some (oo, False)
         else Some (onManager (\<lambda>sm. PreRegisterForOwner sm now token (ow_serverID (oo_owner oo)) cwd e)
                      (onOwner (\<lambda>ow. ow\<lparr>ow_initialAdmissionToken := token\<rparr>) oo), True))"

definition revokePendingAdmission :: "bytes \<Rightarrow> ownerObj \<Rightarrow> ownerObj" where
  "revokePendingAdmission token oo =
     (if token = [] then oo
      else onManager (\<lambda>sm. fst (RemovePendingForOwnerToken sm (ow_serverID (oo_owner oo)) token)) oo)"

section \<open>The handshake token\<close>

definition isHexChar :: "char \<Rightarrow> bool" where
  "isHexChar c \<longleftrightarrow> c \<in> set ''0123456789abcdef''"

text \<open>
  \<open>readToken\<close> on the bytes that arrive before its deadline: the token and what the session will read.
\<close>

fun readTokenLoop :: "bytes \<Rightarrow> bytes \<Rightarrow> bytes \<times> bytes" where
  "readTokenLoop buf [] = ([], buf)"
| "readTokenLoop buf (c # cs) =
     (if c = CHR 0x0A then (buf, cs)
      else if buf = [] \<and> \<not> isHexChar c then ([], c # cs)
      else if length (buf @ [c]) > 64 then ([], buf @ [c] @ cs)
      else readTokenLoop (buf @ [c]) cs)"

definition readToken :: "bytes \<Rightarrow> bytes \<times> bytes" where
  "readToken input = readTokenLoop [] input"

section \<open>Accepting connections\<close>

definition nativeAdmissionClosed :: "ownerObj \<Rightarrow> bool" where
  "nativeAdmissionClosed oo \<longleftrightarrow> ow_maintenance (oo_owner oo) \<noteq> None \<or> oo_listenerDone oo \<or> oo_done oo"

definition reserveNativeWork :: "ownerObj \<Rightarrow> ownerObj \<times> bool" where
  "reserveNativeWork oo =
     (if nativeAdmissionClosed oo then (oo, False) else (oo\<lparr>oo_nativeWork := oo_nativeWork oo + 1\<rparr>, True))"

definition closeListener :: "ownerObj \<Rightarrow> ownerObj" where
  "closeListener oo =
     (if oo_listenerDone oo then oo
      else case RemovePendingForOwner (oo_mgr oo) (ow_serverID (oo_owner oo)) of
          (sm, n) \<Rightarrow>
            (onOwner (\<lambda>ow. ow\<lparr>ow_admissionClosed := True\<rparr>) (onManager (\<lambda>_. sm) oo))
              \<lparr>oo_isAccepting := False, oo_listenerDone := True, oo_purged := oo_purged oo + int n\<rparr>)"

definition startAcceptLoop :: "ownerObj \<Rightarrow> ownerObj" where
  "startAcceptLoop oo =
     (if nativeAdmissionClosed oo \<or> oo_acceptStarted oo then oo
      else oo\<lparr>oo_acceptStarted := True, oo_isAccepting := True\<rparr>)"

text \<open>
  A connection arrives: \<open>input\<close> is what it sends before the deadline, \<open>s\<close> the session that would be
  built for it. With the token handshake, only a connection with a reserved token goes on.
\<close>

definition acceptConnection :: "bytes \<Rightarrow> Session \<Rightarrow> ownerObj \<Rightarrow> ownerObj" where
  "acceptConnection input s oo =
     (if \<not> oo_acceptStarted oo \<or> oo_acceptDone oo \<or> oo_connecting oo \<noteq> None \<or> oo_done oo \<or> oo_listenerDone oo then oo
      else if \<not> oo_tokenHandshake oo then oo\<lparr>oo_connecting := Some \<lparr>cn_token = [], cn_session = s, cn_reserved = False\<rparr>\<rparr>
      else
        let token = fst (readToken input)
        in case LookupPendingForOwner (oo_mgr oo) token (ow_serverID (oo_owner oo)) of
             None \<Rightarrow> oo
           | Some (cwd, e) \<Rightarrow>
               (if token = [] then oo
                else oo\<lparr>oo_connecting := Some \<lparr>cn_token = token, cn_session = s\<lparr>se_Cwd := cwd, se_Env := e\<rparr>,
                                             cn_reserved = False\<rparr>\<rparr>))"

datatype AuthDecision = AuthAllow bytes | AuthDeny bytes

text \<open>The refusal of a connection: its reservation is revoked, and the slot of the accept goroutine is free again.\<close>

definition dropConnection :: "bool \<Rightarrow> connection \<Rightarrow> ownerObj \<Rightarrow> ownerObj" where
  "dropConnection revoke cn oo =
     (if revoke then revokePendingAdmission (cn_token cn) oo else oo)
       \<lparr>oo_connecting := None, oo_nativeWork := (if cn_reserved cn then oo_nativeWork oo - 1 else oo_nativeWork oo)\<rparr>"

text \<open>Before the authorization callback runs: the work of the callback is reserved.\<close>

definition beginAuthorize :: "ownerObj \<Rightarrow> ownerObj" where
  "beginAuthorize oo =
     (case oo_connecting oo of
        None \<Rightarrow> oo
      | Some cn \<Rightarrow>
          (if \<not> ow_needsAuth (oo_owner oo) \<or> cn_reserved cn then oo
           else if oo_done oo then dropConnection True cn oo
           else case reserveNativeWork oo of
               (oo1, False) \<Rightarrow> dropConnection True cn oo1
             | (oo1, True) \<Rightarrow> oo1\<lparr>oo_connecting := Some (cn\<lparr>cn_reserved := True\<rparr>)\<rparr>))"

definition authorized :: "time \<Rightarrow> bytes \<Rightarrow> Session \<Rightarrow> Session" where
  "authorized now tenant s = SetMeta s ((se_meta s)\<lparr>me_TenantID := tenant, me_AuthorizedAt := Some now\<rparr>)"

text \<open>The commit of an admission: the token is consumed by exactly this session.\<close>

definition commitAdmission :: "time \<Rightarrow> connection \<Rightarrow> ownerObj \<Rightarrow> ownerObj" where
  "commitAdmission now cn oo =
     (if nativeAdmissionClosed oo then dropConnection True cn oo
      else
        let bound = (if cn_token cn = [] then (oo_mgr oo, True)
                     else Bind (oo_mgr oo) now (cn_token cn) (ow_serverID (oo_owner oo)) (se_ptr (cn_session cn)))
        in if \<not> snd bound then dropConnection False cn oo
           else let oo1 = onOwner (AddSession now (cn_session cn)) (onManager (\<lambda>_. fst bound) oo)
                in dropConnection False cn
                     (if mget (ow_sessions (oo_owner oo)) (se_ID (cn_session cn)) = None then touchActivity now oo1 else oo1))"

definition finishAdmission :: "time \<Rightarrow> AuthDecision \<Rightarrow> ownerObj \<Rightarrow> ownerObj" where
  "finishAdmission now verdict oo =
     (case oo_connecting oo of
        None \<Rightarrow> oo
      | Some cn \<Rightarrow>
          (if \<not> ow_needsAuth (oo_owner oo) then commitAdmission now cn oo
           else if \<not> cn_reserved cn then oo
           else if oo_done oo then dropConnection True cn oo
           else case verdict of
               AuthDeny _ \<Rightarrow> dropConnection True cn oo
             | AuthAllow tenant \<Rightarrow> commitAdmission now (cn\<lparr>cn_session := authorized now tenant (cn_session cn)\<rparr>) oo))"

text \<open>The goroutine ends once the listener is closed and every reader has removed its session.\<close>

definition endAcceptLoop :: "ownerObj \<Rightarrow> ownerObj" where
  "endAcceptLoop oo =
     (if oo_acceptStarted oo \<and> oo_listenerDone oo \<and> oo_connecting oo = None \<and> ow_sessions (oo_owner oo) = []
      then oo\<lparr>oo_acceptDone := True, oo_isAccepting := False\<rparr> else oo)"

section \<open>Retiring the owner\<close>

definition nativeQuiescent :: "ownerObj \<Rightarrow> bool" where
  "nativeQuiescent oo \<longleftrightarrow>
     (oo_acceptStarted oo \<longrightarrow> oo_acceptDone oo) \<and> nativeAdmissionClosed oo \<and> ow_sessions (oo_owner oo) = [] \<and>
     oo_nativeWork oo = 0 \<and> PendingRequests oo = 0"

definition MaintenanceRetired :: "ownerObj \<Rightarrow> bool" where
  "MaintenanceRetired oo \<longleftrightarrow> oo_maintenanceRetired oo \<and> nativeQuiescent oo"

definition teardownExceptUpstream :: "ownerObj \<Rightarrow> ownerObj" where
  "teardownExceptUpstream oo =
     (if oo_tornDown oo then oo
      else (onOwner (\<lambda>ow. closeSessions (map fst (ow_sessions ow)) ow) (closeListener oo))\<lparr>oo_tornDown := True\<rparr>)"

text \<open>The result of \<open>FinalizeForRemoval\<close>: the exit code, whether retirement is proven, and the error.\<close>

type_synonym final_result = "int \<times> bool \<times> bytes option"

definition ErrHandoffAlreadyPrepared :: bytes where
  "ErrHandoffAlreadyPrepared = ''owner: handoff already prepared''"

definition errRetirementBlocked :: bytes where
  "errRetirementBlocked = ''maintenance_retirement_blocked''"

definition blockFinalization :: "bytes \<Rightarrow> ownerObj \<Rightarrow> ownerObj" where
  "blockFinalization err oo =
     onOwner (onMat (\<lambda>m. m\<lparr>ma_state := MaterializationFinalizeBlocked, ma_blockedErr := Some err\<rparr>)) oo"

text \<open>
  The part before the first wait: admission is torn down and the running attempt is cancelled. A
  result means that the call returns here.
\<close>

definition finalizeBegin :: "bool \<Rightarrow> ownerObj \<Rightarrow> ownerObj \<times> final_result option" where
  "finalizeBegin soft oo =
     (let held = (ow_maintenance (oo_owner oo) \<noteq> None)
      in if oo_finalizer oo \<noteq> None then (oo, None)
         else if oo_done oo then
           (if \<not> nativeQuiescent oo
            then (blockFinalization errFinalizationUnproven oo, Some (0, False, Some errFinalizationUnproven))
            else if held \<and> \<not> MaintenanceRetired oo then (oo, Some (0, False, Some errRetirementBlocked))
            else (oo, Some (0, True, None)))
         else if held \<and> oo_handoffPrepared oo then (oo, Some (0, False, Some errRetirementBlocked))
         else if oo_handoffPrepared oo \<and> \<not> oo_handoffAbortRequested oo then (oo, Some (0, False, Some ErrHandoffAlreadyPrepared))
         else
           let oo1 = onOwner (\<lambda>ow. stopMaterialization (DrainForMaintenance ow)) oo;
               oo2 = (if held then onOwner drainInflightRequests oo1 else oo1);
               oo3 = onOwner cancelMaterialization (teardownExceptUpstream oo2)
           in (oo3\<lparr>oo_finalizer := Some \<lparr>fz_soft = soft, fz_abort = (oo_handoffPrepared oo \<and> oo_handoffAbortRequested oo),
                  fz_maintenance = held, fz_attempt = map_option at_generation (ma_attempt (ow_ma (oo_owner oo3))),
                  fz_elected = False, fz_process = None\<rparr>\<rparr>, None))"

text \<open>The channel \<open>done\<close> of an attempt is closed once the attempt is not the current one any more.\<close>

definition attemptSettled :: "nat option \<Rightarrow> ownerObj \<Rightarrow> bool" where
  "attemptSettled gen oo \<longleftrightarrow>
     (case (gen, ma_attempt (ow_ma (oo_owner oo))) of (Some g, Some a) \<Rightarrow> at_generation a \<noteq> g | _ \<Rightarrow> True)"

definition errUnsettled :: bytes where
  "errUnsettled = ''owner finalization: materialization did not settle''"

text \<open>
  The election of the process to retire. Without a maintenance hold it waits for the attempt;
  \<open>expired\<close> says that the timer has run out.
\<close>

definition finalizeElect :: "bool \<Rightarrow> ownerObj \<Rightarrow> ownerObj \<times> final_result option" where
  "finalizeElect expired oo =
     (case oo_finalizer oo of
        None \<Rightarrow> (oo, None)
      | Some fz \<Rightarrow>
          (if fz_elected fz then (oo, None)
           else if \<not> fz_maintenance fz \<and> \<not> attemptSettled (fz_attempt fz) oo then
             (if expired then (oo\<lparr>oo_finalizer := None\<rparr>, Some (0, False, Some errUnsettled)) else (oo, None))
           else
             let m = ow_ma (oo_owner oo);
                 proc = (case ma_retiring m of Some q \<Rightarrow> Some q | None \<Rightarrow> ma_upstream m);
                 oo1 = (if proc = None then oo
                        else onOwner (onMat (\<lambda>m. m\<lparr>ma_retiring := proc, ma_state := MaterializationFinalizing, ma_dead := True\<rparr>)) oo)
             in (oo1\<lparr>oo_finalizer := Some (fz\<lparr>fz_elected := True, fz_process := proc\<rparr>)\<rparr>, None)))"

text \<open>
  What closing the elected process reports: the exit code, the error, \<open>RetirementProven\<close>, \<open>TreesDead\<close>,
  whether it is an in-process handler, and the same for the second close of one.
\<close>

record close_outcome =
  cl_exit :: int
  cl_err :: "bytes option"
  cl_proven :: bool
  cl_treesDead :: bool
  cl_handler :: bool
  cl_again :: "int \<times> bytes option \<times> bool"

definition provenGone :: "close_outcome \<Rightarrow> bool \<Rightarrow> nat option \<Rightarrow> bool" where
  "provenGone cl held proc \<longleftrightarrow> proc = None \<or> (if held then cl_treesDead cl else cl_proven cl)"

definition finalizeProven :: "close_outcome \<Rightarrow> finalizer \<Rightarrow> ownerObj \<Rightarrow> bool" where
  "finalizeProven cl fz oo \<longleftrightarrow>
     provenGone cl (ow_maintenance (oo_owner oo) \<noteq> None) (fz_process fz) \<and> nativeQuiescent oo \<and>
     (fz_maintenance fz \<and> fz_process fz \<noteq> None \<and> cl_handler cl \<and> cl_err cl \<noteq> None \<longrightarrow> snd (snd (cl_again cl)))"

definition finalizeExit :: "close_outcome \<Rightarrow> finalizer \<Rightarrow> ownerObj \<Rightarrow> int \<times> bytes option" where
  "finalizeExit cl fz oo =
     (if provenGone cl (ow_maintenance (oo_owner oo) \<noteq> None) (fz_process fz) \<and> nativeQuiescent oo \<and>
         fz_maintenance fz \<and> fz_process fz \<noteq> None \<and> cl_handler cl \<and> cl_err cl \<noteq> None
      then (fst (cl_again cl), fst (snd (cl_again cl))) else (cl_exit cl, cl_err cl))"

definition retireOwner :: "nat option \<Rightarrow> materialization \<Rightarrow> materialization" where
  "retireOwner proc m =
     m\<lparr>ma_upstream := (if ma_upstream m = proc then None else ma_upstream m), ma_dead := True,
       ma_retiring := (if ma_retiring m = proc then None else ma_retiring m), ma_blockedErr := None,
       ma_state := MaterializationCacheOnly,
       ma_stage := (case ma_stage m of None \<Rightarrow> None | Some st \<Rightarrow> if Some (sta_process st) = proc then None else Some st)\<rparr>"

definition finalizeEnd :: "bool \<Rightarrow> close_outcome \<Rightarrow> ownerObj \<Rightarrow> ownerObj \<times> final_result option" where
  "finalizeEnd expired cl oo =
     (case oo_finalizer oo of
        None \<Rightarrow> (oo, None)
      | Some fz \<Rightarrow>
          (if \<not> fz_elected fz then (oo, None)
           else if fz_maintenance fz \<and> \<not> attemptSettled (fz_attempt fz) oo then
             (if expired then (oo\<lparr>oo_finalizer := None\<rparr>, Some (cl_exit cl, False, Some errUnsettled)) else (oo, None))
           else if \<not> finalizeProven cl fz oo then
             (let err = joinErr errFinalizationUnproven (snd (finalizeExit cl fz oo))
              in (onOwner (onMat (\<lambda>m. m\<lparr>ma_retiring := fz_process fz\<rparr>)) (blockFinalization err oo)\<lparr>oo_finalizer := None\<rparr>,
                  Some (fst (finalizeExit cl fz oo), False, Some err)))
           else
             ((onOwner (onMat (retireOwner (fz_process fz))) oo)
                \<lparr>oo_finalizer := None, oo_done := True,
                  oo_handoffPrepared := (if fz_abort fz then False else oo_handoffPrepared oo),
                  oo_handoffAbortRequested := (if fz_abort fz then False else oo_handoffAbortRequested oo),
                  oo_maintenanceRetired := (fz_process fz = None \<or> cl_treesDead cl)\<rparr>,
              Some (fst (finalizeExit cl fz oo), True, snd (finalizeExit cl fz oo)))))"

section \<open>The owner object as a whole\<close>

text \<open>
  \<open>OwnerEvent\<close> is an event of the owner before; \<open>touched\<close> says that it called \<open>touchActivity\<close>.
\<close>

datatype obj_event =
    OwnerEvent bool owner_event
  | ReserveFresh bytes bytes env
  | ReserveInitial bool bytes bytes env
  | Revoke bytes
  | Arrive bytes Session
  | BeginAuthorize
  | FinishAdmission AuthDecision
  | StartAccepting
  | EndAccepting
  | CloseListener
  | NewCwd bytes
  | Freeze bool
  | FinalizeBegin bool
  | FinalizeElect bool
  | FinalizeEnd bool close_outcome

fun obj_step :: "time \<Rightarrow> ownerObj \<Rightarrow> obj_event \<Rightarrow> ownerObj option" where
  "obj_step now oo (OwnerEvent touched ev) =
     map_option (\<lambda>ow. if touched then touchActivity now (oo\<lparr>oo_owner := ow\<rparr>) else oo\<lparr>oo_owner := ow\<rparr>) (owner_step now (oo_owner oo) ev)"
| "obj_step now oo (ReserveFresh token cwd e) = Some (fst (ownerPreRegister now token cwd e oo))"
| "obj_step now oo (ReserveInitial expired token cwd e) =
     Some (case PreRegisterInitial now expired token cwd e oo of None \<Rightarrow> oo | Some (oo', _) \<Rightarrow> oo')"
| "obj_step now oo (Revoke token) = Some (revokePendingAdmission token oo)"
| "obj_step now oo (Arrive input s) = Some (acceptConnection input s oo)"
| "obj_step now oo BeginAuthorize = Some (beginAuthorize oo)"
| "obj_step now oo (FinishAdmission verdict) = Some (finishAdmission now verdict oo)"
| "obj_step now oo StartAccepting = Some (startAcceptLoop oo)"
| "obj_step now oo EndAccepting = Some (endAcceptLoop oo)"
| "obj_step now oo CloseListener = Some (closeListener oo)"
| "obj_step now oo (NewCwd cwd) = Some (AddCwd cwd oo)"
| "obj_step now oo (Freeze b) = Some (oo\<lparr>oo_frozen := b\<rparr>)"
| "obj_step now oo (FinalizeBegin soft) = Some (fst (finalizeBegin soft oo))"
| "obj_step now oo (FinalizeElect expired) = Some (fst (finalizeElect expired oo))"
| "obj_step now oo (FinalizeEnd expired cl) = Some (fst (finalizeEnd expired cl oo))"

fun obj_run :: "ownerObj \<Rightarrow> (time \<times> obj_event) list \<Rightarrow> ownerObj option" where
  "obj_run oo [] = Some oo"
| "obj_run oo ((now, ev) # evs) = (case obj_step now oo ev of None \<Rightarrow> None | Some oo' \<Rightarrow> obj_run oo' evs)"

definition newObj :: "bool \<Rightarrow> time \<Rightarrow> bytes \<Rightarrow> owner \<Rightarrow> ownerObj" where
  "newObj handshake now command ow =
     \<lparr>oo_owner = ow, oo_tokenHandshake = handshake, oo_listenerDone = False, oo_done = False, oo_isAccepting = False,
      oo_acceptStarted = False, oo_acceptDone = False, oo_frozen = False, oo_purged = 0, oo_nativeWork = 0,
      oo_tornDown = False, oo_maintenanceRetired = False, oo_handoffPrepared = False, oo_handoffAbortRequested = False,
      oo_connecting = None, oo_finalizer = None, oo_startTime = now, oo_lastActivityNs = 0, oo_command = command\<rparr>"

end
