(* ===== verification/Owner_Retire.thy ===== *)
theory Owner_Retire
  imports Owner_Admission
begin

text \<open>
  What retirement guarantees: an owner whose finalisation succeeded has no process left and never gets
  one again, and nothing reaches it any more.
\<close>

section \<open>Frames\<close>

definition aside :: "ownerObj \<Rightarrow> ownerObj \<Rightarrow> bool" where
  "aside oo oo' \<longleftrightarrow>
     good (oo_owner oo) (oo_owner oo') \<and> oo_done oo' = oo_done oo \<and> oo_finalizer oo' = oo_finalizer oo \<and>
     oo_maintenanceRetired oo' = oo_maintenanceRetired oo"

lemma aside_refl [simp]: "aside oo oo"
  by (simp add: aside_def)

lemma aside_trans: "aside a b \<Longrightarrow> aside b c \<Longrightarrow> aside a c"
  unfolding aside_def by (metis good_trans)

lemma good_flags [keeps]:
  assumes "good z ow"
  shows "good z (ow\<lparr>ow_admissionClosed := True\<rparr>)" "good z (ow\<lparr>ow_initialAdmissionToken := t\<rparr>)"
proof -
  have "good ow (ow\<lparr>ow_admissionClosed := True\<rparr>)" "good ow (ow\<lparr>ow_initialAdmissionToken := t\<rparr>)"
    by (simp_all add: good_def sticky_def persistent_def isolated_def ocounted_def)
  then show "good z (ow\<lparr>ow_admissionClosed := True\<rparr>)" "good z (ow\<lparr>ow_initialAdmissionToken := t\<rparr>)"
    using assms by (blast intro: good_trans)+
qed

lemma good_manager [keeps]: "good z ow \<Longrightarrow> good z (onRouting (ro_mgr_update f) ow)"
  by (erule good_routing_same) simp_all

lemma aside_onOwner: "good (oo_owner oo) (f (oo_owner oo)) \<Longrightarrow> aside oo (onOwner f oo)"
  by (simp add: aside_def onOwner_def)

lemma aside_onManager [simp]: "aside oo (onManager f oo)"
  unfolding onManager_def by (rule aside_onOwner) (auto intro: keeps)

lemma aside_touch [simp]: "aside oo (touchActivity now oo')  \<longleftrightarrow> aside oo oo'"
  by (simp add: aside_def touchActivity_def)

lemma touch_frame [simp]:
  "oo_owner (touchActivity now oo) = oo_owner oo" "oo_done (touchActivity now oo) = oo_done oo"
  "oo_finalizer (touchActivity now oo) = oo_finalizer oo" "oo_maintenanceRetired (touchActivity now oo) = oo_maintenanceRetired oo"
  by (simp_all add: touchActivity_def)

lemma aside_drop: "aside z oo \<Longrightarrow> aside z (dropConnection revoke cn oo)"
  by (auto simp: dropConnection_def revokePendingAdmission_def aside_def onManager_def onOwner_def intro: keeps)

lemma aside_closeListener [simp]: "aside oo (closeListener oo)"
  by (auto simp: closeListener_def aside_def onManager_def onOwner_def case_prod_beta intro!: keeps)

lemma aside_teardown [simp]: "aside oo (teardownExceptUpstream oo)"
proof -
  have "good (oo_owner oo) (closeSessions ks (oo_owner (closeListener oo)))" for ks
    using aside_closeListener [of oo] by (auto simp: aside_def intro: keeps)
  then show ?thesis using aside_closeListener [of oo] by (simp add: teardownExceptUpstream_def aside_def onOwner_def)
qed

lemma aside_reserve [simp]: "aside oo (fst (ownerPreRegister now token cwd e oo))"
  by (simp add: ownerPreRegister_def)

lemma aside_initial:
  assumes "PreRegisterInitial now expired token cwd e oo = Some (oo', ok)"
  shows "aside oo oo'"
  using assms by (auto simp: PreRegisterInitial_def Let_def onManager_def onOwner_def aside_def intro!: keeps split: if_splits)

lemma aside_accept [simp]: "aside oo (acceptConnection input s oo)"
  by (simp add: acceptConnection_def aside_def Let_def split: option.split)

lemma aside_beginAuthorize [simp]: "aside oo (beginAuthorize oo)"
proof -
  have "aside oo (oo\<lparr>oo_nativeWork := n\<rparr>)" "aside oo (oo\<lparr>oo_nativeWork := n, oo_connecting := c\<rparr>)" for n c by (simp_all add: aside_def)
  then show ?thesis by (auto simp: beginAuthorize_def reserveNativeWork_def intro: aside_drop split: option.split)
qed

lemma aside_commit [simp]: "aside oo (commitAdmission now cn oo)"
proof -
  have "aside oo (onOwner (AddSession now s) (onManager (\<lambda>_. sm) oo))" for s sm
    by (auto simp: onManager_def onOwner_def aside_def intro!: keeps)
  then show ?thesis by (auto simp: commitAdmission_def Let_def intro!: aside_drop)
qed

lemma aside_finishAdmission [simp]: "aside oo (finishAdmission now verdict oo)"
  by (auto simp: finishAdmission_def intro: aside_drop split: option.split AuthDecision.split)

lemma aside_others [simp]:
  "aside oo (startAcceptLoop oo)" "aside oo (endAcceptLoop oo)" "aside oo (revokePendingAdmission token oo)"
  "aside oo (oo\<lparr>oo_frozen := b\<rparr>)" "aside oo (AddCwd cwd oo)"
  by (auto simp: startAcceptLoop_def endAcceptLoop_def revokePendingAdmission_def AddCwd_def aside_def onManager_def onOwner_def Let_def
      isolated_def intro!: keeps good_class)

section \<open>The invariant\<close>

definition halted :: "owner \<Rightarrow> bool" where
  "halted ow \<longleftrightarrow> ma_stop (ow_ma ow) \<and> ma_attempt (ow_ma ow) = None \<and> ma_upstream (ow_ma ow) = None"

definition fin_ok :: "finalizer \<Rightarrow> owner \<Rightarrow> bool" where
  "fin_ok fz ow \<longleftrightarrow>
     ma_stop (ow_ma ow) \<and> (ma_attempt (ow_ma ow) = None \<or> agen (ow_ma ow) = fz_attempt fz) \<and>
     (fz_elected fz \<longrightarrow>
        (ma_upstream (ow_ma ow) = None \<or> ma_upstream (ow_ma ow) = fz_process fz) \<and>
        (ma_attempt (ow_ma ow) = None \<or> fz_maintenance fz))"

definition obj_ok :: "nat set \<Rightarrow> ownerObj \<Rightarrow> bool" where
  "obj_ok R oo \<longleftrightarrow>
     proc_ok R (oo_owner oo) \<and> ocounted (oo_owner oo) \<and> (oo_done oo \<longrightarrow> halted (oo_owner oo)) \<and>
     (oo_maintenanceRetired oo \<longrightarrow> oo_done oo) \<and>
     (\<forall>fz. oo_finalizer oo = Some fz \<longrightarrow> \<not> oo_done oo \<and> fin_ok fz (oo_owner oo))"

text \<open>
  A maintenance hold is not lifted while a finalisation for maintenance is at work; the daemon releases
  a hold only when all its owners are retired.
\<close>

definition holds :: "ownerObj \<Rightarrow> bool" where
  "holds oo \<longleftrightarrow>
     (case oo_finalizer oo of
        None \<Rightarrow> True
      | Some fz \<Rightarrow> fz_elected fz \<and> fz_maintenance fz \<longrightarrow> ow_maintenance (oo_owner oo) \<noteq> None)"

lemma halting_None: "halting m m' \<Longrightarrow> ma_stop m \<Longrightarrow> ma_attempt m = None \<Longrightarrow> ma_attempt m' = None"
  by (auto simp: halting_def)

lemma halted_moved:
  assumes "halted ow" "moved R ow ow'"
  shows "halted ow'"
proof -
  have "halting (ow_ma ow) (ow_ma ow')" using assms(2) by (auto simp: moved_def stays_def sticky_def)
  then have "ma_stop (ow_ma ow')" "ma_attempt (ow_ma ow') = None"
    using assms(1) halting_None [of "ow_ma ow" "ow_ma ow'"] by (simp_all add: halted_def) (simp add: halting_def)
  moreover have "ma_upstream (ow_ma ow') = None" using assms by (auto simp: moved_def stays_def halted_def)
  ultimately show ?thesis by (simp add: halted_def)
qed

lemma fin_ok_moved:
  assumes "fin_ok fz ow" "moved R ow ow'" "fz_elected fz \<and> fz_maintenance fz \<longrightarrow> ow_maintenance ow \<noteq> None"
  shows "fin_ok fz ow'"
proof -
  have h: "halting (ow_ma ow) (ow_ma ow')" using assms(2) by (auto simp: moved_def stays_def sticky_def)
  then have "ma_stop (ow_ma ow')" "ma_attempt (ow_ma ow') = None \<or> agen (ow_ma ow') = fz_attempt fz"
    using assms(1) unfolding fin_ok_def halting_def by (blast, metis map_option_is_None)
  moreover have "ma_attempt (ow_ma ow') = None \<or> fz_maintenance fz" if "fz_elected fz"
    using that assms(1) halting_None [OF h] unfolding fin_ok_def by blast
  moreover have "ma_upstream (ow_ma ow') = None \<or> ma_upstream (ow_ma ow') = fz_process fz" if "fz_elected fz"
    using that assms by (auto simp: fin_ok_def moved_def stays_def)
  ultimately show ?thesis by (simp add: fin_ok_def)
qed

lemma obj_ok_moved:
  assumes "obj_ok R oo" "holds oo" "moved R' (oo_owner oo) (oo_owner oo')" "oo_done oo' = oo_done oo" "oo_finalizer oo' = oo_finalizer oo"
    "oo_maintenanceRetired oo' = oo_maintenanceRetired oo"
  shows "obj_ok R' oo'"
proof -
  have "proc_ok R' (oo_owner oo')" "sticky (oo_owner oo) (oo_owner oo')" using assms(3) by (auto simp: moved_def stays_def)
  then have "ocounted (oo_owner oo')" using assms(1) by (auto simp: sticky_def obj_ok_def)
  moreover have "fin_ok fz (oo_owner oo')" if "oo_finalizer oo = Some fz" for fz
    using that assms(1,2) by (intro fin_ok_moved [OF _ assms(3)]) (auto simp: obj_ok_def holds_def)
  ultimately show ?thesis using assms(1,4,5,6) halted_moved [OF _ assms(3)] \<open>proc_ok R' (oo_owner oo')\<close> by (auto simp: obj_ok_def)
qed

lemma obj_ok_aside:
  assumes "obj_ok R oo" "holds oo" "aside oo oo'"
  shows "obj_ok R oo'"
  by (rule obj_ok_moved [OF assms(1,2)]) (use assms in \<open>auto simp: aside_def obj_ok_def intro: moved_stays stays_good\<close>)

section \<open>The steps of a finalisation\<close>

text \<open>The processes that an event proves gone.\<close>

fun objProven :: "ownerObj \<Rightarrow> obj_event \<Rightarrow> nat set" where
  "objProven oo (OwnerEvent touched ev) = provenBy (oo_owner oo) ev"
| "objProven oo (FinalizeEnd expired cl) =
     (case oo_finalizer oo of
        None \<Rightarrow> {}
      | Some fz \<Rightarrow> if fz_elected fz \<and> finalizeProven cl fz oo then set_option (fz_process fz) else {})"
| "objProven oo _ = {}"

lemma stop_set: "ma_stop (ow_ma (stopMaterialization ow))"
proof (cases "ma_stop (ow_ma ow)")
  case True
  then show ?thesis by (simp add: stopMaterialization_def)
next
  case False
  let ?ow = "onSignals (signalFailure ''owner shutting down'') (onMat (\<lambda>m. m\<lparr>ma_stop := True\<rparr>) ow)"
  have "ma_stop (ow_ma ?ow)" by (simp add: onSignals_def setAttempt_def on_defs)
  moreover have "good ?ow (failAllLocalDemands ''owner shutting down'' ?ow)" by (intro keeps good_refl)
  ultimately show ?thesis using False by (simp add: stopMaterialization_def good_def sticky_def halting_def)
qed

lemma stop_kept: "good ow ow' \<Longrightarrow> ma_stop (ow_ma ow) \<Longrightarrow> ma_stop (ow_ma ow')"
  by (simp add: good_def sticky_def halting_def)

lemma fin_begin:
  assumes "obj_ok R oo" "holds oo"
  shows "obj_ok R (fst (finalizeBegin soft oo))"
proof -
  let ?held = "ow_maintenance (oo_owner oo) \<noteq> None"
  define oo1 where "oo1 = onOwner (\<lambda>ow. stopMaterialization (DrainForMaintenance ow)) oo"
  define oo2 where "oo2 = (if ?held then onOwner drainInflightRequests oo1 else oo1)"
  define oo3 where "oo3 = onOwner cancelMaterialization (teardownExceptUpstream oo2)"
  have "aside oo oo1" unfolding oo1_def by (rule aside_onOwner) (intro keeps good_refl)
  have "aside oo1 oo2" unfolding oo2_def by (auto intro!: aside_onOwner keeps)
  moreover have "aside oo2 (teardownExceptUpstream oo2)" by simp
  moreover have "aside (teardownExceptUpstream oo2) oo3"
    unfolding oo3_def by (rule aside_onOwner) (auto simp: cancelMaterialization_def intro!: good_setAttempt)
  ultimately have later: "aside oo1 oo3" by (blast intro: aside_trans)
  then have all: "aside oo oo3" using \<open>aside oo oo1\<close> by (blast intro: aside_trans)
  have "ma_stop (ow_ma (oo_owner oo1))" by (simp add: oo1_def onOwner_def stop_set)
  then have stop: "ma_stop (ow_ma (oo_owner oo3))" using later stop_kept by (auto simp: aside_def)
  have ok: "obj_ok R oo3" using obj_ok_aside [OF assms all] .
  have "obj_ok R (blockFinalization e oo)" for e
    by (rule obj_ok_aside [OF assms]) (auto simp: blockFinalization_def intro!: aside_onOwner good_mat)
  moreover have "obj_ok R (oo3\<lparr>oo_finalizer := Some fz\<rparr>)"
    if "\<not> oo_done oo" "fz_attempt fz = agen (ow_ma (oo_owner oo3))" "\<not> fz_elected fz" for fz
    using that ok all stop by (auto simp: obj_ok_def fin_ok_def aside_def)
  ultimately show ?thesis using assms(1)
    unfolding finalizeBegin_def Let_def oo1_def [symmetric] oo2_def [symmetric] oo3_def [symmetric] by auto
qed

lemma fin_elect:
  assumes "obj_ok R oo" "holds oo"
  shows "obj_ok R (fst (finalizeElect expired oo))"
proof (cases "oo_finalizer oo")
  case None
  then show ?thesis using assms(1) by (simp add: finalizeElect_def)
next
  case (Some fz)
  let ?m = "ow_ma (oo_owner oo)"
  define proc where "proc = (case ma_retiring ?m of Some q \<Rightarrow> Some q | None \<Rightarrow> ma_upstream ?m)"
  define oo1 where "oo1 = (if proc = None then oo
      else onOwner (onMat (\<lambda>m. m\<lparr>ma_retiring := proc, ma_state := MaterializationFinalizing, ma_dead := True\<rparr>)) oo)"
  have mark: "proc = ma_retiring ?m \<or> proc = ma_upstream ?m" by (auto simp: proc_def split: option.split)
  have up: "ma_upstream ?m = None \<or> ma_upstream ?m = proc"
    using assms(1) by (auto simp: proc_def obj_ok_def proc_ok_def split: option.split)
  have aside: "aside oo oo1" unfolding oo1_def using mark by (auto intro!: aside_onOwner good_mat)
  have same: "oo_done oo1 = oo_done oo" "oo_finalizer oo1 = Some fz" "agen (ow_ma (oo_owner oo1)) = agen ?m"
    "ma_upstream (ow_ma (oo_owner oo1)) = ma_upstream ?m" using Some by (simp_all add: oo1_def onOwner_def on_defs)
  have ok: "obj_ok R oo1" using obj_ok_aside [OF assms aside] .
  have quiet: "obj_ok R (oo\<lparr>oo_finalizer := None\<rparr>)" using assms(1) by (simp add: obj_ok_def)
  show ?thesis
  proof (cases "fz_elected fz \<or> \<not> fz_maintenance fz \<and> \<not> attemptSettled (fz_attempt fz) oo")
    case True
    then show ?thesis using Some assms(1) quiet by (auto simp: finalizeElect_def)
  next
    case False
    have att: "ma_attempt ?m = None \<or> fz_maintenance fz"
      using False Some assms(1) by (auto simp: attemptSettled_def obj_ok_def fin_ok_def split: option.splits)
    then have "ma_attempt (ow_ma (oo_owner oo1)) = None \<or> fz_maintenance fz" using same(3) by (metis map_option_is_None)
    moreover have "ma_stop (ow_ma (oo_owner oo1))" "ma_attempt (ow_ma (oo_owner oo1)) = None \<or> agen (ow_ma (oo_owner oo1)) = fz_attempt fz"
      using ok same(2) unfolding obj_ok_def fin_ok_def by blast+
    moreover have "ma_upstream (ow_ma (oo_owner oo1)) = None \<or> ma_upstream (ow_ma (oo_owner oo1)) = proc" using up unfolding same(4) .
    ultimately have "fin_ok (fz\<lparr>fz_elected := True, fz_process := proc\<rparr>) (oo_owner oo1)" by (simp add: fin_ok_def)
    then have "obj_ok R (oo1\<lparr>oo_finalizer := Some (fz\<lparr>fz_elected := True, fz_process := proc\<rparr>)\<rparr>)"
      using ok same by (auto simp: obj_ok_def)
    moreover have "fst (finalizeElect expired oo) = oo1\<lparr>oo_finalizer := Some (fz\<lparr>fz_elected := True, fz_process := proc\<rparr>)\<rparr>"
      unfolding finalizeElect_def Some option.case Let_def proc_def [symmetric] oo1_def [symmetric] using False by auto
    ultimately show ?thesis by simp
  qed
qed

text \<open>The end: the attempt is over, and what is left is the elected process or nothing.\<close>

lemma fin_end:
  assumes "obj_ok R oo" "holds oo"
  shows "obj_ok (R \<union> objProven oo (FinalizeEnd expired cl)) (fst (finalizeEnd expired cl oo))"
proof (cases "oo_finalizer oo")
  case None
  then show ?thesis using assms(1) by (simp add: finalizeEnd_def)
next
  case (Some fz)
  let ?m = "ow_ma (oo_owner oo)"
  have mono: "obj_ok (R \<union> S) oo'" if "obj_ok R oo'" for S oo' using that by (auto simp: obj_ok_def intro: proc_ok_mono)
  have quiet: "obj_ok R (oo\<lparr>oo_finalizer := None\<rparr>)" using assms(1) by (simp add: obj_ok_def)
  show ?thesis
  proof (cases "\<not> fz_elected fz \<or> fz_maintenance fz \<and> \<not> attemptSettled (fz_attempt fz) oo")
    case True
    then show ?thesis using Some assms(1) mono [OF assms(1)] mono [OF quiet] by (auto simp: finalizeEnd_def)
  next
    case False
    have fin: "fin_ok fz (oo_owner oo)" "\<not> oo_done oo" using Some assms(1) by (auto simp: obj_ok_def)
    have att: "ma_attempt ?m = None" using False fin by (auto simp: fin_ok_def attemptSettled_def split: option.splits)
    have up: "ma_upstream ?m = None \<or> ma_upstream ?m = fz_process fz" and stop: "ma_stop ?m" using False fin by (auto simp: fin_ok_def)
    have base: "kept R ?m" "ocounted (oo_owner oo)" "\<not> oo_maintenanceRetired oo" using assms(1) fin(2) by (auto simp: obj_ok_def proc_ok_def)
    show ?thesis
    proof (cases "finalizeProven cl fz oo")
      case True
      let ?ow = "onMat (retireOwner (fz_process fz)) (oo_owner oo)"
      have "proc_ok (R \<union> set_option (fz_process fz)) ?ow"
        using base(1) up att by (auto simp: proc_ok_def kept_def retireOwner_def on_defs)
      moreover have "halted ?ow" using up att stop by (auto simp: halted_def retireOwner_def on_defs)
      moreover have "ocounted ?ow" using base(2) by (simp add: ocounted_def on_defs)
      moreover have "fz_elected fz" "\<not> (fz_maintenance fz \<and> \<not> attemptSettled (fz_attempt fz) oo)" using False by auto
      ultimately show ?thesis using Some True by (simp add: finalizeEnd_def obj_ok_def onOwner_def del: not_not de_Morgan_conj)
    next
      case unproven: False
      have "obj_ok R (onOwner (onMat (\<lambda>m. m\<lparr>ma_retiring := fz_process fz\<rparr>)) (blockFinalization e oo)\<lparr>oo_finalizer := None\<rparr>)" for e
        using base up att fin(2) by (auto simp: obj_ok_def proc_ok_def kept_def ocounted_def blockFinalization_def onOwner_def on_defs)
      then show ?thesis using Some False unproven mono by (auto simp: finalizeEnd_def Let_def)
    qed
  qed
qed

section \<open>Every event and every run\<close>

fun plain :: "obj_event \<Rightarrow> bool" where
  "plain (OwnerEvent touched ev) = False"
| "plain (FinalizeBegin soft) = False"
| "plain (FinalizeElect expired) = False"
| "plain (FinalizeEnd expired cl) = False"
| "plain ev = True"

lemma obj_step_plain: "obj_step now oo ev = Some oo' \<Longrightarrow> plain ev \<Longrightarrow> aside oo oo' \<and> objProven oo ev = {}"
  by (cases ev) (auto dest: aside_initial split: option.splits)

lemma obj_ok_hold: "obj_ok R (oo\<lparr>oo_owner := (oo_owner oo)\<lparr>ow_maintenance := h\<rparr>\<rparr>) = obj_ok R oo"
  by (simp add: obj_ok_def halted_def fin_ok_def)

lemma obj_step_ok:
  assumes "obj_ok R oo" "holds oo" "obj_step now oo ev = Some oo'"
  shows "obj_ok (R \<union> objProven oo ev) oo'"
proof (cases ev)
  case (OwnerEvent touched e)
  obtain ow where ow: "owner_step now (oo_owner oo) e = Some ow" and oo': "oo_owner oo' = ow" "oo_done oo' = oo_done oo"
    "oo_finalizer oo' = oo_finalizer oo" "oo_maintenanceRetired oo' = oo_maintenanceRetired oo"
    using assms(3) OwnerEvent by (cases touched) auto
  have "proc_ok R (oo_owner oo)" using assms(1) by (simp add: obj_ok_def)
  from owner_step_moved [OF this ow] show ?thesis
  proof (elim disjE exE conjE)
    assume "moved (R \<union> provenBy (oo_owner oo) e) (oo_owner oo) ow"
    then show ?thesis using obj_ok_moved [OF assms(1,2)] oo' OwnerEvent by simp
  next
    fix m h assume "ow = (oo_owner oo)\<lparr>ow_maintenance := h\<rparr>"
    then show ?thesis using assms(1) oo' proc_ok_mono [of R "oo_owner oo"]
      by (auto simp: obj_ok_def halted_def fin_ok_def OwnerEvent)
  qed
next
  case (FinalizeBegin soft)
  then show ?thesis using assms(3) fin_begin [OF assms(1,2)] by auto
next
  case (FinalizeElect expired)
  then show ?thesis using assms(3) fin_elect [OF assms(1,2)] by auto
next
  case (FinalizeEnd expired cl)
  then have "oo' = fst (finalizeEnd expired cl oo)" using assms(3) by simp
  then show ?thesis unfolding FinalizeEnd using fin_end [OF assms(1,2)] by (simp del: objProven.simps)
qed (use obj_step_plain [OF assms(3)] obj_ok_aside [OF assms(1,2)] in auto)

text \<open>
  A finalisation for maintenance goes on under a hold. Only the daemon changes the hold of an owner,
  so every other event keeps this.
\<close>

definition underHold :: "ownerObj \<Rightarrow> bool" where
  "underHold oo \<longleftrightarrow> (\<forall>fz. oo_finalizer oo = Some fz \<longrightarrow> fz_maintenance fz \<longrightarrow> ow_maintenance (oo_owner oo) \<noteq> None)"

lemma underHold_holds: "underHold oo \<Longrightarrow> holds oo"
  by (auto simp: underHold_def holds_def split: option.split)

lemma aside_maintenance: "aside oo oo' \<Longrightarrow> ow_maintenance (oo_owner oo') = ow_maintenance (oo_owner oo)"
  by (simp add: aside_def good_def sticky_def)

lemma underHold_aside: "underHold oo \<Longrightarrow> aside oo oo' \<Longrightarrow> underHold oo'"
  using aside_maintenance [of oo oo'] by (simp add: underHold_def aside_def)

lemma underHold_begin: "underHold oo \<Longrightarrow> underHold (fst (finalizeBegin soft oo))"
proof -
  have "aside oo (onOwner (\<lambda>ow. stopMaterialization (DrainForMaintenance ow)) oo)" by (rule aside_onOwner) (intro keeps good_refl)
  moreover have "aside x (onOwner drainInflightRequests x)" for x by (rule aside_onOwner) (intro keeps good_refl)
  moreover have "aside x (onOwner cancelMaterialization (teardownExceptUpstream x))" for x
    by (rule aside_trans [OF aside_teardown]) (auto simp: cancelMaterialization_def intro!: aside_onOwner good_setAttempt)
  ultimately have
    "ow_maintenance (oo_owner (onOwner (\<lambda>ow. stopMaterialization (DrainForMaintenance ow)) oo)) = ow_maintenance (oo_owner oo)"
    "\<And>x. ow_maintenance (oo_owner (onOwner drainInflightRequests x)) = ow_maintenance (oo_owner x)"
    "\<And>x. ow_maintenance (oo_owner (onOwner cancelMaterialization (teardownExceptUpstream x))) = ow_maintenance (oo_owner x)"
    by (blast intro: aside_maintenance)+
  note kept = this
  have block: "ow_maintenance (oo_owner (blockFinalization e oo)) = ow_maintenance (oo_owner oo)"
    "oo_finalizer (blockFinalization e oo) = oo_finalizer oo" for e by (simp_all add: blockFinalization_def onOwner_def onMat_def)
  assume "underHold oo"
  then show ?thesis unfolding underHold_def finalizeBegin_def Let_def by (auto simp: kept block)
qed

lemma underHold_step:
  assumes "obj_ok R oo" "underHold oo" "obj_step now oo ev = Some oo'" "\<And>b m. ev \<noteq> OwnerEvent b (EvSetMaintenance m)"
  shows "underHold oo'"
proof (cases ev)
  case (OwnerEvent touched e)
  obtain ow where ow: "owner_step now (oo_owner oo) e = Some ow" and oo': "oo_owner oo' = ow" "oo_finalizer oo' = oo_finalizer oo"
    using assms(3) OwnerEvent by (cases touched) auto
  have "ow_maintenance ow = ow_maintenance (oo_owner oo)"
    using owner_step_maintenance [OF _ ow] assms(1,4) OwnerEvent by (auto simp: obj_ok_def)
  then show ?thesis using assms(2) oo' by (simp add: underHold_def)
next
  case (FinalizeBegin soft)
  then show ?thesis using assms(3) underHold_begin [OF assms(2)] by auto
next
  case (FinalizeElect expired)
  then show ?thesis using assms(2,3) by (cases "oo_finalizer oo") (auto simp: finalizeElect_def underHold_def Let_def onOwner_def onMat_def split: if_splits)
next
  case (FinalizeEnd expired cl)
  then show ?thesis using assms(2,3)
    by (cases "oo_finalizer oo") (auto simp: finalizeEnd_def underHold_def Let_def onOwner_def onMat_def blockFinalization_def split: if_splits)
qed (use obj_step_plain [OF assms(3)] underHold_aside [OF assms(2)] in simp_all)

fun objProvenRun :: "ownerObj \<Rightarrow> (time \<times> obj_event) list \<Rightarrow> nat set" where
  "objProvenRun oo [] = {}"
| "objProvenRun oo ((now, ev) # evs) =
     objProven oo ev \<union> (case obj_step now oo ev of None \<Rightarrow> {} | Some oo' \<Rightarrow> objProvenRun oo' evs)"

fun holdsRun :: "ownerObj \<Rightarrow> (time \<times> obj_event) list \<Rightarrow> bool" where
  "holdsRun oo [] \<longleftrightarrow> holds oo"
| "holdsRun oo ((now, ev) # evs) \<longleftrightarrow> holds oo \<and> (case obj_step now oo ev of None \<Rightarrow> True | Some oo' \<Rightarrow> holdsRun oo' evs)"

lemma obj_run_ok:
  assumes "obj_ok R oo" "holdsRun oo evs" "obj_run oo evs = Some oo'"
  shows "obj_ok (R \<union> objProvenRun oo evs) oo'"
  using assms
proof (induction evs arbitrary: R oo)
  case (Cons e evs)
  obtain now ev where e: "e = (now, ev)" by force
  obtain oo1 where step: "obj_step now oo ev = Some oo1" "obj_run oo1 evs = Some oo'"
    using Cons.prems(3) e by (auto split: option.splits)
  have "obj_ok (R \<union> objProven oo ev) oo1" using obj_step_ok Cons.prems(1,2) step(1) e by auto
  then have "obj_ok (R \<union> objProven oo ev \<union> objProvenRun oo1 evs) oo'"
    using Cons.IH [OF _ _ step(2)] Cons.prems(2) by (simp add: e step(1))
  then show ?case by (simp add: e step(1) Un_assoc)
qed simp

lemma newObj_ok: "obj_ok {} (newObj handshake now command (NewOwner pid sequence cfg en))"
  using NewOwner_ok [of pid sequence cfg en] by (simp add: newObj_def obj_ok_def)

section \<open>The properties\<close>

lemma retired_step:
  assumes "obj_ok R oo" "holds oo" "oo_done oo" "obj_step now oo ev = Some oo'"
  shows "oo_done oo' \<and> ma_nextProc (ow_ma (oo_owner oo')) = ma_nextProc (ow_ma (oo_owner oo))"
proof -
  have still: ?thesis if "aside oo oo'" using that assms(3) by (simp add: aside_def good_def steady_def)
  show ?thesis
  proof (cases ev)
    case (OwnerEvent touched e)
    obtain ow where ow: "owner_step now (oo_owner oo) e = Some ow" and oo': "oo_owner oo' = ow" "oo_done oo' = oo_done oo"
      using assms(4) OwnerEvent by (cases touched) auto
    have "proc_ok R (oo_owner oo)" using assms(1) by (simp add: obj_ok_def)
    then show ?thesis using owner_step_moved [OF _ ow] assms(1,3) oo' by (fastforce simp: moved_def stays_def obj_ok_def halted_def)
  next
    case (FinalizeBegin soft)
    have "aside oo (blockFinalization e oo)" for e by (auto simp: blockFinalization_def intro!: aside_onOwner good_mat)
    then have "aside oo oo'" using assms(1,3,4) FinalizeBegin by (auto simp: finalizeBegin_def Let_def obj_ok_def)
    then show ?thesis by (rule still)
  next
    case (FinalizeElect expired)
    then show ?thesis using assms by (cases "oo_finalizer oo") (auto simp: finalizeElect_def obj_ok_def)
  next
    case (FinalizeEnd expired cl)
    then show ?thesis using assms by (cases "oo_finalizer oo") (auto simp: finalizeEnd_def obj_ok_def)
  qed (use still obj_step_plain [OF assms(4)] in auto)
qed

lemma retired_run:
  assumes "obj_ok R oo" "oo_done oo" "holdsRun oo evs" "obj_run oo evs = Some oo'"
  shows "oo_done oo' \<and> ma_nextProc (ow_ma (oo_owner oo')) = ma_nextProc (ow_ma (oo_owner oo)) \<and> ma_upstream (ow_ma (oo_owner oo')) = None"
  using assms
proof (induction evs arbitrary: R oo)
  case Nil
  then show ?case by (simp add: obj_ok_def halted_def)
next
  case (Cons e evs)
  obtain now ev where e: "e = (now, ev)" by force
  obtain oo1 where step: "obj_step now oo ev = Some oo1" "obj_run oo1 evs = Some oo'"
    using Cons.prems(4) e by (auto split: option.splits)
  have h: "holds oo" "holdsRun oo1 evs" using Cons.prems(3) by (simp_all add: e step(1))
  show ?case using Cons.IH [OF obj_step_ok [OF Cons.prems(1) h(1) step(1)] _ h(2) step(2)]
      retired_step [OF Cons.prems(1) h(1) Cons.prems(2) step(1)] by simp
qed

text \<open>
  C7: A retired owner leaves no process behind. Once the finalisation of an owner has succeeded (its
  channel \<open>done\<close> is closed), every process that the owner ever started has been proven gone, and
  whatever happens afterwards, late events of sessions, processes, timers and callbacks included, no
  process is started again. The condition is that a maintenance hold is not lifted during the
  finalisation that it caused.
\<close>
theorem finalized_owner_stays_retired:
  assumes "obj_run (newObj handshake start command (NewOwner pid sequence cfg en)) evs = Some oo"
    "holdsRun (newObj handshake start command (NewOwner pid sequence cfg en)) evs"
    "oo_done oo" "obj_run oo evs' = Some oo'" "holdsRun oo evs'"
  shows "oo_done oo' \<and> ma_upstream (ow_ma (oo_owner oo')) = None \<and>
    (\<forall>q<ma_nextProc (ow_ma (oo_owner oo')). q \<in> objProvenRun (newObj handshake start command (NewOwner pid sequence cfg en)) evs)"
proof -
  let ?oo = "newObj handshake start command (NewOwner pid sequence cfg en)"
  have ok: "obj_ok (objProvenRun ?oo evs) oo" using obj_run_ok [OF newObj_ok assms(2,1)] by simp
  then have "\<forall>q<ma_nextProc (ow_ma (oo_owner oo)). q \<in> objProvenRun ?oo evs"
    using assms(3) by (auto simp: obj_ok_def proc_ok_def kept_def halted_def)
  then show ?thesis using retired_run [OF ok assms(3,5,4)] by simp
qed

definition demo_close :: close_outcome where
  "demo_close = \<lparr>cl_exit = 0, cl_err = None, cl_proven = True, cl_treesDead = True, cl_handler = False, cl_again = (0, None, True)\<rparr>"

text \<open>A process is started, the owner is told to finalise, the attempt retires the process and ends.\<close>

definition demo_retirement :: "(time \<times> obj_event) list" where
  "demo_retirement =
     map (\<lambda>ev. (0, ev))
       [StartAccepting, OwnerEvent False (EvAttempt Proceed), OwnerEvent False (EvAttempt (StartResult True None)), FinalizeBegin False,
        OwnerEvent False (EvAttempt (Chosen CaseStop)), OwnerEvent False (EvAttempt (Chosen CaseFailed)),
        OwnerEvent False (EvAttempt (Retired None None)), OwnerEvent False (EvAttempt (Chosen CaseStop)), EndAccepting,
        FinalizeElect False, FinalizeEnd False demo_close]"

definition demo_obj :: ownerObj where
  "demo_obj = newObj True 1 ''srv'' (NewOwner 1 1 demo_config demo_outside)"

lemma demo_retired:
  obtains oo where "obj_run demo_obj demo_retirement = Some oo" "holdsRun demo_obj demo_retirement" "oo_done oo"
    "ma_nextProc (ow_ma (oo_owner oo)) = 1"
proof -
  have "(case obj_run demo_obj demo_retirement of None \<Rightarrow> False | Some oo \<Rightarrow> oo_done oo \<and> ma_nextProc (ow_ma (oo_owner oo)) = 1)"
    by code_simp
  moreover have "holdsRun demo_obj demo_retirement" by code_simp
  ultimately show thesis using that by (auto split: option.splits)
qed

theorem finalized_owner_stays_retired_witness:
  "\<exists>oo. obj_run demo_obj demo_retirement = Some oo \<and> oo_done oo \<and> ma_upstream (ow_ma (oo_owner oo)) = None \<and>
     0 \<in> objProvenRun demo_obj demo_retirement"
proof -
  obtain oo where oo: "obj_run demo_obj demo_retirement = Some oo" "holdsRun demo_obj demo_retirement" "oo_done oo"
    "ma_nextProc (ow_ma (oo_owner oo)) = 1" using demo_retired by blast
  have "holdsRun oo []" using oo(3) obj_run_ok [OF newObj_ok, of True 1 "''srv''" 1 1 demo_config demo_outside demo_retirement oo] oo
    by (auto simp: holds_def obj_ok_def demo_obj_def)
  then show ?thesis
    using finalized_owner_stays_retired [of True 1 "''srv''" 1 1 demo_config demo_outside demo_retirement oo "[]" oo] oo
    by (auto simp: demo_obj_def)
qed

section \<open>A request that outlives its session\<close>

lemma ro_outside: "outside ow ow' \<Longrightarrow> ro_inflight (ow_ro ow') = ro_inflight (ow_ro ow) \<and> ro_mgr (ow_ro ow') = ro_mgr (ow_ro ow)"
  using outside_routing by blast

lemma disconnect_routing:
  assumes "sessionAt ow p = Some s"
  shows "ro_inflight (ow_ro (endSession now p ow)) = ro_inflight (ow_ro ow)"
    "inflight (ro_mgr (ow_ro (endSession now p ow))) = mkeep (\<lambda>_ sid. sid \<noteq> sp_ID p) (inflight (ro_mgr (ow_ro ow)))"
proof -
  let ?c = "closeSession p ow"
  have out: "outside ow ?c" by (rule outside_closeSession)
  have "sessionAt ?c p \<noteq> None"
    using assms by (auto simp: closeSession_def sessionAt_def updateSession_def onRouting_def CloseSession_def split: option.splits if_splits)
  then obtain s' where s': "sessionAt ?c p = Some s'" by blast
  let ?ow1 = "onRouting (\<lambda>r. dropSessionTokens (sp_ID p) (r\<lparr>ro_sessions := mdel (ro_sessions r) (sp_ID p)\<rparr>)) ?c"
  let ?ow2 = "cancelLocalDemandsForSession (sp_ID p) ?ow1"
  let ?ow3 = "if ow_sessions ?ow1 = [] then cancelDisposableMaterializationForZeroSessions ?ow2 else ?ow2"
  let ?ow4 = "onRouting (\<lambda>r. r\<lparr>ro_mgr := RemoveSession (ro_mgr r) now (sp_ID p)\<rparr>) ?ow3"
  have ro3: "ow_ro ?ow3 = ow_ro ?ow1"
    by (auto simp: cancelLocalDemandsForSession_def cancelDisposableMaterializationForZeroSessions_def reelect_def setAttempt_def on_defs Let_def
        split: option.split)
  have "ro_inflight (ow_ro ?ow1) = ro_inflight (ow_ro ow)" "ro_mgr (ow_ro ?ow1) = ro_mgr (ow_ro ow)"
    using ro_outside [OF out] by (simp_all add: dropSessionTokens_def Let_def onRouting_def)
  then have four: "ro_inflight (ow_ro ?ow4) = ro_inflight (ow_ro ow)" "ro_mgr (ow_ro ?ow4) = RemoveSession (ro_mgr (ow_ro ow)) now (sp_ID p)"
    using ro3 by (simp_all add: onRouting_def)
  have "outside ?ow4 (endSession now p ow)"
    by (simp add: endSession_def removeSession_def s' Let_def outside_callback outside_sendRootsListChanged)
  then show "ro_inflight (ow_ro (endSession now p ow)) = ro_inflight (ow_ro ow)"
    "inflight (ro_mgr (ow_ro (endSession now p ow))) = mkeep (\<lambda>_ sid. sid \<noteq> sp_ID p) (inflight (ro_mgr (ow_ro ow)))"
    using ro_outside four by (simp_all add: RemoveSession_def Let_def)
qed

lemma claimEntries_other: "key \<notin> set keys \<Longrightarrow> mget (ro_inflight (ow_ro (fst (claimEntries keys ow)))) key = mget (ro_inflight (ow_ro ow)) key"
proof (induction keys arbitrary: ow)
  case (Cons k keys)
  have "mget (ro_inflight (ow_ro (fst (claimEntry ow k)))) key = mget (ro_inflight (ow_ro ow)) key"
    using Cons.prems
    by (auto simp: claimEntry_def Let_def onRouting_def decrementPending_def forgetDrained_def clearProgressTokensForRequest_def split: sum.split)
  then show ?case using Cons by (auto simp: case_prod_beta)
qed simp

lemma drain_other:
  assumes "key \<notin> set (map fst (inflight (ro_mgr (ow_ro ow))))"
  shows "mget (ro_inflight (ow_ro (drainInflightRequests ow))) key = mget (ro_inflight (ow_ro ow)) key"
proof -
  let ?r = "claimInflightRequests ow"
  have "mget (ro_inflight (ow_ro (fst ?r))) key = mget (ro_inflight (ow_ro ow)) key"
    using assms claimEntries_other by (simp add: claimInflightRequests_def DrainInflight_def onRouting_def)
  then show ?thesis using ro_outside [OF outside_deliver] by (simp add: drainInflightRequests_def case_prod_beta)
qed


definition demo_abandoned :: ownerObj where
  "demo_abandoned =
     newObj True 1 ''srv''
       (onRouting (\<lambda>r. r\<lparr>ro_sessions := [(1, NewSession \<lparr>sp_addr = 0, sp_ID = 1\<rparr> ''sess_1'' [])], ro_pending := 1,
           ro_inflight := [(''k'', \<lparr>if_ptr = 0, if_Method = ''ping'', if_Tool = [], if_SessionID = 1, if_StartTime = 0, if_process = Some 0\<rparr>)],
           ro_mgr := (ro_mgr r)\<lparr>inflight := [(''k'', 1)]\<rparr>\<rparr>)
          (onMat (\<lambda>m. m\<lparr>ma_upstream := Some 0, ma_nextProc := 1, ma_state := MaterializationReady\<rparr>)
             (NewOwner 1 1 (demo_config\<lparr>cfg_DeferInitialMaterialization := True\<rparr>) demo_outside)))"

definition demo_loss :: "(time \<times> obj_event) list" where
  "demo_loss = [(0, OwnerEvent False (EvDisconnect \<lparr>sp_addr = 0, sp_ID = 1\<rparr>)), (0, OwnerEvent False (EvUpstreamEOF 0))]"


end
