(* ===== verification/Daemon_State.thy ===== *)
theory Daemon_State
  imports Owner_Retire Era
begin

text \<open>
  The state of the daemon (\<open>daemon.go\<close>, \<open>owner_lifecycle.go\<close>, \<open>maintenance.go\<close>): the registry of owners,
  the maintenance holds and the goroutines that remove owners. Entries and owners are shared by
  pointers, so both live in a store: an \<open>OwnerEntry\<close> and an \<open>Owner\<close> are numbers, and two pointers are
  equal exactly when the numbers are. The channels that are only closed are those of the creation of an
  entry, of an attempt to remove one and of its last pin; \<open>dm_closed\<close> holds the closed ones. A section under \<open>d.mu\<close> or under the maintenance gate is one step.
\<close>

section \<open>Entries\<close>

datatype chan = CreateChan nat | AttemptChan nat | PinChan nat

datatype TerminationHint = HintNone | HintPlannedHandoff | HintOperatorStop | HintIdleEviction

record OwnerEntry =
  en_Owner :: "nat option"
  en_ServerID :: bytes
  en_Command :: bytes
  en_Args :: "bytes list"
  en_Cwd :: bytes
  en_Mode :: bytes
  en_ProtocolEra :: ProtocolEra
  en_Env :: env
  en_maintenanceContexts :: "bytes list"
  en_maintenanceIncomplete :: bool
  en_Persistent :: bool
  en_LastSession :: time
  en_OwnerGeneration :: bytes
  en_IdleTimeout :: duration
  en_creating :: "chan option"
  en_terminationHint :: TerminationHint
  en_snapshotPins :: int
  en_snapshotUnpinned :: "chan option"
  en_removalInProgress :: bool
  en_removalDone :: "chan option"
  en_removalRetrying :: bool

definition argsEqual :: "bytes list \<Rightarrow> bytes list \<Rightarrow> bool" where
  "argsEqual a b \<longleftrightarrow> length a = length b \<and> list_all (\<lambda>(x, y). x = y) (zip a b)"

lemma argsEqual_iff [simp]: "argsEqual a b \<longleftrightarrow> a = b"
  unfolding argsEqual_def list_all_length by (auto intro: nth_equalityI)

definition nativeOwnerIDPrefix :: bytes where
  "nativeOwnerIDPrefix = ''native-''"

definition isModernOwnerID :: "bytes \<Rightarrow> bool" where
  "isModernOwnerID serverID = hasPrefix serverID nativeOwnerIDPrefix"

definition isModernOwnerEntry :: "OwnerEntry \<Rightarrow> bool" where
  "isModernOwnerEntry entry \<longleftrightarrow> en_ProtocolEra entry = EraModern20260728 \<or> isModernOwnerID (en_ServerID entry)"

record ownerEntryIdentity =
  id_serverID :: bytes
  id_protocolEra :: ProtocolEra
  id_ownerGeneration :: bytes

definition captureOwnerEntryIdentity :: "OwnerEntry \<Rightarrow> ownerEntryIdentity" where
  "captureOwnerEntryIdentity entry =
     \<lparr>id_serverID = en_ServerID entry, id_protocolEra = en_ProtocolEra entry, id_ownerGeneration = en_OwnerGeneration entry\<rparr>"

definition identityMatches :: "ownerEntryIdentity \<Rightarrow> OwnerEntry \<Rightarrow> bool" where
  "identityMatches identity entry \<longleftrightarrow>
     en_ServerID entry = id_serverID identity \<and> en_ProtocolEra entry = id_protocolEra identity \<and>
     en_OwnerGeneration entry = id_ownerGeneration identity"

section \<open>Maintenance holds\<close>

datatype MaintenanceState = MaintenanceHolding | MaintenanceHeld | MaintenanceRetirementBlocked | MaintenanceReleased

fun stateText :: "MaintenanceState \<Rightarrow> bytes" where
  "stateText MaintenanceHolding = ''HOLDING''"
| "stateText MaintenanceHeld = ''HELD''"
| "stateText MaintenanceRetirementBlocked = ''RETIREMENT_BLOCKED''"
| "stateText MaintenanceReleased = ''RELEASED''"

record holdResult =
  hr_HoldID :: bytes
  hr_ServerID :: bytes
  hr_State :: MaintenanceState
  hr_ExpiresAt :: time
  hr_DrainDeadline :: time
  hr_TreesRetired :: bool

text \<open>What an owner is told of a hold: the timestamps as their JSON texts.\<close>

definition ownerResult :: "(time \<Rightarrow> bytes) \<Rightarrow> holdResult \<Rightarrow> MaintenanceResult" where
  "ownerResult text r =
     \<lparr>mr_HoldID = hr_HoldID r, mr_ServerID = hr_ServerID r, mr_State = stateText (hr_State r),
      mr_ExpiresAt = text (hr_ExpiresAt r), mr_DrainDeadline = text (hr_DrainDeadline r), mr_TreesRetired = hr_TreesRetired r\<rparr>"

record maintenancePin =
  pin_entry :: nat
  pin_identity :: ownerEntryIdentity
  pin_creating :: "chan option"

text \<open>What the ledger of holds says of one hold.\<close>

record maintenanceRecord =
  mc_HoldID :: bytes
  mc_Keys :: "bytes list"
  mc_State :: MaintenanceState
  mc_ExpiresAt :: time
  mc_DrainDeadline :: time

text \<open>
  A lease is compared by its address \<open>ml_ptr\<close>. Its timer either publishes the retirement
  (\<open>mt_retirement\<close>) or ends the hold.
\<close>

record maintenanceTimer =
  mt_at :: time
  mt_retirement :: bool
  mt_fired :: bool

record maintenanceLease =
  ml_ptr :: nat
  ml_keys :: "bytes list"
  ml_result :: holdResult
  ml_pins :: "maintenancePin list"
  ml_recovered :: bool
  ml_timer :: "maintenanceTimer option"
  ml_retirementRetry :: bool

datatype maintenance_code =
    MaintenanceIsHeld | MaintenanceConflict | MaintenanceNotFound | MaintenanceBlocked | MaintenanceUnsupported
  | MaintenancePersistenceFailed | MaintenanceInvalid

datatype daemon_error = MaintenanceError maintenance_code "holdResult option" | PlainError bytes

definition maintenanceFailure :: "maintenance_code \<Rightarrow> maintenanceLease option \<Rightarrow> daemon_error" where
  "maintenanceFailure code lease = MaintenanceError code (map_option ml_result lease)"

section \<open>Removal of owners\<close>

datatype ownerRemovalReason =
    OperatorHard | OperatorSoft | RemovedIdle | RemovedZombie | RemovedHandoff | RestoreFailed | UpstreamExit | RemovedMaintenance

record ownerRemovalResult =
  rr_ServerID :: bytes
  rr_Reason :: ownerRemovalReason
  rr_PendingTokensRemoved :: int
  rr_BoundHistoryRemoved :: int
  rr_Soft :: bool
  rr_Removed :: bool

text \<open>The counters are \<open>uint64\<close>.\<close>

record ownerRemovalStats =
  rs_Total :: nat
  rs_ByReason :: "(ownerRemovalReason, nat) gomap"
  rs_PendingTokensRemoved :: nat
  rs_BoundHistoryRemoved :: nat

definition uint64 :: "int \<Rightarrow> nat" where
  "uint64 n = nat (n mod 2 ^ 64)"

text \<open>The owner that an eviction has sampled; the removal goes on only if it is still the same.\<close>

record reaperOwnerView =
  rv_sid :: bytes
  rv_identity :: ownerEntryIdentity
  rv_entry :: nat
  rv_owner :: nat
  rv_persistent :: bool
  rv_idleTimeout :: duration
  rv_lastSession :: time

record zeroIdleOwnerView =
  zv_identity :: ownerEntryIdentity
  zv_entry :: nat
  zv_owner :: nat
  zv_zeroAt :: time

datatype eligibility = ReaperView reaperOwnerView | ZeroIdleView zeroIdleOwnerView

text \<open>
  A running \<open>finalizeAndRemoveOwner\<close>. \<open>RmBegin\<close> to \<open>RmEnd\<close> are inside \<open>finalizeOwnerWithRetry\<close> on its
  entry, with the number of the attempt; in \<open>RmElect\<close> and \<open>RmEnd\<close> it holds the \<open>removalMu\<close> of the owner.
  \<open>rm_retries\<close> marks the goroutine of \<open>scheduleOwnerFinalizationRetry\<close>, which calls again and again.
\<close>

datatype remover_pc =
    RmClaim
  | RmWaitRemoval "chan option"
  | RmWaitUnpin "chan option"
  | RmBegin nat nat
  | RmElect nat nat
  | RmEnd nat nat
  | RmFailed nat daemon_error
  | RmSchedule nat daemon_error
  | RmCommit nat int "bytes option"
  | RmRetired nat ownerRemovalResult "daemon_error option"
  | RmTimer
  | RmReturned ownerRemovalResult "daemon_error option"

record remover =
  rm_serverID :: bytes
  rm_expected :: "nat option"
  rm_reason :: ownerRemovalReason
  rm_soft :: bool
  rm_eligible :: "eligibility option"
  rm_scheduleRetry :: bool
  rm_retries :: bool
  rm_pc :: remover_pc

section \<open>The daemon\<close>

text \<open>
  \<open>dm_store\<close> is the ledger of holds that the last commit made durable, \<open>None\<close> if that commit failed;
  \<open>dm_persist\<close> says for each coming commit whether it succeeds, and \<open>dm_locks\<close> what the coming attempts to take the
  namespace file lock bring.
\<close>

datatype lock_outcome = Locked | FileLocked | LockError

record daemon =
  dm_owners :: "(bytes, nat) gomap"
  dm_entries :: "nat \<Rightarrow> OwnerEntry"
  dm_objs :: "nat \<Rightarrow> ownerObj"
  dm_next :: nat
  dm_nextOwner :: nat
  dm_nextChan :: nat
  dm_closed :: "chan list"
  dm_leases :: "(bytes, maintenanceLease) gomap"
  dm_maintenanceFailed :: bool
  dm_persist :: "bool list"
  dm_locks :: "lock_outcome list"
  dm_store :: "maintenanceRecord list option"
  dm_shuttingDown :: bool
  dm_done :: bool
  dm_crashTracker :: "(bytes, time list) gomap"
  dm_retryCounters :: "(bytes, int) gomap"
  dm_removal :: ownerRemovalStats
  dm_removers :: "(nat, remover) gomap"
  dm_ownerIdleTimeout :: duration
  dm_isolatedIdleTimeout :: duration
  dm_zeroSessionCleanupDelay :: duration
  dm_maintenanceScope :: bytes
  dm_timeText :: "time \<Rightarrow> bytes"
  dm_sha :: "bytes \<Rightarrow> bytes"
  dm_canon :: "bytes \<Rightarrow> bytes"

abbreviation entryAt :: "daemon \<Rightarrow> bytes \<Rightarrow> nat option" where
  "entryAt d sid \<equiv> mget (dm_owners d) sid"

definition onEntry :: "nat \<Rightarrow> (OwnerEntry \<Rightarrow> OwnerEntry) \<Rightarrow> daemon \<Rightarrow> daemon" where
  "onEntry e f d = d\<lparr>dm_entries := (dm_entries d)(e := f (dm_entries d e))\<rparr>"

definition onObj :: "nat \<Rightarrow> (ownerObj \<Rightarrow> ownerObj) \<Rightarrow> daemon \<Rightarrow> daemon" where
  "onObj r f d = d\<lparr>dm_objs := (dm_objs d)(r := f (dm_objs d r))\<rparr>"

definition closeChan :: "chan option \<Rightarrow> daemon \<Rightarrow> daemon" where
  "closeChan ch d = (case ch of None \<Rightarrow> d | Some c \<Rightarrow> d\<lparr>dm_closed := c # dm_closed d\<rparr>)"

text \<open>\<open>entry.Owner\<close> and the object behind it.\<close>

definition ownerOf :: "daemon \<Rightarrow> nat \<Rightarrow> ownerObj option" where
  "ownerOf d e = map_option (dm_objs d) (en_Owner (dm_entries d e))"

text \<open>
  \<open>maintenanceDigest\<close> and \<open>maintenanceContext\<close> on a system that is not Windows: the hash, and the
  canonical form of a path, are parameters.
\<close>

definition maintenanceDigest :: "(bytes \<Rightarrow> bytes) \<Rightarrow> bytes list \<Rightarrow> bytes" where
  "maintenanceDigest sha fs = ''v1:'' @ hexEncode (sha (concat (map writeField fs)))"

definition eraWire :: "ProtocolEra \<Rightarrow> bytes" where
  "eraWire era = (case Wire era of Inl _ \<Rightarrow> [] | Inr w \<Rightarrow> w)"

definition contextFields :: "daemon \<Rightarrow> ProtocolEra \<Rightarrow> bytes \<Rightarrow> bytes list \<Rightarrow> bytes \<Rightarrow> env \<Rightarrow> bytes list" where
  "contextFields d era command args cwd e =
     [''mcp-mux-maintenance-context-v1'', dm_maintenanceScope d, eraWire era, command, bigEndian 8 (length args)] @
     args @ [dm_canon d cwd, Build (dm_sha d) e]"

definition maintenanceContext :: "daemon \<Rightarrow> ProtocolEra \<Rightarrow> bytes \<Rightarrow> bytes list \<Rightarrow> bytes \<Rightarrow> env \<Rightarrow> bytes" where
  "maintenanceContext d era command args cwd e = maintenanceDigest (dm_sha d) (contextFields d era command args cwd e)"

section \<open>Crash loops\<close>

definition crashWindow :: duration where
  "crashWindow = seconds 60"

definition crashThreshold :: nat where
  "crashThreshold = 5"

definition cmdKey :: "bytes \<Rightarrow> bytes list \<Rightarrow> bytes" where
  "cmdKey command args = command @ '' '' @ concat (case args of [] \<Rightarrow> [] | a # as \<Rightarrow> a # map (\<lambda>x. '' '' @ x) as)"

definition crashesOf :: "daemon \<Rightarrow> bytes \<Rightarrow> time list" where
  "crashesOf d key = (case mget (dm_crashTracker d) key of None \<Rightarrow> [] | Some ts \<Rightarrow> ts)"

definition recordCrash :: "time \<Rightarrow> bytes \<Rightarrow> daemon \<Rightarrow> daemon" where
  "recordCrash now key d =
     d\<lparr>dm_crashTracker := mput (dm_crashTracker d) key (dropWhile (\<lambda>t. t < now - crashWindow) (crashesOf d key @ [now]))\<rparr>"

definition isCrashLooping :: "time \<Rightarrow> bytes \<Rightarrow> daemon \<Rightarrow> bool" where
  "isCrashLooping now key d \<longleftrightarrow>
     (let crashes = crashesOf d key
      in if length crashes < crashThreshold then False
         else length (filter (\<lambda>t. \<not> t < now - crashWindow) crashes) \<ge> crashThreshold)"

section \<open>Why an owner ended\<close>

datatype TerminationCause =
    TermUnknown | TermPlannedHandoff | TermUpstreamCrash | TermOperatorStop | TermIdleEviction | TermDaemonPanic

text \<open>An event of the supervisor library; the error of a termination may be \<open>ErrDoNotRestart\<close>.\<close>

datatype suture_event =
    EventServicePanic bytes
  | EventServiceTerminate bytes "bool option"
  | EventOther

fun causeText :: "TerminationCause \<Rightarrow> bytes" where
  "causeText TermPlannedHandoff = ''planned_handoff''"
| "causeText TermUpstreamCrash = ''upstream_crash''"
| "causeText TermOperatorStop = ''operator_stop''"
| "causeText TermIdleEviction = ''idle_eviction''"
| "causeText TermDaemonPanic = ''daemon_panic''"
| "causeText TermUnknown = ''unknown''"

fun classifyTermination :: "suture_event \<Rightarrow> TerminationHint \<Rightarrow> TerminationCause" where
  "classifyTermination (EventServicePanic name) hint = TermDaemonPanic"
| "classifyTermination (EventServiceTerminate name err) hint =
     (case hint of
        HintPlannedHandoff \<Rightarrow> TermPlannedHandoff
      | HintOperatorStop \<Rightarrow> TermOperatorStop
      | HintIdleEviction \<Rightarrow> TermIdleEviction
      | HintNone \<Rightarrow> (if err = None \<or> err = Some True then TermOperatorStop else TermUpstreamCrash))"
| "classifyTermination EventOther hint = TermUnknown"

fun terminationHintForRemoval :: "ownerRemovalReason \<Rightarrow> TerminationHint" where
  "terminationHintForRemoval OperatorHard = HintOperatorStop"
| "terminationHintForRemoval OperatorSoft = HintOperatorStop"
| "terminationHintForRemoval RemovedIdle = HintIdleEviction"
| "terminationHintForRemoval RemovedHandoff = HintPlannedHandoff"
| "terminationHintForRemoval _ = HintNone"

text \<open>The text after the first \<open>owner[\<close>, up to the first space.\<close>

fun afterFirst :: "bytes \<Rightarrow> bytes \<Rightarrow> bytes option" where
  "afterFirst p [] = (if p = [] then Some [] else None)"
| "afterFirst p (c # s) = (if hasPrefix (c # s) p then Some (drop (length p) (c # s)) else afterFirst p s)"

definition sidPrefixOf :: "bytes \<Rightarrow> bytes option" where
  "sidPrefixOf serviceName =
     (case afterFirst ''owner['' serviceName of
        None \<Rightarrow> None
      | Some rest \<Rightarrow> map_option fst (cutByte (CHR 0x20) rest))"

definition ownerByPrefix :: "bytes \<Rightarrow> daemon \<Rightarrow> (bytes \<times> nat) option" where
  "ownerByPrefix serviceName d =
     (case sidPrefixOf serviceName of
        None \<Rightarrow> None
      | Some p \<Rightarrow> find (\<lambda>(sid, _). hasPrefix sid p) (dm_owners d))"

definition terminationHintForEvent :: "suture_event \<Rightarrow> daemon \<Rightarrow> TerminationHint" where
  "terminationHintForEvent ev d =
     (let hint = (\<lambda>name. case ownerByPrefix name d of None \<Rightarrow> HintNone | Some (_, e) \<Rightarrow> en_terminationHint (dm_entries d e))
      in case ev of EventServiceTerminate name _ \<Rightarrow> hint name | EventServicePanic name \<Rightarrow> hint name | EventOther \<Rightarrow> HintNone)"

section \<open>Lemmas\<close>

lemma onEntry_simps [simp]:
  "dm_entries (onEntry e f d) = (dm_entries d)(e := f (dm_entries d e))" "dm_owners (onEntry e f d) = dm_owners d"
  "dm_objs (onEntry e f d) = dm_objs d" "dm_leases (onEntry e f d) = dm_leases d" "dm_removers (onEntry e f d) = dm_removers d"
  "dm_closed (onEntry e f d) = dm_closed d" "dm_next (onEntry e f d) = dm_next d" "dm_nextOwner (onEntry e f d) = dm_nextOwner d"
  "dm_nextChan (onEntry e f d) = dm_nextChan d" "dm_maintenanceFailed (onEntry e f d) = dm_maintenanceFailed d"
  by (simp_all add: onEntry_def)

lemma onObj_simps [simp]:
  "dm_objs (onObj o' f d) = (dm_objs d)(o' := f (dm_objs d o'))" "dm_owners (onObj o' f d) = dm_owners d"
  "dm_entries (onObj o' f d) = dm_entries d" "dm_leases (onObj o' f d) = dm_leases d" "dm_removers (onObj o' f d) = dm_removers d"
  "dm_closed (onObj o' f d) = dm_closed d" "dm_next (onObj o' f d) = dm_next d" "dm_nextOwner (onObj o' f d) = dm_nextOwner d"
  "dm_nextChan (onObj o' f d) = dm_nextChan d" "dm_maintenanceFailed (onObj o' f d) = dm_maintenanceFailed d"
  by (simp_all add: onObj_def)

lemma closeChan_simps [simp]:
  "dm_objs (closeChan ch d) = dm_objs d" "dm_owners (closeChan ch d) = dm_owners d"
  "dm_entries (closeChan ch d) = dm_entries d" "dm_leases (closeChan ch d) = dm_leases d" "dm_removers (closeChan ch d) = dm_removers d"
  "set (dm_closed (closeChan ch d)) = set_option ch \<union> set (dm_closed d)" "dm_next (closeChan ch d) = dm_next d"
  "dm_nextOwner (closeChan ch d) = dm_nextOwner d" "dm_nextChan (closeChan ch d) = dm_nextChan d"
  "dm_maintenanceFailed (closeChan ch d) = dm_maintenanceFailed d"
  by (auto simp: closeChan_def split: option.split)

end
