(* ===== verification/Maintenance.thy ===== *)
theory Maintenance
  imports Daemon_State
begin

text \<open>
  Maintenance holds (\<open>daemon/maintenance.go\<close>): leases on the launch contexts of a server, which keep its
  processes away while it is updated. Every function here is one section under the maintenance gate.
\<close>

section \<open>Admission\<close>

definition contextsOverlap :: "bytes list \<Rightarrow> bytes list \<Rightarrow> bool" where
  "contextsOverlap keys contexts = list_ex (\<lambda>key. key \<in> set contexts) keys"

definition maintenanceForKey :: "daemon \<Rightarrow> bytes \<Rightarrow> maintenanceLease option" where
  "maintenanceForKey d key = find (\<lambda>lease. key \<in> set (ml_keys lease)) (map snd (dm_leases d))"

definition checkMaintenanceKey :: "daemon \<Rightarrow> bytes \<Rightarrow> daemon_error option" where
  "checkMaintenanceKey d key =
     (if dm_maintenanceFailed d then Some (MaintenanceError MaintenancePersistenceFailed None)
      else map_option (\<lambda>lease. maintenanceFailure MaintenanceIsHeld (Some lease)) (maintenanceForKey d key))"

text \<open>The first refusal among the contexts of an entry.\<close>

fun checkContexts :: "daemon \<Rightarrow> bytes list \<Rightarrow> daemon_error option" where
  "checkContexts d [] = None"
| "checkContexts d (key # keys) = (case checkMaintenanceKey d key of None \<Rightarrow> checkContexts d keys | Some e \<Rightarrow> Some e)"

definition addContext :: "bytes \<Rightarrow> OwnerEntry \<Rightarrow> OwnerEntry" where
  "addContext key entry = entry\<lparr>en_maintenanceContexts := List.insert key (en_maintenanceContexts entry)\<rparr>"

text \<open>
  \<open>admitOwner\<close>: \<open>None\<close> is another round of \<open>PreRegisterInitial\<close>, which waits while admission is frozen.
\<close>

definition admitOwner ::
  "time \<Rightarrow> nat \<Rightarrow> bytes \<Rightarrow> bytes \<Rightarrow> env \<Rightarrow> bool \<Rightarrow> bool \<Rightarrow> daemon \<Rightarrow> (daemon \<times> (daemon_error + bool)) option" where
  "admitOwner now e token cwd environ initial expired d =
     (let entry = dm_entries d e;
          key = maintenanceContext d (en_ProtocolEra entry) (en_Command entry) (en_Args entry) cwd environ
      in case checkMaintenanceKey d key of
           Some err \<Rightarrow> Some (d, Inl err)
         | None \<Rightarrow>
             (if entryAt d (en_ServerID entry) \<noteq> Some e then Some (d, Inr False)
              else case en_Owner entry of
                None \<Rightarrow> Some (d, Inr False)
              | Some r \<Rightarrow>
                  (case checkContexts d (en_maintenanceContexts entry) of
                     Some err \<Rightarrow> Some (d, Inl err)
                   | None \<Rightarrow>
                       map_option (\<lambda>(oo, admitted).
                           if admitted then (onEntry e (addContext key) (onObj r (\<lambda>_. AddCwd cwd oo) d), Inr True)
                           else (onObj r (\<lambda>_. oo) d, Inr False))
                         (if initial then PreRegisterInitial now expired token cwd environ (dm_objs d r)
                          else Some (ownerPreRegister now token cwd environ (dm_objs d r))))))"

definition ErrOwnerGone :: daemon_error where
  "ErrOwnerGone = PlainError ''owner gone''"

definition ErrDaemonShuttingDown :: daemon_error where
  "ErrDaemonShuttingDown = PlainError ''daemon shutting down''"

definition admitMaterialization :: "nat \<Rightarrow> bytes \<Rightarrow> env \<Rightarrow> daemon \<Rightarrow> daemon \<times> daemon_error option" where
  "admitMaterialization r cwd environ d =
     (case entryAt d (ow_serverID (oo_owner (dm_objs d r))) of
        None \<Rightarrow> (d, Some ErrOwnerGone)
      | Some e \<Rightarrow>
          let entry = dm_entries d e;
              key = maintenanceContext d (en_ProtocolEra entry) (en_Command entry) (en_Args entry) cwd environ
          in if en_Owner entry \<noteq> Some r then (d, Some ErrOwnerGone)
             else if dm_shuttingDown d then (d, Some ErrDaemonShuttingDown)
             else case checkMaintenanceKey d key of
                 Some err \<Rightarrow> (d, Some err)
               | None \<Rightarrow>
                   (case checkContexts d (en_maintenanceContexts entry) of
                      Some err \<Rightarrow> (d, Some err)
                    | None \<Rightarrow> (onEntry e (addContext key) d, None)))"

definition maintenanceLifecycle :: "daemon \<Rightarrow> daemon_error option" where
  "maintenanceLifecycle d =
     (if dm_maintenanceFailed d then Some (MaintenanceError MaintenancePersistenceFailed None)
      else if dm_leases d \<noteq> [] then Some (MaintenanceError MaintenanceIsHeld None)
      else None)"

definition beginMaintenanceLifecycle :: "daemon \<Rightarrow> daemon \<times> daemon_error option" where
  "beginMaintenanceLifecycle d =
     (case maintenanceLifecycle d of Some e \<Rightarrow> (d, Some e) | None \<Rightarrow> (d\<lparr>dm_shuttingDown := True\<rparr>, None))"

definition maintenanceFenced :: "daemon \<Rightarrow> bool" where
  "maintenanceFenced d \<longleftrightarrow> maintenanceLifecycle d \<noteq> None"

section \<open>Commits\<close>

definition leaseRecord :: "maintenanceLease \<Rightarrow> maintenanceRecord" where
  "leaseRecord lease =
     \<lparr>mc_HoldID = hr_HoldID (ml_result lease), mc_Keys = ml_keys lease, mc_State = hr_State (ml_result lease),
      mc_ExpiresAt = hr_ExpiresAt (ml_result lease), mc_DrainDeadline = hr_DrainDeadline (ml_result lease)\<rparr>"

definition maintenanceRecords :: "(bytes, maintenanceLease) gomap \<Rightarrow> maintenanceRecord list" where
  "maintenanceRecords leases =
     map (\<lambda>i. leaseRecord (the (mget leases i))) (sort (map fst leases))"

definition persistMaintenance :: "(bytes, maintenanceLease) gomap \<Rightarrow> daemon \<Rightarrow> daemon \<times> bool" where
  "persistMaintenance leases d =
     (let ok = (case dm_persist d of [] \<Rightarrow> True | b # _ \<Rightarrow> b)
      in (d\<lparr>dm_persist := tl (dm_persist d), dm_store := (if ok then Some (maintenanceRecords leases) else None)\<rparr>, ok))"

definition tellOwner :: "holdResult \<Rightarrow> daemon \<Rightarrow> nat option \<Rightarrow> daemon" where
  "tellOwner result d r =
     (case r of None \<Rightarrow> d | Some r \<Rightarrow> onObj r (onOwner (SetMaintenance (Some (ownerResult (dm_timeText d) result)))) d)"

definition tellPins :: "holdResult \<Rightarrow> maintenancePin list \<Rightarrow> daemon \<Rightarrow> daemon" where
  "tellPins result pins d = foldl (\<lambda>d pin. tellOwner result d (en_Owner (dm_entries d (pin_entry pin)))) d pins"

definition retryDelay :: duration where
  "retryDelay = 100000000"

definition armTimer :: "time \<Rightarrow> bool \<Rightarrow> maintenanceLease \<Rightarrow> maintenanceLease" where
  "armTimer when retirement lease =
     lease\<lparr>ml_timer := Some \<lparr>mt_at = when, mt_retirement = retirement, mt_fired = False\<rparr>, ml_retirementRetry := retirement\<rparr>"

definition scheduleMaintenanceTimer :: "maintenanceLease \<Rightarrow> time \<Rightarrow> bool \<Rightarrow> daemon \<Rightarrow> daemon" where
  "scheduleMaintenanceTimer lease when retirement d =
     d\<lparr>dm_leases := mput (dm_leases d) (hr_HoldID (ml_result lease)) (armTimer when retirement lease)\<rparr>"

definition scheduleMaintenanceExpiry :: "maintenanceLease \<Rightarrow> daemon \<Rightarrow> daemon" where
  "scheduleMaintenanceExpiry lease d = scheduleMaintenanceTimer lease (hr_ExpiresAt (ml_result lease)) False d"

text \<open>The updated copy of a lease gets an address of its own.\<close>

definition commitMaintenanceLease ::
  "time \<Rightarrow> maintenanceLease \<Rightarrow> maintenanceLease \<Rightarrow> daemon \<Rightarrow> daemon \<times> daemon_error option" where
  "commitMaintenanceLease now current updated d =
     (let i = hr_HoldID (ml_result current);
          released = (hr_State (ml_result updated) = MaintenanceReleased);
          fresh = updated\<lparr>ml_ptr := dm_nextChan d\<rparr>;
          leases = (if released then mdel (dm_leases d) i else mput (dm_leases d) i fresh)
      in if map_option ml_ptr (mget (dm_leases d) i) \<noteq> Some (ml_ptr current)
         then (d, Some (MaintenanceError MaintenanceConflict None))
         else case persistMaintenance leases d of
             (d1, False) \<Rightarrow> (d1, Some (MaintenanceError MaintenancePersistenceFailed None))
           | (d1, True) \<Rightarrow>
               let retry = (ml_retirementRetry current \<and> hr_State (ml_result updated) = MaintenanceRetirementBlocked);
                   quiet = fresh\<lparr>ml_timer := None, ml_retirementRetry := False\<rparr>;
                   d2 = tellPins (ml_result updated) (ml_pins updated)
                          (d1\<lparr>dm_leases := (if released then leases else mput leases i quiet), dm_nextChan := Suc (dm_nextChan d)\<rparr>)
               in (if released then d2
                   else if retry then scheduleMaintenanceTimer quiet (now + retryDelay) True d2
                   else scheduleMaintenanceExpiry quiet d2, None))"

definition pinRetired :: "daemon \<Rightarrow> maintenancePin \<Rightarrow> bool" where
  "pinRetired d pin \<longleftrightarrow>
     identityMatches (pin_identity pin) (dm_entries d (pin_entry pin)) \<and>
     (case pin_creating pin of None \<Rightarrow> True | Some c \<Rightarrow> c \<in> set (dm_closed d)) \<and>
     (case ownerOf d (pin_entry pin) of None \<Rightarrow> True | Some oo \<Rightarrow> MaintenanceRetired oo)"

definition maintenanceTreesRetired :: "maintenanceLease \<Rightarrow> daemon \<Rightarrow> bool" where
  "maintenanceTreesRetired lease d \<longleftrightarrow>
     (if ml_recovered lease then hr_State (ml_result lease) = MaintenanceHeld else list_all (pinRetired d) (ml_pins lease))"

definition onResult :: "(holdResult \<Rightarrow> holdResult) \<Rightarrow> maintenanceLease \<Rightarrow> maintenanceLease" where
  "onResult f lease = lease\<lparr>ml_result := f (ml_result lease)\<rparr>"

definition finishMaintenanceRetirement :: "time \<Rightarrow> maintenanceLease \<Rightarrow> daemon \<Rightarrow> daemon \<times> daemon_error option" where
  "finishMaintenanceRetirement now lease d =
     (if \<not> maintenanceTreesRetired lease d then (d, Some (MaintenanceError MaintenanceBlocked None))
      else commitMaintenanceLease now lease
             (onResult (\<lambda>r. r\<lparr>hr_TreesRetired := True,
                hr_State := (if \<not> now < hr_ExpiresAt r then MaintenanceReleased else MaintenanceHeld)\<rparr>) lease) d)"

text \<open>\<open>expireMaintenanceLocked\<close> goes through the leases of the map it finds.\<close>

fun expireLeases :: "time \<Rightarrow> maintenanceLease list \<Rightarrow> daemon \<Rightarrow> daemon \<times> daemon_error option" where
  "expireLeases now [] d = (d, None)"
| "expireLeases now (lease # leases) d =
     (if hr_State (ml_result lease) \<noteq> MaintenanceHeld \<or> now < hr_ExpiresAt (ml_result lease) then expireLeases now leases d
      else case commitMaintenanceLease now lease (onResult (hr_State_update (\<lambda>_. MaintenanceReleased)) lease) d of
          (d1, Some e) \<Rightarrow> (d1, Some e)
        | (d1, None) \<Rightarrow> expireLeases now leases d1)"

definition expireMaintenance :: "time \<Rightarrow> daemon \<Rightarrow> daemon \<times> daemon_error option" where
  "expireMaintenance now d =
     (if dm_maintenanceFailed d then (d, Some (MaintenanceError MaintenancePersistenceFailed None))
      else expireLeases now (map snd (dm_leases d)) d)"

section \<open>Acquiring a hold\<close>

definition incomplete :: "OwnerEntry \<Rightarrow> bool" where
  "incomplete entry \<longleftrightarrow> en_maintenanceContexts entry = [] \<or> en_maintenanceIncomplete entry"

text \<open>The pins of a hold on \<open>selected\<close>; \<open>None\<close> refuses the hold.\<close>

definition holdPins :: "daemon \<Rightarrow> OwnerEntry \<Rightarrow> maintenancePin list option" where
  "holdPins d selected =
     (let keys = en_maintenanceContexts selected;
          overlaps = (\<lambda>entry. contextsOverlap keys (en_maintenanceContexts entry))
      in if list_ex (\<lambda>(_, e). let entry = dm_entries d e
               in en_Command entry = en_Command selected \<and> argsEqual (en_Args entry) (en_Args selected) \<and> incomplete entry \<or>
                  overlaps entry \<and> \<not> set (en_maintenanceContexts entry) \<subseteq> set keys) (dm_owners d)
         then None
         else Some (map (\<lambda>(_, e). \<lparr>pin_entry = e, pin_identity = captureOwnerEntryIdentity (dm_entries d e),
                                   pin_creating = en_creating (dm_entries d e)\<rparr>)
                (filter (\<lambda>(_, e). overlaps (dm_entries d e)) (dm_owners d))))"

definition heldServer :: "daemon \<Rightarrow> bytes \<Rightarrow> maintenanceLease option" where
  "heldServer d sid = find (\<lambda>lease. hr_ServerID (ml_result lease) = sid) (map snd (dm_leases d))"

fun heldKeys :: "daemon \<Rightarrow> bytes list \<Rightarrow> maintenanceLease option" where
  "heldKeys d [] = None"
| "heldKeys d (key # keys) = (case maintenanceForKey d key of None \<Rightarrow> heldKeys d keys | Some lease \<Rightarrow> Some lease)"

definition noHold :: holdResult where
  "noHold = \<lparr>hr_HoldID = [], hr_ServerID = [], hr_State = MaintenanceHolding, hr_ExpiresAt = 0, hr_DrainDeadline = 0, hr_TreesRetired = False\<rparr>"

text \<open>
  The two commits of a hold: the seed, then the lease with its clock. When one fails, the daemon closes
  all admission and tells every owner.
\<close>

definition seedLease :: "bytes \<Rightarrow> bytes \<Rightarrow> bytes list \<Rightarrow> maintenancePin list \<Rightarrow> time \<Rightarrow> time \<Rightarrow> nat \<Rightarrow> maintenanceLease" where
  "seedLease i sid keys pins expires deadline ptr =
     \<lparr>ml_ptr = ptr, ml_keys = keys,
      ml_result = \<lparr>hr_HoldID = i, hr_ServerID = sid, hr_State = MaintenanceHolding, hr_ExpiresAt = expires, hr_DrainDeadline = deadline,
                   hr_TreesRetired = False\<rparr>,
      ml_pins = pins, ml_recovered = False, ml_timer = None, ml_retirementRetry = False\<rparr>"

definition failHold :: "maintenanceLease \<Rightarrow> daemon \<Rightarrow> daemon" where
  "failHold lease d =
     foldl (\<lambda>d e. tellOwner (ml_result lease) d (en_Owner (dm_entries d e))) (d\<lparr>dm_maintenanceFailed := True\<rparr>) (map snd (dm_owners d))"

definition commitHold :: "time \<Rightarrow> time \<Rightarrow> duration \<Rightarrow> duration \<Rightarrow> maintenanceLease \<Rightarrow> daemon \<Rightarrow> daemon \<times> (holdResult \<times> daemon_error) option" where
  "commitHold now committedAt ttl drain lease d =
     (let i = hr_HoldID (ml_result lease);
          leases = mput (dm_leases d) i lease;
          failed = (\<lambda>d. (failHold lease d, Some (ml_result lease, maintenanceFailure MaintenancePersistenceFailed (Some lease))))
      in case persistMaintenance leases d of
           (d1, False) \<Rightarrow> failed d1
         | (d1, True) \<Rightarrow>
             (case commitMaintenanceLease committedAt lease
                     (onResult (\<lambda>r. r\<lparr>hr_ExpiresAt := committedAt + ttl, hr_DrainDeadline := committedAt + drain\<rparr>) lease)
                     (d1\<lparr>dm_leases := leases\<rparr>) of
                (d2, Some _) \<Rightarrow> failed d2
              | (d2, None) \<Rightarrow> (d2, None)))"

text \<open>
  The first section of \<open>acquireMaintenance\<close>. \<open>i\<close> is the generated identifier, \<open>None\<close> that none could be
  generated. A reply means that the call ends here.
\<close>

definition acquireBegin ::
  "time \<Rightarrow> time \<Rightarrow> bytes \<Rightarrow> duration \<Rightarrow> duration \<Rightarrow> bytes option \<Rightarrow> daemon \<Rightarrow> daemon \<times> (holdResult \<times> daemon_error) option" where
  "acquireBegin now committedAt sid ttl drain ident d =
     (case expireMaintenance now d of
        (d1, Some e) \<Rightarrow> (d1, Some (noHold, e))
      | (d1, None) \<Rightarrow>
          (if dm_maintenanceFailed d1 then (d1, Some (noHold, MaintenanceError MaintenancePersistenceFailed None))
           else if dm_shuttingDown d1 then (d1, Some (noHold, MaintenanceError MaintenanceIsHeld None))
           else case heldServer d1 sid of
               Some lease \<Rightarrow> (d1, Some (ml_result lease, maintenanceFailure MaintenanceConflict (Some lease)))
             | None \<Rightarrow>
                 (case entryAt d1 sid of
                    None \<Rightarrow> (d1, Some (noHold, MaintenanceError MaintenanceNotFound None))
                  | Some e \<Rightarrow>
                      let selected = dm_entries d1 e
                      in if incomplete selected then (d1, Some (noHold, MaintenanceError MaintenanceInvalid None))
                         else case holdPins d1 selected of
                             None \<Rightarrow> (d1, Some (noHold, MaintenanceError MaintenanceInvalid None))
                           | Some pins \<Rightarrow>
                               let keys = sort (en_maintenanceContexts selected)
                               in case heldKeys d1 keys of
                                    Some lease \<Rightarrow> (d1, Some (ml_result lease, maintenanceFailure MaintenanceConflict (Some lease)))
                                  | None \<Rightarrow>
                                      (case ident of
                                         None \<Rightarrow> (d1, Some (noHold, MaintenanceError MaintenancePersistenceFailed None))
                                       | Some i \<Rightarrow>
                                           commitHold now committedAt ttl drain
                                             (seedLease i sid keys pins (now + ttl) (now + drain) (dm_nextChan d1))
                                             (d1\<lparr>dm_nextChan := Suc (dm_nextChan d1)\<rparr>)))))"

definition released :: "holdResult \<Rightarrow> holdResult" where
  "released r = r\<lparr>hr_State := MaintenanceReleased, hr_TreesRetired := True\<rparr>"

definition resultOf :: "bytes \<Rightarrow> holdResult \<Rightarrow> daemon \<Rightarrow> holdResult" where
  "resultOf i r d = (case mget (dm_leases d) i of None \<Rightarrow> r | Some lease \<Rightarrow> ml_result lease)"

text \<open>The last section: the hold is published, or stays blocked.\<close>

definition acquireEnd :: "time \<Rightarrow> bytes \<Rightarrow> holdResult \<Rightarrow> daemon \<Rightarrow> daemon \<times> holdResult \<times> daemon_error option" where
  "acquireEnd now i own d =
     (case mget (dm_leases d) i of
        None \<Rightarrow> (d, released own, Some (MaintenanceError MaintenanceConflict None))
      | Some current \<Rightarrow>
          (if \<not> maintenanceTreesRetired current d
           then (d, ml_result current, Some (maintenanceFailure MaintenanceBlocked (Some current)))
           else case finishMaintenanceRetirement now current d of
               (d1, Some _) \<Rightarrow> (d1, ml_result current, Some (maintenanceFailure MaintenancePersistenceFailed (Some current)))
             | (d1, None) \<Rightarrow>
                 (case mget (dm_leases d1) i of
                    None \<Rightarrow> (d1, released own, Some (maintenanceFailure MaintenanceConflict None))
                  | Some held \<Rightarrow> (d1, ml_result held, None))))"

definition blockMaintenance :: "time \<Rightarrow> bytes \<Rightarrow> holdResult \<Rightarrow> daemon \<Rightarrow> daemon \<times> holdResult \<times> daemon_error option" where
  "blockMaintenance now i own d =
     (case mget (dm_leases d) i of
        None \<Rightarrow> (d, own, Some (MaintenanceError MaintenanceConflict None))
      | Some current \<Rightarrow>
          (if maintenanceTreesRetired current d then
             (case finishMaintenanceRetirement now current d of
                (d1, Some _) \<Rightarrow> (d1, ml_result current, Some (maintenanceFailure MaintenancePersistenceFailed (Some current)))
              | (d1, None) \<Rightarrow>
                  (case mget (dm_leases d1) (hr_HoldID (ml_result current)) of
                     Some held \<Rightarrow> (d1, ml_result held, None)
                   | None \<Rightarrow> (d1, released (ml_result current), Some (MaintenanceError MaintenanceConflict None))))
           else
             let updated = onResult (\<lambda>r. r\<lparr>hr_State := MaintenanceRetirementBlocked, hr_TreesRetired := False\<rparr>) current
             in case commitMaintenanceLease now current updated d of
                  (d1, Some _) \<Rightarrow> (d1, ml_result current, Some (maintenanceFailure MaintenancePersistenceFailed (Some current)))
                | (d1, None) \<Rightarrow> (d1, ml_result updated, Some (maintenanceFailure MaintenanceBlocked (Some updated)))))"

section \<open>Retirement, timers, resume and renew\<close>

definition takeLock :: "daemon \<Rightarrow> daemon \<times> lock_outcome" where
  "takeLock d = (d\<lparr>dm_locks := tl (dm_locks d)\<rparr>, case dm_locks d of [] \<Rightarrow> Locked | x # _ \<Rightarrow> x)"

definition timersStopped :: "daemon \<Rightarrow> bool" where
  "timersStopped d \<longleftrightarrow> dm_shuttingDown d \<or> dm_done d"

definition pinsEntry :: "nat \<Rightarrow> daemon \<Rightarrow> maintenanceLease \<Rightarrow> bool" where
  "pinsEntry e d lease = list_ex (\<lambda>pin. pin_entry pin = e \<and> identityMatches (pin_identity pin) (dm_entries d e)) (ml_pins lease)"

definition retryRetirement :: "time \<Rightarrow> nat \<Rightarrow> daemon \<Rightarrow> maintenanceLease \<Rightarrow> daemon" where
  "retryRetirement now e d lease =
     (if hr_State (ml_result lease) = MaintenanceRetirementBlocked \<and> pinsEntry e d lease \<and> \<not> ml_retirementRetry lease
      then scheduleMaintenanceTimer lease (now + retryDelay) True d else d)"

fun publishRetirement :: "time \<Rightarrow> nat \<Rightarrow> maintenanceLease list \<Rightarrow> daemon \<Rightarrow> daemon" where
  "publishRetirement now e [] d = d"
| "publishRetirement now e (lease # leases) d =
     (if pinsEntry e d lease \<and> hr_State (ml_result lease) \<noteq> MaintenanceHeld \<and> maintenanceTreesRetired lease d then
        (case finishMaintenanceRetirement now lease d of
           (d1, Some _) \<Rightarrow> d1\<lparr>dm_maintenanceFailed := True\<rparr>
         | (d1, None) \<Rightarrow> publishRetirement now e leases d1)
      else publishRetirement now e leases d)"

definition maintenanceRetirementChanged :: "time \<Rightarrow> nat \<Rightarrow> daemon \<Rightarrow> daemon" where
  "maintenanceRetirementChanged now e d =
     (case takeLock d of
        (d1, Locked) \<Rightarrow>
          (if dm_maintenanceFailed d1 \<or> timersStopped d1 then d1 else publishRetirement now e (map snd (dm_leases d1)) d1)
      | (d1, FileLocked) \<Rightarrow>
          (if dm_maintenanceFailed d1 \<or> timersStopped d1 then d1 else foldl (retryRetirement now e) d1 (map snd (dm_leases d1)))
      | (d1, LockError) \<Rightarrow>
          (if dm_maintenanceFailed d1 \<or> timersStopped d1 then d1
           else d1\<lparr>dm_maintenanceFailed :=
                  list_ex (\<lambda>lease. hr_State (ml_result lease) \<noteq> MaintenanceHeld \<and> pinsEntry e d1 lease) (map snd (dm_leases d1))\<rparr>))"

definition markFired :: "maintenanceLease \<Rightarrow> maintenanceLease" where
  "markFired lease = lease\<lparr>ml_timer := map_option (mt_fired_update (\<lambda>_. True)) (ml_timer lease)\<rparr>"

definition failOnError :: "daemon \<times> daemon_error option \<Rightarrow> daemon" where
  "failOnError r = (case r of (d, None) \<Rightarrow> d | (d, Some _) \<Rightarrow> d\<lparr>dm_maintenanceFailed := True\<rparr>)"

text \<open>The timer of the lease with identifier \<open>i\<close> fires.\<close>

definition fireTimer :: "time \<Rightarrow> maintenanceLease \<Rightarrow> bool \<Rightarrow> daemon \<Rightarrow> daemon" where
  "fireTimer now lease retirement d =
     (let ready = (hr_State (ml_result lease) = MaintenanceRetirementBlocked \<and> maintenanceTreesRetired lease d)
      in case takeLock d of
           (d1, LockError) \<Rightarrow> d1\<lparr>dm_maintenanceFailed := True\<rparr>
         | (d1, FileLocked) \<Rightarrow>
             (if \<not> retirement \<or> ready then scheduleMaintenanceTimer lease (now + retryDelay) retirement d1
              else scheduleMaintenanceExpiry lease d1)
         | (d1, Locked) \<Rightarrow>
             (if retirement then
                (if \<not> ready then scheduleMaintenanceExpiry lease d1
                 else failOnError (finishMaintenanceRetirement now (armTimer (hr_ExpiresAt (ml_result lease)) False lease)
                                     (scheduleMaintenanceExpiry lease d1)))
              else failOnError (expireMaintenance now d1)))"

definition maintenanceTimerFires :: "time \<Rightarrow> bytes \<Rightarrow> daemon \<Rightarrow> daemon" where
  "maintenanceTimerFires now i d =
     (case mget (dm_leases d) i of
        None \<Rightarrow> d
      | Some lease \<Rightarrow>
          (case ml_timer lease of
             None \<Rightarrow> d
           | Some t \<Rightarrow>
               (if mt_fired t \<or> now < mt_at t then d
                else
                  let d0 = d\<lparr>dm_leases := mput (dm_leases d) i (markFired lease)\<rparr>
                  in if dm_maintenanceFailed d \<or> timersStopped d then d0 else fireTimer now (markFired lease) (mt_retirement t) d0)))"

datatype maintenance_cmd = Resume | Renew

definition mutateMaintenance ::
  "time \<Rightarrow> maintenance_cmd \<Rightarrow> bytes \<Rightarrow> duration \<Rightarrow> daemon \<Rightarrow> daemon \<times> holdResult \<times> daemon_error option" where
  "mutateMaintenance now cmd i ttl d =
     (case expireMaintenance now d of
        (d1, Some e) \<Rightarrow>
          (case mget (dm_leases d1) i of
             Some current \<Rightarrow>
               (if dm_maintenanceFailed d1 then (d1, ml_result current, Some (maintenanceFailure MaintenancePersistenceFailed (Some current)))
                else (d1, noHold, Some e))
           | None \<Rightarrow> (d1, noHold, Some e))
      | (d1, None) \<Rightarrow>
          (case mget (dm_leases d1) i of
             None \<Rightarrow> (d1, noHold, Some (MaintenanceError (if dm_leases d1 \<noteq> [] then MaintenanceConflict else MaintenanceNotFound) None))
           | Some current \<Rightarrow>
               (if dm_maintenanceFailed d1
                then (d1, ml_result current, Some (maintenanceFailure MaintenancePersistenceFailed (Some current)))
                else
                  let refused = (case cmd of
                          Resume \<Rightarrow> (if hr_State (ml_result current) \<noteq> MaintenanceHeld \<or> \<not> maintenanceTreesRetired current d1
                                     then Some MaintenanceBlocked else None)
                        | Renew \<Rightarrow> (if \<not> now < hr_ExpiresAt (ml_result current) then Some MaintenanceConflict else None));
                      updated = onResult (\<lambda>r. case cmd of Resume \<Rightarrow> r\<lparr>hr_State := MaintenanceReleased\<rparr> | Renew \<Rightarrow> r\<lparr>hr_ExpiresAt := now + ttl\<rparr>) current
                  in case refused of
                       Some code \<Rightarrow> (d1, ml_result current, Some (maintenanceFailure code (Some current)))
                     | None \<Rightarrow>
                         (case commitMaintenanceLease now current updated d1 of
                            (d2, Some _) \<Rightarrow> (d2, ml_result current, Some (maintenanceFailure MaintenancePersistenceFailed (Some current)))
                          | (d2, None) \<Rightarrow> (d2, ml_result updated, None)))))"

definition maintenanceResults :: "daemon \<Rightarrow> holdResult list" where
  "maintenanceResults d = sort_key hr_HoldID (map (ml_result \<circ> snd) (dm_leases d))"

definition maintenanceForServer :: "daemon \<Rightarrow> bytes \<Rightarrow> holdResult option" where
  "maintenanceForServer d sid = find (\<lambda>r. hr_ServerID r = sid) (maintenanceResults d)"

end
