(* ===== verification/Removal.thy ===== *)
theory Removal
  imports Maintenance
begin

text \<open>
  Removal of owners from the registry (\<open>daemon/owner_lifecycle.go\<close>) and the snapshot pins that delay it
  (\<open>daemon/snapshot.go\<close>). A call of \<open>finalizeAndRemoveOwner\<close> is a \<open>remover\<close>; each step of it is one
  section under a lock, or one step of the finalisation of its owner. Removers, owners and holds
  interleave in any order.
\<close>

section \<open>Eligibility\<close>

definition reaperMatches :: "reaperOwnerView \<Rightarrow> nat \<Rightarrow> OwnerEntry \<Rightarrow> bool" where
  "reaperMatches v e current \<longleftrightarrow>
     rv_sid v = id_serverID (rv_identity v) \<and> e = rv_entry v \<and> en_Owner current = Some (rv_owner v) \<and>
     identityMatches (rv_identity v) current \<and> en_Persistent current = rv_persistent v \<and>
     en_IdleTimeout current = rv_idleTimeout v \<and> en_LastSession current = rv_lastSession v"

definition zeroIdleMatches :: "zeroIdleOwnerView \<Rightarrow> nat \<Rightarrow> OwnerEntry \<Rightarrow> bool" where
  "zeroIdleMatches v e current \<longleftrightarrow>
     e = zv_entry v \<and> en_Owner current = Some (zv_owner v) \<and> identityMatches (zv_identity v) current \<and>
     \<not> en_Persistent current \<and> en_LastSession current = zv_zeroAt v"

definition eligibleNow :: "eligibility option \<Rightarrow> nat \<Rightarrow> OwnerEntry \<Rightarrow> bool" where
  "eligibleNow view e current =
     (case view of None \<Rightarrow> True | Some (ReaperView v) \<Rightarrow> reaperMatches v e current | Some (ZeroIdleView v) \<Rightarrow> zeroIdleMatches v e current)"

definition mutateCurrentOwnerEntry :: "nat \<Rightarrow> (OwnerEntry \<Rightarrow> OwnerEntry) \<Rightarrow> daemon \<Rightarrow> daemon \<times> nat option" where
  "mutateCurrentOwnerEntry r f d =
     (case entryAt d (ow_serverID (oo_owner (dm_objs d r))) of
        None \<Rightarrow> (d, None)
      | Some e \<Rightarrow> (if en_Owner (dm_entries d e) \<noteq> Some r then (d, None) else (onEntry e f d, Some e)))"

definition checkOperatorRemoval :: "daemon \<Rightarrow> bytes \<Rightarrow> nat option \<Rightarrow> daemon_error option" where
  "checkOperatorRemoval d sid e =
     (if dm_maintenanceFailed d then Some (MaintenanceError MaintenancePersistenceFailed None)
      else case heldServer d sid of
          Some lease \<Rightarrow> Some (maintenanceFailure MaintenanceIsHeld (Some lease))
        | None \<Rightarrow> (case e of None \<Rightarrow> None | Some e \<Rightarrow> checkContexts d (en_maintenanceContexts (dm_entries d e))))"

section \<open>Forgetting an entry\<close>

definition isDigitChar :: "char \<Rightarrow> bool" where
  "isDigitChar c \<longleftrightarrow> c \<in> set ''0123456789''"

text \<open>The pattern \<open>^(isolated-[0-9a-f]+)-r(\d+)$\<close>.\<close>

definition retrySid :: "bytes \<Rightarrow> (bytes \<times> bytes) option" where
  "retrySid s =
     (let rest = drop (length ''isolated-'') s; hex = takeWhile isHexChar rest; end = drop (length hex) rest
      in if hasPrefix s ''isolated-'' \<and> hex \<noteq> [] \<and> hasPrefix end ''-r'' \<and> drop 2 end \<noteq> [] \<and> list_all isDigitChar (drop 2 end)
         then Some (''isolated-'' @ hex, drop 2 end) else None)"

definition retryCounterBaseForServerID :: "bytes \<Rightarrow> bytes option" where
  "retryCounterBaseForServerID sid =
     (case retrySid sid of
        Some (base, _) \<Rightarrow> Some base
      | None \<Rightarrow> if hasPrefix sid ''isolated-'' then Some sid else None)"

definition cleanupForcedIsolatedRetryCounter :: "bytes \<Rightarrow> daemon \<Rightarrow> daemon" where
  "cleanupForcedIsolatedRetryCounter sid d =
     (case retryCounterBaseForServerID sid of
        None \<Rightarrow> d
      | Some base \<Rightarrow>
          (if list_ex (\<lambda>(s, _). s = base \<or> hasPrefix s (base @ ''-r'')) (dm_owners d) then d
           else d\<lparr>dm_retryCounters := mdel (dm_retryCounters d) base\<rparr>))"

definition deleteOwnerEntry :: "bytes \<Rightarrow> daemon \<Rightarrow> daemon" where
  "deleteOwnerEntry sid d =
     (let modern = (case entryAt d sid of None \<Rightarrow> False | Some e \<Rightarrow> isModernOwnerEntry (dm_entries d e));
          d1 = d\<lparr>dm_owners := mdel (dm_owners d) sid\<rparr>
      in if modern then d1 else cleanupForcedIsolatedRetryCounter sid d1)"

definition recordOwnerRemoval :: "ownerRemovalResult \<Rightarrow> daemon \<Rightarrow> daemon" where
  "recordOwnerRemoval result d =
     (let s = dm_removal d; reason = rr_Reason result;
          count = (case mget (rs_ByReason s) reason of None \<Rightarrow> 0 | Some n \<Rightarrow> n)
      in d\<lparr>dm_removal := s\<lparr>rs_Total := uint64 (int (rs_Total s) + 1),
            rs_ByReason := mput (rs_ByReason s) reason (uint64 (int count + 1)),
            rs_PendingTokensRemoved := uint64 (int (rs_PendingTokensRemoved s) + rr_PendingTokensRemoved result),
            rs_BoundHistoryRemoved := uint64 (int (rs_BoundHistoryRemoved s) + rr_BoundHistoryRemoved result)\<rparr>\<rparr>)"

definition noRemoval :: "remover \<Rightarrow> ownerRemovalResult" where
  "noRemoval rm =
     \<lparr>rr_ServerID = rm_serverID rm, rr_Reason = rm_reason rm, rr_PendingTokensRemoved = 0, rr_BoundHistoryRemoved = 0,
      rr_Soft = rm_soft rm, rr_Removed = False\<rparr>"

definition prepareOwnerRemoval :: "remover \<Rightarrow> nat \<Rightarrow> daemon \<Rightarrow> daemon \<times> ownerRemovalResult" where
  "prepareOwnerRemoval rm e d =
     (case en_Owner (dm_entries d e) of
        None \<Rightarrow> (d, noRemoval rm)
      | Some r \<Rightarrow>
          (case RemovePendingForOwner (oo_mgr (dm_objs d r)) (rm_serverID rm) of
             (sm1, purged) \<Rightarrow>
               (case RemoveBoundForOwner sm1 (rm_serverID rm) of
                  (sm2, history) \<Rightarrow>
                    let result = (noRemoval rm)\<lparr>rr_PendingTokensRemoved := oo_purged (dm_objs d r) + int purged,
                                                rr_BoundHistoryRemoved := int history\<rparr>
                    in (deleteOwnerEntry (rm_serverID rm) (recordOwnerRemoval result (onObj r (onManager (\<lambda>_. sm2)) d)),
                        result\<lparr>rr_Removed := True\<rparr>))))"

definition finishOwnerRemovalAttempt :: "nat \<Rightarrow> daemon \<Rightarrow> daemon" where
  "finishOwnerRemovalAttempt e d =
     (let entry = dm_entries d e
      in if \<not> en_removalInProgress entry then d
         else closeChan (en_removalDone entry) (onEntry e (\<lambda>entry. entry\<lparr>en_removalInProgress := False, en_removalDone := None\<rparr>) d))"

section \<open>The remover\<close>

definition setPc :: "nat \<Rightarrow> remover_pc \<Rightarrow> daemon \<Rightarrow> daemon" where
  "setPc tid pc d =
     (case mget (dm_removers d) tid of None \<Rightarrow> d | Some rm \<Rightarrow> d\<lparr>dm_removers := mput (dm_removers d) tid (rm\<lparr>rm_pc := pc\<rparr>)\<rparr>)"

definition startRemoval ::
  "bytes \<Rightarrow> nat option \<Rightarrow> ownerRemovalReason \<Rightarrow> bool \<Rightarrow> eligibility option \<Rightarrow> bool \<Rightarrow> daemon \<Rightarrow> daemon" where
  "startRemoval sid expected reason soft view scheduleRetry d =
     d\<lparr>dm_removers := mput (dm_removers d) (dm_nextChan d)
          \<lparr>rm_serverID = sid, rm_expected = expected, rm_reason = reason, rm_soft = soft, rm_eligible = view,
           rm_scheduleRetry = scheduleRetry, rm_retries = False, rm_pc = RmClaim\<rparr>,
       dm_nextChan := Suc (dm_nextChan d)\<rparr>"

definition removeOwnerIfCurrent :: "bytes \<Rightarrow> nat option \<Rightarrow> ownerRemovalReason \<Rightarrow> bool \<Rightarrow> daemon \<Rightarrow> daemon" where
  "removeOwnerIfCurrent sid expected reason soft d = startRemoval sid expected reason soft None True d"

definition removeOwner :: "bytes \<Rightarrow> ownerRemovalReason \<Rightarrow> bool \<Rightarrow> daemon \<Rightarrow> daemon" where
  "removeOwner sid reason soft d = removeOwnerIfCurrent sid None reason soft d"

text \<open>One round of the loop that claims the entry.\<close>

definition claimOwner :: "nat \<Rightarrow> remover \<Rightarrow> daemon \<Rightarrow> daemon" where
  "claimOwner tid rm d =
     (let sid = rm_serverID rm; current = entryAt d sid; expected = rm_expected rm;
          operator = (rm_reason rm = OperatorSoft \<or> rm_reason rm = OperatorHard);
          exact = (expected \<noteq> None \<and> current = expected);
          admittedRetry = (exact \<and> en_removalRetrying (dm_entries d (the expected)) \<and> \<not> rm_scheduleRetry rm);
          admittedShutdown = (exact \<and> rm_reason rm = OperatorHard \<and> \<not> rm_soft rm \<and> rm_eligible rm = None \<and>
                              \<not> rm_scheduleRetry rm \<and> dm_shuttingDown d);
          return = (\<lambda>err. setPc tid (RmReturned (noRemoval rm) err) d)
      in case (if operator \<and> \<not> admittedRetry \<and> \<not> admittedShutdown then checkOperatorRemoval d sid current else None) of
           Some err \<Rightarrow> return (Some err)
         | None \<Rightarrow>
             (case current of
                None \<Rightarrow> return (if expected = None then Some (PlainError (''server '' @ sid @ '' not found'')) else None)
              | Some e \<Rightarrow>
                  let entry = dm_entries d e
                  in if expected \<noteq> None \<and> expected \<noteq> Some e then return None
                     else if en_Owner entry = None then return (Some (PlainError (''server '' @ sid @ '' is still being created'')))
                     else if \<not> eligibleNow (rm_eligible rm) e entry then return None
                     else if en_removalInProgress entry then setPc tid (RmWaitRemoval (en_removalDone entry)) d
                     else if en_snapshotPins entry > 0 then setPc tid (RmWaitUnpin (en_snapshotUnpinned entry)) d
                     else setPc tid (RmBegin e 1)
                            (onEntry e (\<lambda>entry. entry\<lparr>en_removalInProgress := True, en_removalDone := Some (AttemptChan (dm_nextChan d)),
                                                 en_terminationHint := terminationHintForRemoval (rm_reason rm)\<rparr>)
                               (d\<lparr>dm_nextChan := Suc (dm_nextChan d)\<rparr>))))"

definition ownerFinalizationAttempts :: nat where
  "ownerFinalizationAttempts = 3"

definition unprovenError :: "bytes option \<Rightarrow> daemon_error" where
  "unprovenError err =
     PlainError (''owner finalization unproven after 3 attempts: '' @
       (case err of None \<Rightarrow> ''whole-tree finalization remains unproven'' | Some e \<Rightarrow> e))"

text \<open>The result of a call of \<open>FinalizeForRemoval\<close>, in the loop of \<open>finalizeOwnerWithRetry\<close>.\<close>

definition settle :: "nat \<Rightarrow> nat \<Rightarrow> nat \<Rightarrow> final_result option \<Rightarrow> remover_pc \<Rightarrow> remover_pc" where
  "settle e k r res pc =
     (case res of
        None \<Rightarrow> pc
      | Some (code, finalized, err) \<Rightarrow>
          (if finalized then RmCommit e code err
           else if k < ownerFinalizationAttempts then RmBegin e (Suc k)
           else RmFailed e (unprovenError err)))"

datatype rm_act = Go | Expire | Close bool close_outcome | Supervised "bytes option"

definition finalizeStep :: "nat \<Rightarrow> remover \<Rightarrow> rm_act \<Rightarrow> daemon \<Rightarrow> daemon" where
  "finalizeStep tid rm act d =
     (let call = (\<lambda>e k r step next. case step (dm_objs d r) of (oo, res) \<Rightarrow> setPc tid (settle e k r res (next oo)) (onObj r (\<lambda>_. oo) d))
      in case rm_pc rm of
           RmBegin e k \<Rightarrow>
             (case en_Owner (dm_entries d e) of
                None \<Rightarrow> d
              | Some r \<Rightarrow> (if oo_finalizer (dm_objs d r) \<noteq> None then d else call e k r (finalizeBegin (rm_soft rm)) (\<lambda>_. RmElect e k)))
         | RmElect e k \<Rightarrow>
             (case en_Owner (dm_entries d e) of
                None \<Rightarrow> d
              | Some r \<Rightarrow>
                  call e k r (finalizeElect (act = Expire))
                    (\<lambda>oo. case oo_finalizer oo of Some fz \<Rightarrow> if fz_elected fz then RmEnd e k else RmElect e k | None \<Rightarrow> RmElect e k))
         | RmEnd e k \<Rightarrow>
             (case (en_Owner (dm_entries d e), act) of
                (Some r, Close expired cl) \<Rightarrow> call e k r (finalizeEnd expired cl) (\<lambda>_. RmEnd e k)
              | _ \<Rightarrow> d)
         | _ \<Rightarrow> d)"

definition scheduleOwnerFinalizationRetry :: "bytes \<Rightarrow> nat \<Rightarrow> ownerRemovalReason \<Rightarrow> bool \<Rightarrow> daemon \<Rightarrow> daemon" where
  "scheduleOwnerFinalizationRetry sid e reason soft d =
     (if entryAt d sid \<noteq> Some e \<or> en_removalRetrying (dm_entries d e) then d
      else (onEntry e (\<lambda>entry. entry\<lparr>en_removalRetrying := True\<rparr>) d)
        \<lparr>dm_removers := mput (dm_removers d) (dm_nextChan d)
           \<lparr>rm_serverID = sid, rm_expected = Some e, rm_reason = reason, rm_soft = soft, rm_eligible = None,
            rm_scheduleRetry = False, rm_retries = True, rm_pc = RmTimer\<rparr>,
         dm_nextChan := Suc (dm_nextChan d)\<rparr>)"

definition joinError :: "bytes option \<Rightarrow> bytes option \<Rightarrow> daemon_error option" where
  "joinError a b =
     (case (a, b) of
        (None, None) \<Rightarrow> None
      | (Some x, None) \<Rightarrow> Some (PlainError x)
      | (None, Some y) \<Rightarrow> Some (PlainError y)
      | (Some x, Some y) \<Rightarrow> Some (PlainError (x @ CHR 0x0A # y)))"

definition commitRemoval :: "nat \<Rightarrow> remover \<Rightarrow> nat \<Rightarrow> bytes option \<Rightarrow> daemon \<Rightarrow> daemon" where
  "commitRemoval tid rm e err d =
     (let finished = finishOwnerRemovalAttempt e d
      in if entryAt d (rm_serverID rm) \<noteq> Some e
         then setPc tid (RmReturned (noRemoval rm) (joinError err None)) finished
         else if en_snapshotPins (dm_entries d e) > 0 then
           (let pinErr = joinError err (Some (''owner gained a snapshot pin during finalization''))
            in setPc tid (if rm_scheduleRetry rm then RmSchedule e (the pinErr) else RmReturned (noRemoval rm) pinErr) finished)
         else case prepareOwnerRemoval rm e finished of
             (d1, result) \<Rightarrow> setPc tid (RmRetired e result (joinError err None)) d1)"

text \<open>A finished call; the goroutine of the retries calls again after a while, or ends.\<close>

definition afterReturn :: "nat \<Rightarrow> remover \<Rightarrow> ownerRemovalResult \<Rightarrow> daemon_error option \<Rightarrow> daemon \<Rightarrow> daemon" where
  "afterReturn tid rm result err d =
     (if \<not> rm_retries rm then d
      else if rr_Removed result \<or> err = None then
        (let d1 = d\<lparr>dm_removers := mdel (dm_removers d) tid\<rparr>
         in case rm_expected rm of
              Some e \<Rightarrow>
                (if entryAt d (rm_serverID rm) = Some e then onEntry e (\<lambda>entry. entry\<lparr>en_removalRetrying := False\<rparr>) d1 else d1)
            | None \<Rightarrow> d1)
      else setPc tid RmTimer d)"

definition waitFor :: "nat \<Rightarrow> remover \<Rightarrow> bytes \<Rightarrow> chan option \<Rightarrow> rm_act \<Rightarrow> daemon \<Rightarrow> daemon" where
  "waitFor tid rm what ch act d =
     (let fail = setPc tid (RmReturned (noRemoval rm) (Some (PlainError (''server '' @ rm_serverID rm @ what)))) d
      in case ch of
           None \<Rightarrow> fail
         | Some c \<Rightarrow> (if act = Expire then fail else if c \<in> set (dm_closed d) then setPc tid RmClaim d else d))"

definition removerStep :: "time \<Rightarrow> nat \<Rightarrow> rm_act \<Rightarrow> daemon \<Rightarrow> daemon" where
  "removerStep now tid act d =
     (case mget (dm_removers d) tid of
        None \<Rightarrow> d
      | Some rm \<Rightarrow>
          (case rm_pc rm of
             RmClaim \<Rightarrow> claimOwner tid rm d
           | RmWaitRemoval ch \<Rightarrow> waitFor tid rm '' removal attempt did not settle'' ch act d
           | RmWaitUnpin ch \<Rightarrow> waitFor tid rm '' snapshot pin did not release'' ch act d
           | RmFailed e err \<Rightarrow>
               setPc tid (if rm_scheduleRetry rm then RmSchedule e err else RmReturned (noRemoval rm) (Some err))
                 (finishOwnerRemovalAttempt e d)
           | RmSchedule e err \<Rightarrow>
               setPc tid (RmReturned (noRemoval rm) (Some err))
                 (scheduleOwnerFinalizationRetry (rm_serverID rm) e (rm_reason rm) (rm_soft rm) d)
           | RmCommit e code err \<Rightarrow> commitRemoval tid rm e err d
           | RmRetired e result err \<Rightarrow>
               (case act of
                  Supervised supErr \<Rightarrow>
                    setPc tid (RmReturned result (case err of Some e \<Rightarrow> Some e | None \<Rightarrow> joinError None supErr)) (maintenanceRetirementChanged now e d)
                | _ \<Rightarrow> d)
           | RmTimer \<Rightarrow>
               (if dm_done d then afterReturn tid rm (noRemoval rm) None d else setPc tid RmClaim d)
           | RmReturned result err \<Rightarrow> afterReturn tid rm result err d
           | _ \<Rightarrow> finalizeStep tid rm act d))"

section \<open>Snapshot pins\<close>

definition pinnable :: "daemon \<Rightarrow> nat \<Rightarrow> bool" where
  "pinnable d e \<longleftrightarrow> en_Owner (dm_entries d e) \<noteq> None \<and> \<not> isModernOwnerEntry (dm_entries d e)"

definition pinEntry :: "daemon \<Rightarrow> nat \<Rightarrow> daemon" where
  "pinEntry d e =
     (let first = (en_snapshotPins (dm_entries d e) = 0)
      in onEntry e (\<lambda>entry. entry\<lparr>en_snapshotPins := en_snapshotPins entry + 1,
             en_snapshotUnpinned := (if first then Some (PinChan (dm_nextChan d)) else en_snapshotUnpinned entry)\<rparr>)
           (if first then d\<lparr>dm_nextChan := Suc (dm_nextChan d)\<rparr> else d))"

definition acquireSnapshotOwnerPins :: "daemon \<Rightarrow> daemon \<times> (bytes + nat list)" where
  "acquireSnapshotOwnerPins d =
     (let es = filter (pinnable d) (map snd (dm_owners d))
      in if list_ex (\<lambda>e. en_removalInProgress (dm_entries d e)) es then (d, Inl ''snapshot owner removal is still finalizing'')
         else (foldl pinEntry d es, Inr es))"

definition unpinEntry :: "daemon \<Rightarrow> nat \<Rightarrow> daemon" where
  "unpinEntry d e =
     (let entry = dm_entries d e; n = en_snapshotPins entry - 1
      in if en_snapshotPins entry \<le> 0 then d
         else if n = 0
         then closeChan (en_snapshotUnpinned entry) (onEntry e (\<lambda>entry. entry\<lparr>en_snapshotPins := n, en_snapshotUnpinned := None\<rparr>) d)
         else onEntry e (\<lambda>entry. entry\<lparr>en_snapshotPins := n\<rparr>) d)"

definition releaseSnapshotOwnerPins :: "nat list \<Rightarrow> daemon \<Rightarrow> daemon" where
  "releaseSnapshotOwnerPins es d = foldl unpinEntry d es"

end
