(* ===== verification/Reaper.thy ===== *)
theory Reaper
  imports Removal
begin

text \<open>
  The reaper (\<open>daemon/reaper.go\<close>) and the other causes of a removal: an owner whose last session left
  (\<open>onZeroSessions\<close>) and an upstream that exited (\<open>onUpstreamExit\<close>).
\<close>

section \<open>The decision\<close>

record evictionSample =
  ev_Sessions :: nat
  ev_PendingSessions :: nat
  ev_Persistent :: bool
  ev_PendingRequests :: int
  ev_ActiveProgressTokens :: nat
  ev_HasBusyWork :: bool
  ev_UpstreamDead :: bool
  ev_CacheReady :: bool
  ev_MaterializationBlocked :: bool
  ev_IdleTimeout :: duration
  ev_OwnerIdleOverride :: duration
  ev_LastSession :: time
  ev_LastActivity :: time
  ev_IsolatedClassified :: bool

datatype eviction_reason = Zombie | Idle | IdleIsolated

record evictionDecision =
  de_evict :: bool
  de_elapsed :: duration
  de_idleTimeout :: duration
  de_reason :: "eviction_reason option"

definition keepOwner :: evictionDecision where
  "keepOwner = \<lparr>de_evict = False, de_elapsed = 0, de_idleTimeout = 0, de_reason = None\<rparr>"

definition effectiveIdle :: "evictionSample \<Rightarrow> duration \<Rightarrow> duration \<Rightarrow> duration" where
  "effectiveIdle s daemonDefault isolatedIdle =
     (let t1 = (if ev_IsolatedClassified s \<and> isolatedIdle > 0 then isolatedIdle else ev_IdleTimeout s);
          t2 = (if ev_OwnerIdleOverride s > 0 then ev_OwnerIdleOverride s else t1)
      in if t2 \<le> 0 then daemonDefault else t2)"

definition shouldEvict :: "evictionSample \<Rightarrow> time \<Rightarrow> duration \<Rightarrow> duration \<Rightarrow> evictionDecision" where
  "shouldEvict s now daemonDefault isolatedIdle =
     (let idleTimeout = effectiveIdle s daemonDefault isolatedIdle;
          elapsed = time_sub now (max (ev_LastSession s) (ev_LastActivity s))
      in if ev_PendingSessions s > 0 then keepOwner
         else if ev_MaterializationBlocked s then keepOwner
         else if ev_Persistent s then keepOwner
         else if ev_UpstreamDead s \<and> ev_Sessions s = 0 \<and> \<not> ev_CacheReady s
         then keepOwner\<lparr>de_evict := True, de_reason := Some Zombie\<rparr>
         else if ev_Sessions s \<noteq> 0 then keepOwner
         else if ev_PendingRequests s > 0 then keepOwner
         else if ev_ActiveProgressTokens s > 0 then keepOwner
         else if ev_HasBusyWork s then keepOwner
         else if idleTimeout \<le> 0 then keepOwner
         else \<lparr>de_evict = (elapsed > idleTimeout), de_elapsed = elapsed, de_idleTimeout = idleTimeout,
               de_reason = Some (if ev_IsolatedClassified s \<and> isolatedIdle > 0 \<and> ev_OwnerIdleOverride s \<le> 0 then IdleIsolated else Idle)\<rparr>)"

text \<open>The sample of an owner; reading the busy declarations drops the expired ones.\<close>

definition sampleOwner :: "time \<Rightarrow> bool \<Rightarrow> duration \<Rightarrow> time \<Rightarrow> ownerObj \<Rightarrow> ownerObj \<times> evictionSample" where
  "sampleOwner now persists idleTimeout lastSession oo =
     (case ownerHasActiveBusyWork now oo of
        (oo1, busy) \<Rightarrow>
          (oo1, \<lparr>ev_Sessions = ownerSessionCount oo, ev_PendingSessions = SessionMgrPending oo, ev_Persistent = persists,
                 ev_PendingRequests = PendingRequests oo, ev_ActiveProgressTokens = ActiveProgressTokens oo, ev_HasBusyWork = busy,
                 ev_UpstreamDead = UpstreamDead oo, ev_CacheReady = CacheReady oo,
                 ev_MaterializationBlocked = MaterializationBlocksEviction oo, ev_IdleTimeout = idleTimeout,
                 ev_OwnerIdleOverride = ownerIdleTimeout oo, ev_LastSession = lastSession, ev_LastActivity = LastActivity oo,
                 ev_IsolatedClassified = IsClassifiedIsolated oo\<rparr>))"

definition evictionRemoval :: "eviction_reason option \<Rightarrow> ownerRemovalReason \<times> bool" where
  "evictionRemoval reason = (if reason = Some Zombie then (RemovedZombie, False) else (RemovedIdle, True))"

section \<open>The sweep\<close>

definition ownerViews :: "daemon \<Rightarrow> reaperOwnerView list" where
  "ownerViews d =
     concat (map (\<lambda>(sid, e). let entry = dm_entries d e
         in case en_Owner entry of
              None \<Rightarrow> []
            | Some r \<Rightarrow> [\<lparr>rv_sid = sid, rv_identity = captureOwnerEntryIdentity entry, rv_entry = e, rv_owner = r,
                        rv_persistent = en_Persistent entry, rv_idleTimeout = en_IdleTimeout entry,
                        rv_lastSession = en_LastSession entry\<rparr>]) (dm_owners d))"

definition sweepTokens :: "time \<Rightarrow> daemon \<Rightarrow> reaperOwnerView \<Rightarrow> daemon" where
  "sweepTokens now d v = onObj (rv_owner v) (onManager (\<lambda>sm. fst (SweepExpiredBound (fst (SweepExpiredPending sm now)) now))) d"

text \<open>One owner of the sweep. The clock is read once, before the loop.\<close>

definition sweepOwner :: "time \<Rightarrow> daemon \<Rightarrow> reaperOwnerView \<Rightarrow> daemon" where
  "sweepOwner now d v =
     (if oo_done (dm_objs d (rv_owner v)) then d
      else case sampleOwner now (rv_persistent v) (rv_idleTimeout v) (rv_lastSession v) (dm_objs d (rv_owner v)) of
          (oo, sample) \<Rightarrow>
            let d1 = onObj (rv_owner v) (\<lambda>_. oo) d;
                decision = shouldEvict sample now (dm_ownerIdleTimeout d) (dm_isolatedIdleTimeout d)
            in if \<not> de_evict decision then d1
               else case evictionRemoval (de_reason decision) of
                   (reason, soft) \<Rightarrow> startRemoval (rv_sid v) (Some (rv_entry v)) reason soft (Some (ReaperView v)) True d1)"

definition removeOwnerIfCurrentAndZeroIdle :: "time \<Rightarrow> bytes \<Rightarrow> nat \<Rightarrow> time \<Rightarrow> duration \<Rightarrow> daemon \<Rightarrow> daemon" where
  "removeOwnerIfCurrentAndZeroIdle now sid expected zeroAt idleTimeout d =
     (let entry = dm_entries d expected
      in if entryAt d sid \<noteq> Some expected \<or> en_ServerID entry \<noteq> sid then d
         else case en_Owner entry of
             None \<Rightarrow> d
           | Some r \<Rightarrow>
               let v = \<lparr>zv_identity = captureOwnerEntryIdentity entry, zv_entry = expected, zv_owner = r, zv_zeroAt = zeroAt\<rparr>
               in if \<not> zeroIdleMatches v expected entry then d
                  else case sampleOwner now False idleTimeout zeroAt (dm_objs d r) of
                      (oo, sample) \<Rightarrow>
                        let d1 = onObj r (\<lambda>_. oo) d; decision = shouldEvict sample now idleTimeout 0
                        in if \<not> de_evict decision then d1
                           else case evictionRemoval (de_reason decision) of
                               (reason, soft) \<Rightarrow> startRemoval sid (Some expected) reason soft (Some (ZeroIdleView v)) True d1)"

section \<open>Callbacks of an owner\<close>

text \<open>\<open>onZeroSessions\<close>: the time of the entry, and the timer of the cleanup with its delay.\<close>

definition onZeroSessions :: "time \<Rightarrow> nat \<Rightarrow> daemon \<Rightarrow> daemon \<times> (bytes \<times> nat \<times> time \<times> duration) option" where
  "onZeroSessions now r d =
     (let override = ownerIdleTimeout (dm_objs d r);
          delay = (if override > 0 then override else dm_zeroSessionCleanupDelay d)
      in case mutateCurrentOwnerEntry r (\<lambda>entry. entry\<lparr>en_LastSession := now\<rparr>) d of
           (d1, None) \<Rightarrow> (d1, None)
         | (d1, Some e) \<Rightarrow>
             (d1, if delay < 0 then None else Some (ow_serverID (oo_owner (dm_objs d r)), e, now, delay)))"

definition onUpstreamExit :: "time \<Rightarrow> nat \<Rightarrow> daemon \<Rightarrow> daemon" where
  "onUpstreamExit now r d =
     (case mutateCurrentOwnerEntry r (\<lambda>entry. entry) d of
        (d1, None) \<Rightarrow> d1
      | (d1, Some e) \<Rightarrow>
          let entry = dm_entries d1 e; d2 = recordCrash now (cmdKey (en_Command entry) (en_Args entry)) d1
          in if en_Persistent entry then d2
             else removeOwnerIfCurrent (ow_serverID (oo_owner (dm_objs d r))) (Some e) UpstreamExit False d2)"

definition setOwnerPersistent :: "nat \<Rightarrow> bool \<Rightarrow> daemon \<Rightarrow> daemon \<times> bool" where
  "setOwnerPersistent r persists d =
     (case mutateCurrentOwnerEntry r (\<lambda>entry. entry\<lparr>en_Persistent := persists\<rparr>) d of (d1, e) \<Rightarrow> (d1, e \<noteq> None))"

section \<open>What an eviction has seen\<close>

lemma shouldEvict_idle:
  assumes "de_evict (shouldEvict s now general isolatedIdle)" "de_reason (shouldEvict s now general isolatedIdle) \<noteq> Some Zombie"
  shows "ev_Sessions s = 0 \<and> ev_PendingSessions s = 0 \<and> \<not> ev_Persistent s \<and> ev_PendingRequests s \<le> 0 \<and> ev_ActiveProgressTokens s = 0 \<and>
    \<not> ev_HasBusyWork s \<and> \<not> ev_MaterializationBlocked s \<and> 0 < effectiveIdle s general isolatedIdle \<and>
    effectiveIdle s general isolatedIdle < time_sub now (max (ev_LastSession s) (ev_LastActivity s))"
  using assms unfolding shouldEvict_def Let_def keepOwner_def by (auto split: if_splits)

lemma shouldEvict_zombie:
  assumes "de_reason (shouldEvict s now general isolatedIdle) = Some Zombie"
  shows "ev_UpstreamDead s \<and> ev_Sessions s = 0 \<and> \<not> ev_CacheReady s \<and> ev_PendingSessions s = 0 \<and> \<not> ev_Persistent s \<and>
    \<not> ev_MaterializationBlocked s"
  using assms unfolding shouldEvict_def Let_def keepOwner_def by (auto split: if_splits)

text \<open>
  The gate of the reaper as a specification: an owner is evicted exactly when it is a zombie or idle for
  longer than its timeout.
\<close>

definition quietOwner :: "evictionSample \<Rightarrow> bool" where
  "quietOwner s \<longleftrightarrow>
     ev_Sessions s = 0 \<and> ev_PendingSessions s = 0 \<and> \<not> ev_Persistent s \<and> \<not> ev_MaterializationBlocked s"

lemma shouldEvict_iff:
  "de_evict (shouldEvict s now general isolatedIdle) \<longleftrightarrow>
     quietOwner s \<and>
     (ev_UpstreamDead s \<and> \<not> ev_CacheReady s \<or>
      ev_PendingRequests s \<le> 0 \<and> ev_ActiveProgressTokens s = 0 \<and> \<not> ev_HasBusyWork s \<and> 0 < effectiveIdle s general isolatedIdle \<and>
      effectiveIdle s general isolatedIdle < time_sub now (max (ev_LastSession s) (ev_LastActivity s)))"
  unfolding shouldEvict_def Let_def keepOwner_def quietOwner_def by auto

end
