(* ===== verification/Daemon.thy ===== *)
theory Daemon
  imports Reaper
begin

text \<open>
  The daemon as a whole: how owners enter the registry (the sections of \<open>spawnOnce\<close> in \<open>daemon.go\<close> that
  change it, for the legacy era and without templates), how the daemon ends, and one step function over
  everything that can happen, in any order.
\<close>

section \<open>Creating an owner\<close>

text \<open>The placeholder that reserves the identifier while the owner is built.\<close>

definition placeholderEntry :: "bytes \<Rightarrow> bytes \<Rightarrow> bytes list \<Rightarrow> bytes \<Rightarrow> env \<Rightarrow> bytes \<Rightarrow> bytes \<Rightarrow> nat \<Rightarrow> OwnerEntry" where
  "placeholderEntry sid command args cwd environ key generation e =
     \<lparr>en_Owner = None, en_ServerID = sid, en_Command = command, en_Args = args, en_Cwd = cwd, en_Mode = [], en_ProtocolEra = EraLegacy,
      en_Env = environ, en_maintenanceContexts = [key], en_maintenanceIncomplete = False, en_Persistent = False, en_LastSession = 0,
      en_OwnerGeneration = generation, en_IdleTimeout = 0, en_creating = Some (CreateChan e), en_terminationHint = HintNone, en_snapshotPins = 0,
      en_snapshotUnpinned = None, en_removalInProgress = False, en_removalDone = None, en_removalRetrying = False\<rparr>"

text \<open>
  The reservation. An identifier that is taken is left to the branches of \<open>spawnOnce\<close> that reuse or
  remove its owner.
\<close>

definition spawnReserve :: "bytes \<Rightarrow> bytes \<Rightarrow> bytes list \<Rightarrow> bytes \<Rightarrow> env \<Rightarrow> bytes \<Rightarrow> daemon \<Rightarrow> daemon \<times> (daemon_error + nat) option" where
  "spawnReserve sid command args cwd environ generation d =
     (let key = maintenanceContext d EraLegacy command args cwd environ
      in case checkMaintenanceKey d key of
           Some err \<Rightarrow> (d, Some (Inl err))
         | None \<Rightarrow>
             (if entryAt d sid \<noteq> None then (d, None)
              else (d\<lparr>dm_owners := mput (dm_owners d) sid (dm_next d),
                      dm_entries := (dm_entries d)(dm_next d := placeholderEntry sid command args cwd environ key generation (dm_next d)),
                      dm_next := Suc (dm_next d)\<rparr>, Some (Inr (dm_next d)))))"

definition closeCreating :: "nat \<Rightarrow> daemon \<Rightarrow> daemon" where
  "closeCreating e d =
     closeChan (en_creating (dm_entries d e)) (onEntry e (\<lambda>entry. entry\<lparr>en_creating := None\<rparr>) d)"

definition forgetPlaceholder :: "nat \<Rightarrow> daemon \<Rightarrow> daemon" where
  "forgetPlaceholder e d =
     (let sid = en_ServerID (dm_entries d e) in if entryAt d sid = Some e then deleteOwnerEntry sid d else d)"

text \<open>The owner could not be built. The channel is closed here, but stays in the entry.\<close>

definition spawnAbandon :: "nat \<Rightarrow> daemon \<Rightarrow> daemon" where
  "spawnAbandon e d =
     closeChan (en_creating (dm_entries d e)) (forgetPlaceholder e d)"

definition entryKey :: "daemon \<Rightarrow> OwnerEntry \<Rightarrow> bytes" where
  "entryKey d entry = maintenanceContext d EraLegacy (en_Command entry) (en_Args entry) (en_Cwd entry) (en_Env entry)"

text \<open>The promotion of a placeholder: the owner that was built for it becomes its owner.\<close>

definition spawnPromote :: "time \<Rightarrow> nat \<Rightarrow> bytes \<Rightarrow> bool \<Rightarrow> ownerObj \<Rightarrow> daemon \<Rightarrow> daemon \<times> daemon_error option" where
  "spawnPromote now e mode persists oo d =
     (let entry = dm_entries d e
      in case checkMaintenanceKey d (entryKey d entry) of
           Some err \<Rightarrow> (closeCreating e (forgetPlaceholder e d), Some err)
         | None \<Rightarrow>
             (if entryAt d (en_ServerID entry) \<noteq> Some e then (d, Some (PlainError ''spawn: retry requested''))
              else ((closeCreating e
                       (onEntry e (\<lambda>entry. entry\<lparr>en_Owner := Some (dm_nextOwner d), en_Mode := mode, en_LastSession := now,
                                        en_IdleTimeout := dm_ownerIdleTimeout d, en_Persistent := persists\<rparr>) d))
                    \<lparr>dm_objs := (dm_objs d)(dm_nextOwner d := oo), dm_nextOwner := Suc (dm_nextOwner d)\<rparr>, None)))"

section \<open>The work of a hold\<close>

definition drainPins :: "bytes \<Rightarrow> daemon \<Rightarrow> daemon" where
  "drainPins i d =
     (case mget (dm_leases d) i of
        None \<Rightarrow> d
      | Some lease \<Rightarrow>
          foldl (\<lambda>d pin. case en_Owner (dm_entries d (pin_entry pin)) of
                    None \<Rightarrow> d | Some r \<Rightarrow> onObj r (onOwner DrainForMaintenance) d) d (ml_pins lease))"

definition retirePin :: "daemon \<Rightarrow> maintenancePin \<Rightarrow> daemon" where
  "retirePin d pin =
     (if en_Owner (dm_entries d (pin_entry pin)) = None then d
      else removeOwnerIfCurrent (id_serverID (pin_identity pin)) (Some (pin_entry pin)) RemovedMaintenance False d)"

definition retirePins :: "bytes \<Rightarrow> daemon \<Rightarrow> daemon" where
  "retirePins i d = (case mget (dm_leases d) i of None \<Rightarrow> d | Some lease \<Rightarrow> foldl retirePin d (ml_pins lease))"

text \<open>A pin whose removal failed is retried, unless its owner has retired meanwhile.\<close>

definition retryPin :: "maintenancePin \<Rightarrow> daemon \<Rightarrow> daemon" where
  "retryPin pin d =
     (case ownerOf d (pin_entry pin) of
        None \<Rightarrow> d
      | Some oo \<Rightarrow>
          (if MaintenanceRetired oo then d
           else scheduleOwnerFinalizationRetry (id_serverID (pin_identity pin)) (pin_entry pin) RemovedMaintenance False d))"

section \<open>The end of the daemon\<close>

text \<open>A pass of the loop of \<open>shutdown\<close>: placeholders are dropped, every owner gets a remover.\<close>

definition dropPlaceholder :: "daemon \<Rightarrow> bytes \<times> nat \<Rightarrow> daemon" where
  "dropPlaceholder d p = (if en_Owner (dm_entries d (snd p)) = None then deleteOwnerEntry (fst p) d else d)"

definition shutdownPass :: "daemon \<Rightarrow> daemon" where
  "shutdownPass d =
     (if \<not> dm_shuttingDown d then d
      else let d1 = foldl dropPlaceholder d (dm_owners d)
           in foldl (\<lambda>d (sid, e). startRemoval sid (Some e) OperatorHard False None False d) d1 (dm_owners d1))"

definition shutdownEnd :: "daemon \<Rightarrow> daemon" where
  "shutdownEnd d = (if dm_shuttingDown d \<and> dm_owners d = [] then d\<lparr>dm_done := True\<rparr> else d)"

section \<open>Everything that can happen\<close>

text \<open>
  The owner that a remover is finalising, while it holds the \<open>removalMu\<close> of that owner: the steps of the
  finalisation are then the remover's, and others that finalise the owner wait.
\<close>

definition insideRemoval :: "daemon \<Rightarrow> nat \<Rightarrow> bool" where
  "insideRemoval d r =
     list_ex (\<lambda>(_, rm). case rm_pc rm of
        RmElect e _ \<Rightarrow> en_Owner (dm_entries d e) = Some r
      | RmEnd e _ \<Rightarrow> en_Owner (dm_entries d e) = Some r
      | _ \<Rightarrow> False) (dm_removers d)"

text \<open>The goroutine that creates the owner of an entry is still at work.\<close>

definition creates :: "daemon \<Rightarrow> nat \<Rightarrow> bool" where
  "creates d e \<longleftrightarrow>
     e < dm_next d \<and> en_Owner (dm_entries d e) = None \<and>
     (case en_creating (dm_entries d e) of None \<Rightarrow> False | Some c \<Rightarrow> c \<notin> set (dm_closed d))"

fun finalizing :: "obj_event \<Rightarrow> bool" where
  "finalizing (FinalizeBegin soft) = True"
| "finalizing (FinalizeElect expired) = True"
| "finalizing (FinalizeEnd expired cl) = True"
| "finalizing ev = False"

fun setsHold :: "obj_event \<Rightarrow> bool" where
  "setsHold (OwnerEvent touched (EvSetMaintenance m)) = True"
| "setsHold ev = False"

datatype daemon_event =
    DmReserve bytes bytes "bytes list" bytes env bytes
  | DmAbandon nat
  | DmPromote nat bytes bool time bytes int nat OwnerConfig owner_env
  | DmOwner nat obj_event
  | DmAdmit nat bytes bytes env bool bool
  | DmAdmitMaterialization nat bytes env
  | DmRemove bytes "nat option" ownerRemovalReason bool
  | DmRemover nat rm_act
  | DmSweepTokens reaperOwnerView
  | DmSweep reaperOwnerView
  | DmZeroSessions nat
  | DmZeroTimer bytes nat time duration
  | DmUpstreamExit nat
  | DmSetPersistent nat bool
  | DmPin
  | DmUnpin "nat list"
  | DmHold time bytes duration duration "bytes option"
  | DmDrainPins bytes
  | DmRetirePins bytes
  | DmRetryPin maintenancePin
  | DmHoldEnd bytes holdResult
  | DmHoldBlock bytes holdResult
  | DmHoldTimer bytes
  | DmMutate maintenance_cmd bytes duration
  | DmShutdown
  | DmShutdownPass
  | DmShutdownEnd

text \<open>\<open>None\<close> is a panic of an owner's handler.\<close>

fun daemon_step :: "time \<Rightarrow> daemon \<Rightarrow> daemon_event \<Rightarrow> daemon option" where
  "daemon_step now d (DmReserve sid command args cwd environ generation) =
     Some (fst (spawnReserve sid command args cwd environ generation d))"
| "daemon_step now d (DmAbandon e) = Some (if creates d e then spawnAbandon e d else d)"
| "daemon_step now d (DmPromote e mode persists start command pid sequence cfg en) =
     Some (if creates d e
           then fst (spawnPromote now e mode persists
             (newObj True start command (NewOwner pid sequence (cfg\<lparr>cfg_ServerID := en_ServerID (dm_entries d e)\<rparr>) en)) d)
           else d)"
| "daemon_step now d (DmOwner r ev) =
     (if r \<ge> dm_nextOwner d \<or> setsHold ev \<or> finalizing ev \<and> insideRemoval d r then Some d
      else map_option (\<lambda>oo. onObj r (\<lambda>_. oo) d) (obj_step now (dm_objs d r) ev))"
| "daemon_step now d (DmAdmit e token cwd environ initial expired) =
     Some (if e < dm_next d then (case admitOwner now e token cwd environ initial expired d of None \<Rightarrow> d | Some (d', _) \<Rightarrow> d') else d)"
| "daemon_step now d (DmAdmitMaterialization r cwd environ) = Some (fst (admitMaterialization r cwd environ d))"
| "daemon_step now d (DmRemove sid expected reason soft) = Some (removeOwnerIfCurrent sid expected reason soft d)"
| "daemon_step now d (DmRemover tid act) = Some (removerStep now tid act d)"
| "daemon_step now d (DmSweepTokens v) = Some (sweepTokens now d v)"
| "daemon_step now d (DmSweep v) = Some (sweepOwner now d v)"
| "daemon_step now d (DmZeroSessions r) = Some (fst (onZeroSessions now r d))"
| "daemon_step now d (DmZeroTimer sid e zeroAt delay) = Some (removeOwnerIfCurrentAndZeroIdle now sid e zeroAt delay d)"
| "daemon_step now d (DmUpstreamExit r) = Some (onUpstreamExit now r d)"
| "daemon_step now d (DmSetPersistent r persists) = Some (fst (setOwnerPersistent r persists d))"
| "daemon_step now d DmPin = Some (fst (acquireSnapshotOwnerPins d))"
| "daemon_step now d (DmUnpin es) = Some (releaseSnapshotOwnerPins (filter (\<lambda>e. e < dm_next d) es) d)"
| "daemon_step now d (DmHold committedAt sid ttl drain ident) = Some (fst (acquireBegin now committedAt sid ttl drain ident d))"
| "daemon_step now d (DmDrainPins i) = Some (drainPins i d)"
| "daemon_step now d (DmRetirePins i) = Some (retirePins i d)"
| "daemon_step now d (DmRetryPin pin) = Some (retryPin pin d)"
| "daemon_step now d (DmHoldEnd i own) = Some (fst (acquireEnd now i own d))"
| "daemon_step now d (DmHoldBlock i own) = Some (fst (blockMaintenance now i own d))"
| "daemon_step now d (DmHoldTimer i) = Some (maintenanceTimerFires now i d)"
| "daemon_step now d (DmMutate cmd i ttl) = Some (fst (mutateMaintenance now cmd i ttl d))"
| "daemon_step now d DmShutdown = Some (fst (beginMaintenanceLifecycle d))"
| "daemon_step now d DmShutdownPass = Some (shutdownPass d)"
| "daemon_step now d DmShutdownEnd = Some (shutdownEnd d)"

fun daemon_run :: "daemon \<Rightarrow> (time \<times> daemon_event) list \<Rightarrow> daemon option" where
  "daemon_run d [] = Some d"
| "daemon_run d ((now, ev) # evs) = (case daemon_step now d ev of None \<Rightarrow> None | Some d' \<Rightarrow> daemon_run d' evs)"

text \<open>A daemon without owners and holds; \<open>persist\<close> and \<open>locks\<close> are the answers of the file system.\<close>

definition newDaemon ::
  "bool list \<Rightarrow> lock_outcome list \<Rightarrow> duration \<Rightarrow> duration \<Rightarrow> duration \<Rightarrow> bytes \<Rightarrow> (time \<Rightarrow> bytes) \<Rightarrow> (bytes \<Rightarrow> bytes) \<Rightarrow> (bytes \<Rightarrow> bytes) \<Rightarrow>
   (nat \<Rightarrow> OwnerEntry) \<Rightarrow> (nat \<Rightarrow> ownerObj) \<Rightarrow> daemon" where
  "newDaemon persist locks idle isolatedIdle delay scope text sha canon entries objs =
     \<lparr>dm_owners = [], dm_entries = entries, dm_objs = objs, dm_next = 0, dm_nextOwner = 0, dm_nextChan = 0, dm_closed = [],
      dm_leases = [], dm_maintenanceFailed = False, dm_persist = persist, dm_locks = locks, dm_store = None, dm_shuttingDown = False,
      dm_done = False, dm_crashTracker = [], dm_retryCounters = [],
      dm_removal = \<lparr>rs_Total = 0, rs_ByReason = [], rs_PendingTokensRemoved = 0, rs_BoundHistoryRemoved = 0\<rparr>,
      dm_removers = [], dm_ownerIdleTimeout = idle, dm_isolatedIdleTimeout = isolatedIdle, dm_zeroSessionCleanupDelay = delay,
      dm_maintenanceScope = scope, dm_timeText = text, dm_sha = sha, dm_canon = canon\<rparr>"

end
