(* ===== verification/Daemon_Inv.thy ===== *)
theory Daemon_Inv
  imports Daemon
begin

text \<open>
  The invariant of the daemon: the registry, the removers, the owners and the holds. Changes that touch
  none of what the invariant speaks about (\<open>calm\<close>) are treated once; the other steps get a lemma each.
\<close>

section \<open>The invariant\<close>

definition registered :: "daemon \<Rightarrow> nat \<Rightarrow> bool" where
  "registered d e \<longleftrightarrow> entryAt d (en_ServerID (dm_entries d e)) = Some e"

definition names :: "daemon \<Rightarrow> bool" where
  "names d \<longleftrightarrow>
     minv (dm_owners d) \<and> (\<forall>sid e. entryAt d sid = Some e \<longrightarrow> e < dm_next d \<and> en_ServerID (dm_entries d e) = sid)"

definition owned :: "daemon \<Rightarrow> bool" where
  "owned d \<longleftrightarrow>
     (\<forall>e<dm_next d. \<forall>r. en_Owner (dm_entries d e) = Some r \<longrightarrow> r < dm_nextOwner d) \<and>
     (\<forall>e<dm_next d. \<forall>e'<dm_next d. \<forall>r. en_Owner (dm_entries d e) = Some r \<longrightarrow> en_Owner (dm_entries d e') = Some r \<longrightarrow> e = e')"

text \<open>A registered entry without an owner is under construction, and only its first context is known.\<close>

definition building :: "daemon \<Rightarrow> bool" where
  "building d \<longleftrightarrow>
     (\<forall>e<dm_next d. registered d e \<longrightarrow> en_Owner (dm_entries d e) = None \<longrightarrow>
        en_creating (dm_entries d e) = Some (CreateChan e) \<and> CreateChan e \<notin> set (dm_closed d) \<and>
        en_maintenanceContexts (dm_entries d e) = [entryKey d (dm_entries d e)]) \<and>
     (\<forall>e<dm_next d. \<forall>c. en_creating (dm_entries d e) = Some c \<longrightarrow> c = CreateChan e) \<and>
     (\<forall>e\<ge>dm_next d. CreateChan e \<notin> set (dm_closed d))"

text \<open>An owner that the registry has forgotten is retired.\<close>

definition gone :: "daemon \<Rightarrow> bool" where
  "gone d \<longleftrightarrow>
     (\<forall>e<dm_next d. \<forall>r. en_Owner (dm_entries d e) = Some r \<longrightarrow> \<not> registered d e \<longrightarrow> oo_done (dm_objs d r))"

text \<open>The entry that a remover works on, from its claim to its last section on the entry.\<close>

fun claimed :: "remover_pc \<Rightarrow> nat option" where
  "claimed (RmBegin e k) = Some e"
| "claimed (RmElect e k) = Some e"
| "claimed (RmEnd e k) = Some e"
| "claimed (RmFailed e err) = Some e"
| "claimed (RmCommit e code err) = Some e"
| "claimed _ = None"

definition worksOn :: "daemon \<Rightarrow> nat \<Rightarrow> nat \<Rightarrow> bool" where
  "worksOn d tid e \<longleftrightarrow> (\<exists>rm. mget (dm_removers d) tid = Some rm \<and> claimed (rm_pc rm) = Some e)"

definition committing :: "daemon \<Rightarrow> nat \<Rightarrow> nat \<Rightarrow> bool" where
  "committing d tid e \<longleftrightarrow> (\<exists>rm code err. mget (dm_removers d) tid = Some rm \<and> rm_pc rm = RmCommit e code err)"

definition exclusive :: "daemon \<Rightarrow> bool" where
  "exclusive d \<longleftrightarrow>
     (\<forall>tid. mget (dm_removers d) tid \<noteq> None \<longrightarrow> tid < dm_nextChan d) \<and>
     (\<forall>tid e. worksOn d tid e \<longrightarrow> e < dm_next d \<and> en_Owner (dm_entries d e) \<noteq> None \<and> en_removalInProgress (dm_entries d e)) \<and>
     (\<forall>tid tid' e. worksOn d tid e \<longrightarrow> worksOn d tid' e \<longrightarrow> tid = tid') \<and>
     (\<forall>tid e. committing d tid e \<longrightarrow> (\<exists>r. en_Owner (dm_entries d e) = Some r \<and> oo_done (dm_objs d r)))"

definition pinsOK :: "daemon \<Rightarrow> bool" where
  "pinsOK d \<longleftrightarrow>
     (\<forall>e. e \<ge> dm_next d \<or> en_snapshotPins (dm_entries d e) \<ge> 0 \<and>
        (en_removalInProgress (dm_entries d e) \<longrightarrow> en_snapshotPins (dm_entries d e) = 0) \<and>
        set_option (en_removalDone (dm_entries d e)) \<inter> range CreateChan = {} \<and>
        set_option (en_snapshotUnpinned (dm_entries d e)) \<inter> range CreateChan = {})"

definition objs_ok :: "(nat \<Rightarrow> nat set) \<Rightarrow> daemon \<Rightarrow> bool" where
  "objs_ok R d \<longleftrightarrow> (\<forall>r<dm_nextOwner d. obj_ok (R r) (dm_objs d r) \<and> underHold (dm_objs d r))"

text \<open>
  The holds. The entries in the registry whose contexts a hold covers are pinned by it; when the hold is
  published, their owners are retired.
\<close>

definition pinDone :: "daemon \<Rightarrow> maintenancePin \<Rightarrow> bool" where
  "pinDone d pin \<longleftrightarrow>
     (case en_Owner (dm_entries d (pin_entry pin)) of
        None \<Rightarrow> \<not> registered d (pin_entry pin) | Some r \<Rightarrow> oo_done (dm_objs d r))"

definition lease_ok :: "daemon \<Rightarrow> maintenanceLease \<Rightarrow> bool" where
  "lease_ok d l \<longleftrightarrow>
     \<not> ml_recovered l \<and> hr_State (ml_result l) \<noteq> MaintenanceReleased \<and>
     (hr_State (ml_result l) = MaintenanceHeld \<longleftrightarrow> hr_TreesRetired (ml_result l)) \<and>
     (\<forall>e<dm_next d. registered d e \<longrightarrow> set (en_maintenanceContexts (dm_entries d e)) \<inter> set (ml_keys l) \<noteq> {} \<longrightarrow>
        e \<in> pin_entry ` set (ml_pins l)) \<and>
     (\<forall>pin\<in>set (ml_pins l). pin_entry pin < dm_next d \<and>
        (en_Owner (dm_entries d (pin_entry pin)) = None \<longrightarrow> pin_creating pin = Some (CreateChan (pin_entry pin))) \<and>
        (hr_State (ml_result l) = MaintenanceHeld \<longrightarrow> pinDone d pin))"

definition holds_ok :: "daemon \<Rightarrow> bool" where
  "holds_ok d \<longleftrightarrow>
     (\<forall>i l. mget (dm_leases d) i = Some l \<longrightarrow> hr_HoldID (ml_result l) = i \<and> lease_ok d l) \<and>
     (\<forall>i j l m. mget (dm_leases d) i = Some l \<longrightarrow> mget (dm_leases d) j = Some m \<longrightarrow> i \<noteq> j \<longrightarrow> set (ml_keys l) \<inter> set (ml_keys m) = {}) \<and>
     minv (dm_leases d) \<and> (\<forall>recs. dm_store d = Some recs \<longrightarrow> recs = maintenanceRecords (dm_leases d))"

definition dinv :: "(nat \<Rightarrow> nat set) \<Rightarrow> daemon \<Rightarrow> bool" where
  "dinv R d \<longleftrightarrow> names d \<and> owned d \<and> building d \<and> gone d \<and> exclusive d \<and> pinsOK d \<and> objs_ok R d \<and> holds_ok d"

section \<open>Changes beside the registry\<close>

text \<open>The fields of an entry that concern the registry and the holds.\<close>

definition core_entry :: "OwnerEntry \<Rightarrow> OwnerEntry" where
  "core_entry entry =
     entry\<lparr>en_Mode := [], en_Persistent := False, en_LastSession := 0, en_IdleTimeout := 0, en_terminationHint := HintNone,
           en_snapshotPins := 0, en_snapshotUnpinned := None, en_removalInProgress := False, en_removalDone := None,
           en_removalRetrying := False\<rparr>"

lemma core_entry_fields:
  assumes "core_entry a = core_entry b"
  shows "en_Owner a = en_Owner b" "en_ServerID a = en_ServerID b" "en_Command a = en_Command b" "en_Args a = en_Args b"
    "en_Cwd a = en_Cwd b" "en_Env a = en_Env b" "en_maintenanceContexts a = en_maintenanceContexts b" "en_creating a = en_creating b"
  by (use arg_cong [OF assms, of en_Owner] arg_cong [OF assms, of en_ServerID] arg_cong [OF assms, of en_Command]
      arg_cong [OF assms, of en_Args] arg_cong [OF assms, of en_Cwd] arg_cong [OF assms, of en_Env]
      arg_cong [OF assms, of en_maintenanceContexts] arg_cong [OF assms, of en_creating] in \<open>simp_all add: core_entry_def\<close>)

definition removal_entry :: "OwnerEntry \<Rightarrow> int \<times> bool \<times> chan option \<times> chan option" where
  "removal_entry entry = (en_snapshotPins entry, en_removalInProgress entry, en_removalDone entry, en_snapshotUnpinned entry)"

text \<open>The registry stays as it is, and so does every retired owner.\<close>

definition frame :: "daemon \<Rightarrow> daemon \<Rightarrow> bool" where
  "frame d d' \<longleftrightarrow>
     dm_owners d' = dm_owners d \<and> dm_next d' = dm_next d \<and> dm_nextOwner d' = dm_nextOwner d \<and>
     set (dm_closed d') \<inter> range CreateChan = set (dm_closed d) \<inter> range CreateChan \<and>
     (\<forall>e. core_entry (dm_entries d' e) = core_entry (dm_entries d e)) \<and> (\<forall>r. oo_done (dm_objs d r) \<longrightarrow> oo_done (dm_objs d' r)) \<and>
     dm_maintenanceScope d' = dm_maintenanceScope d \<and> dm_sha d' = dm_sha d \<and> dm_canon d' = dm_canon d"

lemma frame_refl [simp, intro]: "frame d d"
  by (simp add: frame_def)

lemma frame_trans: "frame a b \<Longrightarrow> frame b c \<Longrightarrow> frame a c"
  unfolding frame_def by auto

lemma frame_entry:
  assumes "frame d d'"
  shows "en_Owner (dm_entries d' e) = en_Owner (dm_entries d e)" "en_ServerID (dm_entries d' e) = en_ServerID (dm_entries d e)"
    "en_maintenanceContexts (dm_entries d' e) = en_maintenanceContexts (dm_entries d e)"
    "en_creating (dm_entries d' e) = en_creating (dm_entries d e)"
    "entryKey d' (dm_entries d' e) = entryKey d (dm_entries d e)"
proof -
  have c: "core_entry (dm_entries d' e) = core_entry (dm_entries d e)" using assms by (simp add: frame_def)
  note core_entry_fields [OF c]
  then show "en_Owner (dm_entries d' e) = en_Owner (dm_entries d e)" "en_ServerID (dm_entries d' e) = en_ServerID (dm_entries d e)"
    "en_maintenanceContexts (dm_entries d' e) = en_maintenanceContexts (dm_entries d e)"
    "en_creating (dm_entries d' e) = en_creating (dm_entries d e)" by blast+
  show "entryKey d' (dm_entries d' e) = entryKey d (dm_entries d e)"
    using core_entry_fields [OF c] assms by (simp add: entryKey_def maintenanceContext_def contextFields_def frame_def)
qed

lemma frame_same:
  assumes "frame d d'"
  shows "dm_owners d' = dm_owners d" "dm_next d' = dm_next d" "dm_nextOwner d' = dm_nextOwner d"
    "oo_done (dm_objs d r) \<Longrightarrow> oo_done (dm_objs d' r)"
  using assms by (simp_all add: frame_def)

lemma frame_registered:
  assumes "frame d d'"
  shows "registered d' e = registered d e"
  by (simp add: registered_def frame_entry [OF assms] frame_same [OF assms])

lemma frame_chan:
  assumes "frame d d'"
  shows "CreateChan e \<in> set (dm_closed d') \<longleftrightarrow> CreateChan e \<in> set (dm_closed d)"
proof -
  have "set (dm_closed d') \<inter> range CreateChan = set (dm_closed d) \<inter> range CreateChan" using assms by (simp add: frame_def)
  then show ?thesis by blast
qed

lemma frame_registry:
  assumes c: "frame d d'"
  shows "names d \<Longrightarrow> names d'" "owned d \<Longrightarrow> owned d'" "building d \<Longrightarrow> building d'"
  unfolding names_def owned_def building_def frame_entry [OF c] frame_same(1-3) [OF c] frame_chan [OF c] frame_registered [OF c]
  by assumption+

lemma frame_gone:
  assumes c: "frame d d'"
  shows "gone d \<Longrightarrow> gone d'"
  using frame_same(4) [OF c] unfolding gone_def frame_entry [OF c] frame_same(1-3) [OF c] frame_registered [OF c] by blast

lemma frame_pinDone:
  assumes c: "frame d d'"
  shows "pinDone d pin \<Longrightarrow> pinDone d' pin"
  using frame_same(4) [OF c] unfolding pinDone_def frame_entry [OF c] frame_registered [OF c] by (auto split: option.splits)

section \<open>Holds\<close>

definition untimed :: "maintenanceLease \<Rightarrow> maintenanceLease" where
  "untimed l = l\<lparr>ml_timer := None, ml_retirementRetry := False, ml_ptr := 0\<rparr>"

lemma untimed_fields:
  assumes "untimed a = untimed b"
  shows "ml_keys a = ml_keys b" "ml_result a = ml_result b" "ml_pins a = ml_pins b" "ml_recovered a = ml_recovered b"
  by (use arg_cong [OF assms, of ml_keys] arg_cong [OF assms, of ml_result] arg_cong [OF assms, of ml_pins]
      arg_cong [OF assms, of ml_recovered] in \<open>simp_all add: untimed_def\<close>)

lemma lease_ok_mono:
  assumes "lease_ok d l" "ml_keys l' = ml_keys l" "ml_result l' = ml_result l" "ml_pins l' = ml_pins l" "ml_recovered l' = ml_recovered l"
    and "dm_next d \<le> dm_next d'"
    and "\<And>e. e < dm_next d' \<Longrightarrow> registered d' e \<Longrightarrow> set (en_maintenanceContexts (dm_entries d' e)) \<inter> set (ml_keys l) \<noteq> {} \<Longrightarrow>
        e < dm_next d \<and> registered d e \<and> set (en_maintenanceContexts (dm_entries d e)) \<inter> set (ml_keys l) \<noteq> {}"
    and "\<And>e. e < dm_next d \<Longrightarrow> en_Owner (dm_entries d' e) = None \<Longrightarrow> en_Owner (dm_entries d e) = None"
    and "\<And>pin. pin \<in> set (ml_pins l) \<Longrightarrow> pin_entry pin < dm_next d \<Longrightarrow> pinDone d pin \<Longrightarrow> pinDone d' pin"
  shows "lease_ok d' l'"
proof -
  have l: "ml_recovered l' = ml_recovered l" "ml_result l' = ml_result l" "ml_keys l' = ml_keys l" "ml_pins l' = ml_pins l" using assms by simp_all
  have "e \<in> pin_entry ` set (ml_pins l)" if "e < dm_next d'" "registered d' e" "set (en_maintenanceContexts (dm_entries d' e)) \<inter> set (ml_keys l) \<noteq> {}" for e
    using assms(7) [OF that] assms(1) by (simp add: lease_ok_def)
  moreover have "pin_entry pin < dm_next d' \<and> (en_Owner (dm_entries d' (pin_entry pin)) = None \<longrightarrow> pin_creating pin = Some (CreateChan (pin_entry pin))) \<and>
      (hr_State (ml_result l) = MaintenanceHeld \<longrightarrow> pinDone d' pin)" if "pin \<in> set (ml_pins l)" for pin
  proof -
    have p: "pin_entry pin < dm_next d" "en_Owner (dm_entries d (pin_entry pin)) = None \<longrightarrow> pin_creating pin = Some (CreateChan (pin_entry pin))"
      "hr_State (ml_result l) = MaintenanceHeld \<longrightarrow> pinDone d pin" using assms(1) that by (simp_all add: lease_ok_def)
    show ?thesis using p assms(6) assms(8) [OF p(1)] assms(9) [OF that p(1)] by auto
  qed
  ultimately show ?thesis using assms(1) unfolding lease_ok_def l by blast
qed

lemma frame_lease:
  assumes c: "frame d d'" and "lease_ok d l" "untimed l' = untimed l"
  shows "lease_ok d' l'"
  by (rule lease_ok_mono [OF assms(2) untimed_fields(1-4) [OF assms(3)]])
    (simp_all add: frame_entry [OF c] frame_same [OF c] frame_registered [OF c] frame_pinDone [OF c])

lemma records_untimed:
  assumes "\<And>i. map_option untimed (mget leases' i) = map_option untimed (mget leases i)" "minv leases" "minv leases'"
  shows "maintenanceRecords leases' = maintenanceRecords leases"
proof -
  have same: "leaseRecord a = leaseRecord b" if "untimed a = untimed b" for a b
    by (simp add: leaseRecord_def untimed_fields(1,2) [OF that])
  have r: "map_option leaseRecord (mget leases' i) = map_option leaseRecord (mget leases i)" for i
    using assms(1) [of i] by (cases "mget leases' i"; cases "mget leases i") (auto intro: same)
  have keys: "set (map fst m) = {i. mget m i \<noteq> None}" for m :: "(bytes, maintenanceLease) gomap"
    by (auto simp: mget_def map_of_eq_None_iff image_iff)
  have "(mget leases' i = None) = (mget leases i = None)" for i using assms(1) [of i] by (metis option.map_disc_iff)
  then have "set (map fst leases') = set (map fst leases)" unfolding keys by simp
  then have "sort (map fst leases') = sort (map fst leases)"
    using assms(2,3) by (intro sorted_distinct_set_unique) (simp_all add: minv_def)
  moreover have "leaseRecord (the (mget leases' i)) = leaseRecord (the (mget leases i))" if "i \<in> set (sort (map fst leases))" for i
    using that r [of i] \<open>set (map fst leases') = set (map fst leases)\<close>
    by (cases "mget leases' i"; cases "mget leases i") (auto simp: mget_def map_of_eq_None_iff)
  ultimately show ?thesis by (simp add: maintenanceRecords_def)
qed

lemma frame_holds:
  assumes c: "frame d d'" and h: "holds_ok d" and m: "minv (dm_leases d')"
    and u: "\<And>i. map_option untimed (mget (dm_leases d') i) = map_option untimed (mget (dm_leases d) i)"
    and st: "dm_store d' = None \<or> dm_store d' = dm_store d"
  shows "holds_ok d'"
proof -
  have found: "\<exists>l. mget (dm_leases d) i = Some l \<and> untimed l' = untimed l" if "mget (dm_leases d') i = Some l'" for i l'
    using u [of i] that by (cases "mget (dm_leases d) i") auto
  have "maintenanceRecords (dm_leases d') = maintenanceRecords (dm_leases d)"
    using records_untimed [OF u _ m] h by (simp add: holds_ok_def)
  moreover have "hr_HoldID (ml_result l') = i \<and> lease_ok d' l'" if got: "mget (dm_leases d') i = Some l'" for i l'
  proof -
    obtain l where l: "mget (dm_leases d) i = Some l" "untimed l' = untimed l" using found [OF got] by blast
    then have "hr_HoldID (ml_result l) = i" "lease_ok d l" using h by (simp_all add: holds_ok_def)
    then show ?thesis using frame_lease [OF c _ l(2)] untimed_fields(2) [OF l(2)] by simp
  qed
  moreover have "set (ml_keys l) \<inter> set (ml_keys k) = {}" if "mget (dm_leases d') i = Some l" "mget (dm_leases d') j = Some k" "i \<noteq> j" for i j l k
    using found [OF that(1)] found [OF that(2)] that(3) h untimed_fields(1) unfolding holds_ok_def by metis
  ultimately show ?thesis using m st h by (auto simp: holds_ok_def)
qed

text \<open>The holds, up to their timers.\<close>

definition sameHolds :: "daemon \<Rightarrow> daemon \<Rightarrow> bool" where
  "sameHolds d d' \<longleftrightarrow>
     (\<forall>i. map_option untimed (mget (dm_leases d') i) = map_option untimed (mget (dm_leases d) i)) \<and>
     (minv (dm_leases d) \<longrightarrow> minv (dm_leases d')) \<and> (dm_store d' = None \<or> dm_store d' = dm_store d)"

lemma sameHolds_refl [simp, intro]: "sameHolds d d"
  by (simp add: sameHolds_def)

text \<open>
  A change that concerns removers, snapshot pins and owners only: these three parts of the invariant are
  left to prove.
\<close>

lemma dinv_frame:
  assumes "dinv R d" "frame d d'" "sameHolds d d'" "exclusive d'" "pinsOK d'" "objs_ok R' d'"
  shows "dinv R' d'"
proof -
  have h: "holds_ok d" using assms(1) by (simp add: dinv_def)
  then have "minv (dm_leases d)" unfolding holds_ok_def by blast
  then have "holds_ok d'" using frame_holds [OF assms(2) h] assms(3) unfolding sameHolds_def by blast
  then show ?thesis using assms frame_registry [OF assms(2)] frame_gone [OF assms(2)] by (simp add: dinv_def)
qed

section \<open>Calm changes\<close>

text \<open>A change of an owner that keeps its invariant and its retirement.\<close>

definition tame :: "ownerObj \<Rightarrow> ownerObj \<Rightarrow> bool" where
  "tame oo oo' \<longleftrightarrow>
     (\<forall>R. obj_ok R oo \<and> underHold oo \<longrightarrow> obj_ok R oo' \<and> underHold oo') \<and> (oo_done oo \<longrightarrow> oo_done oo')"

lemma tame_same [simp, intro]: "tame oo oo"
  by (simp add: tame_def)

lemma tame_chain: "tame a b \<Longrightarrow> tame b c \<Longrightarrow> tame a c"
  unfolding tame_def by blast

lemma tame_aside: "aside oo oo' \<Longrightarrow> tame oo oo'"
  unfolding tame_def using obj_ok_aside underHold_aside underHold_holds by (auto simp: aside_def)

definition calm :: "daemon \<Rightarrow> daemon \<Rightarrow> bool" where
  "calm d d' \<longleftrightarrow>
     frame d d' \<and> sameHolds d d' \<and> dm_removers d' = dm_removers d \<and> dm_nextChan d \<le> dm_nextChan d' \<and>
     (\<forall>e. removal_entry (dm_entries d' e) = removal_entry (dm_entries d e)) \<and> (\<forall>r. tame (dm_objs d r) (dm_objs d' r))"

lemma calm_refl [simp, intro]: "calm d d"
  by (simp add: calm_def)

lemma calm_trans: "calm a b \<Longrightarrow> calm b c \<Longrightarrow> calm a c"
  unfolding calm_def sameHolds_def by (auto intro: tame_chain frame_trans)

lemma exclusiveI:
  assumes "exclusive d" "\<And>tid. mget (dm_removers d') tid \<noteq> None \<Longrightarrow> tid < dm_nextChan d'"
    "\<And>t e. worksOn d' t e \<Longrightarrow> worksOn d t e" "\<And>e. en_Owner (dm_entries d' e) = en_Owner (dm_entries d e)"
    "\<And>t e. worksOn d' t e \<Longrightarrow> en_removalInProgress (dm_entries d' e)"
    "\<And>t e. committing d' t e \<Longrightarrow> \<exists>r. en_Owner (dm_entries d e) = Some r \<and> oo_done (dm_objs d' r)" "dm_next d' = dm_next d"
  shows "exclusive d'"
proof -
  have "tid = tid'" if "worksOn d' tid e" "worksOn d' tid' e" for tid tid' e
    using assms(1) assms(3) [OF that(1)] assms(3) [OF that(2)] unfolding exclusive_def by blast
  moreover have "e < dm_next d' \<and> en_Owner (dm_entries d' e) \<noteq> None" if "worksOn d' tid e" for tid e
    using assms(1) assms(3) [OF that] unfolding exclusive_def assms(4,7) by blast
  ultimately show ?thesis using assms(2,5,6) unfolding exclusive_def assms(4) by blast
qed

lemma pinsOKD:
  assumes "pinsOK d" "e < dm_next d"
  shows "en_snapshotPins (dm_entries d e) \<ge> 0" "en_removalInProgress (dm_entries d e) \<Longrightarrow> en_snapshotPins (dm_entries d e) = 0"
    "set_option (en_removalDone (dm_entries d e)) \<inter> range CreateChan = {}"
    "set_option (en_snapshotUnpinned (dm_entries d e)) \<inter> range CreateChan = {}"
  using assms unfolding pinsOK_def by (meson leD)+

lemma exclusiveD:
  assumes "exclusive d"
  shows "mget (dm_removers d) tid \<noteq> None \<Longrightarrow> tid < dm_nextChan d"
    "worksOn d tid e \<Longrightarrow> e < dm_next d \<and> en_Owner (dm_entries d e) \<noteq> None \<and> en_removalInProgress (dm_entries d e)"
    "worksOn d tid e \<Longrightarrow> worksOn d tid' e \<Longrightarrow> tid = tid'"
    "committing d tid e \<Longrightarrow> \<exists>r. en_Owner (dm_entries d e) = Some r \<and> oo_done (dm_objs d r)"
  using assms unfolding exclusive_def by blast+

lemma calm_dinv:
  assumes "calm d d'" "dinv R d"
  shows "dinv R d'"
proof -
  have c: "frame d d'" "sameHolds d d'" "dm_removers d' = dm_removers d" "dm_nextChan d \<le> dm_nextChan d'"
    and re: "\<And>e. removal_entry (dm_entries d' e) = removal_entry (dm_entries d e)" and t: "\<And>r. tame (dm_objs d r) (dm_objs d' r)"
    using assms(1) by (simp_all add: calm_def)
  have re': "en_snapshotPins (dm_entries d' e) = en_snapshotPins (dm_entries d e)"
    "en_removalInProgress (dm_entries d' e) = en_removalInProgress (dm_entries d e)"
    "en_removalDone (dm_entries d' e) = en_removalDone (dm_entries d e)"
    "en_snapshotUnpinned (dm_entries d' e) = en_snapshotUnpinned (dm_entries d e)" for e using re [of e] by (simp_all add: removal_entry_def)
  have ex: "exclusive d" using assms(2) by (simp add: dinv_def)
  have w: "worksOn d' = worksOn d" "committing d' = committing d" by (simp_all add: worksOn_def committing_def c(3) fun_eq_iff)
  have "exclusive d'"
  proof (rule exclusiveI [OF ex])
    show "mget (dm_removers d') tid \<noteq> None \<Longrightarrow> tid < dm_nextChan d'" for tid using exclusiveD(1) [OF ex] c(3,4) less_le_trans by metis
    show "worksOn d' t e \<Longrightarrow> en_removalInProgress (dm_entries d' e)" for t e unfolding w re' using exclusiveD(2) [OF ex] by blast
    show "committing d' t e \<Longrightarrow> \<exists>r. en_Owner (dm_entries d e) = Some r \<and> oo_done (dm_objs d' r)" for t e
      unfolding w using exclusiveD(4) [OF ex] frame_same(4) [OF c(1)] by blast
  qed (simp_all add: w frame_entry [OF c(1)] frame_same [OF c(1)])
  moreover have "pinsOK d'" using assms(2) unfolding dinv_def pinsOK_def re' frame_same(1-3) [OF c(1)] by blast
  moreover have "objs_ok R d'" using assms(2) t unfolding dinv_def objs_ok_def frame_same(1-3) [OF c(1)] tame_def by blast
  ultimately show ?thesis using dinv_frame [OF assms(2) c(1,2)] by blast
qed

end
