(* ===== verification/Daemon_Removal.thy ===== *)
theory Daemon_Removal
  imports Daemon_Inv
begin

text \<open>
  The steps of removers, snapshot pins and owners keep the invariant of the daemon.
\<close>

section \<open>Calm operations\<close>

lemma calm_onObj: "tame (dm_objs d r) (f (dm_objs d r)) \<Longrightarrow> calm d (onObj r f d)"
  by (auto simp: calm_def frame_def sameHolds_def onObj_def tame_def)

lemma calm_onEntry:
  "(\<And>entry. core_entry (f entry) = core_entry entry) \<Longrightarrow> (\<And>entry. removal_entry (f entry) = removal_entry entry) \<Longrightarrow> calm d (onEntry e f d)"
  by (simp add: calm_def frame_def sameHolds_def onEntry_def)

lemma calm_plain [simp]:
  "calm d (d\<lparr>dm_maintenanceFailed := b\<rparr>)" "calm d (d\<lparr>dm_shuttingDown := b\<rparr>)" "calm d (d\<lparr>dm_done := b\<rparr>)" "calm d (d\<lparr>dm_locks := ls\<rparr>)"
  "calm d (d\<lparr>dm_crashTracker := ct\<rparr>)" "calm d (d\<lparr>dm_retryCounters := rc\<rparr>)" "calm d (d\<lparr>dm_removal := st\<rparr>)"
  "calm d (d\<lparr>dm_persist := ps, dm_store := None\<rparr>)" "calm d (d\<lparr>dm_nextChan := Suc (dm_nextChan d)\<rparr>)"
  by (simp_all add: calm_def frame_def sameHolds_def)

lemma calm_closeChan: "set_option ch \<inter> range CreateChan = {} \<Longrightarrow> calm d (closeChan ch d)"
  by (auto simp: calm_def frame_def sameHolds_def closeChan_def split: option.split)

lemma calm_foldl: "(\<And>d x. x \<in> set xs \<Longrightarrow> calm d (f d x)) \<Longrightarrow> calm d (foldl f d xs)"
proof (induction xs arbitrary: d)
  case (Cons x xs)
  then have "calm d (f d x)" "calm (f d x) (foldl f (f d x) xs)" by simp_all
  then show ?case by (auto intro: calm_trans)
qed simp

lemma tame_busy: "tame oo (onOwner (\<lambda>ow. ow\<lparr>ow_busy := b\<rparr>) oo)"
  by (rule tame_aside) (auto intro!: aside_onOwner keeps)

lemma calm_sweepTokens: "calm d (sweepTokens now d v)"
  by (auto simp: sweepTokens_def intro!: calm_onObj tame_aside)

lemma calm_sample:
  assumes "sampleOwner now persists idle seen (dm_objs d r) = (oo, s)"
  shows "calm d (onObj r (\<lambda>_. oo) d)"
  using assms by (auto simp: sampleOwner_def ownerHasActiveBusyWork_def case_prod_beta intro!: calm_onObj tame_busy)

lemma calm_mutate:
  assumes "\<And>entry. core_entry (f entry) = core_entry entry" "\<And>entry. removal_entry (f entry) = removal_entry entry"
  shows "calm d (fst (mutateCurrentOwnerEntry r f d))"
  using calm_onEntry [of f d] assms by (auto simp: mutateCurrentOwnerEntry_def split: option.split)

lemma calm_zeroSessions: "calm d (fst (onZeroSessions now r d))"
proof -
  have "fst (onZeroSessions now r d) = fst (mutateCurrentOwnerEntry r (\<lambda>entry. entry\<lparr>en_LastSession := now\<rparr>) d)"
    by (auto simp: onZeroSessions_def Let_def split: prod.split option.split)
  then show ?thesis using calm_mutate [of "\<lambda>entry. entry\<lparr>en_LastSession := now\<rparr>" d r] by (simp add: core_entry_def removal_entry_def)
qed

lemma calm_setPersistent: "calm d (fst (setOwnerPersistent r b d))"
  using calm_mutate [of "\<lambda>entry. entry\<lparr>en_Persistent := b\<rparr>" d r] by (simp add: setOwnerPersistent_def case_prod_beta core_entry_def removal_entry_def)

lemma calm_drainPins: "calm d (drainPins i d)"
proof -
  have "calm x (onObj r (onOwner DrainForMaintenance) x)" for x r
    by (rule calm_onObj, rule tame_aside, rule aside_onOwner) (intro keeps good_refl)
  then show ?thesis by (auto simp: drainPins_def intro!: calm_foldl split: option.split)
qed

lemma calm_takeLock: "calm d (fst (takeLock d))"
  by (simp add: takeLock_def)

section \<open>Removers\<close>

lemma fields_removers [simp]:
  "registered (d\<lparr>dm_removers := rs\<rparr>) = registered d" "registered (d\<lparr>dm_nextChan := n\<rparr>) = registered d"
  "entryKey (d\<lparr>dm_removers := rs\<rparr>) = entryKey d" "entryKey (d\<lparr>dm_nextChan := n\<rparr>) = entryKey d"
  by (simp_all add: registered_def entryKey_def maintenanceContext_def contextFields_def fun_eq_iff)

lemma frame_removers [simp]: "frame d (d\<lparr>dm_removers := rs\<rparr>)" "frame d (d\<lparr>dm_removers := rs, dm_nextChan := n\<rparr>)"
  "sameHolds d (d\<lparr>dm_removers := rs\<rparr>)" "sameHolds d (d\<lparr>dm_removers := rs, dm_nextChan := n\<rparr>)"
  by (simp_all add: frame_def sameHolds_def)

lemma dinv_removers:
  assumes "dinv R d" "exclusive (d\<lparr>dm_removers := rs, dm_nextChan := n\<rparr>)"
  shows "dinv R (d\<lparr>dm_removers := rs, dm_nextChan := n\<rparr>)"
  by (rule dinv_frame [OF assms(1) _ _ assms(2)]) (use assms(1) in \<open>simp_all add: dinv_def pinsOK_def objs_ok_def\<close>)

lemma setPc_some: "mget (dm_removers d) tid = Some rm \<Longrightarrow> setPc tid pc d = d\<lparr>dm_removers := mput (dm_removers d) tid (rm\<lparr>rm_pc := pc\<rparr>)\<rparr>"
  by (simp add: setPc_def)

lemma worksOn_mput:
  "worksOn (d\<lparr>dm_removers := mput (dm_removers d) tid rm\<rparr>) t e \<longleftrightarrow> (if t = tid then claimed (rm_pc rm) = Some e else worksOn d t e)"
  "committing (d\<lparr>dm_removers := mput (dm_removers d) tid rm\<rparr>) t e \<longleftrightarrow>
     (if t = tid then \<exists>code err. rm_pc rm = RmCommit e code err else committing d t e)"
  by (simp_all add: worksOn_def committing_def)

lemma nextChan_fields [simp]: "worksOn (d\<lparr>dm_nextChan := n\<rparr>) = worksOn d" "committing (d\<lparr>dm_nextChan := n\<rparr>) = committing d"
  by (simp_all add: worksOn_def committing_def fun_eq_iff)

text \<open>A remover that gives up its claim, or keeps it without reaching its commit.\<close>

lemma dinv_setPc:
  assumes "dinv R d" "mget (dm_removers d) tid = Some rm" "claimed pc = None \<or> claimed pc = claimed (rm_pc rm)"
    "\<And>e code err. pc = RmCommit e code err \<Longrightarrow> \<exists>r. en_Owner (dm_entries d e) = Some r \<and> oo_done (dm_objs d r)"
  shows "dinv R (setPc tid pc d)"
proof -
  have ex: "exclusive d" using assms(1) by (simp add: dinv_def)
  have own: "worksOn d tid e" if "claimed pc = Some e" for e using that assms(2,3) by (auto simp: worksOn_def)
  let ?d = "d\<lparr>dm_removers := mput (dm_removers d) tid (rm\<lparr>rm_pc := pc\<rparr>)\<rparr>"
  have w: "worksOn ?d t e \<Longrightarrow> worksOn d t e" for t e using own by (auto simp: worksOn_mput split: if_splits)
  have busy: "worksOn d t e \<Longrightarrow> en_removalInProgress (dm_entries d e)" for t e using ex unfolding exclusive_def by blast
  have "committing d t e \<Longrightarrow> \<exists>r. en_Owner (dm_entries d e) = Some r \<and> oo_done (dm_objs d r)" for t e
    using ex unfolding exclusive_def by blast
  then have c: "committing ?d t e \<Longrightarrow> \<exists>r. en_Owner (dm_entries d e) = Some r \<and> oo_done (dm_objs d r)" for t e
    using assms(4) by (auto simp: worksOn_mput split: if_splits)
  have b: "t < dm_nextChan d" if "mget (dm_removers ?d) t \<noteq> None" for t
    using ex that assms(2) unfolding exclusive_def by (cases "t = tid") simp_all
  have "exclusive ?d"
  proof (rule exclusiveI [OF ex])
    show "worksOn ?d t e \<Longrightarrow> en_removalInProgress (dm_entries ?d e)" for t e using busy [OF w] by simp
  qed (use w b c in simp_all)
  then show ?thesis using dinv_removers [OF assms(1), of "dm_nextChan d" "mput (dm_removers d) tid (rm\<lparr>rm_pc := pc\<rparr>)"]
    by (simp add: setPc_some [OF assms(2)])
qed

lemma dinv_newRemover:
  assumes "dinv R d" "claimed (rm_pc rm) = None"
  shows "dinv R (d\<lparr>dm_removers := mput (dm_removers d) (dm_nextChan d) rm, dm_nextChan := Suc (dm_nextChan d)\<rparr>)"
proof (rule dinv_removers [OF assms(1)])
  have ex: "exclusive d" using assms(1) by (simp add: dinv_def)
  let ?r = "d\<lparr>dm_removers := mput (dm_removers d) (dm_nextChan d) rm\<rparr>"
  let ?d = "?r\<lparr>dm_nextChan := Suc (dm_nextChan d)\<rparr>"
  have w: "worksOn ?r t e \<Longrightarrow> worksOn d t e" for t e using assms(2) by (auto simp: worksOn_mput split: if_splits)
  have c: "committing ?r t e \<Longrightarrow> committing d t e" for t e using assms(2) by (auto simp: worksOn_mput split: if_splits)
  have fields: "worksOn ?d = worksOn ?r" "committing ?d = committing ?r" by (rule nextChan_fields)+
  have busy: "worksOn d t e \<Longrightarrow> en_removalInProgress (dm_entries d e)"
    "committing d t e \<Longrightarrow> \<exists>r. en_Owner (dm_entries d e) = Some r \<and> oo_done (dm_objs d r)" for t e using ex unfolding exclusive_def by blast+
  have b: "t < Suc (dm_nextChan d)" if "mget (dm_removers ?d) t \<noteq> None" for t
    using ex that unfolding exclusive_def by (cases "t = dm_nextChan d") (simp_all add: less_Suc_eq)
  show "exclusive ?d"
  proof (rule exclusiveI [OF ex])
    show "worksOn ?d t e \<Longrightarrow> worksOn d t e" for t e using w unfolding fields by blast
    then show "worksOn ?d t e \<Longrightarrow> en_removalInProgress (dm_entries ?d e)" for t e using busy(1) [OF w] by (simp add: fields)
    show "committing ?d t e \<Longrightarrow> \<exists>r. en_Owner (dm_entries d e) = Some r \<and> oo_done (dm_objs ?d r)" for t e
      using busy(2) [OF c] by (simp add: fields)
  qed (use b in simp_all)
qed

lemma dinv_startRemoval: "dinv R d \<Longrightarrow> dinv R (startRemoval sid expected reason soft view retry d)"
  unfolding startRemoval_def by (rule dinv_newRemover) simp_all

lemma dinv_removeOwner: "dinv R d \<Longrightarrow> dinv R (removeOwnerIfCurrent sid expected reason soft d)"
  by (simp add: removeOwnerIfCurrent_def dinv_startRemoval)

text \<open>The claim of an entry, and its release.\<close>

lemma dinv_claim:
  assumes "dinv R d" "mget (dm_removers d) tid = Some rm" "e < dm_next d" "en_Owner (dm_entries d e) \<noteq> None"
    "\<not> en_removalInProgress (dm_entries d e)" "en_snapshotPins (dm_entries d e) \<le> 0"
  shows "dinv R (setPc tid (RmBegin e 1)
    (onEntry e (\<lambda>entry. entry\<lparr>en_removalInProgress := True, en_removalDone := Some (AttemptChan n), en_terminationHint := h\<rparr>)
      (d\<lparr>dm_nextChan := Suc (dm_nextChan d)\<rparr>)))" (is "dinv R ?d'")
proof -
  have ex: "exclusive d" and po: "pinsOK d" and ob: "objs_ok R d" using assms(1) by (simp_all add: dinv_def)
  have free: "\<not> worksOn d t e" for t using exclusiveD(2) [OF ex] assms(5) by blast
  have d': "?d' = (onEntry e (\<lambda>entry. entry\<lparr>en_removalInProgress := True, en_removalDone := Some (AttemptChan n), en_terminationHint := h\<rparr>) d)
    \<lparr>dm_nextChan := Suc (dm_nextChan d), dm_removers := mput (dm_removers d) tid (rm\<lparr>rm_pc := RmBegin e 1\<rparr>)\<rparr>"
    using assms(2) by (simp add: setPc_def onEntry_def)
  have w: "worksOn ?d' t x \<longleftrightarrow> (if t = tid then x = e else worksOn d t x)" for t x
    unfolding d' using assms(2) by (auto simp: worksOn_def)
  have c: "committing ?d' t x \<Longrightarrow> committing d t x" for t x unfolding d' by (auto simp: committing_def split: if_splits)
  have "e < dm_next d \<and> en_Owner (dm_entries d e) \<noteq> None" using assms(3,4) by simp
  then have "exclusive ?d'"
    unfolding exclusive_def
  proof (intro conjI allI impI)
    show "mget (dm_removers ?d') t \<noteq> None \<Longrightarrow> t < dm_nextChan ?d'" for t
      using exclusiveD(1) [OF ex, of t] exclusiveD(1) [OF ex, of tid] assms(2) unfolding d' by (auto split: if_splits)
    fix t x assume on: "worksOn ?d' t x"
    then have "x = e \<or> x \<noteq> e \<and> worksOn d t x" unfolding w using free by (auto split: if_splits)
    then show "x < dm_next ?d'" "en_Owner (dm_entries ?d' x) \<noteq> None" "en_removalInProgress (dm_entries ?d' x)"
      using exclusiveD(2) [OF ex] assms(3,4) unfolding d' by auto
    show "t = t'" if "worksOn ?d' t' x" for t' using that on unfolding w using free exclusiveD(3) [OF ex] by (auto split: if_splits)
  next
    show "\<exists>r. en_Owner (dm_entries ?d' x) = Some r \<and> oo_done (dm_objs ?d' r)" if "committing ?d' t x" for t x
      using exclusiveD(4) [OF ex c [OF that]] unfolding d' by (cases "x = e") auto
  qed
  moreover have "en_snapshotPins (dm_entries d e) = 0" using pinsOKD(1) [OF po assms(3)] assms(6) by simp
  then have "pinsOK ?d'" using po pinsOKD(4) [OF po assms(3)] unfolding d' pinsOK_def by auto
  moreover have "objs_ok R ?d'" using ob unfolding d' objs_ok_def by simp
  moreover have "frame d ?d'" "sameHolds d ?d'" unfolding d' frame_def sameHolds_def by (simp_all add: core_entry_def onEntry_def)
  ultimately show ?thesis using dinv_frame [OF assms(1)] by blast
qed

lemma dinv_release:
  assumes "dinv R d" "mget (dm_removers d) tid = Some rm" "claimed (rm_pc rm) = Some e" "claimed pc = None"
  shows "dinv R (setPc tid pc (finishOwnerRemovalAttempt e d))" (is "dinv R ?d'")
proof -
  have ex: "exclusive d" and po: "pinsOK d" and ob: "objs_ok R d" using assms(1) by (simp_all add: dinv_def)
  have mine: "worksOn d tid e" using assms(2,3) by (auto simp: worksOn_def)
  have ch: "set_option (en_removalDone (dm_entries d e)) \<inter> range CreateChan = {}"
    using pinsOKD(3) [OF po] exclusiveD(2) [OF ex mine] by blast
  have d': "?d' = (closeChan (en_removalDone (dm_entries d e)) (onEntry e (\<lambda>entry. entry\<lparr>en_removalInProgress := False, en_removalDone := None\<rparr>) d))
    \<lparr>dm_removers := mput (dm_removers d) tid (rm\<lparr>rm_pc := pc\<rparr>)\<rparr>"
    using exclusiveD(2) [OF ex mine] assms(2) by (simp add: setPc_def finishOwnerRemovalAttempt_def Let_def)
  have w: "worksOn d t x \<and> x \<noteq> e" if "worksOn ?d' t x" for t x
  proof -
    have "worksOn d t x \<and> t \<noteq> tid" using that assms(4) unfolding d' by (auto simp: worksOn_def split: if_splits)
    then show ?thesis using exclusiveD(3) [OF ex mine] by blast
  qed
  have c: "committing d t x" if "committing ?d' t x" for t x using that assms(4) unfolding d' by (auto simp: committing_def split: if_splits)
  have "exclusive ?d'"
  proof (rule exclusiveI [OF ex])
    show "mget (dm_removers ?d') t \<noteq> None \<Longrightarrow> t < dm_nextChan ?d'" for t
      using exclusiveD(1) [OF ex, of t] exclusiveD(1) [OF ex, of tid] assms(2) unfolding d' by (auto split: if_splits)
    show "worksOn ?d' t x \<Longrightarrow> worksOn d t x" for t x using w by blast
    show "worksOn ?d' t x \<Longrightarrow> en_removalInProgress (dm_entries ?d' x)" for t x using w exclusiveD(2) [OF ex] unfolding d' by auto
    show "committing ?d' t x \<Longrightarrow> \<exists>r. en_Owner (dm_entries d x) = Some r \<and> oo_done (dm_objs ?d' r)" for t x
      using exclusiveD(4) [OF ex c] unfolding d' by simp
  qed (simp_all add: d')
  moreover have "pinsOK ?d'" using po unfolding d' pinsOK_def by auto
  moreover have "objs_ok R ?d'" using ob unfolding d' objs_ok_def by simp
  moreover have "frame d ?d'" "sameHolds d ?d'" unfolding d' frame_def sameHolds_def using ch
    by (auto simp: core_entry_def closeChan_def onEntry_def split: option.split)
  ultimately show ?thesis using dinv_frame [OF assms(1)] by blast
qed

section \<open>Finalisation\<close>

lemma dinv_obj:
  assumes "dinv R d" "r < dm_nextOwner d" "obj_ok (R r \<union> S) oo" "underHold oo" "oo_done (dm_objs d r) \<Longrightarrow> oo_done oo"
  shows "dinv (R(r := R r \<union> S)) (onObj r (\<lambda>_. oo) d)" (is "dinv ?R ?d'")
proof -
  have ex: "exclusive d" and po: "pinsOK d" and ob: "objs_ok R d" using assms(1) by (simp_all add: dinv_def)
  have fr: "frame d ?d'" "sameHolds d ?d'" using assms(5) by (simp_all add: frame_def sameHolds_def onObj_def)
  have w: "worksOn ?d' = worksOn d" "committing ?d' = committing d" by (simp_all add: worksOn_def committing_def fun_eq_iff)
  have "exclusive ?d'"
  proof (rule exclusiveI [OF ex])
    show "worksOn ?d' t e \<Longrightarrow> en_removalInProgress (dm_entries ?d' e)" for t e unfolding w using exclusiveD(2) [OF ex] by simp
    show "committing ?d' t e \<Longrightarrow> \<exists>r. en_Owner (dm_entries d e) = Some r \<and> oo_done (dm_objs ?d' r)" for t e
      unfolding w using exclusiveD(4) [OF ex] frame_same(4) [OF fr(1)] by blast
  qed (use exclusiveD(1) [OF ex] in \<open>simp_all add: w\<close>)
  moreover have "pinsOK ?d'" using po by (simp add: pinsOK_def)
  moreover have "objs_ok ?R ?d'" using ob assms(3,4) by (simp add: objs_ok_def)
  ultimately show ?thesis using dinv_frame [OF assms(1) fr] by blast
qed

lemma dinv_objs: "dinv R d \<Longrightarrow> r < dm_nextOwner d \<Longrightarrow> obj_ok (R r) (dm_objs d r) \<and> underHold (dm_objs d r)"
  by (simp add: dinv_def objs_ok_def)

lemma dinv_obj_step:
  assumes "dinv R d" "r < dm_nextOwner d" "obj_step now (dm_objs d r) ev = Some oo" "\<not> setsHold ev"
  shows "dinv (R(r := R r \<union> objProven (dm_objs d r) ev)) (onObj r (\<lambda>_. oo) d) \<and> (oo_done (dm_objs d r) \<longrightarrow> oo_done oo)"
proof -
  have ok: "obj_ok (R r) (dm_objs d r)" "underHold (dm_objs d r)" using dinv_objs [OF assms(1,2)] by simp_all
  have "ev \<noteq> OwnerEvent b (EvSetMaintenance m)" for b m using assms(4) by auto
  then have "underHold oo" using underHold_step [OF ok assms(3)] by blast
  moreover have "obj_ok (R r \<union> objProven (dm_objs d r) ev) oo" using obj_step_ok [OF ok(1) underHold_holds [OF ok(2)] assms(3)] .
  moreover have "oo_done (dm_objs d r) \<longrightarrow> oo_done oo" using retired_step [OF ok(1) underHold_holds [OF ok(2)] _ assms(3)] by blast
  ultimately show ?thesis using dinv_obj [OF assms(1,2)] by blast
qed

text \<open>A finalisation that reports success has closed the channel \<open>done\<close> of its owner.\<close>

lemma finalized_done:
  "snd (finalizeBegin soft oo) = Some (code, True, err) \<Longrightarrow> oo_done (fst (finalizeBegin soft oo))"
  "snd (finalizeElect expired oo) = Some (code, True, err) \<Longrightarrow> oo_done (fst (finalizeElect expired oo))"
  "snd (finalizeEnd expired cl oo) = Some (code, True, err) \<Longrightarrow> oo_done (fst (finalizeEnd expired cl oo))"
  by (auto simp: finalizeBegin_def finalizeElect_def finalizeEnd_def Let_def split: if_splits option.splits prod.splits)

lemma settle_claimed:
  assumes "claimed pc = Some e"
  shows "claimed (settle e k r res pc) = Some e"
  using assms by (auto simp: settle_def split: option.split)

lemma settle_commit:
  assumes "settle e k r res pc = RmCommit x code err" "\<And>c r. pc \<noteq> RmCommit x c r"
  shows "x = e \<and> res = Some (code, True, err)"
  using assms by (auto simp: settle_def split: option.splits if_splits)

lemma dinv_call:
  assumes "dinv R d" "mget (dm_removers d) tid = Some rm" "claimed (rm_pc rm) = Some e" "en_Owner (dm_entries d e) = Some r"
    "obj_step 0 (dm_objs d r) ev = Some (fst res)" "\<not> setsHold ev" "\<And>code err. snd res = Some (code, True, err) \<Longrightarrow> oo_done (fst res)"
    "claimed pc = Some e" "\<And>x c r. pc \<noteq> RmCommit x c r"
  shows "dinv (R(r := R r \<union> objProven (dm_objs d r) ev)) (setPc tid (settle e k r (snd res) pc) (onObj r (\<lambda>_. fst res) d))"
proof -
  have "worksOn d tid e" using assms(2,3) by (auto simp: worksOn_def)
  then have "e < dm_next d" using assms(1) exclusiveD(2) by (auto simp: dinv_def)
  then have "r < dm_nextOwner d" using assms(1,4) by (auto simp: dinv_def owned_def)
  then have step: "dinv (R(r := R r \<union> objProven (dm_objs d r) ev)) (onObj r (\<lambda>_. fst res) d)"
    using dinv_obj_step [OF assms(1) _ assms(5,6)] by blast
  show ?thesis
  proof (rule dinv_setPc [OF step])
    show "mget (dm_removers (onObj r (\<lambda>_. fst res) d)) tid = Some rm" using assms(2) by simp
    show "claimed (settle e k r (snd res) pc) = None \<or> claimed (settle e k r (snd res) pc) = claimed (rm_pc rm)"
      using settle_claimed [OF assms(8)] assms(3) by simp
    fix x code err assume "settle e k r (snd res) pc = RmCommit x code err"
    then have "x = e" "oo_done (fst res)" using settle_commit assms(7,9) by blast+
    then show "\<exists>r'. en_Owner (dm_entries (onObj r (\<lambda>_. fst res) d) x) = Some r' \<and> oo_done (dm_objs (onObj r (\<lambda>_. fst res) d) r')"
      using assms(4) by simp
  qed
qed

text \<open>The processes of an owner that a step of a remover proves gone.\<close>

definition removerProven :: "nat \<Rightarrow> rm_act \<Rightarrow> daemon \<Rightarrow> nat \<Rightarrow> nat set" where
  "removerProven tid act d r =
     (case map_option rm_pc (mget (dm_removers d) tid) of
        Some (RmEnd e k) \<Rightarrow>
          (case act of
             Close expired cl \<Rightarrow> if en_Owner (dm_entries d e) = Some r then objProven (dm_objs d r) (FinalizeEnd expired cl) else {}
           | _ \<Rightarrow> {})
      | _ \<Rightarrow> {})"

lemma dinv_finalizeStep:
  assumes "dinv R d" "mget (dm_removers d) tid = Some rm"
  shows "dinv (\<lambda>r. R r \<union> removerProven tid act d r) (finalizeStep tid rm act d)"
proof (cases "rm_pc rm")
  case (RmBegin e k)
  then have none: "removerProven tid act d = (\<lambda>_. {})" using assms(2) by (simp add: removerProven_def fun_eq_iff)
  show ?thesis
  proof (cases "en_Owner (dm_entries d e)")
    case (Some r)
    then show ?thesis
      using dinv_call [OF assms, where e = e and r = r and ev = "FinalizeBegin (rm_soft rm)" and res = "finalizeBegin (rm_soft rm) (dm_objs d r)"
          and pc = "RmElect e k" and k = k] finalized_done(1) assms(1) RmBegin
      by (simp add: none finalizeStep_def case_prod_beta)
  qed (use assms RmBegin in \<open>simp add: none finalizeStep_def\<close>)
next
  case (RmElect e k)
  then have none: "removerProven tid act d = (\<lambda>_. {})" using assms(2) by (simp add: removerProven_def fun_eq_iff)
  show ?thesis
  proof (cases "en_Owner (dm_entries d e)")
    case (Some r)
    let ?oo = "fst (finalizeElect (act = Expire) (dm_objs d r))"
    let ?pc = "case oo_finalizer ?oo of Some fz \<Rightarrow> if fz_elected fz then RmEnd e k else RmElect e k | None \<Rightarrow> RmElect e k"
    have "claimed ?pc = Some e" "\<And>x c r. ?pc \<noteq> RmCommit x c r" by (auto split: option.split)
    then show ?thesis
      using dinv_call [OF assms, where e = e and r = r and ev = "FinalizeElect (act = Expire)" and res = "finalizeElect (act = Expire) (dm_objs d r)"
          and pc = ?pc and k = k] finalized_done(2) assms(1) RmElect Some
      by (simp add: none finalizeStep_def case_prod_beta)
  qed (use assms RmElect in \<open>simp add: none finalizeStep_def\<close>)
next
  case (RmEnd e k)
  show ?thesis
  proof (cases "\<exists>r expired cl. en_Owner (dm_entries d e) = Some r \<and> act = Close expired cl")
    case True
    then obtain r expired cl where r: "en_Owner (dm_entries d e) = Some r" "act = Close expired cl" by blast
    then have "(\<lambda>r. R r \<union> removerProven tid act d r) = R(r := R r \<union> objProven (dm_objs d r) (FinalizeEnd expired cl))"
      using RmEnd assms(2) by (auto simp: removerProven_def fun_eq_iff simp del: objProven.simps)
    then show ?thesis
      using dinv_call [OF assms, where e = e and r = r and ev = "FinalizeEnd expired cl" and res = "finalizeEnd expired cl (dm_objs d r)"
          and pc = "RmEnd e k" and k = k] finalized_done(3) assms(1) RmEnd r
      by (simp add: finalizeStep_def case_prod_beta del: objProven.simps)
  next
    case False
    then have "removerProven tid act d = (\<lambda>_. {})" "finalizeStep tid rm act d = d"
      using assms(2) RmEnd by (auto simp: removerProven_def finalizeStep_def fun_eq_iff split: rm_act.splits option.splits)
    then show ?thesis using assms by simp
  qed
qed (use assms in \<open>simp_all add: removerProven_def finalizeStep_def\<close>)

section \<open>Deletion\<close>

text \<open>An entry leaves the registry only without an owner, or with a retired one.\<close>

definition deletable :: "daemon \<Rightarrow> bytes \<Rightarrow> bool" where
  "deletable d sid \<longleftrightarrow>
     (\<forall>e r. entryAt d sid = Some e \<longrightarrow> en_Owner (dm_entries d e) = Some r \<longrightarrow> oo_done (dm_objs d r))"

lemma registered_del: "registered (d\<lparr>dm_owners := mdel (dm_owners d) sid\<rparr>) e \<longleftrightarrow> registered d e \<and> en_ServerID (dm_entries d e) \<noteq> sid"
  by (auto simp: registered_def gomap_simps)

lemma dinv_del:
  assumes "dinv R d" "deletable d sid"
  shows "dinv R (d\<lparr>dm_owners := mdel (dm_owners d) sid\<rparr>)" (is "dinv R ?d'")
proof -
  have inv: "names d" "owned d" "building d" "gone d" "exclusive d" "pinsOK d" "objs_ok R d" "holds_ok d"
    using assms(1) by (simp_all add: dinv_def)
  have same: "dm_next ?d' = dm_next d" "dm_entries ?d' = dm_entries d" "dm_closed ?d' = dm_closed d" "dm_objs ?d' = dm_objs d"
    "entryKey ?d' = entryKey d" by (simp_all add: entryKey_def maintenanceContext_def contextFields_def fun_eq_iff)
  have "entryAt ?d' s = Some e \<Longrightarrow> entryAt d s = Some e" for s e by (auto simp: gomap_simps split: if_splits)
  then have "names ?d'" using inv(1) by (simp add: names_def)
  moreover have "owned ?d'" using inv(2) by (simp add: owned_def)
  moreover have "building ?d'" using inv(3) unfolding building_def registered_del same by blast
  moreover have "gone ?d'"
    unfolding gone_def registered_del
  proof (intro allI impI)
    fix e r assume e: "e < dm_next ?d'" "en_Owner (dm_entries ?d' e) = Some r" "\<not> (registered d e \<and> en_ServerID (dm_entries d e) \<noteq> sid)"
    then show "oo_done (dm_objs ?d' r)"
      using inv(4) assms(2) by (cases "registered d e") (auto simp: gone_def deletable_def registered_def)
  qed
  moreover have "worksOn ?d' = worksOn d" "committing ?d' = committing d" by (simp_all add: worksOn_def committing_def fun_eq_iff)
  then have "exclusive ?d'" using inv(5) by (simp add: exclusive_def)
  moreover have "pinsOK ?d'" "objs_ok R ?d'" using inv(6,7) by (simp_all add: pinsOK_def objs_ok_def)
  moreover have "pinDone ?d' pin" if "pinDone d pin" for pin using that by (auto simp: pinDone_def registered_del split: option.splits)
  then have "lease_ok ?d' l" if "lease_ok d l" for l
    by (rule_tac lease_ok_mono [OF that]) (simp_all add: registered_del)
  then have "holds_ok ?d'" using inv(8) by (simp add: holds_ok_def)
  ultimately show ?thesis by (simp add: dinv_def)
qed

lemma cleanup_shape: "\<exists>rc. cleanupForcedIsolatedRetryCounter sid d = d\<lparr>dm_retryCounters := rc\<rparr>"
  by (auto simp: cleanupForcedIsolatedRetryCounter_def intro: exI [of _ "dm_retryCounters d"] split: option.split)

lemma deleteOwnerEntry_shape: "\<exists>rc. deleteOwnerEntry sid d = d\<lparr>dm_owners := mdel (dm_owners d) sid, dm_retryCounters := rc\<rparr>"
proof -
  let ?d = "d\<lparr>dm_owners := mdel (dm_owners d) sid\<rparr>"
  have "deleteOwnerEntry sid d = ?d\<lparr>dm_retryCounters := dm_retryCounters d\<rparr> \<or> deleteOwnerEntry sid d = cleanupForcedIsolatedRetryCounter sid ?d"
    by (auto simp: deleteOwnerEntry_def Let_def)
  then show ?thesis using cleanup_shape [of sid ?d] by metis
qed

lemma dinv_delete:
  assumes "dinv R d" "deletable d sid"
  shows "dinv R (deleteOwnerEntry sid d)"
proof -
  obtain rc where rc: "deleteOwnerEntry sid d = d\<lparr>dm_owners := mdel (dm_owners d) sid, dm_retryCounters := rc\<rparr>"
    using deleteOwnerEntry_shape by blast
  show ?thesis unfolding rc by (rule calm_dinv [OF _ dinv_del [OF assms]]) simp
qed

lemma setPc_commute:
  "setPc tid pc (deleteOwnerEntry sid d) = deleteOwnerEntry sid (setPc tid pc d)"
  "setPc tid pc (recordOwnerRemoval result d) = recordOwnerRemoval result (setPc tid pc d)"
  "setPc tid pc (onObj r f d) = onObj r f (setPc tid pc d)"
  by (simp_all add: setPc_def deleteOwnerEntry_def cleanupForcedIsolatedRetryCounter_def recordOwnerRemoval_def onObj_def Let_def split: option.split)

lemma calm_record: "calm d (recordOwnerRemoval result d)"
  by (simp add: recordOwnerRemoval_def Let_def)

lemma finish_frame:
  "dm_owners (finishOwnerRemovalAttempt e d) = dm_owners d" "dm_objs (finishOwnerRemovalAttempt e d) = dm_objs d"
  "en_Owner (dm_entries (finishOwnerRemovalAttempt e d) x) = en_Owner (dm_entries d x)"
  by (simp_all add: finishOwnerRemovalAttempt_def Let_def)

lemma setPc_frame [simp]:
  "dm_owners (setPc tid pc d) = dm_owners d" "dm_objs (setPc tid pc d) = dm_objs d" "dm_entries (setPc tid pc d) = dm_entries d"
  by (simp_all add: setPc_def split: option.split)

lemma dinv_commitRemoval:
  assumes "dinv R d" "mget (dm_removers d) tid = Some rm" "rm_pc rm = RmCommit e code rerr"
  shows "dinv R (commitRemoval tid rm e err d)"
proof -
  have rel: "dinv R (setPc tid pc (finishOwnerRemovalAttempt e d))" if "claimed pc = None" for pc
    by (rule dinv_release [OF assms(1,2) _ that]) (simp add: assms(3))
  have "committing d tid e" using assms(2,3) by (auto simp: committing_def)
  then obtain r where r: "en_Owner (dm_entries d e) = Some r" "oo_done (dm_objs d r)" using exclusiveD(4) assms(1) unfolding dinv_def by blast
  have "dinv R (setPc tid (RmRetired e result re) (deleteOwnerEntry sid (recordOwnerRemoval result' (onObj r (onManager (\<lambda>_. sm)) (finishOwnerRemovalAttempt e d)))))"
    if "entryAt d sid = Some e" for sid result re result' sm
  proof -
    let ?d0 = "setPc tid (RmRetired e result re) (finishOwnerRemovalAttempt e d)"
    let ?d1 = "recordOwnerRemoval result' (onObj r (onManager (\<lambda>_. sm)) ?d0)"
    have "calm ?d0 ?d1" by (rule calm_trans [OF calm_onObj calm_record]) (simp add: tame_aside)
    then have "dinv R ?d1" using calm_dinv rel by auto
    moreover have "deletable ?d1 sid" using that r finish_frame
      by (auto simp: deletable_def recordOwnerRemoval_def Let_def onManager_def onOwner_def finish_frame)
    ultimately show ?thesis unfolding setPc_commute by (rule dinv_delete)
  qed
  then show ?thesis using rel r by (auto simp: commitRemoval_def Let_def prepareOwnerRemoval_def finish_frame case_prod_beta)
qed

lemma dinv_schedule: "dinv R d \<Longrightarrow> dinv R (scheduleOwnerFinalizationRetry sid e reason soft d)"
proof -
  assume "dinv R d"
  moreover have "calm d (onEntry e (\<lambda>entry. entry\<lparr>en_removalRetrying := True\<rparr>) d)"
    by (rule calm_onEntry) (simp_all add: core_entry_def removal_entry_def)
  ultimately have inv: "dinv R (onEntry e (\<lambda>entry. entry\<lparr>en_removalRetrying := True\<rparr>) d)" by (blast intro: calm_dinv)
  have "dinv R ((onEntry e (\<lambda>entry. entry\<lparr>en_removalRetrying := True\<rparr>) d)
        \<lparr>dm_removers := mput (dm_removers d) (dm_nextChan d) rm, dm_nextChan := Suc (dm_nextChan d)\<rparr>)" if "claimed (rm_pc rm) = None" for rm
    using dinv_newRemover [OF inv that] by simp
  then show ?thesis using \<open>dinv R d\<close> by (auto simp: scheduleOwnerFinalizationRetry_def)
qed

lemma dinv_unclaimed:
  assumes "dinv R d" "mget (dm_removers d) tid = Some rm" "claimed pc = None"
  shows "dinv R (setPc tid pc d)"
  by (rule dinv_setPc [OF assms(1,2)]) (use assms(3) in auto)

lemma dinv_endRemover:
  assumes "dinv R d"
  shows "dinv R (d\<lparr>dm_removers := mdel (dm_removers d) tid\<rparr>)" (is "dinv R ?d'")
proof -
  have ex: "exclusive d" using assms by (simp add: dinv_def)
  have w: "worksOn ?d' t e \<Longrightarrow> worksOn d t e" "committing ?d' t e \<Longrightarrow> committing d t e" for t e
    by (auto simp: worksOn_def committing_def gomap_simps split: if_splits)
  have "exclusive ?d'"
  proof (rule exclusiveI [OF ex])
    show "mget (dm_removers ?d') t \<noteq> None \<Longrightarrow> t < dm_nextChan ?d'" for t using exclusiveD(1) [OF ex, of t] by (auto simp: gomap_simps split: if_splits)
    show "worksOn ?d' t e \<Longrightarrow> worksOn d t e" for t e using w(1) .
    show "worksOn ?d' t e \<Longrightarrow> en_removalInProgress (dm_entries ?d' e)" for t e using exclusiveD(2) [OF ex w(1)] by simp
    show "committing ?d' t e \<Longrightarrow> \<exists>r. en_Owner (dm_entries d e) = Some r \<and> oo_done (dm_objs ?d' r)" for t e using exclusiveD(4) [OF ex w(2)] by simp
  qed simp_all
  then show ?thesis using dinv_removers [OF assms, of "dm_nextChan d" "mdel (dm_removers d) tid"] by simp
qed

lemma dinv_afterReturn:
  assumes "dinv R d" "mget (dm_removers d) tid = Some rm"
  shows "dinv R (afterReturn tid rm result err d)"
proof -
  let ?d = "d\<lparr>dm_removers := mdel (dm_removers d) tid\<rparr>"
  have "calm ?d (onEntry e (\<lambda>entry. entry\<lparr>en_removalRetrying := False\<rparr>) ?d)" for e
    by (rule calm_onEntry) (simp_all add: core_entry_def removal_entry_def)
  then have "dinv R (onEntry e (\<lambda>entry. entry\<lparr>en_removalRetrying := False\<rparr>) ?d)" for e
    using calm_dinv dinv_endRemover [OF assms(1)] by blast
  then show ?thesis using dinv_endRemover [OF assms(1)] dinv_unclaimed [OF assms] assms(1)
    by (auto simp: afterReturn_def Let_def split: option.split)
qed

lemma dinv_waitFor: "dinv R d \<Longrightarrow> mget (dm_removers d) tid = Some rm \<Longrightarrow> dinv R (waitFor tid rm what ch act d)"
  using dinv_unclaimed by (auto simp: waitFor_def Let_def split: option.split)

lemma dinv_claimOwner:
  assumes "dinv R d" "mget (dm_removers d) tid = Some rm"
  shows "dinv R (claimOwner tid rm d)"
proof -
  have pc: "dinv R (setPc tid pc d)" if "claimed pc = None" for pc using dinv_unclaimed [OF assms that] .
  have "e < dm_next d" if "entryAt d sid = Some e" for sid e using assms(1) that by (auto simp: dinv_def names_def)
  then show ?thesis using pc dinv_claim [OF assms]
    unfolding claimOwner_def Let_def by (auto split: option.split)
qed

section \<open>Snapshot pins\<close>

lemma dinv_pins:
  assumes "dinv R d" "pinsOK d'" "frame d d'" "sameHolds d d'" "dm_removers d' = dm_removers d" "dm_nextChan d \<le> dm_nextChan d'"
    "dm_objs d' = dm_objs d" "\<And>e. en_removalInProgress (dm_entries d' e) = en_removalInProgress (dm_entries d e)"
  shows "dinv R d'"
proof -
  have ex: "exclusive d" and ob: "objs_ok R d" using assms(1) by (simp_all add: dinv_def)
  have w: "worksOn d' = worksOn d" "committing d' = committing d" by (simp_all add: worksOn_def committing_def assms(5) fun_eq_iff)
  have "exclusive d'"
  proof (rule exclusiveI [OF ex])
    show "mget (dm_removers d') tid \<noteq> None \<Longrightarrow> tid < dm_nextChan d'" for tid using exclusiveD(1) [OF ex] assms(5,6) less_le_trans by metis
    show "worksOn d' t e \<Longrightarrow> en_removalInProgress (dm_entries d' e)" for t e unfolding w assms(8) using exclusiveD(2) [OF ex] by blast
    show "committing d' t e \<Longrightarrow> \<exists>r. en_Owner (dm_entries d e) = Some r \<and> oo_done (dm_objs d' r)" for t e
      unfolding w assms(7) using exclusiveD(4) [OF ex] by blast
  qed (simp_all add: w frame_entry [OF assms(3)] frame_same [OF assms(3)])
  moreover have "objs_ok R d'" using ob by (simp add: objs_ok_def assms(7) frame_same [OF assms(3)])
  ultimately show ?thesis using dinv_frame [OF assms(1,3,4)] assms(2) by blast
qed

lemma dinv_pinEntry:
  assumes "dinv R d" "\<not> en_removalInProgress (dm_entries d e)"
  shows "dinv R (pinEntry d e)" "en_removalInProgress (dm_entries (pinEntry d e) x) = en_removalInProgress (dm_entries d x)"
proof -
  have po: "pinsOK d" using assms(1) by (simp add: dinv_def)
  show pr: "en_removalInProgress (dm_entries (pinEntry d e) x) = en_removalInProgress (dm_entries d x)" for x
    by (simp add: pinEntry_def Let_def)
  have fr: "frame d (pinEntry d e)" "sameHolds d (pinEntry d e)"
    by (simp_all add: pinEntry_def Let_def frame_def sameHolds_def core_entry_def onEntry_def)
  have "pinsOK (pinEntry d e)"
    unfolding pinsOK_def
  proof
    fix x
    show "dm_next (pinEntry d e) \<le> x \<or> 0 \<le> en_snapshotPins (dm_entries (pinEntry d e) x) \<and>
        (en_removalInProgress (dm_entries (pinEntry d e) x) \<longrightarrow> en_snapshotPins (dm_entries (pinEntry d e) x) = 0) \<and>
        set_option (en_removalDone (dm_entries (pinEntry d e) x)) \<inter> range CreateChan = {} \<and>
        set_option (en_snapshotUnpinned (dm_entries (pinEntry d e) x)) \<inter> range CreateChan = {}"
      using pinsOKD [OF po, of x] assms(2) by (cases "x < dm_next d"; cases "x = e") (auto simp: pinEntry_def Let_def)
  qed
  then show "dinv R (pinEntry d e)"
    by (rule dinv_pins [OF assms(1) _ fr]) (simp_all add: pr, simp_all add: pinEntry_def Let_def onEntry_def)
qed

lemma dinv_acquirePins: "dinv R d \<Longrightarrow> dinv R (fst (acquireSnapshotOwnerPins d))"
proof -
  have "dinv R d \<Longrightarrow> \<forall>e\<in>set es. \<not> en_removalInProgress (dm_entries d e) \<Longrightarrow> dinv R (foldl pinEntry d es)" for es
  proof (induction es arbitrary: d)
    case (Cons e es)
    then show ?case using dinv_pinEntry [of R d e] by simp
  qed simp
  from this [of "filter (pinnable d) (map snd (dm_owners d))"]
  show "dinv R d \<Longrightarrow> dinv R (fst (acquireSnapshotOwnerPins d))" by (auto simp: acquireSnapshotOwnerPins_def Let_def list_ex_iff)
qed

lemma dinv_unpin:
  assumes "dinv R d" "e < dm_next d"
  shows "dinv R (unpinEntry d e)" "dm_next (unpinEntry d e) = dm_next d"
proof -
  have po: "pinsOK d" using assms by (simp add: dinv_def)
  have pr: "en_removalInProgress (dm_entries (unpinEntry d e) x) = en_removalInProgress (dm_entries d x)" for x
    by (simp add: unpinEntry_def Let_def)
  have fr: "frame d (unpinEntry d e)" "sameHolds d (unpinEntry d e)" using pinsOKD(4) [OF po assms(2)]
    by (auto simp: unpinEntry_def Let_def frame_def sameHolds_def core_entry_def onEntry_def closeChan_def split: option.split)
  have "pinsOK (unpinEntry d e)"
    unfolding pinsOK_def
  proof
    fix x
    show "dm_next (unpinEntry d e) \<le> x \<or> 0 \<le> en_snapshotPins (dm_entries (unpinEntry d e) x) \<and>
        (en_removalInProgress (dm_entries (unpinEntry d e) x) \<longrightarrow> en_snapshotPins (dm_entries (unpinEntry d e) x) = 0) \<and>
        set_option (en_removalDone (dm_entries (unpinEntry d e) x)) \<inter> range CreateChan = {} \<and>
        set_option (en_snapshotUnpinned (dm_entries (unpinEntry d e) x)) \<inter> range CreateChan = {}"
      using pinsOKD [OF po, of x] by (cases "x < dm_next d"; cases "x = e") (auto simp: unpinEntry_def Let_def)
  qed
  then show "dinv R (unpinEntry d e)"
    by (rule dinv_pins [OF assms(1) _ fr]) (simp_all add: pr, simp_all add: unpinEntry_def Let_def onEntry_def closeChan_def split: option.split)
  show "dm_next (unpinEntry d e) = dm_next d" using frame_same(2) [OF fr(1)] .
qed

lemma dinv_releasePins: "dinv R d \<Longrightarrow> \<forall>e\<in>set es. e < dm_next d \<Longrightarrow> dinv R (releaseSnapshotOwnerPins es d)"
  unfolding releaseSnapshotOwnerPins_def
proof (induction es arbitrary: d)
  case (Cons e es)
  then show ?case using dinv_unpin [of R d e] by simp
qed simp

end
