(* ===== verification/Daemon_Registry.thy ===== *)
theory Daemon_Registry
  imports Daemon_Removal
begin

text \<open>
  How owners enter the registry and how launch contexts are admitted: both keep the invariant of the
  daemon, because a context that a hold covers is refused.
\<close>

section \<open>Held contexts\<close>

lemma dinvD:
  assumes "dinv R d"
  shows "names d" "owned d" "building d" "gone d" "exclusive d" "pinsOK d" "objs_ok R d" "holds_ok d"
  using assms by (simp_all add: dinv_def)

lemma buildingI:
  assumes "\<And>e. e < dm_next d \<Longrightarrow> registered d e \<Longrightarrow> en_Owner (dm_entries d e) = None \<Longrightarrow>
      en_creating (dm_entries d e) = Some (CreateChan e) \<and> CreateChan e \<notin> set (dm_closed d) \<and>
      en_maintenanceContexts (dm_entries d e) = [entryKey d (dm_entries d e)]"
    "\<And>e c. e < dm_next d \<Longrightarrow> en_creating (dm_entries d e) = Some c \<Longrightarrow> c = CreateChan e"
    "\<And>e. e \<ge> dm_next d \<Longrightarrow> CreateChan e \<notin> set (dm_closed d)"
  shows "building d"
  using assms unfolding building_def by blast

lemma buildingD:
  assumes "building d"
  shows "e < dm_next d \<Longrightarrow> registered d e \<Longrightarrow> en_Owner (dm_entries d e) = None \<Longrightarrow>
      en_creating (dm_entries d e) = Some (CreateChan e) \<and> CreateChan e \<notin> set (dm_closed d) \<and>
      en_maintenanceContexts (dm_entries d e) = [entryKey d (dm_entries d e)]"
    "e < dm_next d \<Longrightarrow> en_creating (dm_entries d e) = Some c \<Longrightarrow> c = CreateChan e"
    "e \<ge> dm_next d \<Longrightarrow> CreateChan e \<notin> set (dm_closed d)"
  using assms unfolding building_def by blast+

lemma pinsOK_same:
  assumes "pinsOK d" "\<And>e. e < dm_next d' \<Longrightarrow> removal_entry (dm_entries d' e) = (0, False, None, None) \<or>
      e < dm_next d \<and> removal_entry (dm_entries d' e) = removal_entry (dm_entries d e)"
  shows "pinsOK d'"
  unfolding pinsOK_def
proof
  fix e
  show "dm_next d' \<le> e \<or> 0 \<le> en_snapshotPins (dm_entries d' e) \<and>
        (en_removalInProgress (dm_entries d' e) \<longrightarrow> en_snapshotPins (dm_entries d' e) = 0) \<and>
        set_option (en_removalDone (dm_entries d' e)) \<inter> range CreateChan = {} \<and>
        set_option (en_snapshotUnpinned (dm_entries d' e)) \<inter> range CreateChan = {}"
  proof (cases "e < dm_next d'")
    case True
    from assms(2) [OF this] show ?thesis
    proof
      assume "e < dm_next d \<and> removal_entry (dm_entries d' e) = removal_entry (dm_entries d e)"
      then show ?thesis using pinsOKD [OF assms(1), of e] by (simp add: removal_entry_def)
    qed (simp add: removal_entry_def)
  qed simp
qed

lemma free_key:
  assumes "checkMaintenanceKey d key = None" "mget (dm_leases d) i = Some l"
  shows "key \<notin> set (ml_keys l)"
proof -
  have "maintenanceForKey d key = None" using assms(1) by (auto simp: checkMaintenanceKey_def split: if_splits)
  moreover have "l \<in> set (map snd (dm_leases d))" using assms(2) by (force simp: mget_def dest: map_of_SomeD)
  ultimately show ?thesis unfolding maintenanceForKey_def find_None_iff by blast
qed

text \<open>A change of the registry and the entries that leaves the holds, the removers and the owners alone.\<close>

definition registryChange :: "daemon \<Rightarrow> daemon \<Rightarrow> bool" where
  "registryChange d d' \<longleftrightarrow>
     dm_leases d' = dm_leases d \<and> dm_store d' = dm_store d \<and> dm_removers d' = dm_removers d \<and> dm_nextChan d' = dm_nextChan d \<and>
     dm_next d \<le> dm_next d' \<and> dm_nextOwner d \<le> dm_nextOwner d' \<and> (\<forall>r<dm_nextOwner d. dm_objs d' r = dm_objs d r) \<and>
     (\<forall>e<dm_next d. en_removalInProgress (dm_entries d' e) = en_removalInProgress (dm_entries d e)) \<and>
     (\<forall>e<dm_next d. \<forall>r. en_Owner (dm_entries d e) = Some r \<longrightarrow> en_Owner (dm_entries d' e) = Some r)"

lemma registryChange_exclusive:
  assumes "registryChange d d'" "exclusive d" "owned d"
  shows "exclusive d'"
proof -
  have w: "worksOn d' = worksOn d" "committing d' = committing d" "dm_removers d' = dm_removers d" "dm_nextChan d' = dm_nextChan d"
    using assms(1) by (simp_all add: registryChange_def worksOn_def committing_def fun_eq_iff)
  show ?thesis
    unfolding exclusive_def
  proof (intro conjI allI impI)
    show "mget (dm_removers d') tid \<noteq> None \<Longrightarrow> tid < dm_nextChan d'" for tid using exclusiveD(1) [OF assms(2)] unfolding w by blast
    fix tid e assume on: "worksOn d' tid e"
    then have "e < dm_next d" "en_Owner (dm_entries d e) \<noteq> None" "en_removalInProgress (dm_entries d e)" using exclusiveD(2) [OF assms(2)] unfolding w by blast+
    then show "e < dm_next d'" "en_Owner (dm_entries d' e) \<noteq> None" "en_removalInProgress (dm_entries d' e)"
      using assms(1) by (auto simp: registryChange_def)
    show "worksOn d' tid' e \<Longrightarrow> tid = tid'" for tid' using on exclusiveD(3) [OF assms(2)] unfolding w by blast
  next
    fix tid e assume "committing d' tid e"
    then have com: "committing d tid e" unfolding w .
    then obtain r where r: "en_Owner (dm_entries d e) = Some r" "oo_done (dm_objs d r)" using exclusiveD(4) [OF assms(2)] by blast
    have "worksOn d tid e" using com by (auto simp: committing_def worksOn_def)
    then have "e < dm_next d" using exclusiveD(2) [OF assms(2)] by blast
    then have "r < dm_nextOwner d" "en_Owner (dm_entries d' e) = Some r" using assms(1,3) r(1) by (auto simp: registryChange_def owned_def)
    then show "\<exists>r. en_Owner (dm_entries d' e) = Some r \<and> oo_done (dm_objs d' r)" using assms(1) r(2) by (auto simp: registryChange_def)
  qed
qed

lemma dinv_registry:
  assumes inv: "dinv R d" and ch: "registryChange d d'"
    and "names d'" "owned d'" "building d'" "gone d'" "pinsOK d'"
    and new: "\<And>r. dm_nextOwner d \<le> r \<Longrightarrow> r < dm_nextOwner d' \<Longrightarrow> obj_ok (R r) (dm_objs d' r) \<and> underHold (dm_objs d' r)"
    and cover: "\<And>i l e. mget (dm_leases d) i = Some l \<Longrightarrow> e < dm_next d' \<Longrightarrow> registered d' e \<Longrightarrow>
        set (en_maintenanceContexts (dm_entries d' e)) \<inter> set (ml_keys l) \<noteq> {} \<Longrightarrow>
        e < dm_next d \<and> registered d e \<and> set (en_maintenanceContexts (dm_entries d e)) \<inter> set (ml_keys l) \<noteq> {}"
    and unreg: "\<And>e. e < dm_next d \<Longrightarrow> en_Owner (dm_entries d e) = None \<Longrightarrow> \<not> registered d e \<Longrightarrow>
        en_Owner (dm_entries d' e) = None \<and> \<not> registered d' e"
  shows "dinv R d'"
proof -
  have "objs_ok R d'" using dinvD(7) [OF inv] new ch unfolding objs_ok_def registryChange_def by (metis not_less)
  moreover have pd: "pinDone d' pin" if "pinDone d pin" "pin_entry pin < dm_next d" for pin
  proof (cases "en_Owner (dm_entries d (pin_entry pin))")
    case None
    then show ?thesis using that unreg [OF that(2)] by (simp add: pinDone_def)
  next
    case (Some r)
    then have "r < dm_nextOwner d" using that(2) dinvD(2) [OF inv] by (auto simp: owned_def)
    then show ?thesis using Some that ch by (auto simp: pinDone_def registryChange_def)
  qed
  have lease: "lease_ok d' l" if "mget (dm_leases d) i = Some l" for i l
  proof (rule lease_ok_mono [of d l])
    show "lease_ok d l" using dinvD(8) [OF inv] that unfolding holds_ok_def by blast
    show "dm_next d \<le> dm_next d'" using ch by (simp add: registryChange_def)
    show "en_Owner (dm_entries d' e) = None \<Longrightarrow> en_Owner (dm_entries d e) = None" if "e < dm_next d" for e
      using ch that by (cases "en_Owner (dm_entries d e)") (auto simp: registryChange_def)
  qed (use cover [OF that] pd in auto)
  moreover have "dm_leases d' = dm_leases d" "dm_store d' = dm_store d" using ch by (simp_all add: registryChange_def)
  note same = this
  have "holds_ok d'" using dinvD(8) [OF inv] lease unfolding holds_ok_def same by blast
  ultimately show ?thesis
    using assms(3-7) registryChange_exclusive [OF ch dinvD(5,2) [OF inv]] by (simp add: dinv_def)
qed

section \<open>Reservations\<close>

lemma dinv_reserve:
  assumes inv: "dinv R d"
  shows "dinv R (fst (spawnReserve sid command args cwd environ generation d))"
proof -
  let ?key = "maintenanceContext d EraLegacy command args cwd environ"
  let ?n = "dm_next d" and ?entry = "placeholderEntry sid command args cwd environ ?key generation (dm_next d)"
  let ?d' = "d\<lparr>dm_owners := mput (dm_owners d) sid ?n, dm_entries := (dm_entries d)(?n := ?entry), dm_next := Suc ?n\<rparr>"
  have "dinv R ?d'" if free: "checkMaintenanceKey d ?key = None" and absent: "entryAt d sid = None"
  proof (rule dinv_registry [OF inv])
    have en: "en_Owner ?entry = None" "en_ServerID ?entry = sid" "en_maintenanceContexts ?entry = [?key]" "en_creating ?entry = Some (CreateChan ?n)"
      "en_snapshotPins ?entry = 0" "\<not> en_removalInProgress ?entry" "en_removalDone ?entry = None" "en_snapshotUnpinned ?entry = None"
      "entryKey ?d' ?entry = ?key" by (simp_all add: placeholderEntry_def entryKey_def maintenanceContext_def contextFields_def)
    have reg: "registered ?d' e \<longleftrightarrow> e = ?n \<or> registered d e" for e
      using absent dinvD(1) [OF inv] by (auto simp: registered_def en names_def)
    have key: "entryKey ?d' = entryKey d" by (simp add: entryKey_def maintenanceContext_def contextFields_def fun_eq_iff)
    have below: "registered d e \<Longrightarrow> e < ?n" for e using dinvD(1) [OF inv] unfolding names_def registered_def by blast
    show "registryChange d ?d'" by (simp add: registryChange_def)
    show "names ?d'" using dinvD(1) [OF inv] by (auto simp: names_def en less_Suc_eq split: if_splits)
    show "owned ?d'" using dinvD(2) [OF inv] by (auto simp: owned_def en less_Suc_eq)
    show "building ?d'"
    proof (rule buildingI)
      show "en_creating (dm_entries ?d' e) = Some (CreateChan e) \<and> CreateChan e \<notin> set (dm_closed ?d') \<and>
          en_maintenanceContexts (dm_entries ?d' e) = [entryKey ?d' (dm_entries ?d' e)]"
        if "e < dm_next ?d'" "registered ?d' e" "en_Owner (dm_entries ?d' e) = None" for e
      proof (cases "e = ?n")
        case True
        then show ?thesis using en(3,4,9) buildingD(3) [OF dinvD(3) [OF inv], of e] by simp
      next
        case False
        then have "registered d e" "en_Owner (dm_entries d e) = None" using that by (simp_all add: reg)
        then show ?thesis using buildingD(1) [OF dinvD(3) [OF inv]] below False by (simp add: key)
      qed
      show "c = CreateChan e" if "e < dm_next ?d'" "en_creating (dm_entries ?d' e) = Some c" for e c
        using that en(4) buildingD(2) [OF dinvD(3) [OF inv], of e c] by (cases "e = ?n") simp_all
      show "CreateChan e \<notin> set (dm_closed ?d')" if "dm_next ?d' \<le> e" for e
        using buildingD(3) [OF dinvD(3) [OF inv], of e] that by simp
    qed
    show "gone ?d'" using dinvD(4) [OF inv] by (auto simp: gone_def en reg less_Suc_eq)
    show "pinsOK ?d'" by (rule pinsOK_same [OF dinvD(6) [OF inv]]) (auto simp: removal_entry_def en less_Suc_eq)
    show "e < dm_next d \<and> registered d e \<and> set (en_maintenanceContexts (dm_entries d e)) \<inter> set (ml_keys l) \<noteq> {}"
      if "mget (dm_leases d) i = Some l" "e < dm_next ?d'" "registered ?d' e"
        "set (en_maintenanceContexts (dm_entries ?d' e)) \<inter> set (ml_keys l) \<noteq> {}" for i l e
      using that free_key [OF free that(1)] below by (auto simp: reg en split: if_splits)
  qed (auto simp: registered_def)
  then show ?thesis using inv by (simp add: spawnReserve_def Let_def split: option.split)
qed

text \<open>The channel of a creation that has ended, well or not.\<close>

lemma dinv_created:
  assumes inv: "dinv R d" and "e < dm_next d" "registered d e \<Longrightarrow> en_Owner (dm_entries d e) \<noteq> None"
    and cs: "set cs \<subseteq> insert (CreateChan e) (set (dm_closed d))" and c: "c = None \<or> c = en_creating (dm_entries d e)"
  shows "dinv R (d\<lparr>dm_closed := cs, dm_entries := (dm_entries d)(e := (dm_entries d e)\<lparr>en_creating := c\<rparr>)\<rparr>)" (is "dinv R ?d'")
proof (rule dinv_registry [OF inv])
  have en: "en_Owner (dm_entries ?d' x) = en_Owner (dm_entries d x)" "en_ServerID (dm_entries ?d' x) = en_ServerID (dm_entries d x)"
    "en_maintenanceContexts (dm_entries ?d' x) = en_maintenanceContexts (dm_entries d x)"
    "removal_entry (dm_entries ?d' x) = removal_entry (dm_entries d x)" "entryKey ?d' (dm_entries ?d' x) = entryKey d (dm_entries d x)" for x
    by (simp_all add: removal_entry_def entryKey_def maintenanceContext_def contextFields_def)
  have reg: "registered ?d' x = registered d x" for x by (simp add: registered_def)
  show "registryChange d ?d'" by (simp add: registryChange_def)
  show "names ?d'" using dinvD(1) [OF inv] by (simp add: names_def)
  show "owned ?d'" using dinvD(2) [OF inv] unfolding owned_def en by simp
  show "gone ?d'" using dinvD(4) [OF inv] unfolding gone_def reg en by simp
  show "pinsOK ?d'" using pinsOK_same [OF dinvD(6) [OF inv], of ?d'] en(4) by simp
  show "building ?d'"
  proof (rule buildingI)
    fix x assume x: "x < dm_next ?d'" "registered ?d' x" "en_Owner (dm_entries ?d' x) = None"
    then have "x \<noteq> e" using assms(3) unfolding reg en by blast
    then show "en_creating (dm_entries ?d' x) = Some (CreateChan x) \<and> CreateChan x \<notin> set (dm_closed ?d') \<and>
        en_maintenanceContexts (dm_entries ?d' x) = [entryKey ?d' (dm_entries ?d' x)]"
      using buildingD(1) [OF dinvD(3) [OF inv], of x] x cs unfolding reg en by auto
  next
    show "c' = CreateChan x" if "x < dm_next ?d'" "en_creating (dm_entries ?d' x) = Some c'" for x c'
      using that c buildingD(2) [OF dinvD(3) [OF inv], of x c'] by (cases "x = e") auto
    show "CreateChan x \<notin> set (dm_closed ?d')" if "dm_next ?d' \<le> x" for x
      using buildingD(3) [OF dinvD(3) [OF inv], of x] that cs assms(2) by auto
  qed
qed (use registered_def in \<open>auto simp: registered_def split: if_splits\<close>)

lemma creating_chan:
  assumes "dinv R d" "e < dm_next d"
  shows "set (dm_closed (closeChan (en_creating (dm_entries d e)) d)) \<subseteq> insert (CreateChan e) (set (dm_closed d))"
  using buildingD(2) [OF dinvD(3) [OF assms(1)] assms(2)] by (cases "en_creating (dm_entries d e)") auto

lemma dinv_closeCreating:
  assumes "dinv R d" "e < dm_next d" "registered d e \<Longrightarrow> en_Owner (dm_entries d e) \<noteq> None"
  shows "dinv R (closeCreating e d)" "dinv R (closeChan (en_creating (dm_entries d e)) d)"
proof -
  let ?cs = "dm_closed (closeChan (en_creating (dm_entries d e)) d)"
  have "closeCreating e d = d\<lparr>dm_closed := ?cs, dm_entries := (dm_entries d)(e := (dm_entries d e)\<lparr>en_creating := None\<rparr>)\<rparr>"
    by (simp add: closeCreating_def closeChan_def onEntry_def split: option.split)
  then show "dinv R (closeCreating e d)" using dinv_created [OF assms creating_chan [OF assms(1,2)], of None] by simp
  have eq: "closeChan (en_creating (dm_entries d e)) d =
      d\<lparr>dm_closed := ?cs, dm_entries := (dm_entries d)(e := (dm_entries d e)\<lparr>en_creating := en_creating (dm_entries d e)\<rparr>)\<rparr>"
    by (simp add: closeChan_def split: option.split)
  show "dinv R (closeChan (en_creating (dm_entries d e)) d)"
    by (subst eq, rule dinv_created [OF assms creating_chan [OF assms(1,2)]]) simp_all
qed

lemma delete_frame [simp]:
  "dm_entries (deleteOwnerEntry sid d) = dm_entries d" "dm_next (deleteOwnerEntry sid d) = dm_next d"
  "entryAt (deleteOwnerEntry sid d) x = (if x = sid then None else entryAt d x)"
  using deleteOwnerEntry_shape [of sid d] by (auto simp: gomap_simps)

lemma dinv_forget:
  assumes "dinv R d" "en_Owner (dm_entries d e) = None"
  shows "dinv R (forgetPlaceholder e d)" "\<not> registered (forgetPlaceholder e d) e" "dm_entries (forgetPlaceholder e d) = dm_entries d"
    "dm_next (forgetPlaceholder e d) = dm_next d"
  using assms dinv_delete [of R d "en_ServerID (dm_entries d e)"]
  by (auto simp: forgetPlaceholder_def Let_def deletable_def registered_def)

lemma dinv_abandon:
  assumes "dinv R d" "creates d e"
  shows "dinv R (spawnAbandon e d)"
proof -
  have e: "e < dm_next d" "en_Owner (dm_entries d e) = None" using assms(2) by (simp_all add: creates_def)
  show ?thesis using dinv_closeCreating(2) [OF dinv_forget(1) [OF assms(1) e(2)], of e] dinv_forget(2-4) [OF assms(1) e(2)] e
    by (simp add: spawnAbandon_def)
qed

section \<open>Promotion\<close>

lemma dinv_setOwner:
  assumes inv: "dinv R d" and e: "e < dm_next d" "registered d e" "en_Owner (dm_entries d e) = None"
    and oo: "\<And>R. obj_ok R oo" "underHold oo"
    and f: "\<And>entry. en_Owner (f entry) = Some (dm_nextOwner d)" "\<And>entry. en_ServerID (f entry) = en_ServerID entry"
      "\<And>entry. removal_entry (f entry) = removal_entry entry" "\<And>entry. en_maintenanceContexts (f entry) = en_maintenanceContexts entry"
      "\<And>entry. en_creating (f entry) = en_creating entry"
  shows "dinv R ((onEntry e f d)\<lparr>dm_objs := (dm_objs d)(dm_nextOwner d := oo), dm_nextOwner := Suc (dm_nextOwner d)\<rparr>)" (is "dinv R ?d'")
proof (rule dinv_registry [OF inv])
  have reg: "registered ?d' x = registered d x" for x by (simp add: registered_def f onEntry_def)
  have re: "removal_entry (dm_entries ?d' x) = removal_entry (dm_entries d x)" for x by (simp add: f)
  have pr: "en_removalInProgress (f entry) = en_removalInProgress entry" for entry using f(3) [of entry] by (simp add: removal_entry_def)
  have new: "r \<noteq> dm_nextOwner d" if "x < dm_next d" "en_Owner (dm_entries d x) = Some r" for x r
    using dinvD(2) [OF inv] that by (auto simp: owned_def)
  show "registryChange d ?d'" using e(3) by (simp add: registryChange_def onEntry_def pr)
  show "names ?d'" using dinvD(1) [OF inv] by (simp add: names_def onEntry_def f)
  show "owned ?d'" using dinvD(2) [OF inv] new unfolding owned_def by (auto simp: f less_Suc_eq)
  show "gone ?d'" using dinvD(4) [OF inv] e(2) new unfolding gone_def reg by (auto simp: f)
  show "pinsOK ?d'" using pinsOK_same [OF dinvD(6) [OF inv], of ?d'] re by simp
  show "building ?d'"
  proof (rule buildingI)
    fix x assume x: "x < dm_next ?d'" "registered ?d' x" "en_Owner (dm_entries ?d' x) = None"
    then have "x \<noteq> e" by (auto simp: f)
    then show "en_creating (dm_entries ?d' x) = Some (CreateChan x) \<and> CreateChan x \<notin> set (dm_closed ?d') \<and>
        en_maintenanceContexts (dm_entries ?d' x) = [entryKey ?d' (dm_entries ?d' x)]"
      using buildingD(1) [OF dinvD(3) [OF inv], of x] x unfolding reg
      by (simp add: onEntry_def entryKey_def maintenanceContext_def contextFields_def)
  next
    show "c = CreateChan x" if "x < dm_next ?d'" "en_creating (dm_entries ?d' x) = Some c" for x c
      using that buildingD(2) [OF dinvD(3) [OF inv], of x c] by (cases "x = e") (simp_all add: f)
    show "CreateChan x \<notin> set (dm_closed ?d')" if "dm_next ?d' \<le> x" for x
      using buildingD(3) [OF dinvD(3) [OF inv], of x] that by simp
  qed
  show "obj_ok (R r) (dm_objs ?d' r) \<and> underHold (dm_objs ?d' r)" if "dm_nextOwner d \<le> r" "r < dm_nextOwner ?d'" for r
    using that oo by (simp add: less_Suc_eq)
  show "en_Owner (dm_entries ?d' x) = None \<and> \<not> registered ?d' x" if "en_Owner (dm_entries d x) = None" "\<not> registered d x" for x
    using that e(2) unfolding reg by auto
  show "x < dm_next d \<and> registered d x \<and> set (en_maintenanceContexts (dm_entries d x)) \<inter> set (ml_keys l) \<noteq> {}"
    if "x < dm_next ?d'" "registered ?d' x" "set (en_maintenanceContexts (dm_entries ?d' x)) \<inter> set (ml_keys l) \<noteq> {}" for l x
    using that unfolding reg by (auto simp: f split: if_splits)
qed

lemma dinv_promote:
  assumes inv: "dinv R d" and cr: "creates d e" and oo: "\<And>R. obj_ok R oo" "underHold oo"
  shows "dinv R (fst (spawnPromote now e mode persists oo d))"
proof -
  have e: "e < dm_next d" "en_Owner (dm_entries d e) = None" using cr by (simp_all add: creates_def)
  have refused: "dinv R (closeCreating e (forgetPlaceholder e d))"
    using dinv_closeCreating(1) [OF dinv_forget(1) [OF inv e(2)], of e] dinv_forget(2-4) [OF inv e(2)] e by simp
  let ?f = "\<lambda>entry. entry\<lparr>en_Owner := Some (dm_nextOwner d), en_Mode := mode, en_LastSession := now,
       en_IdleTimeout := dm_ownerIdleTimeout d, en_Persistent := persists\<rparr>"
  let ?d1 = "(onEntry e ?f d)\<lparr>dm_objs := (dm_objs d)(dm_nextOwner d := oo), dm_nextOwner := Suc (dm_nextOwner d)\<rparr>"
  have swap: "(closeCreating e (onEntry e ?f d))\<lparr>dm_objs := (dm_objs d)(dm_nextOwner d := oo), dm_nextOwner := Suc (dm_nextOwner d)\<rparr> =
      closeCreating e ?d1"
    by (simp add: closeCreating_def closeChan_def onEntry_def split: option.split)
  have "dinv R (closeCreating e ?d1)" if "entryAt d (en_ServerID (dm_entries d e)) = Some e"
  proof (rule dinv_closeCreating(1))
    show "dinv R ?d1" using that by (intro dinv_setOwner [OF inv e(1) _ e(2) oo]) (simp_all add: registered_def removal_entry_def)
  qed (simp_all add: e)
  then show ?thesis using refused inv by (auto simp: spawnPromote_def Let_def swap split: option.split)
qed

lemma dinv_dropPlaceholders:
  assumes "dinv R d" "\<forall>p\<in>set ps. entryAt d (fst p) = None \<or> entryAt d (fst p) = Some (snd p)"
  shows "dinv R (foldl dropPlaceholder d ps)"
  using assms
proof (induction ps arbitrary: d)
  case (Cons p ps)
  have "deletable d (fst p)" if "en_Owner (dm_entries d (snd p)) = None"
    using that Cons.prems(2) by (auto simp: deletable_def)
  then have "dinv R (dropPlaceholder d p)" using Cons.prems(1) dinv_delete by (simp add: dropPlaceholder_def)
  moreover have "\<forall>q\<in>set ps. entryAt (dropPlaceholder d p) (fst q) = None \<or> entryAt (dropPlaceholder d p) (fst q) = Some (snd q)"
    using Cons.prems(2) by (auto simp: dropPlaceholder_def)
  ultimately show ?case using Cons.IH by simp
qed simp

lemma dinv_foldl: "(\<And>d x. dinv R d \<Longrightarrow> dinv R (f d x)) \<Longrightarrow> dinv R d \<Longrightarrow> dinv R (foldl f d xs)"
  by (induction xs arbitrary: d) simp_all

lemma dinv_shutdownPass: "dinv R d \<Longrightarrow> dinv R (shutdownPass d)"
proof -
  assume inv: "dinv R d"
  have "entryAt d (fst p) = Some (snd p)" if "p \<in> set (dm_owners d)" for p
    using dinvD(1) [OF inv] that by (auto simp: names_def mget_Some_iff)
  then have "dinv R (foldl dropPlaceholder d (dm_owners d))" using dinv_dropPlaceholders [OF inv] by blast
  then show "dinv R (shutdownPass d)" using inv by (auto simp: shutdownPass_def Let_def case_prod_beta intro!: dinv_foldl dinv_startRemoval)
qed

section \<open>Contexts\<close>

lemma dinv_addContext:
  assumes inv: "dinv R d" and e: "e < dm_next d" "en_Owner (dm_entries d e) \<noteq> None" and free: "checkMaintenanceKey d key = None"
  shows "dinv R (onEntry e (addContext key) d)" (is "dinv R ?d'")
proof (rule dinv_registry [OF inv])
  have en: "en_Owner (dm_entries ?d' x) = en_Owner (dm_entries d x)" "en_ServerID (dm_entries ?d' x) = en_ServerID (dm_entries d x)"
    "en_creating (dm_entries ?d' x) = en_creating (dm_entries d x)"
    "removal_entry (dm_entries ?d' x) = removal_entry (dm_entries d x)" for x
    by (simp_all add: removal_entry_def addContext_def)
  have reg: "registered ?d' x = registered d x" for x by (simp add: registered_def addContext_def)
  show "registryChange d ?d'" by (simp add: registryChange_def onEntry_def addContext_def)
  show "names ?d'" using dinvD(1) [OF inv] unfolding names_def en by simp
  show "owned ?d'" using dinvD(2) [OF inv] unfolding owned_def en by simp
  show "gone ?d'" using dinvD(4) [OF inv] unfolding gone_def reg en by simp
  show "pinsOK ?d'" using pinsOK_same [OF dinvD(6) [OF inv], of ?d'] en(4) by simp
  show "building ?d'"
  proof (rule buildingI)
    fix x assume x: "x < dm_next ?d'" "registered ?d' x" "en_Owner (dm_entries ?d' x) = None"
    then have "x \<noteq> e" using e(2) unfolding en by blast
    then show "en_creating (dm_entries ?d' x) = Some (CreateChan x) \<and> CreateChan x \<notin> set (dm_closed ?d') \<and>
        en_maintenanceContexts (dm_entries ?d' x) = [entryKey ?d' (dm_entries ?d' x)]"
      using buildingD(1) [OF dinvD(3) [OF inv], of x] x unfolding reg en
      by (simp add: onEntry_def entryKey_def maintenanceContext_def contextFields_def)
  next
    show "c = CreateChan x" if "x < dm_next ?d'" "en_creating (dm_entries ?d' x) = Some c" for x c
      using that buildingD(2) [OF dinvD(3) [OF inv], of x c] unfolding en by simp
    show "CreateChan x \<notin> set (dm_closed ?d')" if "dm_next ?d' \<le> x" for x
      using buildingD(3) [OF dinvD(3) [OF inv], of x] that by simp
  qed
  show "x < dm_next d \<and> registered d x \<and> set (en_maintenanceContexts (dm_entries d x)) \<inter> set (ml_keys l) \<noteq> {}"
    if "mget (dm_leases d) i = Some l" "x < dm_next ?d'" "registered ?d' x"
      "set (en_maintenanceContexts (dm_entries ?d' x)) \<inter> set (ml_keys l) \<noteq> {}" for i l x
    using that free_key [OF free that(1)] unfolding reg by (auto simp: addContext_def split: if_splits)
  show "en_Owner (dm_entries ?d' x) = None \<and> \<not> registered ?d' x" if "en_Owner (dm_entries d x) = None" "\<not> registered d x" for x
    using that unfolding reg en by blast
qed simp

lemma checkKey_objs [simp]: "checkMaintenanceKey (onObj r f d) = checkMaintenanceKey d"
  by (simp add: checkMaintenanceKey_def maintenanceForKey_def fun_eq_iff)

lemma dinv_admitOwner:
  assumes "dinv R d" "e < dm_next d" "admitOwner now e token cwd environ initial expired d = Some (d', res)"
  shows "dinv R d'"
proof -
  have calm: "dinv R (onObj r (\<lambda>_. oo) d)" if "aside (dm_objs d r) oo" for r oo
    by (rule calm_dinv [OF calm_onObj assms(1)]) (rule tame_aside [OF that])
  have admit: "dinv R (onEntry e (addContext key) (onObj r (\<lambda>_. AddCwd cwd oo) d))"
    if "aside (dm_objs d r) oo" "en_Owner (dm_entries d e) = Some r" "checkMaintenanceKey d key = None" for r oo key
    by (rule dinv_addContext [OF calm]) (use that assms(2) in \<open>auto intro: aside_trans\<close>)
  have "aside (dm_objs d r) oo"
    if "(if initial then PreRegisterInitial now expired token cwd environ (dm_objs d r) else Some (ownerPreRegister now token cwd environ (dm_objs d r))) = Some (oo, ok)"
    for r oo ok
    using that by (cases initial) (auto dest: aside_initial, metis aside_reserve fst_conv)
  then show ?thesis using assms(1,3) calm admit
    unfolding admitOwner_def Let_def by (auto split: option.splits if_splits)
qed

lemma dinv_admitMaterialization:
  assumes "dinv R d"
  shows "dinv R (fst (admitMaterialization r cwd environ d))"
proof -
  have "e < dm_next d" if "entryAt d sid = Some e" for sid e using dinvD(1) [OF assms] that by (auto simp: names_def)
  then show ?thesis using assms dinv_addContext [OF assms] by (auto simp: admitMaterialization_def Let_def split: option.split)
qed

end
