(* ===== verification/Daemon_Holds.thy ===== *)
theory Daemon_Holds
  imports Daemon_Registry
begin

text \<open>
  The steps of maintenance holds keep the invariant of the daemon: a hold is published as held only when
  all its pins are retired, released only when it was held, and what the ledger says is what the daemon
  holds.
\<close>

section \<open>Telling the owners\<close>

lemma released_text: "mr_State (ownerResult text r) = ''RELEASED'' \<longleftrightarrow> hr_State r = MaintenanceReleased"
  by (cases "hr_State r") (simp_all add: ownerResult_def)

lemma tame_hold:
  assumes "hr_State result \<noteq> MaintenanceReleased \<or> oo_done oo"
  shows "tame oo (onOwner (SetMaintenance (Some (ownerResult text result))) oo)"
proof -
  have "underHold (oo\<lparr>oo_owner := (oo_owner oo)\<lparr>ow_maintenance := h\<rparr>\<rparr>)" if "obj_ok R oo" "h \<noteq> None \<or> oo_done oo" for R h
    using that by (auto simp: underHold_def obj_ok_def)
  then show ?thesis using assms obj_ok_hold
    by (auto simp: tame_def onOwner_def SetMaintenance_def released_text)
qed

lemma calm_tellOwner:
  assumes "hr_State result \<noteq> MaintenanceReleased \<or> (\<forall>x. r = Some x \<longrightarrow> oo_done (dm_objs d x))"
  shows "calm d (tellOwner result d r)"
  using assms by (cases r) (auto simp: tellOwner_def intro!: calm_onObj tame_hold)

lemma tellOwner_frame [simp]:
  "dm_entries (tellOwner result d r) = dm_entries d" "dm_leases (tellOwner result d r) = dm_leases d"
  "dm_persist (tellOwner result d r) = dm_persist d" "dm_nextChan (tellOwner result d r) = dm_nextChan d"
  "dm_maintenanceFailed (tellOwner result d r) = dm_maintenanceFailed d"
  by (simp_all add: tellOwner_def onObj_def split: option.split)

lemma tellPins_calm:
  assumes "hr_State result \<noteq> MaintenanceReleased \<or>
      (\<forall>pin\<in>set pins. \<forall>x. en_Owner (dm_entries d (pin_entry pin)) = Some x \<longrightarrow> oo_done (dm_objs d x))"
  shows "calm d (tellPins result pins d)" "dm_leases (tellPins result pins d) = dm_leases d"
proof -
  have "calm d (tellPins result pins d) \<and> dm_leases (tellPins result pins d) = dm_leases d"
    using assms
  proof (induction pins arbitrary: d)
    case (Cons pin pins)
    let ?d = "tellOwner result d (en_Owner (dm_entries d (pin_entry pin)))"
    have c: "calm d ?d" using Cons.prems by (intro calm_tellOwner) auto
    then have "oo_done (dm_objs d x) \<Longrightarrow> oo_done (dm_objs ?d x)" for x by (simp add: calm_def frame_def)
    then have "calm ?d (tellPins result pins ?d) \<and> dm_leases (tellPins result pins ?d) = dm_leases ?d" using Cons.prems by (intro Cons.IH) auto
    then show ?case using calm_trans [OF c] by (simp add: tellPins_def)
  qed (simp add: tellPins_def)
  then show "calm d (tellPins result pins d)" "dm_leases (tellPins result pins d) = dm_leases d" by simp_all
qed

section \<open>The table of holds\<close>

text \<open>A table of holds with disjoint keys, each of which is as it should be.\<close>

definition leases_ok :: "daemon \<Rightarrow> (bytes, maintenanceLease) gomap \<Rightarrow> bool" where
  "leases_ok d ls \<longleftrightarrow>
     minv ls \<and> (\<forall>i l. mget ls i = Some l \<longrightarrow> hr_HoldID (ml_result l) = i \<and> lease_ok d l) \<and>
     (\<forall>i j l m. mget ls i = Some l \<longrightarrow> mget ls j = Some m \<longrightarrow> i \<noteq> j \<longrightarrow> set (ml_keys l) \<inter> set (ml_keys m) = {})"

lemma holds_leases: "holds_ok d \<longleftrightarrow> leases_ok d (dm_leases d) \<and> (\<forall>recs. dm_store d = Some recs \<longrightarrow> recs = maintenanceRecords (dm_leases d))"
  unfolding holds_ok_def leases_ok_def by blast

lemma leases_okD:
  assumes "leases_ok d ls"
  shows "minv ls" "mget ls i = Some l \<Longrightarrow> hr_HoldID (ml_result l) = i \<and> lease_ok d l"
    "mget ls i = Some l \<Longrightarrow> mget ls j = Some m \<Longrightarrow> i \<noteq> j \<Longrightarrow> set (ml_keys l) \<inter> set (ml_keys m) = {}"
  using assms unfolding leases_ok_def by blast+

lemma leases_put:
  assumes "leases_ok d ls" "hr_HoldID (ml_result l) = i" "lease_ok d l"
    "\<And>j m. mget ls j = Some m \<Longrightarrow> j \<noteq> i \<Longrightarrow> set (ml_keys l) \<inter> set (ml_keys m) = {}"
  shows "leases_ok d (mput ls i l)"
  unfolding leases_ok_def
proof (intro conjI allI impI)
  show "minv (mput ls i l)" using assms(1) by (simp add: leases_ok_def)
  fix j m assume "mget (mput ls i l) j = Some m"
  then have "j = i \<and> m = l \<or> mget ls j = Some m" by (simp split: if_splits)
  then show "hr_HoldID (ml_result m) = j" "lease_ok d m" using assms(2,3) leases_okD(2) [OF assms(1)] by blast+
next
  fix j k m m' assume jk: "mget (mput ls i l) j = Some m" "mget (mput ls i l) k = Some m'" "j \<noteq> k"
  have put: "x = i \<and> y = l \<or> x \<noteq> i \<and> mget ls x = Some y" if "mget (mput ls i l) x = Some y" for x y
    using that by (simp split: if_splits)
  show "set (ml_keys m) \<inter> set (ml_keys m') = {}"
    using put [OF jk(1)] put [OF jk(2)] jk(3) assms(4) leases_okD(3) [OF assms(1)] by (metis Int_commute)
qed

lemma leases_del: "leases_ok d ls \<Longrightarrow> leases_ok d (mdel ls i)"
proof -
  assume ok: "leases_ok d ls"
  have "mget ls j = Some l" if "mget (mdel ls i) j = Some l" for j l using that by (auto simp: gomap_simps split: if_splits)
  then show ?thesis using leases_okD [OF ok] minv_mdel [OF leases_okD(1) [OF ok]] unfolding leases_ok_def by blast
qed

lemma lease_ok_same:
  "lease_ok (d\<lparr>dm_persist := ps, dm_store := st, dm_leases := ls, dm_nextChan := n\<rparr>) l = lease_ok d l"
proof -
  let ?d = "d\<lparr>dm_persist := ps, dm_store := st, dm_leases := ls, dm_nextChan := n\<rparr>"
  have r: "registered ?d e = registered d e" for e by (simp add: registered_def)
  have "pinDone ?d pin = pinDone d pin" for pin unfolding pinDone_def r by (simp split: option.split)
  then show ?thesis unfolding lease_ok_def r by simp
qed

lemma dinv_leases:
  assumes inv: "dinv R d" and "leases_ok d ls" "st = None \<or> st = Some (maintenanceRecords ls)" "dm_nextChan d \<le> n"
  shows "dinv R (d\<lparr>dm_persist := ps, dm_store := st, dm_leases := ls, dm_nextChan := n\<rparr>)" (is "dinv R ?d'")
proof -
  have fr: "frame d ?d'" by (simp add: frame_def)
  have "holds_ok ?d'" using assms(2,3) unfolding holds_leases leases_ok_def lease_ok_same by auto
  moreover have "exclusive ?d'"
    using dinvD(5) [OF inv] assms(4) unfolding exclusive_def worksOn_def committing_def by (simp, meson less_le_trans option.exhaust)
  moreover have "pinsOK ?d'" "objs_ok R ?d'" using dinvD(6,7) [OF inv] by (simp_all add: pinsOK_def objs_ok_def)
  ultimately show ?thesis using frame_registry [OF fr] frame_gone [OF fr] dinvD [OF inv] by (simp add: dinv_def)
qed

lemma calm_timer:
  assumes "mget (dm_leases d) i = Some l" "untimed l' = untimed l"
  shows "calm d (d\<lparr>dm_leases := mput (dm_leases d) i l'\<rparr>)"
  using assms by (auto simp: calm_def frame_def sameHolds_def)

lemma untimed_arm [simp]: "untimed (armTimer when b l) = untimed l" "untimed (markFired l) = untimed l"
  "hr_HoldID (ml_result (armTimer when b l)) = hr_HoldID (ml_result l)" "hr_HoldID (ml_result (markFired l)) = hr_HoldID (ml_result l)"
  by (simp_all add: untimed_def armTimer_def markFired_def)

lemma calm_schedule:
  assumes "mget (dm_leases d) (hr_HoldID (ml_result l)) = Some l0" "untimed l = untimed l0"
  shows "calm d (scheduleMaintenanceTimer l when b d)"
  unfolding scheduleMaintenanceTimer_def using assms by (intro calm_timer) simp_all

section \<open>Commits\<close>

lemma schedule_others [simp]:
  "j \<noteq> hr_HoldID (ml_result l) \<Longrightarrow> mget (dm_leases (scheduleMaintenanceTimer l when b d)) j = mget (dm_leases d) j"
  by (simp add: scheduleMaintenanceTimer_def)

text \<open>The table with the updated hold in it, its timer stopped.\<close>

lemma committed_table:
  assumes ok: "leases_ok d ls" and cur: "mget ls i = Some current" and upd: "lease_ok d updated"
    and same: "ml_keys updated = ml_keys current" "hr_HoldID (ml_result updated) = hr_HoldID (ml_result current)"
    and q: "untimed fresh = untimed updated" "untimed quiet = untimed updated"
  shows "leases_ok d (mput (mput ls i fresh) i quiet)"
    "maintenanceRecords (mput (mput ls i fresh) i quiet) = maintenanceRecords (mput ls i fresh)"
proof -
  have i: "hr_HoldID (ml_result current) = i" using leases_okD(2) [OF ok cur] by blast
  have lo: "lease_ok d l" if "untimed l = untimed updated" for l using frame_lease [OF frame_refl upd that] .
  have put: "leases_ok d (mput m i l)" if "leases_ok d m" "untimed l = untimed updated" "\<And>j k. j \<noteq> i \<Longrightarrow> mget m j = Some k \<Longrightarrow> mget ls j = Some k" for m l
  proof (rule leases_put [OF that(1) _ lo [OF that(2)]])
    show "hr_HoldID (ml_result l) = i" using untimed_fields(2) [OF that(2)] same(2) i by simp
    show "set (ml_keys l) \<inter> set (ml_keys k) = {}" if "mget m j = Some k" "j \<noteq> i" for j k
      using leases_okD(3) [OF ok cur, of j k] that \<open>\<And>j k. j \<noteq> i \<Longrightarrow> mget m j = Some k \<Longrightarrow> mget ls j = Some k\<close>
        untimed_fields(1) [OF \<open>untimed l = untimed updated\<close>] same(1) by metis
  qed
  have one: "leases_ok d (mput ls i fresh)" by (rule put [OF ok q(1)]) simp
  show two: "leases_ok d (mput (mput ls i fresh) i quiet)" by (rule put [OF one q(2)]) simp
  show "maintenanceRecords (mput (mput ls i fresh) i quiet) = maintenanceRecords (mput ls i fresh)"
    by (rule records_untimed) (use q leases_okD(1) [OF one] leases_okD(1) [OF two] in simp_all)
qed

lemma commitMaintenanceLease_cases:
  assumes "mget (dm_leases d) i = Some current" "hr_HoldID (ml_result current) = i"
  shows "fst (commitMaintenanceLease now current updated d) = d\<lparr>dm_persist := tl (dm_persist d), dm_store := None\<rparr> \<or>
    hr_State (ml_result updated) = MaintenanceReleased \<and> fst (commitMaintenanceLease now current updated d) =
      tellPins (ml_result updated) (ml_pins updated)
        (d\<lparr>dm_persist := tl (dm_persist d), dm_store := Some (maintenanceRecords (mdel (dm_leases d) i)),
           dm_leases := mdel (dm_leases d) i, dm_nextChan := Suc (dm_nextChan d)\<rparr>) \<or>
    hr_State (ml_result updated) \<noteq> MaintenanceReleased \<and> (\<exists>when b fresh quiet. untimed fresh = untimed updated \<and> untimed quiet = untimed updated \<and>
      fst (commitMaintenanceLease now current updated d) = scheduleMaintenanceTimer quiet when b
        (tellPins (ml_result updated) (ml_pins updated)
          (d\<lparr>dm_persist := tl (dm_persist d), dm_store := Some (maintenanceRecords (mput (dm_leases d) i fresh)),
             dm_leases := mput (mput (dm_leases d) i fresh) i quiet, dm_nextChan := Suc (dm_nextChan d)\<rparr>)))"
proof -
  let ?fresh = "updated\<lparr>ml_ptr := dm_nextChan d\<rparr>"
  let ?quiet = "?fresh\<lparr>ml_timer := None, ml_retirementRetry := False\<rparr>"
  have u: "untimed ?fresh = untimed updated" "untimed ?quiet = untimed updated" by (simp_all add: untimed_def)
  show ?thesis
  proof (cases "snd (persistMaintenance (if hr_State (ml_result updated) = MaintenanceReleased then mdel (dm_leases d) i else mput (dm_leases d) i ?fresh) d)")
    case False
    then show ?thesis using assms by (auto simp: commitMaintenanceLease_def persistMaintenance_def Let_def)
  next
    case True
    show ?thesis
    proof (cases "hr_State (ml_result updated) = MaintenanceReleased")
      case rel: True
      then show ?thesis using assms True by (simp add: commitMaintenanceLease_def persistMaintenance_def Let_def)
    next
      case False
      then show ?thesis using assms True u unfolding commitMaintenanceLease_def persistMaintenance_def Let_def scheduleMaintenanceExpiry_def
        by (simp, metis)
    qed
  qed
qed

lemma dinv_commit:
  assumes inv: "dinv R d" and cur: "mget (dm_leases d) i = Some current"
    and same: "ml_keys updated = ml_keys current" "hr_HoldID (ml_result updated) = hr_HoldID (ml_result current)"
    and ok: "hr_State (ml_result updated) \<noteq> MaintenanceReleased \<Longrightarrow> lease_ok d updated"
    and rel: "hr_State (ml_result updated) = MaintenanceReleased \<Longrightarrow> \<forall>pin\<in>set (ml_pins updated). pinDone d pin"
  shows "dinv R (fst (commitMaintenanceLease now current updated d))"
    "j \<noteq> i \<Longrightarrow> mget (dm_leases (fst (commitMaintenanceLease now current updated d))) j = mget (dm_leases d) j"
proof -
  have ls: "leases_ok d (dm_leases d)" using dinvD(8) [OF inv] by (simp add: holds_leases)
  have i: "hr_HoldID (ml_result current) = i" using leases_okD(2) [OF ls cur] by blast
  let ?c = "fst (commitMaintenanceLease now current updated d)"
  have retd: "oo_done (dm_objs d x)" if "pinDone d pin" "en_Owner (dm_entries d (pin_entry pin)) = Some x" for pin x
    using that by (simp add: pinDone_def)
  consider (fail) "?c = d\<lparr>dm_persist := tl (dm_persist d), dm_store := None\<rparr>"
    | (drop) "hr_State (ml_result updated) = MaintenanceReleased" "?c = tellPins (ml_result updated) (ml_pins updated)
        (d\<lparr>dm_persist := tl (dm_persist d), dm_store := Some (maintenanceRecords (mdel (dm_leases d) i)),
           dm_leases := mdel (dm_leases d) i, dm_nextChan := Suc (dm_nextChan d)\<rparr>)"
    | (keep) "when" b fresh quiet where "hr_State (ml_result updated) \<noteq> MaintenanceReleased" "untimed fresh = untimed updated"
        "untimed quiet = untimed updated" "?c = scheduleMaintenanceTimer quiet when b (tellPins (ml_result updated) (ml_pins updated)
          (d\<lparr>dm_persist := tl (dm_persist d), dm_store := Some (maintenanceRecords (mput (dm_leases d) i fresh)),
             dm_leases := mput (mput (dm_leases d) i fresh) i quiet, dm_nextChan := Suc (dm_nextChan d)\<rparr>))"
    using commitMaintenanceLease_cases [OF cur i, of now updated] by blast
  then have "dinv R ?c \<and> (j \<noteq> i \<longrightarrow> mget (dm_leases ?c) j = mget (dm_leases d) j)"
  proof cases
    case fail
    then show ?thesis using calm_dinv [OF _ inv] by simp
  next
    case drop
    let ?d = "d\<lparr>dm_persist := tl (dm_persist d), dm_store := Some (maintenanceRecords (mdel (dm_leases d) i)),
           dm_leases := mdel (dm_leases d) i, dm_nextChan := Suc (dm_nextChan d)\<rparr>"
    have "dinv R ?d" by (rule dinv_leases [OF inv leases_del [OF ls]]) simp_all
    moreover have t: "hr_State (ml_result updated) \<noteq> MaintenanceReleased \<or>
        (\<forall>pin\<in>set (ml_pins updated). \<forall>x. en_Owner (dm_entries ?d (pin_entry pin)) = Some x \<longrightarrow> oo_done (dm_objs ?d x))"
      using rel [OF drop(1)] retd by auto
    ultimately show ?thesis using calm_dinv [OF tellPins_calm(1) [OF t]] tellPins_calm(2) [OF t] drop(2) by (simp add: gomap_simps)
  next
    case keep
    let ?d = "d\<lparr>dm_persist := tl (dm_persist d), dm_store := Some (maintenanceRecords (mput (dm_leases d) i fresh)),
             dm_leases := mput (mput (dm_leases d) i fresh) i quiet, dm_nextChan := Suc (dm_nextChan d)\<rparr>"
    let ?t = "tellPins (ml_result updated) (ml_pins updated) ?d"
    have "dinv R ?d"
      using committed_table [OF ls cur ok [OF keep(1)] same keep(2,3)] by (intro dinv_leases [OF inv]) simp_all
    moreover have "calm ?d ?t" "dm_leases ?t = dm_leases ?d" by (rule tellPins_calm, simp add: keep(1))+
    moreover have id: "hr_HoldID (ml_result quiet) = i" using untimed_fields(2) [OF keep(3)] same(2) i by simp
    moreover have "calm ?t (scheduleMaintenanceTimer quiet when b ?t)"
      by (rule calm_schedule [of _ _ quiet]) (simp_all add: id \<open>dm_leases ?t = dm_leases ?d\<close>)
    ultimately show ?thesis using calm_dinv keep(4) by (auto intro: calm_dinv simp: id)
  qed
  then show "dinv R ?c" "j \<noteq> i \<Longrightarrow> mget (dm_leases ?c) j = mget (dm_leases d) j" by blast+
qed

section \<open>Retirement and expiry\<close>

lemma lease_okD:
  assumes "lease_ok d l"
  shows "\<not> ml_recovered l" "hr_State (ml_result l) \<noteq> MaintenanceReleased"
    "hr_State (ml_result l) = MaintenanceHeld \<longleftrightarrow> hr_TreesRetired (ml_result l)"
    "pin \<in> set (ml_pins l) \<Longrightarrow> pin_entry pin < dm_next d"
    "pin \<in> set (ml_pins l) \<Longrightarrow> en_Owner (dm_entries d (pin_entry pin)) = None \<Longrightarrow> pin_creating pin = Some (CreateChan (pin_entry pin))"
    "pin \<in> set (ml_pins l) \<Longrightarrow> hr_State (ml_result l) = MaintenanceHeld \<Longrightarrow> pinDone d pin"
  using assms unfolding lease_ok_def by blast+

text \<open>A change of the published state that its pins justify.\<close>

lemma lease_ok_onResult:
  assumes "lease_ok d l" "hr_State (f (ml_result l)) \<noteq> MaintenanceReleased"
    "hr_State (f (ml_result l)) = MaintenanceHeld \<longleftrightarrow> hr_TreesRetired (f (ml_result l))"
    "hr_State (f (ml_result l)) = MaintenanceHeld \<Longrightarrow> \<forall>pin\<in>set (ml_pins l). pinDone d pin"
  shows "lease_ok d (onResult f l)"
  using assms by (simp add: lease_ok_def onResult_def)

text \<open>When the daemon finds the trees of a hold retired, its pins are done.\<close>

lemma retired_pins:
  assumes inv: "dinv R d" and ok: "lease_ok d l" and "maintenanceTreesRetired l d" "pin \<in> set (ml_pins l)"
  shows "pinDone d pin"
proof -
  have p: "pinRetired d pin" using assms(3,4) lease_okD(1) [OF ok] by (simp add: maintenanceTreesRetired_def list_all_iff)
  have e: "pin_entry pin < dm_next d" using lease_okD(4) [OF ok assms(4)] .
  show ?thesis
  proof (cases "en_Owner (dm_entries d (pin_entry pin))")
    case None
    then have "CreateChan (pin_entry pin) \<in> set (dm_closed d)" using p lease_okD(5) [OF ok assms(4)] by (simp add: pinRetired_def)
    then have "\<not> registered d (pin_entry pin)" using buildingD(1) [OF dinvD(3) [OF inv] e] None by blast
    then show ?thesis using None by (simp add: pinDone_def)
  next
    case (Some r)
    then have "MaintenanceRetired (dm_objs d r)" using p by (simp add: pinRetired_def ownerOf_def)
    moreover have "r < dm_nextOwner d" using dinvD(2) [OF inv] e Some by (auto simp: owned_def)
    then have "obj_ok (R r) (dm_objs d r)" using dinv_objs [OF inv] by blast
    ultimately have "oo_done (dm_objs d r)" by (auto simp: obj_ok_def MaintenanceRetired_def)
    then show ?thesis using Some by (simp add: pinDone_def)
  qed
qed

lemma table_ok: "dinv R d \<Longrightarrow> leases_ok d (dm_leases d)"
  using dinvD(8) by (simp add: holds_leases)

lemma dinv_finish:
  assumes inv: "dinv R d" and cur: "mget (dm_leases d) i = Some l"
  shows "dinv R (fst (finishMaintenanceRetirement now l d))"
    "j \<noteq> i \<Longrightarrow> mget (dm_leases (fst (finishMaintenanceRetirement now l d))) j = mget (dm_leases d) j"
proof -
  have ok: "lease_ok d l" using leases_okD(2) [OF table_ok [OF inv] cur] by blast
  let ?f = "\<lambda>r. r\<lparr>hr_TreesRetired := True, hr_State := (if \<not> now < hr_ExpiresAt r then MaintenanceReleased else MaintenanceHeld)\<rparr>"
  have "dinv R (fst (commitMaintenanceLease now l (onResult ?f l) d)) \<and>
      (j \<noteq> i \<longrightarrow> mget (dm_leases (fst (commitMaintenanceLease now l (onResult ?f l) d))) j = mget (dm_leases d) j)"
    if "maintenanceTreesRetired l d"
  proof -
    have pins: "\<forall>pin\<in>set (ml_pins l). pinDone d pin" using retired_pins [OF inv ok that] by blast
    have "lease_ok d (onResult ?f l)" if "hr_State (ml_result (onResult ?f l)) \<noteq> MaintenanceReleased"
      by (rule lease_ok_onResult [OF ok]) (use that pins in \<open>auto simp: onResult_def split: if_splits\<close>)
    then show ?thesis using dinv_commit [OF inv cur, where updated = "onResult ?f l" and now = now] pins by (auto simp: onResult_def)
  qed
  then show "dinv R (fst (finishMaintenanceRetirement now l d))"
    "j \<noteq> i \<Longrightarrow> mget (dm_leases (fst (finishMaintenanceRetirement now l d))) j = mget (dm_leases d) j"
    using inv by (auto simp: finishMaintenanceRetirement_def)
qed

lemma dinv_release_hold:
  assumes inv: "dinv R d" and cur: "mget (dm_leases d) i = Some l" and held: "hr_State (ml_result l) = MaintenanceHeld"
  shows "dinv R (fst (commitMaintenanceLease now l (onResult (hr_State_update (\<lambda>_. MaintenanceReleased)) l) d))"
    "j \<noteq> i \<Longrightarrow> mget (dm_leases (fst (commitMaintenanceLease now l (onResult (hr_State_update (\<lambda>_. MaintenanceReleased)) l) d))) j =
       mget (dm_leases d) j"
proof -
  have ok: "lease_ok d l" using leases_okD(2) [OF table_ok [OF inv] cur] by blast
  have pins: "\<forall>pin\<in>set (ml_pins l). pinDone d pin" using lease_okD(6) [OF ok _ held] by blast
  note com = dinv_commit [OF inv cur, where updated = "onResult (hr_State_update (\<lambda>_. MaintenanceReleased)) l" and now = now]
  show "dinv R (fst (commitMaintenanceLease now l (onResult (hr_State_update (\<lambda>_. MaintenanceReleased)) l) d))"
    by (rule com(1)) (use pins in \<open>simp_all add: onResult_def\<close>)
  show "j \<noteq> i \<Longrightarrow> mget (dm_leases (fst (commitMaintenanceLease now l (onResult (hr_State_update (\<lambda>_. MaintenanceReleased)) l) d))) j =
       mget (dm_leases d) j"
    by (rule com(2)) (use pins in \<open>simp_all add: onResult_def\<close>)
qed

text \<open>A walk over the holds of the table: each is found as it was.\<close>

definition listed :: "daemon \<Rightarrow> maintenanceLease list \<Rightarrow> bool" where
  "listed d ls \<longleftrightarrow> distinct (map (hr_HoldID \<circ> ml_result) ls) \<and> (\<forall>l\<in>set ls. mget (dm_leases d) (hr_HoldID (ml_result l)) = Some l)"

lemma listed_all:
  assumes "dinv R d"
  shows "listed d (map snd (dm_leases d))"
proof -
  have ok: "leases_ok d (dm_leases d)" using table_ok [OF assms] .
  have m: "minv (dm_leases d)" using leases_okD(1) [OF ok] .
  have id: "hr_HoldID (ml_result (snd p)) = fst p" "mget (dm_leases d) (fst p) = Some (snd p)" if "p \<in> set (dm_leases d)" for p
  proof -
    show "mget (dm_leases d) (fst p) = Some (snd p)" using that m by (simp add: mget_Some_iff)
    then show "hr_HoldID (ml_result (snd p)) = fst p" using leases_okD(2) [OF ok] by blast
  qed
  have "map (hr_HoldID \<circ> ml_result) (map snd (dm_leases d)) = map fst (dm_leases d)" using id(1) by simp
  then have "distinct (map (hr_HoldID \<circ> ml_result) (map snd (dm_leases d)))" using m by (simp only: minv_def)
  moreover have "\<forall>l\<in>set (map snd (dm_leases d)). mget (dm_leases d) (hr_HoldID (ml_result l)) = Some l" using id by simp
  ultimately show ?thesis unfolding listed_def by blast
qed

lemma listed_step:
  assumes "listed d (l # ls)" "\<And>j. j \<noteq> hr_HoldID (ml_result l) \<Longrightarrow> mget (dm_leases d') j = mget (dm_leases d) j"
  shows "listed d' ls"
  unfolding listed_def
proof
  show "distinct (map (hr_HoldID \<circ> ml_result) ls)" using assms(1) by (simp add: listed_def)
  show "\<forall>x\<in>set ls. mget (dm_leases d') (hr_HoldID (ml_result x)) = Some x"
  proof
    fix x assume x: "x \<in> set ls"
    have "distinct (map (hr_HoldID \<circ> ml_result) (l # ls))" using assms(1) unfolding listed_def by blast
    then have "hr_HoldID (ml_result x) \<noteq> hr_HoldID (ml_result l)" using x by (auto simp: image_iff)
    moreover have "mget (dm_leases d) (hr_HoldID (ml_result x)) = Some x" using assms(1) x unfolding listed_def by simp
    ultimately show "mget (dm_leases d') (hr_HoldID (ml_result x)) = Some x" using assms(2) by simp
  qed
qed

lemma listed_head: "listed d (l # ls) \<Longrightarrow> mget (dm_leases d) (hr_HoldID (ml_result l)) = Some l" "listed d (l # ls) \<Longrightarrow> listed d ls"
  by (simp_all add: listed_def)

lemma dinv_expireLeases: "dinv R d \<Longrightarrow> listed d ls \<Longrightarrow> dinv R (fst (expireLeases now ls d))"
proof (induction ls arbitrary: d)
  case (Cons l ls)
  note cur = listed_head(1) [OF Cons.prems(2)]
  let ?c = "commitMaintenanceLease now l (onResult (hr_State_update (\<lambda>_. MaintenanceReleased)) l) d"
  show ?case
  proof (cases "hr_State (ml_result l) \<noteq> MaintenanceHeld \<or> now < hr_ExpiresAt (ml_result l)")
    case True
    then show ?thesis using Cons.IH [OF Cons.prems(1) listed_head(2) [OF Cons.prems(2)]] by simp
  next
    case False
    then have c: "dinv R (fst ?c)" "\<And>j. j \<noteq> hr_HoldID (ml_result l) \<Longrightarrow> mget (dm_leases (fst ?c)) j = mget (dm_leases d) j"
      using dinv_release_hold [OF Cons.prems(1) cur] by blast+
    have "dinv R (fst (expireLeases now ls (fst ?c)))" using Cons.IH [OF c(1) listed_step [OF Cons.prems(2) c(2)]] .
    then show ?thesis using False c(1) by (auto simp: case_prod_beta split: prod.split option.split)
  qed
qed simp

lemma dinv_expire: "dinv R d \<Longrightarrow> dinv R (fst (expireMaintenance now d))"
  using dinv_expireLeases [OF _ listed_all] by (simp add: expireMaintenance_def)

section \<open>Acquiring a hold\<close>

lemma held_none:
  assumes "heldKeys d keys = None" "mget (dm_leases d) i = Some l"
  shows "set keys \<inter> set (ml_keys l) = {}"
proof -
  have "maintenanceForKey d key = None" if "key \<in> set keys" for key
    using assms(1) that by (induction keys) (auto split: option.splits)
  moreover have "l \<in> set (map snd (dm_leases d))" using assms(2) by (force simp: mget_def dest: map_of_SomeD)
  ultimately show ?thesis unfolding maintenanceForKey_def find_None_iff by blast
qed

lemma names_minv: "names d \<Longrightarrow> minv (dm_owners d)"
  by (simp add: names_def)

lemma holdPins_Some:
  assumes "holdPins d selected = Some pins"
  shows "pin_entry ` set pins =
      {e. \<exists>sid. (sid, e) \<in> set (dm_owners d) \<and> contextsOverlap (en_maintenanceContexts selected) (en_maintenanceContexts (dm_entries d e))}"
    "pin \<in> set pins \<Longrightarrow> pin_creating pin = en_creating (dm_entries d (pin_entry pin))"
proof -
  have "pins = map (\<lambda>(_, e). \<lparr>pin_entry = e, pin_identity = captureOwnerEntryIdentity (dm_entries d e), pin_creating = en_creating (dm_entries d e)\<rparr>)
      (filter (\<lambda>(_, e). contextsOverlap (en_maintenanceContexts selected) (en_maintenanceContexts (dm_entries d e))) (dm_owners d))"
    using assms unfolding holdPins_def Let_def by (simp only: option.distinct split: if_splits) (erule option.inject [THEN iffD1, THEN sym])
  note p = this
  show "pin_entry ` set pins =
      {e. \<exists>sid. (sid, e) \<in> set (dm_owners d) \<and> contextsOverlap (en_maintenanceContexts selected) (en_maintenanceContexts (dm_entries d e))}"
    unfolding p by (auto simp: image_image case_prod_beta image_iff)
  show "pin \<in> set pins \<Longrightarrow> pin_creating pin = en_creating (dm_entries d (pin_entry pin))" unfolding p by auto
qed

lemma holdPins_all:
  assumes inv: "dinv R d" and pins: "holdPins d selected = Some pins" and e: "registered d e"
    "set (en_maintenanceContexts (dm_entries d e)) \<inter> set (en_maintenanceContexts selected) \<noteq> {}"
  shows "e \<in> pin_entry ` set pins"
proof -
  have "(en_ServerID (dm_entries d e), e) \<in> set (dm_owners d)"
    using e(1) mget_Some_iff [OF names_minv [OF dinvD(1) [OF inv]]] unfolding registered_def by blast
  moreover have "contextsOverlap (en_maintenanceContexts selected) (en_maintenanceContexts (dm_entries d e))"
    using e(2) by (auto simp: contextsOverlap_def list_ex_iff)
  ultimately show ?thesis unfolding holdPins_Some(1) [OF pins] by blast
qed

lemma holdPins_pin:
  assumes inv: "dinv R d" and pins: "holdPins d selected = Some pins" and pin: "pin \<in> set pins"
  shows "pin_entry pin < dm_next d \<and> registered d (pin_entry pin) \<and> pin_creating pin = en_creating (dm_entries d (pin_entry pin))"
proof -
  have "pin_entry pin \<in> pin_entry ` set pins" using pin by blast
  then obtain sid e where e: "(sid, e) \<in> set (dm_owners d)" "pin_entry pin = e" "pin_creating pin = en_creating (dm_entries d e)"
    using holdPins_Some(2) [OF pins pin] unfolding holdPins_Some(1) [OF pins] by blast
  then have "entryAt d sid = Some e" using mget_Some_iff [OF names_minv [OF dinvD(1) [OF inv]]] by blast
  then have "e < dm_next d" "registered d e" using dinvD(1) [OF inv] unfolding names_def registered_def by blast+
  then show ?thesis using e by simp
qed

lemma seed_ok:
  assumes inv: "dinv R d" and pins: "holdPins d selected = Some pins"
  shows "lease_ok d (seedLease i sid (sort (en_maintenanceContexts selected)) pins expires deadline ptr)"
  unfolding lease_ok_def
proof (intro conjI allI impI ballI)
  let ?l = "seedLease i sid (sort (en_maintenanceContexts selected)) pins expires deadline ptr"
  show "e \<in> pin_entry ` set (ml_pins ?l)"
    if "registered d e" "set (en_maintenanceContexts (dm_entries d e)) \<inter> set (ml_keys ?l) \<noteq> {}" for e
    using holdPins_all [OF inv pins that(1)] that(2) by (simp add: seedLease_def)
  fix pin assume "pin \<in> set (ml_pins ?l)"
  then have p: "pin_entry pin < dm_next d" "registered d (pin_entry pin)" "pin_creating pin = en_creating (dm_entries d (pin_entry pin))"
    using holdPins_pin [OF inv pins] by (simp_all add: seedLease_def)
  show "pin_entry pin < dm_next d" using p(1) .
  show "pin_creating pin = Some (CreateChan (pin_entry pin))" if "en_Owner (dm_entries d (pin_entry pin)) = None"
    using buildingD(1) [OF dinvD(3) [OF inv] p(1,2) that] p(3) by simp
qed (simp_all add: seedLease_def)

lemma calm_failHold:
  assumes "hr_State (ml_result l) \<noteq> MaintenanceReleased"
  shows "calm d (failHold l d)"
proof -
  have "calm d (d\<lparr>dm_maintenanceFailed := True\<rparr>)" by simp
  moreover have "calm d (foldl (\<lambda>d e. tellOwner (ml_result l) d (en_Owner (dm_entries d e))) d es)" for d es
    by (rule calm_foldl) (use assms in \<open>auto intro: calm_tellOwner\<close>)
  ultimately show ?thesis unfolding failHold_def by (blast intro: calm_trans)
qed

lemma dinv_commitHold:
  assumes inv: "dinv R d" and ok: "lease_ok d l" and st: "hr_State (ml_result l) = MaintenanceHolding"
    and disj: "\<And>j m. mget (dm_leases d) j = Some m \<Longrightarrow> set (ml_keys l) \<inter> set (ml_keys m) = {}"
  shows "dinv R (fst (commitHold now committedAt ttl drain l d))"
proof -
  let ?i = "hr_HoldID (ml_result l)"
  let ?ls = "mput (dm_leases d) ?i l"
  let ?d1 = "d\<lparr>dm_persist := tl (dm_persist d), dm_store := Some (maintenanceRecords ?ls), dm_leases := ?ls, dm_nextChan := dm_nextChan d\<rparr>"
  let ?f = "\<lambda>r. r\<lparr>hr_ExpiresAt := committedAt + ttl, hr_DrainDeadline := committedAt + drain\<rparr>"
  let ?c = "commitMaintenanceLease committedAt l (onResult ?f l) ?d1"
  have fail: "dinv R (failHold l x)" if "dinv R x" for x using calm_dinv [OF calm_failHold that] st by simp
  have "leases_ok d ?ls" by (rule leases_put [OF table_ok [OF inv] _ ok]) (use disj in auto)
  then have d1: "dinv R ?d1" by (intro dinv_leases [OF inv]) simp_all
  have "lease_ok ?d1 (onResult ?f l)"
    unfolding lease_ok_same by (rule lease_ok_onResult [OF ok]) (use lease_okD(2,3) [OF ok] st in simp_all)
  then have "dinv R (fst ?c)" by (intro dinv_commit(1) [OF d1, of ?i]) (simp_all add: onResult_def st)
  moreover have "dinv R (d\<lparr>dm_persist := tl (dm_persist d), dm_store := None\<rparr>)" by (rule calm_dinv [OF _ inv]) simp
  moreover have "?d1 = d\<lparr>dm_persist := tl (dm_persist d), dm_store := Some (maintenanceRecords ?ls), dm_leases := ?ls\<rparr>" by simp
  ultimately show ?thesis using fail
    by (auto simp: commitHold_def persistMaintenance_def Let_def case_prod_beta split: prod.split option.split)
qed

lemma dinv_acquireBegin:
  assumes inv: "dinv R d"
  shows "dinv R (fst (acquireBegin now committedAt sid ttl drain ident d))"
proof -
  let ?d = "fst (expireMaintenance now d)"
  have e: "dinv R ?d" using dinv_expire [OF inv] .
  have "dinv R (fst (commitHold now committedAt ttl drain
      (seedLease i sid (sort (en_maintenanceContexts selected)) pins expires deadline (dm_nextChan ?d)) (?d\<lparr>dm_nextChan := Suc (dm_nextChan ?d)\<rparr>)))"
    if "holdPins ?d selected = Some pins" "heldKeys ?d (sort (en_maintenanceContexts selected)) = None" for selected pins i expires deadline
  proof (rule dinv_commitHold)
    let ?l = "seedLease i sid (sort (en_maintenanceContexts selected)) pins expires deadline (dm_nextChan ?d)"
    have c: "calm ?d (?d\<lparr>dm_nextChan := Suc (dm_nextChan ?d)\<rparr>)" by simp
    show "dinv R (?d\<lparr>dm_nextChan := Suc (dm_nextChan ?d)\<rparr>)" using calm_dinv [OF c e] .
    show "lease_ok (?d\<lparr>dm_nextChan := Suc (dm_nextChan ?d)\<rparr>) ?l"
      using frame_lease [OF _ seed_ok [OF e that(1)] refl] c by (simp add: calm_def)
    show "set (ml_keys ?l) \<inter> set (ml_keys m) = {}" if "mget (dm_leases (?d\<lparr>dm_nextChan := Suc (dm_nextChan ?d)\<rparr>)) j = Some m" for j m
      using held_none [OF \<open>heldKeys ?d (sort (en_maintenanceContexts selected)) = None\<close>] that by (simp add: seedLease_def)
  qed (simp add: seedLease_def)
  then show ?thesis using e unfolding acquireBegin_def Let_def
    by (auto simp: case_prod_beta split: prod.split option.split)
qed

lemma dinv_acquireEnd:
  assumes "dinv R d"
  shows "dinv R (fst (acquireEnd now i own d))"
proof (cases "mget (dm_leases d) i")
  case (Some l)
  show ?thesis using dinv_finish(1) [OF assms Some, of now] assms Some
    by (cases "finishMaintenanceRetirement now l d") (auto simp: acquireEnd_def split: option.split)
qed (use assms in \<open>simp add: acquireEnd_def\<close>)

lemma dinv_block:
  assumes inv: "dinv R d"
  shows "dinv R (fst (blockMaintenance now i own d))"
proof (cases "mget (dm_leases d) i")
  case (Some l)
  have ok: "lease_ok d l" using leases_okD(2) [OF table_ok [OF inv] Some] by blast
  let ?f = "\<lambda>r. r\<lparr>hr_State := MaintenanceRetirementBlocked, hr_TreesRetired := False\<rparr>"
  let ?c = "commitMaintenanceLease now l (onResult ?f l) d"
  have "lease_ok d (onResult ?f l)" by (rule lease_ok_onResult [OF ok]) simp_all
  then have "dinv R (fst ?c)" by (intro dinv_commit(1) [OF inv Some]) (simp_all add: onResult_def)
  then show ?thesis using dinv_finish(1) [OF inv Some, of now] Some
    by (cases ?c; cases "finishMaintenanceRetirement now l d") (auto simp: blockMaintenance_def Let_def split: option.split)
qed (use inv in \<open>simp add: blockMaintenance_def\<close>)

section \<open>Timers, resume and renew\<close>

lemma dinv_publish: "dinv R d \<Longrightarrow> listed d ls \<Longrightarrow> dinv R (publishRetirement now e ls d)"
proof (induction ls arbitrary: d)
  case (Cons l ls)
  note cur = listed_head(1) [OF Cons.prems(2)]
  let ?c = "finishMaintenanceRetirement now l d"
  have c: "dinv R (fst ?c)" "listed (fst ?c) ls"
    using dinv_finish(1) [OF Cons.prems(1) cur] listed_step [OF Cons.prems(2) dinv_finish(2) [OF Cons.prems(1) cur]] by blast+
  have "dinv R ((fst ?c)\<lparr>dm_maintenanceFailed := True\<rparr>)" by (rule calm_dinv [OF _ c(1)]) simp
  moreover have "dinv R (publishRetirement now e ls (fst ?c))" using Cons.IH [OF c] .
  moreover have "dinv R (publishRetirement now e ls d)" using Cons.IH [OF Cons.prems(1) listed_head(2) [OF Cons.prems(2)]] .
  ultimately show ?case by (auto split: prod.splits option.splits)
qed simp

lemma dinv_retry: "dinv R d \<Longrightarrow> listed d ls \<Longrightarrow> dinv R (foldl (retryRetirement now e) d ls)"
proof (induction ls arbitrary: d)
  case (Cons l ls)
  note cur = listed_head(1) [OF Cons.prems(2)]
  have "dinv R (scheduleMaintenanceTimer l when b d)" for "when" b by (rule calm_dinv [OF calm_schedule [OF cur refl] Cons.prems(1)])
  then have "dinv R (retryRetirement now e d l)" using Cons.prems(1) by (simp add: retryRetirement_def)
  moreover have "listed (retryRetirement now e d l) ls"
    by (rule listed_step [OF Cons.prems(2)]) (simp add: retryRetirement_def)
  ultimately show ?case using Cons.IH by simp
qed simp

lemma dinv_locks: "dinv R d \<Longrightarrow> dinv R (d\<lparr>dm_locks := ls\<rparr>)"
  by (erule calm_dinv [rotated]) simp

lemma dinv_failed: "dinv R d \<Longrightarrow> dinv R (d\<lparr>dm_maintenanceFailed := b\<rparr>)"
  by (erule calm_dinv [rotated]) simp

lemma dinv_retirementChanged: "dinv R d \<Longrightarrow> dinv R (maintenanceRetirementChanged now e d)"
proof -
  assume "dinv R d"
  then have l: "dinv R (d\<lparr>dm_locks := tl (dm_locks d)\<rparr>)" by (rule dinv_locks)
  show ?thesis using l dinv_publish [OF l listed_all [OF l]] dinv_retry [OF l listed_all [OF l]] dinv_failed [OF l]
    by (auto simp: maintenanceRetirementChanged_def takeLock_def split: lock_outcome.split list.split)
qed

lemma dinv_failOnError: "dinv R (fst r) \<Longrightarrow> dinv R (failOnError r)"
  using dinv_failed by (cases r) (auto simp: failOnError_def split: option.split)

lemma dinv_fireTimer:
  assumes inv: "dinv R d" and cur: "mget (dm_leases d) (hr_HoldID (ml_result l)) = Some l"
  shows "dinv R (fireTimer now l retirement d)"
proof -
  let ?d = "d\<lparr>dm_locks := tl (dm_locks d)\<rparr>"
  have l: "dinv R ?d" using inv by (rule dinv_locks)
  have "calm ?d (scheduleMaintenanceTimer l when b ?d)" for "when" b using calm_schedule [of ?d l l] cur by simp
  then have s: "dinv R (scheduleMaintenanceTimer l when b ?d)" for "when" b using calm_dinv l by blast
  have "mget (dm_leases (scheduleMaintenanceTimer l when b ?d)) (hr_HoldID (ml_result l)) = Some (armTimer when b l)" for "when" b
    by (simp add: scheduleMaintenanceTimer_def)
  then have "dinv R (fst (finishMaintenanceRetirement now (armTimer when b l) (scheduleMaintenanceTimer l when b ?d)))" for "when" b
    using dinv_finish(1) [OF s] by blast
  then show ?thesis using l s dinv_failed [OF l] dinv_failOnError dinv_expire [OF l]
    by (auto simp: fireTimer_def takeLock_def scheduleMaintenanceExpiry_def Let_def split: lock_outcome.split list.split)
qed

lemma dinv_timerFires: "dinv R d \<Longrightarrow> dinv R (maintenanceTimerFires now i d)"
proof -
  assume inv: "dinv R d"
  have "dinv R (d\<lparr>dm_leases := mput (dm_leases d) i (markFired l)\<rparr>) \<and>
      dinv R (fireTimer now (markFired l) b (d\<lparr>dm_leases := mput (dm_leases d) i (markFired l)\<rparr>))" if l: "mget (dm_leases d) i = Some l" for l b
  proof -
    let ?d = "d\<lparr>dm_leases := mput (dm_leases d) i (markFired l)\<rparr>"
    have "hr_HoldID (ml_result l) = i" using leases_okD(2) [OF table_ok [OF inv] l] by blast
    moreover have "dinv R ?d" by (rule calm_dinv [OF calm_timer [OF l] inv]) simp
    ultimately show ?thesis using dinv_fireTimer [of R ?d "markFired l"] by simp
  qed
  then show ?thesis using inv by (auto simp: maintenanceTimerFires_def Let_def split: option.split)
qed

lemma dinv_mutate: 
  assumes "dinv R d"
  shows "dinv R (fst (mutateMaintenance now cmd i ttl d))"
proof -
  let ?d = "fst (expireMaintenance now d)"
  have e: "dinv R ?d" using dinv_expire [OF assms] .
  let ?f = "\<lambda>r. case cmd of Resume \<Rightarrow> r\<lparr>hr_State := MaintenanceReleased\<rparr> | Renew \<Rightarrow> r\<lparr>hr_ExpiresAt := now + ttl\<rparr>"
  have "dinv R (fst (commitMaintenanceLease now l (onResult ?f l) ?d))"
    if l: "mget (dm_leases ?d) i = Some l" and "cmd = Resume \<Longrightarrow> hr_State (ml_result l) = MaintenanceHeld" for l
  proof (cases cmd)
    case Resume
    then show ?thesis using dinv_release_hold(1) [OF e l] that(2) by simp
  next
    case Renew
    have ok: "lease_ok ?d l" using leases_okD(2) [OF table_ok [OF e] l] by blast
    have "lease_ok ?d (onResult ?f l)" by (rule lease_ok_onResult [OF ok]) (use Renew lease_okD(2,3,6) [OF ok] in auto)
    then show ?thesis using lease_okD(2) [OF ok] Renew by (intro dinv_commit(1) [OF e l]) (simp_all add: onResult_def)
  qed
  then show ?thesis using e unfolding mutateMaintenance_def Let_def
    by (auto simp: case_prod_beta split: prod.split option.split maintenance_cmd.splits if_splits)
qed

end
