(* ===== verification/Daemon_Safety.thy ===== *)
theory Daemon_Safety
  imports Daemon_Holds
begin

text \<open>
  What the daemon guarantees in every run: removers exclude each other, an owner that the registry has
  forgotten left no process behind, and a published maintenance hold means that no owner of its contexts
  has a process.
\<close>

section \<open>Every step\<close>

lemma removerProven_none:
  assumes "mget (dm_removers d) tid = Some rm" "\<And>e k. rm_pc rm \<noteq> RmEnd e k"
  shows "removerProven tid act d = (\<lambda>_. {})"
  using assms by (cases "rm_pc rm") (auto simp: removerProven_def fun_eq_iff)

lemma dinv_removerStep:
  assumes inv: "dinv R d"
  shows "dinv (\<lambda>r. R r \<union> removerProven tid act d r) (removerStep now tid act d)"
proof (cases "mget (dm_removers d) tid")
  case None
  then show ?thesis using inv by (simp add: removerStep_def removerProven_def)
next
  case (Some rm)
  note pc = dinv_unclaimed [OF _ Some] and none = removerProven_none [OF Some]
  show ?thesis
  proof (cases "rm_pc rm")
    case (RmFailed e err)
    then show ?thesis using dinv_release [OF inv Some, of e] by (simp add: removerStep_def Some none)
  next
    case (RmSchedule e err)
    let ?d = "scheduleOwnerFinalizationRetry (rm_serverID rm) e (rm_reason rm) (rm_soft rm) d"
    have "tid \<noteq> dm_nextChan d" using exclusiveD(1) [OF dinvD(5) [OF inv], of tid] Some by auto
    then have "mget (dm_removers ?d) tid = Some rm" using Some by (simp add: scheduleOwnerFinalizationRetry_def)
    then show ?thesis using dinv_unclaimed [OF dinv_schedule [OF inv]] RmSchedule by (simp add: removerStep_def Some none)
  next
    case (RmCommit e code err)
    then show ?thesis using dinv_commitRemoval [OF inv Some] by (simp add: removerStep_def Some none)
  next
    case (RmRetired e result err)
    then have "claimed (rm_pc rm) = None" by simp
    have "dinv R (setPc tid pc (maintenanceRetirementChanged now e d))" if "claimed pc = None" for pc
    proof (cases "mget (dm_removers (maintenanceRetirementChanged now e d)) tid")
      case None
      then show ?thesis using dinv_retirementChanged [OF inv] by (simp add: setPc_def)
    next
      case (Some rm')
      then show ?thesis using dinv_unclaimed [OF dinv_retirementChanged [OF inv] Some that] by simp
    qed
    then show ?thesis using inv RmRetired by (auto simp: removerStep_def Some none split: rm_act.split)
  qed (use inv pc dinv_claimOwner [OF inv Some] dinv_waitFor [OF inv Some] dinv_afterReturn [OF inv Some] dinv_finalizeStep [OF inv Some]
       in \<open>auto simp: removerStep_def Some none\<close>)
qed

text \<open>The processes of an owner that an event proves gone.\<close>

fun daemonProven :: "daemon \<Rightarrow> daemon_event \<Rightarrow> nat \<Rightarrow> nat set" where
  "daemonProven d (DmOwner x ev) r =
     (if r = x \<and> \<not> (x \<ge> dm_nextOwner d \<or> setsHold ev \<or> finalizing ev \<and> insideRemoval d x) then objProven (dm_objs d x) ev else {})"
| "daemonProven d (DmRemover tid act) r = removerProven tid act d r"
| "daemonProven d _ r = {}"

fun daemonProvenRun :: "daemon \<Rightarrow> (time \<times> daemon_event) list \<Rightarrow> nat \<Rightarrow> nat set" where
  "daemonProvenRun d [] r = {}"
| "daemonProvenRun d ((now, ev) # evs) r =
     daemonProven d ev r \<union> (case daemon_step now d ev of None \<Rightarrow> {} | Some d' \<Rightarrow> daemonProvenRun d' evs r)"

lemma newObj_any: "obj_ok R (newObj handshake start command (NewOwner pid sequence cfg en))" "underHold (newObj handshake start command ow)"
  using newObj_ok [of handshake start command pid sequence cfg en] proc_ok_mono [of "{}"]
  by (auto simp: obj_ok_def underHold_def newObj_def)

lemma dinv_sweep:
  assumes "dinv R d"
  shows "dinv R (sweepOwner now d v)" "dinv R (removeOwnerIfCurrentAndZeroIdle now sid e zeroAt delay d)"
proof -
  have s: "dinv R (onObj r (\<lambda>_. oo) d)" if "sampleOwner now persists idle seen (dm_objs d r) = (oo, smp)" for persists idle seen r oo smp
    using calm_dinv [OF calm_sample [OF that] assms] .
  show "dinv R (sweepOwner now d v)"
    using assms s by (auto simp: sweepOwner_def Let_def intro!: dinv_startRemoval split: prod.split)
  show "dinv R (removeOwnerIfCurrentAndZeroIdle now sid e zeroAt delay d)"
    using assms s by (auto simp: removeOwnerIfCurrentAndZeroIdle_def Let_def intro!: dinv_startRemoval split: prod.split option.split)
qed

lemma dinv_upstreamExit: "dinv R d \<Longrightarrow> dinv R (onUpstreamExit now r d)"
proof -
  assume inv: "dinv R d"
  obtain d1 e where m: "mutateCurrentOwnerEntry r (\<lambda>entry. entry) d = (d1, e)" by force
  have "dinv R d1" using calm_dinv [OF calm_mutate [of "\<lambda>entry. entry" d r] inv] m by simp
  moreover have "calm d1 (recordCrash now key d1)" for key by (simp add: recordCrash_def)
  ultimately have "dinv R d1" "dinv R (recordCrash now key d1)" for key using calm_dinv by blast+
  then show ?thesis using m by (auto simp: onUpstreamExit_def Let_def intro!: dinv_removeOwner split: option.split)
qed

lemma dinv_retirePins: "dinv R d \<Longrightarrow> dinv R (retirePins i d)"
proof -
  have "dinv R d \<Longrightarrow> dinv R (retirePin d pin)" for d pin by (simp add: retirePin_def dinv_removeOwner)
  then show "dinv R d \<Longrightarrow> dinv R (retirePins i d)" by (auto simp: retirePins_def intro!: dinv_foldl split: option.split)
qed

lemma dinv_retryPin: "dinv R d \<Longrightarrow> dinv R (retryPin pin d)"
  by (auto simp: retryPin_def dinv_schedule split: option.split)

lemma calm_shutdown: "calm d (fst (beginMaintenanceLifecycle d))" "calm d (shutdownEnd d)"
  by (simp_all add: beginMaintenanceLifecycle_def shutdownEnd_def split: option.split)

lemma dinv_step:
  assumes inv: "dinv R d" and step: "daemon_step now d ev = Some d'"
  shows "dinv (\<lambda>r. R r \<union> daemonProven d ev r) d'"
proof (cases ev)
  case (DmOwner x oev)
  show ?thesis
  proof (cases "x \<ge> dm_nextOwner d \<or> setsHold oev \<or> finalizing oev \<and> insideRemoval d x")
    case True
    then show ?thesis using inv step DmOwner by simp
  next
    case False
    then obtain oo where oo: "obj_step now (dm_objs d x) oev = Some oo" "d' = onObj x (\<lambda>_. oo) d" using step DmOwner by auto
    have "(\<lambda>r. R r \<union> daemonProven d ev r) = R(x := R x \<union> objProven (dm_objs d x) oev)"
      using False DmOwner by (auto simp: fun_eq_iff simp del: objProven.simps)
    then show ?thesis using dinv_obj_step [OF inv _ oo(1)] False oo(2) by simp
  qed
next
  case (DmRemover tid act)
  then show ?thesis using dinv_removerStep [OF inv] step by auto
next
  case (DmPromote e mode persists start command pid sequence cfg en)
  then show ?thesis using inv step dinv_promote [OF inv _ newObj_any] by auto
next
  case (DmAdmit e token cwd environ initial expired)
  then show ?thesis using inv step dinv_admitOwner [OF inv] by (auto split: if_splits option.splits)
next
  case (DmUnpin es)
  then show ?thesis using inv step dinv_releasePins [OF inv, of "filter (\<lambda>e. e < dm_next d) es"] by auto
qed (use inv step dinv_reserve dinv_abandon dinv_admitMaterialization dinv_removeOwner calm_dinv [OF calm_sweepTokens] dinv_sweep
       calm_dinv [OF calm_zeroSessions] dinv_upstreamExit calm_dinv [OF calm_setPersistent] dinv_acquirePins dinv_acquireBegin
       calm_dinv [OF calm_drainPins] dinv_retirePins dinv_retryPin dinv_acquireEnd dinv_block dinv_timerFires dinv_mutate
       calm_dinv [OF calm_shutdown(1)] calm_dinv [OF calm_shutdown(2)] dinv_shutdownPass in \<open>auto split: if_splits\<close>)

lemma dinv_run:
  assumes "dinv R d" "daemon_run d evs = Some d'"
  shows "dinv (\<lambda>r. R r \<union> daemonProvenRun d evs r) d'"
  using assms
proof (induction evs arbitrary: R d)
  case (Cons e evs)
  obtain now ev where e: "e = (now, ev)" by force
  obtain d1 where step: "daemon_step now d ev = Some d1" "daemon_run d1 evs = Some d'" using Cons.prems(2) e by (auto split: option.splits)
  show ?case using Cons.IH [OF dinv_step [OF Cons.prems(1) step(1)] step(2)] by (simp add: e step(1) Un_assoc)
qed simp

lemma newDaemon_inv: "dinv (\<lambda>_. {}) (newDaemon persist locks idle isolatedIdle delay scope text sha canon entries objs)"
  by (auto simp: newDaemon_def dinv_def names_def owned_def building_def gone_def exclusive_def worksOn_def committing_def pinsOK_def
      objs_ok_def holds_ok_def)

lemma reached_inv:
  assumes "daemon_run (newDaemon persist locks idle isolatedIdle delay scope text sha canon entries objs) evs = Some d"
  shows "dinv (daemonProvenRun (newDaemon persist locks idle isolatedIdle delay scope text sha canon entries objs) evs) d"
  using dinv_run [OF newDaemon_inv assms] by simp

text \<open>A retired owner has no process, and all it started are gone.\<close>

lemma retired_obj:
  assumes "obj_ok R oo \<and> underHold oo" "oo_done oo"
  shows "oo_done oo \<and> ma_upstream (ow_ma (oo_owner oo)) = None \<and> (\<forall>q<ma_nextProc (ow_ma (oo_owner oo)). q \<in> R)"
  using assms by (auto simp: obj_ok_def proc_ok_def kept_def halted_def)

section \<open>An example\<close>

text \<open>An owner with a process is put under a hold, which removes it.\<close>

definition demo_daemon :: daemon where
  "demo_daemon = newDaemon [] [] 0 0 0 ''s'' (\<lambda>_. ''t'') (\<lambda>_. ''k'') (\<lambda>b. b) (\<lambda>_. placeholderEntry [] [] [] [] None [] [] 0) (\<lambda>_. demo_obj)"

definition demo_holding :: "(time \<times> daemon_event) list" where
  "demo_holding =
     map (\<lambda>ev. (0, ev))
       [DmReserve ''a'' ''srv'' [] [] None ''g'', DmPromote 0 [] False 1 ''srv'' 1 1 demo_config demo_outside, DmOwner 0 StartAccepting,
        DmOwner 0 (OwnerEvent False (EvAttempt Proceed)), DmOwner 0 (OwnerEvent False (EvAttempt (StartResult True None))),
        DmHold 0 ''a'' 100 10 (Some ''h''), DmDrainPins ''h'', DmRetirePins ''h'', DmRemover 2 Go, DmRemover 2 Go]"

definition demo_held :: "(time \<times> daemon_event) list" where
  "demo_held =
     demo_holding @ map (\<lambda>ev. (0, ev))
       [DmOwner 0 (OwnerEvent False (EvAttempt (Chosen CaseStop))), DmOwner 0 (OwnerEvent False (EvAttempt (Chosen CaseFailed))),
        DmOwner 0 (OwnerEvent False (EvAttempt (Retired None None))), DmOwner 0 (OwnerEvent False (EvAttempt (Chosen CaseStop))),
        DmOwner 0 EndAccepting, DmRemover 2 Go, DmRemover 2 (Close False demo_close), DmRemover 2 Go, DmRemover 2 (Supervised None)]"

lemma demo_holding_run:
  obtains d where "daemon_run demo_daemon demo_holding = Some d" "worksOn d 2 0"
proof -
  have "(case daemon_run demo_daemon demo_holding of
      None \<Rightarrow> False | Some d \<Rightarrow> map_option (\<lambda>rm. claimed (rm_pc rm)) (mget (dm_removers d) 2) = Some (Some 0))"
    by code_simp
  then show thesis using that by (auto simp: worksOn_def split: option.splits)
qed

lemma demo_held_run:
  obtains d l where "daemon_run demo_daemon demo_held = Some d" "mget (dm_leases d) ''h'' = Some l" "hr_State (ml_result l) = MaintenanceHeld"
    "set (en_maintenanceContexts (dm_entries d 0)) \<inter> set (ml_keys l) \<noteq> {}" "dm_next d = 1" "en_Owner (dm_entries d 0) = Some 0"
    "entryAt d (en_ServerID (dm_entries d 0)) = None" "ma_nextProc (ow_ma (oo_owner (dm_objs d 0))) = 1" "map_option length (dm_store d) = Some 1"
proof -
  have "(case daemon_run demo_daemon demo_held of
      None \<Rightarrow> False
    | Some d \<Rightarrow>
        (case mget (dm_leases d) ''h'' of
           None \<Rightarrow> False
         | Some l \<Rightarrow> hr_State (ml_result l) = MaintenanceHeld \<and> contextsOverlap (en_maintenanceContexts (dm_entries d 0)) (ml_keys l)) \<and>
        dm_next d = 1 \<and> en_Owner (dm_entries d 0) = Some 0 \<and> entryAt d (en_ServerID (dm_entries d 0)) = None \<and>
        ma_nextProc (ow_ma (oo_owner (dm_objs d 0))) = 1 \<and> map_option length (dm_store d) = Some 1)"
    by code_simp
  then obtain d l where d: "daemon_run demo_daemon demo_held = Some d" "mget (dm_leases d) ''h'' = Some l" "hr_State (ml_result l) = MaintenanceHeld"
    "contextsOverlap (en_maintenanceContexts (dm_entries d 0)) (ml_keys l)" "dm_next d = 1" "en_Owner (dm_entries d 0) = Some 0"
    "entryAt d (en_ServerID (dm_entries d 0)) = None" "ma_nextProc (ow_ma (oo_owner (dm_objs d 0))) = 1" "map_option length (dm_store d) = Some 1"
    by (auto split: option.splits)
  show thesis by (rule that [OF d(1-3)]) (use d(4-9) in \<open>auto simp: contextsOverlap_def list_ex_iff\<close>)
qed

section \<open>The properties\<close>

text \<open>
  C8: Removals exclude each other. At any time in any run of the daemon, at most one of the goroutines that
  remove owners works on an entry, from its claim to its last section on the entry; that entry is marked, has
  an owner, and no snapshot holds a pin on it. So the branch of the commit that finds a pin
  gained during the finalisation is never taken.
\<close>
theorem removal_is_exclusive:
  assumes "daemon_run (newDaemon persist locks idle isolatedIdle delay scope text sha canon entries objs) evs = Some d"
    "worksOn d tid e"
  shows "en_removalInProgress (dm_entries d e) \<and> en_snapshotPins (dm_entries d e) = 0 \<and> en_Owner (dm_entries d e) \<noteq> None \<and>
    (\<forall>tid'. worksOn d tid' e \<longrightarrow> tid' = tid)"
proof -
  note inv = reached_inv [OF assms(1)]
  have "en_removalInProgress (dm_entries d e)" "en_Owner (dm_entries d e) \<noteq> None" "e < dm_next d"
    using exclusiveD(2) [OF dinvD(5) [OF inv] assms(2)] by blast+
  moreover have "en_snapshotPins (dm_entries d e) = 0" using pinsOKD(2) [OF dinvD(6) [OF inv]] calculation by blast
  ultimately show ?thesis using exclusiveD(3) [OF dinvD(5) [OF inv]] assms(2) by blast
qed

theorem removal_is_exclusive_witness:
  "\<exists>d. daemon_run demo_daemon demo_holding = Some d \<and> worksOn d 2 0 \<and> en_removalInProgress (dm_entries d 0) \<and>
     en_snapshotPins (dm_entries d 0) = 0 \<and> (\<forall>tid. worksOn d tid 0 \<longrightarrow> tid = 2)"
proof -
  obtain d where d: "daemon_run demo_daemon demo_holding = Some d" "worksOn d 2 0" using demo_holding_run by blast
  then show ?thesis using removal_is_exclusive [OF d(1) [unfolded demo_daemon_def] d(2)] by blast
qed

text \<open>
  C4: An owner leaves the registry only after its processes are gone. In any run of the daemon, whatever
  removes owners concurrently (the operator, the reaper, a failed upstream, maintenance, shutdown), an owner whose
  entry is not in the registry any more is retired: it has no upstream process, and every process
  that it ever started has been proven gone.
\<close>
theorem removed_owner_left_no_process:
  assumes "daemon_run (newDaemon persist locks idle isolatedIdle delay scope text sha canon entries objs) evs = Some d"
    "e < dm_next d" "en_Owner (dm_entries d e) = Some r" "entryAt d (en_ServerID (dm_entries d e)) \<noteq> Some e"
  shows "oo_done (dm_objs d r) \<and> ma_upstream (ow_ma (oo_owner (dm_objs d r))) = None \<and>
    (\<forall>q<ma_nextProc (ow_ma (oo_owner (dm_objs d r))).
       q \<in> daemonProvenRun (newDaemon persist locks idle isolatedIdle delay scope text sha canon entries objs) evs r)"
proof -
  note inv = reached_inv [OF assms(1)]
  have "oo_done (dm_objs d r)" using dinvD(4) [OF inv] assms(2-4) by (auto simp: gone_def registered_def)
  moreover have "r < dm_nextOwner d" using dinvD(2) [OF inv] assms(2,3) by (auto simp: owned_def)
  ultimately show ?thesis using retired_obj dinv_objs [OF inv] by blast
qed

theorem removed_owner_left_no_process_witness:
  "\<exists>d. daemon_run demo_daemon demo_held = Some d \<and> oo_done (dm_objs d 0) \<and> ma_upstream (ow_ma (oo_owner (dm_objs d 0))) = None \<and>
     0 \<in> daemonProvenRun demo_daemon demo_held 0"
proof -
  obtain d where d: "daemon_run demo_daemon demo_held = Some d" "dm_next d = 1" "en_Owner (dm_entries d 0) = Some 0"
    "entryAt d (en_ServerID (dm_entries d 0)) = None" "ma_nextProc (ow_ma (oo_owner (dm_objs d 0))) = 1" using demo_held_run by blast
  then show ?thesis using removed_owner_left_no_process [OF d(1) [unfolded demo_daemon_def] _ d(3)] by (simp add: demo_daemon_def)
qed

text \<open>
  C3: A published maintenance hold keeps its promise. In any run of the daemon, while a hold is \<open>HELD\<close>, no
  owner of any of the launch contexts that it covers, in the registry or not, has a process: every
  such owner is retired, all its processes have been proven gone, and an entry without an owner is not in the
  registry.
\<close>
theorem held_contexts_have_no_process:
  assumes "daemon_run (newDaemon persist locks idle isolatedIdle delay scope text sha canon entries objs) evs = Some d"
    "mget (dm_leases d) i = Some l" "hr_State (ml_result l) = MaintenanceHeld" "e < dm_next d"
    "set (en_maintenanceContexts (dm_entries d e)) \<inter> set (ml_keys l) \<noteq> {}"
  shows "case en_Owner (dm_entries d e) of
      None \<Rightarrow> entryAt d (en_ServerID (dm_entries d e)) \<noteq> Some e
    | Some r \<Rightarrow> oo_done (dm_objs d r) \<and> ma_upstream (ow_ma (oo_owner (dm_objs d r))) = None \<and>
        (\<forall>q<ma_nextProc (ow_ma (oo_owner (dm_objs d r))).
           q \<in> daemonProvenRun (newDaemon persist locks idle isolatedIdle delay scope text sha canon entries objs) evs r)"
proof -
  note inv = reached_inv [OF assms(1)]
  have ok: "lease_ok d l" using leases_okD(2) [OF table_ok [OF inv] assms(2)] by blast
  have "pinDone d pin" if "pin \<in> set (ml_pins l)" for pin using lease_okD(6) [OF ok that assms(3)] .
  moreover have "e \<in> pin_entry ` set (ml_pins l)" if "registered d e" using ok that assms(4,5) unfolding lease_ok_def by blast
  ultimately have reg: "case en_Owner (dm_entries d e) of None \<Rightarrow> \<not> registered d e | Some r \<Rightarrow> oo_done (dm_objs d r)" if "registered d e"
    using that unfolding pinDone_def by blast
  show ?thesis
  proof (cases "en_Owner (dm_entries d e)")
    case None
    then show ?thesis using reg by (auto simp: registered_def)
  next
    case (Some r)
    have "oo_done (dm_objs d r)" using Some reg dinvD(4) [OF inv] assms(4) by (cases "registered d e") (auto simp: gone_def)
    moreover have "r < dm_nextOwner d" using dinvD(2) [OF inv] assms(4) Some by (auto simp: owned_def)
    ultimately show ?thesis using retired_obj dinv_objs [OF inv] Some by fastforce
  qed
qed

theorem held_contexts_have_no_process_witness:
  "\<exists>d. daemon_run demo_daemon demo_held = Some d \<and> en_Owner (dm_entries d 0) = Some 0 \<and> oo_done (dm_objs d 0) \<and>
     ma_upstream (ow_ma (oo_owner (dm_objs d 0))) = None \<and> 0 \<in> daemonProvenRun demo_daemon demo_held 0"
proof -
  obtain d l where d: "daemon_run demo_daemon demo_held = Some d" "mget (dm_leases d) ''h'' = Some l" "hr_State (ml_result l) = MaintenanceHeld"
    "set (en_maintenanceContexts (dm_entries d 0)) \<inter> set (ml_keys l) \<noteq> {}" "dm_next d = 1" "en_Owner (dm_entries d 0) = Some 0"
    "ma_nextProc (ow_ma (oo_owner (dm_objs d 0))) = 1" using demo_held_run by blast
  have "0 < dm_next d" using d(5) by simp
  from held_contexts_have_no_process [OF d(1) [unfolded demo_daemon_def] d(2,3) this d(4)] show ?thesis using d by (simp add: demo_daemon_def)
qed

text \<open>
  C9: The ledger of maintenance holds is what the daemon holds. In any run, with any failures of the file
  system, whenever the last commit succeeded the durable ledger lists exactly the holds of the daemon,
  ordered by their identifiers. No launch context is covered by two holds, and a released hold is not kept.
\<close>
theorem ledger_matches_holds:
  assumes "daemon_run (newDaemon persist locks idle isolatedIdle delay scope text sha canon entries objs) evs = Some d"
  shows "(\<forall>recs. dm_store d = Some recs \<longrightarrow> recs = map (\<lambda>i. leaseRecord (the (mget (dm_leases d) i))) (sort (map fst (dm_leases d)))) \<and>
    (\<forall>i l. mget (dm_leases d) i = Some l \<longrightarrow> hr_HoldID (ml_result l) = i \<and> hr_State (ml_result l) \<noteq> MaintenanceReleased) \<and>
    (\<forall>i j l m. mget (dm_leases d) i = Some l \<longrightarrow> mget (dm_leases d) j = Some m \<longrightarrow> i \<noteq> j \<longrightarrow> set (ml_keys l) \<inter> set (ml_keys m) = {})"
proof -
  have h: "holds_ok d" using dinvD(8) [OF reached_inv [OF assms]] .
  have "hr_State (ml_result l) \<noteq> MaintenanceReleased" if "lease_ok d l" for l using lease_okD(2) [OF that] .
  then show ?thesis using h unfolding holds_ok_def maintenanceRecords_def by blast
qed

theorem ledger_matches_holds_witness:
  "\<exists>d l. daemon_run demo_daemon demo_held = Some d \<and> mget (dm_leases d) ''h'' = Some l \<and>
     dm_store d = Some (map (\<lambda>i. leaseRecord (the (mget (dm_leases d) i))) (sort (map fst (dm_leases d))))"
proof -
  obtain d l where d: "daemon_run demo_daemon demo_held = Some d" "mget (dm_leases d) ''h'' = Some l" "map_option length (dm_store d) = Some 1"
    using demo_held_run by blast
  then show ?thesis using ledger_matches_holds [OF d(1) [unfolded demo_daemon_def]] by auto
qed

end
