(* ===== verification/Daemon_Policy.thy ===== *)
theory Daemon_Policy
  imports Daemon_Safety
begin

text \<open>
  Three policies of the daemon against their specifications: which owners the reaper evicts, when a
  command is in a crash loop, and which launches share a maintenance context.
\<close>

section \<open>Eviction\<close>

lemma sampleOwner_fields:
  "ev_Sessions (snd (sampleOwner now p t s oo)) = ownerSessionCount oo" "ev_PendingSessions (snd (sampleOwner now p t s oo)) = SessionMgrPending oo"
  "ev_Persistent (snd (sampleOwner now p t s oo)) = p" "ev_PendingRequests (snd (sampleOwner now p t s oo)) = PendingRequests oo"
  "ev_ActiveProgressTokens (snd (sampleOwner now p t s oo)) = ActiveProgressTokens oo"
  "ev_UpstreamDead (snd (sampleOwner now p t s oo)) = UpstreamDead oo" "ev_CacheReady (snd (sampleOwner now p t s oo)) = CacheReady oo"
  "ev_MaterializationBlocked (snd (sampleOwner now p t s oo)) = MaterializationBlocksEviction oo"
  "ev_HasBusyWork (snd (sampleOwner now p t s oo)) \<longleftrightarrow> snd (ownerHasActiveBusyWork now oo)"
  "ev_LastSession (snd (sampleOwner now p t s oo)) = s" "ev_LastActivity (snd (sampleOwner now p t s oo)) = LastActivity oo"
  by (simp_all add: sampleOwner_def split: prod.split)

lemma sweep_starts:
  assumes "dm_removers (sweepOwner now d v) \<noteq> dm_removers d"
  shows "\<not> oo_done (dm_objs d (rv_owner v)) \<and>
    de_evict (shouldEvict (snd (sampleOwner now (rv_persistent v) (rv_idleTimeout v) (rv_lastSession v) (dm_objs d (rv_owner v)))) now
      (dm_ownerIdleTimeout d) (dm_isolatedIdleTimeout d))"
  using assms by (auto simp: sweepOwner_def Let_def split: if_splits prod.splits)

text \<open>The idle time after which the reaper evicts the owner of a view.\<close>

definition viewIdle :: "time \<Rightarrow> daemon \<Rightarrow> reaperOwnerView \<Rightarrow> duration" where
  "viewIdle now d v =
     effectiveIdle (snd (sampleOwner now (rv_persistent v) (rv_idleTimeout v) (rv_lastSession v) (dm_objs d (rv_owner v))))
       (dm_ownerIdleTimeout d) (dm_isolatedIdleTimeout d)"

text \<open>
  C10: The reaper takes only owners that nobody uses. In any run of the daemon, when the sweep starts the
  removal of an owner, the owner is not retired yet, has no session and no reserved session,
  is not persistent, and no start, restart or retirement of its process is in progress; and either its
  process is dead with nothing cached to serve from, or no request is in flight in it, no progress
  token and no busy declaration is active, and its last session and its last activity are further back than its idle
  timeout, which is positive.
\<close>
theorem reaper_evicts_only_unused:
  assumes "daemon_run (newDaemon persist locks idle isolatedIdle delay scope text sha canon entries objs) evs = Some d"
    "rv_owner v < dm_nextOwner d" "oo = dm_objs d (rv_owner v)" "dm_removers (sweepOwner now d v) \<noteq> dm_removers d"
  shows "\<not> oo_done oo \<and> ow_sessions (oo_owner oo) = [] \<and> pending (oo_mgr oo) = [] \<and> \<not> rv_persistent v \<and> \<not> MaterializationBlocksEviction oo \<and>
    (UpstreamDead oo \<and> \<not> CacheReady oo \<or>
     ro_inflight (ow_ro (oo_owner oo)) = [] \<and> ro_progressOwners (ow_ro (oo_owner oo)) = [] \<and> \<not> snd (ownerHasActiveBusyWork now oo) \<and>
     0 < viewIdle now d v \<and> viewIdle now d v < now - rv_lastSession v \<and> viewIdle now d v < now - LastActivity oo)"
proof -
  have "obj_ok (daemonProvenRun (newDaemon persist locks idle isolatedIdle delay scope text sha canon entries objs) evs (rv_owner v)) oo"
    using dinv_objs [OF reached_inv [OF assms(1)] assms(2)] assms(3) by simp
  then have count: "int (mlen (ro_inflight (ow_ro (oo_owner oo)))) \<le> PendingRequests oo"
    by (simp add: obj_ok_def ocounted_def counted_def PendingRequests_def)
  have late: "t < now - a \<and> t < now - b" if "0 < t" "t < time_sub now (max a b)" for t a b
    using that by (auto simp: time_sub_def min_def max_def split: if_splits)
  note ev = sweep_starts [OF assms(4)]
  show ?thesis
    using ev late [of "viewIdle now d v" "rv_lastSession v" "LastActivity oo"] count
    unfolding assms(3) [symmetric] shouldEvict_iff quietOwner_def sampleOwner_fields
    by (auto simp: viewIdle_def assms(3) [symmetric] ownerSessionCount_def SessionMgrPending_def PendingCount_def ActiveProgressTokens_def
        simp flip: mlen_0_iff)
qed

section \<open>Crash loops\<close>

lemma dropWhile_sorted: "sorted xs \<Longrightarrow> dropWhile (\<lambda>t. t < c) xs = filter (\<lambda>t. \<not> t < c) xs" for c :: int
proof (induction xs)
  case (Cons x xs)
  show ?case
  proof (cases "x < c")
    case False
    then have "\<forall>y\<in>set xs. \<not> y < c" using Cons.prems by force
    then have "filter (\<lambda>t. \<not> t < c) xs = xs" by (simp add: filter_id_conv)
    then show ?thesis using False by simp
  qed (use Cons in simp)
qed simp

lemma crashes_record:
  "crashesOf (recordCrash now key d) k =
     (if k = key then dropWhile (\<lambda>t. t < now - crashWindow) (crashesOf d key @ [now]) else crashesOf d k)"
  by (simp add: crashesOf_def recordCrash_def)

text \<open>The crashes of a command in a history of all crashes.\<close>

definition crashTimes :: "bytes \<Rightarrow> (time \<times> bytes) list \<Rightarrow> time list" where
  "crashTimes key evs = map fst (filter (\<lambda>(t, k). k = key) evs)"

definition crashes :: "daemon \<Rightarrow> (time \<times> bytes) list \<Rightarrow> daemon" where
  "crashes d evs = foldl (\<lambda>d (t, k). recordCrash t k d) d evs"

lemma crashes_kept:
  assumes "sorted (map fst evs)" "dm_crashTracker d = []"
  shows "sorted (crashesOf (crashes d evs) key) \<and> set (crashesOf (crashes d evs) key) \<subseteq> set (crashTimes key evs) \<and>
    (\<forall>now. (\<forall>p\<in>set evs. fst p \<le> now) \<longrightarrow>
       filter (\<lambda>t. \<not> t < now - crashWindow) (crashesOf (crashes d evs) key) = filter (\<lambda>t. \<not> t < now - crashWindow) (crashTimes key evs))"
  using assms(1)
proof (induction evs rule: rev_induct)
  case Nil
  then show ?case using assms(2) by (simp add: crashes_def crashTimes_def crashesOf_def mget_def)
next
  case (snoc p evs)
  obtain t k where p: "p = (t, k)" by force
  let ?cs = "crashesOf (crashes d evs) key"
  have ih: "sorted ?cs" "set ?cs \<subseteq> set (crashTimes key evs)"
    "\<And>now. (\<forall>p\<in>set evs. fst p \<le> now) \<Longrightarrow>
       filter (\<lambda>t. \<not> t < now - crashWindow) ?cs = filter (\<lambda>t. \<not> t < now - crashWindow) (crashTimes key evs)"
    using snoc by (simp_all add: sorted_append)
  have before: "\<forall>x\<in>set evs. fst x \<le> t" using snoc.prems by (auto simp: sorted_append p)
  then have le: "\<forall>x\<in>set ?cs. x \<le> t" using ih(2) by (auto simp: crashTimes_def)
  then have sort: "sorted (?cs @ [t])" using ih(1) by (simp add: sorted_append)
  have new: "crashesOf (crashes d (evs @ [p])) key = (if k = key then filter (\<lambda>x. \<not> x < t - crashWindow) (?cs @ [t]) else ?cs)"
    using dropWhile_sorted [OF sort] by (simp add: crashes_def p crashes_record)
  have times: "crashTimes key (evs @ [p]) = crashTimes key evs @ (if k = key then [t] else [])" by (simp add: crashTimes_def p)
  have "filter (\<lambda>x. \<not> x < now - crashWindow) (crashesOf (crashes d (evs @ [p])) key) =
      filter (\<lambda>x. \<not> x < now - crashWindow) (crashTimes key (evs @ [p]))" if now: "\<forall>q\<in>set (evs @ [p]). fst q \<le> now" for now
  proof -
    have "t \<le> now" using now p by simp
    then have "filter (\<lambda>x. \<not> x < now - crashWindow) (filter (\<lambda>x. \<not> x < t - crashWindow) xs) = filter (\<lambda>x. \<not> x < now - crashWindow) xs" for xs
      by (induction xs) auto
    moreover have "\<not> crashWindow < 0" by (simp add: crashWindow_def seconds_def)
    ultimately show ?thesis using ih(3) [of now] now unfolding new times by (cases "k = key") (simp_all del: filter_filter)
  qed
  moreover have "sorted (filter (\<lambda>x. \<not> x < t - crashWindow) (?cs @ [t]))" 
    using sorted_filter [of "\<lambda>x. x" "?cs @ [t]" "\<lambda>x. \<not> x < t - crashWindow"] sort by (simp only: list.map_ident)
  ultimately show ?case using ih(1,2) unfolding new times by auto
qed

text \<open>
  C22: A command is in a crash loop exactly when it has crashed at least five times in the last minute. The
  daemon drops old crashes of a command whenever it records a new one; for every history of crashes in the order
  of time, of any commands, the answer is the same as counting over the whole history.
\<close>
theorem crash_loop_exact:
  assumes "dm_crashTracker d = []" "sorted (map fst evs)" "\<forall>p\<in>set evs. fst p \<le> now"
  shows "isCrashLooping now key (foldl (\<lambda>d (t, k). recordCrash t k d) d evs) \<longleftrightarrow>
    5 \<le> length (filter (\<lambda>(t, k). k = key \<and> now - seconds 60 \<le> t) evs)"
proof -
  let ?cs = "crashesOf (crashes d evs) key"
  let ?old = "\<lambda>t. \<not> t < now - crashWindow"
  have "isCrashLooping now key (crashes d evs) \<longleftrightarrow> 5 \<le> length (filter ?old ?cs)"
    unfolding isCrashLooping_def crashThreshold_def Let_def using order_trans [OF _ length_filter_le [of ?old ?cs], of 5] by auto
  also have "filter ?old ?cs = filter ?old (crashTimes key evs)" using crashes_kept [OF assms(2,1)] assms(3) by blast
  also have "length (filter ?old (crashTimes key evs)) = length (filter (\<lambda>(t, k). k = key \<and> now - seconds 60 \<le> t) evs)"
    by (induction evs) (auto simp: crashTimes_def crashWindow_def not_less)
  finally show ?thesis by (simp add: crashes_def)
qed

theorem crash_loop_exact_witness:
  "isCrashLooping 5 ''srv '' (foldl (\<lambda>d (t, k). recordCrash t k d) demo_daemon (map (\<lambda>t. (t, ''srv '')) [0, 1, 2, 3, 4]))"
proof -
  have "dm_crashTracker demo_daemon = []" by (simp add: demo_daemon_def newDaemon_def)
  then show ?thesis using crash_loop_exact [of demo_daemon "map (\<lambda>t. (t, ''srv '')) [0, 1, 2, 3, 4]" 5 "''srv ''"]
    by (simp add: seconds_def)
qed

section \<open>Maintenance contexts\<close>

lemma length_bigEndian [simp]: "length (bigEndian k n) = k"
  by (induction k arbitrary: n) simp_all

lemma bigEndian_inj: "bigEndian k a = bigEndian k b \<Longrightarrow> a < 256 ^ k \<Longrightarrow> b < 256 ^ k \<Longrightarrow> a = b"
proof (induction k arbitrary: a b)
  case (Suc k)
  have "byte_of (a mod 256) = byte_of (b mod 256)" "bigEndian k (a div 256) = bigEndian k (b div 256)" using Suc.prems(1) by simp_all
  moreover have "a div 256 < 256 ^ k" "b div 256 < 256 ^ k" using Suc.prems(2,3) by (simp_all add: less_mult_imp_div_less mult.commute)
  ultimately have "a div 256 = b div 256" using Suc.IH by blast
  moreover have "a mod 256 = b mod 256"
    using arg_cong [OF \<open>byte_of (a mod 256) = byte_of (b mod 256)\<close>, of byte_val] by (simp add: byte_val_of)
  ultimately show ?case by (metis div_mult_mod_eq)
qed simp

definition short :: "bytes \<Rightarrow> bool" where
  "short v \<longleftrightarrow> length v < 2 ^ 64"

lemma writeField_inj:
  assumes "writeField v @ r = writeField w @ t" "short v" "short w"
  shows "v = w \<and> r = t"
proof -
  have "bigEndian 8 (length v) = bigEndian 8 (length w) \<and> v @ r = w @ t"
    using assms(1) by (simp add: writeField_def)
  then show ?thesis using bigEndian_inj [of 8 "length v" "length w"] assms(2,3) by (simp add: short_def)
qed

lemma fields_inj:
  "concat (map writeField vs) = concat (map writeField ws) \<Longrightarrow> list_all short vs \<Longrightarrow> list_all short ws \<Longrightarrow> vs = ws"
proof (induction vs arbitrary: ws)
  case Nil
  then show ?case by (cases ws) (auto simp: writeField_def dest: arg_cong [of _ _ length])
next
  case (Cons v vs)
  then obtain w ws' where ws: "ws = w # ws'" by (cases ws) (auto simp: writeField_def dest: arg_cong [of _ _ length])
  have "v = w \<and> concat (map writeField vs) = concat (map writeField ws')"
    by (rule writeField_inj) (use Cons.prems ws in simp_all)
  then show ?case using Cons ws by simp
qed

lemma hexDigit_inj: "a < 16 \<Longrightarrow> b < 16 \<Longrightarrow> (''0123456789abcdef'' :: string) ! a = ''0123456789abcdef'' ! b \<Longrightarrow> a = b"
  by (rule nth_eq_iff_index_eq [THEN iffD1, of "''0123456789abcdef''"]) simp_all

lemma length_hexEncode [simp]: "length (hexEncode s) = 2 * length s"
  by (induction s) (simp_all add: hexEncode_def)

lemma hexEncode_inj: "hexEncode s = hexEncode t \<Longrightarrow> s = t"
proof (induction s arbitrary: t)
  case Nil
  then show ?case by (cases t) (simp_all add: hexEncode_def)
next
  case (Cons c s)
  then obtain e t' where t: "t = e # t'" by (cases t) (simp_all add: hexEncode_def)
  have digits: "byte_val x div 16 < 16" "byte_val x mod 16 < 16" for x
    using byte_val_less [of x] by (simp_all add: less_mult_imp_div_less)
  have "byte_val c div 16 = byte_val e div 16" "byte_val c mod 16 = byte_val e mod 16"
    by (rule hexDigit_inj; use digits Cons.prems in \<open>simp add: t hexEncode_def\<close>)+
  then have "byte_val c = byte_val e" by (metis div_mult_mod_eq)
  then have "c = e" by (simp add: byte_val_def)
  then show ?case using Cons t by (simp add: hexEncode_def)
qed

lemma digest_inj: "inj sha \<Longrightarrow> list_all short vs \<Longrightarrow> list_all short ws \<Longrightarrow> maintenanceDigest sha vs = maintenanceDigest sha ws \<Longrightarrow> vs = ws"
  unfolding maintenanceDigest_def by (auto dest!: hexEncode_inj injD intro: fields_inj)

definition envFields :: "env \<Rightarrow> bytes list" where
  "envFields e = fingerprintVersion # concat (map (\<lambda>key. [key, valueOf e key]) (identityKeys e))"

lemma hashInput_fields: "hashInput e = concat (map writeField (envFields e))"
proof -
  have "concat (map (\<lambda>key. writeField key @ writeField (valueOf e key)) ks) =
      concat (map writeField (concat (map (\<lambda>key. [key, valueOf e key]) ks)))" for ks by (induction ks) simp_all
  then show ?thesis by (simp add: hashInput_def envFields_def)
qed

lemma pairs_inj: "concat (map (\<lambda>k. [k, f k]) ks) = concat (map (\<lambda>k. [k, g k]) ls) \<Longrightarrow> ks = ls \<and> (\<forall>k\<in>set ks. f k = g k)"
proof (induction ks arbitrary: ls)
  case Nil
  then show ?case by (cases ls) simp_all
next
  case (Cons k ks)
  then obtain l ls' where "ls = l # ls'" by (cases ls) simp_all
  then show ?case using Cons by auto
qed

lemma hashInput_inj:
  assumes "envOK a" "envOK b" "list_all short (envFields a)" "list_all short (envFields b)" "hashInput a = hashInput b"
  shows "projection a = projection b"
proof
  fix key
  have "envFields a = envFields b" using assms(3-5) unfolding hashInput_fields by (blast intro: fields_inj)
  then have keys: "identityKeys a = identityKeys b" "\<forall>k\<in>set (identityKeys a). valueOf a k = valueOf b k"
    using pairs_inj [of "valueOf a" "identityKeys a" "valueOf b" "identityKeys b"] by (simp_all add: envFields_def)
  have "{k. projection a k \<noteq> None} = {k. projection b k \<noteq> None}"
    using keys(1) identityKeys_set [OF assms(1)] identityKeys_set [OF assms(2)] by simp
  then have "projection a key = None \<longleftrightarrow> projection b key = None" by (metis (mono_tags, lifting) mem_Collect_eq)
  moreover have "projection a key = projection b key" if "projection a key \<noteq> None" "projection b key \<noteq> None"
  proof -
    have "projection x key = Some (valueOf x key)" if "projection x key \<noteq> None" for x
      using that by (auto simp: projection_def valueOf_def split: if_splits option.splits)
    moreover have "valueOf a key = valueOf b key" using keys(2) that(1) identityKeys_set [OF assms(1)] by blast
    ultimately show ?thesis using that by metis
  qed
  ultimately show "projection a key = projection b key" by (cases "projection a key") auto
qed

text \<open>No field of the launch is longer than its length prefix can say.\<close>

definition shortLaunch :: "daemon \<Rightarrow> ProtocolEra \<Rightarrow> bytes \<Rightarrow> bytes list \<Rightarrow> bytes \<Rightarrow> env \<Rightarrow> bool" where
  "shortLaunch d era command args cwd e \<longleftrightarrow> list_all short (contextFields d era command args cwd e) \<and> list_all short (envFields e)"


definition demo_inj :: daemon where
  "demo_inj = demo_daemon\<lparr>dm_sha := (\<lambda>b. b)\<rparr>"


section \<open>An eviction\<close>

definition demo_idle :: "(time \<times> daemon_event) list" where
  "demo_idle =
     map (\<lambda>ev. (0, ev))
       [DmReserve ''a'' ''srv'' [] [] None ''g'',
        DmPromote 0 [] False 1 ''srv'' 1 1 (demo_config\<lparr>cfg_DeferInitialMaterialization := True\<rparr>) demo_outside]"

definition demo_idle_daemon :: daemon where
  "demo_idle_daemon =
     newDaemon [] [] 10 0 0 ''s'' (\<lambda>_. ''t'') (\<lambda>_. ''k'') (\<lambda>b. b) (\<lambda>_. placeholderEntry [] [] [] [] None [] [] 0) (\<lambda>_. demo_obj)"

lemma demo_idle_run:
  obtains d v where "daemon_run demo_idle_daemon demo_idle = Some d" "ownerViews d = [v]" "rv_owner v < dm_nextOwner d"
    "dm_removers (sweepOwner 100 d v) \<noteq> dm_removers d"
proof -
  have "(case daemon_run demo_idle_daemon demo_idle of
      None \<Rightarrow> False
    | Some d \<Rightarrow> (case ownerViews d of
         [v] \<Rightarrow> rv_owner v < dm_nextOwner d \<and> dm_removers d = [] \<and> dm_removers (sweepOwner 100 d v) \<noteq> []
       | _ \<Rightarrow> False))"
    by code_simp
  then show thesis using that by (auto split: option.splits list.splits)
qed

theorem reaper_evicts_only_unused_witness:
  "\<exists>d v. daemon_run demo_idle_daemon demo_idle = Some d \<and> ownerViews d = [v] \<and> dm_removers (sweepOwner 100 d v) \<noteq> dm_removers d \<and>
     ow_sessions (oo_owner (dm_objs d (rv_owner v))) = []"
proof -
  obtain d v where d: "daemon_run demo_idle_daemon demo_idle = Some d" "ownerViews d = [v]" "rv_owner v < dm_nextOwner d"
    "dm_removers (sweepOwner 100 d v) \<noteq> dm_removers d" using demo_idle_run by blast
  then show ?thesis using reaper_evicts_only_unused [OF d(1) [unfolded demo_idle_daemon_def] d(3) refl d(4)] by blast
qed

end
