(* ===== verification/Spec2Isabelle.thy ===== *)
theory Spec2Isabelle
  imports Fallback Runner_Requests Owner_Answers Daemon_Policy
begin

text \<open>
  A verification library for mcp-mux (\<open>src/muxcore\<close>), a multiplexer that lets several clients of the
  Model Context Protocol share one server process.

  \<^bold>\<open>The program.\<close> A client talks JSON-RPC, one message per line, to a shim. The shim (or the engine) runs
  under a \<^emph>\<open>supervisor\<close> that can replace its child without losing requests. The daemon holds one \<^emph>\<open>owner\<close>
  per server; the owner accepts sessions, forwards their requests to the server under fresh ids,
  routes the answers back, replays cached lists, starts the server when it is needed and retires it
  when it dies. A \<^emph>\<open>session manager\<close> keeps the tokens of sessions that may connect or reconnect.

  \<^bold>\<open>Shared theories.\<close>
  \<^item> \<open>Prelude\<close>: Go values as HOL values (bytes, times, errors as \<open>Inl\<close>), maps with an iteration order
    (\<open>gomap\<close>), the generic lemmas and the locale of keyed stores that the components interpret.
  \<^item> \<open>Go_Text\<close>, \<open>Json\<close>, \<open>Numbers\<close>, \<open>Struct_Decode\<close>: the parts of the Go library that the code rests on:
    string functions, \<open>encoding/json\<close> (scanner, quoting, raw messages, maps, struct fields), decimal
    numbers. The recursion of the JSON scanner runs on fuel that is the length of the input, which is
    enough because every step consumes a byte.

  \<^bold>\<open>Sessions.\<close>
  \<^item> \<open>Session_Manager\<close> (\<open>session/session_manager.go\<close>): every operation of the manager as a function on its
    record. Tokens are single use, a handshake yields the registered context, reconnects are
    granted exactly when they should be, callbacks go to the session that is active.
  \<^item> \<open>Session_Conn\<close> (\<open>session/session.go\<close>): writing, closing and the bounded notification queue.
  \<^item> \<open>Env_Identity\<close> (\<open>internal/envidentity\<close>): which environments name the same server; the hash function
    is a parameter.
  \<^item> \<open>Busy\<close> (\<open>busy\<close>, and the table of declarations in \<open>owner/owner.go\<close>).

  \<^bold>\<open>Messages.\<close>
  \<^item> \<open>Jsonrpc\<close> (\<open>jsonrpc\<close>): classification, id replacement, injection of \<open>_meta\<close>, line framing.
  \<^item> \<open>Remap\<close> (\<open>remap\<close>): ids that carry their session; injective, and restored exactly.
  \<^item> \<open>Progress\<close> (\<open>progress\<close>), \<open>Classify\<close> (\<open>classify\<close>), \<open>List_Changed\<close> (\<open>listchanged\<close>).

  \<^bold>\<open>The supervisor\<close> (\<open>supervisor\<close>).
  \<^item> \<open>Frame\<close>, \<open>Era\<close>, \<open>Pending\<close>, \<open>Fences\<close>, \<open>Correlation\<close>, \<open>Registry\<close>: frames, the protocol eras, the
    bounded queue of frames, tombstones, and the registry that pairs requests with answers in one
    direction.
  \<^item> \<open>Runner_State\<close>, \<open>Runner_Host\<close>, \<open>Runner_Child\<close>, \<open>Initialize_Contract\<close>, \<open>Runner\<close>, \<open>Fallback\<close>: the event loop
    with every handler. What the outside decides (whether a write succeeds, whether a start works,
    which event comes next) is an answer of an environment record, so that a run is a function of
    the events and the answers.
  \<^item> \<open>Runner_Inv\<close>, \<open>Runner_Safety\<close>, \<open>Runner_Requests\<close>: the invariant of the loop and its consequences. A
    request of the host is never lost silently, live requests have a child, the loop is never stuck.

  \<^bold>\<open>The owner\<close> (\<open>owner/owner.go\<close>, \<open>owner/materialization.go\<close>, \<open>owner/maintenance.go\<close>).
  \<^item> \<open>Owner_State\<close>: the state, grouped into routing tables, caches, classification, the upstream
    generation and the environment, and the small actions. A Go pointer to a session is the pair of
    its number and its address, a process is a number.
  \<^item> \<open>Owner_Cache\<close>, \<open>Owner_Route\<close>, \<open>Owner_Materialize\<close>, \<open>Owner_Lifecycle\<close>, \<open>Owner_Handlers\<close>: the operations in
    the order of the code. Goroutines that wait are explicit: the attempt that starts a process is a
    step function over its phases, a retirement under way is an entry of a list, a tool watchdog is
    an entry of a list; the events of \<open>owner_step\<close> wake them in any order. \<open>None\<close> is a panic.
  \<^item> \<open>Owner_Inv\<close>, \<open>Owner_Safety\<close>: what every event keeps. An owner never has two processes that are not proven
    gone, the count of pending requests covers what is in flight, persistence and isolation stay.
  \<^item> \<open>Owner_Answers\<close>: a forwarded request and its answer, and the errors for requests whose server did not
    come up.

  \<^bold>\<open>Bounds and fuel.\<close> Limits (queue lengths, tombstones, correlation tables, time-outs) are the constants
  of the code. Fuel occurs in the JSON scanner and in the event loop of the supervisor; in both the
  theorems show that the fuel given is enough. Go integers that can overflow are wrapped explicitly
  (\<open>Busy\<close>) or shown to stay in range.

  \<^bold>\<open>Not modelled.\<close> Operating-system processes, sockets, file locks, log rotation and self-update are only
  called; their results are arguments or answers of the environment. Of the owner, the modern
  protocol era, in-process session handlers, the accept loop with its handshake, handoff to a
  successor and the final removal are left out, and so are the test seams. The daemon, its
  maintenance store, the resilient client, the control protocol and the snapshot files are not yet
  modelled.
\<close>

end
